(* ===== verification/Prelude.thy ===== *)
theory Prelude
  imports Main "HOL-Library.Word" "HOL-Library.Monad_Syntax"
begin

text \<open>
  Shared vocabulary of the development: the machine integers of the source, memory reads and
  writes that fail outside the object they address, the little-endian accessor of
  \<^verbatim>\<open>usbh_def.h\<close>, the bounded message queue of the CMSIS-RTOS layer, and the theorem collections
  the component theories add to.

  A C function that can leave the defined behaviour of the language (an access outside an array,
  a null dereference) or that never returns is modelled with result type \<open>'a option\<close>: \<open>None\<close>
  means that the call does not return normally.
\<close>

unbundle bit_operations_syntax

named_theorems ll_defs \<open>definitions of the channel driver and of its wrappers\<close>
named_theorems ll_frame \<open>what the channel driver leaves unchanged\<close>
named_theorems mem_simps \<open>checked reads and writes that succeed\<close>
named_theorems byte_simps \<open>reads from a buffer given as a list of bytes\<close>
named_theorems host_frame \<open>fields of a handle that an operation leaves unchanged\<close>

type_synonym u8 = "8 word"
type_synonym u16 = "16 word"
type_synonym u32 = "32 word"

subsection \<open>Checked memory\<close>

definition rd :: "'a list \<Rightarrow> nat \<Rightarrow> 'a option" where
  "rd xs i = (if i < length xs then Some (xs ! i) else None)"

definition wr :: "'a list \<Rightarrow> nat \<Rightarrow> 'a \<Rightarrow> 'a list option" where
  "wr xs i x = (if i < length xs then Some (xs[i := x]) else None)"

lemma rd_Some [mem_simps]: "i < length xs \<Longrightarrow> rd xs i = Some (xs ! i)"
  by (simp add: rd_def)

lemma wr_Some [mem_simps]: "i < length xs \<Longrightarrow> wr xs i x = Some (xs[i := x])"
  by (simp add: wr_def)

lemma rd_eq_Some_iff: "rd xs i = Some v \<longleftrightarrow> i < length xs \<and> xs ! i = v"
  by (auto simp: rd_def)

lemma wr_eq_Some_iff: "wr xs i x = Some ys \<longleftrightarrow> i < length xs \<and> ys = xs[i := x]"
  by (auto simp: wr_def)

lemma rd_wr: "wr xs i x = Some ys \<Longrightarrow> rd ys j = (if j = i then Some x else rd xs j)"
  by (auto simp: rd_def wr_def split: if_splits)

lemma length_wr: "wr xs i x = Some ys \<Longrightarrow> length ys = length xs"
  by (auto simp: wr_eq_Some_iff)

lemma rd_Cons_0 [byte_simps]: "rd (x # xs) 0 = Some x"
  by (simp add: rd_def)

lemma rd_Cons_Suc [byte_simps]: "rd (x # xs) (Suc i) = rd xs i"
  by (simp add: rd_def)

lemma rd_Cons_numeral [byte_simps]: "rd (x # xs) (numeral n) = rd xs (pred_numeral n)"
  by (simp add: numeral_eq_Suc byte_simps)

text \<open>Reads through a pointer \<open>p\<close> that stands after the prefix \<open>pre\<close>.\<close>

lemma rd_shift [byte_simps]:
  assumes "length pre = p"
  shows "rd (pre @ xs) p = rd xs 0" "rd (pre @ xs) (Suc p) = rd xs 1"
    "rd (pre @ xs) (Suc (Suc p)) = rd xs 2" "rd (pre @ xs) (p + k) = rd xs k"
  using assms by (auto simp: rd_def nth_append)

subsection \<open>Little-endian fields\<close>

definition LE16 :: "u8 list \<Rightarrow> nat \<Rightarrow> u16 option" where
  "LE16 buf a = do {
     lo \<leftarrow> rd buf a;
     hi \<leftarrow> rd buf (a + 1);
     Some (ucast lo + push_bit 8 (ucast hi))
   }"

text \<open>The inverse layout, as the USB specification fixes it: low byte first.\<close>

definition le16_bytes :: "u16 \<Rightarrow> u8 list" where
  "le16_bytes w = [ucast w, ucast (drop_bit 8 w)]"

definition le32_bytes :: "u32 \<Rightarrow> u8 list" where
  "le32_bytes v = [ucast v, ucast (drop_bit 8 v), ucast (drop_bit 16 v), ucast (drop_bit 24 v)]"

definition le32_at :: "u8 list \<Rightarrow> nat \<Rightarrow> u32" where
  "le32_at m k = ucast (m ! k) OR push_bit 8 (ucast (m ! (k + 1))) OR push_bit 16 (ucast (m ! (k + 2))) OR
     push_bit 24 (ucast (m ! (k + 3)))"

lemma length_le16_bytes [simp]: "length (le16_bytes w) = 2"
  by (simp add: le16_bytes_def)

lemma le16_join: "ucast (ucast w :: u8) + push_bit 8 (ucast (ucast (drop_bit 8 w) :: u8)) = (w :: u16)"
proof -
  let ?lo = "ucast (ucast w :: u8) :: u16"
  let ?hi = "push_bit 8 (ucast (ucast (drop_bit 8 w) :: u8)) :: u16"
  have "?lo AND ?hi = 0"
    by (rule bit_word_eqI) (auto simp: bit_simps)
  then have "?lo + ?hi = ?lo OR ?hi"
    by (simp add: disjunctive_add_eq_or)
  also have "\<dots> = w"
    by (rule bit_word_eqI) (auto simp: bit_simps)
  finally show ?thesis .
qed

lemma LE16_here [byte_simps]: "LE16 (ucast w # ucast (drop_bit 8 w) # xs) 0 = Some w"
  by (simp add: LE16_def byte_simps le16_join)

lemma LE16_Cons_Suc [byte_simps]: "LE16 (x # xs) (Suc n) = LE16 xs n"
  by (simp add: LE16_def byte_simps)

lemma LE16_Cons_numeral [byte_simps]: "LE16 (x # xs) (numeral n) = LE16 xs (pred_numeral n)"
  by (simp add: numeral_eq_Suc byte_simps)

lemma LE16_shift [byte_simps]:
  assumes "length pre = p"
  shows "LE16 (pre @ xs) (p + k) = LE16 xs k"
proof -
  have "\<And>i. rd (pre @ xs) (p + k + i) = rd xs (k + i)"
    using rd_shift(4) [OF assms] by (simp only: add.assoc)
  from this [of 0] this [of 1] show ?thesis by (simp add: LE16_def)
qed

subsection \<open>The bounded message queue\<close>

text \<open>
  \<^verbatim>\<open>osMessagePut\<close> on a FreeRTOS queue that nobody empties meanwhile: the message is queued, or
  lost when the queue is full (every caller in the modelled code ignores the status).
\<close>

definition mq_put :: "nat \<Rightarrow> 'e list \<Rightarrow> 'e \<Rightarrow> 'e list" where
  "mq_put cap q e = (if length q < cap then q @ [e] else q)"

definition mq_get :: "'e list \<Rightarrow> ('e \<times> 'e list) option" where
  "mq_get q = (case q of [] \<Rightarrow> None | e # r \<Rightarrow> Some (e, r))"

lemma mq_put_nonempty [simp]: "0 < cap \<Longrightarrow> mq_put cap q e \<noteq> []"
  by (auto simp: mq_put_def)

lemma length_mq_put: "length q \<le> cap \<Longrightarrow> length (mq_put cap q e) \<le> cap"
  by (simp add: mq_put_def)

text \<open>A message queue as its clients see it: bounded, lossy when full, first in first out.\<close>

locale message_queue =
  fixes put :: "'q \<Rightarrow> 'e \<Rightarrow> 'q"
    and get :: "'q \<Rightarrow> ('e \<times> 'q) option"
    and items :: "'q \<Rightarrow> 'e list"
    and cap :: nat
  assumes items_put: "items (put q e) = (if length (items q) < cap then items q @ [e] else items q)"
    and get_items: "get q = None \<longleftrightarrow> items q = []"
    and get_fifo: "get q = Some (e, q') \<Longrightarrow> items q = e # items q'"
begin

lemma put_bounded: "length (items q) \<le> cap \<Longrightarrow> length (items (put q e)) \<le> cap"
  by (simp add: items_put)

lemma put_wakes: "0 < cap \<Longrightarrow> get (put q e) \<noteq> None"
  by (auto simp: get_items items_put)

lemma put_keeps: "set (items q) \<subseteq> set (items (put q e))"
  by (auto simp: items_put)

lemma put_order: "\<exists>r. items (put q e) = items q @ r"
  by (simp add: items_put)

lemma fold_put:
  "length (items q) + length es \<le> cap \<Longrightarrow> items (fold (\<lambda>e q. put q e) es q) = items q @ es"
proof (induction es arbitrary: q)
  case Nil
  then show ?case by simp
next
  case (Cons e es)
  then have "items (put q e) = items q @ [e]" by (simp add: items_put)
  with Cons show ?case by simp
qed

end

lemma mq_message_queue: "message_queue (mq_put cap) mq_get (\<lambda>q. q) cap"
  by unfold_locales (auto simp: mq_put_def mq_get_def split: list.splits)

end
