(* ===== verification/UsbTypes.thy ===== *)
theory UsbTypes
  imports Prelude
begin

text \<open>
  The data of the USB host library as its headers declare it: the enumerations, descriptors,
  control block, device and host handle of \<^verbatim>\<open>Core/Inc/usbh_def.h\<close>, the class handles of the hub and
  EC20 drivers, the channel record of the HAL, and the part of the state all handles share.

  Pointers that the code compares or follows are options or indices: a host handle is named by a
  number (\<open>hid\<close>), a class driver by the constructor of its static table entry, a data buffer by
  the object it points into (\<open>buf_ptr\<close>). Arrays are lists of the declared length.
\<close>

type_synonym hid = nat

subsection \<open>Enumerations\<close>

datatype USBH_StatusTypeDef =
  USBH_OK | USBH_BUSY | USBH_FAIL | USBH_NOT_SUPPORTED | USBH_UNRECOVERED_ERROR
| USBH_ERROR_SPEED_UNKNOWN

datatype HOST_StateTypeDef =
  HOST_IDLE | HOST_DEV_WAIT_FOR_ATTACHMENT | HOST_DEV_ATTACHED | HOST_DEV_DISCONNECTED
| HOST_DETECT_DEVICE_SPEED | HOST_ENUMERATION | HOST_CLASS_REQUEST | HOST_INPUT
| HOST_SET_CONFIGURATION | HOST_CHECK_CLASS | HOST_CLASS | HOST_SUSPENDED | HOST_ABORT_STATE

datatype ENUM_StateTypeDef =
  ENUM_IDLE | ENUM_GET_FULL_DEV_DESC | ENUM_SET_ADDR | ENUM_GET_CFG_DESC
| ENUM_GET_FULL_CFG_DESC | ENUM_GET_MFC_STRING_DESC | ENUM_GET_PRODUCT_STRING_DESC
| ENUM_GET_SERIALNUM_STRING_DESC

datatype CTRL_StateTypeDef =
  CTRL_IDLE | CTRL_SETUP | CTRL_SETUP_WAIT | CTRL_DATA_IN | CTRL_DATA_IN_WAIT | CTRL_DATA_OUT
| CTRL_DATA_OUT_WAIT | CTRL_STATUS_IN | CTRL_STATUS_IN_WAIT | CTRL_STATUS_OUT
| CTRL_STATUS_OUT_WAIT | CTRL_ERROR | CTRL_STALLED | CTRL_COMPLETE

datatype CMD_StateTypeDef = CMD_IDLE | CMD_SEND | CMD_WAIT

datatype USBH_URBStateTypeDef =
  USBH_URB_IDLE | USBH_URB_DONE | USBH_URB_NOTREADY | USBH_URB_NYET | USBH_URB_ERROR
| USBH_URB_STALL

datatype USBH_OSEventTypeDef =
  USBH_PORT_EVENT | USBH_URB_EVENT | USBH_CONTROL_EVENT | USBH_CLASS_EVENT
| USBH_STATE_CHANGED_EVENT

abbreviation USBH_SPEED_HIGH :: u8 where "USBH_SPEED_HIGH \<equiv> 0"
abbreviation USBH_SPEED_FULL :: u8 where "USBH_SPEED_FULL \<equiv> 1"
abbreviation USBH_SPEED_LOW :: u8 where "USBH_SPEED_LOW \<equiv> 2"

text \<open>The C value of an enumeration state, and the order it induces on the states.\<close>

primrec enum_val :: "ENUM_StateTypeDef \<Rightarrow> nat" where
  "enum_val ENUM_IDLE = 0"
| "enum_val ENUM_GET_FULL_DEV_DESC = 1"
| "enum_val ENUM_SET_ADDR = 2"
| "enum_val ENUM_GET_CFG_DESC = 3"
| "enum_val ENUM_GET_FULL_CFG_DESC = 4"
| "enum_val ENUM_GET_MFC_STRING_DESC = 5"
| "enum_val ENUM_GET_PRODUCT_STRING_DESC = 6"
| "enum_val ENUM_GET_SERIALNUM_STRING_DESC = 7"

lemma enum_val_inj: "enum_val a = enum_val b \<longleftrightarrow> a = b"
  by (cases a; cases b) simp_all

instantiation ENUM_StateTypeDef :: linorder
begin

definition less_eq_ENUM_StateTypeDef :: "ENUM_StateTypeDef \<Rightarrow> ENUM_StateTypeDef \<Rightarrow> bool" where
  "less_eq_ENUM_StateTypeDef a b = (enum_val a \<le> enum_val b)"

definition less_ENUM_StateTypeDef :: "ENUM_StateTypeDef \<Rightarrow> ENUM_StateTypeDef \<Rightarrow> bool" where
  "less_ENUM_StateTypeDef a b = (enum_val a < enum_val b)"

instance
  by standard
    (auto simp: less_eq_ENUM_StateTypeDef_def less_ENUM_StateTypeDef_def enum_val_inj)

end

lemmas enum_order_defs = less_eq_ENUM_StateTypeDef_def less_ENUM_StateTypeDef_def

subsection \<open>Constants\<close>

abbreviation USBH_MAX_PIPES_NBR :: nat where "USBH_MAX_PIPES_NBR \<equiv> 15"
abbreviation USBH_MAX_NUM_ENDPOINTS :: nat where "USBH_MAX_NUM_ENDPOINTS \<equiv> 8"
abbreviation USBH_MAX_NUM_INTERFACES :: nat where "USBH_MAX_NUM_INTERFACES \<equiv> 5"
abbreviation USBH_MAX_NUM_SUPPORTED_CLASS :: nat where "USBH_MAX_NUM_SUPPORTED_CLASS \<equiv> 3"
abbreviation USBH_MAX_DATA_BUFFER :: nat where "USBH_MAX_DATA_BUFFER \<equiv> 512"
abbreviation USBH_MAX_NUM_CHILD :: nat where "USBH_MAX_NUM_CHILD \<equiv> 4"
abbreviation USBH_MAX_NUM_DEVICE :: nat where "USBH_MAX_NUM_DEVICE \<equiv> 8"
abbreviation USBH_MAX_NUM_CLASS_DATA :: nat where "USBH_MAX_NUM_CLASS_DATA \<equiv> 4"
abbreviation USBH_MAX_ERROR_COUNT :: u8 where "USBH_MAX_ERROR_COUNT \<equiv> 2"
abbreviation USBH_Q_SIZE :: nat where "USBH_Q_SIZE \<equiv> 10"
abbreviation HCD_NBR_HC :: nat where "HCD_NBR_HC \<equiv> 16"

subsection \<open>Descriptors\<close>

record USBH_DevDescTypeDef =
  d_bLength :: u8
  d_bDescriptorType :: u8
  bcdUSB :: u16
  bDeviceClass :: u8
  bDeviceSubClass :: u8
  bDeviceProtocol :: u8
  bMaxPacketSize :: u8
  idVendor :: u16
  idProduct :: u16
  bcdDevice :: u16
  iManufacturer :: u8
  iProduct :: u8
  iSerialNumber :: u8
  bNumConfigurations :: u8

record USBH_EpDescTypeDef =
  e_bLength :: u8
  e_bDescriptorType :: u8
  bEndpointAddress :: u8
  e_bmAttributes :: u8
  wMaxPacketSize :: u16
  bInterval :: u8

record USBH_InterfaceDescTypeDef =
  i_bLength :: u8
  i_bDescriptorType :: u8
  bInterfaceNumber :: u8
  bAlternateSetting :: u8
  bNumEndpoints :: u8
  bInterfaceClass :: u8
  bInterfaceSubClass :: u8
  bInterfaceProtocol :: u8
  iInterface :: u8
  Ep_Desc :: "USBH_EpDescTypeDef list"

record USBH_CfgDescTypeDef =
  c_bLength :: u8
  c_bDescriptorType :: u8
  wTotalLength :: u16
  bNumInterfaces :: u8
  bConfigurationValue :: u8
  iConfiguration :: u8
  c_bmAttributes :: u8
  bMaxPower :: u8
  Itf_Desc :: "USBH_InterfaceDescTypeDef list"

text \<open>The all-zero values a \<^verbatim>\<open>memset\<close> leaves.\<close>

definition zero_ep :: USBH_EpDescTypeDef where
  "zero_ep = \<lparr>e_bLength = 0, e_bDescriptorType = 0, bEndpointAddress = 0, e_bmAttributes = 0,
     wMaxPacketSize = 0, bInterval = 0\<rparr>"

definition zero_itf :: USBH_InterfaceDescTypeDef where
  "zero_itf = \<lparr>i_bLength = 0, i_bDescriptorType = 0, bInterfaceNumber = 0, bAlternateSetting = 0,
     bNumEndpoints = 0, bInterfaceClass = 0, bInterfaceSubClass = 0, bInterfaceProtocol = 0,
     iInterface = 0, Ep_Desc = replicate USBH_MAX_NUM_ENDPOINTS zero_ep\<rparr>"

definition zero_cfg :: USBH_CfgDescTypeDef where
  "zero_cfg = \<lparr>c_bLength = 0, c_bDescriptorType = 0, wTotalLength = 0, bNumInterfaces = 0,
     bConfigurationValue = 0, iConfiguration = 0, c_bmAttributes = 0, bMaxPower = 0,
     Itf_Desc = replicate USBH_MAX_NUM_INTERFACES zero_itf\<rparr>"

definition zero_dev :: USBH_DevDescTypeDef where
  "zero_dev = \<lparr>d_bLength = 0, d_bDescriptorType = 0, bcdUSB = 0, bDeviceClass = 0,
     bDeviceSubClass = 0, bDeviceProtocol = 0, bMaxPacketSize = 0, idVendor = 0, idProduct = 0,
     bcdDevice = 0, iManufacturer = 0, iProduct = 0, iSerialNumber = 0, bNumConfigurations = 0\<rparr>"

subsection \<open>Control block\<close>

text \<open>
  Where a transfer buffer lies: the setup packet or the descriptor buffer of a handle, the
  interrupt buffer of a hub, the receive and send buffers of the modem application, the command and
  status blocks, the data buffer and the unit count of the mass-storage driver, the buffer of the
  serial converter's driver, plain memory at an address, or a number of bytes behind another pointer.
\<close>

datatype buf_ptr =
  NULL_buf | Setup_of hid | Data_of hid | HubIntr_of hid | Recv_of hid | Send_of hid | Cbw_buf
| Csw_buf | Bot_buf | MaxLun_buf | Ch340_of hid | Mem u32 | At buf_ptr nat

fun buf_add :: "buf_ptr \<Rightarrow> nat \<Rightarrow> buf_ptr" where
  "buf_add (At p k) n = At p (k + n)"
| "buf_add p n = At p n"

record USB_Setup_TypeDef =
  bmRequestType :: u8
  bRequest :: u8
  wValue :: u16
  wIndex :: u16
  wLength :: u16

text \<open>The eight bytes the union's \<^verbatim>\<open>d8\<close> view presents to the controller.\<close>

definition setup_bytes :: "USB_Setup_TypeDef \<Rightarrow> u8 list" where
  "setup_bytes s = [bmRequestType s, bRequest s] @ le16_bytes (wValue s) @ le16_bytes (wIndex s)
     @ le16_bytes (wLength s)"

record USBH_CtrlTypeDef =
  pipe_in :: u8
  pipe_out :: u8
  pipe_size :: u8
  buff :: buf_ptr
  ctl_length :: u16
  ctl_timer :: u16
  setup_pkt :: USB_Setup_TypeDef
  ctl_state :: CTRL_StateTypeDef
  errorcount :: u8

definition zero_setup :: USB_Setup_TypeDef where
  "zero_setup = \<lparr>bmRequestType = 0, bRequest = 0, wValue = 0, wIndex = 0, wLength = 0\<rparr>"

definition zero_ctrl :: USBH_CtrlTypeDef where
  "zero_ctrl = \<lparr>pipe_in = 0, pipe_out = 0, pipe_size = 0, buff = NULL_buf, ctl_length = 0,
     ctl_timer = 0, setup_pkt = zero_setup, ctl_state = CTRL_IDLE, errorcount = 0\<rparr>"

record USBH_DeviceTypeDef =
  Data :: "u8 list"
  dev_address :: u8
  speed :: u8
  is_connected :: u8
  PortEnabled :: u8
  current_interface :: u8
  DevDesc :: USBH_DevDescTypeDef
  CfgDesc :: USBH_CfgDescTypeDef

definition zero_device :: USBH_DeviceTypeDef where
  "zero_device = \<lparr>Data = replicate USBH_MAX_DATA_BUFFER 0, dev_address = 0, speed = 0,
     is_connected = 0, PortEnabled = 0, current_interface = 0, DevDesc = zero_dev,
     CfgDesc = zero_cfg\<rparr>"

end
