(* ===== verification/MscTypes.thy ===== *)
theory MscTypes
  imports UsbTypes
begin

text \<open>
  The state of the mass-storage driver (\<^verbatim>\<open>Class/MSC/Inc/usbh_msc.h\<close>, \<^verbatim>\<open>usbh_msc_bot.h\<close>,
  \<^verbatim>\<open>usbh_msc_scsi.h\<close>): the transport handle with the command block wrapper it sends and the bytes of
  the command status wrapper it receives, and one record per logical unit. The unread members
  \<^verbatim>\<open>prev_state\<close> and the two \<^verbatim>\<open>Reserved\<close> paddings of the transport handle are left out.
\<close>

datatype MSC_StateTypeDef =
  MSC_INIT | MSC_IDLE | MSC_TEST_UNIT_READY | MSC_READ_CAPACITY10 | MSC_READ_INQUIRY
| MSC_REQUEST_SENSE | MSC_READ | MSC_WRITE | MSC_UNRECOVERED_ERROR | MSC_PERIODIC_CHECK

datatype MSC_ErrorTypeDef = MSC_OK | MSC_NOT_READY | MSC_ERROR

datatype MSC_ReqStateTypeDef = MSC_REQ_IDLE | MSC_REQ_RESET | MSC_REQ_GET_MAX_LUN | MSC_REQ_ERROR

datatype BOT_CMDStateTypeDef = BOT_CMD_IDLE | BOT_CMD_SEND | BOT_CMD_WAIT

datatype BOT_CSWStatusTypeDef = BOT_CSW_CMD_PASSED | BOT_CSW_CMD_FAILED | BOT_CSW_PHASE_ERROR

datatype BOT_StateTypeDef =
  BOT_SEND_CBW | BOT_SEND_CBW_WAIT | BOT_DATA_IN | BOT_DATA_IN_WAIT | BOT_DATA_OUT | BOT_DATA_OUT_WAIT
| BOT_RECEIVE_CSW | BOT_RECEIVE_CSW_WAIT | BOT_ERROR_IN | BOT_ERROR_OUT | BOT_UNRECOVERED_ERROR

abbreviation BOT_CBW_SIGNATURE :: u32 where "BOT_CBW_SIGNATURE \<equiv> 0x43425355"
abbreviation BOT_CBW_TAG :: u32 where "BOT_CBW_TAG \<equiv> 0x20304050"
abbreviation BOT_CSW_SIGNATURE :: u32 where "BOT_CSW_SIGNATURE \<equiv> 0x53425355"
abbreviation BOT_CBW_LENGTH :: u16 where "BOT_CBW_LENGTH \<equiv> 31"
abbreviation BOT_CSW_LENGTH :: u16 where "BOT_CSW_LENGTH \<equiv> 13"
abbreviation MAX_SUPPORTED_LUN :: nat where "MAX_SUPPORTED_LUN \<equiv> 2"

record BOT_CBWTypeDef =
  cbw_Signature :: u32
  cbw_Tag :: u32
  DataTransferLength :: u32
  cbw_Flags :: u8
  cbw_LUN :: u8
  CBLength :: u8
  CB :: "u8 list"

text \<open>The union's \<^verbatim>\<open>data\<close> view, little-endian: the bytes that go out.\<close>

definition cbw_data :: "BOT_CBWTypeDef \<Rightarrow> u8 list" where
  "cbw_data c = le32_bytes (cbw_Signature c) @ le32_bytes (cbw_Tag c) @ le32_bytes (DataTransferLength c) @
     [cbw_Flags c, cbw_LUN c, CBLength c] @ CB c"

text \<open>
  The status wrapper is kept as its bytes, 16 with the padding of the union; its \<^verbatim>\<open>field\<close> view reads
  them little-endian.
\<close>

definition csw_Signature :: "u8 list \<Rightarrow> u32" where "csw_Signature m = le32_at m 0"
definition csw_Tag :: "u8 list \<Rightarrow> u32" where "csw_Tag m = le32_at m 4"
definition csw_DataResidue :: "u8 list \<Rightarrow> u32" where "csw_DataResidue m = le32_at m 8"
definition csw_Status :: "u8 list \<Rightarrow> u8" where "csw_Status m = m ! 12"

record BOT_HandleTypeDef =
  bot_data :: "u8 list"
  bot_state :: BOT_StateTypeDef
  cmd_state :: BOT_CMDStateTypeDef
  cbw :: BOT_CBWTypeDef
  csw :: "u8 list"
  bot_pbuf :: buf_ptr

record SCSI_StdInquiryDataTypeDef =
  PeripheralQualifier :: u8
  DeviceType :: u8
  RemovableMedia :: u8
  vendor_id :: "u8 list"
  product_id :: "u8 list"
  revision_id :: "u8 list"

record MSC_LUNTypeDef =
  lun_state :: MSC_StateTypeDef
  lun_error :: MSC_ErrorTypeDef
  prev_ready_state :: USBH_StatusTypeDef
  block_nbr :: u32
  block_size :: u16
  sense_key :: u8
  sense_asc :: u8
  sense_ascq :: u8
  inquiry :: SCSI_StdInquiryDataTypeDef
  state_changed :: u8

record MSC_HandleTypeDef =
  max_lun :: u32
  msc_InPipe :: u8
  msc_OutPipe :: u8
  msc_OutEp :: u8
  msc_InEp :: u8
  msc_OutEpSize :: u16
  msc_InEpSize :: u16
  msc_state :: MSC_StateTypeDef
  msc_error :: MSC_ErrorTypeDef
  req_state :: MSC_ReqStateTypeDef
  prev_req_state :: MSC_ReqStateTypeDef
  hbot :: BOT_HandleTypeDef
  unit_luns :: "MSC_LUNTypeDef list"
  current_lun :: u16
  rw_lun :: u16
  msc_timer :: u32

definition zero_inquiry :: SCSI_StdInquiryDataTypeDef where
  "zero_inquiry = \<lparr>PeripheralQualifier = 0, DeviceType = 0, RemovableMedia = 0, vendor_id = replicate 9 0,
     product_id = replicate 17 0, revision_id = replicate 5 0\<rparr>"

definition zero_lun :: MSC_LUNTypeDef where
  "zero_lun = \<lparr>lun_state = MSC_INIT, lun_error = MSC_OK, prev_ready_state = USBH_OK, block_nbr = 0, block_size = 0,
     sense_key = 0, sense_asc = 0, sense_ascq = 0, inquiry = zero_inquiry, state_changed = 0\<rparr>"

definition zero_bot :: BOT_HandleTypeDef where
  "zero_bot = \<lparr>bot_data = replicate 64 0, bot_state = BOT_SEND_CBW, cmd_state = BOT_CMD_IDLE,
     cbw = \<lparr>cbw_Signature = 0, cbw_Tag = 0, DataTransferLength = 0, cbw_Flags = 0, cbw_LUN = 0, CBLength = 0,
       CB = replicate 16 0\<rparr>,
     csw = replicate 16 0, bot_pbuf = NULL_buf\<rparr>"

definition zero_msc :: MSC_HandleTypeDef where
  "zero_msc = \<lparr>max_lun = 0, msc_InPipe = 0, msc_OutPipe = 0, msc_OutEp = 0, msc_InEp = 0, msc_OutEpSize = 0,
     msc_InEpSize = 0, msc_state = MSC_INIT, msc_error = MSC_OK, req_state = MSC_REQ_IDLE,
     prev_req_state = MSC_REQ_IDLE, hbot = zero_bot, unit_luns = replicate MAX_SUPPORTED_LUN zero_lun,
     current_lun = 0, rw_lun = 0, msc_timer = 0\<rparr>"

end
