(* ===== verification/Ch340Types.thy ===== *)
theory Ch340Types
  imports UsbTypes
begin

text \<open>
  The state of the CH340 serial converter's driver (\<^verbatim>\<open>Class/CH340/Inc/usbh_ch340.h\<close>). The line coding is
  the \<^verbatim>\<open>b\<close> view of its union; \<open>pUserLineCoding\<close> is what the pointer of that name leads to, \<open>None\<close> when it
  leads nowhere. The two \<^verbatim>\<open>buff\<close> arrays, \<^verbatim>\<open>CDC_Desc\<close> and \<^verbatim>\<open>Rx_Poll\<close> are never read and are left out.
\<close>

datatype CDC_DataStateTypeDef =
  CDC_IDLE | CDC_SEND_DATA | CDC_SEND_DATA_WAIT | CDC_RECEIVE_DATA | CDC_RECEIVE_DATA_WAIT

datatype CDC_StateTypeDef =
  CDC_IDLE_STATE | CDC_ATTACH_INIT_STATE | CDC_SET_LINE_CODING_STATE | CDC_GET_LAST_LINE_CODING_STATE
| CDC_TRANSFER_DATA | CDC_ERROR_STATE

datatype CH340_AttachStateTypeDef =
  CH340_READ_VENDOR_VERSION_STATE | CH340_VENDOR_SERIAL_INIT_STATE | CH340_VENDOR_WRITE_1_STATE
| CH340_VENDOR_WRITE_2_STATE | CH340_VENDOR_READ_1_STATE | CH340_VENDOR_WRITE_3_STATE
| CH340_VENDOR_MODEM_OUT_STATE | CH340_ATTACH_COMPLETE_STATE

record CDC_LineCodingTypeDef =
  lc_dwDTERate :: u32
  lc_bCharFormat :: u8
  lc_bParityType :: u8
  lc_bDataBits :: u8

record CDC_HandleTypeDef =
  cdc_NotifPipe :: u8
  cdc_NotifEp :: u8
  cdc_NotifEpSize :: u16
  cdc_InPipe :: u8
  cdc_OutPipe :: u8
  cdc_OutEp :: u8
  cdc_InEp :: u8
  cdc_OutEpSize :: u16
  cdc_InEpSize :: u16
  cdc_pTxData :: buf_ptr
  cdc_pRxData :: buf_ptr
  cdc_TxDataLength :: u32
  cdc_RxDataLength :: u32
  LineCoding :: CDC_LineCodingTypeDef
  pUserLineCoding :: "CDC_LineCodingTypeDef option"
  cdc_state :: CDC_StateTypeDef
  cdc_tx_state :: CDC_DataStateTypeDef
  cdc_rx_state :: CDC_DataStateTypeDef
  attach_state :: CH340_AttachStateTypeDef
  cdc_buf :: "u8 list"

end
