(* ===== verification/UsbState.thy ===== *)
theory UsbState
  imports MscTypes Ch340Types
begin

text \<open>
  The state of the host stack. \<open>USBH_HandleTypeDef\<close> is one device handle
  (\<^verbatim>\<open>Core/Inc/usbh_def.h\<close>), with the class data of the hub and EC20 drivers
  (\<^verbatim>\<open>Class/HUB/Inc/usbh_hub.h\<close>, \<^verbatim>\<open>Class/EC20/Inc/usbh_ec20.h\<close>) and the modem application's
  record (\<^verbatim>\<open>User/app_ec20.h\<close>). \<open>bus\<close> is what every handle of the tree shares: the pipe and
  address tables the root allocates and its children point to, the channel array of the one
  \<^verbatim>\<open>HCD_HandleTypeDef\<close> and the event queue. Calls below the HAL (registers, GPIO, delays) are
  recorded in \<open>trace\<close>, in order; \<open>status_reads\<close> is what the modem's status pin will read.
\<close>

subsection \<open>Host channels\<close>

datatype USB_OTG_HCStateTypeDef =
  HC_IDLE | HC_XFRC | HC_HALTED | HC_NAK | HC_NYET | HC_STALL | HC_XACTERR | HC_BBLERR | HC_DATATGLERR

record USB_OTG_HCTypeDef =
  dev_addr :: u8
  ch_num :: u8
  ep_num :: u8
  ep_is_in :: u8
  hc_speed :: u8
  do_ping :: u8
  ep_type :: u8
  max_packet :: u16
  data_pid :: u8
  xfer_buff :: buf_ptr
  xfer_len :: u32
  xfer_count :: u32
  toggle_in :: u8
  toggle_out :: u8
  ErrCnt :: u32
  urb_state :: USBH_URBStateTypeDef
  hc_state :: USB_OTG_HCStateTypeDef

definition zero_hc :: USB_OTG_HCTypeDef where
  "zero_hc = \<lparr>dev_addr = 0, ch_num = 0, ep_num = 0, ep_is_in = 0, hc_speed = 0, do_ping = 0,
     ep_type = 0, max_packet = 0, data_pid = 0, xfer_buff = NULL_buf, xfer_len = 0,
     xfer_count = 0, toggle_in = 0, toggle_out = 0, ErrCnt = 0, urb_state = USBH_URB_IDLE,
     hc_state = HC_IDLE\<rparr>"

text \<open>Calls that leave the modelled code: the register layer, GPIO and delays. \<^verbatim>\<open>HW_PinInit p out\<close>
  configures a pin as output or input, \<^verbatim>\<open>HW_Pin p v\<close> drives it.\<close>

datatype gpio = GPIOB_9 | EC20_STATUS_PIN | EC20_RST_PIN | EC20_PWRKEY_PIN

datatype hw_op =
  HW_HC_Init u8 u8 u8 u8 u8 u16
| HW_HC_StartXfer USB_OTG_HCTypeDef
| HW_HC_Halt u8
| HW_Enable
| HW_DriveVbus
| HW_StopHost
| HW_ResetPort
| HW_VbusPin bool
| HW_Delay u32
| HW_HprtIrq bool
| HW_PinInit gpio bool
| HW_Pin gpio bool
| HW_HCD_Init
| HW_HCD_DeInit

subsection \<open>Class data\<close>

datatype HUB_CtlStateTypeDef =
  HUB_REQ_INIT | HUB_REQ_IDLE | HUB_REQ_GET_HUB_DESC | HUB_REQ_GET_HUB_STATUS
| HUB_REQ_SET_PORT_POWER | HUB_REQ_SCAN_PORT | HUB_REQ_SCAN_PORT_WAIT | HUB_REQ_ENUM_PORT
| HUB_REQ_CLR_FEATURE

record HUB_HandleTypeDef =
  hub_NotifPipe :: u8
  hub_NotifEp :: u8
  hub_NotifEpSize :: u16
  hub_poll :: u8
  HUB_Desc :: "u8 list"
  HUB_Status :: "u8 list"
  hub_ctl_state :: HUB_CtlStateTypeDef
  port_index :: u8
  hub_intr_buf :: "u8 list"
  port_state :: u8
  sof_num :: u32

datatype EC20_StateTypeDef =
  EC20_IDLE_STATE | EC20_SET_LINE_CODING_STATE | EC20_GET_LAST_LINE_CODING_STATE
| EC20_TRANSFER_DATA | EC20_ERROR_STATE

datatype EC20_DataStateTypeDef =
  EC20_IDLE | EC20_SEND_DATA | EC20_SEND_DATA_WAIT | EC20_RECEIVE_DATA | EC20_RECEIVE_DATA_WAIT

record EC20_HandleTypeDef =
  ec_NotifPipe :: u8
  ec_NotifEp :: u8
  ec_NotifEpSize :: u16
  InPipe :: u8
  OutPipe :: u8
  OutEp :: u8
  InEp :: u8
  OutEpSize :: u16
  InEpSize :: u16
  pTxData :: buf_ptr
  pRxData :: buf_ptr
  TxDataLength :: u32
  RxDataLength :: u32
  dwDTERate :: u32
  bCharFormat :: u8
  bParityType :: u8
  bDataBits :: u8
  ec_state :: EC20_StateTypeDef
  data_tx_state :: EC20_DataStateTypeDef
  data_rx_state :: EC20_DataStateTypeDef
  tx_zero_packet_flag :: u8

definition zero_hub :: HUB_HandleTypeDef where
  "zero_hub = \<lparr>hub_NotifPipe = 0, hub_NotifEp = 0, hub_NotifEpSize = 0, hub_poll = 0,
     HUB_Desc = replicate 12 0, HUB_Status = replicate 4 0, hub_ctl_state = HUB_REQ_INIT,
     port_index = 0, hub_intr_buf = replicate 64 0, port_state = 0, sof_num = 0\<rparr>"

definition zero_ec20 :: EC20_HandleTypeDef where
  "zero_ec20 = \<lparr>ec_NotifPipe = 0, ec_NotifEp = 0, ec_NotifEpSize = 0, InPipe = 0, OutPipe = 0,
     OutEp = 0, InEp = 0, OutEpSize = 0, InEpSize = 0, pTxData = NULL_buf, pRxData = NULL_buf,
     TxDataLength = 0, RxDataLength = 0, dwDTERate = 0, bCharFormat = 0, bParityType = 0,
     bDataBits = 0, ec_state = EC20_IDLE_STATE, data_tx_state = EC20_IDLE,
     data_rx_state = EC20_IDLE, tx_zero_packet_flag = 0\<rparr>"

text \<open>
  What a \<^verbatim>\<open>pClassData\<close> slot points to, and the static class table entries the program registers.
\<close>

datatype class_data = Hub_data HUB_HandleTypeDef | EC20_data EC20_HandleTypeDef | Cdc_data CDC_HandleTypeDef

datatype class_ref = MSC_Class | EC20_Class | HUB_Class

primrec ClassCode :: "class_ref \<Rightarrow> u8" where
  "ClassCode MSC_Class = 0x08"
| "ClassCode EC20_Class = 0xff"
| "ClassCode HUB_Class = 0x09"

subsection \<open>The modem application's record\<close>

datatype ApplicationTypeDef =
  EC20_APPLICATION_IDLE | EC20_APPLICATION_START | EC20_APPLICATION_READY
| EC20_APPLICATION_SMS_DONE | EC20_APPLICATION_QUERY_CARD | EC20_APPLICATION_QUERY_CS
| EC20_APPLICATION_QUERY_PS | EC20_APPLICATION_CONFIG_PDP | EC20_APPLICATION_ACTIVATE_PDP
| EC20_APPLICATION_RUNNING | EC20_APPLICATION_DISCONNECT | EC20_APPLICATION_MAX_NUM

text \<open>The functions the receive hook \<^verbatim>\<open>ec20_recvdata\<close> may point to.\<close>

datatype recv_fn =
  ec20_recv_cmd_select_fn | ec20_recv_ati_fn | ec20_recv_init_done_fn | ec20_recv_general_fn
| ec20_recv_running_fn

text \<open>
  The sender thread: its local \<^verbatim>\<open>Status\<close> and \<^verbatim>\<open>send_buf\<close>, and whether it still runs.
\<close>

record app_thread =
  th_live :: bool
  th_status :: USBH_StatusTypeDef
  send_buf :: "u8 list"

record ec20_app =
  AppliEvent :: "ApplicationTypeDef list"
  Appli_state :: ApplicationTypeDef
  recv_buf :: "u8 list"
  g_stop_flag :: u8
  rx_total_num :: u32
  tx_total_num :: u32
  EC20_Send_Thread :: "app_thread option"
  ec20_recvdata :: "recv_fn option"
  cmd_index :: int
  result_buff :: "u8 list option"
  result_flag :: int
  timeout_times :: u8

datatype app_ref = App_ec20

subsection \<open>The host handle\<close>

text \<open>\<open>self\<close> is the address of the handle; \<open>pData\<close> and \<open>pUser\<close> say that the pointer is set.\<close>

record USBH_HandleTypeDef =
  self :: hid
  gState :: HOST_StateTypeDef
  EnumState :: ENUM_StateTypeDef
  RequestState :: CMD_StateTypeDef
  Control :: USBH_CtrlTypeDef
  device :: USBH_DeviceTypeDef
  pClass :: "class_ref option list"
  pActiveClass :: "class_ref option"
  ClassNumber :: u32
  Timer :: u32
  host_id :: u8
  pData :: bool
  pUser :: bool
  pClassData :: "class_data option list"
  app_class :: "app_ref option"
  app_data :: "ec20_app option"
  is_child :: u8
  parent :: "hid option"
  children :: "hid option list"
  last_ctrl_status :: CTRL_StateTypeDef

definition zero_host :: "hid \<Rightarrow> USBH_HandleTypeDef" where
  "zero_host ph = \<lparr>self = ph, gState = HOST_IDLE, EnumState = ENUM_IDLE, RequestState = CMD_IDLE,
     Control = zero_ctrl, device = zero_device,
     pClass = replicate USBH_MAX_NUM_SUPPORTED_CLASS None, pActiveClass = None, ClassNumber = 0,
     Timer = 0, host_id = 0, pData = False, pUser = False,
     pClassData = replicate USBH_MAX_NUM_CLASS_DATA None, app_class = None, app_data = None,
     is_child = 0, parent = None, children = replicate USBH_MAX_NUM_CHILD None,
     last_ctrl_status = CTRL_IDLE\<rparr>"

type_synonym host = USBH_HandleTypeDef

subsection \<open>The shared part\<close>

text \<open>
  \<open>addresses\<close> is the block \<^verbatim>\<open>phost->address\<close> points to; \<open>addr_hdr\<close> is the byte that precedes it
  in the heap, the top byte of the allocator's size word. The class data of the mass-storage driver
  hangs off its static class table entry (\<^verbatim>\<open>pActiveClass->pData\<close>), so every handle that runs this class
  shares it: \<open>msc_ptr\<close> says that the pointer is set, \<open>msc_mem\<close> is the block behind it. An allocation
  does not clear the block: \<open>msc_heap\<close> is what the blocks the allocator is going to return hold, an
  arbitrary list; when it is used up the old block comes back as it was.
\<close>

record bus =
  Pipes :: "u32 list"
  addresses :: "u8 list"
  addr_hdr :: u8
  hc :: "USB_OTG_HCTypeDef list"
  os_event :: "USBH_OSEventTypeDef list"
  trace :: "hw_op list"
  port_speed :: u32
  cur_frame :: u32
  status_reads :: "bool list"
  msc_ptr :: bool
  msc_mem :: MSC_HandleTypeDef
  msc_heap :: "MSC_HandleTypeDef list"

definition zero_bus :: bus where
  "zero_bus = \<lparr>Pipes = [], addresses = [], addr_hdr = 0x80,
     hc = replicate HCD_NBR_HC zero_hc, os_event = [], trace = [], port_speed = 1, cur_frame = 0,
     status_reads = [], msc_ptr = False, msc_mem = zero_msc, msc_heap = []\<rparr>"

definition os_put :: "USBH_OSEventTypeDef \<Rightarrow> bus \<Rightarrow> bus" where
  "os_put e b = b\<lparr>os_event := mq_put USBH_Q_SIZE (os_event b) e\<rparr>"

definition hw :: "hw_op \<Rightarrow> bus \<Rightarrow> bus" where
  "hw x b = b\<lparr>trace := trace b @ [x]\<rparr>"

interpretation usbh_q: message_queue "mq_put USBH_Q_SIZE" mq_get "\<lambda>q. q" USBH_Q_SIZE
  by (rule mq_message_queue)

lemma os_put_simps [simp]:
  "Pipes (os_put e b) = Pipes b" "addresses (os_put e b) = addresses b"
  "addr_hdr (os_put e b) = addr_hdr b" "hc (os_put e b) = hc b"
  "trace (os_put e b) = trace b" "status_reads (os_put e b) = status_reads b" "port_speed (os_put e b) = port_speed b"
  "cur_frame (os_put e b) = cur_frame b" "msc_ptr (os_put e b) = msc_ptr b" "msc_mem (os_put e b) = msc_mem b" "msc_heap (os_put e b) = msc_heap b"
  "os_event (os_put e b) = mq_put USBH_Q_SIZE (os_event b) e"
  by (simp_all add: os_put_def)

lemma hw_simps [simp]:
  "Pipes (hw x b) = Pipes b" "addresses (hw x b) = addresses b"
  "addr_hdr (hw x b) = addr_hdr b" "hc (hw x b) = hc b"
  "trace (hw x b) = trace b @ [x]" "port_speed (hw x b) = port_speed b"
  "os_event (hw x b) = os_event b" "status_reads (hw x b) = status_reads b" "cur_frame (hw x b) = cur_frame b"
  "msc_ptr (hw x b) = msc_ptr b" "msc_mem (hw x b) = msc_mem b" "msc_heap (hw x b) = msc_heap b"
  by (simp_all add: hw_def)

text \<open>Field updates inside a handle.\<close>

definition upd_ctl :: "(USBH_CtrlTypeDef \<Rightarrow> USBH_CtrlTypeDef) \<Rightarrow> host \<Rightarrow> host" where
  "upd_ctl f h = h\<lparr>Control := f (Control h)\<rparr>"

definition upd_dev :: "(USBH_DeviceTypeDef \<Rightarrow> USBH_DeviceTypeDef) \<Rightarrow> host \<Rightarrow> host" where
  "upd_dev f h = h\<lparr>device := f (device h)\<rparr>"

definition set_ctl_state :: "CTRL_StateTypeDef \<Rightarrow> host \<Rightarrow> host" where
  "set_ctl_state s h = h\<lparr>Control := (Control h)\<lparr>ctl_state := s\<rparr>\<rparr>"

lemma set_ctl_state_simps [simp]:
  "Control (set_ctl_state s h) = (Control h)\<lparr>ctl_state := s\<rparr>"
  "self (set_ctl_state s h) = self h" "gState (set_ctl_state s h) = gState h"
  "EnumState (set_ctl_state s h) = EnumState h"
  "RequestState (set_ctl_state s h) = RequestState h"
  "device (set_ctl_state s h) = device h" "Timer (set_ctl_state s h) = Timer h"
  "pData (set_ctl_state s h) = pData h" "pUser (set_ctl_state s h) = pUser h"
  "parent (set_ctl_state s h) = parent h" "children (set_ctl_state s h) = children h"
  "is_child (set_ctl_state s h) = is_child h" "pClassData (set_ctl_state s h) = pClassData h"
  "pClass (set_ctl_state s h) = pClass h" "pActiveClass (set_ctl_state s h) = pActiveClass h"
  "ClassNumber (set_ctl_state s h) = ClassNumber h"
  by (simp_all add: set_ctl_state_def)

text \<open>A root handle with its two control channels open, and the tables that go with it.\<close>

definition sample_host :: host where
  "sample_host = (zero_host 0)\<lparr>RequestState := CMD_SEND, pData := True, pUser := True,
     Control := zero_ctrl\<lparr>pipe_in := 1, pipe_out := 0, pipe_size := 64\<rparr>\<rparr>"

definition sample_bus :: bus where
  "sample_bus = zero_bus\<lparr>Pipes := [0x8000, 0x8080] @ replicate 13 0, addresses := replicate 32 0\<rparr>"

end
