(* ===== verification/Descriptors.thy ===== *)
theory Descriptors
  imports UsbState
begin

text \<open>
  The descriptor parsers of \<^verbatim>\<open>Core/Src/usbh_ctlreq.c\<close>, over the bytes the device sent. A pointer
  into the buffer is an offset; a read outside the buffer and a write outside the descriptor
  arrays (5 interfaces, 8 endpoints each) are faults. The configuration parser walks the
  descriptors by their own length bytes and need not stop, so it takes fuel and says when it ran
  out of it; how much is enough, and what makes the code loop for ever, is proved below.
\<close>

abbreviation USB_DESC_TYPE_STRING :: u8 where "USB_DESC_TYPE_STRING \<equiv> 3"
abbreviation USB_DESC_TYPE_INTERFACE :: u8 where "USB_DESC_TYPE_INTERFACE \<equiv> 4"
abbreviation USB_DESC_TYPE_ENDPOINT :: u8 where "USB_DESC_TYPE_ENDPOINT \<equiv> 5"
abbreviation USB_LEN_CFG_DESC :: u16 where "USB_LEN_CFG_DESC \<equiv> 9"
abbreviation USB_CONFIGURATION_DESC_SIZE :: u16 where "USB_CONFIGURATION_DESC_SIZE \<equiv> 9"
abbreviation USB_DEVICE_DESC_SIZE :: u16 where "USB_DEVICE_DESC_SIZE \<equiv> 18"

subsection \<open>Fixed-size descriptors\<close>

definition USBH_ParseDevDesc ::
  "USBH_DevDescTypeDef \<Rightarrow> u8 list \<Rightarrow> u16 \<Rightarrow> USBH_DevDescTypeDef option" where
  "USBH_ParseDevDesc d buf len = do {
     b0 \<leftarrow> rd buf 0; b1 \<leftarrow> rd buf 1; w2 \<leftarrow> LE16 buf 2;
     b4 \<leftarrow> rd buf 4; b5 \<leftarrow> rd buf 5; b6 \<leftarrow> rd buf 6; b7 \<leftarrow> rd buf 7;
     let d = d\<lparr>d_bLength := b0, d_bDescriptorType := b1, bcdUSB := w2, bDeviceClass := b4,
               bDeviceSubClass := b5, bDeviceProtocol := b6, bMaxPacketSize := b7\<rparr>;
     (if len > 8 then do {
        w8 \<leftarrow> LE16 buf 8; w10 \<leftarrow> LE16 buf 10; w12 \<leftarrow> LE16 buf 12;
        b14 \<leftarrow> rd buf 14; b15 \<leftarrow> rd buf 15; b16 \<leftarrow> rd buf 16; b17 \<leftarrow> rd buf 17;
        Some (d\<lparr>idVendor := w8, idProduct := w10, bcdDevice := w12, iManufacturer := b14,
                iProduct := b15, iSerialNumber := b16, bNumConfigurations := b17\<rparr>)
      } else Some d)
   }"

definition USBH_ParseInterfaceDesc ::
  "USBH_InterfaceDescTypeDef \<Rightarrow> u8 list \<Rightarrow> nat \<Rightarrow> USBH_InterfaceDescTypeDef option" where
  "USBH_ParseInterfaceDesc d buf p = do {
     b0 \<leftarrow> rd buf p; b1 \<leftarrow> rd buf (p + 1); b2 \<leftarrow> rd buf (p + 2); b3 \<leftarrow> rd buf (p + 3);
     b4 \<leftarrow> rd buf (p + 4); b5 \<leftarrow> rd buf (p + 5); b6 \<leftarrow> rd buf (p + 6); b7 \<leftarrow> rd buf (p + 7);
     b8 \<leftarrow> rd buf (p + 8);
     Some (d\<lparr>i_bLength := b0, i_bDescriptorType := b1, bInterfaceNumber := b2,
             bAlternateSetting := b3, bNumEndpoints := b4, bInterfaceClass := b5,
             bInterfaceSubClass := b6, bInterfaceProtocol := b7, iInterface := b8\<rparr>)
   }"

definition USBH_ParseEPDesc ::
  "USBH_EpDescTypeDef \<Rightarrow> u8 list \<Rightarrow> nat \<Rightarrow> USBH_EpDescTypeDef option" where
  "USBH_ParseEPDesc d buf p = do {
     b0 \<leftarrow> rd buf p; b1 \<leftarrow> rd buf (p + 1); b2 \<leftarrow> rd buf (p + 2); b3 \<leftarrow> rd buf (p + 3);
     w4 \<leftarrow> LE16 buf (p + 4); b6 \<leftarrow> rd buf (p + 6);
     Some (d\<lparr>e_bLength := b0, e_bDescriptorType := b1, bEndpointAddress := b2,
             e_bmAttributes := b3, wMaxPacketSize := w4, bInterval := b6\<rparr>)
   }"

subsection \<open>The configuration descriptor\<close>

definition USBH_GetNextDesc :: "u8 list \<Rightarrow> nat \<Rightarrow> u16 \<Rightarrow> (nat \<times> u16) option" where
  "USBH_GetNextDesc buf pbuf ptr = do {
     l \<leftarrow> rd buf pbuf;
     Some (pbuf + unat l, ptr + ucast l)
   }"

datatype 'a walk = Done 'a | Fault | NoFuel

definition cfg_header ::
  "USBH_CfgDescTypeDef \<Rightarrow> u8 list \<Rightarrow> USBH_CfgDescTypeDef option" where
  "cfg_header cfg buf = do {
     b0 \<leftarrow> rd buf 0; b1 \<leftarrow> rd buf 1; w2 \<leftarrow> LE16 buf 2; b4 \<leftarrow> rd buf 4; b5 \<leftarrow> rd buf 5;
     b6 \<leftarrow> rd buf 6; b7 \<leftarrow> rd buf 7; b8 \<leftarrow> rd buf 8;
     Some (cfg\<lparr>c_bLength := b0, c_bDescriptorType := b1, wTotalLength := w2, bNumInterfaces := b4,
               bConfigurationValue := b5, iConfiguration := b6, c_bmAttributes := b7,
               bMaxPower := b8\<rparr>)
   }"

text \<open>\<open>pif\<close> and \<open>pep\<close> point into the descriptor; storing through them replaces an element.\<close>

definition put_itf ::
  "USBH_CfgDescTypeDef \<Rightarrow> nat \<Rightarrow> u8 list \<Rightarrow> nat \<Rightarrow> USBH_CfgDescTypeDef option" where
  "put_itf cfg i buf p = do {
     pif \<leftarrow> rd (Itf_Desc cfg) i;
     pif \<leftarrow> USBH_ParseInterfaceDesc pif buf p;
     itfs \<leftarrow> wr (Itf_Desc cfg) i pif;
     Some (cfg\<lparr>Itf_Desc := itfs\<rparr>)
   }"

definition put_ep ::
  "USBH_CfgDescTypeDef \<Rightarrow> nat \<Rightarrow> nat \<Rightarrow> u8 list \<Rightarrow> nat \<Rightarrow> USBH_CfgDescTypeDef option" where
  "put_ep cfg i e buf p = do {
     pif \<leftarrow> rd (Itf_Desc cfg) i;
     pep \<leftarrow> rd (Ep_Desc pif) e;
     pep \<leftarrow> USBH_ParseEPDesc pep buf p;
     eps \<leftarrow> wr (Ep_Desc pif) e pep;
     itfs \<leftarrow> wr (Itf_Desc cfg) i (pif\<lparr>Ep_Desc := eps\<rparr>);
     Some (cfg\<lparr>Itf_Desc := itfs\<rparr>)
   }"

definition num_eps :: "USBH_CfgDescTypeDef \<Rightarrow> nat \<Rightarrow> nat" where
  "num_eps cfg i = unat (bNumEndpoints (Itf_Desc cfg ! i))"

fun ep_walk ::
  "nat \<Rightarrow> u8 list \<Rightarrow> USBH_CfgDescTypeDef \<Rightarrow> nat \<Rightarrow> nat \<Rightarrow> nat \<Rightarrow> u16 \<Rightarrow>
   (USBH_CfgDescTypeDef \<times> nat \<times> u16) walk" where
  "ep_walk 0 buf cfg if_ix ep_ix pdesc ptr = NoFuel"
| "ep_walk (Suc n) buf cfg if_ix ep_ix pdesc ptr =
     (if ep_ix < num_eps cfg if_ix \<and> ptr < wTotalLength cfg then
        (case USBH_GetNextDesc buf pdesc ptr of
           None \<Rightarrow> Fault
         | Some (pdesc', ptr') \<Rightarrow>
             (case rd buf (pdesc' + 1) of
                None \<Rightarrow> Fault
              | Some t \<Rightarrow>
                  if t = USB_DESC_TYPE_ENDPOINT then
                    (case put_ep cfg if_ix ep_ix buf pdesc' of
                       None \<Rightarrow> Fault
                     | Some cfg' \<Rightarrow> ep_walk n buf cfg' if_ix (Suc ep_ix) pdesc' ptr')
                  else ep_walk n buf cfg if_ix ep_ix pdesc' ptr'))
      else Done (cfg, pdesc, ptr))"

fun if_walk ::
  "nat \<Rightarrow> u8 list \<Rightarrow> USBH_CfgDescTypeDef \<Rightarrow> nat \<Rightarrow> nat \<Rightarrow> u16 \<Rightarrow> USBH_CfgDescTypeDef walk" where
  "if_walk 0 buf cfg if_ix pdesc ptr = NoFuel"
| "if_walk (Suc n) buf cfg if_ix pdesc ptr =
     (if if_ix < USBH_MAX_NUM_INTERFACES \<and> ptr < wTotalLength cfg then
        (case USBH_GetNextDesc buf pdesc ptr of
           None \<Rightarrow> Fault
         | Some (pdesc', ptr') \<Rightarrow>
             (case rd buf (pdesc' + 1) of
                None \<Rightarrow> Fault
              | Some t \<Rightarrow>
                  if t = USB_DESC_TYPE_INTERFACE then
                    (case put_itf cfg if_ix buf pdesc' of
                       None \<Rightarrow> Fault
                     | Some cfg' \<Rightarrow>
                         (case ep_walk n buf cfg' if_ix 0 pdesc' ptr' of
                            Done (cfg'', pdesc'', ptr'') \<Rightarrow>
                              if_walk n buf cfg'' (Suc if_ix) pdesc'' ptr''
                          | Fault \<Rightarrow> Fault
                          | NoFuel \<Rightarrow> NoFuel))
                  else if_walk n buf cfg if_ix pdesc' ptr'))
      else Done cfg)"

definition cfg_walk ::
  "nat \<Rightarrow> USBH_CfgDescTypeDef \<Rightarrow> u8 list \<Rightarrow> u16 \<Rightarrow> USBH_CfgDescTypeDef walk" where
  "cfg_walk n cfg buf len =
     (case cfg_header cfg buf of
        None \<Rightarrow> Fault
      | Some cfg \<Rightarrow>
          if len > USB_CONFIGURATION_DESC_SIZE
          then if_walk n buf cfg 0 0 USB_LEN_CFG_DESC
          else Done cfg)"

text \<open>
  The call as its caller sees it: \<open>None\<close> when it faults or never returns. Each step either moves
  forward in the buffer or, past a zero length byte, fills one of the 45 slots of the descriptor,
  so this fuel is never short of a walk that ends.
\<close>

definition USBH_ParseCfgDesc ::
  "USBH_CfgDescTypeDef \<Rightarrow> u8 list \<Rightarrow> u16 \<Rightarrow> USBH_CfgDescTypeDef option" where
  "USBH_ParseCfgDesc cfg buf len =
     (case cfg_walk (length buf + 64) cfg buf len of Done c \<Rightarrow> Some c | _ \<Rightarrow> None)"

subsection \<open>String descriptors\<close>

text \<open>
  Source and destination are the same buffer, as in every call of the library. The length is an
  \<^verbatim>\<open>int\<close> expression, compared with the 16-bit request length and then narrowed to 16 bits.
\<close>

definition string_length :: "u8 \<Rightarrow> u16 \<Rightarrow> u16" where
  "string_length l len =
     (let n = int (unat l) - 2 in if n \<le> int (unat len) then of_int n else len)"

function string_loop :: "u8 list \<Rightarrow> nat \<Rightarrow> nat \<Rightarrow> nat \<Rightarrow> u8 list option" where
  "string_loop buf strlen idx dst =
     (if idx < strlen then
        (case rd buf (2 + idx) of
           None \<Rightarrow> None
         | Some c \<Rightarrow>
             (case wr buf dst c of
                None \<Rightarrow> None
              | Some buf' \<Rightarrow> string_loop buf' strlen (idx + 2) (dst + 1)))
      else wr buf dst 0)"
  by pat_completeness auto
termination
  by (relation "measure (\<lambda>(buf, strlen, idx, dst). strlen - idx)") auto

declare string_loop.simps [simp del]

definition USBH_ParseStringDesc :: "u8 list \<Rightarrow> u16 \<Rightarrow> u8 list option" where
  "USBH_ParseStringDesc buf len = do {
     t \<leftarrow> rd buf 1;
     (if t = USB_DESC_TYPE_STRING then do {
        l \<leftarrow> rd buf 0;
        string_loop buf (unat (string_length l len)) 0 0
      } else Some buf)
   }"

subsection \<open>Encoders\<close>

text \<open>The byte layout the USB specification gives each descriptor.\<close>

definition encode_dev :: "USBH_DevDescTypeDef \<Rightarrow> u8 list" where
  "encode_dev d = [d_bLength d, d_bDescriptorType d] @ le16_bytes (bcdUSB d) @
     [bDeviceClass d, bDeviceSubClass d, bDeviceProtocol d, bMaxPacketSize d] @
     le16_bytes (idVendor d) @ le16_bytes (idProduct d) @ le16_bytes (bcdDevice d) @
     [iManufacturer d, iProduct d, iSerialNumber d, bNumConfigurations d]"

definition encode_itf :: "USBH_InterfaceDescTypeDef \<Rightarrow> u8 list" where
  "encode_itf d = [i_bLength d, i_bDescriptorType d, bInterfaceNumber d, bAlternateSetting d,
     bNumEndpoints d, bInterfaceClass d, bInterfaceSubClass d, bInterfaceProtocol d, iInterface d]"

definition encode_ep :: "USBH_EpDescTypeDef \<Rightarrow> u8 list" where
  "encode_ep d = [e_bLength d, e_bDescriptorType d, bEndpointAddress d, e_bmAttributes d] @
     le16_bytes (wMaxPacketSize d) @ [bInterval d]"

definition encode_cfg_header :: "USBH_CfgDescTypeDef \<Rightarrow> u8 list" where
  "encode_cfg_header c = [c_bLength c, c_bDescriptorType c] @ le16_bytes (wTotalLength c) @
     [bNumInterfaces c, bConfigurationValue c, iConfiguration c, c_bmAttributes c, bMaxPower c]"

text \<open>
  A device descriptor in the layout of the USB specification is read back field by field,
  whatever was stored before and whatever follows it in the buffer.
\<close>

theorem parse_dev_roundtrip:
  "USBH_ParseDevDesc d0 (encode_dev d @ rest) USB_DEVICE_DESC_SIZE = Some d"
  by (simp add: USBH_ParseDevDesc_def encode_dev_def le16_bytes_def byte_simps)

lemma parse_itf:
  "length pre = p \<Longrightarrow> USBH_ParseInterfaceDesc d0 (pre @ encode_itf d @ rest) p =
     Some (d\<lparr>Ep_Desc := Ep_Desc d0\<rparr>)"
  by (simp add: USBH_ParseInterfaceDesc_def encode_itf_def byte_simps)

lemma parse_ep:
  "length pre = p \<Longrightarrow> USBH_ParseEPDesc d0 (pre @ encode_ep d @ rest) p = Some d"
  by (simp add: USBH_ParseEPDesc_def encode_ep_def le16_bytes_def byte_simps)

lemma parse_header:
  "cfg_header c0 (encode_cfg_header c @ rest) = Some (c\<lparr>Itf_Desc := Itf_Desc c0\<rparr>)"
  by (simp add: cfg_header_def encode_cfg_header_def le16_bytes_def byte_simps)


subsection \<open>Well-formed storage\<close>

definition cfg_wf :: "USBH_CfgDescTypeDef \<Rightarrow> bool" where
  "cfg_wf cfg \<longleftrightarrow> length (Itf_Desc cfg) = USBH_MAX_NUM_INTERFACES \<and>
     (\<forall>i<USBH_MAX_NUM_INTERFACES. length (Ep_Desc (Itf_Desc cfg ! i)) = USBH_MAX_NUM_ENDPOINTS)"

lemma cfg_wf_ep: "cfg_wf cfg \<Longrightarrow> i < USBH_MAX_NUM_INTERFACES \<Longrightarrow>
    length (Ep_Desc (Itf_Desc cfg ! i)) = USBH_MAX_NUM_ENDPOINTS"
  by (simp add: cfg_wf_def)

lemma ParseInterface_Ep: "USBH_ParseInterfaceDesc d buf p = Some d' \<Longrightarrow> Ep_Desc d' = Ep_Desc d"
  by (auto simp: USBH_ParseInterfaceDesc_def bind_eq_Some_conv)

lemma put_itf_wf:
  assumes "cfg_wf cfg" "put_itf cfg i buf p = Some cfg'"
  shows "cfg_wf cfg'" "i < USBH_MAX_NUM_INTERFACES" "wTotalLength cfg' = wTotalLength cfg"
  using assms
  by (auto simp: put_itf_def bind_eq_Some_conv rd_eq_Some_iff wr_eq_Some_iff cfg_wf_def
      nth_list_update dest!: ParseInterface_Ep)

lemma put_ep_wf:
  assumes "cfg_wf cfg" "put_ep cfg i e buf p = Some cfg'"
  shows "cfg_wf cfg'" "e < USBH_MAX_NUM_ENDPOINTS" "wTotalLength cfg' = wTotalLength cfg"
    "num_eps cfg' i = num_eps cfg i"
  using assms
  by (auto simp: put_ep_def bind_eq_Some_conv rd_eq_Some_iff wr_eq_Some_iff cfg_wf_def num_eps_def
      nth_list_update)

lemma ep_walk_wf:
  "ep_walk n buf cfg i e p q = Done (cfg', p', q') \<Longrightarrow> cfg_wf cfg \<Longrightarrow>
     cfg_wf cfg' \<and> p \<le> p' \<and> wTotalLength cfg' = wTotalLength cfg"
proof (induction n buf cfg i e p q rule: ep_walk.induct)
  case (1 buf cfg i e p q)
  then show ?case by simp
next
  case (2 n buf cfg i e p q)
  show ?case
  proof (cases "e < num_eps cfg i \<and> q < wTotalLength cfg")
    case True
    with "2.prems"(1) obtain l t where l: "rd buf p = Some l" and t: "rd buf (p + unat l + 1) = Some t"
      by (auto simp: USBH_GetNextDesc_def bind_eq_Some_conv split: option.splits)
    note step = True l t "2.prems"
    show ?thesis
    proof (cases "t = USB_DESC_TYPE_ENDPOINT")
      case True
      with step obtain c where c: "put_ep cfg i e buf (p + unat l) = Some c"
        and r: "ep_walk n buf c i (Suc e) (p + unat l) (q + ucast l) = Done (cfg', p', q')"
        by (auto simp: USBH_GetNextDesc_def bind_eq_Some_conv split: option.splits)
      from "2.IH"(1) [OF _ _ refl _ True c r] step c put_ep_wf [OF "2.prems"(2) c]
      show ?thesis by (auto simp: USBH_GetNextDesc_def)
    next
      case False
      with step have r: "ep_walk n buf cfg i e (p + unat l) (q + ucast l) = Done (cfg', p', q')"
        by (auto simp: USBH_GetNextDesc_def)
      from "2.IH"(2) [OF _ _ refl _ False r] step show ?thesis
        by (auto simp: USBH_GetNextDesc_def)
    qed
  next
    case False
    with "2.prems" show ?thesis by auto
  qed
qed

lemma if_walk_wf:
  "if_walk n buf cfg i p q = Done cfg' \<Longrightarrow> cfg_wf cfg \<Longrightarrow>
     cfg_wf cfg' \<and> wTotalLength cfg' = wTotalLength cfg"
proof (induction n arbitrary: cfg i p q)
  case 0
  then show ?case by simp
next
  case (Suc n)
  show ?case
  proof (cases "i < USBH_MAX_NUM_INTERFACES \<and> q < wTotalLength cfg")
    case True
    with Suc.prems(1) obtain l t where l: "rd buf p = Some l" and t: "rd buf (p + unat l + 1) = Some t"
      by (auto simp: USBH_GetNextDesc_def bind_eq_Some_conv split: option.splits)
    show ?thesis
    proof (cases "t = USB_DESC_TYPE_INTERFACE")
      case True
      with Suc.prems \<open>i < _ \<and> _\<close> l t obtain c c' p' q'
        where c: "put_itf cfg i buf (p + unat l) = Some c"
        and e: "ep_walk n buf c i 0 (p + unat l) (q + ucast l) = Done (c', p', q')"
        and r: "if_walk n buf c' (Suc i) p' q' = Done cfg'"
        by (auto simp: USBH_GetNextDesc_def bind_eq_Some_conv split: option.splits walk.splits)
      from put_itf_wf [OF Suc.prems(2) c] ep_walk_wf [OF e] Suc.IH [OF r] show ?thesis by auto
    next
      case False
      with Suc.prems \<open>i < _ \<and> _\<close> l t have "if_walk n buf cfg i (p + unat l) (q + ucast l) = Done cfg'"
        by (auto simp: USBH_GetNextDesc_def)
      from Suc.IH [OF this Suc.prems(2)] show ?thesis .
    qed
  next
    case False
    with Suc.prems show ?thesis by auto
  qed
qed

subsection \<open>How much fuel is enough\<close>

lemma ep_walk_fuel:
  "ep_walk m buf cfg i e p q = r \<Longrightarrow> r \<noteq> NoFuel \<Longrightarrow> cfg_wf cfg \<Longrightarrow>
   (length buf - p) + (USBH_MAX_NUM_ENDPOINTS - e) + 2 \<le> n \<Longrightarrow> ep_walk n buf cfg i e p q = r"
proof (induction m arbitrary: cfg e p q n)
  case 0
  then show ?case by simp
next
  case (Suc m)
  then obtain k where n: "n = Suc k" by (cases n) auto
  show ?case
  proof (cases "e < num_eps cfg i \<and> q < wTotalLength cfg")
    case g: True
    show ?thesis
    proof (cases "rd buf p")
      case None
      with Suc.prems g n show ?thesis by (simp add: USBH_GetNextDesc_def)
    next
      case (Some l)
      then have p: "p < length buf" by (simp add: rd_eq_Some_iff)
      show ?thesis
      proof (cases "rd buf (p + unat l + 1)")
        case None
        with Some Suc.prems g n show ?thesis by (simp add: USBH_GetNextDesc_def)
      next
        case t: (Some t)
        show ?thesis
        proof (cases "t = USB_DESC_TYPE_ENDPOINT")
          case ep: True
          show ?thesis
          proof (cases "put_ep cfg i e buf (p + unat l)")
            case None
            with Some t ep Suc.prems g n show ?thesis by (simp add: USBH_GetNextDesc_def)
          next
            case c: (Some c)
            note w = put_ep_wf [OF Suc.prems(3) c]
            have "ep_walk m buf c i (Suc e) (p + unat l) (q + ucast l) = r"
              using Some t ep c Suc.prems g by (simp add: USBH_GetNextDesc_def)
            from Suc.IH [OF this Suc.prems(2) w(1), of k] w(2) Suc.prems(4) n
            have "ep_walk k buf c i (Suc e) (p + unat l) (q + ucast l) = r" by simp
            with Some t ep c g n show ?thesis by (simp add: USBH_GetNextDesc_def)
          qed
        next
          case nep: False
          have m: "ep_walk m buf cfg i e (p + unat l) (q + ucast l) = r"
            using Some t nep Suc.prems g by (simp add: USBH_GetNextDesc_def)
          show ?thesis
          proof (cases "l = 0")
            case True
            with m have "ep_walk m buf cfg i e p q = r" by simp
            from Suc.IH [OF this Suc.prems(2,3,4)] show ?thesis .
          next
            case False
            then have "0 < unat l" by (simp add: unat_gt_0)
            with p Suc.prems(4) n have "(length buf - (p + unat l)) + (USBH_MAX_NUM_ENDPOINTS - e) + 2 \<le> k"
              by arith
            from Suc.IH [OF m Suc.prems(2,3) this] Some t nep g n show ?thesis
              by (simp add: USBH_GetNextDesc_def)
          qed
        qed
      qed
    qed
  next
    case False
    with Suc.prems n show ?thesis by (auto simp: USBH_GetNextDesc_def)
  qed
qed

lemma if_walk_fuel:
  "if_walk m buf cfg i p q = r \<Longrightarrow> r \<noteq> NoFuel \<Longrightarrow> cfg_wf cfg \<Longrightarrow>
   (length buf - p) + 9 * (USBH_MAX_NUM_INTERFACES - i) + 2 \<le> n \<Longrightarrow> if_walk n buf cfg i p q = r"
proof (induction m arbitrary: cfg i p q n)
  case 0
  then show ?case by simp
next
  case (Suc m)
  then obtain k where n: "n = Suc k" by (cases n) auto
  show ?case
  proof (cases "i < USBH_MAX_NUM_INTERFACES \<and> q < wTotalLength cfg")
    case g: True
    show ?thesis
    proof (cases "\<exists>l t. rd buf p = Some l \<and> rd buf (p + unat l + 1) = Some t")
      case False
      with Suc.prems g n show ?thesis
        by (auto simp: USBH_GetNextDesc_def bind_eq_Some_conv split: option.splits)
    next
      case True
      then obtain l t where l: "rd buf p = Some l" and t: "rd buf (p + unat l + 1) = Some t" by blast
      then have p: "p < length buf" by (simp add: rd_eq_Some_iff)
      show ?thesis
      proof (cases "t = USB_DESC_TYPE_INTERFACE")
        case ift: True
        show ?thesis
        proof (cases "put_itf cfg i buf (p + unat l)")
          case None
          with l t ift Suc.prems g n show ?thesis by (simp add: USBH_GetNextDesc_def)
        next
          case c: (Some c)
          note w = put_itf_wf [OF Suc.prems(3) c]
          let ?e = "ep_walk m buf c i 0 (p + unat l) (q + ucast l)"
          have ne: "?e \<noteq> NoFuel"
            using l t ift c Suc.prems(1,2) g by (auto simp: USBH_GetNextDesc_def)
          have ek: "ep_walk k buf c i 0 (p + unat l) (q + ucast l) = ?e"
            by (rule ep_walk_fuel [OF refl ne w(1)]) (use Suc.prems(4) n conjunct1 [OF g] in linarith)
          show ?thesis
          proof (cases "?e")
            case (Done x)
            obtain c' p' q' where x: "x = (c', p', q')" by (cases x)
            with Done ep_walk_wf [of m buf c i 0] w(1) have w': "cfg_wf c'" "p + unat l \<le> p'" by auto
            have r: "if_walk m buf c' (Suc i) p' q' = r"
              using l t ift c Suc.prems(1) g Done x by (simp add: USBH_GetNextDesc_def)
            have "length buf - p' + 9 * (USBH_MAX_NUM_INTERFACES - Suc i) + 2 \<le> k"
              using w'(2) Suc.prems(4) n conjunct1 [OF g] by linarith
            from Suc.IH [OF r Suc.prems(2) w'(1) this] show ?thesis
              using l t ift c g n ek Done x by (simp add: USBH_GetNextDesc_def)
          next
            case Fault
            then show ?thesis using l t ift c g n ek Suc.prems(1) by (simp add: USBH_GetNextDesc_def)
          next
            case NoFuel
            with ne show ?thesis by simp
          qed
        qed
      next
        case nif: False
        have m: "if_walk m buf cfg i (p + unat l) (q + ucast l) = r"
          using l t nif Suc.prems g by (simp add: USBH_GetNextDesc_def)
        show ?thesis
        proof (cases "l = 0")
          case True
          with m have "if_walk m buf cfg i p q = r" by simp
          from Suc.IH [OF this Suc.prems(2,3,4)] show ?thesis .
        next
          case False
          then have "0 < unat l" by (simp add: unat_gt_0)
          with p Suc.prems(4) n
          have "(length buf - (p + unat l)) + 9 * (USBH_MAX_NUM_INTERFACES - i) + 2 \<le> k" by arith
          from Suc.IH [OF m Suc.prems(2,3) this] l t nif g n show ?thesis
            by (simp add: USBH_GetNextDesc_def)
        qed
      qed
    qed
  next
    case False
    with Suc.prems n show ?thesis by auto
  qed
qed

lemma cfg_header_wf: "cfg_header cfg buf = Some c \<Longrightarrow> cfg_wf cfg \<Longrightarrow> cfg_wf c"
  by (auto simp: cfg_header_def bind_eq_Some_conv cfg_wf_def)

lemma cfg_walk_fuel:
  assumes "cfg_wf cfg" "cfg_walk m cfg buf len = r" "r \<noteq> NoFuel"
  shows "cfg_walk (length buf + 64) cfg buf len = r"
  using assms if_walk_fuel [of m buf _ 0 0 USB_LEN_CFG_DESC r "length buf + 64"]
  by (auto simp: cfg_walk_def cfg_header_wf split: option.splits if_splits)

text \<open>
  The configuration parser returns exactly when its walk over the descriptors ends without a
  fault: no bound on the number of steps hides behind the model.
\<close>

theorem ParseCfgDesc_complete:
  assumes "cfg_wf cfg"
  shows "USBH_ParseCfgDesc cfg buf len = Some c \<longleftrightarrow> (\<exists>n. cfg_walk n cfg buf len = Done c)"
  using cfg_walk_fuel [OF assms, of _ buf len "Done c"]
  by (auto simp: USBH_ParseCfgDesc_def split: walk.splits)

definition sample_cfg :: USBH_CfgDescTypeDef where
  "sample_cfg = zero_cfg\<lparr>c_bLength := 9, c_bDescriptorType := 2, wTotalLength := 25, bNumInterfaces := 1\<rparr>"

definition sample_itf :: USBH_InterfaceDescTypeDef where
  "sample_itf = zero_itf\<lparr>i_bLength := 9, i_bDescriptorType := 4, bNumEndpoints := 1, bInterfaceClass := 0xff\<rparr>"

definition sample_ep :: USBH_EpDescTypeDef where
  "sample_ep = zero_ep\<lparr>e_bLength := 7, e_bDescriptorType := 5, bEndpointAddress := 0x81, wMaxPacketSize := 64\<rparr>"

lemma zero_cfg_wf: "cfg_wf zero_cfg"
  by (simp add: cfg_wf_def zero_cfg_def zero_itf_def)

lemma ParseCfgDesc_complete_witness:
  "USBH_ParseCfgDesc zero_cfg (replicate 512 0) 9 = Some zero_cfg \<longleftrightarrow>
     (\<exists>n. cfg_walk n zero_cfg (replicate 512 0) 9 = Done zero_cfg)"
  using ParseCfgDesc_complete [OF zero_cfg_wf] .

text \<open>
  Whatever bytes a device sends, a parse that returns leaves the descriptor its five interfaces
  of eight endpoints each.
\<close>

theorem ParseCfgDesc_wf:
  assumes "cfg_wf cfg" "USBH_ParseCfgDesc cfg buf len = Some c"
  shows "cfg_wf c"
  using assms if_walk_wf cfg_header_wf
  by (fastforce simp: USBH_ParseCfgDesc_def cfg_walk_def split: walk.splits option.splits if_splits)

lemma ParseCfgDesc_wf_witness: "cfg_wf (the (USBH_ParseCfgDesc zero_cfg (replicate 512 0) 9))"
proof -
  have "USBH_ParseCfgDesc zero_cfg (replicate 512 0) 9 =
      cfg_header zero_cfg (replicate 512 0)"
    by (simp add: USBH_ParseCfgDesc_def cfg_walk_def split: option.splits)
  moreover obtain c where "cfg_header zero_cfg (replicate 512 0) = Some c"
    by (simp add: cfg_header_def mem_simps LE16_def)
  ultimately show ?thesis using ParseCfgDesc_wf [OF zero_cfg_wf] by simp
qed

subsection \<open>Descriptors that do not advance, or do not fit\<close>

lemma if_walk_zero:
  assumes "i < USBH_MAX_NUM_INTERFACES" "q < wTotalLength cfg" "rd buf p = Some 0"
    "rd buf (p + 1) = Some t" "t \<noteq> USB_DESC_TYPE_INTERFACE"
  shows "if_walk n buf cfg i p q = NoFuel"
  using assms by (induction n) (simp_all add: USBH_GetNextDesc_def)

lemma ep_walk_zero:
  assumes "e < num_eps cfg i" "q < wTotalLength cfg" "rd buf p = Some 0"
    "rd buf (p + 1) = Some t" "t \<noteq> USB_DESC_TYPE_ENDPOINT"
  shows "ep_walk n buf cfg i e p q = NoFuel"
  using assms by (induction n) (simp_all add: USBH_GetNextDesc_def)

text \<open>
  C18: a configuration whose first interface position holds a descriptor of length zero (of any
  other type) keeps the parser walking for ever: every bound runs out.
\<close>

theorem ParseCfgDesc_zero_length_hangs:
  assumes "c_bLength c = 9" "18 < wTotalLength c" "t \<noteq> USB_DESC_TYPE_INTERFACE"
    "len > USB_CONFIGURATION_DESC_SIZE"
  shows "cfg_walk n c0 (encode_cfg_header c @ 0 # t # rest) len = NoFuel"
proof -
  let ?buf = "encode_cfg_header c @ 0 # t # rest"
  have h: "length (encode_cfg_header c) = 9" by (simp add: encode_cfg_header_def)
  have r9: "rd ?buf 9 = Some 0" "rd ?buf (9 + 1) = Some t"
    using rd_shift [OF h, of "0 # t # rest"] by (simp_all add: byte_simps)
  have r0: "rd ?buf 0 = Some 9"
    using assms(1) by (simp add: encode_cfg_header_def byte_simps)
  have "9 < wTotalLength c" using assms(2) by (simp add: word_less_nat_alt)
  then show ?thesis
    using if_walk_zero [OF _ _ r9 assms(3), of 0 18 "c\<lparr>Itf_Desc := Itf_Desc c0\<rparr>"] assms r0 r9
    by (cases n) (simp_all add: cfg_walk_def parse_header USBH_GetNextDesc_def)
qed

lemma ParseCfgDesc_zero_length_hangs_witness:
  "cfg_walk 1000 zero_cfg (encode_cfg_header sample_cfg @ 0 # 5 # []) 512 = NoFuel"
  by (rule ParseCfgDesc_zero_length_hangs) (simp_all add: sample_cfg_def)

subsection \<open>A configuration written out and read back\<close>

text \<open>
  A configuration as a device sends it: interfaces, each followed by endpoint descriptors with
  class-specific descriptors in between.
\<close>

datatype sub_desc = Sub_ep USBH_EpDescTypeDef | Sub_other "u8 list"

type_synonym itf_block = "USBH_InterfaceDescTypeDef \<times> sub_desc list"

primrec encode_sub :: "sub_desc \<Rightarrow> u8 list" where
  "encode_sub (Sub_ep e) = encode_ep e"
| "encode_sub (Sub_other bs) = bs"

fun eps_of :: "sub_desc list \<Rightarrow> USBH_EpDescTypeDef list" where
  "eps_of [] = []"
| "eps_of (Sub_ep e # ds) = e # eps_of ds"
| "eps_of (Sub_other _ # ds) = eps_of ds"

definition encode_block :: "itf_block \<Rightarrow> u8 list" where
  "encode_block blk = encode_itf (fst blk) @ concat (map encode_sub (snd blk))"

definition encode_cfg :: "USBH_CfgDescTypeDef \<Rightarrow> itf_block list \<Rightarrow> u8 list" where
  "encode_cfg c bls = encode_cfg_header c @ concat (map encode_block bls)"

primrec sub_ok :: "sub_desc \<Rightarrow> bool" where
  "sub_ok (Sub_ep e) \<longleftrightarrow> e_bLength e = 7 \<and> e_bDescriptorType e = USB_DESC_TYPE_ENDPOINT"
| "sub_ok (Sub_other bs) \<longleftrightarrow> 3 \<le> length bs \<and> length bs < 256 \<and> bs ! 0 = of_nat (length bs) \<and>
     bs ! 1 \<noteq> USB_DESC_TYPE_ENDPOINT \<and> bs ! 1 \<noteq> USB_DESC_TYPE_INTERFACE"

primrec is_ep :: "sub_desc \<Rightarrow> bool" where
  "is_ep (Sub_ep e) = True"
| "is_ep (Sub_other bs) = False"

definition subs_ok :: "sub_desc list \<Rightarrow> bool" where
  "subs_ok ds \<longleftrightarrow> (\<forall>d \<in> set ds. sub_ok d) \<and> (ds \<noteq> [] \<longrightarrow> is_ep (last ds))"

definition block_ok :: "itf_block \<Rightarrow> bool" where
  "block_ok blk \<longleftrightarrow> i_bLength (fst blk) = 9 \<and> i_bDescriptorType (fst blk) = USB_DESC_TYPE_INTERFACE \<and>
     subs_ok (snd blk) \<and> length (eps_of (snd blk)) = unat (bNumEndpoints (fst blk)) \<and>
     length (eps_of (snd blk)) \<le> USBH_MAX_NUM_ENDPOINTS"

text \<open>What the walk stores: consecutive slots are overwritten, the rest stays.\<close>

fun put_from :: "nat \<Rightarrow> 'a list \<Rightarrow> 'a list \<Rightarrow> 'a list" where
  "put_from k xs [] = xs"
| "put_from k xs (y # ys) = put_from (Suc k) (xs[k := y]) ys"

lemma put_from_eq: "k + length ys \<le> length xs \<Longrightarrow>
    put_from k xs ys = take k xs @ ys @ drop (k + length ys) xs"
proof (induction ys arbitrary: k xs)
  case Nil
  then show ?case by simp
next
  case (Cons y ys)
  then show ?case
    by (simp add: take_Suc_conv_app_nth drop_update_cancel)
qed

definition store_block :: "USBH_InterfaceDescTypeDef \<Rightarrow> itf_block \<Rightarrow> USBH_InterfaceDescTypeDef" where
  "store_block old blk = (fst blk)\<lparr>Ep_Desc := put_from 0 (Ep_Desc old) (eps_of (snd blk))\<rparr>"

definition store_itfs :: "USBH_InterfaceDescTypeDef list \<Rightarrow> itf_block list \<Rightarrow> USBH_InterfaceDescTypeDef list"
  where "store_itfs old bls = map2 store_block old bls @ drop (length bls) old"

text \<open>A descriptor in the buffer: its length byte tells its length.\<close>

definition framed :: "u8 list \<Rightarrow> bool" where
  "framed bs \<longleftrightarrow> 3 \<le> length bs \<and> length bs < 256 \<and> bs ! 0 = of_nat (length bs)"

lemma length_encode_itf [simp]: "length (encode_itf f) = 9"
  by (simp add: encode_itf_def)

lemma length_encode_ep [simp]: "length (encode_ep e) = 7"
  by (simp add: encode_ep_def)

lemma framed_sub: "sub_ok d \<Longrightarrow> framed (encode_sub d)"
  by (cases d) (simp_all add: framed_def encode_ep_def le16_bytes_def)

lemma framed_itf: "i_bLength f = 9 \<Longrightarrow> framed (encode_itf f)"
  by (simp add: framed_def encode_itf_def)

lemma next_desc:
  assumes "framed cur"
  shows "USBH_GetNextDesc (pre @ cur @ xs) (length pre) (of_nat (length pre + 9)) =
     Some (length pre + length cur, of_nat (length pre + length cur + 9))"
  using assms by (auto simp: USBH_GetNextDesc_def framed_def rd_def nth_append unat_of_nat
      unsigned_of_nat take_bit_nat_eq_self add_ac)

lemma type_at: "framed bs \<Longrightarrow> rd (pre @ bs @ xs) (length pre + 1) = Some (bs ! 1)"
  by (simp add: rd_def nth_append framed_def)

lemma ptr_less:
  "n < 65536 \<Longrightarrow> of_nat n < (w :: u16) \<longleftrightarrow> n < unat w"
  by (simp add: word_less_nat_alt unat_of_nat)

lemma subs_long:
  "ds \<noteq> [] \<Longrightarrow> is_ep (last ds) \<Longrightarrow>
     eps_of ds \<noteq> [] \<and> 7 \<le> length (concat (map encode_sub ds))"
proof (induction ds)
  case (Cons d ds)
  then show ?case by (cases d; cases "ds = []") auto
qed simp

lemma ep_walk_subs:
  "\<lbrakk>framed cur; subs_ok ds; num_eps cfg i = e + length (eps_of ds); cfg_wf cfg;
    i < USBH_MAX_NUM_INTERFACES; e + length (eps_of ds) \<le> USBH_MAX_NUM_ENDPOINTS;
    length pre + length cur + length (concat (map encode_sub ds)) \<le> unat (wTotalLength cfg);
    unat (wTotalLength cfg) < 65000; length ds < n\<rbrakk> \<Longrightarrow>
   \<exists>pre' cur'. pre' @ cur' = pre @ cur @ concat (map encode_sub ds) \<and> framed cur' \<and>
     (length cur \<le> 9 \<or> ds \<noteq> [] \<longrightarrow> length cur' \<le> 9) \<and>
     ep_walk n (pre @ cur @ concat (map encode_sub ds) @ post) cfg i e (length pre)
         (of_nat (length pre + 9)) =
       Done (cfg\<lparr>Itf_Desc := (Itf_Desc cfg)[i := (Itf_Desc cfg ! i)
           \<lparr>Ep_Desc := put_from e (Ep_Desc (Itf_Desc cfg ! i)) (eps_of ds)\<rparr>]\<rparr>,
         length pre', of_nat (length pre' + 9))"
proof (induction ds arbitrary: pre cur e cfg n)
  case Nil
  then obtain k where "n = Suc k" by (cases n) auto
  with Nil show ?case by (intro exI [of _ pre] exI [of _ cur]) simp
next
  case (Cons d ds)
  from Cons.prems(9) obtain k where n: "n = Suc k" by (cases n) auto
  let ?cs = "concat (map encode_sub ds)"
  let ?buf = "pre @ cur @ encode_sub d @ ?cs @ post"
  from Cons.prems(2) have d: "sub_ok d" and last: "is_ep (last (d # ds))" and ds: "subs_ok ds"
    by (auto simp: subs_ok_def split: if_splits)
  have ne: "0 < length (eps_of (d # ds))" and long: "7 \<le> length (concat (map encode_sub (d # ds)))"
    using subs_long [OF _ last] by auto
  have fr: "framed (encode_sub d)" using framed_sub [OF d] .
  have cur: "3 \<le> length cur" using Cons.prems(1) by (simp add: framed_def)
  have guard: "e < num_eps cfg i \<and> (of_nat (length pre + 9) :: u16) < wTotalLength cfg"
  proof
    show "e < num_eps cfg i" using Cons.prems(3) ne by linarith
    show "(of_nat (length pre + 9) :: u16) < wTotalLength cfg"
      by (subst ptr_less) (use cur long Cons.prems(7,8) in linarith)+
  qed
  have nx: "USBH_GetNextDesc ?buf (length pre) (of_nat (length pre + 9)) =
     Some (length (pre @ cur), of_nat (length (pre @ cur) + 9))"
    using next_desc [OF Cons.prems(1)] by simp
  have ty: "rd ?buf (length (pre @ cur) + 1) = Some (encode_sub d ! 1)"
    using type_at [OF fr, of "pre @ cur" "?cs @ post"] by simp
  show ?case
  proof (cases d)
    case (Sub_ep ep)
    with d have t: "encode_sub d ! 1 = USB_DESC_TYPE_ENDPOINT" by (simp add: encode_ep_def)
    let ?f = "Itf_Desc cfg ! i"
    let ?cfg = "cfg\<lparr>Itf_Desc := (Itf_Desc cfg)[i := ?f\<lparr>Ep_Desc := (Ep_Desc ?f)[e := ep]\<rparr>]\<rparr>"
    have el: "e < USBH_MAX_NUM_ENDPOINTS" using Cons.prems(6) ne by linarith
    have len: "length (Itf_Desc cfg) = USBH_MAX_NUM_INTERFACES"
      "length (Ep_Desc ?f) = USBH_MAX_NUM_ENDPOINTS"
      using Cons.prems(4,5) by (simp_all add: cfg_wf_def)
    have put: "put_ep cfg i e ?buf (length (pre @ cur)) = Some ?cfg"
      using parse_ep [of "pre @ cur" _ _ ep "?cs @ post"] len el Cons.prems(5) Sub_ep
      by (simp add: put_ep_def mem_simps)
    have wf: "cfg_wf ?cfg" using Cons.prems(4,5) by (auto simp: cfg_wf_def nth_list_update)
    have "length (encode_sub d) \<le> 9" using Sub_ep by simp
    moreover have "num_eps ?cfg i = Suc e + length (eps_of ds)"
      using Cons.prems(3,5) Sub_ep len by (simp add: num_eps_def)
    moreover note Cons.IH [OF fr ds _ wf Cons.prems(5), of "Suc e" "pre @ cur" k]
    ultimately show ?thesis
      using Cons.prems(5-9) n guard nx ty t put Sub_ep len
      by (simp add: add_ac)
  next
    case (Sub_other bs)
    with last have nl: "ds \<noteq> []" by (auto split: if_splits)
    from Sub_other d have t: "encode_sub d ! 1 \<noteq> USB_DESC_TYPE_ENDPOINT" by simp
    note Cons.IH [OF fr ds _ Cons.prems(4,5), of e "pre @ cur" k]
    then show ?thesis
      using Cons.prems(3-9) n guard nx ty t nl Sub_other by (simp add: add_ac)
  qed
qed

lemma cfg_wf_update:
  "cfg_wf cfg \<Longrightarrow> length (Ep_Desc f) = USBH_MAX_NUM_ENDPOINTS \<Longrightarrow>
     cfg_wf (cfg\<lparr>Itf_Desc := (Itf_Desc cfg)[i := f]\<rparr>)"
  by (cases "i < USBH_MAX_NUM_INTERFACES") (auto simp: cfg_wf_def nth_list_update)

lemma length_put_from [simp]: "length (put_from k xs ys) = length xs"
  by (induction ys arbitrary: k xs) auto

fun store_from :: "nat \<Rightarrow> USBH_InterfaceDescTypeDef list \<Rightarrow> itf_block list \<Rightarrow> USBH_InterfaceDescTypeDef list"
  where
  "store_from k xs [] = xs"
| "store_from k xs (b # bs) = store_from (Suc k) (xs[k := store_block (xs ! k) b]) bs"

lemma store_from_eq: "k + length bls \<le> length xs \<Longrightarrow>
    store_from k xs bls = take k xs @ store_itfs (drop k xs) bls"
proof (induction bls arbitrary: k xs)
  case Nil
  then show ?case by (simp add: store_itfs_def)
next
  case (Cons b bs)
  then have "drop k xs = xs ! k # drop (Suc k) xs" by (simp add: Cons_nth_drop_Suc)
  with Cons show ?case
    by (simp add: take_Suc_conv_app_nth drop_update_cancel store_itfs_def)
qed

fun steps :: "itf_block list \<Rightarrow> nat" where
  "steps [] = 1"
| "steps (b # bs) = length (snd b) + 2 + steps bs"

lemma if_walk_blocks:
  "\<lbrakk>framed cur; length cur \<le> 9; \<forall>b \<in> set bls. block_ok b; cfg_wf cfg;
    i + length bls \<le> USBH_MAX_NUM_INTERFACES;
    length pre + length cur + length (concat (map encode_block bls)) = unat (wTotalLength cfg);
    unat (wTotalLength cfg) < 65000; steps bls \<le> n\<rbrakk> \<Longrightarrow>
   if_walk n (pre @ cur @ concat (map encode_block bls) @ post) cfg i (length pre)
       (of_nat (length pre + 9)) =
     Done (cfg\<lparr>Itf_Desc := store_from i (Itf_Desc cfg) bls\<rparr>)"
proof (induction bls arbitrary: pre cur i cfg n)
  case Nil
  then obtain k where "n = Suc k" by (cases n) auto
  moreover have "\<not> (of_nat (length pre + 9) :: u16) < wTotalLength cfg"
    by (subst ptr_less) (use Nil.prems in \<open>simp_all\<close>)
  ultimately show ?case by simp
next
  case (Cons b bs)
  then obtain k where n: "n = Suc k" by (cases n) auto
  obtain f ds where b: "b = (f, ds)" by (cases b)
  let ?bb = "concat (map encode_block bs)"
  let ?ds = "concat (map encode_sub ds)"
  let ?buf = "pre @ cur @ encode_itf f @ ?ds @ ?bb @ post"
  from Cons.prems(3) b have ok: "block_ok (f, ds)" and oks: "\<forall>b \<in> set bs. block_ok b" by auto
  then have fr: "framed (encode_itf f)" by (simp add: block_ok_def framed_itf)
  have tot: "length pre + length cur + 9 + length ?ds + length ?bb = unat (wTotalLength cfg)"
    using Cons.prems(6) b by (simp add: encode_block_def [of "(f, ds)"])
  have cur: "3 \<le> length cur" using Cons.prems(1) by (simp add: framed_def)
  have guard: "i < USBH_MAX_NUM_INTERFACES \<and> (of_nat (length pre + 9) :: u16) < wTotalLength cfg"
  proof
    show "i < USBH_MAX_NUM_INTERFACES" using Cons.prems(5) by simp
    show "(of_nat (length pre + 9) :: u16) < wTotalLength cfg"
      by (subst ptr_less) (use cur tot Cons.prems(7) in linarith)+
  qed
  have nx: "USBH_GetNextDesc ?buf (length pre) (of_nat (length pre + 9)) =
     Some (length (pre @ cur), of_nat (length (pre @ cur) + 9))"
    using next_desc [OF Cons.prems(1)] by simp
  have ty: "rd ?buf (length (pre @ cur) + 1) = Some USB_DESC_TYPE_INTERFACE"
    using type_at [OF fr, of "pre @ cur" "?ds @ ?bb @ post"] ok
    by (simp add: encode_itf_def block_ok_def)
  let ?f = "f\<lparr>Ep_Desc := Ep_Desc (Itf_Desc cfg ! i)\<rparr>"
  let ?c = "cfg\<lparr>Itf_Desc := (Itf_Desc cfg)[i := ?f]\<rparr>"
  have len: "length (Itf_Desc cfg) = USBH_MAX_NUM_INTERFACES"
    "length (Ep_Desc (Itf_Desc cfg ! i)) = USBH_MAX_NUM_ENDPOINTS"
    using Cons.prems(4) guard by (simp_all add: cfg_wf_def)
  have put: "put_itf cfg i ?buf (length (pre @ cur)) = Some ?c"
    using parse_itf [of "pre @ cur" _ "Itf_Desc cfg ! i" f "?ds @ ?bb @ post"] len guard
    by (simp add: put_itf_def mem_simps)
  have wf: "cfg_wf ?c" using Cons.prems(4) len by (intro cfg_wf_update) simp_all
  have ne: "num_eps ?c i = 0 + length (eps_of ds)"
    using ok len guard by (simp add: num_eps_def block_ok_def)
  have "subs_ok ds" "0 + length (eps_of ds) \<le> USBH_MAX_NUM_ENDPOINTS"
    using ok by (simp_all add: block_ok_def)
  from ep_walk_subs [OF fr this(1) ne wf conjunct1 [OF guard] this(2), of "pre @ cur" k "?bb @ post"]
  obtain pre' cur' where eq: "pre' @ cur' = (pre @ cur) @ encode_itf f @ ?ds"
    and fr': "framed cur'" and l': "length cur' \<le> 9"
    and ew: "ep_walk k ((pre @ cur) @ encode_itf f @ ?ds @ ?bb @ post) ?c i 0 (length (pre @ cur))
         (of_nat (length (pre @ cur) + 9)) =
       Done (?c\<lparr>Itf_Desc := (Itf_Desc ?c)[i := (Itf_Desc ?c ! i)
           \<lparr>Ep_Desc := put_from 0 (Ep_Desc (Itf_Desc ?c ! i)) (eps_of ds)\<rparr>]\<rparr>,
         length pre', of_nat (length pre' + 9))"
    using tot Cons.prems(7,8) n b by auto
  let ?c' = "cfg\<lparr>Itf_Desc := (Itf_Desc cfg)[i := store_block (Itf_Desc cfg ! i) b]\<rparr>"
  have c': "?c\<lparr>Itf_Desc := (Itf_Desc ?c)[i := (Itf_Desc ?c ! i)
           \<lparr>Ep_Desc := put_from 0 (Ep_Desc (Itf_Desc ?c ! i)) (eps_of ds)\<rparr>]\<rparr> = ?c'"
    using len guard b by (simp add: store_block_def)
  have buf: "?buf = pre' @ cur' @ ?bb @ post" "pre @ cur @ concat (map encode_block (b # bs)) @ post = ?buf"
    using eq b by (simp_all add: encode_block_def [of "(f, ds)"] flip: append_assoc)
  have wf': "cfg_wf ?c'" using Cons.prems(4) len by (intro cfg_wf_update) (simp_all add: store_block_def)
  have "length pre' + length cur' = length ((pre @ cur) @ encode_itf f @ ?ds)"
    by (metis eq length_append)
  then have "length pre' + length cur' + length ?bb = unat (wTotalLength ?c')"
    using tot by simp
  from Cons.IH [OF fr' l' oks wf' _ this, of "Suc i" k] Cons.prems(5,7,8) n b
  have "if_walk k (pre' @ cur' @ ?bb @ post) ?c' (Suc i) (length pre') (of_nat (length pre' + 9)) =
     Done (?c'\<lparr>Itf_Desc := store_from (Suc i) (Itf_Desc ?c') bs\<rparr>)"
    by simp
  moreover define B where "B = ?buf"
  ultimately have "if_walk k B ?c' (Suc i) (length pre') (of_nat (length pre' + 9)) =
     Done (?c'\<lparr>Itf_Desc := store_from (Suc i) (Itf_Desc ?c') bs\<rparr>)"
    using buf(1) by simp
  moreover have "USBH_GetNextDesc B (length pre) (of_nat (length pre + 9)) =
      Some (length (pre @ cur), of_nat (length (pre @ cur) + 9))"
    "rd B (length (pre @ cur) + 1) = Some USB_DESC_TYPE_INTERFACE"
    "put_itf cfg i B (length (pre @ cur)) = Some ?c"
    using nx ty put by (simp_all add: B_def)
  moreover have "ep_walk k B ?c i 0 (length (pre @ cur)) (of_nat (length (pre @ cur) + 9)) =
      Done (?c', length pre', of_nat (length pre' + 9))"
    using ew c' by (simp add: B_def)
  ultimately have "if_walk n B cfg i (length pre) (of_nat (length pre + 9)) =
     Done (?c'\<lparr>Itf_Desc := store_from (Suc i) (Itf_Desc ?c') bs\<rparr>)"
    using n guard by simp
  with buf(2) show ?case by (simp add: B_def)
qed

text \<open>The whole configuration, whatever follows it in the buffer.\<close>

definition cfg_ok :: "USBH_CfgDescTypeDef \<Rightarrow> itf_block list \<Rightarrow> bool" where
  "cfg_ok c bls \<longleftrightarrow> c_bLength c = 9 \<and> unat (wTotalLength c) = length (encode_cfg c bls) \<and>
     length (encode_cfg c bls) < 65000 \<and> (\<forall>b \<in> set bls. block_ok b) \<and>
     length bls \<le> USBH_MAX_NUM_INTERFACES"

lemma parse_cfg_roundtrip:
  assumes "cfg_wf c0" "cfg_ok c bls" "len > USB_CONFIGURATION_DESC_SIZE"
  shows "USBH_ParseCfgDesc c0 (encode_cfg c bls @ rest) len =
     Some (c\<lparr>Itf_Desc := store_itfs (Itf_Desc c0) bls\<rparr>)"
proof -
  let ?h = "encode_cfg_header c"
  have h: "framed ?h" "length ?h = 9"
    using assms(2) by (simp_all add: cfg_ok_def framed_def encode_cfg_header_def)
  have "if_walk (steps bls) ([] @ ?h @ concat (map encode_block bls) @ rest)
      (c\<lparr>Itf_Desc := Itf_Desc c0\<rparr>) 0 (length []) (of_nat (length [] + 9)) =
    Done ((c\<lparr>Itf_Desc := Itf_Desc c0\<rparr>)\<lparr>Itf_Desc := store_from 0 (Itf_Desc c0) bls\<rparr>)"
    using if_walk_blocks [OF h(1) _ _ _ _ _ _ order_refl, of bls "c\<lparr>Itf_Desc := Itf_Desc c0\<rparr>" 0 "[]" rest]
      h assms by (auto simp: cfg_ok_def encode_cfg_def cfg_wf_def)
  moreover have "store_from 0 (Itf_Desc c0) bls = store_itfs (Itf_Desc c0) bls"
    using assms store_from_eq [of 0 bls "Itf_Desc c0"] by (simp add: cfg_wf_def cfg_ok_def)
  ultimately have "cfg_walk (steps bls) c0 (encode_cfg c bls @ rest) len =
      Done (c\<lparr>Itf_Desc := store_itfs (Itf_Desc c0) bls\<rparr>)"
    using assms(3) by (simp add: cfg_walk_def encode_cfg_def parse_header)
  then have "\<exists>n. cfg_walk n c0 (encode_cfg c bls @ rest) len =
      Done (c\<lparr>Itf_Desc := store_itfs (Itf_Desc c0) bls\<rparr>)" by blast
  with cfg_walk_fuel [OF assms(1)] show ?thesis
    by (fastforce simp: USBH_ParseCfgDesc_def)
qed

text \<open>
  C14: a configuration written in the specified layout (interfaces, endpoints, class-specific
  descriptors in between) is read back whole, for at most five interfaces of at most eight
  endpoints; the other slots keep what they held.
\<close>

theorem ParseCfgDesc_roundtrip:
  assumes "cfg_wf c0" "cfg_ok c bls" "len > USB_CONFIGURATION_DESC_SIZE"
  shows "USBH_ParseCfgDesc c0 (encode_cfg c bls @ rest) len =
     Some (c\<lparr>Itf_Desc := store_itfs (Itf_Desc c0) bls\<rparr>)"
  using assms by (rule parse_cfg_roundtrip)

lemma ParseCfgDesc_roundtrip_witness:
  "USBH_ParseCfgDesc zero_cfg (encode_cfg sample_cfg [(sample_itf, [Sub_ep sample_ep])] @ [7, 5]) 25 =
     Some (sample_cfg\<lparr>Itf_Desc := store_itfs (Itf_Desc zero_cfg) [(sample_itf, [Sub_ep sample_ep])]\<rparr>)"
  by (rule ParseCfgDesc_roundtrip [OF zero_cfg_wf])
    (simp_all add: cfg_ok_def sample_cfg_def sample_itf_def sample_ep_def encode_cfg_def encode_cfg_header_def
      encode_block_def encode_itf_def encode_ep_def block_ok_def subs_ok_def zero_cfg_def)

subsection \<open>String descriptors\<close>

text \<open>
  The text of a string descriptor: the low byte of every UTF-16 unit. Reading ahead and writing
  behind in one buffer is safe because the write position never passes the read position.
\<close>

fun utf16 :: "u8 list \<Rightarrow> u8 list \<Rightarrow> u8 list" where
  "utf16 (c # cs) (h # hs) = c # h # utf16 cs hs"
| "utf16 _ _ = []"

definition encode_string :: "u8 list \<Rightarrow> u8 list \<Rightarrow> u8 list" where
  "encode_string cs hs = [of_nat (2 + 2 * length cs), USB_DESC_TYPE_STRING] @ utf16 cs hs"

lemma length_utf16 [simp]: "length cs = length hs \<Longrightarrow> length (utf16 cs hs) = 2 * length cs"
  by (induction cs hs rule: utf16.induct) auto

lemma utf16_nth: "length cs = length hs \<Longrightarrow> k < length cs \<Longrightarrow> utf16 cs hs ! (2 * k) = cs ! k"
  by (induction cs hs arbitrary: k rule: utf16.induct) (auto simp: nth_Cons split: nat.splits)

lemma string_loop_copies:
  "\<lbrakk>strlen = 2 * m; k \<le> m; 2 + 2 * m \<le> length buf;
    \<forall>j. k \<le> j \<and> j < m \<longrightarrow> buf ! (2 + 2 * j) = cs ! j; length cs = m; take k buf = take k cs\<rbrakk> \<Longrightarrow>
   \<exists>buf'. string_loop buf strlen (2 * k) k = Some buf' \<and> take m buf' = cs \<and> buf' ! m = 0 \<and>
     length buf' = length buf"
proof (induction "m - k" arbitrary: k buf)
  case 0
  then have k: "k = m" by simp
  have "m < length buf" using 0 by simp
  then show ?case using 0 k by (simp add: string_loop.simps wr_def)
next
  case (Suc x)
  then have km: "k < m" by simp
  let ?buf = "buf[k := buf ! (2 + 2 * k)]"
  have v: "buf ! (2 + 2 * k) = cs ! k" using Suc.prems km by simp
  have "\<exists>buf'. string_loop ?buf strlen (2 * Suc k) (Suc k) = Some buf' \<and> take m buf' = cs \<and>
     buf' ! m = 0 \<and> length buf' = length ?buf"
  proof (rule Suc.hyps(1))
    show "x = m - Suc k" using Suc.hyps(2) by simp
    show "\<forall>j. Suc k \<le> j \<and> j < m \<longrightarrow> ?buf ! (2 + 2 * j) = cs ! j" using Suc.prems by auto
    have "k < length buf" "k < length cs" using Suc.prems km by simp_all
    then show "take (Suc k) ?buf = take (Suc k) cs"
      using Suc.prems(6) v by (simp add: take_Suc_conv_app_nth)
  qed (use Suc.prems km in simp_all)
  moreover have "rd buf (2 + 2 * k) = Some (buf ! (2 + 2 * k))" "k < length buf"
    using Suc.prems km by (simp_all add: rd_def)
  ultimately show ?case
    using Suc.prems(1) km by (subst string_loop.simps) (simp add: wr_def)
qed

text \<open>
  A string descriptor is reduced in place to its low bytes, closed by a NUL, although the text
  is written into the buffer it is read from.
\<close>

theorem ParseStringDesc_roundtrip:
  assumes "length cs = length hs" "2 * length cs \<le> 253" "2 * length cs \<le> unat len"
  shows "\<exists>buf'. USBH_ParseStringDesc (encode_string cs hs @ rest) len = Some buf' \<and>
     take (length cs) buf' = cs \<and> buf' ! length cs = 0"
proof -
  let ?buf = "encode_string cs hs @ rest"
  have u: "unat (of_nat (2 + 2 * length cs) :: u8) = 2 + 2 * length cs"
    using assms(2) by (subst unat_of_nat) simp
  have sl: "string_length (of_nat (2 + 2 * length cs)) len = of_nat (2 * length cs)"
  proof -
    have "int (2 * length cs) \<le> int (unat len)" using assms(3) by (simp only: of_nat_le_iff)
    then have "2 * int (length cs) \<le> uint len" by simp
    then show ?thesis unfolding string_length_def u by (simp add: Let_def)
  qed
  have l: "unat (string_length (of_nat (2 + 2 * length cs)) len) = 2 * length cs"
    unfolding sl using assms(2) by (subst unat_of_nat) simp
  have "\<exists>buf'. string_loop ?buf (2 * length cs) (2 * 0) 0 = Some buf' \<and>
     take (length cs) buf' = cs \<and> buf' ! length cs = 0 \<and> length buf' = length ?buf"
    by (rule string_loop_copies)
      (use assms in \<open>auto simp: encode_string_def nth_append utf16_nth\<close>)
  with l show ?thesis
    by (auto simp: USBH_ParseStringDesc_def encode_string_def byte_simps)
qed

lemma ParseStringDesc_roundtrip_witness:
  "\<exists>buf'. USBH_ParseStringDesc (encode_string [0x48, 0x69] [0, 0] @ [1, 2]) 255 = Some buf' \<and>
     take (length [0x48, 0x69 :: u8]) buf' = [0x48, 0x69] \<and> buf' ! length [0x48, 0x69 :: u8] = 0"
  by (rule ParseStringDesc_roundtrip) simp_all

end
