(* ===== verification/Hcd.thy ===== *)
theory Hcd
  imports UsbState
begin

text \<open>
  The channel layer: \<^verbatim>\<open>HAL_HCD_HC_Init\<close>, \<^verbatim>\<open>HAL_HCD_HC_SubmitRequest\<close> and their kin
  (\<^verbatim>\<open>Driver/Src/stm32f1xx_hal_hcd.c\<close>), the low-level wrappers of the host library
  (\<^verbatim>\<open>Core/Src/usbh_conf.c\<close>) and the transfer requests (\<^verbatim>\<open>Core/Src/usbh_ioreq.c\<close>).

  The channel array has 16 entries; a channel number outside it is undefined behaviour and a
  wrapper called through a null \<^verbatim>\<open>pData\<close> dereferences it, so both give \<open>None\<close>. The HAL lock is
  free whenever these functions run to completion one after the other, as here. Register writes
  (\<^verbatim>\<open>USB_HC_Init\<close>, \<^verbatim>\<open>USB_HC_StartXfer\<close>, \<^verbatim>\<open>USB_HC_Halt\<close> and so on) are entries of the trace.
\<close>

subsection \<open>Endpoint types, tokens, packet identifiers\<close>

abbreviation EP_TYPE_CTRL :: u8 where "EP_TYPE_CTRL \<equiv> 0"
abbreviation EP_TYPE_ISOC :: u8 where "EP_TYPE_ISOC \<equiv> 1"
abbreviation EP_TYPE_BULK :: u8 where "EP_TYPE_BULK \<equiv> 2"
abbreviation EP_TYPE_INTR :: u8 where "EP_TYPE_INTR \<equiv> 3"
abbreviation HC_PID_DATA0 :: u8 where "HC_PID_DATA0 \<equiv> 0"
abbreviation HC_PID_DATA1 :: u8 where "HC_PID_DATA1 \<equiv> 2"
abbreviation HC_PID_SETUP :: u8 where "HC_PID_SETUP \<equiv> 3"
abbreviation USBH_PID_SETUP :: u8 where "USBH_PID_SETUP \<equiv> 0"
abbreviation USBH_PID_DATA :: u8 where "USBH_PID_DATA \<equiv> 1"
abbreviation USBH_EP_CONTROL :: u8 where "USBH_EP_CONTROL \<equiv> 0"
abbreviation USBH_EP_ISO :: u8 where "USBH_EP_ISO \<equiv> 1"
abbreviation USBH_EP_BULK :: u8 where "USBH_EP_BULK \<equiv> 2"
abbreviation USBH_EP_INTERRUPT :: u8 where "USBH_EP_INTERRUPT \<equiv> 3"
abbreviation USBH_SETUP_PKT_SIZE :: u16 where "USBH_SETUP_PKT_SIZE \<equiv> 8"

subsection \<open>The HAL\<close>

definition upd_hc :: "u8 \<Rightarrow> (USB_OTG_HCTypeDef \<Rightarrow> USB_OTG_HCTypeDef) \<Rightarrow> bus \<Rightarrow> bus option" where
  "upd_hc ch f b = do {
     c \<leftarrow> rd (hc b) (unat ch);
     Some (b\<lparr>hc := (hc b)[unat ch := f c]\<rparr>)
   }"

definition HAL_HCD_HC_Init ::
  "bus \<Rightarrow> u8 \<Rightarrow> u8 \<Rightarrow> u8 \<Rightarrow> u8 \<Rightarrow> u8 \<Rightarrow> u16 \<Rightarrow> bus option" where
  "HAL_HCD_HC_Init b ch epnum dev_address' speed' ep_type' mps = do {
     b \<leftarrow> upd_hc ch (\<lambda>c. c\<lparr>do_ping := 0, dev_addr := dev_address', max_packet := mps, ch_num := ch,
            ep_type := ep_type', ep_num := epnum AND 0x7F,
            ep_is_in := (if epnum AND 0x80 = 0x80 then 1 else 0), hc_speed := speed'\<rparr>) b;
     Some (hw (HW_HC_Init ch epnum dev_address' speed' ep_type' mps) b)
   }"

definition HAL_HCD_HC_Halt :: "bus \<Rightarrow> u8 \<Rightarrow> bus" where
  "HAL_HCD_HC_Halt b ch = hw (HW_HC_Halt ch) b"

text \<open>The data toggle rule of \<^verbatim>\<open>HAL_HCD_HC_SubmitRequest\<close>, one case per endpoint type.\<close>

definition pid_of_toggle :: "u8 \<Rightarrow> u8" where
  "pid_of_toggle t = (if t = 0 then HC_PID_DATA0 else HC_PID_DATA1)"

definition submit_toggle ::
  "u8 \<Rightarrow> u8 \<Rightarrow> u8 \<Rightarrow> u16 \<Rightarrow> USB_OTG_HCTypeDef \<Rightarrow> USB_OTG_HCTypeDef" where
  "submit_toggle direction ep_type' token len c =
     (if ep_type' = EP_TYPE_CTRL then
        (if token = 1 \<and> direction = 0 then
           (let c = (if len = 0 then c\<lparr>toggle_out := 1\<rparr> else c)
            in c\<lparr>data_pid := pid_of_toggle (toggle_out c)\<rparr>)
         else c)
      else if ep_type' = EP_TYPE_BULK \<or> ep_type' = EP_TYPE_INTR then
        (if direction = 0 then c\<lparr>data_pid := pid_of_toggle (toggle_out c)\<rparr>
         else c\<lparr>data_pid := pid_of_toggle (toggle_in c)\<rparr>)
      else if ep_type' = EP_TYPE_ISOC then c\<lparr>data_pid := HC_PID_DATA0\<rparr>
      else c)"

definition submit_hc ::
  "u8 \<Rightarrow> u8 \<Rightarrow> u8 \<Rightarrow> u8 \<Rightarrow> buf_ptr \<Rightarrow> u16 \<Rightarrow> u8 \<Rightarrow> USB_OTG_HCTypeDef \<Rightarrow> USB_OTG_HCTypeDef" where
  "submit_hc ch direction ep_type' token pbuff len ping c =
     (let c = c\<lparr>ep_is_in := direction, ep_type := ep_type'\<rparr>;
          c = (if token = 0 then c\<lparr>data_pid := HC_PID_SETUP, do_ping := ping\<rparr>
               else c\<lparr>data_pid := HC_PID_DATA1\<rparr>);
          c = submit_toggle direction ep_type' token len c
      in c\<lparr>xfer_buff := pbuff, xfer_len := ucast len, urb_state := USBH_URB_IDLE, xfer_count := 0,
           ch_num := ch, hc_state := HC_IDLE\<rparr>)"

definition HAL_HCD_HC_SubmitRequest ::
  "bus \<Rightarrow> u8 \<Rightarrow> u8 \<Rightarrow> u8 \<Rightarrow> u8 \<Rightarrow> buf_ptr \<Rightarrow> u16 \<Rightarrow> u8 \<Rightarrow> bus option" where
  "HAL_HCD_HC_SubmitRequest b ch direction ep_type' token pbuff len ping = do {
     b \<leftarrow> upd_hc ch (submit_hc ch direction ep_type' token pbuff len ping) b;
     c \<leftarrow> rd (hc b) (unat ch);
     Some (hw (HW_HC_StartXfer c) b)
   }"

definition HAL_HCD_Start :: "bus \<Rightarrow> bus" where
  "HAL_HCD_Start b = hw HW_DriveVbus (hw HW_Enable b)"

definition HAL_HCD_Stop :: "bus \<Rightarrow> bus" where
  "HAL_HCD_Stop b = hw HW_StopHost b"

definition HAL_HCD_ResetPort :: "bus \<Rightarrow> bus" where
  "HAL_HCD_ResetPort b = hw HW_ResetPort b"

definition HAL_HCD_HC_GetURBState :: "bus \<Rightarrow> u8 \<Rightarrow> USBH_URBStateTypeDef option" where
  "HAL_HCD_HC_GetURBState b ch = map_option urb_state (rd (hc b) (unat ch))"

definition HAL_HCD_HC_GetXferCount :: "bus \<Rightarrow> u8 \<Rightarrow> u32 option" where
  "HAL_HCD_HC_GetXferCount b ch = map_option xfer_count (rd (hc b) (unat ch))"

subsection \<open>Low-level interface of the host library\<close>

definition USBH_LL_SetTimer :: "host \<Rightarrow> u32 \<Rightarrow> host" where
  "USBH_LL_SetTimer h t = h\<lparr>Timer := t\<rparr>"

definition USBH_LL_Init :: "host \<Rightarrow> bus \<Rightarrow> USBH_StatusTypeDef \<times> host \<times> bus" where
  "USBH_LL_Init h b =
     (let h = h\<lparr>pData := True\<rparr>; b = hw HW_HCD_Init b
      in (USBH_OK, USBH_LL_SetTimer h (cur_frame b), b))"

definition USBH_LL_DeInit :: "host \<Rightarrow> bus \<Rightarrow> (USBH_StatusTypeDef \<times> bus) option" where
  "USBH_LL_DeInit h b = (if pData h then Some (USBH_OK, hw HW_HCD_DeInit b) else None)"

definition USBH_LL_Start :: "host \<Rightarrow> bus \<Rightarrow> (USBH_StatusTypeDef \<times> bus) option" where
  "USBH_LL_Start h b = (if pData h then Some (USBH_OK, HAL_HCD_Start b) else None)"

definition USBH_LL_Stop :: "host \<Rightarrow> bus \<Rightarrow> (USBH_StatusTypeDef \<times> bus) option" where
  "USBH_LL_Stop h b = (if pData h then Some (USBH_OK, HAL_HCD_Stop b) else None)"

definition USBH_LL_GetSpeed :: "host \<Rightarrow> bus \<Rightarrow> u8 option" where
  "USBH_LL_GetSpeed h b =
     (if pData h then
        Some (if port_speed b = 0 then USBH_SPEED_HIGH
              else if port_speed b = 1 then USBH_SPEED_FULL
              else if port_speed b = 2 then USBH_SPEED_LOW
              else USBH_SPEED_FULL)
      else None)"

definition USBH_LL_ResetPort :: "host \<Rightarrow> bus \<Rightarrow> (USBH_StatusTypeDef \<times> bus) option" where
  "USBH_LL_ResetPort h b = (if pData h then Some (USBH_OK, HAL_HCD_ResetPort b) else None)"

definition USBH_LL_GetLastXferSize :: "host \<Rightarrow> bus \<Rightarrow> u8 \<Rightarrow> u32 option" where
  "USBH_LL_GetLastXferSize h b pipe = (if pData h then HAL_HCD_HC_GetXferCount b pipe else None)"

definition USBH_LL_OpenPipe ::
  "host \<Rightarrow> bus \<Rightarrow> u8 \<Rightarrow> u8 \<Rightarrow> u8 \<Rightarrow> u8 \<Rightarrow> u8 \<Rightarrow> u16 \<Rightarrow> (USBH_StatusTypeDef \<times> bus) option" where
  "USBH_LL_OpenPipe h b pipe epnum dev_address' speed' ep_type' mps =
     (if pData h then do {
        b \<leftarrow> HAL_HCD_HC_Init b pipe epnum dev_address' speed' ep_type' mps;
        Some (USBH_OK, b)
      } else None)"

definition USBH_LL_ClosePipe :: "host \<Rightarrow> bus \<Rightarrow> u8 \<Rightarrow> (USBH_StatusTypeDef \<times> bus) option" where
  "USBH_LL_ClosePipe h b pipe = (if pData h then Some (USBH_OK, HAL_HCD_HC_Halt b pipe) else None)"

definition USBH_LL_SubmitURB ::
  "host \<Rightarrow> bus \<Rightarrow> u8 \<Rightarrow> u8 \<Rightarrow> u8 \<Rightarrow> u8 \<Rightarrow> buf_ptr \<Rightarrow> u16 \<Rightarrow> u8 \<Rightarrow> (USBH_StatusTypeDef \<times> bus) option"
  where
  "USBH_LL_SubmitURB h b pipe direction ep_type' token pbuff len ping =
     (if pData h then do {
        b \<leftarrow> HAL_HCD_HC_SubmitRequest b pipe direction ep_type' token pbuff len ping;
        Some (USBH_OK, b)
      } else None)"

definition USBH_LL_GetURBState :: "host \<Rightarrow> bus \<Rightarrow> u8 \<Rightarrow> USBH_URBStateTypeDef option" where
  "USBH_LL_GetURBState h b pipe = (if pData h then HAL_HCD_HC_GetURBState b pipe else None)"

definition USBH_Delay :: "u32 \<Rightarrow> bus \<Rightarrow> bus" where
  "USBH_Delay d b = hw (HW_Delay d) b"

definition USBH_LL_DriverVBUS :: "bus \<Rightarrow> u8 \<Rightarrow> USBH_StatusTypeDef \<times> bus" where
  "USBH_LL_DriverVBUS b s = (USBH_OK, hw (HW_Delay 200) (hw (HW_VbusPin (s \<noteq> 0)) b))"

text \<open>The toggle accessors use the global \<^verbatim>\<open>hhcd\<close>, not the handle.\<close>

definition USBH_LL_SetToggle :: "bus \<Rightarrow> u8 \<Rightarrow> u8 \<Rightarrow> (USBH_StatusTypeDef \<times> bus) option" where
  "USBH_LL_SetToggle b pipe toggle = do {
     b \<leftarrow> upd_hc pipe (\<lambda>c. if ep_is_in c \<noteq> 0 then c\<lparr>toggle_in := toggle\<rparr>
                          else c\<lparr>toggle_out := toggle\<rparr>) b;
     Some (USBH_OK, b)
   }"

definition USBH_LL_GetToggle :: "bus \<Rightarrow> u8 \<Rightarrow> u8 option" where
  "USBH_LL_GetToggle b pipe =
     map_option (\<lambda>c. if ep_is_in c \<noteq> 0 then toggle_in c else toggle_out c) (rd (hc b) (unat pipe))"

subsection \<open>Frame facts\<close>

lemma upd_hc_eq_Some_iff:
  "upd_hc ch f b = Some b' \<longleftrightarrow>
     unat ch < length (hc b) \<and> b' = b\<lparr>hc := (hc b)[unat ch := f (hc b ! unat ch)]\<rparr>"
  by (auto simp: upd_hc_def rd_def split: if_splits)

lemma upd_hc_Some [mem_simps]:
  "unat ch < length (hc b) \<Longrightarrow>
     upd_hc ch f b = Some (b\<lparr>hc := (hc b)[unat ch := f (hc b ! unat ch)]\<rparr>)"
  by (simp add: upd_hc_def mem_simps)

lemma SubmitURB_eq_Some_iff:
  "USBH_LL_SubmitURB h b pipe d t k p len ping = Some (s, b') \<longleftrightarrow>
     pData h \<and> unat pipe < length (hc b) \<and> s = USBH_OK \<and>
     b' = hw (HW_HC_StartXfer (submit_hc pipe d t k p len ping (hc b ! unat pipe)))
            (b\<lparr>hc := (hc b)[unat pipe := submit_hc pipe d t k p len ping (hc b ! unat pipe)]\<rparr>)"
  by (auto simp: USBH_LL_SubmitURB_def HAL_HCD_HC_SubmitRequest_def upd_hc_def rd_def
      split: if_splits)

lemma SubmitURB_Some [mem_simps]:
  "pData h \<Longrightarrow> unat pipe < length (hc b) \<Longrightarrow>
     USBH_LL_SubmitURB h b pipe d t k p len ping =
       Some (USBH_OK, hw (HW_HC_StartXfer (submit_hc pipe d t k p len ping (hc b ! unat pipe)))
         (b\<lparr>hc := (hc b)[unat pipe := submit_hc pipe d t k p len ping (hc b ! unat pipe)]\<rparr>))"
  by (simp add: SubmitURB_eq_Some_iff)

lemma OpenPipe_eq_Some_iff:
  "USBH_LL_OpenPipe h b pipe ep a sp t mps = Some (s, b') \<longleftrightarrow>
     s = USBH_OK \<and> pData h \<and> HAL_HCD_HC_Init b pipe ep a sp t mps = Some b'"
  by (auto simp: USBH_LL_OpenPipe_def bind_eq_Some_conv split: if_splits)

lemma HC_Init_frame:
  assumes "HAL_HCD_HC_Init b ch ep a sp t mps = Some b'"
  shows "Pipes b' = Pipes b" "addresses b' = addresses b" "addr_hdr b' = addr_hdr b"
    "os_event b' = os_event b" "length (hc b') = length (hc b)" "port_speed b' = port_speed b"
    "cur_frame b' = cur_frame b" "unat ch < length (hc b)"
  using assms by (auto simp: HAL_HCD_HC_Init_def upd_hc_eq_Some_iff bind_eq_Some_conv)

lemma HC_Init_Some:
  "unat ch < length (hc b) \<Longrightarrow> \<exists>b'. HAL_HCD_HC_Init b ch ep a sp t mps = Some b'"
  by (simp add: HAL_HCD_HC_Init_def mem_simps)

lemma GetURBState_Some [mem_simps]:
  "pData h \<Longrightarrow> unat pipe < length (hc b) \<Longrightarrow>
     USBH_LL_GetURBState h b pipe = Some (urb_state (hc b ! unat pipe))"
  by (simp add: USBH_LL_GetURBState_def HAL_HCD_HC_GetURBState_def mem_simps)

lemma GetURBState_eq_Some_iff:
  "USBH_LL_GetURBState h b pipe = Some u \<longleftrightarrow>
     pData h \<and> unat pipe < length (hc b) \<and> u = urb_state (hc b ! unat pipe)"
  by (auto simp: USBH_LL_GetURBState_def HAL_HCD_HC_GetURBState_def rd_def)

lemma Stop_eq_Some_iff:
  "USBH_LL_Stop h b = Some (s, b') \<longleftrightarrow> pData h \<and> s = USBH_OK \<and> b' = hw HW_StopHost b"
  by (auto simp: USBH_LL_Stop_def HAL_HCD_Stop_def)

lemma submit_hc_urb [simp]: "urb_state (submit_hc ch d t k p len ping c) = USBH_URB_IDLE"
  by (simp add: submit_hc_def Let_def)

lemma submit_hc_fields [simp]:
  "xfer_buff (submit_hc ch d t k p len ping c) = p"
  "xfer_len (submit_hc ch d t k p len ping c) = ucast len"
  "xfer_count (submit_hc ch d t k p len ping c) = 0"
  "ep_is_in (submit_hc ch d t k p len ping c) = d"
  "ep_type (submit_hc ch d t k p len ping c) = t"
  "dev_addr (submit_hc ch d t k p len ping c) = dev_addr c"
  "ep_num (submit_hc ch d t k p len ping c) = ep_num c"
  "max_packet (submit_hc ch d t k p len ping c) = max_packet c"
  by (simp_all add: submit_hc_def submit_toggle_def Let_def)

text \<open>The packet identifier that goes out, by kind of transfer.\<close>

lemma submit_setup_pid: "data_pid (submit_hc ch 0 EP_TYPE_CTRL 0 p len ping c) = HC_PID_SETUP"
  by (simp add: submit_hc_def submit_toggle_def Let_def)

lemma submit_ctl_in_pid: "data_pid (submit_hc ch 1 EP_TYPE_CTRL 1 p len ping c) = HC_PID_DATA1"
  by (simp add: submit_hc_def submit_toggle_def Let_def)

lemma submit_status_out_pid: "data_pid (submit_hc ch 0 EP_TYPE_CTRL 1 p 0 ping c) = HC_PID_DATA1"
  by (simp add: submit_hc_def submit_toggle_def pid_of_toggle_def Let_def)

lemma submit_bulk_pid:
  "data_pid (submit_hc ch d EP_TYPE_BULK 1 p len ping c) =
     pid_of_toggle (if d = 0 then toggle_out c else toggle_in c)"
  by (simp add: submit_hc_def submit_toggle_def Let_def)

end
