(* ===== verification/LlUsb.thy ===== *)
theory LlUsb
  imports Hcd
begin

text \<open>
  The host part of the register layer, \<^verbatim>\<open>Driver/Src/stm32f1xx_ll_usb.c\<close>: how a channel is
  programmed, started, halted, and how its packets reach the FIFO. \<open>otg\<close> holds the registers these
  functions read and write; \<open>chans\<close> are the 16 channel register sets, \<open>rx_fifo\<close> the words the
  receive FIFO will give, \<open>tx_fifo\<close> the words pushed into the channels' transmit FIFOs. A register
  keeps its value between two accesses of one function; what the hardware changes meanwhile is the
  next function's input. Interrupt flags are cleared by writing ones. The host port register
  mixes such flags with plain bits (\<open>write_hprt\<close>).
\<close>

subsection \<open>Registers\<close>

record hc_regs =
  HCCHAR :: u32
  HCINT :: u32
  HCINTMSK :: u32
  HCTSIZ :: u32

record otg =
  GINTMSK :: u32
  HPRT0 :: u32
  HFNUM :: u32
  HNPTXSTS :: u32
  HPTXSTS :: u32
  HAINT :: u32
  HAINTMSK :: u32
  HCFG :: u32
  HFIR :: u32
  chans :: "hc_regs list"
  rx_fifo :: "u32 list"
  tx_fifo :: "(u8 \<times> u32) list"

abbreviation HCINT_XFRC :: u32 where "HCINT_XFRC \<equiv> 0x1"
abbreviation HCINT_CHH :: u32 where "HCINT_CHH \<equiv> 0x2"
abbreviation HCINT_AHBERR :: u32 where "HCINT_AHBERR \<equiv> 0x4"
abbreviation HCINT_STALL :: u32 where "HCINT_STALL \<equiv> 0x8"
abbreviation HCINT_NAK :: u32 where "HCINT_NAK \<equiv> 0x10"
abbreviation HCINT_ACK :: u32 where "HCINT_ACK \<equiv> 0x20"
abbreviation HCINT_NYET :: u32 where "HCINT_NYET \<equiv> 0x40"
abbreviation HCINT_TXERR :: u32 where "HCINT_TXERR \<equiv> 0x80"
abbreviation HCINT_BBERR :: u32 where "HCINT_BBERR \<equiv> 0x100"
abbreviation HCINT_FRMOR :: u32 where "HCINT_FRMOR \<equiv> 0x200"
abbreviation HCINT_DTERR :: u32 where "HCINT_DTERR \<equiv> 0x400"

abbreviation HCCHAR_MPSIZ :: u32 where "HCCHAR_MPSIZ \<equiv> 0x7FF"
abbreviation HCCHAR_EPNUM :: u32 where "HCCHAR_EPNUM \<equiv> 0x7800"
abbreviation HCCHAR_EPDIR :: u32 where "HCCHAR_EPDIR \<equiv> 0x8000"
abbreviation HCCHAR_LSDEV :: u32 where "HCCHAR_LSDEV \<equiv> 0x20000"
abbreviation HCCHAR_EPTYP :: u32 where "HCCHAR_EPTYP \<equiv> 0xC0000"
abbreviation HCCHAR_DAD :: u32 where "HCCHAR_DAD \<equiv> 0x1FC00000"
abbreviation HCCHAR_ODDFRM :: u32 where "HCCHAR_ODDFRM \<equiv> 0x20000000"
abbreviation HCCHAR_CHDIS :: u32 where "HCCHAR_CHDIS \<equiv> 0x40000000"
abbreviation HCCHAR_CHENA :: u32 where "HCCHAR_CHENA \<equiv> 0x80000000"
abbreviation HCTSIZ_XFRSIZ :: u32 where "HCTSIZ_XFRSIZ \<equiv> 0x7FFFF"
abbreviation HCTSIZ_PKTCNT :: u32 where "HCTSIZ_PKTCNT \<equiv> 0x1FF80000"
abbreviation HCTSIZ_DPID :: u32 where "HCTSIZ_DPID \<equiv> 0x60000000"
abbreviation HCTSIZ_DOPING :: u32 where "HCTSIZ_DOPING \<equiv> 0x80000000"
abbreviation HPRT_PCSTS :: u32 where "HPRT_PCSTS \<equiv> 0x1"
abbreviation HPRT_PCDET :: u32 where "HPRT_PCDET \<equiv> 0x2"
abbreviation HPRT_PENA :: u32 where "HPRT_PENA \<equiv> 0x4"
abbreviation HPRT_PENCHNG :: u32 where "HPRT_PENCHNG \<equiv> 0x8"
abbreviation HPRT_POCCHNG :: u32 where "HPRT_POCCHNG \<equiv> 0x20"
abbreviation HPRT_PRST :: u32 where "HPRT_PRST \<equiv> 0x100"
abbreviation HPRT_PPWR :: u32 where "HPRT_PPWR \<equiv> 0x1000"
abbreviation HPRT_PSPD :: u32 where "HPRT_PSPD \<equiv> 0x60000"
abbreviation HPRT0_PRTSPD_LOW_SPEED :: u8 where "HPRT0_PRTSPD_LOW_SPEED \<equiv> 2"
abbreviation HCFG_48_MHZ :: u8 where "HCFG_48_MHZ \<equiv> 1"
abbreviation HCFG_6_MHZ :: u8 where "HCFG_6_MHZ \<equiv> 2"
abbreviation GINTMSK_NPTXFEM :: u32 where "GINTMSK_NPTXFEM \<equiv> 0x20"
abbreviation GINTMSK_HCIM :: u32 where "GINTMSK_HCIM \<equiv> 0x2000000"
abbreviation GINTMSK_PTXFEM :: u32 where "GINTMSK_PTXFEM \<equiv> 0x4000000"

text \<open>The four flags a write of one clears; one of them, PENA, disables the port.\<close>

definition HPRT_W1C :: u32 where
  "HPRT_W1C = HPRT_PENA OR HPRT_PCDET OR HPRT_PENCHNG OR HPRT_POCCHNG"

definition write_hprt :: "u32 \<Rightarrow> u32 \<Rightarrow> u32" where
  "write_hprt v r = (v AND NOT HPRT_W1C) OR (r AND HPRT_W1C AND NOT v)"

definition upd_chan :: "nat \<Rightarrow> (hc_regs \<Rightarrow> hc_regs) \<Rightarrow> otg \<Rightarrow> otg option" where
  "upd_chan i f u = do {
     r \<leftarrow> rd (chans u) i;
     Some (u\<lparr>chans := (chans u)[i := f r]\<rparr>)
   }"

subsection \<open>Programming a channel\<close>

text \<open>\<open>None\<close> is the default branch, which keeps the mask and reports \<^verbatim>\<open>HAL_ERROR\<close>.\<close>

definition hc_intmsk :: "u8 \<Rightarrow> u8 \<Rightarrow> u32 option" where
  "hc_intmsk epnum ty =
     (let isin = (epnum AND 0x80 = 0x80) in
      if ty = EP_TYPE_CTRL \<or> ty = EP_TYPE_BULK then
        Some ((HCINT_XFRC OR HCINT_STALL OR HCINT_TXERR OR HCINT_DTERR OR HCINT_AHBERR OR HCINT_NAK)
              OR (if isin then HCINT_BBERR else 0))
      else if ty = EP_TYPE_INTR then
        Some ((HCINT_XFRC OR HCINT_STALL OR HCINT_TXERR OR HCINT_DTERR OR HCINT_NAK OR HCINT_AHBERR
               OR HCINT_FRMOR) OR (if isin then HCINT_BBERR else 0))
      else if ty = EP_TYPE_ISOC then
        Some ((HCINT_XFRC OR HCINT_ACK OR HCINT_AHBERR OR HCINT_FRMOR)
              OR (if isin then HCINT_TXERR OR HCINT_BBERR else 0))
      else None)"

definition hc_char :: "u8 \<Rightarrow> u8 \<Rightarrow> u8 \<Rightarrow> u8 \<Rightarrow> u16 \<Rightarrow> u32" where
  "hc_char epnum addr sp ty mps =
     ((push_bit 22 (ucast addr) AND HCCHAR_DAD) OR
      (push_bit 11 (ucast epnum AND 0x7F) AND HCCHAR_EPNUM) OR
      (push_bit 18 (ucast ty) AND HCCHAR_EPTYP) OR
      (ucast mps AND HCCHAR_MPSIZ) OR
      (if epnum AND 0x80 = 0x80 then HCCHAR_EPDIR else 0) OR
      (if sp = HPRT0_PRTSPD_LOW_SPEED then HCCHAR_LSDEV else 0)) OR
     (if ty = EP_TYPE_INTR then HCCHAR_ODDFRM else 0)"

text \<open>The flag is the status: \<open>False\<close> for an unknown endpoint type.\<close>

definition USB_HC_Init ::
  "u8 \<Rightarrow> u8 \<Rightarrow> u8 \<Rightarrow> u8 \<Rightarrow> u8 \<Rightarrow> u16 \<Rightarrow> otg \<Rightarrow> (bool \<times> otg) option" where
  "USB_HC_Init ch epnum addr sp ty mps u = do {
     u \<leftarrow> upd_chan (unat ch) (\<lambda>r. r\<lparr>HCINT := HCINT r AND NOT 0xFFFFFFFF,
            HCINTMSK := (case hc_intmsk epnum ty of Some m \<Rightarrow> m | None \<Rightarrow> HCINTMSK r)\<rparr>) u;
     let u = u\<lparr>HAINTMSK := HAINTMSK u OR push_bit (unat (ch AND 0xF)) 1,
               GINTMSK := GINTMSK u OR GINTMSK_HCIM\<rparr>;
     u \<leftarrow> upd_chan (unat ch) (\<lambda>r. r\<lparr>HCCHAR := hc_char epnum addr sp ty mps\<rparr>) u;
     Some (hc_intmsk epnum ty \<noteq> None, u)
   }"

subsection \<open>FIFO access\<close>

text \<open>\<open>src\<close> is what the source buffer holds, word by word; too short a buffer is a fault.\<close>

definition packet_words :: "u16 \<Rightarrow> nat" where
  "packet_words len = unat ((ucast len + 3 :: u32) div 4)"

definition USB_WritePacket :: "u32 list \<Rightarrow> u8 \<Rightarrow> u16 \<Rightarrow> otg \<Rightarrow> otg option" where
  "USB_WritePacket src ch len u =
     (if packet_words len \<le> length src
      then Some (u\<lparr>tx_fifo := tx_fifo u @ map (Pair ch) (take (packet_words len) src)\<rparr>)
      else None)"

text \<open>The words of a received packet are stored as little-endian bytes.\<close>

definition USB_ReadPacket :: "u16 \<Rightarrow> otg \<Rightarrow> (u8 list \<times> otg) option" where
  "USB_ReadPacket len u =
     (if packet_words len \<le> length (rx_fifo u)
      then Some (concat (map le32_bytes (take (packet_words len) (rx_fifo u))),
                 u\<lparr>rx_fifo := drop (packet_words len) (rx_fifo u)\<rparr>)
      else None)"

subsection \<open>Starting a transfer\<close>

text \<open>A packet size of zero is a division by zero.\<close>

definition num_packets :: "USB_OTG_HCTypeDef \<Rightarrow> u16 option" where
  "num_packets c =
     (if xfer_len c > 0 then
        (if max_packet c = 0 then None
         else Some (ucast ((xfer_len c + ucast (max_packet c) - 1) div ucast (max_packet c))))
      else Some 1)"

definition xfer_size :: "USB_OTG_HCTypeDef \<Rightarrow> (u16 \<times> USB_OTG_HCTypeDef) option" where
  "xfer_size c = do {
     n \<leftarrow> num_packets c;
     let (n, c) = (if n > 256 then (256, c\<lparr>xfer_len := 256 * ucast (max_packet c)\<rparr>) else (n, c));
     Some (n, if ep_is_in c \<noteq> 0 then c\<lparr>xfer_len := ucast n * ucast (max_packet c)\<rparr> else c)
   }"

definition hc_tsiz :: "u16 \<Rightarrow> USB_OTG_HCTypeDef \<Rightarrow> u32" where
  "hc_tsiz n c = (xfer_len c AND HCTSIZ_XFRSIZ) OR (push_bit 19 (ucast n) AND HCTSIZ_PKTCNT) OR
     (push_bit 29 (ucast (data_pid c)) AND HCTSIZ_DPID)"

definition hc_enable :: "u32 \<Rightarrow> u32" where
  "hc_enable r = (r AND NOT HCCHAR_CHDIS) OR HCCHAR_CHENA"

definition start_char :: "u32 \<Rightarrow> USB_OTG_HCTypeDef \<Rightarrow> u32 \<Rightarrow> u32" where
  "start_char frame c r =
     (let r = (r AND NOT HCCHAR_ODDFRM) OR push_bit 29 (if frame AND 1 \<noteq> 0 then 0 else 1);
          r = r AND NOT HCCHAR_CHDIS;
          r = (if ep_is_in c \<noteq> 0 then r OR HCCHAR_EPDIR else r AND NOT HCCHAR_EPDIR)
      in r OR HCCHAR_CHENA)"

text \<open>Too little room in the FIFO turns its interrupt on; the packet is written all the same.\<close>

definition fifo_room :: "USB_OTG_HCTypeDef \<Rightarrow> otg \<Rightarrow> otg" where
  "fifo_room c u =
     (let len_words = (ucast ((xfer_len c + 3) div 4) :: u16) in
      if ep_type c = EP_TYPE_CTRL \<or> ep_type c = EP_TYPE_BULK then
        (if ucast len_words > HNPTXSTS u AND 0xFFFF then u\<lparr>GINTMSK := GINTMSK u OR GINTMSK_NPTXFEM\<rparr> else u)
      else if ep_type c = EP_TYPE_INTR \<or> ep_type c = EP_TYPE_ISOC then
        (if ucast len_words > HPTXSTS u AND 0xFFFF then u\<lparr>GINTMSK := GINTMSK u OR GINTMSK_PTXFEM\<rparr> else u)
      else u)"

definition USB_HC_StartXfer ::
  "u32 list \<Rightarrow> USB_OTG_HCTypeDef \<Rightarrow> otg \<Rightarrow> (USB_OTG_HCTypeDef \<times> otg) option" where
  "USB_HC_StartXfer src c u = do {
     (n, c) \<leftarrow> xfer_size c;
     u \<leftarrow> upd_chan (unat (ch_num c)) (\<lambda>r. r\<lparr>HCTSIZ := hc_tsiz n c,
            HCCHAR := start_char (HFNUM u) c (HCCHAR r)\<rparr>) u;
     (if ep_is_in c = 0 \<and> xfer_len c > 0 then do {
        u \<leftarrow> USB_WritePacket src (ch_num c) (ucast (xfer_len c)) (fifo_room c u);
        Some (c, u)
      } else Some (c, u))
   }"

definition USB_HC_ReadInterrupt :: "otg \<Rightarrow> u32" where
  "USB_HC_ReadInterrupt u = HAINT u AND 0xFFFF"

subsection \<open>Halting a channel\<close>

text \<open>
  With a full request queue the direction bit is cleared and at most 1000 reads wait for the channel
  to stop. The queue is the periodic one unless the endpoint is a control or bulk one.
\<close>

definition halt_char :: "otg \<Rightarrow> u32 \<Rightarrow> u32" where
  "halt_char u r =
     (let ty = drop_bit 18 (r AND HCCHAR_EPTYP);
          status = (if ty = 0 \<or> ty = 2 then HNPTXSTS u else HPTXSTS u);
          r = r OR HCCHAR_CHDIS
      in if status AND push_bit 16 0xFF = 0
         then (r AND NOT HCCHAR_CHENA OR HCCHAR_CHENA) AND NOT HCCHAR_EPDIR
         else r OR HCCHAR_CHENA)"

definition USB_HC_Halt :: "nat \<Rightarrow> otg \<Rightarrow> otg option" where
  "USB_HC_Halt i u = upd_chan i (\<lambda>r. r\<lparr>HCCHAR := halt_char u (HCCHAR r)\<rparr>) u"

definition USB_DoPing :: "nat \<Rightarrow> otg \<Rightarrow> otg option" where
  "USB_DoPing i u = upd_chan i (\<lambda>r. r\<lparr>HCTSIZ := (push_bit 19 1 AND HCTSIZ_PKTCNT) OR HCTSIZ_DOPING,
     HCCHAR := hc_enable (HCCHAR r)\<rparr>) u"

subsection \<open>The port\<close>

definition USB_InitFSLSPClkSel :: "u8 \<Rightarrow> otg \<Rightarrow> otg" where
  "USB_InitFSLSPClkSel freq u =
     u\<lparr>HCFG := (HCFG u AND NOT 0x3) OR (ucast freq AND 0x3),
       HFIR := (if freq = HCFG_48_MHZ then 48000 else if freq = HCFG_6_MHZ then 6000 else HFIR u)\<rparr>"

definition put_hprt :: "u32 \<Rightarrow> otg \<Rightarrow> otg" where
  "put_hprt v u = u\<lparr>HPRT0 := write_hprt v (HPRT0 u)\<rparr>"

text \<open>The register values a port reset goes through, one per write.\<close>

definition USB_ResetPort :: "otg \<Rightarrow> otg \<times> otg" where
  "USB_ResetPort u =
     (let hprt0 = HPRT0 u AND NOT HPRT_W1C;
          u1 = put_hprt (HPRT_PRST OR hprt0) u
      in (u1, put_hprt (NOT HPRT_PRST AND hprt0) u1))"

definition USB_DriveVbus :: "u8 \<Rightarrow> otg \<Rightarrow> otg" where
  "USB_DriveVbus state u =
     (let hprt0 = HPRT0 u AND NOT HPRT_W1C;
          u = (if hprt0 AND HPRT_PPWR = 0 \<and> state = 1 then put_hprt (HPRT_PPWR OR hprt0) u else u)
      in if hprt0 AND HPRT_PPWR = HPRT_PPWR \<and> state = 0 then put_hprt (NOT HPRT_PPWR AND hprt0) u else u)"

definition USB_GetHostSpeed :: "otg \<Rightarrow> u32" where
  "USB_GetHostSpeed u = drop_bit 17 (HPRT0 u AND HPRT_PSPD)"

text \<open>Every channel is disabled and flushed, then halted; pending interrupts are cleared.\<close>

definition stop_char :: "u32 \<Rightarrow> u32" where
  "stop_char r = (let r = ((r OR HCCHAR_CHDIS) AND NOT HCCHAR_CHENA) AND NOT HCCHAR_EPDIR
                  in ((r OR HCCHAR_CHDIS) OR HCCHAR_CHENA) AND NOT HCCHAR_EPDIR)"

definition USB_StopHost :: "otg \<Rightarrow> otg" where
  "USB_StopHost u = u\<lparr>chans := map (\<lambda>r. r\<lparr>HCCHAR := stop_char (HCCHAR r)\<rparr>) (chans u),
     HAINT := HAINT u AND NOT 0xFFFFFFFF, rx_fifo := [], tx_fifo := []\<rparr>"

subsection \<open>Bits of the register fields\<close>

lemma word_bit_bound:
  fixes a :: "'a::len word"
  assumes "unat a < 2 ^ k" "bit a n"
  shows "n < k"
proof (rule ccontr)
  assume "\<not> n < k"
  then have "(2::nat) ^ k \<le> 2 ^ n" by (intro power_increasing) simp_all
  with assms(1) have "unat a div 2 ^ n = 0" by (intro div_less) linarith
  moreover have "bit (unat a) n" using assms(2) by (simp add: bit_unsigned_iff bit_imp_le_length)
  ultimately show False by (simp add: bit_iff_odd)
qed

text \<open>The bits of the register constants.\<close>

lemma bit_pow: "k < 32 \<Longrightarrow> bit (2 ^ k :: u32) n \<longleftrightarrow> n = k"
  by (auto simp: bit_exp_iff)

lemma bit_field: "k + l \<le> 32 \<Longrightarrow> bit (push_bit k (mask l) :: u32) n \<longleftrightarrow> k \<le> n \<and> n < k + l"
  by (auto simp: bit_simps)

lemma bit_consts:
  "bit (0x2 :: u32) n \<longleftrightarrow> n = 1"
  "bit (0x4 :: u32) n \<longleftrightarrow> n = 2"
  "bit (0x8 :: u32) n \<longleftrightarrow> n = 3"
  "bit (0x10 :: u32) n \<longleftrightarrow> n = 4"
  "bit (0x20 :: u32) n \<longleftrightarrow> n = 5"
  "bit (0x40 :: u32) n \<longleftrightarrow> n = 6"
  "bit (0x80 :: u32) n \<longleftrightarrow> n = 7"
  "bit (0x100 :: u32) n \<longleftrightarrow> n = 8"
  "bit (0x200 :: u32) n \<longleftrightarrow> n = 9"
  "bit (0x400 :: u32) n \<longleftrightarrow> n = 10"
  "bit (0x1000 :: u32) n \<longleftrightarrow> n = 12"
  "bit (0x8000 :: u32) n \<longleftrightarrow> n = 15"
  "bit (0x20000 :: u32) n \<longleftrightarrow> n = 17"
  "bit (0x20000000 :: u32) n \<longleftrightarrow> n = 29"
  "bit (0x40000000 :: u32) n \<longleftrightarrow> n = 30"
  "bit (0x80000000 :: u32) n \<longleftrightarrow> n = 31"
  "bit (0x1fc00000 :: u32) n \<longleftrightarrow> 22 \<le> n \<and> n < 29"
  "bit (0x7800 :: u32) n \<longleftrightarrow> 11 \<le> n \<and> n < 15"
  "bit (0xc0000 :: u32) n \<longleftrightarrow> 18 \<le> n \<and> n < 20"
  "bit (0x1ff80000 :: u32) n \<longleftrightarrow> 19 \<le> n \<and> n < 29"
  "bit (0x60000000 :: u32) n \<longleftrightarrow> 29 \<le> n \<and> n < 31"
  "bit (0x60000 :: u32) n \<longleftrightarrow> 17 \<le> n \<and> n < 19"
  "bit (0x7ff :: u32) n \<longleftrightarrow> n < 11"
  "bit (0x7ffff :: u32) n \<longleftrightarrow> n < 19"
  "bit (0x7f :: u32) n \<longleftrightarrow> n < 7"
  "bit (0x3 :: u32) n \<longleftrightarrow> n < 2"
  "bit (0xffff :: u32) n \<longleftrightarrow> n < 16"
  using bit_pow [of 1 n] bit_pow [of 2 n] bit_pow [of 3 n] bit_pow [of 4 n] bit_pow [of 5 n] bit_pow
    [of 6 n] bit_pow [of 7 n] bit_pow [of 8 n] bit_pow [of 9 n] bit_pow [of 10 n] bit_pow [of 12 n]
    bit_pow [of 15 n] bit_pow [of 17 n] bit_pow [of 29 n] bit_pow [of 30 n] bit_pow [of 31 n]
    bit_field [of 22 7 n] bit_field [of 11 4 n] bit_field [of 18 2 n] bit_field [of 19 10 n]
    bit_field [of 29 2 n] bit_field [of 17 2 n] bit_field [of 0 11 n] bit_field [of 0 19 n]
    bit_field [of 0 7 n] bit_field [of 0 2 n] bit_field [of 0 16 n]
  by (simp_all add: mask_eq_exp_minus_1 numeral_2_eq_2)

lemmas reg_bits = bit_simps bit_consts

lemma bit_if_zero: "bit (if c then v else (0 :: u32)) n \<longleftrightarrow> c \<and> bit v n"
  by simp

text \<open>A field of length \<open>l\<close> at position \<open>k\<close>.\<close>

lemma bit_field_at:
  fixes a :: "'a::len word" and M :: u32
  assumes "\<And>n. bit M n \<longleftrightarrow> k \<le> n \<and> n < k + l" "k + l \<le> 32"
  shows "bit (push_bit k (ucast a) AND M) n \<longleftrightarrow> k \<le> n \<and> n < k + l \<and> bit a (n - k)"
  using assms(2) by (auto simp: assms(1) bit_and_iff bit_push_bit_iff bit_word_ucast_iff dest: bit_imp_le_length)

lemma bit_epnum_field:
  "bit (push_bit 11 (ucast (e :: u8) AND 0x7F) AND HCCHAR_EPNUM) n \<longleftrightarrow> 11 \<le> n \<and> n < 15 \<and> bit e (n - 11)"
  unfolding bit_and_iff bit_push_bit_iff bit_word_ucast_iff bit_consts
  by (auto dest: bit_imp_le_length)

lemma bit_mps_field: "bit (ucast (m :: u16) AND HCCHAR_MPSIZ) n \<longleftrightarrow> n < 11 \<and> bit m n"
  unfolding bit_and_iff bit_word_ucast_iff bit_consts by auto

lemma bit_hc_char:
  "bit (hc_char epnum addr sp ty mps) n \<longleftrightarrow>
     (22 \<le> n \<and> n < 29 \<and> bit addr (n - 22)) \<or> (11 \<le> n \<and> n < 15 \<and> bit epnum (n - 11)) \<or>
     (18 \<le> n \<and> n < 20 \<and> bit ty (n - 18)) \<or> (n < 11 \<and> bit mps n) \<or>
     (epnum AND 0x80 = 0x80 \<and> n = 15) \<or> (sp = HPRT0_PRTSPD_LOW_SPEED \<and> n = 17) \<or> (ty = EP_TYPE_INTR \<and> n = 29)"
  unfolding hc_char_def bit_or_iff bit_if_zero bit_epnum_field bit_mps_field bit_consts
    bit_field_at [where k = 22 and l = 7, simplified, OF bit_consts(17)]
    bit_field_at [where k = 18 and l = 2, simplified, OF bit_consts(19)]
  by (simp only: disj_assoc)

lemma char_field:
  fixes v :: "'a::len word"
  assumes "\<And>n. bit M n \<longleftrightarrow> k \<le> n \<and> n < k + l" "k + l \<le> 32" "unat v < 2 ^ l" "\<And>n. n < l \<Longrightarrow> bit r (k + n) = bit v n"
  shows "drop_bit k (r AND M) = (ucast v :: u32)"
proof (rule bit_word_eqI)
  fix n assume "n < LENGTH(32)"
  then show "bit (drop_bit k (r AND M)) n = bit (ucast v :: u32) n"
    using word_bit_bound [OF assms(3), of n] assms(1,2,4)
    by (cases "n < l") (auto simp: bit_drop_bit_eq bit_and_iff bit_word_ucast_iff dest: bit_imp_le_length)
qed

lemma char_fields:
  assumes "addr < 128" "ty < 4" "mps < 2048" "epnum AND 0x7F < 16"
  shows "drop_bit 22 (hc_char epnum addr sp ty mps AND HCCHAR_DAD) = ucast addr"
    "drop_bit 18 (hc_char epnum addr sp ty mps AND HCCHAR_EPTYP) = ucast ty"
    "hc_char epnum addr sp ty mps AND HCCHAR_MPSIZ = ucast mps"
    "hc_char epnum addr sp ty mps AND HCCHAR_EPDIR = (if epnum AND 0x80 = 0x80 then HCCHAR_EPDIR else 0)"
  subgoal by (rule char_field [where l = 7]) (use assms in \<open>auto simp: bit_consts bit_hc_char word_less_nat_alt simp del: bit_numeral_word_iff\<close>)
  subgoal by (rule char_field [where l = 2]) (use assms in \<open>auto simp: bit_consts bit_hc_char word_less_nat_alt simp del: bit_numeral_word_iff\<close>)
  subgoal using char_field [where k = 0 and l = 11 and M = HCCHAR_MPSIZ and r = "hc_char epnum addr sp ty mps" and v = mps] assms
    by (auto simp: bit_consts bit_hc_char word_less_nat_alt simp del: bit_numeral_word_iff)
  subgoal by (rule bit_word_eqI) (auto simp: bit_and_iff bit_consts bit_hc_char simp del: bit_numeral_word_iff)
  done

lemma tsiz_fields:
  assumes "xfer_len c < 0x80000" "n < 1024" "data_pid c < 4"
  shows "drop_bit 19 (hc_tsiz n c AND HCTSIZ_PKTCNT) = ucast n"
    "hc_tsiz n c AND HCTSIZ_XFRSIZ = xfer_len c"
    "drop_bit 29 (hc_tsiz n c AND HCTSIZ_DPID) = ucast (data_pid c)"
proof -
  have b: "\<And>k. bit (xfer_len c) k \<Longrightarrow> k < 19" "\<And>k. bit n k \<Longrightarrow> k < 10" "\<And>k. bit (data_pid c) k \<Longrightarrow> k < 2"
    using word_bit_bound [of "xfer_len c" 19] word_bit_bound [of n 10] word_bit_bound [of "data_pid c" 2] assms
    by (simp_all add: word_less_nat_alt)
  show "drop_bit 19 (hc_tsiz n c AND HCTSIZ_PKTCNT) = ucast n"
    unfolding hc_tsiz_def
    by (rule bit_word_eqI) (simp only: reg_bits comp_def, auto simp: bit_imp_le_length dest: b)
  show "hc_tsiz n c AND HCTSIZ_XFRSIZ = xfer_len c"
    unfolding hc_tsiz_def
    by (rule bit_word_eqI) (simp only: reg_bits comp_def, auto simp: bit_imp_le_length dest: b)
  show "drop_bit 29 (hc_tsiz n c AND HCTSIZ_DPID) = ucast (data_pid c)"
    unfolding hc_tsiz_def
    by (rule bit_word_eqI) (simp only: reg_bits comp_def, auto simp: bit_imp_le_length dest: b)
qed

lemma start_char_bits:
  "start_char f c r AND HCCHAR_CHENA = HCCHAR_CHENA" "start_char f c r AND HCCHAR_CHDIS = 0"
  "start_char f c r AND HCCHAR_EPDIR = (if ep_is_in c \<noteq> 0 then HCCHAR_EPDIR else 0)"
  "start_char f c r AND HCCHAR_DAD = r AND HCCHAR_DAD" "start_char f c r AND HCCHAR_EPTYP = r AND HCCHAR_EPTYP"
  "start_char f c r AND HCCHAR_MPSIZ = r AND HCCHAR_MPSIZ" "start_char f c r AND HCCHAR_EPNUM = r AND HCCHAR_EPNUM"
  unfolding start_char_def Let_def
  by (rule bit_word_eqI; auto simp: reg_bits simp del: bit_numeral_word_iff split: if_splits)+

subsection \<open>What a transfer programs\<close>

text \<open>The number of packets of a transfer.\<close>

definition packets :: "nat \<Rightarrow> nat \<Rightarrow> nat" where
  "packets len mps = max 1 (min 256 ((len + mps - 1) div mps))"

lemma num_packets_unat:
  assumes "max_packet c \<noteq> 0" "unat (xfer_len c) < 0x10000"
  shows "\<exists>n. num_packets c = Some n \<and> unat n = (if xfer_len c = 0 then 1
     else (unat (xfer_len c) + unat (max_packet c) - 1) div unat (max_packet c))"
proof (cases "xfer_len c = 0")
  case False
  let ?l = "unat (xfer_len c)" and ?m = "unat (max_packet c)"
  have m: "0 < ?m" "?m < 65536" using assms(1) unsigned_less [of "max_packet c"] by (simp_all add: unat_gt_0)
  have l: "0 < ?l" using False by (simp add: unat_gt_0)
  have u: "unat (xfer_len c + ucast (max_packet c)) = ?l + ?m"
    using m assms(2) by (simp add: unat_word_ariths(1) unsigned_ucast_eq take_bit_nat_eq_self)
  then have "xfer_len c + ucast (max_packet c) \<noteq> 0" using l by (metis add_is_0 less_numeral_extra(3) unsigned_0)
  then have e: "unat (xfer_len c + ucast (max_packet c) - 1) = ?l + ?m - 1" using u by (simp add: unat_minus_one)
  have "unat ((xfer_len c + ucast (max_packet c) - 1) div ucast (max_packet c)) = (?l + ?m - 1) div ?m"
    using e m by (simp add: unat_div_distrib unsigned_ucast_eq take_bit_nat_eq_self)
  moreover have "(?l + ?m - 1) div ?m < 65536"
  proof (rule less_mult_imp_div_less)
    have "?l \<le> ?l * ?m" "?l * ?m \<le> 65535 * ?m" using m assms(2) by simp_all
    then show "?l + ?m - 1 < 65536 * ?m" using m by linarith
  qed
  ultimately show ?thesis using False assms(1)
    by (simp add: num_packets_def word_gt_0 unsigned_ucast_eq take_bit_nat_eq_self)
qed (simp add: num_packets_def)

lemma unat_u16: "unat (ucast (k :: u16) :: u32) = unat k"
  by transfer simp

lemma xfer_size_unat:
  assumes "max_packet c \<noteq> 0" "max_packet c < 2048" "unat (xfer_len c) < 0x10000"
  shows "\<exists>n c'. xfer_size c = Some (n, c') \<and> c' = c\<lparr>xfer_len := xfer_len c'\<rparr> \<and>
     unat n = packets (unat (xfer_len c)) (unat (max_packet c)) \<and>
     unat (xfer_len c') = (if ep_is_in c \<noteq> 0 then unat n * unat (max_packet c)
       else min (unat (xfer_len c)) (256 * unat (max_packet c)))"
proof -
  let ?l = "unat (xfer_len c)" and ?m = "unat (max_packet c)"
  have m: "0 < ?m" "?m < 2048" using assms(1,2) by (simp_all add: unat_gt_0 word_less_nat_alt)
  from num_packets_unat [OF assms(1,3)] obtain n where n: "num_packets c = Some n"
    "unat n = (if xfer_len c = 0 then 1 else (?l + ?m - 1) div ?m)" by blast
  have big: "n > 256 \<longleftrightarrow> 256 < unat n" by (simp add: word_less_nat_alt)
  have cap: "256 < unat n \<longleftrightarrow> 256 * ?m < ?l"
  proof (cases "xfer_len c = 0")
    case False
    then have "0 < ?l" by (simp add: unat_gt_0)
    have "256 < (?l + ?m - 1) div ?m \<longleftrightarrow> 257 * ?m \<le> ?l + ?m - 1"
      using m(1) by (simp add: Suc_le_eq [symmetric] less_eq_div_iff_mult_less_eq)
    also have "\<dots> \<longleftrightarrow> 256 * ?m < ?l" using m(1) \<open>0 < ?l\<close> by linarith
    finally show ?thesis using n(2) False by simp
  qed (use n m in simp)
  have pos: "1 \<le> unat n"
  proof (cases "xfer_len c = 0")
    case False
    then have "1 * ?m \<le> ?l + ?m - 1" using unat_gt_0 [of "xfer_len c"] by linarith
    then show ?thesis using n(2) False m(1) by (simp add: less_eq_div_iff_mult_less_eq)
  qed (use n in simp)
  have pk: "packets ?l ?m = (if 256 < unat n then 256 else unat n)"
    using n(2) pos m by (cases "xfer_len c = 0") (auto simp: packets_def)
  have mul: "unat (ucast k * ucast (max_packet c) :: u32) = unat k * ?m" if "unat (k :: u16) \<le> 256" for k
  proof -
    have "unat k * ?m \<le> 256 * 2048" using that m by (intro mult_le_mono) simp_all
    then show ?thesis by (simp add: unat_word_ariths(2) unat_u16)
  qed
  show ?thesis
  proof (cases "256 < unat n")
    case True
    then show ?thesis using n(1) big cap pk mul [of 256]
      by (auto simp: xfer_size_def min_def)
  next
    case False
    then show ?thesis using n(1) big cap pk mul [of n]
      by (auto simp: xfer_size_def min_def)
  qed
qed

lemma packet_words_nat: "packet_words len = (unat len + 3) div 4"
proof -
  have "unat len < 65536" using unsigned_less [of len, where ?'a = nat] by simp
  then have "unat (ucast len + 3 :: u32) = unat len + 3" by (simp add: unat_word_ariths(1) unat_u16)
  then show ?thesis by (simp add: packet_words_def unat_div_distrib)
qed

lemma fifo_room_frame [simp]:
  "chans (fifo_room c u) = chans u" "tx_fifo (fifo_room c u) = tx_fifo u" "rx_fifo (fifo_room c u) = rx_fifo u"
  by (simp_all add: fifo_room_def Let_def)

text \<open>
  C11: starting a transfer. For a packet size of 1 to 2047 and a request of fewer than 65536 bytes the
  channel is programmed for \<open>\<lceil>len / size\<rceil>\<close> packets, at least one and at most 256; an IN channel is
  given room for whole packets, an OUT channel the request cut to 256 packets. The channel is enabled in
  the right direction, with address, endpoint and type kept, and an OUT request puts exactly its own
  words into the FIFO.
\<close>

theorem start_xfer_programs:
  assumes "max_packet c \<noteq> 0" "max_packet c < 2048" "unat (xfer_len c) < 0x10000" "data_pid c < 4"
    "unat (ch_num c) < length (chans u)" "unat (xfer_len c) + 3 \<le> 4 * length src"
  shows "\<exists>c' u'. USB_HC_StartXfer src c u = Some (c', u') \<and>
     (let mps = unat (max_packet c); n = packets (unat (xfer_len c)) mps;
          len = (if ep_is_in c \<noteq> 0 then n * mps else min (unat (xfer_len c)) (256 * mps));
          r = chans u ! unat (ch_num c); r' = chans u' ! unat (ch_num c) in
      unat (drop_bit 19 (HCTSIZ r' AND HCTSIZ_PKTCNT)) = n \<and> unat (HCTSIZ r' AND HCTSIZ_XFRSIZ) = len \<and>
      drop_bit 29 (HCTSIZ r' AND HCTSIZ_DPID) = ucast (data_pid c) \<and>
      HCCHAR r' AND HCCHAR_CHENA = HCCHAR_CHENA \<and> HCCHAR r' AND HCCHAR_CHDIS = 0 \<and>
      HCCHAR r' AND HCCHAR_EPDIR = (if ep_is_in c \<noteq> 0 then HCCHAR_EPDIR else 0) \<and>
      HCCHAR r' AND HCCHAR_DAD = HCCHAR r AND HCCHAR_DAD \<and> HCCHAR r' AND HCCHAR_EPNUM = HCCHAR r AND HCCHAR_EPNUM \<and>
      HCCHAR r' AND HCCHAR_EPTYP = HCCHAR r AND HCCHAR_EPTYP \<and>
      tx_fifo u' = tx_fifo u @ map (Pair (ch_num c)) (take (if ep_is_in c \<noteq> 0 then 0 else (len + 3) div 4) src))"
proof -
  let ?m = "unat (max_packet c)" and ?i = "unat (ch_num c)"
  from xfer_size_unat [OF assms(1-3)] obtain n c' where x: "xfer_size c = Some (n, c')" "c' = c\<lparr>xfer_len := xfer_len c'\<rparr>"
    and n: "unat n = packets (unat (xfer_len c)) ?m"
    and l: "unat (xfer_len c') = (if ep_is_in c \<noteq> 0 then unat n * ?m else min (unat (xfer_len c)) (256 * ?m))" by blast
  have f: "ep_is_in c' = ep_is_in c" "ch_num c' = ch_num c" "data_pid c' = data_pid c" by (subst x(2), simp)+
  have m: "?m \<le> 2047" using assms(2) by (simp add: word_less_nat_alt)
  have n256: "unat n \<le> 256" using n by (simp add: packets_def)
  have "unat n * ?m \<le> 256 * 2047" using n256 m by (intro mult_le_mono)
  then have lt: "xfer_len c' < 0x80000" using l assms(3) by (auto simp: word_less_nat_alt)
  have n10: "n < 1024" using n256 by (simp add: word_less_nat_alt)
  note t = tsiz_fields [OF lt n10, unfolded f, OF assms(4)]
  let ?u = "u\<lparr>chans := (chans u)[?i := (chans u ! ?i)\<lparr>HCTSIZ := hc_tsiz n c', HCCHAR := start_char (HFNUM u) c' (HCCHAR (chans u ! ?i))\<rparr>]\<rparr>"
  let ?out = "ep_is_in c = 0 \<and> xfer_len c' > 0"
  let ?u' = "if ?out then (fifo_room c' ?u)\<lparr>tx_fifo := tx_fifo u @ map (Pair (ch_num c)) (take (packet_words (ucast (xfer_len c'))) src)\<rparr> else ?u"
  have w: "packet_words (ucast (xfer_len c')) = (unat (xfer_len c') + 3) div 4 \<and> packet_words (ucast (xfer_len c')) \<le> length src" if ?out
  proof -
    have "unat (xfer_len c') \<le> unat (xfer_len c)" using l that by simp
    moreover from this have "unat (ucast (xfer_len c') :: u16) = unat (xfer_len c')"
      using assms(3) by (simp add: unsigned_ucast_eq take_bit_nat_eq_self)
    ultimately show ?thesis using assms(6) by (simp add: packet_words_nat)
  qed
  have s: "USB_HC_StartXfer src c u = Some (c', ?u')"
    using assms(5) w by (auto simp: USB_HC_StartXfer_def x(1) upd_chan_def mem_simps f USB_WritePacket_def)
  have r: "chans ?u' ! ?i = (chans u ! ?i)\<lparr>HCTSIZ := hc_tsiz n c', HCCHAR := start_char (HFNUM u) c' (HCCHAR (chans u ! ?i))\<rparr>"
    using assms(5) by simp
  have tx: "tx_fifo ?u' = tx_fifo u @ map (Pair (ch_num c)) (take (if ep_is_in c \<noteq> 0 then 0 else (unat (xfer_len c') + 3) div 4) src)"
    using w by (auto simp: word_gt_0)
  show ?thesis
    using s t n l tx n256 unfolding Let_def r
    by (intro exI [of _ c'] exI [of _ ?u']) (simp add: r start_char_bits f unat_u16)
qed

definition sample_otg :: otg where
  "sample_otg = \<lparr>GINTMSK = 0, HPRT0 = 0x1001, HFNUM = 0, HNPTXSTS = 0x80040, HPTXSTS = 0x80100, HAINT = 0,
     HAINTMSK = 0, HCFG = 0, HFIR = 0, chans = replicate 16 \<lparr>HCCHAR = 0, HCINT = 0, HCINTMSK = 0, HCTSIZ = 0\<rparr>,
     rx_fifo = [], tx_fifo = []\<rparr>"

abbreviation sample_out :: USB_OTG_HCTypeDef where
  "sample_out \<equiv> zero_hc\<lparr>ch_num := 2, max_packet := 64, xfer_len := 100, ep_type := EP_TYPE_BULK\<rparr>"

lemma start_xfer_programs_witness:
  "\<exists>c' u'. USB_HC_StartXfer (replicate 26 0x41) sample_out sample_otg = Some (c', u') \<and>
     (let mps = unat (max_packet sample_out); n = packets (unat (xfer_len sample_out)) mps;
          len = (if ep_is_in sample_out \<noteq> 0 then n * mps else min (unat (xfer_len sample_out)) (256 * mps));
          r = chans sample_otg ! unat (ch_num sample_out); r' = chans u' ! unat (ch_num sample_out) in
      unat (drop_bit 19 (HCTSIZ r' AND HCTSIZ_PKTCNT)) = n \<and> unat (HCTSIZ r' AND HCTSIZ_XFRSIZ) = len \<and>
      drop_bit 29 (HCTSIZ r' AND HCTSIZ_DPID) = ucast (data_pid sample_out) \<and>
      HCCHAR r' AND HCCHAR_CHENA = HCCHAR_CHENA \<and> HCCHAR r' AND HCCHAR_CHDIS = 0 \<and>
      HCCHAR r' AND HCCHAR_EPDIR = (if ep_is_in sample_out \<noteq> 0 then HCCHAR_EPDIR else 0) \<and>
      HCCHAR r' AND HCCHAR_DAD = HCCHAR r AND HCCHAR_DAD \<and> HCCHAR r' AND HCCHAR_EPNUM = HCCHAR r AND HCCHAR_EPNUM \<and>
      HCCHAR r' AND HCCHAR_EPTYP = HCCHAR r AND HCCHAR_EPTYP \<and>
      tx_fifo u' = tx_fifo sample_otg @ map (Pair (ch_num sample_out))
        (take (if ep_is_in sample_out \<noteq> 0 then 0 else (len + 3) div 4) (replicate 26 0x41)))"
  by (rule start_xfer_programs) (simp_all add: zero_hc_def sample_otg_def)

text \<open>
  Opening a channel writes the endpoint into its registers so that every field reads back, clears
  what was pending, and leaves the other channels alone; an IN channel other than an isochronous one
  also lets babble errors interrupt.
\<close>

theorem hc_init_programs:
  assumes "unat ch < length (chans u)" "addr < 128" "ty < 4" "mps < 2048" "epnum AND 0x7F < 16"
  shows "\<exists>u'. USB_HC_Init ch epnum addr sp ty mps u = Some (True, u') \<and>
     (let r = chans u' ! unat ch in
      HCINT r = 0 \<and> drop_bit 22 (HCCHAR r AND HCCHAR_DAD) = ucast addr \<and>
      drop_bit 18 (HCCHAR r AND HCCHAR_EPTYP) = ucast ty \<and> HCCHAR r AND HCCHAR_MPSIZ = ucast mps \<and>
      HCCHAR r AND HCCHAR_EPDIR = (if epnum AND 0x80 = 0x80 then HCCHAR_EPDIR else 0) \<and>
      (HCINTMSK r AND HCINT_BBERR \<noteq> 0) = (epnum AND 0x80 = 0x80)) \<and>
     (\<forall>i. i \<noteq> unat ch \<longrightarrow> chans u' ! i = chans u ! i) \<and>
     bit (HAINTMSK u') (unat (ch AND 0xF))"
proof -
  have "unat ty < 4" using assms(3) by (simp add: word_less_nat_alt)
  then have "unat ty = unat (0 :: u8) \<or> unat ty = unat (1 :: u8) \<or> unat ty = unat (2 :: u8) \<or> unat ty = unat (3 :: u8)"
    by simp arith
  then have ty: "ty = 0 \<or> ty = 1 \<or> ty = 2 \<or> ty = 3" by (simp only: word_unat_eq_iff [symmetric])
  obtain m where m: "hc_intmsk epnum ty = Some m" "(m AND HCINT_BBERR \<noteq> 0) = (epnum AND 0x80 = 0x80)"
    using ty by (auto simp: hc_intmsk_def)
  have "unat (ch AND 0xF) < 32"
  proof -
    have "ch AND 0xF \<le> 0xF" by (simp add: word_and_le1)
    then show ?thesis by (simp add: word_le_nat_alt)
  qed
  moreover have "v AND NOT 0xFFFFFFFF = (0 :: u32)" for v
  proof -
    have f: "bit (0xFFFFFFFF :: u32) n \<longleftrightarrow> n < 32" for n
      using bit_field [of 0 32 n] by (simp add: mask_eq_exp_minus_1)
    show ?thesis by (rule bit_word_eqI) (simp only: bit_and_iff bit_not_iff f simp_thms, simp)
  qed
  ultimately show ?thesis
    using assms(1) m char_fields [OF assms(2-5)]
    by (simp add: USB_HC_Init_def upd_chan_def mem_simps Let_def bit_simps)
qed

lemma hc_init_programs_witness:
  "\<exists>u'. USB_HC_Init 2 0x81 5 1 EP_TYPE_BULK 64 sample_otg = Some (True, u') \<and>
     (let r = chans u' ! unat (2 :: u8) in
      HCINT r = 0 \<and> drop_bit 22 (HCCHAR r AND HCCHAR_DAD) = ucast (5 :: u8) \<and>
      drop_bit 18 (HCCHAR r AND HCCHAR_EPTYP) = ucast (EP_TYPE_BULK :: u8) \<and> HCCHAR r AND HCCHAR_MPSIZ = ucast (64 :: u16) \<and>
      HCCHAR r AND HCCHAR_EPDIR = (if (0x81 :: u8) AND 0x80 = 0x80 then HCCHAR_EPDIR else 0) \<and>
      (HCINTMSK r AND HCINT_BBERR \<noteq> 0) = ((0x81 :: u8) AND 0x80 = 0x80)) \<and>
     (\<forall>i. i \<noteq> unat (2 :: u8) \<longrightarrow> chans u' ! i = chans sample_otg ! i) \<and>
     bit (HAINTMSK u') (unat ((2 :: u8) AND 0xF))"
  by (rule hc_init_programs) (simp_all add: sample_otg_def)

subsection \<open>The port register\<close>

lemma bit_w1c: "bit HPRT_W1C n \<longleftrightarrow> n = 1 \<or> n = 2 \<or> n = 3 \<or> n = 5"
  unfolding HPRT_W1C_def bit_or_iff bit_consts by blast

lemma bit_write_hprt:
  "bit (write_hprt v r) n \<longleftrightarrow> (if n = 1 \<or> n = 2 \<or> n = 3 \<or> n = 5 then bit r n \<and> \<not> bit v n else bit v n)"
  unfolding write_hprt_def bit_or_iff bit_and_iff bit_not_iff bit_w1c
  by (auto dest: bit_imp_le_length)

text \<open>A value whose four flag bits are zero changes the plain bits only.\<close>

lemma HPRT0_put [simp]: "HPRT0 (put_hprt v u) = write_hprt v (HPRT0 u)"
  by (simp add: put_hprt_def)

lemmas hprt_bits = bit_write_hprt bit_or_iff bit_and_iff bit_not_iff bit_w1c bit_consts

lemma write_hprt_plain: "write_hprt (v AND NOT HPRT_W1C) r = (v AND NOT HPRT_W1C) OR (r AND HPRT_W1C)"
  by (rule bit_word_eqI, simp only: hprt_bits) auto

text \<open>
  Resetting the port and switching its power write the port register without acknowledging a
  connection, an enable change or an overcurrent, and without disabling the port; after a reset the
  reset bit is off, while it was on in between.
\<close>

theorem port_writes_keep_flags:
  "(case USB_ResetPort u of (u1, u2) \<Rightarrow> HPRT0 u1 AND HPRT_PRST = HPRT_PRST \<and>
       HPRT0 u1 AND HPRT_W1C = HPRT0 u AND HPRT_W1C \<and> HPRT0 u2 = HPRT0 u AND NOT HPRT_PRST) \<and>
   HPRT0 (USB_DriveVbus s u) = (if s = 1 then HPRT0 u OR HPRT_PPWR
       else if s = 0 then HPRT0 u AND NOT HPRT_PPWR else HPRT0 u)"
proof (rule conjI)
  show "case USB_ResetPort u of (u1, u2) \<Rightarrow> HPRT0 u1 AND HPRT_PRST = HPRT_PRST \<and>
       HPRT0 u1 AND HPRT_W1C = HPRT0 u AND HPRT_W1C \<and> HPRT0 u2 = HPRT0 u AND NOT HPRT_PRST"
    unfolding USB_ResetPort_def Let_def prod.case HPRT0_put
    by (intro conjI; rule bit_word_eqI; simp only: hprt_bits; auto)
  have p: "w AND HPRT_PPWR = (if bit w 12 then HPRT_PPWR else 0)" for w :: u32
    by (rule bit_word_eqI) (auto simp: bit_and_iff bit_consts simp del: bit_numeral_word_iff)
  have q: "bit (- 4097 :: u32) n \<longleftrightarrow> n < 32 \<and> n \<noteq> 12" for n
  proof -
    have "bit (NOT HPRT_PPWR) n \<longleftrightarrow> n < 32 \<and> n \<noteq> 12" by (simp only: bit_not_iff bit_consts) simp
    then show ?thesis by simp
  qed
  have s: "bit (HPRT0 (USB_DriveVbus s u)) n = (if n = 12 then (if s = 1 then True else if s = 0 then False else bit (HPRT0 u) 12)
      else bit (HPRT0 u) n)" if "n < 32" for n
    unfolding USB_DriveVbus_def Let_def p if_distrib [of HPRT0] HPRT0_put hprt_bits
    using that by (auto simp: hprt_bits q simp del: bit_numeral_word_iff bit_neg_numeral_word_iff)
  show "HPRT0 (USB_DriveVbus s u) = (if s = 1 then HPRT0 u OR HPRT_PPWR
       else if s = 0 then HPRT0 u AND NOT HPRT_PPWR else HPRT0 u)"
    by (rule bit_word_eqI) (use s in \<open>auto simp: bit_or_iff bit_and_iff bit_not_iff bit_consts q
        simp del: bit_numeral_word_iff bit_neg_numeral_word_iff\<close>)
qed

end
