(* ===== verification/IoReq.thy ===== *)
theory IoReq
  imports Hcd
begin

text \<open>
  The transfer requests of \<^verbatim>\<open>Core/Src/usbh_ioreq.c\<close>: each submits one URB on a channel with the
  endpoint type, direction and token of its kind. High-speed PING is dropped on slower devices.
  The isochronous requests take a 32-bit length that the low-level call narrows to 16 bits.
\<close>

definition USBH_CtlSendSetup ::
  "host \<Rightarrow> bus \<Rightarrow> buf_ptr \<Rightarrow> u8 \<Rightarrow> (USBH_StatusTypeDef \<times> bus) option" where
  "USBH_CtlSendSetup h b buf pipe_num = do {
     (_, b) \<leftarrow> USBH_LL_SubmitURB h b pipe_num 0 USBH_EP_CONTROL USBH_PID_SETUP buf
                 USBH_SETUP_PKT_SIZE 0;
     Some (USBH_OK, b)
   }"

definition USBH_CtlSendData ::
  "host \<Rightarrow> bus \<Rightarrow> buf_ptr \<Rightarrow> u16 \<Rightarrow> u8 \<Rightarrow> u8 \<Rightarrow> (USBH_StatusTypeDef \<times> bus) option" where
  "USBH_CtlSendData h b buf len pipe_num ping = do {
     let ping = (if speed (device h) \<noteq> USBH_SPEED_HIGH then 0 else ping);
     (_, b) \<leftarrow> USBH_LL_SubmitURB h b pipe_num 0 USBH_EP_CONTROL USBH_PID_DATA buf len ping;
     Some (USBH_OK, b)
   }"

definition USBH_CtlReceiveData ::
  "host \<Rightarrow> bus \<Rightarrow> buf_ptr \<Rightarrow> u16 \<Rightarrow> u8 \<Rightarrow> (USBH_StatusTypeDef \<times> bus) option" where
  "USBH_CtlReceiveData h b buf len pipe_num = do {
     (_, b) \<leftarrow> USBH_LL_SubmitURB h b pipe_num 1 USBH_EP_CONTROL USBH_PID_DATA buf len 0;
     Some (USBH_OK, b)
   }"

definition USBH_BulkSendData ::
  "host \<Rightarrow> bus \<Rightarrow> buf_ptr \<Rightarrow> u16 \<Rightarrow> u8 \<Rightarrow> u8 \<Rightarrow> (USBH_StatusTypeDef \<times> bus) option" where
  "USBH_BulkSendData h b buf len pipe_num ping = do {
     let ping = (if speed (device h) \<noteq> USBH_SPEED_HIGH then 0 else ping);
     (_, b) \<leftarrow> USBH_LL_SubmitURB h b pipe_num 0 USBH_EP_BULK USBH_PID_DATA buf len ping;
     Some (USBH_OK, b)
   }"

definition USBH_BulkReceiveData ::
  "host \<Rightarrow> bus \<Rightarrow> buf_ptr \<Rightarrow> u16 \<Rightarrow> u8 \<Rightarrow> (USBH_StatusTypeDef \<times> bus) option" where
  "USBH_BulkReceiveData h b buf len pipe_num = do {
     (_, b) \<leftarrow> USBH_LL_SubmitURB h b pipe_num 1 USBH_EP_BULK USBH_PID_DATA buf len 0;
     Some (USBH_OK, b)
   }"

definition USBH_InterruptReceiveData ::
  "host \<Rightarrow> bus \<Rightarrow> buf_ptr \<Rightarrow> u8 \<Rightarrow> u8 \<Rightarrow> (USBH_StatusTypeDef \<times> bus) option" where
  "USBH_InterruptReceiveData h b buf len pipe_num = do {
     (_, b) \<leftarrow> USBH_LL_SubmitURB h b pipe_num 1 USBH_EP_INTERRUPT USBH_PID_DATA buf (ucast len) 0;
     Some (USBH_OK, b)
   }"

definition USBH_InterruptSendData ::
  "host \<Rightarrow> bus \<Rightarrow> buf_ptr \<Rightarrow> u8 \<Rightarrow> u8 \<Rightarrow> (USBH_StatusTypeDef \<times> bus) option" where
  "USBH_InterruptSendData h b buf len pipe_num = do {
     (_, b) \<leftarrow> USBH_LL_SubmitURB h b pipe_num 0 USBH_EP_INTERRUPT USBH_PID_DATA buf (ucast len) 0;
     Some (USBH_OK, b)
   }"

definition USBH_IsocReceiveData ::
  "host \<Rightarrow> bus \<Rightarrow> buf_ptr \<Rightarrow> u32 \<Rightarrow> u8 \<Rightarrow> (USBH_StatusTypeDef \<times> bus) option" where
  "USBH_IsocReceiveData h b buf len pipe_num = do {
     (_, b) \<leftarrow> USBH_LL_SubmitURB h b pipe_num 1 USBH_EP_ISO USBH_PID_DATA buf (ucast len) 0;
     Some (USBH_OK, b)
   }"

definition USBH_IsocSendData ::
  "host \<Rightarrow> bus \<Rightarrow> buf_ptr \<Rightarrow> u32 \<Rightarrow> u8 \<Rightarrow> (USBH_StatusTypeDef \<times> bus) option" where
  "USBH_IsocSendData h b buf len pipe_num = do {
     (_, b) \<leftarrow> USBH_LL_SubmitURB h b pipe_num 0 USBH_EP_ISO USBH_PID_DATA buf (ucast len) 0;
     Some (USBH_OK, b)
   }"

text \<open>The effect of one request on the shared state.\<close>

definition submitted :: "u8 \<Rightarrow> u8 \<Rightarrow> u8 \<Rightarrow> u8 \<Rightarrow> buf_ptr \<Rightarrow> u16 \<Rightarrow> u8 \<Rightarrow> bus \<Rightarrow> bus" where
  "submitted ch d t k p len ping b =
     (let c = submit_hc ch d t k p len ping (hc b ! unat ch)
      in hw (HW_HC_StartXfer c) (b\<lparr>hc := (hc b)[unat ch := c]\<rparr>))"

lemma submitted_simps [simp]:
  "Pipes (submitted ch d t k p len ping b) = Pipes b"
  "addresses (submitted ch d t k p len ping b) = addresses b"
  "addr_hdr (submitted ch d t k p len ping b) = addr_hdr b"
  "os_event (submitted ch d t k p len ping b) = os_event b"
  "port_speed (submitted ch d t k p len ping b) = port_speed b"
  "msc_ptr (submitted ch d t k p len ping b) = msc_ptr b" "msc_mem (submitted ch d t k p len ping b) = msc_mem b" "msc_heap (submitted ch d t k p len ping b) = msc_heap b"
  "length (hc (submitted ch d t k p len ping b)) = length (hc b)"
  "trace (submitted ch d t k p len ping b) =
     trace b @ [HW_HC_StartXfer (submit_hc ch d t k p len ping (hc b ! unat ch))]"
  by (simp_all add: submitted_def Let_def)

lemma submitted_hc [simp]:
  "unat ch < length (hc b) \<Longrightarrow>
     hc (submitted ch d t k p len ping b) ! unat ch = submit_hc ch d t k p len ping (hc b ! unat ch)"
  "unat ch < length (hc b) \<Longrightarrow> ch' \<noteq> unat ch \<Longrightarrow>
     hc (submitted ch d t k p len ping b) ! ch' = hc b ! ch'"
  by (simp_all add: submitted_def Let_def)

lemma ctl_requests_iff:
  "USBH_CtlSendSetup h b buf pipe = Some (s, b') \<longleftrightarrow> pData h \<and> unat pipe < length (hc b) \<and>
     s = USBH_OK \<and> b' = submitted pipe 0 EP_TYPE_CTRL USBH_PID_SETUP buf 8 0 b"
  "USBH_CtlSendData h b buf len pipe ping = Some (s, b') \<longleftrightarrow> pData h \<and> unat pipe < length (hc b) \<and>
     s = USBH_OK \<and> b' = submitted pipe 0 EP_TYPE_CTRL USBH_PID_DATA buf len
       (if speed (device h) = USBH_SPEED_HIGH then ping else 0) b"
  "USBH_CtlReceiveData h b buf len pipe = Some (s, b') \<longleftrightarrow> pData h \<and> unat pipe < length (hc b) \<and>
     s = USBH_OK \<and> b' = submitted pipe 1 EP_TYPE_CTRL USBH_PID_DATA buf len 0 b"
  by (auto simp: USBH_CtlSendSetup_def USBH_CtlSendData_def USBH_CtlReceiveData_def
      bind_eq_Some_conv SubmitURB_eq_Some_iff submitted_def Let_def)

lemma data_requests_iff:
  "USBH_BulkSendData h b buf len pipe ping = Some (s, b') \<longleftrightarrow> pData h \<and> unat pipe < length (hc b) \<and>
     s = USBH_OK \<and> b' = submitted pipe 0 EP_TYPE_BULK USBH_PID_DATA buf len
       (if speed (device h) = USBH_SPEED_HIGH then ping else 0) b"
  "USBH_BulkReceiveData h b buf len pipe = Some (s, b') \<longleftrightarrow> pData h \<and> unat pipe < length (hc b) \<and>
     s = USBH_OK \<and> b' = submitted pipe 1 EP_TYPE_BULK USBH_PID_DATA buf len 0 b"
  "USBH_InterruptReceiveData h b buf n pipe = Some (s, b') \<longleftrightarrow> pData h \<and>
     unat pipe < length (hc b) \<and> s = USBH_OK \<and>
     b' = submitted pipe 1 EP_TYPE_INTR USBH_PID_DATA buf (ucast n) 0 b"
  "USBH_InterruptSendData h b buf n pipe = Some (s, b') \<longleftrightarrow> pData h \<and>
     unat pipe < length (hc b) \<and> s = USBH_OK \<and>
     b' = submitted pipe 0 EP_TYPE_INTR USBH_PID_DATA buf (ucast n) 0 b"
  by (auto simp: USBH_BulkSendData_def USBH_BulkReceiveData_def USBH_InterruptReceiveData_def
      USBH_InterruptSendData_def bind_eq_Some_conv SubmitURB_eq_Some_iff submitted_def Let_def)

lemmas request_iff = ctl_requests_iff data_requests_iff

lemma requests_Some [mem_simps]:
  assumes "pData h" "unat pipe < length (hc b)"
  shows "USBH_CtlSendSetup h b buf pipe =
      Some (USBH_OK, submitted pipe 0 EP_TYPE_CTRL USBH_PID_SETUP buf 8 0 b)"
    "USBH_CtlSendData h b buf len pipe ping = Some (USBH_OK, submitted pipe 0 EP_TYPE_CTRL
       USBH_PID_DATA buf len (if speed (device h) = USBH_SPEED_HIGH then ping else 0) b)"
    "USBH_CtlReceiveData h b buf len pipe =
      Some (USBH_OK, submitted pipe 1 EP_TYPE_CTRL USBH_PID_DATA buf len 0 b)"
    "USBH_BulkSendData h b buf len pipe ping = Some (USBH_OK, submitted pipe 0 EP_TYPE_BULK
       USBH_PID_DATA buf len (if speed (device h) = USBH_SPEED_HIGH then ping else 0) b)"
    "USBH_BulkReceiveData h b buf len pipe =
      Some (USBH_OK, submitted pipe 1 EP_TYPE_BULK USBH_PID_DATA buf len 0 b)"
    "USBH_InterruptReceiveData h b buf n pipe =
      Some (USBH_OK, submitted pipe 1 EP_TYPE_INTR USBH_PID_DATA buf (ucast n) 0 b)"
  using assms by (simp_all add: request_iff)

end
