(* ===== verification/Pools.thy ===== *)
theory Pools
  imports IoReq
begin

text \<open>
  The two tables every handle of the tree shares: the pipe table (\<^verbatim>\<open>Core/Src/usbh_pipes.c\<close>) and
  the device address table (\<^verbatim>\<open>USBH_Get_One_Address\<close> and \<^verbatim>\<open>USBH_Free_One_Address\<close> of
  \<^verbatim>\<open>Core/Src/usbh_core.c\<close>). Both are pools of numbered slots; the contract they share is the
  locale \<open>slot_pool\<close>, proved once for each table.
\<close>

subsection \<open>A pool of numbered slots\<close>

fun alloc_seq :: "('s \<Rightarrow> (nat \<times> 's) option) \<Rightarrow> nat \<Rightarrow> 's \<Rightarrow> (nat list \<times> 's) option" where
  "alloc_seq alloc 0 s = Some ([], s)"
| "alloc_seq alloc (Suc n) s = do {
     (i, s) \<leftarrow> alloc s;
     (is, s) \<leftarrow> alloc_seq alloc n s;
     Some (i # is, s)
   }"

locale slot_pool =
  fixes used :: "'s \<Rightarrow> nat set"
    and alloc :: "'s \<Rightarrow> (nat \<times> 's) option"
    and release :: "nat \<Rightarrow> 's \<Rightarrow> 's"
    and pool_inv :: "'s \<Rightarrow> bool"
    and cap :: nat
  assumes used_range: "pool_inv s \<Longrightarrow> used s \<subseteq> {..<cap}"
    and alloc_slot: "pool_inv s \<Longrightarrow> alloc s = Some (i, s') \<Longrightarrow>
          i < cap \<and> i \<notin> used s \<and> used s' = insert i (used s) \<and> pool_inv s'"
    and alloc_None: "pool_inv s \<Longrightarrow> alloc s = None \<longleftrightarrow> used s = {..<cap}"
    and release_used: "pool_inv s \<Longrightarrow> i < cap \<Longrightarrow> used (release i s) = used s - {i}"
    and release_inv: "pool_inv s \<Longrightarrow> i < cap \<Longrightarrow> pool_inv (release i s)"
begin

lemma finite_used: "pool_inv s \<Longrightarrow> finite (used s)"
  by (rule finite_subset [OF used_range]) simp_all

lemma card_used_le: "pool_inv s \<Longrightarrow> card (used s) \<le> cap"
  using used_range card_mono [of "{..<cap}" "used s"] by simp

lemma alloc_Some_if_room:
  assumes "pool_inv s" "card (used s) < cap"
  shows "\<exists>i s'. alloc s = Some (i, s')"
proof -
  have "alloc s \<noteq> None"
  proof
    assume "alloc s = None"
    then have "used s = {..<cap}" using alloc_None [OF assms(1)] by (rule iffD1 [rotated])
    then have "card (used s) = card {..<cap}" by (rule arg_cong)
    with assms(2) show False by simp
  qed
  then show ?thesis by auto
qed

lemma alloc_seq_sound:
  "pool_inv s \<Longrightarrow> alloc_seq alloc n s = Some (is, s') \<Longrightarrow>
     length is = n \<and> distinct is \<and> set is \<inter> used s = {} \<and> set is \<subseteq> {..<cap} \<and>
     used s' = used s \<union> set is \<and> pool_inv s'"
proof (induction n arbitrary: s "is")
  case 0
  then show ?case by simp
next
  case (Suc n)
  from Suc.prems(2) obtain i s1 js where a: "alloc s = Some (i, s1)"
    and r: "alloc_seq alloc n s1 = Some (js, s')" and "is = i # js"
    by (auto simp: bind_eq_Some_conv)
  with alloc_slot [OF Suc.prems(1) a] Suc.IH [OF _ r] show ?case by auto
qed

lemma alloc_seq_complete:
  "pool_inv s \<Longrightarrow> n + card (used s) \<le> cap \<Longrightarrow> \<exists>is s'. alloc_seq alloc n s = Some (is, s')"
proof (induction n arbitrary: s)
  case 0
  then show ?case by simp
next
  case (Suc n)
  then obtain i s1 where a: "alloc s = Some (i, s1)" using alloc_Some_if_room by fastforce
  note * = alloc_slot [OF Suc.prems(1) a]
  then have "card (used s1) = Suc (card (used s))" using finite_used [OF Suc.prems(1)] by simp
  with Suc * obtain js s2 where "alloc_seq alloc n s1 = Some (js, s2)" by fastforce
  with a show ?case by simp
qed

lemma alloc_seq_exhausts:
  assumes "pool_inv s" "cap < n + card (used s)"
  shows "alloc_seq alloc n s = None"
proof (rule ccontr)
  assume "alloc_seq alloc n s \<noteq> None"
  then obtain "is" s' where r: "alloc_seq alloc n s = Some (is, s')" by auto
  note * = alloc_seq_sound [OF assms(1) r]
  then have "card (used s') = card (used s) + card (set is)"
    using finite_used [OF assms(1)] by (auto intro: card_Un_disjoint)
  with * assms(2) card_used_le [of s'] show False by (simp add: distinct_card)
qed

lemma release_all:
  "pool_inv s \<Longrightarrow> set is \<subseteq> {..<cap} \<Longrightarrow>
     used (fold release is s) = used s - set is \<and> pool_inv (fold release is s)"
  by (induction "is" arbitrary: s) (auto simp: release_used release_inv)

lemma alloc_release_restores:
  assumes "pool_inv s" "alloc_seq alloc n s = Some (is, s')"
  shows "used (fold release is s') = used s"
  using alloc_seq_sound [OF assms] release_all [of s' "is"] by auto

end

subsection \<open>The pipe table\<close>

function get_free_pipe_loop :: "u32 list \<Rightarrow> nat \<Rightarrow> u16 option" where
  "get_free_pipe_loop pipes idx =
     (if idx < USBH_MAX_PIPES_NBR then
        (case rd pipes idx of
           None \<Rightarrow> None
         | Some p \<Rightarrow> if p AND 0x8000 = 0 then Some (of_nat idx)
                     else get_free_pipe_loop pipes (Suc idx))
      else Some 0xFFFF)"
  by pat_completeness auto
termination
  by (relation "measure (\<lambda>(pipes, idx). USBH_MAX_PIPES_NBR - idx)") auto

declare get_free_pipe_loop.simps [simp del]

definition USBH_GetFreePipe :: "bus \<Rightarrow> u16 option" where
  "USBH_GetFreePipe b = get_free_pipe_loop (Pipes b) 0"

definition USBH_AllocPipe :: "bus \<Rightarrow> u8 \<Rightarrow> (u8 \<times> bus) option" where
  "USBH_AllocPipe b ep_addr = do {
     pipe \<leftarrow> USBH_GetFreePipe b;
     (if pipe \<noteq> 0xFFFF then do {
        ps \<leftarrow> wr (Pipes b) (unat pipe) (0x8000 OR ucast ep_addr);
        Some (ucast pipe, b\<lparr>Pipes := ps\<rparr>)
      } else Some (ucast pipe, b))
   }"

definition USBH_FreePipe :: "bus \<Rightarrow> u8 \<Rightarrow> (USBH_StatusTypeDef \<times> bus) option" where
  "USBH_FreePipe b idx =
     (if unat idx < USBH_MAX_PIPES_NBR then do {
        p \<leftarrow> rd (Pipes b) (unat idx);
        ps \<leftarrow> wr (Pipes b) (unat idx) (p AND 0x7FFF);
        Some (USBH_OK, b\<lparr>Pipes := ps\<rparr>)
      } else Some (USBH_OK, b))"

definition USBH_OpenPipe ::
  "host \<Rightarrow> bus \<Rightarrow> u8 \<Rightarrow> u8 \<Rightarrow> u8 \<Rightarrow> u8 \<Rightarrow> u8 \<Rightarrow> u16 \<Rightarrow> (USBH_StatusTypeDef \<times> bus) option" where
  "USBH_OpenPipe h b pipe_num epnum dev_address' speed' ep_type' mps = do {
     (_, b) \<leftarrow> USBH_LL_OpenPipe h b pipe_num epnum dev_address' speed' ep_type' mps;
     Some (USBH_OK, b)
   }"

definition USBH_ClosePipe :: "host \<Rightarrow> bus \<Rightarrow> u8 \<Rightarrow> (USBH_StatusTypeDef \<times> bus) option" where
  "USBH_ClosePipe h b pipe_num = do {
     (_, b) \<leftarrow> USBH_LL_ClosePipe h b pipe_num;
     Some (USBH_OK, b)
   }"

definition pipe_used :: "u32 \<Rightarrow> bool" where
  "pipe_used p \<longleftrightarrow> p AND 0x8000 \<noteq> 0"

definition pipes_used :: "bus \<Rightarrow> nat set" where
  "pipes_used b = {i. i < USBH_MAX_PIPES_NBR \<and> pipe_used (Pipes b ! i)}"

definition pipes_ok :: "bus \<Rightarrow> bool" where
  "pipes_ok b \<longleftrightarrow> length (Pipes b) = USBH_MAX_PIPES_NBR"

lemma pipe_used_bit: "pipe_used p \<longleftrightarrow> bit p 15"
  using and_exp_eq_0_iff_not_bit [of p 15] by (simp add: pipe_used_def)

lemma pipe_used_alloc [simp]: "pipe_used (0x8000 OR x)"
proof -
  have "bit (0x8000 :: u32) 15" using bit_exp_iff [of 15 15, where 'a = u32] by simp
  then show ?thesis by (simp add: pipe_used_bit bit_or_iff)
qed

lemma pipe_used_free [simp]: "\<not> pipe_used (p AND 0x7FFF)"
proof -
  have "\<not> bit (0x7FFF :: u32) 15" using bit_mask_iff [of 15 15, where 'a = u32] by (simp add: mask_eq_exp_minus_1)
  then show ?thesis by (simp add: pipe_used_bit bit_and_iff)
qed

lemma get_free_pipe_loop_spec:
  "length pipes = USBH_MAX_PIPES_NBR \<Longrightarrow> idx \<le> USBH_MAX_PIPES_NBR \<Longrightarrow>
   \<exists>r. get_free_pipe_loop pipes idx = Some r \<and>
     (r = 0xFFFF \<and> (\<forall>i. idx \<le> i \<and> i < USBH_MAX_PIPES_NBR \<longrightarrow> pipe_used (pipes ! i)) \<or>
      (\<exists>k. r = of_nat k \<and> idx \<le> k \<and> k < USBH_MAX_PIPES_NBR \<and> \<not> pipe_used (pipes ! k) \<and>
         (\<forall>i. idx \<le> i \<and> i < k \<longrightarrow> pipe_used (pipes ! i))))"
proof (induction pipes idx rule: get_free_pipe_loop.induct)
  case (1 pipes idx)
  show ?case
  proof (cases "idx < USBH_MAX_PIPES_NBR \<and> pipe_used (pipes ! idx)")
    case True
    then have rd: "rd pipes idx = Some (pipes ! idx)" and nz: "pipes ! idx AND 0x8000 \<noteq> 0"
      using "1.prems" by (simp_all add: rd_def pipe_used_def)
    from "1.IH" [OF _ rd nz] True "1.prems" obtain r where r: "get_free_pipe_loop pipes (Suc idx) = Some r"
      and d: "r = 0xFFFF \<and> (\<forall>i. Suc idx \<le> i \<and> i < USBH_MAX_PIPES_NBR \<longrightarrow> pipe_used (pipes ! i)) \<or>
        (\<exists>k. r = of_nat k \<and> Suc idx \<le> k \<and> k < USBH_MAX_PIPES_NBR \<and> \<not> pipe_used (pipes ! k) \<and>
         (\<forall>i. Suc idx \<le> i \<and> i < k \<longrightarrow> pipe_used (pipes ! i)))"
      by auto
    have "get_free_pipe_loop pipes idx = Some r"
      using True rd nz r by (simp add: get_free_pipe_loop.simps [of pipes idx])
    moreover have step: "\<And>i. idx \<le> i \<Longrightarrow> i = idx \<or> Suc idx \<le> i" by arith
    ultimately show ?thesis using d True by (metis Suc_leD)
  next
    case False
    then show ?thesis using "1.prems"
      by (auto simp: get_free_pipe_loop.simps [of pipes idx] rd_def pipe_used_def)
  qed
qed

text \<open>Allocation takes the lowest free pipe, or returns 255 and changes nothing.\<close>

lemma AllocPipe_cases:
  assumes "pipes_ok b"
  obtains (full) "pipes_used b = {..<USBH_MAX_PIPES_NBR}" "USBH_AllocPipe b ep = Some (0xFF, b)"
  | (slot) k where "k < USBH_MAX_PIPES_NBR" "k \<notin> pipes_used b" "\<forall>i<k. i \<in> pipes_used b"
      "USBH_AllocPipe b ep = Some (of_nat k, b\<lparr>Pipes := (Pipes b)[k := 0x8000 OR ucast ep]\<rparr>)"
proof -
  from assms have len: "length (Pipes b) = USBH_MAX_PIPES_NBR" by (simp add: pipes_ok_def)
  from get_free_pipe_loop_spec [OF len, of 0] obtain r where r: "USBH_GetFreePipe b = Some r"
    and d: "r = 0xFFFF \<and> (\<forall>i<USBH_MAX_PIPES_NBR. pipe_used (Pipes b ! i)) \<or>
      (\<exists>k. r = of_nat k \<and> k < USBH_MAX_PIPES_NBR \<and> \<not> pipe_used (Pipes b ! k) \<and>
         (\<forall>i<k. pipe_used (Pipes b ! i)))"
    by (auto simp: USBH_GetFreePipe_def)
  from d show ?thesis
  proof (elim disjE exE conjE)
    assume "r = 0xFFFF" "\<forall>i<USBH_MAX_PIPES_NBR. pipe_used (Pipes b ! i)"
    then show ?thesis using r by (intro full) (auto simp: USBH_AllocPipe_def pipes_used_def)
  next
    fix k assume k: "r = of_nat k" "k < USBH_MAX_PIPES_NBR" "\<not> pipe_used (Pipes b ! k)"
      "\<forall>i<k. pipe_used (Pipes b ! i)"
    then have u: "unat (of_nat k :: u16) = k" by (simp add: unat_of_nat)
    have uc: "ucast (of_nat k :: u16) = (of_nat k :: u8)"
      using k(2) by (simp add: unsigned_of_nat take_bit_nat_eq_self)
    have "of_nat k \<noteq> (0xFFFF :: u16)"
    proof
      assume "of_nat k = (0xFFFF :: u16)"
      then have "unat (of_nat k :: u16) = unat (0xFFFF :: u16)" by simp
      with u k(2) show False by simp
    qed
    with r k u uc len show ?thesis
      by (intro slot [of k]) (auto simp: USBH_AllocPipe_def pipes_used_def wr_def)
  qed
qed

lemma AllocPipe_total: "pipes_ok b \<Longrightarrow> \<exists>p b'. USBH_AllocPipe b ep = Some (p, b')"
  by (erule AllocPipe_cases [where ep = ep]) auto

lemma AllocPipe_frame:
  assumes "USBH_AllocPipe b ep = Some (p, b')"
  shows "addresses b' = addresses b" "addr_hdr b' = addr_hdr b" "hc b' = hc b"
    "os_event b' = os_event b" "trace b' = trace b" "length (Pipes b') = length (Pipes b)"
    "port_speed b' = port_speed b" "cur_frame b' = cur_frame b"
  using assms by (auto simp: USBH_AllocPipe_def wr_def bind_eq_Some_conv split: if_splits)

lemma FreePipe_Some [mem_simps]:
  "pipes_ok b \<Longrightarrow> USBH_FreePipe b idx = Some (USBH_OK,
     if unat idx < USBH_MAX_PIPES_NBR
     then b\<lparr>Pipes := (Pipes b)[unat idx := Pipes b ! unat idx AND 0x7FFF]\<rparr> else b)"
  by (simp add: USBH_FreePipe_def pipes_ok_def mem_simps)

lemma FreePipe_frame:
  assumes "USBH_FreePipe b p = Some (s, b')"
  shows "s = USBH_OK" "addresses b' = addresses b" "addr_hdr b' = addr_hdr b" "hc b' = hc b"
    "os_event b' = os_event b" "trace b' = trace b" "length (Pipes b') = length (Pipes b)"
  using assms by (auto simp: USBH_FreePipe_def wr_def bind_eq_Some_conv split: if_splits)

lemma FreePipe_used:
  assumes "pipes_ok b" "USBH_FreePipe b p = Some (s, b')"
  shows "pipes_used b' = pipes_used b - {unat p}" "pipes_ok b'"
  using assms by (auto simp: mem_simps pipes_used_def pipes_ok_def nth_list_update split: if_splits)

definition pipe_alloc :: "u8 \<Rightarrow> bus \<Rightarrow> (nat \<times> bus) option" where
  "pipe_alloc ep b = (case USBH_AllocPipe b ep of
     None \<Rightarrow> None | Some (p, b') \<Rightarrow> if p = 0xFF then None else Some (unat p, b'))"

definition pipe_release :: "nat \<Rightarrow> bus \<Rightarrow> bus" where
  "pipe_release i b = (case USBH_FreePipe b (of_nat i) of None \<Rightarrow> b | Some (_, b') \<Rightarrow> b')"

lemma small_pipe: "k < USBH_MAX_PIPES_NBR \<Longrightarrow> unat (of_nat k :: u8) = k \<and> of_nat k \<noteq> (0xFF :: u8)"
proof -
  assume k: "k < USBH_MAX_PIPES_NBR"
  then have u: "unat (of_nat k :: u8) = k" by (simp add: unat_of_nat)
  moreover have "of_nat k \<noteq> (0xFF :: u8)"
  proof
    assume "of_nat k = (0xFF :: u8)"
    then have "unat (of_nat k :: u8) = unat (0xFF :: u8)" by simp
    with u k show False by simp
  qed
  ultimately show ?thesis by simp
qed

lemma pipe_slot_pool:
  "slot_pool pipes_used (pipe_alloc ep) pipe_release pipes_ok USBH_MAX_PIPES_NBR"
proof (unfold_locales, goal_cases)
  case (1 s)
  then show ?case by (auto simp: pipes_used_def)
next
  case (2 s i s')
  from 2(1) show ?case
  proof (cases rule: AllocPipe_cases [where ep = ep])
    case full
    with 2 show ?thesis by (simp add: pipe_alloc_def)
  next
    case (slot k)
    with 2 small_pipe [OF slot(1)] show ?thesis
      by (auto simp: pipe_alloc_def pipes_used_def pipes_ok_def nth_list_update split: if_splits)
  qed
next
  case (3 s)
  then show ?case
  proof (cases rule: AllocPipe_cases [where ep = ep])
    case full
    then show ?thesis by (simp add: pipe_alloc_def)
  next
    case (slot k)
    then show ?thesis using small_pipe [OF slot(1)] by (auto simp: pipe_alloc_def)
  qed
next
  case (4 s i)
  then show ?case
    using small_pipe [OF 4(2)] FreePipe_used(1) [OF 4(1) FreePipe_Some [OF 4(1), of "of_nat i"]]
    by (simp add: pipe_release_def mem_simps)
next
  case (5 s i)
  then show ?case
    using FreePipe_used(2) [OF 5(1) FreePipe_Some [OF 5(1), of "of_nat i"]] by (simp add: pipe_release_def mem_simps)
qed

interpretation pipes: slot_pool pipes_used "pipe_alloc ep" pipe_release pipes_ok USBH_MAX_PIPES_NBR
  for ep
  by (rule pipe_slot_pool)

text \<open>
  C13: any number of pipe allocations in a row gives pairwise different pipes that were free,
  succeeds exactly while the fifteen pipes last, and releasing what was given restores the table.
\<close>

theorem pipe_allocations:
  assumes "pipes_ok b"
  shows "case alloc_seq (pipe_alloc ep) n b of
      Some (ps, b') \<Rightarrow> n + card (pipes_used b) \<le> USBH_MAX_PIPES_NBR \<and> length ps = n \<and> distinct ps \<and>
        set ps \<inter> pipes_used b = {} \<and> pipes_used b' = pipes_used b \<union> set ps \<and>
        pipes_used (fold pipe_release ps b') = pipes_used b
    | None \<Rightarrow> USBH_MAX_PIPES_NBR < n + card (pipes_used b)"
proof (cases "alloc_seq (pipe_alloc ep) n b")
  case None
  with pipes.alloc_seq_complete [OF assms, of n ep] show ?thesis by fastforce
next
  case (Some r)
  obtain ps b' where r: "r = (ps, b')" by (cases r)
  with Some have "alloc_seq (pipe_alloc ep) n b = Some (ps, b')" by simp
  with pipes.alloc_seq_sound [OF assms this] pipes.alloc_release_restores [OF assms this]
    pipes.alloc_seq_exhausts [OF assms, of n ep] r Some show ?thesis by fastforce
qed

lemma pipe_allocations_witness:
  "case alloc_seq (pipe_alloc 0x81) 3 sample_bus of
      Some (ps, b') \<Rightarrow> 3 + card (pipes_used sample_bus) \<le> USBH_MAX_PIPES_NBR \<and> length ps = 3 \<and> distinct ps \<and>
        set ps \<inter> pipes_used sample_bus = {} \<and> pipes_used b' = pipes_used sample_bus \<union> set ps \<and>
        pipes_used (fold pipe_release ps b') = pipes_used sample_bus
    | None \<Rightarrow> USBH_MAX_PIPES_NBR < 3 + card (pipes_used sample_bus)"
  by (rule pipe_allocations) (simp add: pipes_ok_def sample_bus_def)

subsection \<open>The address table\<close>

text \<open>
  The first free of the eight entries. The inner option is the search result, the outer one is
  \<open>None\<close> when the table is shorter than the loop bound.
\<close>

function addr_loop :: "u8 list \<Rightarrow> nat \<Rightarrow> nat option option" where
  "addr_loop tbl idx =
     (if idx < USBH_MAX_NUM_DEVICE then
        (case rd tbl idx of
           None \<Rightarrow> None
         | Some v \<Rightarrow> if v = 0 then Some (Some idx) else addr_loop tbl (Suc idx))
      else Some None)"
  by pat_completeness auto
termination
  by (relation "measure (\<lambda>(tbl, idx). USBH_MAX_NUM_DEVICE - idx)") auto

declare addr_loop.simps [simp del]

definition set_dev_address :: "u8 \<Rightarrow> host \<Rightarrow> host" where
  "set_dev_address a h = h\<lparr>device := (device h)\<lparr>dev_address := a\<rparr>\<rparr>"

definition USBH_Get_One_Address :: "host \<Rightarrow> bus \<Rightarrow> (u8 \<times> host \<times> bus) option" where
  "USBH_Get_One_Address h b =
     (if dev_address (device h) \<noteq> 0 then Some (dev_address (device h), h, b)
      else do {
        r \<leftarrow> addr_loop (addresses b) 0;
        (case r of
           None \<Rightarrow> Some (0, h, b)
         | Some idx \<Rightarrow> do {
             t \<leftarrow> wr (addresses b) idx 1;
             Some (of_nat idx + 1, set_dev_address (of_nat idx + 1) h, b\<lparr>addresses := t\<rparr>)
           })
      })"

text \<open>
  \<^verbatim>\<open>address[device.address - 1] = 0\<close>. The subtraction is done in \<^verbatim>\<open>int\<close>, so address 0 writes the
  byte before the block.
\<close>

definition addr_clear :: "u8 \<Rightarrow> bus \<Rightarrow> bus option" where
  "addr_clear a b =
     (if a = 0 then Some (b\<lparr>addr_hdr := 0\<rparr>)
      else do {
        t \<leftarrow> wr (addresses b) (unat a - 1) 0;
        Some (b\<lparr>addresses := t\<rparr>)
      })"

definition USBH_Free_One_Address :: "host \<Rightarrow> bus \<Rightarrow> (u8 \<times> host \<times> bus) option" where
  "USBH_Free_One_Address h b =
     (if dev_address (device h) \<noteq> 0 then do {
        b \<leftarrow> addr_clear (dev_address (device h)) b;
        Some (0, set_dev_address 0 h, b)
      } else Some (dev_address (device h), h, b))"

definition addr_used :: "bus \<Rightarrow> nat set" where
  "addr_used b = {i. i < USBH_MAX_NUM_DEVICE \<and> addresses b ! i \<noteq> 0}"

definition addr_ok :: "bus \<Rightarrow> bool" where
  "addr_ok b \<longleftrightarrow> USBH_MAX_NUM_DEVICE \<le> length (addresses b)"

lemma addr_loop_spec:
  "USBH_MAX_NUM_DEVICE \<le> length tbl \<Longrightarrow>
   \<exists>r. addr_loop tbl idx = Some r \<and>
     (r = None \<longrightarrow> (\<forall>i. idx \<le> i \<and> i < USBH_MAX_NUM_DEVICE \<longrightarrow> tbl ! i \<noteq> 0)) \<and>
     (\<forall>k. r = Some k \<longrightarrow> idx \<le> k \<and> k < USBH_MAX_NUM_DEVICE \<and> tbl ! k = 0 \<and>
          (\<forall>i. idx \<le> i \<and> i < k \<longrightarrow> tbl ! i \<noteq> 0))"
proof (induction tbl idx rule: addr_loop.induct)
  case (1 tbl idx)
  show ?case
  proof (cases "idx < USBH_MAX_NUM_DEVICE \<and> tbl ! idx \<noteq> 0")
    case True
    then have rd: "rd tbl idx = Some (tbl ! idx)" using "1.prems" by (simp add: rd_def)
    from "1.IH" [OF _ rd] True "1.prems" obtain r where r: "addr_loop tbl (Suc idx) = Some r"
      and d: "r = None \<longrightarrow> (\<forall>i. Suc idx \<le> i \<and> i < USBH_MAX_NUM_DEVICE \<longrightarrow> tbl ! i \<noteq> 0)"
        "\<forall>k. r = Some k \<longrightarrow> Suc idx \<le> k \<and> k < USBH_MAX_NUM_DEVICE \<and> tbl ! k = 0 \<and>
            (\<forall>i. Suc idx \<le> i \<and> i < k \<longrightarrow> tbl ! i \<noteq> 0)"
      by auto
    have "addr_loop tbl idx = Some r"
      using True rd r by (simp add: addr_loop.simps [of tbl idx])
    moreover have st: "\<And>i. idx \<le> i \<Longrightarrow> i = idx \<or> Suc idx \<le> i" by arith
    ultimately show ?thesis using d True by (metis Suc_leD)
  next
    case False
    then show ?thesis using "1.prems"
      by (auto simp: addr_loop.simps [of tbl idx] rd_def)
  qed
qed

lemma small_addr: "k < USBH_MAX_NUM_DEVICE \<Longrightarrow> unat (of_nat k + 1 :: u8) = Suc k"
proof -
  assume k: "k < USBH_MAX_NUM_DEVICE"
  have "of_nat k + 1 = (of_nat (Suc k) :: u8)" by (simp add: add.commute)
  also have "unat \<dots> = Suc k" using k by (subst unat_of_nat) simp
  finally show ?thesis .
qed

lemma small_addr_nz: "k < USBH_MAX_NUM_DEVICE \<Longrightarrow> of_nat k + 1 \<noteq> (0 :: u8)"
  using small_addr [of k] by (metis Suc_neq_Zero unat_0)

text \<open>A handle keeps the address it has; a new one is the lowest free, or none is left.\<close>

lemma Get_One_Address_cases:
  assumes "addr_ok b" "dev_address (device h) = 0"
  obtains (full) "addr_used b = {..<USBH_MAX_NUM_DEVICE}" "USBH_Get_One_Address h b = Some (0, h, b)"
  | (slot) k where "k < USBH_MAX_NUM_DEVICE" "k \<notin> addr_used b" "\<forall>i<k. i \<in> addr_used b"
      "USBH_Get_One_Address h b = Some (of_nat k + 1, set_dev_address (of_nat k + 1) h,
         b\<lparr>addresses := (addresses b)[k := 1]\<rparr>)"
proof -
  from assms have len: "USBH_MAX_NUM_DEVICE \<le> length (addresses b)" by (simp add: addr_ok_def)
  from addr_loop_spec [OF len, of 0, simplified] obtain r
    where r: "addr_loop (addresses b) 0 = Some r"
    and d: "r = None \<longrightarrow> (\<forall>i<USBH_MAX_NUM_DEVICE. addresses b ! i \<noteq> 0)"
      "\<forall>k. r = Some k \<longrightarrow> k < USBH_MAX_NUM_DEVICE \<and> addresses b ! k = 0 \<and>
         (\<forall>i<k. addresses b ! i \<noteq> 0)"
    by blast
  show ?thesis
  proof (cases r)
    case None
    then show ?thesis using r d assms
      by (intro full) (auto simp: USBH_Get_One_Address_def addr_used_def)
  next
    case (Some k)
    then show ?thesis using r d assms len
      by (intro slot [of k]) (auto simp: USBH_Get_One_Address_def addr_used_def wr_def)
  qed
qed

definition addr_alloc :: "host \<Rightarrow> bus \<Rightarrow> (nat \<times> bus) option" where
  "addr_alloc h b = (case USBH_Get_One_Address (set_dev_address 0 h) b of
     None \<Rightarrow> None | Some (a, _, b') \<Rightarrow> if a = 0 then None else Some (unat a - 1, b'))"

definition addr_release :: "host \<Rightarrow> nat \<Rightarrow> bus \<Rightarrow> bus" where
  "addr_release h i b = (case USBH_Free_One_Address (set_dev_address (of_nat i + 1) h) b of
     None \<Rightarrow> b | Some (_, _, b') \<Rightarrow> b')"

lemma set_dev_address_simps [simp]:
  "device (set_dev_address a h) = (device h)\<lparr>dev_address := a\<rparr>"
  "Control (set_dev_address a h) = Control h" "pData (set_dev_address a h) = pData h"
  "set_dev_address a' (set_dev_address a h) = set_dev_address a' h"
  "gState (set_dev_address a h) = gState h" "EnumState (set_dev_address a h) = EnumState h"
  "RequestState (set_dev_address a h) = RequestState h" "self (set_dev_address a h) = self h"
  "is_child (set_dev_address a h) = is_child h" "parent (set_dev_address a h) = parent h"
  "pClassData (set_dev_address a h) = pClassData h" "app_data (set_dev_address a h) = app_data h"
  "children (set_dev_address a h) = children h" "pUser (set_dev_address a h) = pUser h"
  by (simp_all add: set_dev_address_def)

lemma addr_release_eq:
  assumes "addr_ok b" "i < USBH_MAX_NUM_DEVICE"
  shows "addr_release h i b = b\<lparr>addresses := (addresses b)[i := 0]\<rparr>"
  using assms small_addr [of i] small_addr_nz [of i]
  by (simp add: addr_release_def USBH_Free_One_Address_def addr_clear_def addr_ok_def wr_def)

lemma addr_slot_pool:
  "slot_pool addr_used (addr_alloc h) (addr_release h) addr_ok USBH_MAX_NUM_DEVICE"
proof (unfold_locales, goal_cases)
  case (1 s)
  then show ?case by (auto simp: addr_used_def)
next
  case (2 s i s')
  have z: "dev_address (device (set_dev_address 0 h)) = 0" by simp
  from 2(1) z show ?case
  proof (cases rule: Get_One_Address_cases)
    case full
    with 2 show ?thesis by (simp add: addr_alloc_def)
  next
    case (slot k)
    with 2 small_addr [OF slot(1)] small_addr_nz [OF slot(1)] show ?thesis
      by (auto simp: addr_alloc_def addr_used_def addr_ok_def nth_list_update split: if_splits)
  qed
next
  case (3 s)
  have z: "dev_address (device (set_dev_address 0 h)) = 0" by simp
  from 3 z show ?case
  proof (cases rule: Get_One_Address_cases)
    case full
    then show ?thesis by (simp add: addr_alloc_def)
  next
    case (slot k)
    then show ?thesis using small_addr_nz [OF slot(1)] by (auto simp: addr_alloc_def)
  qed
next
  case (4 s i)
  then show ?case
    by (auto simp: addr_release_eq addr_used_def addr_ok_def nth_list_update)
next
  case (5 s i)
  then show ?case by (simp add: addr_release_eq addr_ok_def)
qed

interpretation addrs: slot_pool addr_used "addr_alloc h" "addr_release h" addr_ok USBH_MAX_NUM_DEVICE
  for h
  by (rule addr_slot_pool)

text \<open>
  The eight device addresses are handed out without repetition, until none is left, and
  releasing them restores the table.
\<close>

theorem address_allocations:
  assumes "addr_ok b"
  shows "case alloc_seq (addr_alloc h) n b of
      Some (as, b') \<Rightarrow> n + card (addr_used b) \<le> USBH_MAX_NUM_DEVICE \<and> length as = n \<and> distinct as \<and>
        set as \<inter> addr_used b = {} \<and> addr_used b' = addr_used b \<union> set as \<and>
        addr_used (fold (addr_release h) as b') = addr_used b
    | None \<Rightarrow> USBH_MAX_NUM_DEVICE < n + card (addr_used b)"
proof (cases "alloc_seq (addr_alloc h) n b")
  case None
  with addrs.alloc_seq_complete [OF assms, of n h] show ?thesis by fastforce
next
  case (Some r)
  obtain as b' where r: "r = (as, b')" by (cases r)
  with Some have "alloc_seq (addr_alloc h) n b = Some (as, b')" by simp
  with addrs.alloc_seq_sound [OF assms this] addrs.alloc_release_restores [OF assms this]
    addrs.alloc_seq_exhausts [OF assms, of n h] r Some show ?thesis by fastforce
qed

lemma address_allocations_witness:
  "case alloc_seq (addr_alloc sample_host) 2 sample_bus of
      Some (as, b') \<Rightarrow> 2 + card (addr_used sample_bus) \<le> USBH_MAX_NUM_DEVICE \<and> length as = 2 \<and> distinct as \<and>
        set as \<inter> addr_used sample_bus = {} \<and> addr_used b' = addr_used sample_bus \<union> set as \<and>
        addr_used (fold (addr_release sample_host) as b') = addr_used sample_bus
    | None \<Rightarrow> USBH_MAX_NUM_DEVICE < 2 + card (addr_used sample_bus)"
  by (rule address_allocations) (simp add: addr_ok_def sample_bus_def)

end
