(* ===== verification/CtlReq.thy ===== *)
theory CtlReq
  imports Descriptors Pools
begin

text \<open>
  Control transfers: \<^verbatim>\<open>Core/Src/usbh_ctlreq.c\<close>. \<open>USBH_CtlReq\<close> is called again and again for one
  request; \<open>RequestState\<close> says whether the transfer has to be started, and the control block's
  state which stage it is in. \<open>USBH_HandleControl\<close> does one step: it submits the URB of a stage or
  looks whether the controller has finished it. Its cases are definitions of their own.

  Logging is left out; the \<^verbatim>\<open>HOST_USER_UNRECOVERED_ERROR\<close> notification is ignored by the only user
  callback (\<^verbatim>\<open>User/test_usbh.c\<close>), so only that the pointer is set matters here.
\<close>

abbreviation USB_REQ_DIR_MASK :: u8 where "USB_REQ_DIR_MASK \<equiv> 0x80"
abbreviation USB_H2D :: u8 where "USB_H2D \<equiv> 0x00"
abbreviation USB_D2H :: u8 where "USB_D2H \<equiv> 0x80"
abbreviation USB_REQ_TYPE_STANDARD :: u8 where "USB_REQ_TYPE_STANDARD \<equiv> 0x00"
abbreviation USB_REQ_TYPE_CLASS :: u8 where "USB_REQ_TYPE_CLASS \<equiv> 0x20"
abbreviation USB_REQ_RECIPIENT_DEVICE :: u8 where "USB_REQ_RECIPIENT_DEVICE \<equiv> 0x00"
abbreviation USB_REQ_RECIPIENT_INTERFACE :: u8 where "USB_REQ_RECIPIENT_INTERFACE \<equiv> 0x01"
abbreviation USB_REQ_RECIPIENT_ENDPOINT :: u8 where "USB_REQ_RECIPIENT_ENDPOINT \<equiv> 0x02"
abbreviation USB_REQ_RECIPIENT_OTHER :: u8 where "USB_REQ_RECIPIENT_OTHER \<equiv> 0x03"
abbreviation USB_REQ_GET_STATUS :: u8 where "USB_REQ_GET_STATUS \<equiv> 0x00"
abbreviation USB_REQ_CLEAR_FEATURE :: u8 where "USB_REQ_CLEAR_FEATURE \<equiv> 0x01"
abbreviation USB_REQ_SET_FEATURE :: u8 where "USB_REQ_SET_FEATURE \<equiv> 0x03"
abbreviation USB_REQ_SET_ADDRESS :: u8 where "USB_REQ_SET_ADDRESS \<equiv> 0x05"
abbreviation USB_REQ_GET_DESCRIPTOR :: u8 where "USB_REQ_GET_DESCRIPTOR \<equiv> 0x06"
abbreviation USB_REQ_SET_CONFIGURATION :: u8 where "USB_REQ_SET_CONFIGURATION \<equiv> 0x09"
abbreviation USB_REQ_SET_INTERFACE :: u8 where "USB_REQ_SET_INTERFACE \<equiv> 0x0B"
abbreviation FEATURE_SELECTOR_ENDPOINT :: u16 where "FEATURE_SELECTOR_ENDPOINT \<equiv> 0x00"
abbreviation USB_DESC_DEVICE :: u16 where "USB_DESC_DEVICE \<equiv> 0x0100"
abbreviation USB_DESC_CONFIGURATION :: u16 where "USB_DESC_CONFIGURATION \<equiv> 0x0200"
abbreviation USB_DESC_STRING :: u16 where "USB_DESC_STRING \<equiv> 0x0300"

type_synonym call = "(USBH_StatusTypeDef \<times> host \<times> bus) option"

subsection \<open>The control state machine\<close>

definition ctl_event :: "bus \<Rightarrow> bus" where
  "ctl_event b = os_put USBH_CONTROL_EVENT b"

definition stamp_timer :: "host \<Rightarrow> host" where
  "stamp_timer h = upd_ctl (\<lambda>c. c\<lparr>ctl_timer := ucast (Timer h)\<rparr>) h"

definition ctl_setup :: "host \<Rightarrow> bus \<Rightarrow> call" where
  "ctl_setup h b = do {
     (_, b) \<leftarrow> USBH_CtlSendSetup h b (Setup_of (self h)) (pipe_out (Control h));
     Some (USBH_BUSY, set_ctl_state CTRL_SETUP_WAIT h, b)
   }"

definition after_setup :: "USB_Setup_TypeDef \<Rightarrow> CTRL_StateTypeDef" where
  "after_setup p =
     (let direction = bmRequestType p AND USB_REQ_DIR_MASK in
      if wLength p \<noteq> 0 then (if direction = USB_D2H then CTRL_DATA_IN else CTRL_DATA_OUT)
      else (if direction = USB_D2H then CTRL_STATUS_OUT else CTRL_STATUS_IN))"

definition ctl_setup_wait :: "host \<Rightarrow> bus \<Rightarrow> call" where
  "ctl_setup_wait h b = do {
     u \<leftarrow> USBH_LL_GetURBState h b (pipe_out (Control h));
     Some (if u = USBH_URB_DONE
           then (USBH_BUSY, set_ctl_state (after_setup (setup_pkt (Control h))) h, ctl_event b)
           else if u = USBH_URB_ERROR then (USBH_BUSY, set_ctl_state CTRL_ERROR h, ctl_event b)
           else (USBH_BUSY, h, b))
   }"

definition ctl_data_in :: "host \<Rightarrow> bus \<Rightarrow> call" where
  "ctl_data_in h b = do {
     let h = stamp_timer h;
     (_, b) \<leftarrow> USBH_CtlReceiveData h b (buff (Control h)) (ctl_length (Control h))
                 (pipe_in (Control h));
     Some (USBH_BUSY, set_ctl_state CTRL_DATA_IN_WAIT h, b)
   }"

definition ctl_data_in_wait :: "host \<Rightarrow> bus \<Rightarrow> call" where
  "ctl_data_in_wait h b = do {
     u \<leftarrow> USBH_LL_GetURBState h b (pipe_in (Control h));
     let (h, b) = (if u = USBH_URB_DONE then (set_ctl_state CTRL_STATUS_OUT h, ctl_event b)
                   else (h, b));
     Some (if u = USBH_URB_STALL then (USBH_NOT_SUPPORTED, h, ctl_event b)
           else if u = USBH_URB_ERROR then (USBH_BUSY, set_ctl_state CTRL_ERROR h, ctl_event b)
           else (USBH_BUSY, h, b))
   }"

definition ctl_data_out :: "host \<Rightarrow> bus \<Rightarrow> call" where
  "ctl_data_out h b = do {
     (_, b) \<leftarrow> USBH_CtlSendData h b (buff (Control h)) (ctl_length (Control h))
                 (pipe_out (Control h)) 1;
     Some (USBH_BUSY, set_ctl_state CTRL_DATA_OUT_WAIT (stamp_timer h), b)
   }"

definition ctl_data_out_wait :: "host \<Rightarrow> bus \<Rightarrow> call" where
  "ctl_data_out_wait h b = do {
     u \<leftarrow> USBH_LL_GetURBState h b (pipe_out (Control h));
     Some (if u = USBH_URB_DONE then (USBH_BUSY, set_ctl_state CTRL_STATUS_IN h, ctl_event b)
           else if u = USBH_URB_STALL
           then (USBH_NOT_SUPPORTED, set_ctl_state CTRL_STALLED h, ctl_event b)
           else if u = USBH_URB_NOTREADY
           then (USBH_BUSY, set_ctl_state CTRL_DATA_OUT h, ctl_event b)
           else if u = USBH_URB_ERROR then (USBH_FAIL, set_ctl_state CTRL_ERROR h, ctl_event b)
           else (USBH_BUSY, h, b))
   }"

definition ctl_status_in :: "host \<Rightarrow> bus \<Rightarrow> call" where
  "ctl_status_in h b = do {
     (_, b) \<leftarrow> USBH_CtlReceiveData h b NULL_buf 0 (pipe_in (Control h));
     Some (USBH_BUSY, set_ctl_state CTRL_STATUS_IN_WAIT (stamp_timer h), b)
   }"

definition ctl_status_in_wait :: "host \<Rightarrow> bus \<Rightarrow> call" where
  "ctl_status_in_wait h b = do {
     u \<leftarrow> USBH_LL_GetURBState h b (pipe_in (Control h));
     Some (if u = USBH_URB_DONE then (USBH_OK, set_ctl_state CTRL_COMPLETE h, ctl_event b)
           else if u = USBH_URB_ERROR then (USBH_BUSY, set_ctl_state CTRL_ERROR h, ctl_event b)
           else if u = USBH_URB_STALL then (USBH_NOT_SUPPORTED, h, ctl_event b)
           else (USBH_BUSY, h, b))
   }"

definition ctl_status_out :: "host \<Rightarrow> bus \<Rightarrow> call" where
  "ctl_status_out h b = do {
     (_, b) \<leftarrow> USBH_CtlSendData h b NULL_buf 0 (pipe_out (Control h)) 1;
     Some (USBH_BUSY, set_ctl_state CTRL_STATUS_OUT_WAIT (stamp_timer h), b)
   }"

definition ctl_status_out_wait :: "host \<Rightarrow> bus \<Rightarrow> call" where
  "ctl_status_out_wait h b = do {
     u \<leftarrow> USBH_LL_GetURBState h b (pipe_out (Control h));
     Some (if u = USBH_URB_DONE then (USBH_OK, set_ctl_state CTRL_COMPLETE h, ctl_event b)
           else if u = USBH_URB_NOTREADY
           then (USBH_BUSY, set_ctl_state CTRL_STATUS_OUT h, ctl_event b)
           else if u = USBH_URB_ERROR then (USBH_BUSY, set_ctl_state CTRL_ERROR h, ctl_event b)
           else (USBH_BUSY, h, b))
   }"

definition ctl_error :: "host \<Rightarrow> bus \<Rightarrow> call" where
  "ctl_error h b = do {
     let n = errorcount (Control h) + 1;
     let h = upd_ctl (\<lambda>c. c\<lparr>errorcount := n\<rparr>) h;
     (if n \<le> USBH_MAX_ERROR_COUNT then do {
        (_, b) \<leftarrow> USBH_LL_Stop h b;
        Some (USBH_BUSY, (set_ctl_state CTRL_SETUP h)\<lparr>RequestState := CMD_SEND\<rparr>, b)
      }
      else if pUser h then Some (USBH_FAIL, upd_ctl (\<lambda>c. c\<lparr>errorcount := 0\<rparr>) h, b)
      else None)
   }"

definition USBH_HandleControl :: "host \<Rightarrow> bus \<Rightarrow> call" where
  "USBH_HandleControl h b =
     (case ctl_state (Control h) of
        CTRL_SETUP \<Rightarrow> ctl_setup h b
      | CTRL_SETUP_WAIT \<Rightarrow> ctl_setup_wait h b
      | CTRL_DATA_IN \<Rightarrow> ctl_data_in h b
      | CTRL_DATA_IN_WAIT \<Rightarrow> ctl_data_in_wait h b
      | CTRL_DATA_OUT \<Rightarrow> ctl_data_out h b
      | CTRL_DATA_OUT_WAIT \<Rightarrow> ctl_data_out_wait h b
      | CTRL_STATUS_IN \<Rightarrow> ctl_status_in h b
      | CTRL_STATUS_IN_WAIT \<Rightarrow> ctl_status_in_wait h b
      | CTRL_STATUS_OUT \<Rightarrow> ctl_status_out h b
      | CTRL_STATUS_OUT_WAIT \<Rightarrow> ctl_status_out_wait h b
      | CTRL_ERROR \<Rightarrow> ctl_error h b
      | _ \<Rightarrow> Some (USBH_BUSY, h, b))"

definition pipe_closed :: "bus \<Rightarrow> u8 \<Rightarrow> bool option" where
  "pipe_closed b p = map_option (\<lambda>v. v AND 0x8000 = 0) (rd (Pipes b) (unat p))"

definition USBH_CtlReq :: "host \<Rightarrow> bus \<Rightarrow> buf_ptr \<Rightarrow> u16 \<Rightarrow> call" where
  "USBH_CtlReq h b buf len = do {
     ci \<leftarrow> pipe_closed b (pipe_in (Control h));
     closed \<leftarrow> (if ci then Some True else pipe_closed b (pipe_out (Control h)));
     (if closed then Some (USBH_FAIL, h\<lparr>RequestState := CMD_SEND\<rparr>, b)
      else (case RequestState h of
        CMD_SEND \<Rightarrow>
          Some (USBH_BUSY,
            (upd_ctl (\<lambda>c. c\<lparr>buff := buf, ctl_length := len, ctl_state := CTRL_SETUP\<rparr>) h)
              \<lparr>RequestState := CMD_WAIT\<rparr>, ctl_event b)
      | CMD_WAIT \<Rightarrow> do {
          (status, h, b) \<leftarrow> USBH_HandleControl h b;
          Some (if status = USBH_OK
                then (USBH_OK, set_ctl_state CTRL_IDLE (h\<lparr>RequestState := CMD_SEND\<rparr>), b)
                else if status = USBH_FAIL then (USBH_FAIL, h\<lparr>RequestState := CMD_SEND\<rparr>, b)
                else (status, h, b))
        }
      | CMD_IDLE \<Rightarrow> Some (USBH_BUSY, h, b)))
   }"

subsection \<open>Standard requests\<close>

definition set_setup :: "u8 \<Rightarrow> u8 \<Rightarrow> u16 \<Rightarrow> u16 \<Rightarrow> u16 \<Rightarrow> host \<Rightarrow> host" where
  "set_setup rt rq v i l h = upd_ctl (\<lambda>c. c\<lparr>setup_pkt :=
     \<lparr>bmRequestType = rt, bRequest = rq, wValue = v, wIndex = i, wLength = l\<rparr>\<rparr>) h"

definition USBH_GetDescriptor ::
  "host \<Rightarrow> bus \<Rightarrow> u8 \<Rightarrow> u16 \<Rightarrow> buf_ptr \<Rightarrow> u16 \<Rightarrow> call" where
  "USBH_GetDescriptor h b req_type value_idx buf len =
     (let h = (if RequestState h = CMD_SEND
               then set_setup (USB_D2H OR req_type) USB_REQ_GET_DESCRIPTOR value_idx
                      (if value_idx AND 0xff00 = USB_DESC_STRING then 0x0409 else 0) len h
               else h)
      in USBH_CtlReq h b buf len)"

definition USBH_SetAddress :: "host \<Rightarrow> bus \<Rightarrow> u8 \<Rightarrow> call" where
  "USBH_SetAddress h b DeviceAddress =
     (let h = (if RequestState h = CMD_SEND
               then set_setup (USB_H2D OR USB_REQ_RECIPIENT_DEVICE OR USB_REQ_TYPE_STANDARD)
                      USB_REQ_SET_ADDRESS (ucast DeviceAddress) 0 0 h
               else h)
      in USBH_CtlReq h b NULL_buf 0)"

definition USBH_SetCfg :: "host \<Rightarrow> bus \<Rightarrow> u16 \<Rightarrow> call" where
  "USBH_SetCfg h b cfg_idx =
     (let h = (if RequestState h = CMD_SEND
               then set_setup (USB_H2D OR USB_REQ_RECIPIENT_DEVICE OR USB_REQ_TYPE_STANDARD)
                      USB_REQ_SET_CONFIGURATION cfg_idx 0 0 h
               else h)
      in USBH_CtlReq h b NULL_buf 0)"

definition USBH_SetInterface :: "host \<Rightarrow> bus \<Rightarrow> u8 \<Rightarrow> u8 \<Rightarrow> call" where
  "USBH_SetInterface h b ep altSetting =
     (let h = (if RequestState h = CMD_SEND
               then set_setup (USB_H2D OR USB_REQ_RECIPIENT_INTERFACE OR USB_REQ_TYPE_STANDARD)
                      USB_REQ_SET_INTERFACE (ucast altSetting) (ucast ep) 0 h
               else h)
      in USBH_CtlReq h b NULL_buf 0)"

definition USBH_ClrFeature :: "host \<Rightarrow> bus \<Rightarrow> u8 \<Rightarrow> call" where
  "USBH_ClrFeature h b ep =
     (let h = (if RequestState h = CMD_SEND
               then set_setup (USB_H2D OR USB_REQ_RECIPIENT_ENDPOINT OR USB_REQ_TYPE_STANDARD)
                      USB_REQ_CLEAR_FEATURE FEATURE_SELECTOR_ENDPOINT (ucast ep) 0 h
               else h)
      in USBH_CtlReq h b NULL_buf 0)"

definition USBH_Get_DevDesc :: "host \<Rightarrow> bus \<Rightarrow> u8 \<Rightarrow> call" where
  "USBH_Get_DevDesc h b len = do {
     (status, h, b) \<leftarrow> USBH_GetDescriptor h b (USB_REQ_RECIPIENT_DEVICE OR USB_REQ_TYPE_STANDARD)
                         USB_DESC_DEVICE (Data_of (self h)) (ucast len);
     (if status = USBH_OK then do {
        d \<leftarrow> USBH_ParseDevDesc (DevDesc (device h)) (Data (device h)) (ucast len);
        Some (status, upd_dev (\<lambda>dv. dv\<lparr>DevDesc := d\<rparr>) h, b)
      } else Some (status, h, b))
   }"

definition USBH_Get_CfgDesc :: "host \<Rightarrow> bus \<Rightarrow> u16 \<Rightarrow> call" where
  "USBH_Get_CfgDesc h b len = do {
     (status, h, b) \<leftarrow> USBH_GetDescriptor h b (USB_REQ_RECIPIENT_DEVICE OR USB_REQ_TYPE_STANDARD)
                         USB_DESC_CONFIGURATION (Data_of (self h)) len;
     (if status = USBH_OK then do {
        c \<leftarrow> USBH_ParseCfgDesc (CfgDesc (device h)) (Data (device h)) len;
        Some (status, upd_dev (\<lambda>dv. dv\<lparr>CfgDesc := c\<rparr>) h, b)
      } else Some (status, h, b))
   }"

text \<open>Every caller passes \<^verbatim>\<open>phost->device.Data\<close> as the destination too.\<close>

definition USBH_Get_StringDesc :: "host \<Rightarrow> bus \<Rightarrow> u8 \<Rightarrow> u16 \<Rightarrow> call" where
  "USBH_Get_StringDesc h b string_index len = do {
     (status, h, b) \<leftarrow> USBH_GetDescriptor h b (USB_REQ_RECIPIENT_DEVICE OR USB_REQ_TYPE_STANDARD)
                         (USB_DESC_STRING OR ucast string_index) (Data_of (self h)) len;
     (if status = USBH_OK then do {
        d \<leftarrow> USBH_ParseStringDesc (Data (device h)) len;
        Some (status, upd_dev (\<lambda>dv. dv\<lparr>Data := d\<rparr>) h, b)
      } else Some (status, h, b))
   }"

subsection \<open>What a poll may change\<close>

lemmas ctl_case_defs = ctl_setup_def ctl_setup_wait_def ctl_data_in_def ctl_data_in_wait_def
  ctl_data_out_def ctl_data_out_wait_def ctl_status_in_def ctl_status_in_wait_def
  ctl_status_out_def ctl_status_out_wait_def ctl_error_def

lemmas ctl_upd_defs = ctl_event_def stamp_timer_def upd_ctl_def set_ctl_state_def

definition erase_ctl :: "host \<Rightarrow> host" where
  "erase_ctl h = h\<lparr>Control := zero_ctrl, RequestState := CMD_IDLE\<rparr>"

definition ctl_frame :: "host \<Rightarrow> host \<Rightarrow> bool" where
  "ctl_frame h h' \<longleftrightarrow> erase_ctl h' = erase_ctl h \<and>
     pipe_in (Control h') = pipe_in (Control h) \<and> pipe_out (Control h') = pipe_out (Control h) \<and>
     pipe_size (Control h') = pipe_size (Control h) \<and> setup_pkt (Control h') = setup_pkt (Control h)"

definition bus_frame :: "bus \<Rightarrow> bus \<Rightarrow> bool" where
  "bus_frame b b' \<longleftrightarrow> Pipes b' = Pipes b \<and> addresses b' = addresses b \<and> addr_hdr b' = addr_hdr b \<and>
     length (hc b') = length (hc b) \<and> port_speed b' = port_speed b \<and> msc_ptr b' = msc_ptr b \<and>
     msc_mem b' = msc_mem b \<and> msc_heap b' = msc_heap b \<and> (\<exists>t. trace b' = trace b @ t)"

lemma ctl_frame_refl [simp]: "ctl_frame h h"
  by (simp add: ctl_frame_def)

lemma ctl_frame_trans: "ctl_frame h h1 \<Longrightarrow> ctl_frame h1 h2 \<Longrightarrow> ctl_frame h h2"
  by (simp add: ctl_frame_def)

lemma ctl_frame_upd [simp]:
  "ctl_frame h (set_ctl_state s h') = ctl_frame h h'" "ctl_frame h (h'\<lparr>RequestState := r\<rparr>) = ctl_frame h h'"
  "ctl_frame h (upd_ctl (\<lambda>c. c\<lparr>errorcount := n\<rparr>) h') = ctl_frame h h'" "ctl_frame h (stamp_timer h') = ctl_frame h h'"
  "ctl_frame h (upd_ctl (\<lambda>c. c\<lparr>buff := p, ctl_length := l, ctl_state := s\<rparr>) h') = ctl_frame h h'"
  by (simp_all add: ctl_frame_def erase_ctl_def ctl_upd_defs)

lemma ctl_frame_fields:
  assumes "ctl_frame h h'"
  shows "self h' = self h" "gState h' = gState h" "EnumState h' = EnumState h" "device h' = device h"
    "pClass h' = pClass h" "pActiveClass h' = pActiveClass h" "ClassNumber h' = ClassNumber h"
    "Timer h' = Timer h" "pData h' = pData h" "pUser h' = pUser h" "pClassData h' = pClassData h"
    "app_class h' = app_class h" "app_data h' = app_data h" "is_child h' = is_child h"
    "parent h' = parent h" "children h' = children h" "last_ctrl_status h' = last_ctrl_status h"
proof -
  have e: "erase_ctl h' = erase_ctl h" using assms by (simp add: ctl_frame_def)
  from e [THEN arg_cong, of self] e [THEN arg_cong, of gState] e [THEN arg_cong, of EnumState]
    e [THEN arg_cong, of device] e [THEN arg_cong, of pClass] e [THEN arg_cong, of pActiveClass]
    e [THEN arg_cong, of ClassNumber] e [THEN arg_cong, of Timer] e [THEN arg_cong, of pData]
    e [THEN arg_cong, of pUser] e [THEN arg_cong, of pClassData] e [THEN arg_cong, of app_class]
    e [THEN arg_cong, of app_data] e [THEN arg_cong, of is_child] e [THEN arg_cong, of parent]
    e [THEN arg_cong, of children] e [THEN arg_cong, of last_ctrl_status]
  show "self h' = self h" "gState h' = gState h" "EnumState h' = EnumState h" "device h' = device h"
    "pClass h' = pClass h" "pActiveClass h' = pActiveClass h" "ClassNumber h' = ClassNumber h"
    "Timer h' = Timer h" "pData h' = pData h" "pUser h' = pUser h" "pClassData h' = pClassData h"
    "app_class h' = app_class h" "app_data h' = app_data h" "is_child h' = is_child h"
    "parent h' = parent h" "children h' = children h" "last_ctrl_status h' = last_ctrl_status h"
    by (simp_all add: erase_ctl_def)
qed

lemma bus_frame_refl: "bus_frame b b"
  by (simp add: bus_frame_def)

lemma bus_frame_trans: "bus_frame b b1 \<Longrightarrow> bus_frame b1 b2 \<Longrightarrow> bus_frame b b2"
  by (auto simp: bus_frame_def)

lemma bus_frame_simps [simp]:
  "bus_frame b (ctl_event b)" "bus_frame b (hw x b)" "bus_frame b b"
  "bus_frame b (submitted ch d t k p len ping b)"
  by (simp_all add: bus_frame_def ctl_event_def)

lemma HandleControl_frame:
  assumes "USBH_HandleControl h b = Some (s, h', b')"
  shows "ctl_frame h h'" "bus_frame b b'"
  using assms
  by (auto simp: USBH_HandleControl_def ctl_case_defs
      bind_eq_Some_conv request_iff GetURBState_eq_Some_iff Stop_eq_Some_iff Let_def
      split: CTRL_StateTypeDef.splits if_splits)

lemma CtlReq_cases [consumes 1, case_names closed send wait idle]:
  assumes "USBH_CtlReq h b buf len = Some (s, h', b')"
  obtains "s = USBH_FAIL" "h' = h\<lparr>RequestState := CMD_SEND\<rparr>" "b' = b"
  | "RequestState h = CMD_SEND" "s = USBH_BUSY" "b' = ctl_event b"
    "h' = (upd_ctl (\<lambda>c. c\<lparr>buff := buf, ctl_length := len, ctl_state := CTRL_SETUP\<rparr>) h)
       \<lparr>RequestState := CMD_WAIT\<rparr>"
  | h1 where "RequestState h = CMD_WAIT" "USBH_HandleControl h b = Some (s, h1, b')"
    "h' = (if s = USBH_OK then set_ctl_state CTRL_IDLE (h1\<lparr>RequestState := CMD_SEND\<rparr>)
           else if s = USBH_FAIL then h1\<lparr>RequestState := CMD_SEND\<rparr> else h1)"
  | "RequestState h = CMD_IDLE" "s = USBH_BUSY" "h' = h" "b' = b"
proof -
  from assms obtain closed where
    *: "(if closed then Some (USBH_FAIL, h\<lparr>RequestState := CMD_SEND\<rparr>, b)
      else (case RequestState h of
        CMD_SEND \<Rightarrow>
          Some (USBH_BUSY,
            (upd_ctl (\<lambda>c. c\<lparr>buff := buf, ctl_length := len, ctl_state := CTRL_SETUP\<rparr>) h)
              \<lparr>RequestState := CMD_WAIT\<rparr>, ctl_event b)
      | CMD_WAIT \<Rightarrow> do {
          (status, h, b) \<leftarrow> USBH_HandleControl h b;
          Some (if status = USBH_OK
                then (USBH_OK, set_ctl_state CTRL_IDLE (h\<lparr>RequestState := CMD_SEND\<rparr>), b)
                else if status = USBH_FAIL then (USBH_FAIL, h\<lparr>RequestState := CMD_SEND\<rparr>, b)
                else (status, h, b))
        }
      | CMD_IDLE \<Rightarrow> Some (USBH_BUSY, h, b))) = Some (s, h', b')"
    unfolding USBH_CtlReq_def by (auto simp: bind_eq_Some_conv)
  show thesis
  proof (cases closed)
    case True
    with * that(1) show thesis by simp
  next
    case False
    show thesis
    proof (cases "RequestState h")
      case CMD_IDLE
      with * False show thesis by (intro that(4)) simp_all
    next
      case CMD_SEND
      with * False show thesis by (intro that(2)) simp_all
    next
      case CMD_WAIT
      with * False obtain s1 h1 b1 where r: "USBH_HandleControl h b = Some (s1, h1, b1)"
        by (auto simp: bind_eq_Some_conv)
      with * False CMD_WAIT show thesis
        by (intro that(3) [of h1]) (simp_all split: if_splits)
    qed
  qed
qed

lemma CtlReq_frame:
  assumes "USBH_CtlReq h b buf len = Some (s, h', b')"
  shows "ctl_frame h h'" "bus_frame b b'"
  using assms by (cases rule: CtlReq_cases; use HandleControl_frame in force)+

subsection \<open>No fault\<close>

definition ctl_ok :: "host \<Rightarrow> bus \<Rightarrow> bool" where
  "ctl_ok h b \<longleftrightarrow> pipes_ok b \<and> length (hc b) = HCD_NBR_HC \<and>
     unat (pipe_in (Control h)) < USBH_MAX_PIPES_NBR \<and>
     unat (pipe_out (Control h)) < USBH_MAX_PIPES_NBR \<and> pData h \<and> pUser h"

lemma ctl_ok_frame: "ctl_ok h b \<Longrightarrow> ctl_frame h h' \<Longrightarrow> bus_frame b b' \<Longrightarrow> ctl_ok h' b'"
  using ctl_frame_fields [of h h'] by (simp add: ctl_ok_def ctl_frame_def bus_frame_def pipes_ok_def)

lemma HandleControl_total:
  assumes "ctl_ok h b"
  shows "\<exists>s h' b'. USBH_HandleControl h b = Some (s, h', b')"
  using assms
  by (cases "ctl_state (Control h)")
    (simp_all add: USBH_HandleControl_def ctl_case_defs ctl_ok_def mem_simps Let_def stamp_timer_def
      upd_ctl_def USBH_LL_Stop_def)

lemma CtlReq_total:
  assumes "ctl_ok h b"
  shows "\<exists>s h' b'. USBH_CtlReq h b buf len = Some (s, h', b')"
proof -
  have p: "pipe_closed b (pipe_in (Control h)) \<noteq> None" "pipe_closed b (pipe_out (Control h)) \<noteq> None"
    using assms by (simp_all add: pipe_closed_def ctl_ok_def pipes_ok_def mem_simps)
  from HandleControl_total [OF assms] obtain s h' b' where "USBH_HandleControl h b = Some (s, h', b')"
    by blast
  with p show ?thesis by (cases "RequestState h") (auto simp: USBH_CtlReq_def)
qed

subsection \<open>A whole transfer\<close>

definition pipes_open :: "host \<Rightarrow> bus \<Rightarrow> bool" where
  "pipes_open h b \<longleftrightarrow> ctl_ok h b \<and> Pipes b ! unat (pipe_in (Control h)) AND 0x8000 \<noteq> 0 \<and>
     Pipes b ! unat (pipe_out (Control h)) AND 0x8000 \<noteq> 0"

lemma CtlReq_open:
  assumes "pipes_open h b"
  shows "USBH_CtlReq h b buf len = (case RequestState h of
        CMD_SEND \<Rightarrow>
          Some (USBH_BUSY,
            (upd_ctl (\<lambda>c. c\<lparr>buff := buf, ctl_length := len, ctl_state := CTRL_SETUP\<rparr>) h)
              \<lparr>RequestState := CMD_WAIT\<rparr>, ctl_event b)
      | CMD_WAIT \<Rightarrow> do {
          (status, h, b) \<leftarrow> USBH_HandleControl h b;
          Some (if status = USBH_OK
                then (USBH_OK, set_ctl_state CTRL_IDLE (h\<lparr>RequestState := CMD_SEND\<rparr>), b)
                else if status = USBH_FAIL then (USBH_FAIL, h\<lparr>RequestState := CMD_SEND\<rparr>, b)
                else (status, h, b))
        }
      | CMD_IDLE \<Rightarrow> Some (USBH_BUSY, h, b))"
  using assms
  by (simp add: USBH_CtlReq_def pipe_closed_def pipes_open_def ctl_ok_def pipes_ok_def mem_simps)

lemma pipes_open_frame: "pipes_open h b \<Longrightarrow> ctl_frame h h' \<Longrightarrow> bus_frame b b' \<Longrightarrow> pipes_open h' b'"
  using ctl_ok_frame by (auto simp: pipes_open_def bus_frame_def ctl_frame_def)

text \<open>What went out, in order: channel, direction, setup or data, buffer, length.\<close>

fun xfer_view :: "hw_op \<Rightarrow> (u8 \<times> u8 \<times> bool \<times> buf_ptr \<times> u32) option" where
  "xfer_view (HW_HC_StartXfer c) =
     Some (ch_num c, ep_is_in c, data_pid c = HC_PID_SETUP, xfer_buff c, xfer_len c)"
| "xfer_view _ = None"

definition xfers :: "bus \<Rightarrow> (u8 \<times> u8 \<times> bool \<times> buf_ptr \<times> u32) list" where
  "xfers b = List.map_filter xfer_view (trace b)"

text \<open>The stages of a transfer by its setup packet, named by the state that submits them.\<close>

definition stages :: "USB_Setup_TypeDef \<Rightarrow> CTRL_StateTypeDef \<Rightarrow> CTRL_StateTypeDef list" where
  "stages p st = (case st of
     CTRL_SETUP \<Rightarrow> CTRL_SETUP # (case after_setup p of
         CTRL_DATA_IN \<Rightarrow> [CTRL_DATA_IN, CTRL_STATUS_OUT]
       | CTRL_DATA_OUT \<Rightarrow> [CTRL_DATA_OUT, CTRL_STATUS_IN]
       | s \<Rightarrow> [s])
   | CTRL_DATA_IN \<Rightarrow> [CTRL_DATA_IN, CTRL_STATUS_OUT]
   | CTRL_DATA_OUT \<Rightarrow> [CTRL_DATA_OUT, CTRL_STATUS_IN]
   | s \<Rightarrow> [s])"

fun wait_of :: "CTRL_StateTypeDef \<Rightarrow> CTRL_StateTypeDef" where
  "wait_of CTRL_SETUP = CTRL_SETUP_WAIT"
| "wait_of CTRL_DATA_IN = CTRL_DATA_IN_WAIT"
| "wait_of CTRL_DATA_OUT = CTRL_DATA_OUT_WAIT"
| "wait_of CTRL_STATUS_IN = CTRL_STATUS_IN_WAIT"
| "wait_of CTRL_STATUS_OUT = CTRL_STATUS_OUT_WAIT"
| "wait_of s = s"

definition submit_states :: "CTRL_StateTypeDef list" where
  "submit_states = [CTRL_SETUP, CTRL_DATA_IN, CTRL_DATA_OUT, CTRL_STATUS_IN, CTRL_STATUS_OUT]"

definition stage_pipe :: "USBH_CtrlTypeDef \<Rightarrow> CTRL_StateTypeDef \<Rightarrow> u8" where
  "stage_pipe c st = (if st = CTRL_DATA_IN \<or> st = CTRL_STATUS_IN then pipe_in c else pipe_out c)"

definition stage_xfer ::
  "host \<Rightarrow> buf_ptr \<Rightarrow> u16 \<Rightarrow> CTRL_StateTypeDef \<Rightarrow> u8 \<times> u8 \<times> bool \<times> buf_ptr \<times> u32" where
  "stage_xfer h buf len st = (stage_pipe (Control h) st,
     (if st = CTRL_DATA_IN \<or> st = CTRL_STATUS_IN then 1 else 0), st = CTRL_SETUP,
     (case st of CTRL_SETUP \<Rightarrow> Setup_of (self h) | CTRL_DATA_IN \<Rightarrow> buf | CTRL_DATA_OUT \<Rightarrow> buf
      | _ \<Rightarrow> NULL_buf),
     (case st of CTRL_SETUP \<Rightarrow> 8 | CTRL_DATA_IN \<Rightarrow> ucast len | CTRL_DATA_OUT \<Rightarrow> ucast len | _ \<Rightarrow> 0))"

text \<open>The controller finishes everything that is outstanding.\<close>

definition ack :: "bus \<Rightarrow> bus" where
  "ack b = b\<lparr>hc := map (\<lambda>c. c\<lparr>urb_state := USBH_URB_DONE\<rparr>) (hc b)\<rparr>"

text \<open>
  The caller's loop: \<open>USBH_CtlReq\<close> again and again until it is not busy. The tape says before which
  polls the controller has finished its work.
\<close>

fun ctl_drive :: "bool list \<Rightarrow> host \<Rightarrow> bus \<Rightarrow> buf_ptr \<Rightarrow> u16 \<Rightarrow> call" where
  "ctl_drive [] h b buf len = Some (USBH_BUSY, h, b)"
| "ctl_drive (a # tape) h b buf len = do {
     (s, h, b) \<leftarrow> USBH_CtlReq h (if a then ack b else b) buf len;
     (if s = USBH_BUSY then ctl_drive tape h b buf len else Some (s, h, b))
   }"

lemma ack_simps [simp]:
  "Pipes (ack b) = Pipes b" "addresses (ack b) = addresses b" "addr_hdr (ack b) = addr_hdr b"
  "trace (ack b) = trace b" "os_event (ack b) = os_event b" "port_speed (ack b) = port_speed b"
  "length (hc (ack b)) = length (hc b)" "msc_ptr (ack b) = msc_ptr b" "msc_mem (ack b) = msc_mem b" "msc_heap (ack b) = msc_heap b"
  "i < length (hc b) \<Longrightarrow> urb_state (hc (ack b) ! i) = USBH_URB_DONE"
  by (simp_all add: ack_def)

lemma ack_frame [simp]: "bus_frame b (ack b)" "xfers (ack b) = xfers b" "xfers (ctl_event b) = xfers b"
  by (simp_all add: bus_frame_def xfers_def ctl_event_def)

lemma stage_pid: "(data_pid (submit_hc ch d EP_TYPE_CTRL t p len ping c) = HC_PID_SETUP) = (t = 0)"
  by (simp add: submit_hc_def submit_toggle_def Let_def pid_of_toggle_def)

lemma submit_ch_num: "ch_num (submit_hc ch d EP_TYPE_CTRL t p len ping c) = ch"
  by (simp add: submit_hc_def Let_def)

lemma map_filter_append: "List.map_filter f (xs @ ys) = List.map_filter f xs @ List.map_filter f ys"
  by (induction xs) (simp_all add: List.map_filter_simps split: option.split)

lemma xfers_submitted:
  "xfers (submitted ch d EP_TYPE_CTRL t p len ping b) = xfers b @ [(ch, d, t = 0, p, ucast len)]"
  by (simp add: xfers_def map_filter_append List.map_filter_simps stage_pid submit_ch_num)

lemma submit_step:
  assumes "pipes_open h b" "RequestState h = CMD_WAIT" "ctl_state (Control h) \<in> set submit_states"
  shows "\<exists>h' b'. USBH_CtlReq h b buf0 len0 = Some (USBH_BUSY, h', b') \<and> RequestState h' = CMD_WAIT \<and>
    ctl_state (Control h') = wait_of (ctl_state (Control h)) \<and>
    buff (Control h') = buff (Control h) \<and> ctl_length (Control h') = ctl_length (Control h) \<and>
    xfers b' = xfers b @ [stage_xfer h (buff (Control h)) (ctl_length (Control h)) (ctl_state (Control h))] \<and>
    urb_state (hc b' ! unat (stage_pipe (Control h) (ctl_state (Control h)))) = USBH_URB_IDLE"
  using assms
  by (cases "ctl_state (Control h)")
    (simp_all add: CtlReq_open submit_states_def USBH_HandleControl_def ctl_case_defs pipes_open_def
      ctl_ok_def mem_simps stamp_timer_def upd_ctl_def xfers_submitted stage_xfer_def stage_pipe_def
      Let_def)

lemma stutter_step:
  assumes "pipes_open h b" "RequestState h = CMD_WAIT" "st \<in> set submit_states"
    "ctl_state (Control h) = wait_of st"
    "urb_state (hc b ! unat (stage_pipe (Control h) st)) = USBH_URB_IDLE"
  shows "USBH_CtlReq h b buf0 len0 = Some (USBH_BUSY, h, b)"
  using assms
  by (cases st) (simp_all add: CtlReq_open submit_states_def USBH_HandleControl_def ctl_case_defs
      pipes_open_def ctl_ok_def mem_simps stage_pipe_def)

text \<open>A finished stage leads to the next one, or the transfer is over.\<close>

lemma finish_step:
  assumes "pipes_open h b" "RequestState h = CMD_WAIT" "st \<in> set submit_states"
    "ctl_state (Control h) = wait_of st"
    "urb_state (hc b ! unat (stage_pipe (Control h) st)) = USBH_URB_DONE"
  shows "USBH_CtlReq h b buf0 len0 = (case tl (stages (setup_pkt (Control h)) st) of
     [] \<Rightarrow> Some (USBH_OK, set_ctl_state CTRL_IDLE ((set_ctl_state CTRL_COMPLETE h)\<lparr>RequestState := CMD_SEND\<rparr>), ctl_event b)
   | st' # _ \<Rightarrow> Some (USBH_BUSY, set_ctl_state st' h, ctl_event b))"
  using assms
  by (cases st) (simp_all add: CtlReq_open submit_states_def USBH_HandleControl_def ctl_case_defs
      pipes_open_def ctl_ok_def mem_simps stage_pipe_def stages_def after_setup_def Let_def)

lemma stages_tl:
  "st \<in> set submit_states \<Longrightarrow> tl (stages p st) = st' # sts \<Longrightarrow>
     st' \<in> set submit_states \<and> stages p st' = st' # sts"
  by (auto simp: submit_states_def stages_def after_setup_def Let_def split: if_splits)

lemma stages_hd: "st \<in> set submit_states \<Longrightarrow> stages p st = st # tl (stages p st)"
  by (auto simp: submit_states_def stages_def)

lemma length_stages: "length (stages p CTRL_SETUP) \<le> 3"
  by (simp add: stages_def after_setup_def Let_def)

text \<open>In the middle of a transfer whose remaining traffic is \<open>todo\<close>.\<close>

definition in_stage :: "host \<Rightarrow> buf_ptr \<Rightarrow> u16 \<Rightarrow> CTRL_StateTypeDef \<Rightarrow> bool \<Rightarrow> host \<Rightarrow> bus \<Rightarrow> bool" where
  "in_stage h0 buf len st waiting h b \<longleftrightarrow> pipes_open h b \<and> ctl_frame h0 h \<and> RequestState h = CMD_WAIT \<and>
     st \<in> set submit_states \<and> buff (Control h) = buf \<and> ctl_length (Control h) = len \<and>
     ctl_state (Control h) = (if waiting then wait_of st else st) \<and>
     (waiting \<longrightarrow> urb_state (hc b ! unat (stage_pipe (Control h) st)) = USBH_URB_IDLE)"

definition todo :: "host \<Rightarrow> buf_ptr \<Rightarrow> u16 \<Rightarrow> CTRL_StateTypeDef \<Rightarrow> bool \<Rightarrow> (u8 \<times> u8 \<times> bool \<times> buf_ptr \<times> u32) list"
  where "todo h buf len st waiting = map (stage_xfer h buf len)
     ((if waiting then tl else id) (stages (setup_pkt (Control h)) st))"

definition steps_left :: "host \<Rightarrow> CTRL_StateTypeDef \<Rightarrow> bool \<Rightarrow> nat" where
  "steps_left h st waiting =
     2 * length (stages (setup_pkt (Control h)) st) - (if waiting then 1 else 0)"

lemma stage_xfer_frame: "ctl_frame h0 h \<Longrightarrow> stage_xfer h buf len st = stage_xfer h0 buf len st"
  using ctl_frame_fields(1) [of h0 h]
  by (cases st) (simp_all add: stage_xfer_def stage_pipe_def ctl_frame_def)

lemma steps_left_pos: "st \<in> set submit_states \<Longrightarrow> 0 < steps_left h st w"
  by (auto simp: steps_left_def submit_states_def stages_def)

lemma drive_stage:
  "in_stage h0 buf len st w h b \<Longrightarrow> steps_left h0 st w \<le> count_list tape True \<Longrightarrow>
   \<exists>h' b'. ctl_drive tape h b buf len = Some (USBH_OK, h', b') \<and> ctl_frame h0 h' \<and>
     RequestState h' = CMD_SEND \<and> ctl_state (Control h') = CTRL_IDLE \<and>
     xfers b' = xfers b @ todo h0 buf len st w"
proof (induction tape arbitrary: st w h b)
  case Nil
  then have "st \<in> set submit_states" by (simp add: in_stage_def)
  from steps_left_pos [OF this, of h0 w] Nil.prems(2) show ?case by simp
next
  case (Cons a tape)
  let ?b = "if a then ack b else b"
  have po: "pipes_open h ?b" and fr: "ctl_frame h0 h" and rs: "RequestState h = CMD_WAIT"
    and st: "st \<in> set submit_states" 
    using Cons.prems(1) pipes_open_frame [of h b h "ack b"] by (auto simp: in_stage_def)
  have x: "xfers ?b = xfers b" by simp
  show ?case
  proof (cases w)
    case False
    with Cons.prems(1) have cs: "ctl_state (Control h) = st" "buff (Control h) = buf" "ctl_length (Control h) = len"
      by (auto simp: in_stage_def)
    from submit_step [OF po rs, of buf len] st cs obtain h1 b1
      where r: "USBH_CtlReq h ?b buf len = Some (USBH_BUSY, h1, b1)"
      and p: "RequestState h1 = CMD_WAIT" "ctl_state (Control h1) = wait_of st" "buff (Control h1) = buf"
        "ctl_length (Control h1) = len" "xfers b1 = xfers b @ [stage_xfer h buf len st]"
        "urb_state (hc b1 ! unat (stage_pipe (Control h) st)) = USBH_URB_IDLE"
      using x by auto
    note f = CtlReq_frame [OF r]
    have "stage_pipe (Control h1) st = stage_pipe (Control h) st"
      using f(1) by (simp add: stage_pipe_def ctl_frame_def)
    then have "in_stage h0 buf len st True h1 b1"
      using p st pipes_open_frame [OF po f] ctl_frame_trans [OF fr f(1)]
      by (simp add: in_stage_def)
    moreover have "steps_left h0 st True \<le> count_list tape True"
      using Cons.prems(2) False by (auto simp: steps_left_def split: if_splits)
    moreover have "todo h0 buf len st w = stage_xfer h0 buf len st # todo h0 buf len st True"
      using False stages_hd [OF st] by (simp add: todo_def) (metis list.simps(9))
    ultimately show ?thesis
      using Cons.IH [of st True h1 b1] r p stage_xfer_frame [OF fr] by auto
  next
    case True
    with Cons.prems(1) have cs: "ctl_state (Control h) = wait_of st" 
      and idle: "urb_state (hc b ! unat (stage_pipe (Control h) st)) = USBH_URB_IDLE"
      by (auto simp: in_stage_def)
    show ?thesis
    proof (cases a)
      case False
      with stutter_step [OF _ rs st cs idle] po Cons True show ?thesis by auto
    next
      case True
      have "urb_state (hc ?b ! unat (stage_pipe (Control h) st)) = USBH_URB_DONE"
        using po True by (auto simp: pipes_open_def ctl_ok_def stage_pipe_def)
      note fin = finish_step [OF po rs st cs this, of buf len]
      have sp: "setup_pkt (Control h) = setup_pkt (Control h0)" using fr by (simp add: ctl_frame_def)
      show ?thesis
      proof (cases "tl (stages (setup_pkt (Control h)) st)")
        case Nil
        with fin True \<open>w\<close> sp fr show ?thesis by (simp add: todo_def)
      next
        case (Cons st' sts)
        note s' = stages_tl [OF st Cons]
        have "in_stage h0 buf len st' False (set_ctl_state st' h) (ctl_event ?b)"
          using Cons.prems(1) s' fr rs
            pipes_open_frame [OF po, of "set_ctl_state st' h" "ctl_event ?b"]
          by (simp add: in_stage_def)
        moreover have "steps_left h0 st' False \<le> count_list tape True"
          using Cons.prems(2) \<open>w\<close> \<open>a\<close> stages_hd [OF st, of "setup_pkt (Control h0)"] s' Cons sp
          by (simp add: steps_left_def)
        moreover have "todo h0 buf len st w = todo h0 buf len st' False"
          using \<open>w\<close> Cons s' sp by (simp add: todo_def)
        ultimately show ?thesis
          using Cons.IH [of st' False "set_ctl_state st' h" "ctl_event ?b"] fin Cons x by simp
      qed
    qed
  qed
qed

lemma sample_ctl_ok: "ctl_ok sample_host sample_bus"
  by (simp add: ctl_ok_def pipes_ok_def sample_host_def sample_bus_def zero_bus_def zero_ctrl_def)

lemma sample_open: "pipes_open sample_host sample_bus"
  using sample_ctl_ok by (simp add: pipes_open_def sample_host_def sample_bus_def zero_ctrl_def)

lemma start_stage:
  assumes "pipes_open h b" "RequestState h = CMD_SEND"
  shows "\<exists>h1. USBH_CtlReq h b buf len = Some (USBH_BUSY, h1, ctl_event b) \<and>
     in_stage h buf len CTRL_SETUP False h1 (ctl_event b)"
proof -
  let ?h = "(upd_ctl (\<lambda>c. c\<lparr>buff := buf, ctl_length := len, ctl_state := CTRL_SETUP\<rparr>) h)
       \<lparr>RequestState := CMD_WAIT\<rparr>"
  have "pipes_open ?h (ctl_event b)" by (rule pipes_open_frame [OF assms(1)]) simp_all
  moreover have "ctl_frame h ?h" "buff (Control ?h) = buf" "ctl_length (Control ?h) = len"
    "ctl_state (Control ?h) = CTRL_SETUP" "RequestState ?h = CMD_WAIT"
    by (simp_all add: ctl_frame_def erase_ctl_def upd_ctl_def)
  ultimately have "in_stage h buf len CTRL_SETUP False ?h (ctl_event b)"
    by (simp only: in_stage_def submit_states_def) simp
  then show ?thesis using CtlReq_open [OF assms(1)] assms(2) by simp
qed

text \<open>
  What the USB specification lets a control transfer put on the wire, from the setup packet alone: the
  setup packet; if the request carries data, the data from the device to the host or back, by the top bit
  of \<open>bmRequestType\<close>, with a status packet the other way; else the status packet only.
\<close>

definition ctl_plan :: "host \<Rightarrow> buf_ptr \<Rightarrow> u16 \<Rightarrow> (u8 \<times> u8 \<times> bool \<times> buf_ptr \<times> u32) list" where
  "ctl_plan h buf len =
     (let to_host = bit (bmRequestType (setup_pkt (Control h))) 7;
          recv = (\<lambda>p n. (pipe_in (Control h), 1, False, p, n));
          send = (\<lambda>setup p n. (pipe_out (Control h), 0, setup, p, n))
      in send True (Setup_of (self h)) 8 #
        (if wLength (setup_pkt (Control h)) = 0
         then (if to_host then [send False NULL_buf 0] else [recv NULL_buf 0])
         else (if to_host then [recv buf (ucast len), send False NULL_buf 0]
               else [send False buf (ucast len), recv NULL_buf 0])))"

lemma dir_bit: "(rt AND 0x80 = 0x80) = bit rt 7" for rt :: u8
proof -
  have e: "bit (0x80 :: u8) n \<longleftrightarrow> n = 7" for n
  proof (cases "n < 8")
    case True
    then show ?thesis using bit_exp_iff [of 7 n, where 'a = u8] by simp
  next
    case False
    then show ?thesis using bit_imp_le_length [of "0x80 :: u8" n] by auto
  qed
  show ?thesis
  proof
    assume "rt AND 0x80 = 0x80"
    then have "bit (rt AND 0x80) 7 = bit (0x80 :: u8) 7" by simp
    then show "bit rt 7" unfolding bit_and_iff e by blast
  next
    assume "bit rt 7"
    then show "rt AND 0x80 = 0x80" by (intro bit_eqI) (auto simp only: bit_and_iff e)
  qed
qed

lemma stages_plan:
  "map (stage_xfer h buf len) (stages (setup_pkt (Control h)) CTRL_SETUP) = ctl_plan h buf len"
  by (simp add: stages_def after_setup_def dir_bit ctl_plan_def stage_xfer_def stage_pipe_def Let_def)

text \<open>
  C1: A started request completes: however the controller's answers are spread over the polls, seven
  of them are enough for a transfer of three stages, and what goes out is the setup packet, the data in the
  direction the request asks for, and the status packet, in that order and nothing else.
\<close>

theorem transfer_completes:
  assumes "pipes_open h b" "RequestState h = CMD_SEND" "7 \<le> count_list tape True"
  shows "\<exists>h' b'. ctl_drive tape h b buf len = Some (USBH_OK, h', b') \<and> ctl_frame h h' \<and>
     RequestState h' = CMD_SEND \<and> ctl_state (Control h') = CTRL_IDLE \<and>
     xfers b' = xfers b @ ctl_plan h buf len"
proof -
  from assms(3) obtain a as where t: "tape = a # as" by (cases tape) auto
  let ?b = "if a then ack b else b"
  have "pipes_open h ?b" using assms(1) pipes_open_frame [of h b h "ack b"] by simp
  from start_stage [OF this assms(2)] obtain h1 where r: "USBH_CtlReq h ?b buf len = Some (USBH_BUSY, h1, ctl_event ?b)"
    and st: "in_stage h buf len CTRL_SETUP False h1 (ctl_event ?b)" by blast
  have "steps_left h CTRL_SETUP False \<le> count_list as True"
    using length_stages [of "setup_pkt (Control h)"] assms(3) t
    by (auto simp: steps_left_def split: if_splits)
  with st obtain h' b' where "ctl_drive as h1 (ctl_event ?b) buf len = Some (USBH_OK, h', b')"
    "ctl_frame h h'" "RequestState h' = CMD_SEND" "ctl_state (Control h') = CTRL_IDLE"
    "xfers b' = xfers (ctl_event ?b) @ todo h buf len CTRL_SETUP False"
    using drive_stage by blast
  then show ?thesis using t r by (simp add: todo_def stages_plan)
qed

lemma sample_get_open: "pipes_open (set_setup 0x80 6 0x100 0 18 sample_host) sample_bus"
  using sample_open by (simp add: set_setup_def upd_ctl_def pipes_open_def ctl_ok_def)

lemma sample_get_plan:
  "ctl_plan (set_setup 0x80 6 0x100 0 18 sample_host) (Data_of 0) 18 =
     [(0, 0, True, Setup_of 0, 8), (1, 1, False, Data_of 0, 18), (0, 0, False, NULL_buf, 0)]"
  by (simp add: ctl_plan_def set_setup_def upd_ctl_def sample_host_def zero_host_def zero_ctrl_def Let_def bit_numeral_rec)

lemma transfer_completes_witness:
  "\<exists>h' b'. ctl_drive ([False, True] @ replicate 6 True) (set_setup 0x80 6 0x100 0 18 sample_host) sample_bus (Data_of 0) 18 =
       Some (USBH_OK, h', b') \<and> RequestState h' = CMD_SEND \<and> ctl_state (Control h') = CTRL_IDLE \<and>
     xfers b' = xfers sample_bus @
       [(0, 0, True, Setup_of 0, 8), (1, 1, False, Data_of 0, 18), (0, 0, False, NULL_buf, 0)]"
  using transfer_completes [OF sample_get_open, of "[False, True] @ replicate 6 True" "Data_of 0" 18, unfolded sample_get_plan]
  by (auto simp: sample_host_def set_setup_def upd_ctl_def eval_nat_numeral)

subsection \<open>Errors, stalls and wake-ups\<close>

text \<open>The reachable states of one handle's control transfers, with the interrupts in between.\<close>

definition urb_irq :: "u8 \<Rightarrow> USBH_URBStateTypeDef \<Rightarrow> u32 \<Rightarrow> bus \<Rightarrow> bus" where
  "urb_irq ch u n b =
     b\<lparr>hc := (hc b)[unat ch := (hc b ! unat ch)\<lparr>urb_state := u, xfer_count := n\<rparr>]\<rparr>"

inductive ctl_reach :: "host \<times> bus \<Rightarrow> host \<times> bus \<Rightarrow> bool" where
  start: "ctl_reach s s"
| poll: "ctl_reach s (h, b) \<Longrightarrow> USBH_CtlReq h b buf len = Some (r, h', b') \<Longrightarrow> ctl_reach s (h', b')"
| irq: "ctl_reach s (h, b) \<Longrightarrow> ctl_reach s (h, urb_irq ch u n b)"
| fill: "ctl_reach s (h, b) \<Longrightarrow> ctl_reach s (set_setup rt rq v i l h, b)"

lemma HandleControl_errorcount_same:
  assumes "USBH_HandleControl h b = Some (s, h', b')" "ctl_state (Control h) \<noteq> CTRL_ERROR"
  shows "errorcount (Control h') = errorcount (Control h)"
  using assms
  by (auto simp: USBH_HandleControl_def ctl_case_defs bind_eq_Some_conv Let_def stamp_timer_def
      upd_ctl_def split: CTRL_StateTypeDef.splits if_splits)

lemma HandleControl_errorcount:
  assumes "USBH_HandleControl h b = Some (s, h', b')" "errorcount (Control h) \<le> USBH_MAX_ERROR_COUNT"
  shows "errorcount (Control h') \<le> USBH_MAX_ERROR_COUNT"
proof (cases "ctl_state (Control h) = CTRL_ERROR")
  case True
  with assms(1) have "ctl_error h b = Some (s, h', b')" by (simp add: USBH_HandleControl_def)
  then show ?thesis
    by (cases "errorcount (Control h) + 1 \<le> USBH_MAX_ERROR_COUNT"; cases "pUser h")
      (auto simp: ctl_error_def bind_eq_Some_conv upd_ctl_def Let_def)
next
  case False
  with HandleControl_errorcount_same [OF assms(1)] assms(2) show ?thesis by simp
qed

lemma CtlReq_errorcount:
  assumes "USBH_CtlReq h b buf len = Some (s, h', b')" "errorcount (Control h) \<le> USBH_MAX_ERROR_COUNT"
  shows "errorcount (Control h') \<le> USBH_MAX_ERROR_COUNT"
  using assms(1)
proof (cases rule: CtlReq_cases)
  case (wait h1)
  with HandleControl_errorcount [OF wait(2) assms(2)] show ?thesis by (simp split: if_splits)
qed (use assms(2) in \<open>simp_all add: upd_ctl_def\<close>)

text \<open>
  C2: over any sequence of polls, new requests and channel interrupts a handle whose control
  pipes exist keeps them inside the channel table, and never counts more than two errors.
\<close>

theorem ctl_reach_inv:
  assumes "ctl_reach s t" "ctl_ok (fst s) (snd s)" "errorcount (Control (fst s)) \<le> USBH_MAX_ERROR_COUNT"
  shows "ctl_ok (fst t) (snd t) \<and> errorcount (Control (fst t)) \<le> USBH_MAX_ERROR_COUNT"
  using assms
proof (induction rule: ctl_reach.induct)
  case (poll s h b buf len r h' b')
  then have "ctl_ok h b" "errorcount (Control h) \<le> USBH_MAX_ERROR_COUNT" by simp_all
  with ctl_ok_frame [OF _ CtlReq_frame [OF poll.hyps(2)]] CtlReq_errorcount [OF poll.hyps(2)]
  show ?case by simp
next
  case (irq s h b ch u n)
  then show ?case by (auto simp: ctl_ok_def urb_irq_def pipes_ok_def)
next
  case (fill s h b rt rq v i l)
  then show ?case by (auto simp: ctl_ok_def set_setup_def upd_ctl_def)
qed simp

lemma ctl_reach_inv_witness:
  "ctl_ok (fst (set_setup 0x80 6 0x100 0 18 sample_host, urb_irq 1 USBH_URB_ERROR 0 sample_bus))
     (snd (set_setup 0x80 6 0x100 0 18 sample_host, urb_irq 1 USBH_URB_ERROR 0 sample_bus)) \<and>
   errorcount (Control (fst (set_setup 0x80 6 0x100 0 18 sample_host, urb_irq 1 USBH_URB_ERROR 0 sample_bus)))
     \<le> USBH_MAX_ERROR_COUNT"
proof (rule ctl_reach_inv)
  show "ctl_reach (sample_host, sample_bus)
     (set_setup 0x80 6 0x100 0 18 sample_host, urb_irq 1 USBH_URB_ERROR 0 sample_bus)"
    by (intro ctl_reach.fill ctl_reach.irq ctl_reach.start)
  show "ctl_ok (fst (sample_host, sample_bus)) (snd (sample_host, sample_bus))"
    using sample_ctl_ok by simp
qed (simp add: sample_host_def zero_ctrl_def)

lemma ctl_error_step:
  assumes "pipes_open h b" "RequestState h = CMD_WAIT" "ctl_state (Control h) = CTRL_ERROR"
    "errorcount (Control h) < USBH_MAX_ERROR_COUNT"
  shows "USBH_CtlReq h b buf len = Some (USBH_BUSY,
     (set_ctl_state CTRL_SETUP (upd_ctl (\<lambda>c. c\<lparr>errorcount := errorcount c + 1\<rparr>) h))
       \<lparr>RequestState := CMD_SEND\<rparr>, hw HW_StopHost b)"
proof -
  have "errorcount (Control h) + 1 \<le> USBH_MAX_ERROR_COUNT" using assms(4) by (simp add: inc_le)
  with assms show ?thesis
    by (simp add: CtlReq_open USBH_HandleControl_def ctl_error_def pipes_open_def ctl_ok_def
        USBH_LL_Stop_def HAL_HCD_Stop_def upd_ctl_def)
qed

lemma ctl_give_up:
  assumes "pipes_open h b" "RequestState h = CMD_WAIT" "ctl_state (Control h) = CTRL_ERROR"
    "errorcount (Control h) = USBH_MAX_ERROR_COUNT"
  shows "USBH_CtlReq h b buf len = Some (USBH_FAIL,
     (upd_ctl (\<lambda>c. c\<lparr>errorcount := 0\<rparr>) h)\<lparr>RequestState := CMD_SEND\<rparr>, b)"
  using assms
  by (simp add: CtlReq_open USBH_HandleControl_def ctl_error_def pipes_open_def ctl_ok_def upd_ctl_def)

text \<open>
  In the error state the request is sent again at most twice, each time after the host
  controller was stopped and without an event for the next poll; the third error fails the request
  and clears the count.
\<close>

theorem error_recovery:
  assumes "pipes_open h b" "RequestState h = CMD_WAIT" "ctl_state (Control h) = CTRL_ERROR"
    "errorcount (Control h) \<le> USBH_MAX_ERROR_COUNT"
  shows "\<exists>s h' b'. USBH_CtlReq h b buf len = Some (s, h', b') \<and> RequestState h' = CMD_SEND \<and>
     os_event b' = os_event b \<and>
     (if errorcount (Control h) < USBH_MAX_ERROR_COUNT
      then s = USBH_BUSY \<and> errorcount (Control h') = errorcount (Control h) + 1 \<and> trace b' = trace b @ [HW_StopHost]
      else s = USBH_FAIL \<and> errorcount (Control h') = 0 \<and> trace b' = trace b)"
proof (cases "errorcount (Control h) < USBH_MAX_ERROR_COUNT")
  case True
  from ctl_error_step [OF assms(1-3) True] True show ?thesis by (simp add: upd_ctl_def)
next
  case False
  then have "errorcount (Control h) = USBH_MAX_ERROR_COUNT" using assms(4) by simp
  from ctl_give_up [OF assms(1-3) this] False show ?thesis by (simp add: upd_ctl_def)
qed

definition sample_error :: host where
  "sample_error = (set_ctl_state CTRL_ERROR sample_host)\<lparr>RequestState := CMD_WAIT\<rparr>"

lemma error_recovery_witness:
  "\<exists>s h' b'. USBH_CtlReq sample_error sample_bus NULL_buf 0 = Some (s, h', b') \<and> RequestState h' = CMD_SEND \<and>
     os_event b' = os_event sample_bus \<and>
     (if errorcount (Control sample_error) < USBH_MAX_ERROR_COUNT
      then s = USBH_BUSY \<and> errorcount (Control h') = errorcount (Control sample_error) + 1 \<and>
           trace b' = trace sample_bus @ [HW_StopHost]
      else s = USBH_FAIL \<and> errorcount (Control h') = 0 \<and> trace b' = trace sample_bus)"
proof (rule error_recovery)
  show "pipes_open sample_error sample_bus"
    by (rule pipes_open_frame [OF sample_open]) (simp_all add: sample_error_def)
qed (simp_all add: sample_error_def sample_host_def zero_ctrl_def)

text \<open>A handle that waits for a stage of its request while the pipe of that stage has stalled.\<close>

definition stage_stalled :: "CTRL_StateTypeDef list \<Rightarrow> host \<Rightarrow> bus \<Rightarrow> bool" where
  "stage_stalled sts h b \<longleftrightarrow> pipes_open h b \<and> RequestState h = CMD_WAIT \<and>
     (\<exists>st \<in> set sts. ctl_state (Control h) = wait_of st \<and>
        urb_state (hc b ! unat (stage_pipe (Control h) st)) = USBH_URB_STALL)"

text \<open>A stalled stage of an IN request's data or a no-data request's status is reported on every poll.\<close>

definition stalled :: "host \<Rightarrow> bus \<Rightarrow> bool" where
  "stalled h b \<longleftrightarrow> pipes_open h b \<and> RequestState h = CMD_WAIT \<and>
     ctl_state (Control h) \<in> {CTRL_DATA_IN_WAIT, CTRL_STATUS_IN_WAIT} \<and>
     urb_state (hc b ! unat (pipe_in (Control h))) = USBH_URB_STALL"

fun polls :: "nat \<Rightarrow> host \<Rightarrow> bus \<Rightarrow> buf_ptr \<Rightarrow> u16 \<Rightarrow> USBH_StatusTypeDef list option" where
  "polls 0 h b buf len = Some []"
| "polls (Suc n) h b buf len = do {
     (s, h, b) \<leftarrow> USBH_CtlReq h b buf len;
     ss \<leftarrow> polls n h b buf len;
     Some (s # ss)
   }"

lemma stalled_step:
  assumes "stalled h b"
  shows "USBH_CtlReq h b buf len = Some (USBH_NOT_SUPPORTED, h, ctl_event b) \<and> stalled h (ctl_event b)"
proof -
  have "pipes_open h (ctl_event b)" "ctl_ok h b"
    using assms pipes_open_frame [of h b h "ctl_event b"] by (simp_all add: stalled_def pipes_open_def)
  moreover have "hc (ctl_event b) = hc b" by (simp add: ctl_event_def)
  ultimately show ?thesis using assms
    by (auto simp: stalled_def CtlReq_open USBH_HandleControl_def ctl_case_defs ctl_ok_def mem_simps)
qed

lemma stalled_in_polls: "stalled h b \<Longrightarrow> polls n h b buf len = Some (replicate n USBH_NOT_SUPPORTED)"
proof (induction n arbitrary: b)
  case (Suc n)
  from stalled_step [OF Suc.prems] Suc.IH show ?case by simp
qed simp

text \<open>
  A stalled status stage of an IN request is not noticed at all; a stalled OUT data stage is reported
  once and leaves the machine in \<open>CTRL_STALLED\<close>, where nothing happens any more.
\<close>

lemma status_out_stalled_polls:
  assumes "stage_stalled [CTRL_STATUS_OUT] h b"
  shows "polls n h b buf len = Some (replicate n USBH_BUSY)"
proof -
  have "USBH_CtlReq h b buf len = Some (USBH_BUSY, h, b)"
    using assms
    by (auto simp: stage_stalled_def CtlReq_open USBH_HandleControl_def ctl_case_defs pipes_open_def ctl_ok_def
        mem_simps stage_pipe_def)
  then show ?thesis by (induction n) simp_all
qed

lemma parked_step:
  assumes "pipes_open h b" "RequestState h = CMD_WAIT" "ctl_state (Control h) = CTRL_STALLED"
  shows "USBH_CtlReq h b buf len = Some (USBH_BUSY, h, b)"
  using assms by (simp add: CtlReq_open USBH_HandleControl_def)

lemma data_out_stalled_polls:
  assumes "stage_stalled [CTRL_DATA_OUT] h b"
  shows "polls (Suc n) h b buf len = Some (USBH_NOT_SUPPORTED # replicate n USBH_BUSY)"
proof -
  let ?h = "set_ctl_state CTRL_STALLED h"
  have p: "pipes_open ?h (ctl_event b)" "RequestState ?h = CMD_WAIT" "ctl_state (Control ?h) = CTRL_STALLED"
    using assms pipes_open_frame [of h b ?h "ctl_event b"] by (simp_all add: stage_stalled_def)
  have "USBH_CtlReq h b buf len = Some (USBH_NOT_SUPPORTED, ?h, ctl_event b)"
    using assms
    by (auto simp: stage_stalled_def CtlReq_open USBH_HandleControl_def ctl_case_defs pipes_open_def ctl_ok_def
        mem_simps stage_pipe_def)
  moreover have "polls m ?h (ctl_event b) buf len = Some (replicate m USBH_BUSY)" for m
    using parked_step [OF p] by (induction m) simp_all
  ultimately show ?thesis by simp
qed


definition sample_stalled :: host where
  "sample_stalled = (set_ctl_state CTRL_DATA_IN_WAIT sample_host)\<lparr>RequestState := CMD_WAIT\<rparr>"

definition sample_stalled_out :: host where
  "sample_stalled_out = (set_ctl_state CTRL_DATA_OUT_WAIT sample_host)\<lparr>RequestState := CMD_WAIT\<rparr>"

lemma sample_stalls:
  assumes "st = CTRL_DATA_IN \<and> ch = 1 \<and> h = sample_stalled \<or> st = CTRL_DATA_OUT \<and> ch = 0 \<and> h = sample_stalled_out"
    "st \<in> set sts"
  shows "stage_stalled sts h (urb_irq ch USBH_URB_STALL 0 sample_bus)"
proof -
  have "pipes_open h (urb_irq ch USBH_URB_STALL 0 sample_bus)"
    by (rule pipes_open_frame [OF sample_open])
      (use assms in \<open>auto simp: sample_stalled_def sample_stalled_out_def bus_frame_def urb_irq_def\<close>)
  moreover have "RequestState h = CMD_WAIT" "ctl_state (Control h) = wait_of st"
    "urb_state (hc (urb_irq ch USBH_URB_STALL 0 sample_bus) ! unat (stage_pipe (Control h) st)) = USBH_URB_STALL"
    using assms
    by (auto simp: sample_stalled_def sample_stalled_out_def sample_host_def zero_ctrl_def urb_irq_def sample_bus_def
        zero_bus_def stage_pipe_def)
  ultimately show ?thesis using assms(2) unfolding stage_stalled_def by blast
qed


text \<open>An OUT data stage that stalls parks the machine: busy for ever, whatever the controller does.\<close>

theorem parked_forever:
  assumes "pipes_open h b" "RequestState h = CMD_WAIT" "ctl_state (Control h) = CTRL_STALLED"
  shows "ctl_drive tape h b buf len = Some (USBH_BUSY, h, if True \<in> set tape then ack b else b)"
  using assms
proof (induction tape arbitrary: b)
  case (Cons a tape)
  have aa: "ack (ack b) = ack b" by (simp add: ack_def)
  have po: "pipes_open h (if a then ack b else b)"
    using Cons.prems(1) pipes_open_frame [of h b h "ack b"] by simp
  with Cons aa parked_step [OF po] show ?case by simp
qed simp

definition sample_parked :: host where
  "sample_parked = (set_ctl_state CTRL_STALLED sample_host)\<lparr>RequestState := CMD_WAIT\<rparr>"

lemma parked_forever_witness:
  "ctl_drive [False, True, False] sample_parked sample_bus NULL_buf 0 =
     Some (USBH_BUSY, sample_parked, if True \<in> set [False, True, False] then ack sample_bus else sample_bus)"
proof (rule parked_forever)
  show "pipes_open sample_parked sample_bus"
    by (rule pipes_open_frame [OF sample_open]) (simp_all add: sample_parked_def)
qed (simp_all add: sample_parked_def)

text \<open>A poll that leaves work for the next poll has posted an event.\<close>

primrec needs_poll :: "CTRL_StateTypeDef \<Rightarrow> bool" where
  "needs_poll CTRL_IDLE = False"
| "needs_poll CTRL_SETUP = True"
| "needs_poll CTRL_SETUP_WAIT = False"
| "needs_poll CTRL_DATA_IN = True"
| "needs_poll CTRL_DATA_IN_WAIT = False"
| "needs_poll CTRL_DATA_OUT = True"
| "needs_poll CTRL_DATA_OUT_WAIT = False"
| "needs_poll CTRL_STATUS_IN = True"
| "needs_poll CTRL_STATUS_IN_WAIT = False"
| "needs_poll CTRL_STATUS_OUT = True"
| "needs_poll CTRL_STATUS_OUT_WAIT = False"
| "needs_poll CTRL_ERROR = True"
| "needs_poll CTRL_STALLED = False"
| "needs_poll CTRL_COMPLETE = False"

lemma HandleControl_wakes:
  assumes "USBH_HandleControl h b = Some (USBH_BUSY, h', b')"
    "RequestState h' = CMD_WAIT" "needs_poll (ctl_state (Control h'))"
  shows "os_event b' \<noteq> []"
  using assms unfolding USBH_HandleControl_def
  by (auto simp: ctl_case_defs bind_eq_Some_conv request_iff GetURBState_eq_Some_iff
      Stop_eq_Some_iff Let_def ctl_event_def split: CTRL_StateTypeDef.splits if_splits)

text \<open>
  A poll that stays busy and leaves the machine in a state that needs another poll (not one
  that waits for the controller) has left an event in the queue, so the host thread does not sleep.
\<close>

theorem CtlReq_wakes:
  assumes "USBH_CtlReq h b buf len = Some (USBH_BUSY, h', b')" "RequestState h' = CMD_WAIT"
    "needs_poll (ctl_state (Control h'))" "RequestState h = CMD_SEND \<or> h' \<noteq> h"
  shows "mq_get (os_event b') \<noteq> None"
proof -
  have "os_event b' \<noteq> []"
    using assms(1)
  proof (cases rule: CtlReq_cases)
    case send
    then show ?thesis by (simp add: ctl_event_def)
  next
    case (wait h1)
    with HandleControl_wakes [of h b h' b'] assms(2,3) show ?thesis by simp
  qed (use assms in simp_all)
  then show ?thesis by (simp add: usbh_q.get_items)
qed

lemma CtlReq_wakes_witness:
  "mq_get (os_event (snd (snd (the (USBH_CtlReq sample_host sample_bus (Data_of 0) 18))))) \<noteq> None"
proof -
  have r: "USBH_CtlReq sample_host sample_bus (Data_of 0) 18 = Some (USBH_BUSY,
      (upd_ctl (\<lambda>c. c\<lparr>buff := Data_of 0, ctl_length := 18, ctl_state := CTRL_SETUP\<rparr>) sample_host)
        \<lparr>RequestState := CMD_WAIT\<rparr>, ctl_event sample_bus)"
    by (simp add: CtlReq_open [OF sample_open]) (simp add: sample_host_def)
  have "mq_get (os_event (ctl_event sample_bus)) \<noteq> None"
    by (rule CtlReq_wakes [OF r]) (simp_all add: upd_ctl_def sample_host_def)
  with r show ?thesis by simp
qed

end
