(* ===== verification/World.thy ===== *)
theory World
  imports CtlReq
begin

text \<open>
  The handles together. A \<open>world\<close> holds every live host handle (a freed or not yet allocated one is
  \<open>None\<close>; using it is a fault), the shared state, the answers the allocator is going to give, and a
  clock that counts the points where code of the library spins until an interrupt handler has run.
  What the handlers do at such a point is the component \<open>e_irq\<close> of the environment.

  The environment also holds what the core calls through function pointers: the five operations of
  each class driver's table entry (\<^verbatim>\<open>USBH_ClassTypeDef\<close>) and the user callback \<^verbatim>\<open>pUser\<close>.
\<close>

record world =
  hs :: "hid \<Rightarrow> host option"
  wb :: bus
  mallocs :: "bool list"
  next_hid :: hid
  clock :: nat

type_synonym wcall = "(USBH_StatusTypeDef \<times> world) option"

record usb_env =
  e_Init :: "class_ref \<Rightarrow> hid \<Rightarrow> world \<Rightarrow> wcall"
  e_DeInit :: "class_ref \<Rightarrow> hid \<Rightarrow> world \<Rightarrow> wcall"
  e_Requests :: "class_ref \<Rightarrow> hid \<Rightarrow> world \<Rightarrow> wcall"
  e_BgndProcess :: "class_ref \<Rightarrow> hid \<Rightarrow> world \<Rightarrow> wcall"
  e_SOFProcess :: "class_ref \<Rightarrow> hid \<Rightarrow> world \<Rightarrow> wcall"
  e_user :: "hid \<Rightarrow> u8 \<Rightarrow> world \<Rightarrow> world option"
  e_irq :: "nat \<Rightarrow> world \<Rightarrow> world option"

abbreviation HOST_USER_SELECT_CONFIGURATION :: u8 where "HOST_USER_SELECT_CONFIGURATION \<equiv> 1"
abbreviation HOST_USER_CLASS_ACTIVE :: u8 where "HOST_USER_CLASS_ACTIVE \<equiv> 2"
abbreviation HOST_USER_CLASS_SELECTED :: u8 where "HOST_USER_CLASS_SELECTED \<equiv> 3"
abbreviation HOST_USER_CONNECTION :: u8 where "HOST_USER_CONNECTION \<equiv> 4"
abbreviation HOST_USER_DISCONNECTION :: u8 where "HOST_USER_DISCONNECTION \<equiv> 5"
abbreviation HOST_USER_UNRECOVERED_ERROR :: u8 where "HOST_USER_UNRECOVERED_ERROR \<equiv> 6"

subsection \<open>Access to a handle\<close>

definition put_host :: "hid \<Rightarrow> host \<Rightarrow> world \<Rightarrow> world" where
  "put_host x h w = w\<lparr>hs := (hs w)(x \<mapsto> h)\<rparr>"

text \<open>Running an operation of one handle, and a plain store through its pointer.\<close>

definition on_host :: "hid \<Rightarrow> (host \<Rightarrow> bus \<Rightarrow> call) \<Rightarrow> world \<Rightarrow> wcall" where
  "on_host x f w = do {
     h \<leftarrow> hs w x;
     (s, h, b) \<leftarrow> f h (wb w);
     Some (s, (put_host x h w)\<lparr>wb := b\<rparr>)
   }"

definition mod_host :: "hid \<Rightarrow> (host \<Rightarrow> host) \<Rightarrow> world \<Rightarrow> world option" where
  "mod_host x f w = do {
     h \<leftarrow> hs w x;
     Some (put_host x (f h) w)
   }"

definition mod_bus :: "(bus \<Rightarrow> bus) \<Rightarrow> world \<Rightarrow> world" where
  "mod_bus f w = w\<lparr>wb := f (wb w)\<rparr>"

definition post :: "USBH_OSEventTypeDef \<Rightarrow> world \<Rightarrow> world" where
  "post e = mod_bus (os_put e)"

text \<open>\<^verbatim>\<open>USBH_malloc\<close>: the next answer of the allocator; it succeeds when none is left to give.\<close>

definition take_malloc :: "world \<Rightarrow> bool \<times> world" where
  "take_malloc w = (case mallocs w of [] \<Rightarrow> (True, w) | a # r \<Rightarrow> (a, w\<lparr>mallocs := r\<rparr>))"

text \<open>A handler that faults takes the code that waits for it down with it.\<close>

definition tick :: "usb_env \<Rightarrow> world \<Rightarrow> world option" where
  "tick env w = do {
     w \<leftarrow> e_irq env (clock w) w;
     Some (w\<lparr>clock := Suc (clock w)\<rparr>)
   }"

text \<open>The call through \<^verbatim>\<open>phost->pUser\<close>, a fault when it is null.\<close>

definition call_user :: "usb_env \<Rightarrow> hid \<Rightarrow> u8 \<Rightarrow> world \<Rightarrow> world option" where
  "call_user env x code w = do {
     h \<leftarrow> hs w x;
     (if pUser h then e_user env x code w else None)
   }"

lemma put_host_simps [simp]:
  "hs (put_host x h w) = (hs w)(x \<mapsto> h)" "wb (put_host x h w) = wb w"
  "mallocs (put_host x h w) = mallocs w" "next_hid (put_host x h w) = next_hid w"
  "clock (put_host x h w) = clock w"
  by (simp_all add: put_host_def)

lemma mod_bus_simps [simp]:
  "hs (mod_bus f w) = hs w" "wb (mod_bus f w) = f (wb w)" "mallocs (mod_bus f w) = mallocs w"
  "next_hid (mod_bus f w) = next_hid w" "clock (mod_bus f w) = clock w"
  by (simp_all add: mod_bus_def)

lemma post_simps [simp]:
  "hs (post e w) = hs w" "wb (post e w) = os_put e (wb w)" "mallocs (post e w) = mallocs w"
  "next_hid (post e w) = next_hid w" "clock (post e w) = clock w"
  by (simp_all add: post_def)

lemma on_host_eq_Some_iff:
  "on_host x f w = Some (s, w') \<longleftrightarrow> (\<exists>h h' b'. hs w x = Some h \<and> f h (wb w) = Some (s, h', b') \<and>
     w' = (put_host x h' w)\<lparr>wb := b'\<rparr>)"
  by (auto simp: on_host_def bind_eq_Some_conv)

lemma mod_host_eq_Some_iff:
  "mod_host x f w = Some w' \<longleftrightarrow> (\<exists>h. hs w x = Some h \<and> w' = put_host x (f h) w)"
  by (auto simp: mod_host_def bind_eq_Some_conv)

lemma on_host_Some [simp]:
  "hs w x = Some h \<Longrightarrow> f h (wb w) = Some (s, h', b') \<Longrightarrow>
     on_host x f w = Some (s, (put_host x h' w)\<lparr>wb := b'\<rparr>)"
  by (simp add: on_host_def)

lemma mod_host_Some [simp]: "hs w x = Some h \<Longrightarrow> mod_host x f w = Some (put_host x (f h) w)"
  by (simp add: mod_host_def)

lemma tick_eq_Some_iff:
  "tick env w = Some w' \<longleftrightarrow> (\<exists>v. e_irq env (clock w) w = Some v \<and> w' = v\<lparr>clock := Suc (clock v)\<rparr>)"
  by (auto simp: tick_def bind_eq_Some_conv)

text \<open>A step on one handle leaves every other handle alone.\<close>

lemma on_host_other: "on_host x f w = Some (s, w') \<Longrightarrow> y \<noteq> x \<Longrightarrow> hs w' y = hs w y"
  by (auto simp: on_host_eq_Some_iff)

lemma mod_host_other: "mod_host x f w = Some w' \<Longrightarrow> y \<noteq> x \<Longrightarrow> hs w' y = hs w y"
  by (auto simp: mod_host_eq_Some_iff)

end
