(* ===== verification/HandleTree.thy ===== *)
theory HandleTree
  imports World
begin

text \<open>
  The tree of handles. \<open>shape\<close> is what the tree and the host machines consist of: of every live handle
  its machine state, its parent and its table of children, and the number of handles allocated so
  far. Most of the program leaves it alone; a step of a handle may change that handle and the ones
  allocated after it, which include all handles below it.
\<close>

definition node :: "host \<Rightarrow> HOST_StateTypeDef \<times> hid option \<times> u8 \<times> hid option list" where
  "node h = (gState h, parent h, is_child h, children h)"

definition shape :: "world \<Rightarrow> (hid \<Rightarrow> (HOST_StateTypeDef \<times> hid option \<times> u8 \<times> hid option list) option) \<times> nat" where
  "shape w = (\<lambda>z. map_option node (hs w z), next_hid w)"

definition child_of :: "world \<Rightarrow> hid \<Rightarrow> nat \<Rightarrow> hid \<Rightarrow> bool" where
  "child_of w x i y = (case hs w x of None \<Rightarrow> False | Some h \<Rightarrow> i < length (children h) \<and> children h ! i = Some y)"

text \<open>
  A tree: handles are numbered in the order they are allocated, every child is live, younger than its
  parent and points back to it, and no two entries of a table hold the same child.
\<close>

definition tree_ok :: "world \<Rightarrow> bool" where
  "tree_ok w \<longleftrightarrow> (\<forall>z h. hs w z = Some h \<longrightarrow> z < next_hid w) \<and>
     (\<forall>x i y. child_of w x i y \<longrightarrow> x < y \<and> (\<exists>c. hs w y = Some c \<and> parent c = Some x)) \<and>
     (\<forall>x i j y. child_of w x i y \<longrightarrow> child_of w x j y \<longrightarrow> i = j)"

definition same_place :: "host \<Rightarrow> host \<Rightarrow> bool" where
  "same_place h h' \<longleftrightarrow> parent h' = parent h \<and> is_child h' = is_child h \<and> children h' = children h"

lemma node_eq_iff: "node h' = node h \<longleftrightarrow>
    gState h' = gState h \<and> parent h' = parent h \<and> is_child h' = is_child h \<and> children h' = children h"
  by (simp add: node_def)

lemma shape_eq_iff: "shape w' = shape w \<longleftrightarrow>
    (\<forall>z. map_option node (hs w' z) = map_option node (hs w z)) \<and> next_hid w' = next_hid w"
  by (auto simp: shape_def fun_eq_iff)

lemma shape_Some: "shape w' = shape w \<Longrightarrow> hs w x = Some h \<Longrightarrow> \<exists>h'. hs w' x = Some h' \<and> node h' = node h"
  by (auto simp: shape_eq_iff) (metis map_option_eq_Some)

lemma shape_frame [simp]:
  "shape (post e w) = shape w" "shape (mod_bus f w) = shape w" "shape (w\<lparr>wb := b\<rparr>) = shape w"
  "shape (w\<lparr>clock := n\<rparr>) = shape w" "shape (w\<lparr>mallocs := m\<rparr>) = shape w" "shape (snd (take_malloc w)) = shape w"
  by (simp_all add: shape_def take_malloc_def split: list.splits)

lemma shape_take: "take_malloc w = (ok, w') \<Longrightarrow> shape w' = shape w"
  using shape_frame(6) [of w] by simp

lemma shape_put: "hs w x = Some h \<Longrightarrow> node h' = node h \<Longrightarrow> shape (put_host x h' w) = shape w"
  by (auto simp: shape_eq_iff)

lemma shape_mod: "mod_host x f w = Some w' \<Longrightarrow> (\<And>h. node (f h) = node h) \<Longrightarrow> shape w' = shape w"
  by (auto simp: mod_host_eq_Some_iff shape_put)

lemma shape_on:
  assumes "on_host x f w = Some (s, w')" "\<And>h b h' b' s. f h b = Some (s, h', b') \<Longrightarrow> node h' = node h"
  shows "shape w' = shape w"
  using assms by (fastforce simp: on_host_eq_Some_iff shape_put)

lemma child_of_shape: "shape w' = shape w \<Longrightarrow> child_of w' = child_of w"
proof (intro ext)
  fix x i y
  assume s: "shape w' = shape w"
  show "child_of w' x i y = child_of w x i y"
    using shape_Some [OF s, of x] shape_Some [OF s [symmetric], of x]
    by (cases "hs w x"; cases "hs w' x") (auto simp: child_of_def node_eq_iff)
qed

lemma tree_ok_shape: "shape w' = shape w \<Longrightarrow> tree_ok w' \<longleftrightarrow> tree_ok w"
proof -
  have "tree_ok v" if "shape v = shape u" "tree_ok u" for u v
    using that shape_Some [OF that(1)] shape_Some [OF that(1) [symmetric]] child_of_shape [OF that(1)]
    unfolding tree_ok_def by (simp add: shape_eq_iff node_eq_iff) metis
  then show "shape w' = shape w \<Longrightarrow> tree_ok w' \<longleftrightarrow> tree_ok w" by metis
qed

subsection \<open>Interrupts\<close>

text \<open>
  The port's interrupts move the machine of the handle at the root port, \<open>r\<close>, under the code that spins:
  an unplug puts it in the disconnected state from anywhere, a connect moves it on where it waits for
  one. All other machines, and the places of all handles, are left alone.
\<close>

definition irq_move :: "HOST_StateTypeDef \<Rightarrow> HOST_StateTypeDef \<Rightarrow> bool" where
  "irq_move g g' \<longleftrightarrow> g' = g \<or> g' = HOST_DEV_DISCONNECTED \<or>
     g = HOST_DEV_WAIT_FOR_ATTACHMENT \<and> g' = HOST_DEV_ATTACHED"

definition moved :: "bool \<Rightarrow> host \<Rightarrow> host \<Rightarrow> bool" where
  "moved root h h' \<longleftrightarrow> gState h' = gState h \<or> root \<and> irq_move (gState h) (gState h')"

definition keeps :: "hid \<Rightarrow> world \<Rightarrow> world \<Rightarrow> bool" where
  "keeps r w w' \<longleftrightarrow> next_hid w' = next_hid w \<and> (\<forall>z. hs w z = None \<longrightarrow> hs w' z = None) \<and>
     (\<forall>z h. hs w z = Some h \<longrightarrow> (\<exists>h'. hs w' z = Some h' \<and> same_place h h' \<and> moved (z = r) h h'))"

lemma moved_refl [simp]: "moved b h h"
  by (simp add: moved_def)

lemma moved_False [simp]: "moved False h h' \<longleftrightarrow> gState h' = gState h"
  by (simp add: moved_def)

lemma moved_trans: "moved b h h1 \<Longrightarrow> moved b h1 h' \<Longrightarrow> moved b h h'"
  by (auto simp: moved_def irq_move_def)

lemma same_place_refl [simp]: "same_place h h"
  by (simp add: same_place_def)

lemma same_place_trans: "same_place h h1 \<Longrightarrow> same_place h1 h' \<Longrightarrow> same_place h h'"
  by (simp add: same_place_def)

lemma node_place: "node h' = node h \<Longrightarrow> same_place h h' \<and> gState h' = gState h"
  by (simp add: node_eq_iff same_place_def)

lemma shape_keeps: "shape w' = shape w \<Longrightarrow> keeps r w w'"
proof -
  assume s: "shape w' = shape w"
  have "hs w' z = None" if "hs w z = None" for z using s that unfolding shape_eq_iff by (metis option.map_disc_iff)
  moreover have "\<exists>h'. hs w' z = Some h' \<and> same_place h h' \<and> moved (z = r) h h'" if "hs w z = Some h" for z h
    using shape_Some [OF s that] by (auto simp: moved_def dest: node_place)
  ultimately show ?thesis using s unfolding keeps_def shape_eq_iff by blast
qed

lemma keeps_refl [simp]: "keeps r w w"
  by (rule shape_keeps) simp

lemma keeps_Some: "keeps r w w' \<Longrightarrow> hs w z = Some h \<Longrightarrow> \<exists>h'. hs w' z = Some h' \<and> same_place h h' \<and> moved (z = r) h h'"
  by (simp add: keeps_def)

lemma keeps_None: "keeps r w w' \<Longrightarrow> hs w' z = Some h' \<Longrightarrow> \<exists>h. hs w z = Some h"
  unfolding keeps_def by (metis not_None_eq)

lemma keeps_trans: "keeps r w w1 \<Longrightarrow> keeps r w1 w' \<Longrightarrow> keeps r w w'"
  unfolding keeps_def by (intro conjI; (simp; fail)?) (meson moved_trans same_place_trans)

lemma keeps_put: "hs w x = Some h \<Longrightarrow> same_place h h' \<Longrightarrow> moved (x = r) h h' \<Longrightarrow> keeps r w (put_host x h' w)"
  by (auto simp: keeps_def)

lemma keeps_frame [simp]:
  "keeps r w (w'\<lparr>wb := b\<rparr>) = keeps r w w'" "keeps r w (w'\<lparr>clock := n\<rparr>) = keeps r w w'"
  "keeps r w (mod_bus f w') = keeps r w w'" "keeps r w (post e w') = keeps r w w'"
  "keeps r (w\<lparr>wb := b\<rparr>) w' = keeps r w w'" "keeps r (mod_bus f w) w' = keeps r w w'"
  by (simp_all add: keeps_def)

lemma child_of_keeps: "keeps r w w' \<Longrightarrow> child_of w' = child_of w"
proof (intro ext)
  fix x i y
  assume k: "keeps r w w'"
  show "child_of w' x i y = child_of w x i y"
    using keeps_Some [OF k, of x] keeps_None [OF k, of x]
    by (cases "hs w x"; cases "hs w' x") (auto simp: child_of_def same_place_def)
qed

lemma tree_ok_keeps:
  assumes "keeps r w w'" "tree_ok w"
  shows "tree_ok w'"
  unfolding tree_ok_def child_of_keeps [OF assms(1)]
proof (intro conjI allI impI)
  fix z h' assume "hs w' z = Some h'"
  with keeps_None [OF assms(1)] assms show "z < next_hid w'" by (auto simp: tree_ok_def keeps_def)
next
  fix x i y assume "child_of w x i y"
  with assms(2) obtain c where "x < y" "hs w y = Some c" "parent c = Some x" unfolding tree_ok_def by blast
  with keeps_Some [OF assms(1)] show "x < y" "\<exists>c. hs w' y = Some c \<and> parent c = Some x" by (force simp: same_place_def)+
next
  fix x i j y assume "child_of w x i y" "child_of w x j y"
  with assms(2) show "i = j" by (auto simp: tree_ok_def)
qed

subsection \<open>Steps of one handle\<close>

definition below :: "hid \<Rightarrow> hid \<Rightarrow> world \<Rightarrow> world \<Rightarrow> bool" where
  "below r n w w' \<longleftrightarrow> next_hid w \<le> next_hid w' \<and>
     (\<forall>z<n. \<forall>h. hs w z = Some h \<longrightarrow> (\<exists>h'. hs w' z = Some h' \<and> same_place h h' \<and> moved (z = r) h h'))"

definition tree_step :: "hid \<Rightarrow> hid \<Rightarrow> world \<Rightarrow> world \<Rightarrow> bool" where
  "tree_step r x w w' \<longleftrightarrow> tree_ok w' \<and> below r x w w' \<and>
     (\<forall>h. hs w x = Some h \<longrightarrow> (\<exists>h'. hs w' x = Some h' \<and> parent h' = parent h \<and> is_child h' = is_child h))"

text \<open>A class driver does not touch the machine of the handle it is called for.\<close>

definition class_step :: "hid \<Rightarrow> hid \<Rightarrow> world \<Rightarrow> world \<Rightarrow> bool" where
  "class_step r x w w' \<longleftrightarrow> tree_ok w' \<and> below r x w w' \<and>
     (\<forall>h. hs w x = Some h \<longrightarrow> (\<exists>h'. hs w' x = Some h' \<and> moved (x = r) h h' \<and> parent h' = parent h \<and> is_child h' = is_child h))"

lemma below_refl [simp]: "below r n w w"
  by (simp add: below_def)

lemma below_trans: "below r n w w1 \<Longrightarrow> below r n w1 w' \<Longrightarrow> below r n w w'"
  unfolding below_def by (meson order_trans moved_trans same_place_trans)

lemma below_mono: "below r n w w' \<Longrightarrow> m \<le> n \<Longrightarrow> below r m w w'"
  unfolding below_def by (meson order_less_le_trans)

lemma below_keeps: "keeps r w w' \<Longrightarrow> below r n w w'"
  unfolding below_def keeps_def by auto

lemma below_keepsE: "below r n w w' \<Longrightarrow> z < n \<Longrightarrow> hs w z = Some h \<Longrightarrow> \<exists>h'. hs w' z = Some h' \<and> same_place h h' \<and> moved (z = r) h h'"
  by (simp add: below_def)

lemma step_trees: "tree_step r x w w' \<Longrightarrow> tree_ok w'" "class_step r x w w' \<Longrightarrow> tree_ok w'"
  by (simp_all add: tree_step_def class_step_def)

lemma class_tree: "class_step r x w w' \<Longrightarrow> tree_step r x w w'"
  unfolding class_step_def tree_step_def by blast

lemma class_step_refl: "tree_ok w \<Longrightarrow> class_step r x w w"
  by (simp add: class_step_def)

lemma class_step_keeps:
  assumes "keeps r w w'" "tree_ok w"
  shows "class_step r x w w'"
  unfolding class_step_def
proof (intro conjI allI impI)
  show "tree_ok w'" using assms by (rule tree_ok_keeps)
  show "below r x w w'" using assms(1) by (rule below_keeps)
  fix h assume "hs w x = Some h"
  with keeps_Some [OF assms(1)] show "\<exists>h'. hs w' x = Some h' \<and> moved (x = r) h h' \<and> parent h' = parent h \<and> is_child h' = is_child h"
    unfolding same_place_def by blast
qed

lemma class_step_shape: "shape w' = shape w \<Longrightarrow> tree_ok w \<Longrightarrow> class_step r x w w'"
  by (rule class_step_keeps [OF shape_keeps])

lemma tree_step_trans: "tree_step r x w w1 \<Longrightarrow> tree_step r x w1 w' \<Longrightarrow> tree_step r x w w'"
  unfolding tree_step_def by (intro conjI; (elim conjE, erule below_trans)?; fastforce)

lemma class_step_trans:
  assumes "class_step r x w w1" "class_step r x w1 w'"
  shows "class_step r x w w'"
  unfolding class_step_def
proof (intro conjI allI impI)
  show "tree_ok w'" using assms(2) by (rule step_trees)
  show "below r x w w'" using assms below_trans unfolding class_step_def by blast
  fix h assume "hs w x = Some h"
  with assms(1) obtain h1 where h1: "hs w1 x = Some h1" "moved (x = r) h h1" "parent h1 = parent h" "is_child h1 = is_child h"
    unfolding class_step_def by blast
  with assms(2) obtain h' where "hs w' x = Some h'" "moved (x = r) h1 h'" "parent h' = parent h1" "is_child h' = is_child h1"
    unfolding class_step_def by blast
  with h1 moved_trans show "\<exists>h'. hs w' x = Some h' \<and> moved (x = r) h h' \<and> parent h' = parent h \<and> is_child h' = is_child h"
    by metis
qed

lemma step_before: "class_step r x w1 w' \<Longrightarrow> keeps r w w1 \<Longrightarrow> tree_ok w \<Longrightarrow> class_step r x w w'"
  by (rule class_step_trans [OF class_step_keeps])

lemma step_after: "class_step r x w w1 \<Longrightarrow> keeps r w1 w' \<Longrightarrow> class_step r x w w'"
  by (rule class_step_trans [OF _ class_step_keeps]) (auto dest: step_trees)

text \<open>A step of a younger handle is none of an older one.\<close>

lemma step_younger: "tree_step r y w w' \<Longrightarrow> x < y \<Longrightarrow> class_step r x w w'"
  unfolding tree_step_def class_step_def below_def same_place_def by (meson order_less_trans)

text \<open>Changing fields of a handle other than its place in the tree.\<close>

lemma tree_step_put:
  assumes "hs w x = Some h" "same_place h h'" "tree_ok w"
  shows "tree_step r x w (put_host x h' w)"
proof -
  note assms = assms(1,2) [unfolded same_place_def] assms(3)
  have c: "child_of (put_host x h' w) = child_of w"
    by (intro ext) (use assms in \<open>auto simp: child_of_def\<close>)
  have "tree_ok (put_host x h' w)"
    unfolding tree_ok_def c
  proof (intro conjI allI impI)
    fix z h'' assume "hs (put_host x h' w) z = Some h''"
    then show "z < next_hid (put_host x h' w)" using assms by (auto simp: tree_ok_def split: if_splits)
  next
    fix a i y assume "child_of w a i y"
    with assms(3) show "a < y" "\<exists>c. hs (put_host x h' w) y = Some c \<and> parent c = Some a"
      using assms(1,2,3) unfolding tree_ok_def by (auto, metis option.inject)
  next
    fix a i j y assume "child_of w a i y" "child_of w a j y"
    with assms(3) show "i = j" by (auto simp: tree_ok_def)
  qed
  then show ?thesis using assms by (auto simp: tree_step_def below_def)
qed

lemma tree_step_mod:
  "mod_host x f w = Some w' \<Longrightarrow> (\<And>h. same_place h (f h)) \<Longrightarrow>
     tree_ok w \<Longrightarrow> tree_step r x w w'"
  by (auto simp: mod_host_eq_Some_iff intro: tree_step_put)

lemma tree_step_bus: "tree_step r x w w' \<Longrightarrow> tree_step r x w (w'\<lparr>wb := b\<rparr>)"
  using class_tree [OF class_step_shape [of "w'\<lparr>wb := b\<rparr>" w' r x]] by (auto dest: step_trees intro: tree_step_trans)

lemma tree_step_on:
  assumes "on_host x f w = Some (s, w')" "tree_ok w"
    "\<And>h b h' b' s. f h b = Some (s, h', b') \<Longrightarrow> same_place h h'"
  shows "tree_step r x w w'"
  using assms by (fastforce simp: on_host_eq_Some_iff intro!: tree_step_bus tree_step_put)

end
