(* ===== verification/Core.thy ===== *)
theory Core
  imports HandleTree
begin

text \<open>
  The core of the host library, \<^verbatim>\<open>Core/Src/usbh_core.c\<close>: initialisation, class registration,
  enumeration (\<open>USBH_HandleEnum\<close>), the host state machine (\<open>USBH_Process\<close>), one definition per state,
  the port events the interrupt handlers deliver, and the thread that runs the machine for every
  handle of the tree each time an event is posted.
\<close>

abbreviation USBH_MPS_DEFAULT :: u8 where "USBH_MPS_DEFAULT \<equiv> 0x40"
abbreviation USBH_ADDRESS_DEFAULT :: u8 where "USBH_ADDRESS_DEFAULT \<equiv> 0"

subsection \<open>Initialisation\<close>

definition clear_device :: "host \<Rightarrow> host" where
  "clear_device h = upd_dev (\<lambda>d. d\<lparr>Data := replicate USBH_MAX_DATA_BUFFER 0\<rparr>) h"

definition reset_machine :: "u8 \<Rightarrow> host \<Rightarrow> host" where
  "reset_machine mps h = upd_ctl (\<lambda>c. c\<lparr>ctl_state := CTRL_SETUP, pipe_size := mps, errorcount := 0\<rparr>)
     (h\<lparr>gState := HOST_IDLE, EnumState := ENUM_IDLE, RequestState := CMD_SEND, Timer := 0\<rparr>)"

definition reset_device :: "host \<Rightarrow> host" where
  "reset_device h = upd_dev (\<lambda>d. d\<lparr>dev_address := USBH_ADDRESS_DEFAULT, speed := USBH_SPEED_FULL\<rparr>) h"

definition DeInitStateMachine :: "host \<Rightarrow> bus \<Rightarrow> call" where
  "DeInitStateMachine h b =
     (if is_child h \<noteq> 0 then Some (USBH_OK, h, b)
      else if length (Pipes b) < USBH_MAX_PIPES_NBR then None
      else do {
        let b = b\<lparr>Pipes := replicate USBH_MAX_PIPES_NBR 0 @ drop USBH_MAX_PIPES_NBR (Pipes b)\<rparr>;
        let h = reset_machine USBH_MPS_DEFAULT (clear_device h);
        b \<leftarrow> addr_clear (dev_address (device h)) b;
        Some (USBH_OK, reset_device h, b)
      })"

text \<open>
  The three allocations of \<open>USBH_Init\<close> are the pipe table (15 words), the address table
  (\<^verbatim>\<open>8 * sizeof(uint8_t *)\<close>, 32 bytes) and the thread. The handle is a global, so its other fields
  keep their values. Queue creation is taken to succeed.
\<close>

definition USBH_Init :: "hid \<Rightarrow> bool \<Rightarrow> u8 \<Rightarrow> world \<Rightarrow> wcall" where
  "USBH_Init x pUsrFunc drv_id w = do {
     w \<leftarrow> mod_host x (\<lambda>h. h\<lparr>host_id := drv_id, pActiveClass := None, ClassNumber := 0\<rparr>) w;
     let (ok, w) = take_malloc w;
     (if \<not> ok then Some (USBH_FAIL, w)
      else do {
        let (ok, w) = take_malloc w;
        (if \<not> ok then Some (USBH_FAIL, w)
         else do {
           let w = mod_bus (\<lambda>b. b\<lparr>Pipes := replicate USBH_MAX_PIPES_NBR 0,
                     addresses := replicate (USBH_MAX_NUM_DEVICE * 4) 0, addr_hdr := 0x80\<rparr>) w;
           (_, w) \<leftarrow> on_host x DeInitStateMachine w;
           w \<leftarrow> mod_host x (\<lambda>h. if pUsrFunc then h\<lparr>pUser := True\<rparr> else h) w;
           let w = mod_bus (\<lambda>b. b\<lparr>os_event := []\<rparr>) w;
           let (ok, w) = take_malloc w;
           (if \<not> ok then Some (USBH_FAIL, mod_bus (\<lambda>b. b\<lparr>Pipes := [], addresses := []\<rparr>) w)
            else on_host x (\<lambda>h b. Some (USBH_LL_Init h b)) w)
         })
      })
   }"

text \<open>\<^verbatim>\<open>phost->pActiveClass->pData = NULL\<close> faults when no class is active.\<close>

definition USBH_DeInit :: "host \<Rightarrow> bus \<Rightarrow> call" where
  "USBH_DeInit h b = do {
     (_, h, b) \<leftarrow> DeInitStateMachine h b;
     (if pData h then
        (if pActiveClass h = None then None
         else do {
           let b = (if pActiveClass h = Some MSC_Class then b\<lparr>msc_ptr := False\<rparr> else b);
           (_, b) \<leftarrow> USBH_LL_Stop h b;
           Some (USBH_OK, h, b)
         })
      else Some (USBH_OK, h, b))
   }"

definition USBH_RegisterClass :: "host \<Rightarrow> class_ref option \<Rightarrow> (USBH_StatusTypeDef \<times> host) option" where
  "USBH_RegisterClass h pclass =
     (case pclass of
        None \<Rightarrow> Some (USBH_FAIL, h)
      | Some c \<Rightarrow>
          if unat (ClassNumber h) < USBH_MAX_NUM_SUPPORTED_CLASS then do {
            p \<leftarrow> wr (pClass h) (unat (ClassNumber h)) (Some c);
            Some (USBH_OK, h\<lparr>pClass := p, ClassNumber := ClassNumber h + 1\<rparr>)
          } else Some (USBH_FAIL, h))"

text \<open>The accepted interface is logged, so its descriptor is read.\<close>

definition USBH_SelectInterface :: "host \<Rightarrow> u8 \<Rightarrow> (USBH_StatusTypeDef \<times> host) option" where
  "USBH_SelectInterface h i =
     (if i < bNumInterfaces (CfgDesc (device h)) then do {
        _ \<leftarrow> rd (Itf_Desc (CfgDesc (device h))) (unat i);
        Some (USBH_OK, upd_dev (\<lambda>d. d\<lparr>current_interface := i\<rparr>) h)
      } else Some (USBH_FAIL, h))"

definition USBH_GetActiveClass :: "host \<Rightarrow> u8 option" where
  "USBH_GetActiveClass h = map_option bInterfaceClass (rd (Itf_Desc (CfgDesc (device h))) 0)"

function find_itf_loop ::
  "USBH_InterfaceDescTypeDef list \<Rightarrow> (USBH_InterfaceDescTypeDef \<Rightarrow> bool) \<Rightarrow> nat \<Rightarrow> u8 option" where
  "find_itf_loop itfs P if_ix =
     (if if_ix < USBH_MAX_NUM_INTERFACES then
        (case rd itfs if_ix of
           None \<Rightarrow> None
         | Some pif \<Rightarrow> if P pif then Some (of_nat if_ix) else find_itf_loop itfs P (Suc if_ix))
      else Some 0xFF)"
  by pat_completeness auto
termination
  by (relation "measure (\<lambda>(itfs, P, if_ix). USBH_MAX_NUM_INTERFACES - if_ix)") auto

declare find_itf_loop.simps [simp del]

definition itf_matches :: "u8 \<Rightarrow> u8 \<Rightarrow> u8 \<Rightarrow> USBH_InterfaceDescTypeDef \<Rightarrow> bool" where
  "itf_matches cls subcls prot pif \<longleftrightarrow>
     (bInterfaceClass pif = cls \<or> cls = 0xFF) \<and> (bInterfaceSubClass pif = subcls \<or> subcls = 0xFF) \<and>
     (bInterfaceProtocol pif = prot \<or> prot = 0xFF)"

definition USBH_FindInterface :: "host \<Rightarrow> u8 \<Rightarrow> u8 \<Rightarrow> u8 \<Rightarrow> u8 option" where
  "USBH_FindInterface h cls subcls prot =
     find_itf_loop (Itf_Desc (CfgDesc (device h))) (itf_matches cls subcls prot) 0"

definition USBH_FindInterfaceIndex :: "host \<Rightarrow> u8 \<Rightarrow> u8 \<Rightarrow> u8 option" where
  "USBH_FindInterfaceIndex h interface_number alt_settings =
     find_itf_loop (Itf_Desc (CfgDesc (device h)))
       (\<lambda>pif. bInterfaceNumber pif = interface_number \<and> bAlternateSetting pif = alt_settings) 0"

subsection \<open>Starting and stopping the root port\<close>

definition USBH_Start :: "host \<Rightarrow> bus \<Rightarrow> call" where
  "USBH_Start h b =
     (if is_child h \<noteq> 0 then Some (USBH_OK, h, b)
      else do {
        (_, b) \<leftarrow> USBH_LL_Start h b;
        let (_, b) = USBH_LL_DriverVBUS b 1;
        Some (USBH_OK, h, b)
      })"

definition USBH_Stop :: "host \<Rightarrow> bus \<Rightarrow> call" where
  "USBH_Stop h b =
     (if is_child h \<noteq> 0 then Some (USBH_OK, h, b)
      else do {
        (_, b) \<leftarrow> USBH_LL_Stop h b;
        let (_, b) = USBH_LL_DriverVBUS b 0;
        (_, b) \<leftarrow> USBH_FreePipe b (pipe_in (Control h));
        (_, b) \<leftarrow> USBH_FreePipe b (pipe_out (Control h));
        Some (USBH_OK, h, b)
      })"

definition USBH_ReEnumerate :: "host \<Rightarrow> bus \<Rightarrow> call" where
  "USBH_ReEnumerate h b = do {
     (_, h, b) \<leftarrow> USBH_Stop h b;
     let b = USBH_Delay 200 b;
     (_, h, b) \<leftarrow> DeInitStateMachine h b;
     (_, h, b) \<leftarrow> USBH_Start h b;
     Some (USBH_OK, h, os_put USBH_PORT_EVENT b)
   }"

subsection \<open>Enumeration\<close>

definition open_control_pipes :: "host \<Rightarrow> bus \<Rightarrow> bus option" where
  "open_control_pipes h b = do {
     (_, b) \<leftarrow> USBH_OpenPipe h b (pipe_in (Control h)) 0x80 (dev_address (device h))
                 (speed (device h)) USBH_EP_CONTROL (ucast (pipe_size (Control h)));
     (_, b) \<leftarrow> USBH_OpenPipe h b (pipe_out (Control h)) 0x00 (dev_address (device h))
                 (speed (device h)) USBH_EP_CONTROL (ucast (pipe_size (Control h)));
     Some b
   }"

definition enum_idle :: "host \<Rightarrow> bus \<Rightarrow> call" where
  "enum_idle h b = do {
     (tmpStatus, h, b) \<leftarrow> USBH_Get_DevDesc h b 8;
     (if tmpStatus = USBH_OK then do {
        let h = upd_ctl (\<lambda>c. c\<lparr>pipe_size := bMaxPacketSize (DevDesc (device h))\<rparr>) h;
        let h = h\<lparr>EnumState := ENUM_GET_FULL_DEV_DESC, last_ctrl_status := CTRL_IDLE\<rparr>;
        b \<leftarrow> open_control_pipes h b;
        Some (USBH_BUSY, h, b)
      }
      else if last_ctrl_status h \<noteq> CTRL_IDLE \<and> last_ctrl_status h = ctl_state (Control h)
      then Some (USBH_FAIL, h\<lparr>last_ctrl_status := CTRL_IDLE\<rparr>, os_put USBH_STATE_CHANGED_EVENT b)
      else Some (USBH_BUSY, h\<lparr>last_ctrl_status := ctl_state (Control h)\<rparr>, USBH_Delay 1 b))
   }"

definition enum_full_dev_desc :: "host \<Rightarrow> bus \<Rightarrow> call" where
  "enum_full_dev_desc h b = do {
     (s, h, b) \<leftarrow> USBH_Get_DevDesc h b (ucast USB_DEVICE_DESC_SIZE);
     Some (USBH_BUSY, if s = USBH_OK then h\<lparr>EnumState := ENUM_SET_ADDR\<rparr> else h, b)
   }"

definition enum_set_addr :: "host \<Rightarrow> bus \<Rightarrow> call" where
  "enum_set_addr h b = do {
     (address, h, b) \<leftarrow> USBH_Get_One_Address h b;
     (if address = 0 then Some (USBH_FAIL, h, b)
      else do {
        (s, h, b) \<leftarrow> USBH_SetAddress h b (dev_address (device h));
        (if s = USBH_OK then do {
           let b = USBH_Delay 2 b;
           let h = h\<lparr>EnumState := ENUM_GET_CFG_DESC\<rparr>;
           b \<leftarrow> open_control_pipes h b;
           Some (USBH_BUSY, h, b)
         } else Some (USBH_BUSY, h, b))
      })
   }"

definition enum_cfg_desc :: "host \<Rightarrow> bus \<Rightarrow> call" where
  "enum_cfg_desc h b = do {
     (s, h, b) \<leftarrow> USBH_Get_CfgDesc h b USB_CONFIGURATION_DESC_SIZE;
     Some (USBH_BUSY, if s = USBH_OK then h\<lparr>EnumState := ENUM_GET_FULL_CFG_DESC\<rparr> else h, b)
   }"

text \<open>
  The interfaces are printed, \<^verbatim>\<open>bNumInterfaces\<close> of them: \<open>printf_interface\<close> reads past the five
  stored ones when the device claims more.
\<close>

definition printf_interface :: "USBH_CfgDescTypeDef \<Rightarrow> nat \<Rightarrow> unit option" where
  "printf_interface cfg index = map_option (\<lambda>_. ()) (rd (Itf_Desc cfg) index)"

fun print_loop :: "USBH_CfgDescTypeDef \<Rightarrow> nat \<Rightarrow> unit option" where
  "print_loop cfg 0 = Some ()"
| "print_loop cfg (Suc n) = do { _ \<leftarrow> print_loop cfg n; printf_interface cfg n }"

definition enum_full_cfg_desc :: "host \<Rightarrow> bus \<Rightarrow> call" where
  "enum_full_cfg_desc h b = do {
     (s, h, b) \<leftarrow> USBH_Get_CfgDesc h b (wTotalLength (CfgDesc (device h)));
     (if s = USBH_OK then do {
        _ \<leftarrow> print_loop (CfgDesc (device h)) (unat (bNumInterfaces (CfgDesc (device h))));
        Some (USBH_BUSY, h\<lparr>EnumState := ENUM_GET_MFC_STRING_DESC\<rparr>, b)
      } else Some (USBH_BUSY, h, b))
   }"

definition enum_mfc_string :: "host \<Rightarrow> bus \<Rightarrow> call" where
  "enum_mfc_string h b =
     (if iManufacturer (DevDesc (device h)) \<noteq> 0 then do {
        (s, h, b) \<leftarrow> USBH_Get_StringDesc h b (iManufacturer (DevDesc (device h))) 0xff;
        Some (if s = USBH_OK
              then (USBH_BUSY, h\<lparr>EnumState := ENUM_GET_PRODUCT_STRING_DESC\<rparr>,
                    os_put USBH_STATE_CHANGED_EVENT b)
              else (USBH_BUSY, h, b))
      }
      else Some (USBH_BUSY, h\<lparr>EnumState := ENUM_GET_PRODUCT_STRING_DESC\<rparr>,
                 os_put USBH_STATE_CHANGED_EVENT b))"

definition enum_product_string :: "host \<Rightarrow> bus \<Rightarrow> call" where
  "enum_product_string h b =
     (if iProduct (DevDesc (device h)) \<noteq> 0 then do {
        (s, h, b) \<leftarrow> USBH_Get_StringDesc h b (iProduct (DevDesc (device h))) 0xff;
        Some (USBH_BUSY, if s = USBH_OK then h\<lparr>EnumState := ENUM_GET_SERIALNUM_STRING_DESC\<rparr> else h, b)
      }
      else Some (USBH_BUSY, h\<lparr>EnumState := ENUM_GET_SERIALNUM_STRING_DESC\<rparr>,
                 os_put USBH_STATE_CHANGED_EVENT b))"

definition enum_serial_string :: "host \<Rightarrow> bus \<Rightarrow> call" where
  "enum_serial_string h b =
     (if iSerialNumber (DevDesc (device h)) \<noteq> 0 then do {
        (s, h, b) \<leftarrow> USBH_Get_StringDesc h b (iSerialNumber (DevDesc (device h))) 0xff;
        Some (if s = USBH_OK then USBH_OK else USBH_BUSY, h, b)
      }
      else Some (USBH_OK, h, os_put USBH_STATE_CHANGED_EVENT b))"

definition USBH_HandleEnum :: "host \<Rightarrow> bus \<Rightarrow> call" where
  "USBH_HandleEnum h b =
     (case EnumState h of
        ENUM_IDLE \<Rightarrow> enum_idle h b
      | ENUM_GET_FULL_DEV_DESC \<Rightarrow> enum_full_dev_desc h b
      | ENUM_SET_ADDR \<Rightarrow> enum_set_addr h b
      | ENUM_GET_CFG_DESC \<Rightarrow> enum_cfg_desc h b
      | ENUM_GET_FULL_CFG_DESC \<Rightarrow> enum_full_cfg_desc h b
      | ENUM_GET_MFC_STRING_DESC \<Rightarrow> enum_mfc_string h b
      | ENUM_GET_PRODUCT_STRING_DESC \<Rightarrow> enum_product_string h b
      | ENUM_GET_SERIALNUM_STRING_DESC \<Rightarrow> enum_serial_string h b)"

subsection \<open>The host state machine\<close>

text \<open>Each state's step returns what \<^verbatim>\<open>enum_status\<close> is at the end of \<open>USBH_Process\<close>.\<close>

definition proc_idle :: "host \<Rightarrow> bus \<Rightarrow> call" where
  "proc_idle h b =
     (if is_connected (device h) \<noteq> 0 then do {
        let h = h\<lparr>gState := HOST_DEV_WAIT_FOR_ATTACHMENT\<rparr>;
        let b = USBH_Delay 200 b;
        (_, b) \<leftarrow> USBH_LL_ResetPort h b;
        Some (USBH_OK, h, os_put USBH_PORT_EVENT b)
      } else Some (USBH_OK, h, b))"

definition proc_attached :: "host \<Rightarrow> bus \<Rightarrow> call" where
  "proc_attached h b = do {
     let b = USBH_Delay 100 b;
     sp \<leftarrow> USBH_LL_GetSpeed h b;
     let h = (upd_dev (\<lambda>d. d\<lparr>speed := sp\<rparr>) h)\<lparr>gState := HOST_ENUMERATION\<rparr>;
     (po, b) \<leftarrow> USBH_AllocPipe b 0x00;
     let h = upd_ctl (\<lambda>c. c\<lparr>pipe_out := po\<rparr>) h;
     (pi, b) \<leftarrow> USBH_AllocPipe b 0x80;
     let h = upd_ctl (\<lambda>c. c\<lparr>pipe_in := pi\<rparr>) h;
     b \<leftarrow> open_control_pipes h b;
     Some (USBH_OK, h, os_put USBH_PORT_EVENT b)
   }"

definition proc_enumeration :: "host \<Rightarrow> bus \<Rightarrow> call" where
  "proc_enumeration h b = do {
     (enum_status, h, b) \<leftarrow> USBH_HandleEnum h b;
     (if enum_status = USBH_OK
      then Some (enum_status,
        (upd_dev (\<lambda>d. d\<lparr>current_interface := 0\<rparr>) h)
          \<lparr>gState := (if bNumConfigurations (DevDesc (device h)) = 1 then HOST_SET_CONFIGURATION
                      else HOST_INPUT)\<rparr>, b)
      else if enum_status = USBH_FAIL \<and> parent h = None then do {
        (_, h, b) \<leftarrow> USBH_ReEnumerate h b;
        Some (enum_status, h, b)
      }
      else Some (enum_status, h, b))
   }"

definition proc_set_configuration :: "host \<Rightarrow> bus \<Rightarrow> call" where
  "proc_set_configuration h b = do {
     (s, h, b) \<leftarrow> USBH_SetCfg h b (ucast (bConfigurationValue (CfgDesc (device h))));
     Some (USBH_OK, if s = USBH_OK then h\<lparr>gState := HOST_CHECK_CLASS\<rparr> else h, b)
   }"

definition proc_input :: "usb_env \<Rightarrow> hid \<Rightarrow> world \<Rightarrow> world option" where
  "proc_input env x w = do {
     h \<leftarrow> hs w x;
     (if pUser h then do {
        w \<leftarrow> call_user env x HOST_USER_SELECT_CONFIGURATION w;
        w \<leftarrow> mod_host x (\<lambda>h. h\<lparr>gState := HOST_SET_CONFIGURATION\<rparr>) w;
        Some (post USBH_STATE_CHANGED_EVENT w)
      } else Some w)
   }"

text \<open>The last registered class whose code fits; an empty slot of the table is dereferenced.\<close>

fun check_class_loop :: "class_ref option list \<Rightarrow> u8 \<Rightarrow> nat \<Rightarrow> class_ref option option" where
  "check_class_loop cls code 0 = Some None"
| "check_class_loop cls code (Suc idx) = do {
     found \<leftarrow> check_class_loop cls code idx;
     p \<leftarrow> rd cls idx;
     c \<leftarrow> p;
     Some (if ClassCode c = code then Some c else found)
   }"

definition proc_check_class :: "usb_env \<Rightarrow> hid \<Rightarrow> world \<Rightarrow> world option" where
  "proc_check_class env x w = do {
     h \<leftarrow> hs w x;
     w \<leftarrow> (if ClassNumber h = 0 then Some w
          else do {
            itf \<leftarrow> rd (Itf_Desc (CfgDesc (device h))) 0;
            c \<leftarrow> check_class_loop (pClass h) (bInterfaceClass itf) USBH_MAX_NUM_SUPPORTED_CLASS;
            w \<leftarrow> mod_host x (\<lambda>h. h\<lparr>pActiveClass := c\<rparr>) w;
            (case c of
               Some cl \<Rightarrow> do {
                 (s, w) \<leftarrow> e_Init env cl x w;
                 (if s = USBH_OK then do {
                    w \<leftarrow> mod_host x (\<lambda>h. h\<lparr>gState := HOST_CLASS_REQUEST\<rparr>) w;
                    call_user env x HOST_USER_CLASS_SELECTED w
                  }
                  else mod_host x (\<lambda>h. h\<lparr>pActiveClass := None, gState := HOST_ABORT_STATE\<rparr>) w)
               }
             | None \<Rightarrow> mod_host x (\<lambda>h. h\<lparr>gState := HOST_ABORT_STATE\<rparr>) w)
          });
     Some (post USBH_STATE_CHANGED_EVENT w)
   }"

definition proc_class_request :: "usb_env \<Rightarrow> hid \<Rightarrow> world \<Rightarrow> world option" where
  "proc_class_request env x w = do {
     h \<leftarrow> hs w x;
     (case pActiveClass h of
        Some c \<Rightarrow> do {
          (s, w) \<leftarrow> e_Requests env c x w;
          (if s = USBH_OK then mod_host x (\<lambda>h. h\<lparr>gState := HOST_CLASS\<rparr>) w else Some w)
        }
      | None \<Rightarrow> do {
          w \<leftarrow> mod_host x (\<lambda>h. h\<lparr>gState := HOST_ABORT_STATE\<rparr>) w;
          Some (post USBH_STATE_CHANGED_EVENT w)
        })
   }"

definition proc_class :: "usb_env \<Rightarrow> hid \<Rightarrow> world \<Rightarrow> world option" where
  "proc_class env x w = do {
     h \<leftarrow> hs w x;
     (case pActiveClass h of
        Some c \<Rightarrow> do {
          (_, w) \<leftarrow> e_BgndProcess env c x w;
          Some w
        }
      | None \<Rightarrow> Some w)
   }"

definition proc_disconnected :: "usb_env \<Rightarrow> hid \<Rightarrow> world \<Rightarrow> world option" where
  "proc_disconnected env x w = do {
     h \<leftarrow> hs w x;
     w \<leftarrow> (case pActiveClass h of
            Some c \<Rightarrow> do {
              (_, w) \<leftarrow> e_DeInit env c x w;
              mod_host x (\<lambda>h. h\<lparr>pActiveClass := None\<rparr>) w
            }
          | None \<Rightarrow> Some w);
     (_, w) \<leftarrow> on_host x DeInitStateMachine w;
     Some w
   }"

definition no_status :: "world option \<Rightarrow> wcall" where
  "no_status r = map_option (Pair USBH_OK) r"

definition process_state :: "usb_env \<Rightarrow> hid \<Rightarrow> HOST_StateTypeDef \<Rightarrow> world \<Rightarrow> wcall" where
  "process_state env x g w =
     (case g of
        HOST_IDLE \<Rightarrow> on_host x proc_idle w
      | HOST_DEV_ATTACHED \<Rightarrow> on_host x proc_attached w
      | HOST_ENUMERATION \<Rightarrow> on_host x proc_enumeration w
      | HOST_INPUT \<Rightarrow> no_status (proc_input env x w)
      | HOST_SET_CONFIGURATION \<Rightarrow> on_host x proc_set_configuration w
      | HOST_CHECK_CLASS \<Rightarrow> no_status (proc_check_class env x w)
      | HOST_CLASS_REQUEST \<Rightarrow> no_status (proc_class_request env x w)
      | HOST_CLASS \<Rightarrow> no_status (proc_class env x w)
      | HOST_DEV_DISCONNECTED \<Rightarrow> no_status (proc_disconnected env x w)
      | _ \<Rightarrow> Some (USBH_OK, w))"

text \<open>
  \<open>USBH_Process\<close> masks the port interrupt around the step. A child handle reports the enumeration
  status to the hub driver that polls it; the root always reports \<open>USBH_OK\<close>.
\<close>

definition mask_hprt :: "hid \<Rightarrow> bool \<Rightarrow> world \<Rightarrow> world option" where
  "mask_hprt x on w = do {
     h \<leftarrow> hs w x;
     Some (if pData h then mod_bus (hw (HW_HprtIrq on)) w else w)
   }"

definition USBH_Process :: "usb_env \<Rightarrow> hid \<Rightarrow> world \<Rightarrow> wcall" where
  "USBH_Process env x w = do {
     w \<leftarrow> mask_hprt x False w;
     h \<leftarrow> hs w x;
     (enum_status, w) \<leftarrow> process_state env x (gState h) w;
     w \<leftarrow> mask_hprt x True w;
     h \<leftarrow> hs w x;
     Some (if parent h \<noteq> None then enum_status else USBH_OK, w)
   }"

subsection \<open>Port events and the timer\<close>

text \<open>
  \<open>USBH_HandleSof\<close> and \<open>USBH_Children_Process_OS\<close> recurse over the children; the first argument
  bounds the depth of the tree. The children are looked up again before each call, as in the code.
\<close>

fun each_child :: "(hid \<Rightarrow> world \<Rightarrow> world option) \<Rightarrow> hid \<Rightarrow> nat \<Rightarrow> world \<Rightarrow> world option" where
  "each_child f x 0 w = Some w"
| "each_child f x (Suc i) w = do {
     w \<leftarrow> each_child f x i w;
     h \<leftarrow> hs w x;
     c \<leftarrow> rd (children h) i;
     (case c of None \<Rightarrow> Some w | Some y \<Rightarrow> f y w)
   }"

fun USBH_HandleSof :: "usb_env \<Rightarrow> nat \<Rightarrow> hid \<Rightarrow> world \<Rightarrow> world option" where
  "USBH_HandleSof env 0 x w = None"
| "USBH_HandleSof env (Suc d) x w = do {
     h \<leftarrow> hs w x;
     (case pActiveClass h of
        None \<Rightarrow> Some w
      | Some c \<Rightarrow>
          if gState h = HOST_CLASS then do {
            (_, w) \<leftarrow> e_SOFProcess env c x w;
            each_child (USBH_HandleSof env d) x USBH_MAX_NUM_CHILD w
          } else Some w)
   }"

definition USBH_LL_IncTimer :: "usb_env \<Rightarrow> nat \<Rightarrow> hid \<Rightarrow> world \<Rightarrow> world option" where
  "USBH_LL_IncTimer env d x w = do {
     w \<leftarrow> mod_host x (\<lambda>h. h\<lparr>Timer := Timer h + 1\<rparr>) w;
     USBH_HandleSof env d x w
   }"

definition USBH_LL_PortEnabled :: "host \<Rightarrow> bus \<Rightarrow> host \<times> bus" where
  "USBH_LL_PortEnabled h b =
     (let h = upd_dev (\<lambda>d. d\<lparr>PortEnabled := 1\<rparr>) h;
          h = (if gState h = HOST_DEV_WAIT_FOR_ATTACHMENT then h\<lparr>gState := HOST_DEV_ATTACHED\<rparr> else h)
      in (h, os_put USBH_PORT_EVENT b))"

definition USBH_LL_PortDisabled :: "host \<Rightarrow> host" where
  "USBH_LL_PortDisabled h = upd_dev (\<lambda>d. d\<lparr>PortEnabled := 0\<rparr>) h"

definition USBH_IsPortEnabled :: "host \<Rightarrow> u8" where
  "USBH_IsPortEnabled h = PortEnabled (device h)"

definition USBH_LL_Connect :: "usb_env \<Rightarrow> hid \<Rightarrow> world \<Rightarrow> wcall" where
  "USBH_LL_Connect env x w = do {
     h \<leftarrow> hs w x;
     w \<leftarrow> (if gState h = HOST_IDLE then do {
            w \<leftarrow> mod_host x (upd_dev (\<lambda>d. d\<lparr>is_connected := 1\<rparr>)) w;
            (if pUser h then call_user env x HOST_USER_CONNECTION w else Some w)
          }
          else if gState h = HOST_DEV_WAIT_FOR_ATTACHMENT
          then mod_host x (\<lambda>h. h\<lparr>gState := HOST_DEV_ATTACHED\<rparr>) w
          else Some w);
     Some (USBH_OK, post USBH_PORT_EVENT w)
   }"

definition disconnect_port :: "host \<Rightarrow> bus \<Rightarrow> call" where
  "disconnect_port h b = do {
     let b = USBH_Delay 1 b;
     (_, b) \<leftarrow> USBH_LL_Stop h b;
     (_, b) \<leftarrow> USBH_FreePipe b (pipe_in (Control h));
     (_, b) \<leftarrow> USBH_FreePipe b (pipe_out (Control h));
     (_, b) \<leftarrow> USBH_LL_Start h b;
     Some (USBH_OK, h\<lparr>gState := HOST_DEV_DISCONNECTED\<rparr>, os_put USBH_PORT_EVENT b)
   }"

definition USBH_LL_Disconnect :: "usb_env \<Rightarrow> hid \<Rightarrow> world \<Rightarrow> wcall" where
  "USBH_LL_Disconnect env x w = do {
     w \<leftarrow> mod_host x (upd_dev (\<lambda>d. d\<lparr>is_connected := 0\<rparr>)) w;
     h \<leftarrow> hs w x;
     w \<leftarrow> (if pUser h then call_user env x HOST_USER_DISCONNECTION w else Some w);
     on_host x disconnect_port w
   }"

definition USBH_LL_NotifyURBChange :: "bus \<Rightarrow> USBH_StatusTypeDef \<times> bus" where
  "USBH_LL_NotifyURBChange b = (USBH_OK, os_put USBH_URB_EVENT b)"

subsection \<open>The host thread\<close>

fun USBH_Children_Process_OS :: "usb_env \<Rightarrow> nat \<Rightarrow> hid \<Rightarrow> world \<Rightarrow> world option" where
  "USBH_Children_Process_OS env 0 x w = None"
| "USBH_Children_Process_OS env (Suc d) x w =
     each_child (\<lambda>y w. do {
         (_, w) \<leftarrow> USBH_Process env y w;
         USBH_Children_Process_OS env d y w
       }) x USBH_MAX_NUM_CHILD w"

text \<open>
  One round of the thread's loop. The inner \<open>None\<close> is a thread that waits for an event, the outer
  one a fault.
\<close>

definition USBH_Process_OS :: "usb_env \<Rightarrow> nat \<Rightarrow> hid \<Rightarrow> world \<Rightarrow> world option option" where
  "USBH_Process_OS env d x w =
     (case mq_get (os_event (wb w)) of
        None \<Rightarrow> Some None
      | Some (e, q) \<Rightarrow> do {
          let w = mod_bus (\<lambda>b. b\<lparr>os_event := q\<rparr>) w;
          (_, w) \<leftarrow> USBH_Process env x w;
          w \<leftarrow> USBH_Children_Process_OS env d x w;
          Some (Some w)
        })"

subsection \<open>Looking up interfaces\<close>

lemma find_itf_loop_spec:
  "USBH_MAX_NUM_INTERFACES \<le> length itfs \<Longrightarrow>
   \<exists>r. find_itf_loop itfs P i = Some r \<and>
     (r = 0xFF \<and> (\<forall>k. i \<le> k \<and> k < USBH_MAX_NUM_INTERFACES \<longrightarrow> \<not> P (itfs ! k)) \<or>
      (\<exists>k. r = of_nat k \<and> i \<le> k \<and> k < USBH_MAX_NUM_INTERFACES \<and> P (itfs ! k) \<and>
         (\<forall>j. i \<le> j \<and> j < k \<longrightarrow> \<not> P (itfs ! j))))"
proof (induction itfs P i rule: find_itf_loop.induct)
  case (1 itfs P i)
  show ?case
  proof (cases "i < USBH_MAX_NUM_INTERFACES \<and> \<not> P (itfs ! i)")
    case True
    then have rd: "rd itfs i = Some (itfs ! i)" using "1.prems" by (simp add: rd_def)
    from "1.IH" [OF _ rd] True "1.prems" obtain r where r: "find_itf_loop itfs P (Suc i) = Some r"
      and d: "r = 0xFF \<and> (\<forall>k. Suc i \<le> k \<and> k < USBH_MAX_NUM_INTERFACES \<longrightarrow> \<not> P (itfs ! k)) \<or>
      (\<exists>k. r = of_nat k \<and> Suc i \<le> k \<and> k < USBH_MAX_NUM_INTERFACES \<and> P (itfs ! k) \<and>
         (\<forall>j. Suc i \<le> j \<and> j < k \<longrightarrow> \<not> P (itfs ! j)))" by auto
    have "find_itf_loop itfs P i = Some r"
      using True rd r by (simp add: find_itf_loop.simps [of itfs P i])
    moreover have st: "\<And>k. i \<le> k \<Longrightarrow> k = i \<or> Suc i \<le> k" by arith
    ultimately show ?thesis using d True by (metis Suc_leD)
  next
    case False
    then show ?thesis using "1.prems"
      by (auto simp: find_itf_loop.simps [of itfs P i] rd_def)
  qed
qed

text \<open>
  On any stored configuration \<open>USBH_FindInterface\<close> returns the first of the five interfaces that
  fits class, subclass and protocol (255 in an argument fits everything), and 255 when none does.
\<close>

theorem FindInterface_first:
  assumes "cfg_wf (CfgDesc (device h))"
  shows "\<exists>r. USBH_FindInterface h cls sub prot = Some r \<and>
     (let fits = (\<lambda>k. itf_matches cls sub prot (Itf_Desc (CfgDesc (device h)) ! k)) in
      (r = 0xFF \<and> (\<forall>k\<in>{0..<USBH_MAX_NUM_INTERFACES}. \<not> fits k)) \<or>
      (\<exists>k\<in>{0..<USBH_MAX_NUM_INTERFACES}. r = of_nat k \<and> fits k \<and> (\<forall>j\<in>{0..<k}. \<not> fits j)))"
proof -
  have "USBH_MAX_NUM_INTERFACES \<le> length (Itf_Desc (CfgDesc (device h)))"
    using assms by (simp add: cfg_wf_def)
  from find_itf_loop_spec [OF this, of "itf_matches cls sub prot" 0] obtain r
    where r0: "find_itf_loop (Itf_Desc (CfgDesc (device h))) (itf_matches cls sub prot) 0 = Some r"
    and d: "r = 0xFF \<and>
      (\<forall>k. 0 \<le> k \<and> k < USBH_MAX_NUM_INTERFACES \<longrightarrow> \<not> itf_matches cls sub prot (Itf_Desc (CfgDesc (device h)) ! k)) \<or>
      (\<exists>k. r = of_nat k \<and> 0 \<le> k \<and> k < USBH_MAX_NUM_INTERFACES \<and>
         itf_matches cls sub prot (Itf_Desc (CfgDesc (device h)) ! k) \<and>
         (\<forall>j. 0 \<le> j \<and> j < k \<longrightarrow> \<not> itf_matches cls sub prot (Itf_Desc (CfgDesc (device h)) ! j)))"
    by (elim exE conjE)
  have r: "USBH_FindInterface h cls sub prot = Some r" using r0 by (simp add: USBH_FindInterface_def)
  from d show ?thesis
  proof (elim disjE exE conjE)
    fix k assume "r = of_nat k" "k < USBH_MAX_NUM_INTERFACES"
      "itf_matches cls sub prot (Itf_Desc (CfgDesc (device h)) ! k)"
      "\<forall>j. 0 \<le> j \<and> j < k \<longrightarrow> \<not> itf_matches cls sub prot (Itf_Desc (CfgDesc (device h)) ! j)"
    then show ?thesis using r unfolding Let_def
      by (intro exI [of _ r] conjI disjI2 bexI [of _ k]) simp_all
  qed (use r in \<open>simp add: Let_def\<close>)
qed

lemma sample_cfg_wf: "cfg_wf (CfgDesc (device sample_host))"
  using zero_cfg_wf by (simp add: sample_host_def zero_host_def zero_device_def)

lemma FindInterface_first_witness:
  "\<exists>r. USBH_FindInterface sample_host 0x09 0 0xff = Some r \<and>
     (let fits = (\<lambda>k. itf_matches 0x09 0 0xff (Itf_Desc (CfgDesc (device sample_host)) ! k)) in
      (r = 0xFF \<and> (\<forall>k\<in>{0..<USBH_MAX_NUM_INTERFACES}. \<not> fits k)) \<or>
      (\<exists>k\<in>{0..<USBH_MAX_NUM_INTERFACES}. r = of_nat k \<and> fits k \<and> (\<forall>j\<in>{0..<k}. \<not> fits j)))"
  by (rule FindInterface_first) (rule sample_cfg_wf)

subsection \<open>Requests and the rest of the handle\<close>

lemma set_setup_simps [simp]:
  "self (set_setup rt rq v i l h) = self h" "gState (set_setup rt rq v i l h) = gState h"
  "EnumState (set_setup rt rq v i l h) = EnumState h" "RequestState (set_setup rt rq v i l h) = RequestState h"
  "device (set_setup rt rq v i l h) = device h" "pData (set_setup rt rq v i l h) = pData h"
  "pUser (set_setup rt rq v i l h) = pUser h" "parent (set_setup rt rq v i l h) = parent h"
  "pipe_in (Control (set_setup rt rq v i l h)) = pipe_in (Control h)"
  "pipe_out (Control (set_setup rt rq v i l h)) = pipe_out (Control h)"
  "errorcount (Control (set_setup rt rq v i l h)) = errorcount (Control h)"
  by (simp_all add: set_setup_def upd_ctl_def)

text \<open>What every standard request keeps: the machine's own states and the shared tables.\<close>

definition req_frame :: "host \<Rightarrow> host \<Rightarrow> bool" where
  "req_frame h h' \<longleftrightarrow> gState h' = gState h \<and> EnumState h' = EnumState h \<and> self h' = self h \<and>
     parent h' = parent h \<and> pData h' = pData h \<and> pUser h' = pUser h \<and> is_child h' = is_child h \<and>
     children h' = children h \<and> pActiveClass h' = pActiveClass h \<and> pClass h' = pClass h \<and>
     pClassData h' = pClassData h \<and> app_data h' = app_data h \<and> Timer h' = Timer h \<and>
     dev_address (device h') = dev_address (device h) \<and> speed (device h') = speed (device h) \<and>
     pipe_in (Control h') = pipe_in (Control h) \<and> pipe_out (Control h') = pipe_out (Control h)"

lemma ctl_req_frame: "ctl_frame h h' \<Longrightarrow> req_frame h h'"
  using ctl_frame_fields [of h h'] by (simp add: req_frame_def ctl_frame_def)

lemma req_frame_refl [simp]: "req_frame h h"
  by (simp add: req_frame_def)

lemma req_frame_trans: "req_frame h h1 \<Longrightarrow> req_frame h1 h2 \<Longrightarrow> req_frame h h2"
  by (simp add: req_frame_def)

lemma req_frame_setup [simp]: "req_frame (set_setup rt rq v i l h) h' = req_frame h h'"
  by (simp add: req_frame_def set_setup_def upd_ctl_def)

lemma CtlReq_req_frame:
  "USBH_CtlReq h b buf len = Some (s, h', b') \<Longrightarrow> req_frame h h' \<and> bus_frame b b'"
  using CtlReq_frame ctl_req_frame by blast

lemma GetDescriptor_frame:
  "USBH_GetDescriptor h b t v buf len = Some (s, h', b') \<Longrightarrow> req_frame h h' \<and> bus_frame b b'"
  by (auto simp: USBH_GetDescriptor_def Let_def split: if_splits dest: CtlReq_req_frame)

lemma short_requests_frame:
  "USBH_SetAddress h b a = Some (s, h', b') \<Longrightarrow> req_frame h h' \<and> bus_frame b b'"
  "USBH_SetCfg h b v = Some (s, h', b') \<Longrightarrow> req_frame h h' \<and> bus_frame b b'"
  "USBH_SetInterface h b e a = Some (s, h', b') \<Longrightarrow> req_frame h h' \<and> bus_frame b b'"
  "USBH_ClrFeature h b e = Some (s, h', b') \<Longrightarrow> req_frame h h' \<and> bus_frame b b'"
  by (auto simp: USBH_SetAddress_def USBH_SetCfg_def USBH_SetInterface_def USBH_ClrFeature_def Let_def
      split: if_splits dest: CtlReq_req_frame)

lemma req_frame_dev [simp]:
  "req_frame h (upd_dev (\<lambda>d. d\<lparr>DevDesc := x\<rparr>) h') = req_frame h h'"
  "req_frame h (upd_dev (\<lambda>d. d\<lparr>CfgDesc := c\<rparr>) h') = req_frame h h'"
  "req_frame h (upd_dev (\<lambda>d. d\<lparr>Data := bs\<rparr>) h') = req_frame h h'"
  by (simp_all add: req_frame_def upd_dev_def)

lemma desc_requests_frame:
  "USBH_Get_DevDesc h b n = Some (s, h', b') \<Longrightarrow> req_frame h h' \<and> bus_frame b b'"
  "USBH_Get_CfgDesc h b m = Some (s, h', b') \<Longrightarrow> req_frame h h' \<and> bus_frame b b'"
  "USBH_Get_StringDesc h b i m = Some (s, h', b') \<Longrightarrow> req_frame h h' \<and> bus_frame b b'"
  by (auto simp: USBH_Get_DevDesc_def USBH_Get_CfgDesc_def USBH_Get_StringDesc_def bind_eq_Some_conv
      split: if_splits dest: GetDescriptor_frame)

lemmas request_frames = short_requests_frame desc_requests_frame

subsection \<open>Enumeration advances one state at a time\<close>

lemma Get_One_Address_frame:
  "USBH_Get_One_Address h b = Some (a, h', b') \<Longrightarrow>
     EnumState h' = EnumState h \<and> gState h' = gState h \<and> same_place h h' \<and> Pipes b' = Pipes b \<and>
     a = dev_address (device h')"
  by (auto simp: USBH_Get_One_Address_def same_place_def bind_eq_Some_conv split: if_splits option.splits)

lemmas enum_case_defs = enum_idle_def enum_full_dev_desc_def enum_set_addr_def enum_cfg_desc_def
  enum_full_cfg_desc_def enum_mfc_string_def enum_product_string_def enum_serial_string_def

lemma HandleEnum_steps:
  assumes "USBH_HandleEnum h b = Some (s, h', b')"
  shows "enum_val (EnumState h') = enum_val (EnumState h) \<or>
      enum_val (EnumState h') = Suc (enum_val (EnumState h))"
    "s = USBH_OK \<Longrightarrow> EnumState h = ENUM_GET_SERIALNUM_STRING_DESC \<and> EnumState h' = EnumState h"
    "gState h' = gState h" "parent h' = parent h"
  using assms
  apply (auto simp: USBH_HandleEnum_def enum_case_defs bind_eq_Some_conv Let_def upd_ctl_def req_frame_def same_place_def
      split: ENUM_StateTypeDef.splits if_splits dest!: request_frames Get_One_Address_frame)
  done

text \<open>
  C17: a poll of the enumeration never goes back and skips no state, reports completion only from
  the last state, and leaves the host state to its caller.
\<close>

theorem HandleEnum_monotone:
  assumes "USBH_HandleEnum h b = Some (s, h', b')"
  shows "EnumState h \<le> EnumState h' \<and> enum_val (EnumState h') \<le> Suc (enum_val (EnumState h)) \<and>
     (s = USBH_OK \<longrightarrow> EnumState h = ENUM_GET_SERIALNUM_STRING_DESC \<and> EnumState h' = EnumState h) \<and>
     gState h' = gState h"
  using HandleEnum_steps [OF assms] by (auto simp: enum_order_defs)

definition sample_named :: host where
  "sample_named = sample_host\<lparr>EnumState := ENUM_GET_MFC_STRING_DESC\<rparr>"

lemma HandleEnum_monotone_witness:
  "\<exists>h'. USBH_HandleEnum sample_named sample_bus =
      Some (USBH_BUSY, h', os_put USBH_STATE_CHANGED_EVENT sample_bus) \<and>
    EnumState sample_named \<le> EnumState h' \<and> gState h' = gState sample_named"
proof -
  let ?h = "sample_named\<lparr>EnumState := ENUM_GET_PRODUCT_STRING_DESC\<rparr>"
  have r: "USBH_HandleEnum sample_named sample_bus =
      Some (USBH_BUSY, ?h, os_put USBH_STATE_CHANGED_EVENT sample_bus)"
    by (simp add: USBH_HandleEnum_def enum_mfc_string_def sample_named_def sample_host_def zero_host_def
        zero_device_def zero_dev_def)
  from r HandleEnum_monotone [OF r] show ?thesis by blast
qed

subsection \<open>Initialisation establishes the pools\<close>

lemma pipes_used_zero: "Pipes b = replicate USBH_MAX_PIPES_NBR 0 \<Longrightarrow> pipes_used b = {}"
  by (auto simp: pipes_used_def pipe_used_def)

lemma addr_used_zero: "addresses b = replicate n 0 \<Longrightarrow> USBH_MAX_NUM_DEVICE \<le> n \<Longrightarrow> addr_used b = {}"
  by (auto simp: addr_used_def)

lemma DeInitStateMachine_root:
  assumes "is_child h = 0" "pipes_ok b" "dev_address (device h) = 0"
  shows "DeInitStateMachine h b = Some (USBH_OK, reset_device (reset_machine USBH_MPS_DEFAULT (clear_device h)),
     b\<lparr>Pipes := replicate USBH_MAX_PIPES_NBR 0, addr_hdr := 0\<rparr>)"
proof -
  have "dev_address (device (reset_machine USBH_MPS_DEFAULT (clear_device h))) = 0"
    using assms(3) by (simp add: reset_machine_def clear_device_def upd_ctl_def upd_dev_def)
  with assms show ?thesis by (simp add: DeInitStateMachine_def pipes_ok_def addr_clear_def)
qed

text \<open>
  A first initialisation with enough memory leaves both pools empty, the queue empty and the
  machine idle. It also overwrites the byte before the address table (\<open>addr_hdr\<close>, the top byte of the
  allocator's header, whose bit 7 marks the block as allocated).
\<close>

theorem Init_ok:
  assumes "hs w x = Some h" "is_child h = 0" "dev_address (device h) = 0" "mallocs w = []"
  shows "\<exists>w' h'. USBH_Init x True drv w = Some (USBH_OK, w') \<and> hs w' x = Some h' \<and>
     pipes_ok (wb w') \<and> pipes_used (wb w') = {} \<and> addr_ok (wb w') \<and> addr_used (wb w') = {} \<and>
     addr_hdr (wb w') = 0 \<and> os_event (wb w') = [] \<and>
     gState h' = HOST_IDLE \<and> EnumState h' = ENUM_IDLE \<and> RequestState h' = CMD_SEND \<and>
     ClassNumber h' = 0 \<and> pActiveClass h' = None \<and> errorcount (Control h') = 0 \<and> pData h' \<and> pUser h'"
proof -
  let ?h = "h\<lparr>host_id := drv, pActiveClass := None, ClassNumber := 0\<rparr>"
  let ?b = "(wb w)\<lparr>Pipes := replicate USBH_MAX_PIPES_NBR 0, addresses := replicate (USBH_MAX_NUM_DEVICE * 4) 0, addr_hdr := 0x80\<rparr>"
  have "DeInitStateMachine ?h ?b = Some (USBH_OK, reset_device (reset_machine USBH_MPS_DEFAULT (clear_device ?h)),
     ?b\<lparr>Pipes := replicate USBH_MAX_PIPES_NBR 0, addr_hdr := 0\<rparr>)"
    using assms by (intro DeInitStateMachine_root) (simp_all add: pipes_ok_def)
  then show ?thesis using assms
    by (simp add: USBH_Init_def take_malloc_def Let_def USBH_LL_Init_def USBH_LL_SetTimer_def pipes_ok_def
        pipes_used_zero addr_used_zero addr_ok_def reset_device_def reset_machine_def clear_device_def
        upd_ctl_def upd_dev_def)
qed

definition sample_world :: world where
  "sample_world = \<lparr>hs = [0 \<mapsto> zero_host 0], wb = zero_bus, mallocs = [], next_hid = 1, clock = 0\<rparr>"

lemma Init_ok_witness:
  "\<exists>w' h'. USBH_Init 0 True 0 sample_world = Some (USBH_OK, w') \<and> hs w' 0 = Some h' \<and>
     pipes_ok (wb w') \<and> pipes_used (wb w') = {} \<and> addr_ok (wb w') \<and> addr_used (wb w') = {} \<and>
     addr_hdr (wb w') = 0 \<and> os_event (wb w') = [] \<and>
     gState h' = HOST_IDLE \<and> EnumState h' = ENUM_IDLE \<and> RequestState h' = CMD_SEND \<and>
     ClassNumber h' = 0 \<and> pActiveClass h' = None \<and> errorcount (Control h') = 0 \<and> pData h' \<and> pUser h'"
  by (rule Init_ok [where h = "zero_host 0"]) (simp_all add: sample_world_def zero_host_def zero_device_def)

subsection \<open>Attaching a device\<close>

lemma OpenPipe_frame:
  assumes "USBH_OpenPipe h b pipe ep a sp t mps = Some (s, b')"
  shows "Pipes b' = Pipes b" "addresses b' = addresses b" "addr_hdr b' = addr_hdr b"
    "os_event b' = os_event b" "length (hc b') = length (hc b)"
  using assms HC_Init_frame by (fastforce simp: USBH_OpenPipe_def bind_eq_Some_conv OpenPipe_eq_Some_iff)+

lemma OpenPipe_Some:
  assumes "pData h" "unat pipe < length (hc b)"
  shows "\<exists>b'. USBH_OpenPipe h b pipe ep a sp t mps = Some (USBH_OK, b')"
proof -
  obtain b' where "HAL_HCD_HC_Init b pipe ep a sp t mps = Some b'" using HC_Init_Some [OF assms(2)] by blast
  with assms(1) show ?thesis by (simp add: USBH_OpenPipe_def USBH_LL_OpenPipe_def)
qed

lemma open_control_pipes_Some:
  assumes "pData h" "unat (pipe_in (Control h)) < length (hc b)" "unat (pipe_out (Control h)) < length (hc b)"
  shows "\<exists>b'. open_control_pipes h b = Some b' \<and> Pipes b' = Pipes b \<and> addresses b' = addresses b \<and>
     addr_hdr b' = addr_hdr b \<and> os_event b' = os_event b \<and> length (hc b') = length (hc b)"
proof -
  from OpenPipe_Some [OF assms(1,2)] obtain b1
    where 1: "USBH_OpenPipe h b (pipe_in (Control h)) 0x80 (dev_address (device h))
                 (speed (device h)) USBH_EP_CONTROL (ucast (pipe_size (Control h))) = Some (USBH_OK, b1)" by blast
  note f1 = OpenPipe_frame [OF 1]
  have "unat (pipe_out (Control h)) < length (hc b1)" using assms(3) f1 by simp
  from OpenPipe_Some [OF assms(1) this] obtain b2
    where 2: "USBH_OpenPipe h b1 (pipe_out (Control h)) 0x00 (dev_address (device h))
                 (speed (device h)) USBH_EP_CONTROL (ucast (pipe_size (Control h))) = Some (USBH_OK, b2)" by blast
  from 1 2 f1 OpenPipe_frame [OF 2] show ?thesis by (simp add: open_control_pipes_def)
qed

lemma pipe_alloc_iff: "pipe_alloc ep b = Some (i, b') \<longleftrightarrow>
    (\<exists>p. USBH_AllocPipe b ep = Some (p, b') \<and> p \<noteq> 0xFF \<and> i = unat p)"
  by (auto simp: pipe_alloc_def split: option.splits)

text \<open>Two allocations in a row, as every driver makes them.\<close>

lemma two_pipes:
  assumes "pipes_ok b" "card (pipes_used b) + 2 \<le> USBH_MAX_PIPES_NBR"
  shows "\<exists>p b1 q b2. USBH_AllocPipe b e1 = Some (p, b1) \<and> USBH_AllocPipe b1 e2 = Some (q, b2) \<and>
    unat p < USBH_MAX_PIPES_NBR \<and> unat q < USBH_MAX_PIPES_NBR \<and> unat p \<notin> pipes_used b \<and>
    unat q \<notin> pipes_used b \<and> unat p \<noteq> unat q \<and> p \<noteq> 0xFF \<and> q \<noteq> 0xFF \<and>
    pipes_used b2 = pipes_used b \<union> {unat p, unat q} \<and> pipes_ok b2 \<and> hc b2 = hc b \<and>
    addresses b2 = addresses b \<and> os_event b2 = os_event b"
proof -
  have c1: "card (pipes_used b) < USBH_MAX_PIPES_NBR" using assms(2) by simp
  from pipes.alloc_Some_if_room [where ep = e1, OF assms(1) c1] obtain i b1
    where i: "pipe_alloc e1 b = Some (i, b1)" by blast
  note a1 = pipes.alloc_slot [OF assms(1) i]
  from i obtain p where p: "USBH_AllocPipe b e1 = Some (p, b1)" "i = unat p" "p \<noteq> 0xFF"
    by (auto simp: pipe_alloc_iff)
  have ok1: "pipes_ok b1" and c2: "card (pipes_used b1) < USBH_MAX_PIPES_NBR"
    using a1 assms pipes.finite_used [OF assms(1)] by (simp_all add: card_insert_if)
  from pipes.alloc_Some_if_room [where ep = e2, OF ok1 c2] obtain j b2
    where j: "pipe_alloc e2 b1 = Some (j, b2)" by blast
  note a2 = pipes.alloc_slot [OF ok1 j]
  from j obtain q where q: "USBH_AllocPipe b1 e2 = Some (q, b2)" "j = unat q" "q \<noteq> 0xFF"
    by (auto simp: pipe_alloc_iff)
  from p q a1 a2 AllocPipe_frame [OF p(1)] AllocPipe_frame [OF q(1)] show ?thesis by auto
qed

text \<open>
  Attaching a device to the root takes two different free pipes for its control endpoint, opens
  both channels, moves to enumeration and leaves an event for the thread.
\<close>

theorem attached_pipes:
  assumes "pipes_ok b" "length (hc b) = HCD_NBR_HC" "card (pipes_used b) + 2 \<le> USBH_MAX_PIPES_NBR" "pData h"
  shows "\<exists>h' b' i j. proc_attached h b = Some (USBH_OK, h', b') \<and> gState h' = HOST_ENUMERATION \<and>
    unat (pipe_out (Control h')) = i \<and> unat (pipe_in (Control h')) = j \<and> i \<noteq> j \<and>
    i \<notin> pipes_used b \<and> j \<notin> pipes_used b \<and> pipes_used b' = pipes_used b \<union> {i, j} \<and>
    pipes_ok b' \<and> length (hc b') = HCD_NBR_HC \<and> os_event b' \<noteq> []"
proof -
  let ?b = "USBH_Delay 100 b"
  have ok: "pipes_ok ?b" "pipes_used ?b = pipes_used b"
    using assms(1) by (simp_all add: pipes_ok_def pipes_used_def USBH_Delay_def)
  from two_pipes [OF ok(1), of 0 "0x80"] assms(3) ok(2) obtain po b1 pin b2
    where po: "USBH_AllocPipe ?b 0 = Some (po, b1)" and pin: "USBH_AllocPipe b1 0x80 = Some (pin, b2)"
    and r: "unat po < USBH_MAX_PIPES_NBR" "unat pin < USBH_MAX_PIPES_NBR"
      "unat po \<notin> pipes_used b" "unat pin \<notin> pipes_used b" "unat po \<noteq> unat pin"
      "pipes_used b2 = pipes_used b \<union> {unat po, unat pin}" "pipes_ok b2" "hc b2 = hc ?b"
    by auto
  have hcl: "length (hc b2) = HCD_NBR_HC" using r(8) assms(2) by (simp add: USBH_Delay_def)
  obtain sp where sp: "USBH_LL_GetSpeed h ?b = Some sp" using assms(4) by (simp add: USBH_LL_GetSpeed_def)
  let ?h = "upd_ctl (\<lambda>c. c\<lparr>pipe_in := pin\<rparr>) (upd_ctl (\<lambda>c. c\<lparr>pipe_out := po\<rparr>)
     ((upd_dev (\<lambda>d. d\<lparr>speed := sp\<rparr>) h)\<lparr>gState := HOST_ENUMERATION\<rparr>))"
  have "\<exists>b'. open_control_pipes ?h b2 = Some b' \<and> Pipes b' = Pipes b2 \<and> addresses b' = addresses b2 \<and>
     addr_hdr b' = addr_hdr b2 \<and> os_event b' = os_event b2 \<and> length (hc b') = length (hc b2)"
    by (rule open_control_pipes_Some)
      (use assms(4) r hcl in \<open>simp_all add: upd_ctl_def upd_dev_def\<close>)
  then obtain b3 where b3: "open_control_pipes ?h b2 = Some b3" "Pipes b3 = Pipes b2" "length (hc b3) = length (hc b2)"
    by blast
  have "proc_attached h b = Some (USBH_OK, ?h, os_put USBH_PORT_EVENT b3)"
    using sp po pin b3(1) by (simp add: proc_attached_def)
  moreover have "pipes_used (os_put USBH_PORT_EVENT b3) = pipes_used b2" "pipes_ok (os_put USBH_PORT_EVENT b3)"
    using b3(2) r(7) by (simp_all add: pipes_used_def pipes_ok_def)
  ultimately show ?thesis using r hcl b3
    by (intro exI [of _ ?h] exI [of _ "os_put USBH_PORT_EVENT b3"] exI [of _ "unat po"] exI [of _ "unat pin"])
      (auto simp: upd_ctl_def)
qed

lemma sample_pools: "pipes_ok sample_bus" "length (hc sample_bus) = HCD_NBR_HC"
  "card (pipes_used sample_bus) + 2 \<le> USBH_MAX_PIPES_NBR" "pData sample_host"
proof -
  have "i \<in> {0, 1}" if "i \<in> pipes_used sample_bus" for i
  proof (rule ccontr)
    assume "i \<notin> {0, 1}"
    then obtain j where "i = Suc (Suc j)" by (metis insertCI not0_implies_Suc One_nat_def)
    with that show False by (auto simp: pipes_used_def pipe_used_def sample_bus_def)
  qed
  then have "pipes_used sample_bus \<subseteq> {0, 1}" by blast
  then have "card (pipes_used sample_bus) \<le> card {0, 1 :: nat}" by (rule card_mono [rotated]) simp
  then show "card (pipes_used sample_bus) + 2 \<le> USBH_MAX_PIPES_NBR" by simp
qed (simp_all add: pipes_ok_def sample_bus_def zero_bus_def sample_host_def)

lemma attached_pipes_witness:
  "\<exists>h' b' i j. proc_attached sample_host sample_bus = Some (USBH_OK, h', b') \<and> gState h' = HOST_ENUMERATION \<and>
    unat (pipe_out (Control h')) = i \<and> unat (pipe_in (Control h')) = j \<and> i \<noteq> j \<and>
    i \<notin> pipes_used sample_bus \<and> j \<notin> pipes_used sample_bus \<and> pipes_used b' = pipes_used sample_bus \<union> {i, j} \<and>
    pipes_ok b' \<and> length (hc b') = HCD_NBR_HC \<and> os_event b' \<noteq> []"
  by (rule attached_pipes [OF sample_pools])

subsection \<open>Losing a device\<close>

lemma Start_eq_Some_iff:
  "USBH_LL_Start h b = Some (s, b') \<longleftrightarrow> pData h \<and> s = USBH_OK \<and> b' = HAL_HCD_Start b"
  by (auto simp: USBH_LL_Start_def)

text \<open>
  Losing the device gives its two control pipes back to the pool, restarts the port and leaves
  an event, so the thread sees the disconnected state.
\<close>

theorem disconnect_frees:
  assumes "pipes_ok b" "pData h"
  shows "\<exists>b'. disconnect_port h b = Some (USBH_OK, h\<lparr>gState := HOST_DEV_DISCONNECTED\<rparr>, b') \<and>
     pipes_ok b' \<and> pipes_used b' = pipes_used b - {unat (pipe_in (Control h)), unat (pipe_out (Control h))} \<and>
     os_event b' \<noteq> []"
proof -
  let ?b = "hw HW_StopHost (USBH_Delay 1 b)"
  have ok: "pipes_ok ?b" "pipes_used ?b = pipes_used b"
    using assms(1) by (simp_all add: pipes_ok_def pipes_used_def USBH_Delay_def)
  obtain b1 where 1: "USBH_FreePipe ?b (pipe_in (Control h)) = Some (USBH_OK, b1)"
    using FreePipe_Some [OF ok(1)] by blast
  note u1 = FreePipe_used [OF ok(1) 1]
  obtain b2 where 2: "USBH_FreePipe b1 (pipe_out (Control h)) = Some (USBH_OK, b2)"
    using FreePipe_Some [OF u1(2)] by blast
  note u2 = FreePipe_used [OF u1(2) 2]
  have "disconnect_port h b = Some (USBH_OK, h\<lparr>gState := HOST_DEV_DISCONNECTED\<rparr>,
      os_put USBH_PORT_EVENT (HAL_HCD_Start b2))"
    using 1 2 assms(2) by (simp add: disconnect_port_def USBH_LL_Stop_def HAL_HCD_Stop_def USBH_LL_Start_def)
  then show ?thesis using u1 u2 ok
    by (auto simp: pipes_ok_def pipes_used_def HAL_HCD_Start_def)
qed

lemma disconnect_frees_witness:
  "\<exists>b'. disconnect_port sample_host sample_bus =
      Some (USBH_OK, sample_host\<lparr>gState := HOST_DEV_DISCONNECTED\<rparr>, b') \<and>
     pipes_ok b' \<and> pipes_used b' = pipes_used sample_bus -
       {unat (pipe_in (Control sample_host)), unat (pipe_out (Control sample_host))} \<and> os_event b' \<noteq> []"
  by (rule disconnect_frees [OF sample_pools(1,4)])

subsection \<open>What the core expects of class drivers and of the user\<close>

text \<open>
  The interface of the class drivers, of the user callback and of the interrupts. The interrupts, which
  the drivers and the callback let in where they spin, keep the tree and move no machine but that of the
  handle at the root port, \<open>r\<close>. Only the release and the polling of a class may change the tree, and
  only below the handle they are called for, whose machine they leave to the interrupts.
\<close>

locale host_callbacks =
  fixes env :: usb_env and r :: hid
  assumes irq_keeps: "e_irq env n w = Some w' \<Longrightarrow> keeps r w w'"
    and user_keeps: "e_user env x code w = Some w' \<Longrightarrow> keeps r w w'"
    and init_keeps: "e_Init env c x w = Some (s, w') \<Longrightarrow> keeps r w w'"
    and requests_keeps: "e_Requests env c x w = Some (s, w') \<Longrightarrow> keeps r w w'"
    and deinit_step: "\<lbrakk>e_DeInit env c x w = Some (s, w'); tree_ok w\<rbrakk> \<Longrightarrow> class_step r x w w'"
    and process_step: "\<lbrakk>e_BgndProcess env c x w = Some (s, w'); tree_ok w\<rbrakk> \<Longrightarrow> class_step r x w w'"

definition host_edges :: "(HOST_StateTypeDef \<times> HOST_StateTypeDef) set" where
  "host_edges = {(HOST_IDLE, HOST_DEV_WAIT_FOR_ATTACHMENT), (HOST_DEV_ATTACHED, HOST_ENUMERATION),
     (HOST_ENUMERATION, HOST_SET_CONFIGURATION), (HOST_ENUMERATION, HOST_INPUT),
     (HOST_ENUMERATION, HOST_IDLE), (HOST_INPUT, HOST_SET_CONFIGURATION),
     (HOST_SET_CONFIGURATION, HOST_CHECK_CLASS), (HOST_CHECK_CLASS, HOST_CLASS_REQUEST),
     (HOST_CHECK_CLASS, HOST_ABORT_STATE), (HOST_CLASS_REQUEST, HOST_CLASS),
     (HOST_CLASS_REQUEST, HOST_ABORT_STATE), (HOST_DEV_DISCONNECTED, HOST_IDLE)}"

definition host_edge :: "HOST_StateTypeDef \<Rightarrow> HOST_StateTypeDef \<Rightarrow> bool" where
  "host_edge g g' \<longleftrightarrow> g' = g \<or> (g, g') \<in> host_edges"

lemma host_edge_refl [simp]: "host_edge g g"
  by (simp add: host_edge_def)

lemma DeInitStateMachine_state:
  "DeInitStateMachine h b = Some (s, h', b') \<Longrightarrow> gState h' = gState h \<or> gState h' = HOST_IDLE"
  by (auto simp: DeInitStateMachine_def reset_device_def reset_machine_def clear_device_def upd_ctl_def
      upd_dev_def bind_eq_Some_conv split: if_splits)

lemma ReEnumerate_state:
  "USBH_ReEnumerate h b = Some (s, h', b') \<Longrightarrow> gState h' = gState h \<or> gState h' = HOST_IDLE"
  by (auto simp: USBH_ReEnumerate_def USBH_Stop_def USBH_Start_def bind_eq_Some_conv USBH_LL_DriverVBUS_def
      split: if_splits dest!: DeInitStateMachine_state)

lemma host_step_edge:
  assumes "hs w x = Some h" "on_host x f w = Some (s, w')"
    "\<And>h' b'. f h (wb w) = Some (s, h', b') \<Longrightarrow> host_edge (gState h) (gState h')"
  shows "\<exists>h'. hs w' x = Some h' \<and> host_edge (gState h) (gState h')"
  using assms by (auto simp: on_host_eq_Some_iff)

lemma proc_enumeration_edge:
  assumes "proc_enumeration h b = Some (s, h', b')" "gState h = HOST_ENUMERATION"
  shows "host_edge (gState h) (gState h')"
proof -
  from assms(1) obtain es h1 b1 where e: "USBH_HandleEnum h b = Some (es, h1, b1)"
    and r: "(if es = USBH_OK
      then Some (es,
        (upd_dev (\<lambda>d. d\<lparr>current_interface := 0\<rparr>) h1)
          \<lparr>gState := (if bNumConfigurations (DevDesc (device h1)) = 1 then HOST_SET_CONFIGURATION
                      else HOST_INPUT)\<rparr>, b1)
      else if es = USBH_FAIL \<and> parent h1 = None then do {
        (_, h, b) \<leftarrow> USBH_ReEnumerate h1 b1;
        Some (es, h, b)
      }
      else Some (es, h1, b1)) = Some (s, h', b')"
    by (auto simp: proc_enumeration_def bind_eq_Some_conv)
  have g: "gState h1 = HOST_ENUMERATION" using HandleEnum_steps(3) [OF e] assms(2) by simp
  consider "es = USBH_OK" | "es = USBH_FAIL \<and> parent h1 = None" | "es \<noteq> USBH_OK" "h' = h1"
    using r by (auto split: if_splits)
  then show ?thesis
  proof cases
    case 1
    with r assms(2) show ?thesis by (auto simp: host_edge_def host_edges_def)
  next
    case 2
    with r obtain s2 where "USBH_ReEnumerate h1 b1 = Some (s2, h', b')"
      by (auto simp: bind_eq_Some_conv)
    from ReEnumerate_state [OF this] g assms(2) show ?thesis
      by (auto simp: host_edge_def host_edges_def)
  next
    case 3
    with g assms(2) show ?thesis by simp
  qed
qed

lemma proc_edges:
  "proc_idle h b = Some (s, h', b') \<Longrightarrow> gState h = HOST_IDLE \<Longrightarrow> host_edge (gState h) (gState h')"
  "proc_attached h b = Some (s, h', b') \<Longrightarrow> gState h = HOST_DEV_ATTACHED \<Longrightarrow> host_edge (gState h) (gState h')"
  "proc_enumeration h b = Some (s, h', b') \<Longrightarrow> gState h = HOST_ENUMERATION \<Longrightarrow> host_edge (gState h) (gState h')"
  "proc_set_configuration h b = Some (s, h', b') \<Longrightarrow> gState h = HOST_SET_CONFIGURATION \<Longrightarrow>
     host_edge (gState h) (gState h')"
  subgoal by (auto simp: proc_idle_def bind_eq_Some_conv Let_def host_edge_def host_edges_def split: if_splits)
  subgoal by (auto simp: proc_attached_def bind_eq_Some_conv Let_def host_edge_def host_edges_def upd_ctl_def)
  subgoal by (rule proc_enumeration_edge)
  subgoal by (auto simp: proc_set_configuration_def bind_eq_Some_conv host_edge_def host_edges_def req_frame_def
      split: if_splits dest!: request_frames)
  done

lemma check_class_loop_in:
  "check_class_loop cls code n = Some (Some c) \<Longrightarrow> Some c \<in> set cls"
  by (induction n arbitrary: c) (auto simp: bind_eq_Some_conv rd_eq_Some_iff in_set_conv_nth split: if_splits)

lemma hs_if_mod_bus [simp]: "hs (if c then mod_bus f w else w) = hs w"
  by simp

text \<open>What the states of the machine keep of a handle's place in the tree.\<close>

lemma DeInitStateMachine_place: "DeInitStateMachine h b = Some (s, h', b') \<Longrightarrow> same_place h h'"
  by (auto simp: DeInitStateMachine_def reset_device_def reset_machine_def clear_device_def upd_ctl_def
      upd_dev_def same_place_def bind_eq_Some_conv split: if_splits)

lemma ReEnumerate_place: "USBH_ReEnumerate h b = Some (s, h', b') \<Longrightarrow> same_place h h'"
  by (auto simp: USBH_ReEnumerate_def USBH_Stop_def USBH_Start_def bind_eq_Some_conv USBH_LL_DriverVBUS_def
      same_place_def split: if_splits dest!: DeInitStateMachine_place)

lemma HandleEnum_place: "USBH_HandleEnum h b = Some (s, h', b') \<Longrightarrow> same_place h h'"
  by (auto simp: USBH_HandleEnum_def enum_case_defs bind_eq_Some_conv Let_def upd_ctl_def req_frame_def same_place_def
      split: ENUM_StateTypeDef.splits if_splits dest!: request_frames Get_One_Address_frame)

lemma proc_places:
  "proc_idle h b = Some (s, h', b') \<Longrightarrow> same_place h h'"
  "proc_attached h b = Some (s, h', b') \<Longrightarrow> same_place h h'"
  "proc_enumeration h b = Some (s, h', b') \<Longrightarrow> same_place h h'"
  "proc_set_configuration h b = Some (s, h', b') \<Longrightarrow> same_place h h'"
  subgoal by (auto simp: proc_idle_def bind_eq_Some_conv Let_def same_place_def split: if_splits)
  subgoal by (auto simp: proc_attached_def bind_eq_Some_conv Let_def upd_ctl_def upd_dev_def same_place_def)
  subgoal by (auto simp: proc_enumeration_def bind_eq_Some_conv split: if_splits dest!: HandleEnum_place ReEnumerate_place)
      (auto simp: same_place_def upd_dev_def)
  subgoal by (auto simp: proc_set_configuration_def bind_eq_Some_conv req_frame_def same_place_def
      split: if_splits dest!: request_frames)
  done

text \<open>
  A step of the machine of \<open>x\<close>: along an edge of the graph, or, at the root port, to the disconnected
  state if an unplug came in where the step spins; the tree in order.
\<close>

definition machine_step :: "hid \<Rightarrow> hid \<Rightarrow> host \<Rightarrow> world \<Rightarrow> world \<Rightarrow> bool" where
  "machine_step r x h w w' \<longleftrightarrow> tree_step r x w w' \<and> (\<exists>h'. hs w' x = Some h' \<and>
     (host_edge (gState h) (gState h') \<or> x = r \<and> gState h' = HOST_DEV_DISCONNECTED))"

lemma machine_step_on:
  assumes "on_host x f w = Some (s, w')" "hs w x = Some h" "tree_ok w"
    "\<And>h b h' b' s. f h b = Some (s, h', b') \<Longrightarrow> same_place h h'"
    "\<And>h' b'. f h (wb w) = Some (s, h', b') \<Longrightarrow> host_edge (gState h) (gState h')"
  shows "machine_step r x h w w'"
proof -
  have "tree_step r x w w'" using assms(1,3,4) by (rule tree_step_on)
  moreover have "\<exists>h'. hs w' x = Some h' \<and> host_edge (gState h) (gState h')"
    using assms(2,1) by (rule host_step_edge) (rule assms(5))
  ultimately show ?thesis unfolding machine_step_def by blast
qed

context host_callbacks
begin

lemma call_user_keeps: "call_user env x code w = Some w' \<Longrightarrow> keeps r w w'"
  by (auto simp: call_user_def bind_eq_Some_conv split: if_splits intro: user_keeps)

lemma tick_keeps: "tick env w = Some w' \<Longrightarrow> keeps r w w'"
  by (auto simp: tick_eq_Some_iff dest: irq_keeps)

lemma machine_step_class:
  assumes "class_step r x w w'" "hs w x = Some h" "gState h \<noteq> HOST_DEV_WAIT_FOR_ATTACHMENT"
  shows "machine_step r x h w w'"
proof -
  from assms(1,2) obtain h' where "hs w' x = Some h'" "moved (x = r) h h'" by (auto simp: class_step_def)
  with assms(3) class_tree [OF assms(1)] show ?thesis by (auto simp: machine_step_def moved_def irq_move_def)
qed

lemma machine_step_shape: "shape w' = shape w \<Longrightarrow> tree_ok w \<Longrightarrow> hs w x = Some h \<Longrightarrow> machine_step r x h w w'"
  using class_tree [OF class_step_shape, of w' w r x] shape_Some [of w' w x h]
  by (auto simp: machine_step_def node_eq_iff)

text \<open>A step of the driver, then one that sets the state of the machine, then one of the user callback.\<close>

lemma machine_step_move:
  assumes "class_step r x w w1" "hs w x = Some h" "mod_host x f w1 = Some w2" "keeps r w2 w'"
    "\<And>h1. same_place h1 (f h1) \<and> gState (f h1) = g" "host_edge (gState h) g" "g \<noteq> HOST_DEV_WAIT_FOR_ATTACHMENT"
  shows "machine_step r x h w w'"
proof -
  from assms(1,2) obtain h1 where h1: "hs w1 x = Some h1" by (auto simp: class_step_def)
  have "tree_step r x w1 w2" by (rule tree_step_mod [OF assms(3)]) (use assms(1,5) step_trees in auto)
  with class_tree [OF assms(1)] have t: "tree_step r x w w2" by (rule tree_step_trans)
  have "tree_step r x w w'"
    using t class_tree [OF class_step_keeps [OF assms(4) step_trees(1) [OF t]]] by (rule tree_step_trans)
  moreover have "hs w2 x = Some (f h1)" using assms(3) h1 by (auto simp: mod_host_eq_Some_iff)
  with keeps_Some [OF assms(4)] obtain h' where "hs w' x = Some h'" "moved (x = r) (f h1) h'" by blast
  ultimately show ?thesis using assms(5-7) by (auto simp: machine_step_def moved_def irq_move_def)
qed

lemma input_edge:
  assumes "proc_input env x w = Some w'" "hs w x = Some h" "gState h = HOST_INPUT" "tree_ok w"
  shows "machine_step r x h w w'"
proof (cases "pUser h")
  case True
  with assms obtain w1 w2 where 1: "call_user env x HOST_USER_SELECT_CONFIGURATION w = Some w1"
    "mod_host x (\<lambda>h. h\<lparr>gState := HOST_SET_CONFIGURATION\<rparr>) w1 = Some w2" "w' = post USBH_STATE_CHANGED_EVENT w2"
    by (auto simp: proc_input_def bind_eq_Some_conv)
  show ?thesis
    by (rule machine_step_move [where g = HOST_SET_CONFIGURATION, OF class_step_keeps [OF call_user_keeps [OF 1(1)] assms(4)] assms(2) 1(2)])
      (simp_all add: 1(3) same_place_def assms(3) host_edge_def host_edges_def)
next
  case False
  with assms show ?thesis by (simp add: proc_input_def machine_step_shape)
qed

lemma check_class_edge:
  assumes "proc_check_class env x w = Some w'" "hs w x = Some h" "gState h = HOST_CHECK_CLASS" "tree_ok w"
  shows "machine_step r x h w w'"
proof (cases "ClassNumber h = 0")
  case True
  with assms show ?thesis by (auto simp: proc_check_class_def intro: machine_step_shape)
next
  case False
  with assms obtain c w1 where r: "(case c of
               Some cl \<Rightarrow> do {
                 (s, w) \<leftarrow> e_Init env cl x (put_host x (h\<lparr>pActiveClass := c\<rparr>) w);
                 (if s = USBH_OK then do {
                    w \<leftarrow> mod_host x (\<lambda>h. h\<lparr>gState := HOST_CLASS_REQUEST\<rparr>) w;
                    call_user env x HOST_USER_CLASS_SELECTED w
                  }
                  else mod_host x (\<lambda>h. h\<lparr>pActiveClass := None, gState := HOST_ABORT_STATE\<rparr>) w)
               }
             | None \<Rightarrow> mod_host x (\<lambda>h. h\<lparr>gState := HOST_ABORT_STATE\<rparr>) (put_host x (h\<lparr>pActiveClass := c\<rparr>) w)) = Some w1"
    and w': "w' = post USBH_STATE_CHANGED_EVENT w1"
    by (auto simp: proc_check_class_def bind_eq_Some_conv rd_eq_Some_iff mod_host_eq_Some_iff)
  let ?w = "put_host x (h\<lparr>pActiveClass := c\<rparr>) w"
  have w: "keeps r w ?w" by (rule shape_keeps [OF shape_put [OF assms(2)]]) (simp add: node_def)
  note moves = same_place_def assms(3) host_edge_def host_edges_def
  show ?thesis
  proof (cases c)
    case None
    with r have m: "mod_host x (\<lambda>h. h\<lparr>gState := HOST_ABORT_STATE\<rparr>) ?w = Some w1" by simp
    show ?thesis
      by (rule machine_step_move [where g = HOST_ABORT_STATE, OF class_step_keeps [OF w assms(4)] assms(2) m]) (simp_all add: w' moves)
  next
    case (Some cl)
    with r obtain s w2 where i: "e_Init env cl x ?w = Some (s, w2)"
      and r2: "(if s = USBH_OK then do {
                    w \<leftarrow> mod_host x (\<lambda>h. h\<lparr>gState := HOST_CLASS_REQUEST\<rparr>) w2;
                    call_user env x HOST_USER_CLASS_SELECTED w
                  }
                  else mod_host x (\<lambda>h. h\<lparr>pActiveClass := None, gState := HOST_ABORT_STATE\<rparr>) w2) = Some w1"
      by (auto simp: bind_eq_Some_conv)
    have c2: "class_step r x w w2" by (rule class_step_keeps [OF keeps_trans [OF w init_keeps [OF i]] assms(4)])
    show ?thesis
    proof (cases "s = USBH_OK")
      case True
      with r2 obtain w3 where 3: "mod_host x (\<lambda>h. h\<lparr>gState := HOST_CLASS_REQUEST\<rparr>) w2 = Some w3"
        "call_user env x HOST_USER_CLASS_SELECTED w3 = Some w1" by (auto simp: bind_eq_Some_conv)
      show ?thesis
        by (rule machine_step_move [where g = HOST_CLASS_REQUEST, OF c2 assms(2) 3(1)]) (simp_all add: w' call_user_keeps [OF 3(2)] moves)
    next
      case False
      with r2 have m: "mod_host x (\<lambda>h. h\<lparr>pActiveClass := None, gState := HOST_ABORT_STATE\<rparr>) w2 = Some w1" by simp
      show ?thesis by (rule machine_step_move [where g = HOST_ABORT_STATE, OF c2 assms(2) m]) (simp_all add: w' moves)
    qed
  qed
qed

lemma class_request_edge:
  assumes "proc_class_request env x w = Some w'" "hs w x = Some h" "gState h = HOST_CLASS_REQUEST" "tree_ok w"
  shows "machine_step r x h w w'"
proof -
  note moves = same_place_def assms(3) host_edge_def host_edges_def
  show ?thesis
  proof (cases "pActiveClass h")
    case None
    with assms obtain w1 where m: "mod_host x (\<lambda>h. h\<lparr>gState := HOST_ABORT_STATE\<rparr>) w = Some w1" "w' = post USBH_STATE_CHANGED_EVENT w1"
      by (auto simp: proc_class_request_def bind_eq_Some_conv)
    show ?thesis by (rule machine_step_move [where g = HOST_ABORT_STATE, OF class_step_refl [OF assms(4)] assms(2) m(1)]) (simp_all add: m(2) moves)
  next
    case (Some c)
    with assms obtain s w1 where i: "e_Requests env c x w = Some (s, w1)"
      and r: "(if s = USBH_OK then mod_host x (\<lambda>h. h\<lparr>gState := HOST_CLASS\<rparr>) w1 else Some w1) = Some w'"
      by (auto simp: proc_class_request_def bind_eq_Some_conv)
    note c1 = class_step_keeps [OF requests_keeps [OF i] assms(4), of x]
    show ?thesis
    proof (cases "s = USBH_OK")
      case True
      with r have m: "mod_host x (\<lambda>h. h\<lparr>gState := HOST_CLASS\<rparr>) w1 = Some w'" by simp
      show ?thesis by (rule machine_step_move [where g = HOST_CLASS, OF c1 assms(2) m]) (simp_all add: moves)
    next
      case False
      with r c1 assms(2,3) show ?thesis by (simp add: machine_step_class)
    qed
  qed
qed

lemma class_edge:
  assumes "proc_class env x w = Some w'" "hs w x = Some h" "gState h = HOST_CLASS" "tree_ok w"
  shows "machine_step r x h w w'"
proof (cases "pActiveClass h")
  case None
  with assms show ?thesis by (auto simp: proc_class_def intro: machine_step_shape)
next
  case (Some c)
  with assms obtain s where "e_BgndProcess env c x w = Some (s, w')"
    by (auto simp: proc_class_def bind_eq_Some_conv)
  from machine_step_class [OF process_step [OF this assms(4)] assms(2)] assms(3) show ?thesis by simp
qed

lemma disconnected_edge:
  assumes "proc_disconnected env x w = Some w'" "hs w x = Some h" "gState h = HOST_DEV_DISCONNECTED" "tree_ok w"
  shows "machine_step r x h w w'"
proof -
  from assms obtain w1 s where 1: "(case pActiveClass h of
            Some c \<Rightarrow> do {
              (_, w) \<leftarrow> e_DeInit env c x w;
              mod_host x (\<lambda>h. h\<lparr>pActiveClass := None\<rparr>) w
            }
          | None \<Rightarrow> Some w) = Some w1" and 2: "on_host x DeInitStateMachine w1 = Some (s, w')"
    by (auto simp: proc_disconnected_def bind_eq_Some_conv)
  have c: "class_step r x w w1"
  proof (cases "pActiveClass h")
    case None
    with 1 assms(4) show ?thesis by (auto intro: class_step_refl)
  next
    case (Some c)
    with 1 obtain s1 w0 where d: "e_DeInit env c x w = Some (s1, w0)"
      and m: "mod_host x (\<lambda>h. h\<lparr>pActiveClass := None\<rparr>) w0 = Some w1"
      by (auto simp: bind_eq_Some_conv)
    show ?thesis using deinit_step [OF d assms(4)] shape_keeps [OF shape_mod [OF m]] by (auto simp: node_def intro: step_after)
  qed
  from c assms(2,3) obtain h1 where h1: "hs w1 x = Some h1" "gState h1 = gState h"
    by (auto simp: class_step_def moved_def irq_move_def)
  have "machine_step r x h1 w1 w'"
    by (rule machine_step_on [OF 2 h1(1) step_trees(2) [OF c] DeInitStateMachine_place])
      (use h1(2) assms(3) in \<open>auto simp: host_edge_def host_edges_def dest!: DeInitStateMachine_state\<close>)
  then show ?thesis using tree_step_trans [OF class_tree [OF c]] h1(2) by (auto simp: machine_step_def)
qed

text \<open>
  Every round of \<open>USBH_Process\<close> follows the documented state graph, but for an unplug that comes in
  during it, and keeps the tree in order.
\<close>

lemma process_edge:
  assumes "USBH_Process env x w = Some (s, w')" "hs w x = Some h" "tree_ok w"
  shows "machine_step r x h w w'"
proof -
  let ?m = "\<lambda>on w. if pData h then mod_bus (hw (HW_HprtIrq on)) w else w"
  let ?w = "?m False w"
  from assms obtain s1 w1 where p: "process_state env x (gState h) ?w = Some (s1, w1)"
    and w': "shape w' = shape w1"
    by (auto simp: USBH_Process_def mask_hprt_def bind_eq_Some_conv)
  have h: "hs ?w x = Some h" using assms(2) by simp
  have t: "tree_ok ?w" using assms(3) by (simp add: tree_ok_shape [of "mod_bus _ w" w])
  have "machine_step r x h ?w w1"
  proof (cases "gState h")
    case HOST_INPUT
    with p have "proc_input env x ?w = Some w1" by (auto simp: process_state_def no_status_def)
    from input_edge [OF this h HOST_INPUT t] show ?thesis .
  next
    case HOST_CHECK_CLASS
    with p have "proc_check_class env x ?w = Some w1" by (auto simp: process_state_def no_status_def)
    from check_class_edge [OF this h HOST_CHECK_CLASS t] show ?thesis .
  next
    case HOST_CLASS_REQUEST
    with p have "proc_class_request env x ?w = Some w1" by (auto simp: process_state_def no_status_def)
    from class_request_edge [OF this h HOST_CLASS_REQUEST t] show ?thesis .
  next
    case HOST_CLASS
    with p have "proc_class env x ?w = Some w1" by (auto simp: process_state_def no_status_def)
    from class_edge [OF this h HOST_CLASS t] show ?thesis .
  next
    case HOST_DEV_DISCONNECTED
    with p have "proc_disconnected env x ?w = Some w1" by (auto simp: process_state_def no_status_def)
    from disconnected_edge [OF this h HOST_DEV_DISCONNECTED t] show ?thesis .
  next
    case HOST_IDLE
    with p have "on_host x proc_idle ?w = Some (s1, w1)" by (simp add: process_state_def)
    then show ?thesis by (rule machine_step_on [OF _ h t]) (use HOST_IDLE proc_edges in \<open>blast intro: proc_places\<close>)+
  next
    case HOST_DEV_ATTACHED
    with p have "on_host x proc_attached ?w = Some (s1, w1)" by (simp add: process_state_def)
    then show ?thesis by (rule machine_step_on [OF _ h t]) (use HOST_DEV_ATTACHED proc_edges in \<open>blast intro: proc_places\<close>)+
  next
    case HOST_ENUMERATION
    with p have "on_host x proc_enumeration ?w = Some (s1, w1)" by (simp add: process_state_def)
    then show ?thesis by (rule machine_step_on [OF _ h t]) (use HOST_ENUMERATION proc_edges in \<open>blast intro: proc_places\<close>)+
  next
    case HOST_SET_CONFIGURATION
    with p have "on_host x proc_set_configuration ?w = Some (s1, w1)" by (simp add: process_state_def)
    then show ?thesis by (rule machine_step_on [OF _ h t]) (use HOST_SET_CONFIGURATION proc_edges in \<open>blast intro: proc_places\<close>)+
  qed (use p h t in \<open>auto simp: process_state_def intro: machine_step_shape\<close>)
  then obtain h1 where 1: "tree_step r x ?w w1" "hs w1 x = Some h1"
    "host_edge (gState h) (gState h1) \<or> x = r \<and> gState h1 = HOST_DEV_DISCONNECTED"
    by (auto simp: machine_step_def)
  have "class_step r x w ?w" by (rule class_step_shape) (simp_all add: assms(3))
  from tree_step_trans [OF class_tree [OF this] 1(1)] class_step_shape [OF w' step_trees(1) [OF 1(1)], of r x]
  have "tree_step r x w w'" by (metis class_tree tree_step_trans)
  then show ?thesis using shape_Some [OF w' 1(2)] 1(3) by (auto simp: machine_step_def node_eq_iff)
qed

end

subsection \<open>Facts the class drivers share\<close>

lemma bulk_not_setup: "data_pid (submit_hc ch d EP_TYPE_BULK 1 p len ping c) \<noteq> HC_PID_SETUP"
  by (simp add: submit_bulk_pid pid_of_toggle_def)

lemma xfers_bulk:
  "xfers (submitted ch d EP_TYPE_BULK 1 p len ping b) = xfers b @ [(ch, d, False, p, ucast len)]"
proof -
  have "ch_num (submit_hc ch d EP_TYPE_BULK 1 p len ping c) = ch" for c
    by (simp add: submit_hc_def Let_def)
  then show ?thesis by (simp add: xfers_def map_filter_append List.map_filter_simps bulk_not_setup)
qed

definition buf_at :: "buf_ptr \<Rightarrow> nat \<Rightarrow> buf_ptr" where
  "buf_at p k = (if k = 0 then p else buf_add p k)"

lemma buf_at_add: "0 < m \<Longrightarrow> buf_at (buf_add p m) k = buf_at p (m + k)"
  by (cases p) (simp_all add: buf_at_def add.assoc)

lemma unat_up [simp]: "unat (ucast (v :: u16) :: u32) = unat v"
  by transfer simp

lemma SelectInterface_keeps:
  "USBH_SelectInterface h i = Some (s, h') \<Longrightarrow>
     node h' = node h"
  by (auto simp: USBH_SelectInterface_def upd_dev_def node_def bind_eq_Some_conv split: if_splits)

lemma take_malloc_simps [simp]:
  "hs (snd (take_malloc w)) = hs w" "wb (snd (take_malloc w)) = wb w"
  by (simp_all add: take_malloc_def split: list.splits)

lemma Free_One_Address_keeps:
  "USBH_Free_One_Address h b = Some (a, h', b') \<Longrightarrow>
     node h' = node h \<and> self h' = self h"
  by (auto simp: USBH_Free_One_Address_def node_def bind_eq_Some_conv split: if_splits)

lemma SetToggle_frame:
  "USBH_LL_SetToggle b p t = Some (s, b') \<Longrightarrow>
     Pipes b' = Pipes b \<and> addresses b' = addresses b \<and> length (hc b') = length (hc b) \<and> os_event b' = os_event b"
  by (auto simp: USBH_LL_SetToggle_def upd_hc_eq_Some_iff bind_eq_Some_conv)

lemma SetToggle_Some:
  "unat p < length (hc b) \<Longrightarrow> \<exists>b'. USBH_LL_SetToggle b p t = Some (USBH_OK, b')"
  by (simp add: USBH_LL_SetToggle_def mem_simps)

lemma pipes_used_cong: "Pipes b' = Pipes b \<Longrightarrow> pipes_used b' = pipes_used b \<and> pipes_ok b' = pipes_ok b"
  by (simp add: pipes_used_def pipes_ok_def)

lemma Free_One_Address_ok:
  assumes "addr_ok b" "dev_address (device h) = 0 \<or> unat (dev_address (device h)) \<le> length (addresses b)"
  shows "\<exists>b'. USBH_Free_One_Address h b = Some (0, set_dev_address 0 h, b') \<and> Pipes b' = Pipes b \<and>
     addr_ok b' \<and> addr_used b' = addr_used b -
       (if dev_address (device h) = 0 then {} else {unat (dev_address (device h)) - 1})"
proof (cases "dev_address (device h) = 0")
  case True
  then have "set_dev_address 0 h = h" by (simp add: set_dev_address_def)
  with True assms show ?thesis by (simp add: USBH_Free_One_Address_def)
next
  case False
  then have "0 < unat (dev_address (device h))" by (simp add: unat_gt_0)
  with False assms show ?thesis
    by (auto simp: USBH_Free_One_Address_def addr_clear_def wr_def addr_ok_def addr_used_def nth_list_update)
qed

lemma close_free_ok:
  assumes "pipes_ok b" "pData h"
  shows "\<exists>b1 b2. USBH_ClosePipe h b p = Some (USBH_OK, b1) \<and> USBH_FreePipe b1 p = Some (USBH_OK, b2) \<and>
     pipes_ok b2 \<and> pipes_used b2 = pipes_used b - {unat p} \<and> addresses b2 = addresses b \<and>
     length (hc b2) = length (hc b)"
proof -
  let ?b = "HAL_HCD_HC_Halt b p"
  have ok: "pipes_ok ?b" "pipes_used ?b = pipes_used b"
    using assms(1) by (simp_all add: pipes_ok_def pipes_used_def HAL_HCD_HC_Halt_def)
  obtain b1 where 1: "USBH_FreePipe ?b p = Some (USBH_OK, b1)" using FreePipe_Some [OF ok(1)] by blast
  from FreePipe_used [OF ok(1) 1] FreePipe_frame [OF 1] 1 ok assms(2) show ?thesis
    by (simp add: USBH_ClosePipe_def USBH_LL_ClosePipe_def HAL_HCD_HC_Halt_def)
qed

end
