(* ===== verification/HcdIrq.thy ===== *)
theory HcdIrq
  imports LlUsb Core
begin

text \<open>
  The interrupt side of the HAL, \<^verbatim>\<open>Driver/Src/stm32f1xx_hal_hcd.c\<close>, and its callbacks in
  \<^verbatim>\<open>Core/Src/usbh_conf.c\<close>. A channel handler works on the channel's registers and on its
  \<open>USB_OTG_HCTypeDef\<close> record (\<open>hchan\<close>); \<open>acts\<close> collects, in order, the halts it issues and the
  notifications of the host library, which post an event. The flags of \<^verbatim>\<open>HCINT\<close> are what is pending
  when the handler starts; a flag raised while it runs is the next interrupt's.

  \<open>irq_in\<close> is what \<^verbatim>\<open>HAL_HCD_IRQHandler\<close> reads from volatile registers: \<open>gint k\<close> is what the \<open>k\<close>-th
  read of the pending and unmasked global interrupts gives, the other fields what the other reads
  give. Acknowledging a global flag, the host clock selection and the log have no reader here and are
  left out, and so is the busy loop of the connect callback.
\<close>

subsection \<open>Host channels\<close>

datatype hc_act = Act_Halt | Act_Notify

record hchan =
  regs :: hc_regs
  chd :: USB_OTG_HCTypeDef
  acts :: "hc_act list"

definition flag :: "u32 \<Rightarrow> hchan \<Rightarrow> bool" where
  "flag v k \<longleftrightarrow> HCINT (regs k) AND v = v"

definition upd_regs :: "(hc_regs \<Rightarrow> hc_regs) \<Rightarrow> hchan \<Rightarrow> hchan" where
  "upd_regs f k = k\<lparr>regs := f (regs k)\<rparr>"

definition upd_chd :: "(USB_OTG_HCTypeDef \<Rightarrow> USB_OTG_HCTypeDef) \<Rightarrow> hchan \<Rightarrow> hchan" where
  "upd_chd f k = k\<lparr>chd := f (chd k)\<rparr>"

definition clear_int :: "u32 \<Rightarrow> hchan \<Rightarrow> hchan" where
  "clear_int v = upd_regs (\<lambda>r. r\<lparr>HCINT := HCINT r AND NOT v\<rparr>)"

definition mask_halt :: "hchan \<Rightarrow> hchan" where
  "mask_halt = upd_regs (\<lambda>r. r\<lparr>HCINTMSK := HCINTMSK r AND NOT HCINT_CHH\<rparr>)"

definition unmask_halt :: "hchan \<Rightarrow> hchan" where
  "unmask_halt = upd_regs (\<lambda>r. r\<lparr>HCINTMSK := HCINTMSK r OR HCINT_CHH\<rparr>)"

definition halt_hc :: "otg \<Rightarrow> hchan \<Rightarrow> hchan" where
  "halt_hc u k = (upd_regs (\<lambda>r. r\<lparr>HCCHAR := halt_char u (HCCHAR r)\<rparr>) k)\<lparr>acts := acts k @ [Act_Halt]\<rparr>"

definition reactivate :: "hchan \<Rightarrow> hchan" where
  "reactivate = upd_regs (\<lambda>r. r\<lparr>HCCHAR := hc_enable (HCCHAR r)\<rparr>)"

definition notify_urb :: "hchan \<Rightarrow> hchan" where
  "notify_urb k = k\<lparr>acts := acts k @ [Act_Notify]\<rparr>"

definition set_st :: "USB_OTG_HCStateTypeDef \<Rightarrow> hchan \<Rightarrow> hchan" where
  "set_st s = upd_chd (\<lambda>c. c\<lparr>hc_state := s\<rparr>)"

definition set_urb :: "USBH_URBStateTypeDef \<Rightarrow> hchan \<Rightarrow> hchan" where
  "set_urb s = upd_chd (\<lambda>c. c\<lparr>urb_state := s\<rparr>)"

definition set_err :: "u32 \<Rightarrow> hchan \<Rightarrow> hchan" where
  "set_err n = upd_chd (\<lambda>c. c\<lparr>ErrCnt := n\<rparr>)"

definition set_ping :: "u8 \<Rightarrow> hchan \<Rightarrow> hchan" where
  "set_ping p = upd_chd (\<lambda>c. c\<lparr>do_ping := p\<rparr>)"

definition flip_in :: "hchan \<Rightarrow> hchan" where
  "flip_in = upd_chd (\<lambda>c. c\<lparr>toggle_in := toggle_in c XOR 1\<rparr>)"

definition flip_out :: "hchan \<Rightarrow> hchan" where
  "flip_out = upd_chd (\<lambda>c. c\<lparr>toggle_out := toggle_out c XOR 1\<rparr>)"

abbreviation ep_ty :: "hchan \<Rightarrow> u8" where "ep_ty k \<equiv> ep_type (chd k)"

text \<open>The error count of both directions, when the channel has halted after an error.\<close>

definition halted_error :: "hchan \<Rightarrow> hchan" where
  "halted_error k =
     (let k = set_err (ErrCnt (chd k) + 1) k;
          k = (if ErrCnt (chd k) > 3 then set_urb USBH_URB_ERROR (set_err 0 k)
               else set_urb USBH_URB_NOTREADY k)
      in reactivate k)"

subsubsection \<open>IN channels\<close>

text \<open>The handler looks at two groups of flags, one after the other.\<close>

definition in_first :: "otg \<Rightarrow> hchan \<Rightarrow> hchan" where
  "in_first u k =
     (if flag HCINT_AHBERR k then unmask_halt (clear_int HCINT_AHBERR k)
      else if flag HCINT_ACK k then clear_int HCINT_ACK k
      else if flag HCINT_STALL k then
        halt_hc u (clear_int HCINT_STALL (clear_int HCINT_NAK (set_st HC_STALL (unmask_halt k))))
      else if flag HCINT_DTERR k then
        clear_int HCINT_DTERR (set_st HC_DATATGLERR (clear_int HCINT_NAK (halt_hc u (unmask_halt k))))
      else k)"

definition in_complete :: "otg \<Rightarrow> hchan \<Rightarrow> hchan" where
  "in_complete u k =
     (let k = clear_int HCINT_XFRC (set_err 0 (set_st HC_XFRC k));
          k = (if ep_ty k = EP_TYPE_CTRL \<or> ep_ty k = EP_TYPE_BULK then
                 clear_int HCINT_NAK (halt_hc u (unmask_halt k))
               else if ep_ty k = EP_TYPE_INTR then
                 notify_urb (set_urb USBH_URB_DONE
                   (upd_regs (\<lambda>r. r\<lparr>HCCHAR := HCCHAR r OR HCCHAR_ODDFRM\<rparr>) k))
               else if ep_ty k = EP_TYPE_ISOC then notify_urb (set_urb USBH_URB_DONE k)
               else k)
      in flip_in k)"

definition in_halted :: "hchan \<Rightarrow> hchan" where
  "in_halted k =
     (let k = mask_halt k; s = hc_state (chd k);
          k = (if s = HC_XFRC then set_urb USBH_URB_DONE k
               else if s = HC_STALL then set_urb USBH_URB_STALL k
               else if s = HC_XACTERR \<or> s = HC_DATATGLERR then halted_error k
               else if s = HC_NAK then reactivate (set_urb USBH_URB_NOTREADY k)
               else k)
      in notify_urb (clear_int HCINT_CHH k))"

definition in_txerr :: "otg \<Rightarrow> hchan \<Rightarrow> hchan" where
  "in_txerr u k =
     clear_int HCINT_TXERR (halt_hc u (set_st HC_XACTERR (set_err (ErrCnt (chd k) + 1) (unmask_halt k))))"

definition in_nak :: "otg \<Rightarrow> hchan \<Rightarrow> hchan" where
  "in_nak u k =
     clear_int HCINT_NAK
       (if ep_ty k = EP_TYPE_INTR then halt_hc u (unmask_halt (set_err 0 k))
        else if ep_ty k = EP_TYPE_CTRL \<or> ep_ty k = EP_TYPE_BULK then
          halt_hc u (unmask_halt (set_st HC_NAK (set_err 0 k)))
        else k)"

definition in_second :: "otg \<Rightarrow> hchan \<Rightarrow> hchan" where
  "in_second u k =
     (if flag HCINT_FRMOR k then clear_int HCINT_FRMOR (halt_hc u (unmask_halt k))
      else if flag HCINT_XFRC k then in_complete u k
      else if flag HCINT_CHH k then in_halted k
      else if flag HCINT_TXERR k then in_txerr u k
      else if flag HCINT_NAK k then in_nak u k
      else k)"

definition HCD_HC_IN_IRQHandler :: "otg \<Rightarrow> hchan \<Rightarrow> hchan" where
  "HCD_HC_IN_IRQHandler u k = in_second u (in_first u k)"

subsubsection \<open>OUT channels\<close>

definition out_ack :: "otg \<Rightarrow> hchan \<Rightarrow> hchan" where
  "out_ack u k =
     (let k = clear_int HCINT_ACK k
      in if do_ping (chd k) = 1
         then halt_hc u (unmask_halt (set_urb USBH_URB_NOTREADY (set_ping 0 k)))
         else k)"

definition out_halted :: "hchan \<Rightarrow> hchan" where
  "out_halted k =
     (let k = mask_halt k; s = hc_state (chd k);
          k = (if s = HC_XFRC then
                 (let k = set_urb USBH_URB_DONE k
                  in if ep_ty k = EP_TYPE_BULK \<or> ep_ty k = EP_TYPE_INTR then flip_out k else k)
               else if s = HC_NAK then set_urb USBH_URB_NOTREADY k
               else if s = HC_NYET then set_urb USBH_URB_NOTREADY k
               else if s = HC_STALL then set_urb USBH_URB_STALL k
               else if s = HC_XACTERR \<or> s = HC_DATATGLERR then halted_error k
               else k)
      in notify_urb (clear_int HCINT_CHH k))"

definition HCD_HC_OUT_IRQHandler :: "otg \<Rightarrow> hchan \<Rightarrow> hchan" where
  "HCD_HC_OUT_IRQHandler u k =
     (if flag HCINT_AHBERR k then unmask_halt (clear_int HCINT_AHBERR k)
      else if flag HCINT_ACK k then out_ack u k
      else if flag HCINT_NYET k then
        clear_int HCINT_NYET (halt_hc u (unmask_halt (set_err 0 (set_ping 1 (set_st HC_NYET k)))))
      else if flag HCINT_FRMOR k then clear_int HCINT_FRMOR (halt_hc u (unmask_halt k))
      else if flag HCINT_XFRC k then
        set_st HC_XFRC (clear_int HCINT_XFRC (halt_hc u (unmask_halt (set_err 0 k))))
      else if flag HCINT_STALL k then
        set_st HC_STALL (halt_hc u (unmask_halt (clear_int HCINT_STALL k)))
      else if flag HCINT_NAK k then
        clear_int HCINT_NAK (halt_hc u (unmask_halt (set_st HC_NAK (set_err 0 k))))
      else if flag HCINT_TXERR k then
        clear_int HCINT_TXERR (set_st HC_XACTERR (halt_hc u (unmask_halt k)))
      else if flag HCINT_DTERR k then
        set_st HC_DATATGLERR (clear_int HCINT_DTERR (clear_int HCINT_NAK (halt_hc u (unmask_halt k))))
      else if flag HCINT_CHH k then out_halted k
      else k)"

subsection \<open>Received data\<close>

text \<open>
  Where a pointer of a channel leads: the handle's \<^verbatim>\<open>device.Data\<close>, the hub's \<^verbatim>\<open>hub_intr_buf\<close>, the modem
  application's \<^verbatim>\<open>recv_buf\<close>, the mass-storage driver's \<^verbatim>\<open>csw\<close>, \<^verbatim>\<open>data\<close> and \<^verbatim>\<open>max_lun\<close>, the serial converter's
  \<^verbatim>\<open>buf\<close>. Bytes that do not fit the object are a fault. Memory of the caller of a read (\<open>Mem\<close>) is not
  part of the modelled state: the bytes leave the model there. No read is submitted into the remaining
  objects, the setup packet and what is only sent; a pointer there is a fault.
\<close>

definition store_at :: "u8 list \<Rightarrow> nat \<Rightarrow> u8 list \<Rightarrow> u8 list option" where
  "store_at m k bs = (if k + length bs \<le> length m then Some (take k m @ bs @ drop (k + length bs) m) else None)"

definition store_hub :: "nat \<Rightarrow> u8 list \<Rightarrow> host \<Rightarrow> host option" where
  "store_hub k bs h =
     (case rd (pClassData h) 0 of
        Some (Some (Hub_data u)) \<Rightarrow>
          map_option (\<lambda>m. h\<lparr>pClassData := (pClassData h)[0 := Some (Hub_data (u\<lparr>hub_intr_buf := m\<rparr>))]\<rparr>)
            (store_at (hub_intr_buf u) k bs)
      | _ \<Rightarrow> None)"

definition store_cdc :: "nat \<Rightarrow> u8 list \<Rightarrow> host \<Rightarrow> host option" where
  "store_cdc k bs h =
     (case rd (pClassData h) 0 of
        Some (Some (Cdc_data e)) \<Rightarrow>
          map_option (\<lambda>m. h\<lparr>pClassData := (pClassData h)[0 := Some (Cdc_data (e\<lparr>cdc_buf := m\<rparr>))]\<rparr>)
            (store_at (cdc_buf e) k bs)
      | _ \<Rightarrow> None)"

definition store_app :: "nat \<Rightarrow> u8 list \<Rightarrow> host \<Rightarrow> host option" where
  "store_app k bs h =
     (case app_data h of
        None \<Rightarrow> None
      | Some a \<Rightarrow> map_option (\<lambda>m. h\<lparr>app_data := Some (a\<lparr>recv_buf := m\<rparr>)\<rparr>) (store_at (recv_buf a) k bs))"

definition on_handle :: "hid \<Rightarrow> (host \<Rightarrow> host option) \<Rightarrow> world \<Rightarrow> world option" where
  "on_handle x f w = do { h \<leftarrow> hs w x; h \<leftarrow> f h; Some (put_host x h w) }"

definition store_msc :: "(MSC_HandleTypeDef \<Rightarrow> MSC_HandleTypeDef option) \<Rightarrow> world \<Rightarrow> world option" where
  "store_msc f w =
     (if msc_ptr (wb w) then do { m \<leftarrow> f (msc_mem (wb w)); Some (mod_bus (\<lambda>b. b\<lparr>msc_mem := m\<rparr>) w) } else None)"

definition store_base :: "buf_ptr \<Rightarrow> nat \<Rightarrow> u8 list \<Rightarrow> world \<Rightarrow> world option" where
  "store_base p k bs w =
     (case p of
        Data_of x \<Rightarrow> on_handle x (\<lambda>h. map_option (\<lambda>m. upd_dev (\<lambda>d. d\<lparr>Data := m\<rparr>) h) (store_at (Data (device h)) k bs)) w
      | HubIntr_of x \<Rightarrow> on_handle x (store_hub k bs) w
      | Recv_of x \<Rightarrow> on_handle x (store_app k bs) w
      | Ch340_of x \<Rightarrow> on_handle x (store_cdc k bs) w
      | Csw_buf \<Rightarrow> store_msc (\<lambda>m. map_option (\<lambda>c. m\<lparr>hbot := (hbot m)\<lparr>csw := c\<rparr>\<rparr>) (store_at (csw (hbot m)) k bs)) w
      | Bot_buf \<Rightarrow> store_msc (\<lambda>m. map_option (\<lambda>d. m\<lparr>hbot := (hbot m)\<lparr>bot_data := d\<rparr>\<rparr>) (store_at (bot_data (hbot m)) k bs)) w
      | MaxLun_buf \<Rightarrow> store_msc (\<lambda>m. map_option (\<lambda>v. m\<lparr>max_lun := le32_at v 0\<rparr>) (store_at (le32_bytes (max_lun m)) k bs)) w
      | Mem _ \<Rightarrow> Some w
      | _ \<Rightarrow> None)"

definition store_bytes :: "buf_ptr \<Rightarrow> u8 list \<Rightarrow> world \<Rightarrow> world option" where
  "store_bytes p bs w = (case p of At q k \<Rightarrow> store_base q k bs w | _ \<Rightarrow> store_base p 0 bs w)"

definition rx_epnum :: "u32 \<Rightarrow> nat" where "rx_epnum t = unat (t AND 0xF)"
definition rx_pktsts :: "u32 \<Rightarrow> u32" where "rx_pktsts t = drop_bit 17 (t AND 0x1E0000)"
definition rx_bcnt :: "u32 \<Rightarrow> u32" where "rx_bcnt t = drop_bit 4 (t AND 0x7FF0)"

text \<open>After a packet: the pointer and the count advance; more packets to come start the channel again.\<close>

definition rx_advance :: "u32 \<Rightarrow> hchan \<Rightarrow> hchan" where
  "rx_advance n k =
     (let k = upd_chd (\<lambda>c. c\<lparr>xfer_buff := buf_add (xfer_buff c) (unat n), xfer_count := xfer_count c + n\<rparr>) k
      in if HCTSIZ (regs k) AND HCTSIZ_PKTCNT > 0 then flip_in (reactivate k) else k)"

definition get_chan :: "nat \<Rightarrow> otg \<Rightarrow> bus \<Rightarrow> hchan option" where
  "get_chan i u b = do {
     r \<leftarrow> rd (chans u) i;
     c \<leftarrow> rd (hc b) i;
     Some \<lparr>regs = r, chd = c, acts = []\<rparr>
   }"

definition do_act :: "nat \<Rightarrow> hc_act \<Rightarrow> bus \<Rightarrow> bus" where
  "do_act i a b = (case a of Act_Halt \<Rightarrow> hw (HW_HC_Halt (of_nat i)) b
                           | Act_Notify \<Rightarrow> snd (USBH_LL_NotifyURBChange b))"

definition put_chan :: "nat \<Rightarrow> hchan \<Rightarrow> otg \<times> bus \<Rightarrow> otg \<times> bus" where
  "put_chan i k s = (case s of (u, b) \<Rightarrow> (u\<lparr>chans := (chans u)[i := regs k]\<rparr>,
     fold (do_act i) (acts k) (b\<lparr>hc := (hc b)[i := chd k]\<rparr>)))"

type_synonym sys = "otg \<times> world"

definition HCD_RXQLVL_IRQHandler :: "u32 \<Rightarrow> sys \<Rightarrow> sys option" where
  "HCD_RXQLVL_IRQHandler t s = (case s of (u, w) \<Rightarrow>
     (if rx_pktsts t = 2 \<and> rx_bcnt t > 0 then do {
        k \<leftarrow> get_chan (rx_epnum t) u (wb w);
        (if xfer_buff (chd k) \<noteq> NULL_buf then do {
           (bs, u) \<leftarrow> USB_ReadPacket (ucast (rx_bcnt t)) u;
           w \<leftarrow> store_bytes (xfer_buff (chd k)) bs w;
           let (u, b) = put_chan (rx_epnum t) (rx_advance (rx_bcnt t) k) (u, wb w);
           Some (u, w\<lparr>wb := b\<rparr>)
         } else Some (u, w))
      } else Some (u, w)))"

subsection \<open>The port\<close>

definition HAL_HCD_SOF_Callback :: "usb_env \<Rightarrow> nat \<Rightarrow> hid \<Rightarrow> world \<Rightarrow> world option" where
  "HAL_HCD_SOF_Callback env d x w = USBH_LL_IncTimer env d x w"

definition HAL_HCD_Connect_Callback :: "usb_env \<Rightarrow> hid \<Rightarrow> world \<Rightarrow> world option" where
  "HAL_HCD_Connect_Callback env x w = map_option snd (USBH_LL_Connect env x w)"

definition HAL_HCD_Disconnect_Callback :: "usb_env \<Rightarrow> hid \<Rightarrow> world \<Rightarrow> world option" where
  "HAL_HCD_Disconnect_Callback env x w = map_option snd (USBH_LL_Disconnect env x w)"

definition HAL_HCD_PortEnabled_Callback :: "hid \<Rightarrow> world \<Rightarrow> world option" where
  "HAL_HCD_PortEnabled_Callback x w =
     map_option snd (on_host x (\<lambda>h b. case USBH_LL_PortEnabled h b of (h, b) \<Rightarrow> Some (USBH_OK, h, b)) w)"

definition HAL_HCD_PortDisabled_Callback :: "hid \<Rightarrow> world \<Rightarrow> world option" where
  "HAL_HCD_PortDisabled_Callback x w = mod_host x USBH_LL_PortDisabled w"

text \<open>What is written back: the changes seen are acknowledged, \<open>hprt0\<close> and \<open>dup\<close> are the two reads.\<close>

definition port_ack :: "u32 \<Rightarrow> u32 \<Rightarrow> u32" where
  "port_ack hprt0 dup =
     (let v = dup AND NOT HPRT_W1C;
          v = (if hprt0 AND HPRT_PCDET = HPRT_PCDET then v OR HPRT_PCDET else v);
          v = (if hprt0 AND HPRT_PENCHNG = HPRT_PENCHNG then v OR HPRT_PENCHNG else v)
      in if hprt0 AND HPRT_POCCHNG = HPRT_POCCHNG then v OR HPRT_POCCHNG else v)"

definition port_clock :: "u32 \<Rightarrow> u8" where
  "port_clock hprt0 = (if hprt0 AND HPRT_PSPD = push_bit 17 2 then HCFG_6_MHZ else HCFG_48_MHZ)"

definition HCD_Port_IRQHandler :: "usb_env \<Rightarrow> hid \<Rightarrow> u32 \<Rightarrow> u32 \<Rightarrow> sys \<Rightarrow> sys option" where
  "HCD_Port_IRQHandler env x hprt0 dup s = (case s of (u, w) \<Rightarrow> do {
     w \<leftarrow> (if hprt0 AND HPRT_PCDET = HPRT_PCDET \<and> hprt0 AND HPRT_PCSTS = HPRT_PCSTS
           then HAL_HCD_Connect_Callback env x w else Some w);
     (u, w) \<leftarrow> (if hprt0 AND HPRT_PENCHNG = HPRT_PENCHNG then
                  (if hprt0 AND HPRT_PENA = HPRT_PENA
                   then map_option (Pair (USB_InitFSLSPClkSel (port_clock hprt0) u)) (HAL_HCD_PortEnabled_Callback x w)
                   else map_option (Pair u) (HAL_HCD_PortDisabled_Callback x w))
                else Some (u, w));
     Some (put_hprt (port_ack hprt0 dup) u, w)
   })"

subsection \<open>The interrupt\<close>

abbreviation Host_channels :: nat where "Host_channels \<equiv> 11"
abbreviation GINT_SOF :: u32 where "GINT_SOF \<equiv> 0x8"
abbreviation GINT_RXFLVL :: u32 where "GINT_RXFLVL \<equiv> 0x10"
abbreviation GINT_HPRTINT :: u32 where "GINT_HPRTINT \<equiv> 0x1000000"
abbreviation GINT_HCINT :: u32 where "GINT_HCINT \<equiv> 0x2000000"
abbreviation GINT_DISCINT :: u32 where "GINT_DISCINT \<equiv> 0x20000000"

record irq_in =
  host_mode :: bool
  gint :: "nat \<Rightarrow> u32"
  disc_hprt :: u32
  port_hprt :: u32
  port_hprt_dup :: u32
  haint :: u32
  grxstsp :: u32

definition chan_irq :: "nat \<Rightarrow> sys \<Rightarrow> sys option" where
  "chan_irq i s = (case s of (u, w) \<Rightarrow> do {
     k \<leftarrow> get_chan i u (wb w);
     let k = (if HCCHAR (regs k) AND HCCHAR_EPDIR = HCCHAR_EPDIR
              then HCD_HC_IN_IRQHandler u k else HCD_HC_OUT_IRQHandler u k);
     let (u, b) = put_chan i k (u, wb w);
     Some (u, w\<lparr>wb := b\<rparr>)
   })"

fun chan_irqs :: "u32 \<Rightarrow> nat \<Rightarrow> nat \<Rightarrow> sys \<Rightarrow> sys option" where
  "chan_irqs ints i 0 s = Some s"
| "chan_irqs ints i (Suc n) s = do {
     s \<leftarrow> (if ints AND push_bit (i mod 16) 1 \<noteq> 0 then chan_irq i s else Some s);
     chan_irqs ints (Suc i) n s
   }"

text \<open>
  The reads are, in order: the check for a spurious interrupt, then the flags PXFR, IISOIXFR, PTXFE,
  MMIS, DISCINT, HPRTINT, SOF, HCINT and RXFLVL; the first four are only acknowledged.
\<close>

definition gflag :: "irq_in \<Rightarrow> nat \<Rightarrow> u32 \<Rightarrow> bool" where
  "gflag q k v \<longleftrightarrow> gint q k AND v = v"

text \<open>The disconnect callback stops and starts the controller: the two register operations are here.\<close>

definition irq_disconnect :: "usb_env \<Rightarrow> hid \<Rightarrow> irq_in \<Rightarrow> sys \<Rightarrow> sys option" where
  "irq_disconnect env x q s = (case s of (u, w) \<Rightarrow>
     (if gflag q 5 GINT_DISCINT \<and> disc_hprt q AND HPRT_PCSTS = 0
      then map_option (Pair (USB_InitFSLSPClkSel HCFG_48_MHZ (USB_DriveVbus 1 (USB_StopHost u))))
             (HAL_HCD_Disconnect_Callback env x w)
      else Some (u, w)))"

definition irq_sof :: "usb_env \<Rightarrow> nat \<Rightarrow> hid \<Rightarrow> irq_in \<Rightarrow> sys \<Rightarrow> sys option" where
  "irq_sof env d x q s = (case s of (u, w) \<Rightarrow>
     (if gflag q 7 GINT_SOF then map_option (Pair u) (HAL_HCD_SOF_Callback env d x w) else Some (u, w)))"

definition HAL_HCD_IRQHandler :: "usb_env \<Rightarrow> nat \<Rightarrow> hid \<Rightarrow> irq_in \<Rightarrow> sys \<Rightarrow> sys option" where
  "HAL_HCD_IRQHandler env d x q s =
     (if \<not> host_mode q \<or> gint q 0 = 0 then Some s
      else do {
        s \<leftarrow> irq_disconnect env x q s;
        s \<leftarrow> (if gflag q 6 GINT_HPRTINT then HCD_Port_IRQHandler env x (port_hprt q) (port_hprt_dup q) s else Some s);
        s \<leftarrow> irq_sof env d x q s;
        s \<leftarrow> (if gflag q 8 GINT_HCINT then chan_irqs (haint q AND 0xFFFF) 0 Host_channels s else Some s);
        (if gflag q 9 GINT_RXFLVL then HCD_RXQLVL_IRQHandler (grxstsp q) s else Some s)
      })"

subsection \<open>One answer of the device\<close>

text \<open>
  What the device answers to a transaction, the flags the controller raises for it (an acknowledged
  transfer raises two), and a round: the handler runs until nothing is pending, the channel halts,
  the handler runs again.
\<close>

datatype answer = A_Done | A_Nak | A_Stall | A_Err

primrec ans_flags :: "answer \<Rightarrow> u32" where
  "ans_flags A_Done = HCINT_ACK OR HCINT_XFRC"
| "ans_flags A_Nak = HCINT_NAK"
| "ans_flags A_Stall = HCINT_STALL"
| "ans_flags A_Err = HCINT_TXERR"

definition raise_int :: "u32 \<Rightarrow> hchan \<Rightarrow> hchan" where
  "raise_int v = upd_regs (\<lambda>r. r\<lparr>HCINT := HCINT r OR v\<rparr>)"

fun serve :: "(hchan \<Rightarrow> hchan) \<Rightarrow> nat \<Rightarrow> hchan \<Rightarrow> hchan" where
  "serve f 0 k = k"
| "serve f (Suc n) k = (if HCINT (regs k) = 0 then k else serve f n (f k))"

definition round_of :: "(hchan \<Rightarrow> hchan) \<Rightarrow> answer \<Rightarrow> hchan \<Rightarrow> hchan" where
  "round_of f a k = serve f 1 (raise_int HCINT_CHH (serve f 2 (raise_int (ans_flags a) k)))"

abbreviation out_round :: "otg \<Rightarrow> answer \<Rightarrow> hchan \<Rightarrow> hchan" where
  "out_round u \<equiv> round_of (HCD_HC_OUT_IRQHandler u)"

abbreviation in_round :: "otg \<Rightarrow> answer \<Rightarrow> hchan \<Rightarrow> hchan" where
  "in_round u \<equiv> round_of (HCD_HC_IN_IRQHandler u)"

lemmas chan_defs = upd_regs_def upd_chd_def clear_int_def mask_halt_def unmask_halt_def halt_hc_def reactivate_def
  notify_urb_def set_st_def set_urb_def set_err_def set_ping_def flip_in_def flip_out_def raise_int_def

abbreviation pend :: "hchan \<Rightarrow> u32" where "pend k \<equiv> HCINT (regs k)"

lemma chan_pend [simp]:
  "pend (clear_int v k) = pend k AND NOT v" "pend (raise_int v k) = pend k OR v" "pend (mask_halt k) = pend k"
  "pend (unmask_halt k) = pend k" "pend (halt_hc u k) = pend k" "pend (reactivate k) = pend k"
  "pend (notify_urb k) = pend k" "pend (upd_chd f k) = pend k" "pend (set_st s k) = pend k" "pend (set_urb b k) = pend k"
  "pend (set_err n k) = pend k" "pend (set_ping p k) = pend k" "pend (flip_in k) = pend k" "pend (flip_out k) = pend k"
  by (simp_all add: chan_defs)

lemma chan_chd [simp]:
  "chd (clear_int v k) = chd k" "chd (raise_int v k) = chd k" "chd (mask_halt k) = chd k"
  "chd (unmask_halt k) = chd k" "chd (halt_hc u k) = chd k" "chd (reactivate k) = chd k"
  "chd (notify_urb k) = chd k" "chd (upd_chd f k) = f (chd k)" "chd (upd_regs g k) = chd k"
  "chd (set_st s k) = (chd k)\<lparr>hc_state := s\<rparr>" "chd (set_urb b k) = (chd k)\<lparr>urb_state := b\<rparr>"
  "chd (set_err n k) = (chd k)\<lparr>ErrCnt := n\<rparr>" "chd (set_ping p k) = (chd k)\<lparr>do_ping := p\<rparr>"
  "chd (flip_in k) = (chd k)\<lparr>toggle_in := toggle_in (chd k) XOR 1\<rparr>"
  "chd (flip_out k) = (chd k)\<lparr>toggle_out := toggle_out (chd k) XOR 1\<rparr>"
  by (simp_all add: chan_defs)

lemma chan_acts [simp]:
  "acts (clear_int v k) = acts k" "acts (raise_int v k) = acts k" "acts (mask_halt k) = acts k"
  "acts (unmask_halt k) = acts k" "acts (halt_hc u k) = acts k @ [Act_Halt]" "acts (reactivate k) = acts k"
  "acts (notify_urb k) = acts k @ [Act_Notify]" "acts (upd_chd f k) = acts k" "acts (set_st s k) = acts k"
  "acts (set_urb b k) = acts k" "acts (set_err n k) = acts k" "acts (set_ping p k) = acts k" "acts (flip_in k) = acts k"
  "acts (flip_out k) = acts k" "acts (upd_regs g k) = acts k"
  by (simp_all add: chan_defs)

lemma halted_error_simps [simp]:
  "pend (halted_error k) = pend k" "acts (halted_error k) = acts k"
  "chd (halted_error k) = (chd k)\<lparr>ErrCnt := (if ErrCnt (chd k) + 1 > 3 then 0 else ErrCnt (chd k) + 1),
     urb_state := (if ErrCnt (chd k) + 1 > 3 then USBH_URB_ERROR else USBH_URB_NOTREADY)\<rparr>"
  by (simp_all add: halted_error_def Let_def)

text \<open>The handlers, by what is pending.\<close>

lemma out_irq:
  "pend k = 0x21 \<Longrightarrow> HCD_HC_OUT_IRQHandler u k = out_ack u k"
  "pend k = 0x1 \<Longrightarrow> HCD_HC_OUT_IRQHandler u k =
     set_st HC_XFRC (clear_int HCINT_XFRC (halt_hc u (unmask_halt (set_err 0 k))))"
  "pend k = 0x8 \<Longrightarrow> HCD_HC_OUT_IRQHandler u k = set_st HC_STALL (halt_hc u (unmask_halt (clear_int HCINT_STALL k)))"
  "pend k = 0x10 \<Longrightarrow> HCD_HC_OUT_IRQHandler u k =
     clear_int HCINT_NAK (halt_hc u (unmask_halt (set_st HC_NAK (set_err 0 k))))"
  "pend k = 0x80 \<Longrightarrow> HCD_HC_OUT_IRQHandler u k = clear_int HCINT_TXERR (set_st HC_XACTERR (halt_hc u (unmask_halt k)))"
  "pend k = 0x2 \<Longrightarrow> HCD_HC_OUT_IRQHandler u k = out_halted k"
  by (simp_all add: HCD_HC_OUT_IRQHandler_def flag_def)

lemma in_irq:
  "pend k = 0x21 \<Longrightarrow> HCD_HC_IN_IRQHandler u k = in_complete u (clear_int HCINT_ACK k)"
  "pend k = 0x1 \<Longrightarrow> HCD_HC_IN_IRQHandler u k = in_complete u k"
  "pend k = 0x8 \<Longrightarrow> HCD_HC_IN_IRQHandler u k =
     halt_hc u (clear_int HCINT_STALL (clear_int HCINT_NAK (set_st HC_STALL (unmask_halt k))))"
  "pend k = 0x10 \<Longrightarrow> HCD_HC_IN_IRQHandler u k = in_nak u k"
  "pend k = 0x80 \<Longrightarrow> HCD_HC_IN_IRQHandler u k = in_txerr u k"
  "pend k = 0x2 \<Longrightarrow> HCD_HC_IN_IRQHandler u k = in_halted k"
  by (simp_all add: HCD_HC_IN_IRQHandler_def in_first_def in_second_def flag_def)

text \<open>Error count and URB state after an error that halts the channel with count \<open>n\<close>.\<close>

definition err_next :: "u32 \<Rightarrow> u32" where "err_next n = (if n + 1 > 3 then 0 else n + 1)"
definition err_urb :: "u32 \<Rightarrow> USBH_URBStateTypeDef" where
  "err_urb n = (if n + 1 > 3 then USBH_URB_ERROR else USBH_URB_NOTREADY)"

lemma serve_2: "serve f 2 k = (if pend k = 0 then k else if pend (f k) = 0 then f k else f (f k))"
  by (simp add: numeral_2_eq_2)

lemma out_answered:
  assumes "pend k = 0" "do_ping (chd k) \<noteq> 1"
  shows "serve (HCD_HC_OUT_IRQHandler u) 2 (raise_int (ans_flags a) k) = (case a of
      A_Done \<Rightarrow> set_st HC_XFRC (clear_int HCINT_XFRC (halt_hc u (unmask_halt (set_err 0
         (clear_int HCINT_ACK (raise_int (ans_flags a) k))))))
    | A_Nak \<Rightarrow> clear_int HCINT_NAK (halt_hc u (unmask_halt (set_st HC_NAK (set_err 0 (raise_int (ans_flags a) k)))))
    | A_Stall \<Rightarrow> set_st HC_STALL (halt_hc u (unmask_halt (clear_int HCINT_STALL (raise_int (ans_flags a) k))))
    | A_Err \<Rightarrow> clear_int HCINT_TXERR (set_st HC_XACTERR (halt_hc u (unmask_halt (raise_int (ans_flags a) k)))))"
  using assms by (cases a) (simp_all add: serve_2 out_irq out_ack_def Let_def)

lemma out_round_eq:
  assumes "pend k = 0" "do_ping (chd k) \<noteq> 1"
  shows "out_round u a k = out_halted (raise_int HCINT_CHH (serve (HCD_HC_OUT_IRQHandler u) 2 (raise_int (ans_flags a) k)))"
proof -
  have "pend (raise_int HCINT_CHH (serve (HCD_HC_OUT_IRQHandler u) 2 (raise_int (ans_flags a) k))) = 0x2"
    unfolding out_answered [OF assms] using assms(1) by (cases a) simp_all
  then show ?thesis by (simp add: round_of_def out_irq(6))
qed

lemma out_round_chd:
  assumes "HCINT (regs k) = 0" "do_ping (chd k) \<noteq> 1"
  shows "chd (out_round u A_Done k) = (chd k)\<lparr>ErrCnt := 0, hc_state := HC_XFRC, urb_state := USBH_URB_DONE,
      toggle_out := (if ep_ty k = EP_TYPE_BULK \<or> ep_ty k = EP_TYPE_INTR then toggle_out (chd k) XOR 1 else toggle_out (chd k))\<rparr>"
    "chd (out_round u A_Nak k) = (chd k)\<lparr>ErrCnt := 0, hc_state := HC_NAK, urb_state := USBH_URB_NOTREADY\<rparr>"
    "chd (out_round u A_Stall k) = (chd k)\<lparr>hc_state := HC_STALL, urb_state := USBH_URB_STALL\<rparr>"
    "chd (out_round u A_Err k) = (chd k)\<lparr>ErrCnt := err_next (ErrCnt (chd k)), hc_state := HC_XACTERR,
       urb_state := err_urb (ErrCnt (chd k))\<rparr>"
  unfolding out_round_eq [OF assms] out_answered [OF assms] out_halted_def Let_def
  by (simp_all add: err_next_def err_urb_def)

lemma out_round_rest:
  assumes "HCINT (regs k) = 0" "do_ping (chd k) \<noteq> 1"
  shows "HCINT (regs (out_round u a k)) = 0" "acts (out_round u a k) = acts k @ [Act_Halt, Act_Notify]"
    "do_ping (chd (out_round u a k)) = do_ping (chd k)"
  unfolding out_round_eq [OF assms] out_answered [OF assms] out_halted_def Let_def
  using assms(1) by (cases a; simp)+

lemma in_complete_rest:
  "ep_ty k = EP_TYPE_CTRL \<or> ep_ty k = EP_TYPE_BULK \<Longrightarrow>
     pend (in_complete u k) = (pend k AND NOT HCINT_XFRC) AND NOT HCINT_NAK"
  "ep_ty k = EP_TYPE_CTRL \<or> ep_ty k = EP_TYPE_BULK \<Longrightarrow> acts (in_complete u k) = acts k @ [Act_Halt]"
  "ep_ty k = EP_TYPE_CTRL \<or> ep_ty k = EP_TYPE_BULK \<Longrightarrow> chd (in_complete u k) =
     (chd k)\<lparr>ErrCnt := 0, hc_state := HC_XFRC, toggle_in := toggle_in (chd k) XOR 1\<rparr>"
  by (simp_all add: in_complete_def Let_def upd_regs_def)

lemma in_answered:
  assumes "pend k = 0" "ep_ty k = EP_TYPE_CTRL \<or> ep_ty k = EP_TYPE_BULK"
  shows "serve (HCD_HC_IN_IRQHandler u) 2 (raise_int (ans_flags a) k) = (case a of
      A_Done \<Rightarrow> in_complete u (clear_int HCINT_ACK (raise_int (ans_flags a) k))
    | A_Nak \<Rightarrow> clear_int HCINT_NAK (halt_hc u (unmask_halt (set_st HC_NAK (set_err 0 (raise_int (ans_flags a) k)))))
    | A_Stall \<Rightarrow> halt_hc u (clear_int HCINT_STALL (clear_int HCINT_NAK (set_st HC_STALL (unmask_halt (raise_int (ans_flags a) k)))))
    | A_Err \<Rightarrow> in_txerr u (raise_int (ans_flags a) k))"
  using assms by (cases a) (auto simp: serve_2 in_irq in_complete_rest in_nak_def in_txerr_def)

lemma in_round_eq:
  assumes "pend k = 0" "ep_ty k = EP_TYPE_CTRL \<or> ep_ty k = EP_TYPE_BULK"
  shows "in_round u a k = in_halted (raise_int HCINT_CHH (serve (HCD_HC_IN_IRQHandler u) 2 (raise_int (ans_flags a) k)))"
proof -
  have "pend (raise_int HCINT_CHH (serve (HCD_HC_IN_IRQHandler u) 2 (raise_int (ans_flags a) k))) = 0x2"
    unfolding in_answered [OF assms] using assms by (cases a) (auto simp: in_complete_rest in_txerr_def)
  then show ?thesis by (simp add: round_of_def in_irq(6))
qed

lemma in_round_chd:
  assumes "pend k = 0" "ep_ty k = EP_TYPE_CTRL \<or> ep_ty k = EP_TYPE_BULK"
  shows "chd (in_round u A_Done k) = (chd k)\<lparr>ErrCnt := 0, hc_state := HC_XFRC, urb_state := USBH_URB_DONE,
      toggle_in := toggle_in (chd k) XOR 1\<rparr>"
    "chd (in_round u A_Nak k) = (chd k)\<lparr>ErrCnt := 0, hc_state := HC_NAK, urb_state := USBH_URB_NOTREADY\<rparr>"
    "chd (in_round u A_Stall k) = (chd k)\<lparr>hc_state := HC_STALL, urb_state := USBH_URB_STALL\<rparr>"
    "chd (in_round u A_Err k) = (chd k)\<lparr>ErrCnt := err_next (ErrCnt (chd k) + 1), hc_state := HC_XACTERR,
       urb_state := err_urb (ErrCnt (chd k) + 1)\<rparr>"
  unfolding in_round_eq [OF assms] in_answered [OF assms] in_halted_def Let_def
  using assms by (simp_all add: in_complete_rest in_txerr_def err_next_def err_urb_def)

lemma in_round_rest:
  assumes "pend k = 0" "ep_ty k = EP_TYPE_CTRL \<or> ep_ty k = EP_TYPE_BULK"
  shows "pend (in_round u a k) = 0" "acts (in_round u a k) = acts k @ [Act_Halt, Act_Notify]"
    "ep_ty (in_round u a k) = ep_ty k"
  unfolding in_round_eq [OF assms] in_answered [OF assms] in_halted_def Let_def
  using assms by (cases a; auto simp: in_complete_rest in_txerr_def)+

subsection \<open>The alternating bit of an OUT channel\<close>

text \<open>
  A run of an OUT channel: the host library submits requests, the device answers transactions. What a
  submission sends is its data PID; the specification is the alternating bit that only an acknowledged
  transfer flips.
\<close>

datatype out_step = Submit buf_ptr u16 | Answer answer

fun out_run :: "otg \<Rightarrow> u8 \<Rightarrow> out_step list \<Rightarrow> hchan \<Rightarrow> u8 list" where
  "out_run u ch [] k = []"
| "out_run u ch (Submit p len # ss) k =
     (let k = upd_chd (submit_hc ch 0 (ep_ty k) 1 p len 0) k in data_pid (chd k) # out_run u ch ss k)"
| "out_run u ch (Answer a # ss) k = out_run u ch ss (out_round u a k)"

fun bit_run :: "u8 \<Rightarrow> out_step list \<Rightarrow> u8 list" where
  "bit_run t [] = []"
| "bit_run t (Submit p len # ss) = pid_of_toggle t # bit_run t ss"
| "bit_run t (Answer a # ss) = bit_run (if a = A_Done then t XOR 1 else t) ss"

text \<open>
  C10: an OUT channel of a bulk or interrupt endpoint is an alternating-bit sender: over any sequence of
  submissions and answers, each submission carries the PID of the bit that flips with every
  acknowledged transfer and with nothing else, so what was refused, stalled or lost is sent again
  under the same PID.
\<close>

theorem out_alternating_bit:
  assumes "pend k = 0" "do_ping (chd k) \<noteq> 1" "ep_ty k = EP_TYPE_BULK \<or> ep_ty k = EP_TYPE_INTR"
  shows "out_run u ch ss k = bit_run (toggle_out (chd k)) ss"
  using assms
proof (induction ss arbitrary: k)
  case (Cons s ss)
  show ?case
  proof (cases s)
    case (Submit p len)
    let ?k = "upd_chd (submit_hc ch 0 (ep_ty k) 1 p len 0) k"
    have "toggle_out (chd ?k) = toggle_out (chd k)" "do_ping (chd ?k) = do_ping (chd k)"
      "data_pid (chd ?k) = pid_of_toggle (toggle_out (chd k))"
      using Cons.prems(3) by (auto simp: submit_hc_def submit_toggle_def Let_def)
    then show ?thesis using Cons.IH [of ?k] Cons.prems Submit by simp
  next
    case (Answer a)
    let ?k = "out_round u a k"
    note r = out_round_rest [OF Cons.prems(1,2), of u a]
    have "ep_ty ?k = ep_ty k" "toggle_out (chd ?k) = (if a = A_Done then toggle_out (chd k) XOR 1 else toggle_out (chd k))"
      using Cons.prems(3) by (cases a; auto simp: out_round_chd [OF Cons.prems(1,2)])+
    then show ?thesis using Cons.IH [of ?k] Cons.prems r Answer by simp
  qed
qed simp

abbreviation sample_chan :: "u8 \<Rightarrow> hchan" where
  "sample_chan ty \<equiv> \<lparr>regs = \<lparr>HCCHAR = 0, HCINT = 0, HCINTMSK = 0, HCTSIZ = 0\<rparr>, chd = zero_hc\<lparr>ep_type := ty\<rparr>, acts = []\<rparr>"

abbreviation sample_steps :: "out_step list" where
  "sample_steps \<equiv> [Submit (Mem 0) 8, Answer A_Nak, Submit (Mem 0) 8, Answer A_Done, Submit (Mem 8) 8, Answer A_Err, Answer A_Done, Submit (Mem 16) 8]"

lemma out_alternating_bit_witness:
  "out_run sample_otg 2 sample_steps (sample_chan EP_TYPE_BULK) = [HC_PID_DATA0, HC_PID_DATA0, HC_PID_DATA1, HC_PID_DATA0]"
proof -
  have "out_run sample_otg 2 sample_steps (sample_chan EP_TYPE_BULK) = bit_run (toggle_out (chd (sample_chan EP_TYPE_BULK))) sample_steps"
    by (rule out_alternating_bit) (simp_all add: zero_hc_def)
  then show ?thesis by (simp add: zero_hc_def pid_of_toggle_def)
qed

subsection \<open>Transaction errors\<close>

text \<open>
  C31: consecutive transaction errors. An OUT channel reports an error to the library with every fourth
  one, an IN channel, whose handler counts an error twice, with every second one; the others are
  reported as not ready and the channel is started again.
\<close>

theorem errors_reported:
  assumes "pend k = 0" "do_ping (chd k) \<noteq> 1" "ErrCnt (chd k) = 0" "0 < n"
    "ep_ty k = EP_TYPE_CTRL \<or> ep_ty k = EP_TYPE_BULK"
  shows "urb_state (chd ((out_round u A_Err ^^ n) k)) = (if n mod 4 = 0 then USBH_URB_ERROR else USBH_URB_NOTREADY) \<and>
     urb_state (chd ((in_round u A_Err ^^ n) k)) = (if even n then USBH_URB_ERROR else USBH_URB_NOTREADY)"
proof -
  have o: "pend ((out_round u A_Err ^^ m) k) = 0 \<and> do_ping (chd ((out_round u A_Err ^^ m) k)) \<noteq> 1 \<and>
      ErrCnt (chd ((out_round u A_Err ^^ m) k)) = of_nat (m mod 4) \<and>
      (0 < m \<longrightarrow> urb_state (chd ((out_round u A_Err ^^ m) k)) = (if m mod 4 = 0 then USBH_URB_ERROR else USBH_URB_NOTREADY))" for m
  proof (induction m)
    case (Suc m)
    then have q: "pend ((out_round u A_Err ^^ m) k) = 0" "do_ping (chd ((out_round u A_Err ^^ m) k)) \<noteq> 1"
      "ErrCnt (chd ((out_round u A_Err ^^ m) k)) = of_nat (m mod 4)" by blast+
    have "m mod 4 < 4" by simp
    then consider "m mod 4 = 0" | "m mod 4 = 1" | "m mod 4 = 2" | "m mod 4 = 3" by linarith
    then show ?case
      by cases (use q out_round_rest [OF q(1,2), of u A_Err] in
        \<open>simp_all add: out_round_chd [OF q(1,2)] err_next_def err_urb_def mod_Suc\<close>)
  qed (use assms in simp)
  have i: "pend ((in_round u A_Err ^^ m) k) = 0 \<and> ep_ty ((in_round u A_Err ^^ m) k) = ep_ty k \<and>
      ErrCnt (chd ((in_round u A_Err ^^ m) k)) = (if even m then 0 else 2) \<and>
      (0 < m \<longrightarrow> urb_state (chd ((in_round u A_Err ^^ m) k)) = (if even m then USBH_URB_ERROR else USBH_URB_NOTREADY))" for m
  proof (induction m)
    case (Suc m)
    then have q: "pend ((in_round u A_Err ^^ m) k) = 0" "ep_ty ((in_round u A_Err ^^ m) k) = ep_ty k"
      "ErrCnt (chd ((in_round u A_Err ^^ m) k)) = (if even m then 0 else 2)" by blast+
    note t = assms(5) [folded q(2)]
    show ?case
      using q in_round_rest [OF q(1) t, of u A_Err]
      by (simp add: in_round_chd [OF q(1) t] err_next_def err_urb_def)
  qed (use assms in simp)
  show ?thesis using o [of n] i [of n] assms(4) by simp
qed

lemma errors_reported_witness:
  "urb_state (chd ((out_round sample_otg A_Err ^^ 2) (sample_chan EP_TYPE_BULK))) = USBH_URB_NOTREADY \<and>
   urb_state (chd ((in_round sample_otg A_Err ^^ 2) (sample_chan EP_TYPE_BULK))) = USBH_URB_ERROR"
  using errors_reported [of "sample_chan EP_TYPE_BULK" 2 sample_otg] by (simp add: zero_hc_def)

subsection \<open>Babble\<close>

text \<open>What the operations of a handler do to the babble flag and to its mask.\<close>

lemma babble_ops [simp]:
  "bit (pend (upd_chd f k)) 8 = bit (pend k) 8" "bit (HCINTMSK (regs (clear_int v k))) 8 = bit (HCINTMSK (regs k)) 8"
  "bit (HCINTMSK (regs (mask_halt k))) 8 = bit (HCINTMSK (regs k)) 8"
  "bit (HCINTMSK (regs (unmask_halt k))) 8 = bit (HCINTMSK (regs k)) 8"
  "HCINTMSK (regs (halt_hc u k)) = HCINTMSK (regs k)" "HCINTMSK (regs (reactivate k)) = HCINTMSK (regs k)"
  "HCINTMSK (regs (notify_urb k)) = HCINTMSK (regs k)" "HCINTMSK (regs (set_st s k)) = HCINTMSK (regs k)"
  "HCINTMSK (regs (set_urb b k)) = HCINTMSK (regs k)" "HCINTMSK (regs (set_err n k)) = HCINTMSK (regs k)"
  "HCINTMSK (regs (flip_in k)) = HCINTMSK (regs k)" "HCINTMSK (regs (raise_int v k)) = HCINTMSK (regs k)"
  "HCINTMSK (regs (halted_error k)) = HCINTMSK (regs k)"
  by (simp_all add: chan_defs halted_error_def Let_def bit_or_iff bit_and_iff bit_not_iff)

lemma in_babble:
  "bit (pend (HCD_HC_IN_IRQHandler u k)) 8 = bit (pend k) 8"
  "bit (HCINTMSK (regs (HCD_HC_IN_IRQHandler u k))) 8 = bit (HCINTMSK (regs k)) 8"
proof -
  have 1: "bit (pend (in_first u k)) 8 = bit (pend k) 8" "bit (HCINTMSK (regs (in_first u k))) 8 = bit (HCINTMSK (regs k)) 8" for k
    by (simp_all add: in_first_def bit_and_iff bit_not_iff)
  have 2: "bit (pend (in_complete u k)) 8 = bit (pend k) 8" "bit (HCINTMSK (regs (in_complete u k))) 8 = bit (HCINTMSK (regs k)) 8" for k
    by (simp_all add: in_complete_def Let_def upd_regs_def bit_and_iff bit_not_iff)
  have 3: "bit (pend (in_halted k)) 8 = bit (pend k) 8" "bit (HCINTMSK (regs (in_halted k))) 8 = bit (HCINTMSK (regs k)) 8" for k
    by (simp_all add: in_halted_def Let_def bit_and_iff bit_not_iff)
  have 4: "bit (pend (in_second u k)) 8 = bit (pend k) 8" "bit (HCINTMSK (regs (in_second u k))) 8 = bit (HCINTMSK (regs k)) 8" for k
    by (simp_all add: in_second_def 2 3 in_txerr_def in_nak_def bit_and_iff bit_not_iff)
  show "bit (pend (HCD_HC_IN_IRQHandler u k)) 8 = bit (pend k) 8"
    "bit (HCINTMSK (regs (HCD_HC_IN_IRQHandler u k))) 8 = bit (HCINTMSK (regs k)) 8"
    by (simp_all add: HCD_HC_IN_IRQHandler_def 1 4)
qed

lemma flag_bit: "(v AND HCINT_BBERR = HCINT_BBERR) = bit v 8"
proof -
  have "v AND HCINT_BBERR = (if bit v 8 then HCINT_BBERR else 0)"
    by (rule bit_word_eqI) (auto simp: bit_and_iff bit_consts simp del: bit_numeral_word_iff)
  then show ?thesis by simp
qed

text \<open>
  Babble is unmasked for every IN channel but its handler never acknowledges it: whatever the
  controller raises besides and however often the handler runs, the channel's interrupt stays pending.
\<close>

theorem babble_never_acknowledged:
  assumes "HCINT (regs k) AND HCINT_BBERR = HCINT_BBERR" "HCINTMSK (regs k) AND HCINT_BBERR = HCINT_BBERR"
  shows "(let r = regs (fold (\<lambda>v k. HCD_HC_IN_IRQHandler u (raise_int v k)) vs k)
          in HCINT r AND HCINTMSK r \<noteq> 0)"
proof -
  have "bit (pend (fold (\<lambda>v k. HCD_HC_IN_IRQHandler u (raise_int v k)) vs k)) 8 \<and>
      bit (HCINTMSK (regs (fold (\<lambda>v k. HCD_HC_IN_IRQHandler u (raise_int v k)) vs k))) 8"
    using assms unfolding flag_bit
    by (induction vs arbitrary: k) (simp_all add: in_babble bit_or_iff)
  then show ?thesis
    by (auto simp: Let_def bit_and_iff dest!: arg_cong [where f = "\<lambda>x. bit x 8" and y = 0])
qed

lemma babble_never_acknowledged_witness:
  "(let r = regs (fold (\<lambda>v k. HCD_HC_IN_IRQHandler sample_otg (raise_int v k)) [HCINT_CHH, 0, HCINT_NAK]
       \<lparr>regs = \<lparr>HCCHAR = 0, HCINT = HCINT_BBERR, HCINTMSK = HCINT_BBERR, HCTSIZ = 0\<rparr>, chd = zero_hc, acts = []\<rparr>)
    in HCINT r AND HCINTMSK r \<noteq> 0)"
  by (rule babble_never_acknowledged) simp_all

subsection \<open>An IN transfer\<close>

text \<open>
  A transfer of \<open>N\<close> packets as the handlers see it: for every packet a receive interrupt, with the
  number of packets still expected in \<^verbatim>\<open>HCTSIZ\<close>, then the completion.
\<close>

definition rx_event :: "nat \<times> u32 \<Rightarrow> hchan \<Rightarrow> hchan" where
  "rx_event e k = rx_advance (snd e) (upd_regs (\<lambda>r. r\<lparr>HCTSIZ := push_bit 19 (of_nat (fst e))\<rparr>) k)"

definition in_transfer :: "otg \<Rightarrow> nat \<Rightarrow> u32 list \<Rightarrow> hchan \<Rightarrow> hchan" where
  "in_transfer u N ns k = in_round u A_Done (fold rx_event (zip (rev [0..<N]) ns) k)"

lemma pktcnt_left: "n < 1024 \<Longrightarrow> (push_bit 19 (of_nat n) AND HCTSIZ_PKTCNT = (0 :: u32)) = (n = 0)"
proof -
  assume n: "n < 1024"
  then have "take_bit 10 n = n" by (simp add: take_bit_nat_eq_self)
  then have "bit n m \<Longrightarrow> m < 10" for m by (metis bit_take_bit_iff)
  from this [of "m - 19" for m] have b: "bit n (m - 19) \<Longrightarrow> 19 \<le> m \<Longrightarrow> m < 29" for m by fastforce
  have "push_bit 19 (of_nat n) AND HCTSIZ_PKTCNT = (push_bit 19 (of_nat n) :: u32)"
    by (intro bit_word_eqI)
      (auto simp: bit_and_iff bit_push_bit_iff bit_consts bit_of_nat_iff simp del: bit_numeral_word_iff dest: b)
  moreover have "(push_bit 19 (of_nat n) = (0 :: u32)) = (n = 0)"
    using n by (simp add: word_unat_eq_iff push_bit_eq_mult unat_word_ariths unsigned_of_nat take_bit_nat_eq_self)
  ultimately show ?thesis by simp
qed

lemma rx_event_simps:
  assumes "j < 1024"
  shows "xfer_count (chd (rx_event (j, n) k)) = xfer_count (chd k) + n"
    "xfer_buff (chd (rx_event (j, n) k)) = buf_add (xfer_buff (chd k)) (unat n)"
    "toggle_in (chd (rx_event (j, n) k)) = (if j = 0 then toggle_in (chd k) else toggle_in (chd k) XOR 1)"
    "ep_ty (rx_event (j, n) k) = ep_ty k" "pend (rx_event (j, n) k) = pend k"
  using pktcnt_left [OF assms] by (auto simp: rx_event_def rx_advance_def Let_def upd_regs_def upd_chd_def flip_in_def reactivate_def word_gt_0)

lemma rx_events:
  assumes "length ns \<le> N" "N < 1024"
  shows "pend (fold rx_event (zip (rev [0..<N]) ns) k) = pend k \<and>
    ep_ty (fold rx_event (zip (rev [0..<N]) ns) k) = ep_ty k \<and>
    xfer_count (chd (fold rx_event (zip (rev [0..<N]) ns) k)) = xfer_count (chd k) + sum_list ns \<and>
    toggle_in (chd (fold rx_event (zip (rev [0..<N]) ns) k)) =
      (if odd (length ns) = (length ns = N \<and> N \<noteq> 0) then toggle_in (chd k) else toggle_in (chd k) XOR 1)"
  using assms
proof (induction ns arbitrary: N k)
  case (Cons n ns)
  then obtain M where N: "N = Suc M" by (cases N) auto
  have r: "rev [0..<N] = M # rev [0..<M]" using N by simp
  have x: "(t XOR 1) XOR 1 = (t :: u8)" for t by (simp add: xor.assoc)
  have M: "M < 1024" "length ns \<le> M" using Cons.prems N by simp_all
  have ih: "pend (fold rx_event (zip (rev [0..<M]) ns) (rx_event (M, n) k)) = pend k"
    "ep_ty (fold rx_event (zip (rev [0..<M]) ns) (rx_event (M, n) k)) = ep_ty k"
    "xfer_count (chd (fold rx_event (zip (rev [0..<M]) ns) (rx_event (M, n) k))) = xfer_count (chd k) + n + sum_list ns"
    "toggle_in (chd (fold rx_event (zip (rev [0..<M]) ns) (rx_event (M, n) k))) =
      (if odd (length ns) = (length ns = M \<and> M \<noteq> 0) then (if M = 0 then toggle_in (chd k) else toggle_in (chd k) XOR 1)
       else (if M = 0 then toggle_in (chd k) XOR 1 else (toggle_in (chd k) XOR 1) XOR 1))"
    using Cons.IH [OF M(2,1), of "rx_event (M, n) k"] rx_event_simps [OF M(1), of n k] by auto
  have "toggle_in (chd (fold rx_event (zip (rev [0..<M]) ns) (rx_event (M, n) k))) =
      (if odd (length (n # ns)) = (length (n # ns) = N \<and> N \<noteq> 0) then toggle_in (chd k) else toggle_in (chd k) XOR 1)"
    unfolding ih(4) x using M(2) N by (cases "M = 0"; cases "length ns = M"; cases "odd (length ns)"; simp)
  then show ?case using ih(1-3) unfolding r zip_Cons_Cons by (simp add: add.assoc)
qed auto

text \<open>
  C30: an IN transfer that was programmed for \<open>N\<close> packets and gets \<open>ns\<close>. The bytes are counted and the
  transfer is reported done. When all \<open>N\<close> packets come the data toggle has flipped once per packet;
  when a short packet ends the transfer early it has flipped once more, and is wrong for the next one.
\<close>

theorem in_transfer_toggle:
  assumes "HCINT (regs k) = 0" "ep_type (chd k) = EP_TYPE_CTRL \<or> ep_type (chd k) = EP_TYPE_BULK"
    "0 < length ns" "length ns \<le> N" "N \<le> 256"
  shows "(let c = chd (in_transfer u N ns k) in
     urb_state c = USBH_URB_DONE \<and> xfer_count c = xfer_count (chd k) + sum_list ns \<and>
     toggle_in c = (if even (length ns + (if length ns < N then 1 else 0)) then toggle_in (chd k) else toggle_in (chd k) XOR 1))"
proof -
  let ?k = "fold rx_event (zip (rev [0..<N]) ns) k"
  have x: "(t XOR 1) XOR 1 = (t :: u8)" for t by (simp add: xor.assoc)
  have r: "pend ?k = 0" "ep_ty ?k = EP_TYPE_CTRL \<or> ep_ty ?k = EP_TYPE_BULK"
    "xfer_count (chd ?k) = xfer_count (chd k) + sum_list ns"
    "toggle_in (chd ?k) = (if odd (length ns) = (length ns = N) then toggle_in (chd k) else toggle_in (chd k) XOR 1)"
    using rx_events [of ns N k] assms by auto
  show ?thesis
    unfolding in_transfer_def Let_def in_round_chd(1) [OF r(1,2)]
    using r(3,4) assms(4) x by (cases "length ns = N"; cases "odd (length ns)"; simp)
qed

lemma in_transfer_toggle_witness:
  "(let c = chd (in_transfer sample_otg 8 [64, 10] (sample_chan EP_TYPE_BULK)) in
     urb_state c = USBH_URB_DONE \<and> xfer_count c = xfer_count (chd (sample_chan EP_TYPE_BULK)) + sum_list [64, 10] \<and>
     toggle_in c = (if even (length [64, 10 :: u32] + (if length [64, 10 :: u32] < 8 then 1 else 0))
       then toggle_in (chd (sample_chan EP_TYPE_BULK)) else toggle_in (chd (sample_chan EP_TYPE_BULK)) XOR 1))"
  by (rule in_transfer_toggle) (simp_all add: zero_hc_def)

subsection \<open>Delivered bytes\<close>

lemma length_packet_bytes: "length (concat (map le32_bytes ws)) = 4 * length ws"
  by (induction ws) (simp_all add: le32_bytes_def)

lemma nth_packet_bytes: "j < 4 * length ws \<Longrightarrow> concat (map le32_bytes ws) ! j = le32_bytes (ws ! (j div 4)) ! (j mod 4)"
proof (induction ws arbitrary: j)
  case (Cons v ws)
  have len: "length (le32_bytes v) = 4" by (simp add: le32_bytes_def)
  show ?case
  proof (cases "j < 4")
    case True
    then show ?thesis by (simp add: nth_append len)
  next
    case False
    then have "(j - 4) div 4 = j div 4 - 1" "(j - 4) mod 4 = j mod 4" "0 < j div 4"
      by (simp_all add: le_div_geq le_mod_geq)
    then show ?thesis using Cons.IH [of "j - 4"] Cons.prems False
      by (simp add: nth_append len nth_Cons')
  qed
qed simp

lemma store_at_nth:
  assumes "k + length bs \<le> length m"
  shows "\<exists>m'. store_at m k bs = Some m' \<and> length m' = length m \<and>
     (\<forall>j < length m. m' ! j = (if k \<le> j \<and> j < k + length bs then bs ! (j - k) else m ! j))"
  using assms by (auto simp: store_at_def nth_append min_def)

definition data_slot :: "buf_ptr \<Rightarrow> hid \<Rightarrow> nat \<Rightarrow> bool" where
  "data_slot p x k \<longleftrightarrow> p = At (Data_of x) k \<or> (p = Data_of x \<and> k = 0)"

lemma store_data:
  "data_slot p x k \<Longrightarrow> store_bytes p bs w =
     on_handle x (\<lambda>h. map_option (\<lambda>m. upd_dev (\<lambda>d. d\<lparr>Data := m\<rparr>) h) (store_at (Data (device h)) k bs)) w"
  by (auto simp: data_slot_def store_bytes_def store_base_def)

lemma do_act_hc [simp]: "hc (do_act i a b) = hc b" "Pipes (do_act i a b) = Pipes b"
  by (cases a; simp add: do_act_def USBH_LL_NotifyURBChange_def)+

lemma fold_do_act [simp]:
  "hc (fold (do_act i) as b) = hc b" "Pipes (fold (do_act i) as b) = Pipes b"
  by (induction as arbitrary: b) simp_all

text \<open>
  C32: a received packet is stored where the channel's pointer stands: the bytes of the FIFO's words in
  order, rounded up to whole words, and nothing else of the buffer changes. Pointer and count
  advance by the packet's own length. A packet whose words do not fit the buffer is a fault, also
  when its bytes would.
\<close>

theorem rx_packet_stored:
  assumes "rx_pktsts t = 2" "0 < rx_bcnt t" "rx_epnum t < length (chans u)" "rx_epnum t < length (hc (wb w))"
    "data_slot (xfer_buff (hc (wb w) ! rx_epnum t)) x k" "hs w x = Some h"
    "(unat (rx_bcnt t) + 3) div 4 \<le> length (rx_fifo u)"
  shows "(let n = 4 * ((unat (rx_bcnt t) + 3) div 4); i = rx_epnum t; m = Data (device h) in
     if k + n \<le> length m then
       \<exists>u' w' h'. HCD_RXQLVL_IRQHandler t (u, w) = Some (u', w') \<and> hs w' = (hs w)(x \<mapsto> h') \<and>
         (\<forall>j. j < length m \<longrightarrow> Data (device h') ! j =
            (if k \<le> j \<and> j < k + n then le32_bytes (rx_fifo u ! ((j - k) div 4)) ! ((j - k) mod 4) else m ! j)) \<and>
         xfer_count (hc (wb w') ! i) = xfer_count (hc (wb w) ! i) + rx_bcnt t \<and>
         xfer_buff (hc (wb w') ! i) = buf_add (xfer_buff (hc (wb w) ! i)) (unat (rx_bcnt t))
     else HCD_RXQLVL_IRQHandler t (u, w) = None)"
proof -
  let ?i = "rx_epnum t" and ?n = "(unat (rx_bcnt t) + 3) div 4" and ?m = "Data (device h)"
  let ?c = "hc (wb w) ! ?i"
  have b: "unat (rx_bcnt t) < 2048"
  proof -
    have "t AND 0x7FF0 \<le> 0x7FF0" by (rule word_and_le1)
    then show ?thesis by (simp add: rx_bcnt_def word_le_nat_alt drop_bit_eq_div unat_div_distrib)
  qed
  have pw: "packet_words (ucast (rx_bcnt t)) = ?n"
    using b by (simp add: packet_words_nat unsigned_ucast_eq take_bit_nat_eq_self)
  let ?bs = "concat (map le32_bytes (take ?n (rx_fifo u)))"
  have lb: "length ?bs = 4 * ?n" using assms(7) by (simp add: length_packet_bytes min_def)
  have nn: "xfer_buff ?c \<noteq> NULL_buf" using assms(5) by (auto simp: data_slot_def)
  have gc: "get_chan ?i u (wb w) = Some \<lparr>regs = chans u ! ?i, chd = ?c, acts = []\<rparr>"
    using assms(3,4) by (simp add: get_chan_def mem_simps)
  have rp: "USB_ReadPacket (ucast (rx_bcnt t)) u = Some (?bs, u\<lparr>rx_fifo := drop ?n (rx_fifo u)\<rparr>)"
    using assms(7) by (simp add: USB_ReadPacket_def pw)
  have adv: "xfer_count (chd (rx_advance v q)) = xfer_count (chd q) + v"
    "xfer_buff (chd (rx_advance v q)) = buf_add (xfer_buff (chd q)) (unat v)" "acts (rx_advance v q) = acts q" for v q
    by (simp_all add: rx_advance_def Let_def)
  show ?thesis
  proof (cases "k + 4 * ?n \<le> length ?m")
    case True
    with store_at_nth [of k ?bs ?m] obtain m' where m': "store_at ?m k ?bs = Some m'"
      "\<forall>j < length ?m. m' ! j = (if k \<le> j \<and> j < k + 4 * ?n then ?bs ! (j - k) else ?m ! j)"
      unfolding lb by blast
    have st: "store_bytes (xfer_buff ?c) ?bs w = Some (put_host x (upd_dev (\<lambda>d. d\<lparr>Data := m'\<rparr>) h) w)"
      using assms(6) by (simp add: store_data [OF assms(5)] on_handle_def m'(1))
    have bb: "j < 4 * ?n \<Longrightarrow> ?bs ! j = le32_bytes (rx_fifo u ! (j div 4)) ! (j mod 4)" for j
      using nth_packet_bytes [of j "take ?n (rx_fifo u)"] assms(7) by (simp add: min_def less_mult_imp_div_less)
    show ?thesis
      using True assms(1-4) m'(2) bb
      by (auto simp: HCD_RXQLVL_IRQHandler_def gc nn rp st put_chan_def adv upd_dev_def Let_def)
  next
    case False
    then have "store_bytes (xfer_buff ?c) ?bs w = None"
      using assms(6) lb by (simp add: store_data [OF assms(5)] on_handle_def store_at_def)
    then show ?thesis
      using False assms(1,2) by (simp add: HCD_RXQLVL_IRQHandler_def gc nn rp)
  qed
qed

definition sample_rx_world :: world where
  "sample_rx_world = \<lparr>hs = (\<lambda>_. None)(0 \<mapsto> sample_host),
     wb = sample_bus\<lparr>hc := (hc sample_bus)[1 := zero_hc\<lparr>xfer_buff := Data_of 0\<rparr>]\<rparr>, mallocs = [], next_hid = 1, clock = 0\<rparr>"

lemma rx_packet_stored_witness:
  "(let n = 4 * ((unat (rx_bcnt 0x40051) + 3) div 4); i = rx_epnum 0x40051; m = Data (device sample_host) in
     if 0 + n \<le> length m then
       \<exists>u' w' h'. HCD_RXQLVL_IRQHandler 0x40051 (sample_otg\<lparr>rx_fifo := [0x04030201, 0x05]\<rparr>, sample_rx_world) = Some (u', w') \<and>
         hs w' = (hs sample_rx_world)(0 \<mapsto> h') \<and>
         (\<forall>j. j < length m \<longrightarrow> Data (device h') ! j =
            (if 0 \<le> j \<and> j < 0 + n then le32_bytes (rx_fifo (sample_otg\<lparr>rx_fifo := [0x04030201, 0x05]\<rparr>) ! ((j - 0) div 4)) ! ((j - 0) mod 4) else m ! j)) \<and>
         xfer_count (hc (wb w') ! i) = xfer_count (hc (wb sample_rx_world) ! i) + rx_bcnt 0x40051 \<and>
         xfer_buff (hc (wb w') ! i) = buf_add (xfer_buff (hc (wb sample_rx_world) ! i)) (unat (rx_bcnt 0x40051))
     else HCD_RXQLVL_IRQHandler 0x40051 (sample_otg\<lparr>rx_fifo := [0x04030201, 0x05]\<rparr>, sample_rx_world) = None)"
  by (rule rx_packet_stored)
    (simp_all add: rx_pktsts_def rx_bcnt_def rx_epnum_def sample_otg_def sample_rx_world_def sample_bus_def zero_bus_def data_slot_def)

subsection \<open>The port register\<close>

text \<open>
  No write to the port register disables the port or swallows a change. Resetting the port and
  switching its power leave all four flags as they are; the port interrupt acknowledges exactly the
  changes it has read.
\<close>

theorem port_register_writes:
  "(case USB_ResetPort u of (u1, u2) \<Rightarrow> HPRT0 u1 AND HPRT_PRST = HPRT_PRST \<and>
       HPRT0 u1 AND HPRT_W1C = HPRT0 u AND HPRT_W1C \<and> HPRT0 u2 = HPRT0 u AND NOT HPRT_PRST) \<and>
   HPRT0 (USB_DriveVbus s u) = (if s = 1 then HPRT0 u OR HPRT_PPWR
       else if s = 0 then HPRT0 u AND NOT HPRT_PPWR else HPRT0 u) \<and>
   write_hprt (port_ack r r) r = r AND NOT (HPRT_PCDET OR HPRT_PENCHNG OR HPRT_POCCHNG)"
proof -
  have f: "(r AND HPRT_PCDET = HPRT_PCDET) = bit r 1" "(r AND HPRT_PENCHNG = HPRT_PENCHNG) = bit r 3"
    "(r AND HPRT_POCCHNG = HPRT_POCCHNG) = bit r 5"
  proof -
    have "r AND HPRT_PCDET = (if bit r 1 then HPRT_PCDET else 0)" "r AND HPRT_PENCHNG = (if bit r 3 then HPRT_PENCHNG else 0)"
      "r AND HPRT_POCCHNG = (if bit r 5 then HPRT_POCCHNG else 0)"
      by (rule bit_word_eqI; auto simp: bit_and_iff bit_consts simp del: bit_numeral_word_iff)+
    then show "(r AND HPRT_PCDET = HPRT_PCDET) = bit r 1" "(r AND HPRT_PENCHNG = HPRT_PENCHNG) = bit r 3"
      "(r AND HPRT_POCCHNG = HPRT_POCCHNG) = bit r 5" by simp_all
  qed
  have b: "bit (if c then v OR m else v) n \<longleftrightarrow> bit v n \<or> (c \<and> bit m n)" for c and v m :: u32 and n
    by (simp add: bit_or_iff)
  have "bit (port_ack r r) n \<longleftrightarrow> (if n = 1 \<or> n = 2 \<or> n = 3 \<or> n = 5 then n \<noteq> 2 \<and> bit r n else n < 32 \<and> bit r n)" for n
    unfolding port_ack_def Let_def b f hprt_bits by (auto dest: bit_imp_le_length)
  then have "write_hprt (port_ack r r) r = r AND NOT (HPRT_PCDET OR HPRT_PENCHNG OR HPRT_POCCHNG)"
    by (intro bit_word_eqI, simp only: hprt_bits) auto
  then show ?thesis
    by (rule conjI [OF conjunct1 [OF port_writes_keep_flags] conjI [OF conjunct2 [OF port_writes_keep_flags]]])
qed

subsection \<open>Which channels an interrupt serves\<close>

text \<open>A handler reads the controller only through the state of the two request queues.\<close>

lemma handler_cong:
  assumes "HNPTXSTS u' = HNPTXSTS u" "HPTXSTS u' = HPTXSTS u"
  shows "HCD_HC_IN_IRQHandler u' = HCD_HC_IN_IRQHandler u" "HCD_HC_OUT_IRQHandler u' = HCD_HC_OUT_IRQHandler u"
proof -
  have "halt_char u' = halt_char u" by (intro ext) (simp only: halt_char_def assms)
  then have "halt_hc u' = halt_hc u" by (intro ext) (simp only: halt_hc_def)
  then show "HCD_HC_IN_IRQHandler u' = HCD_HC_IN_IRQHandler u" "HCD_HC_OUT_IRQHandler u' = HCD_HC_OUT_IRQHandler u"
    by (intro ext; simp only: HCD_HC_IN_IRQHandler_def HCD_HC_OUT_IRQHandler_def in_first_def in_second_def
        in_complete_def in_txerr_def in_nak_def out_ack_def)+
qed

definition handled :: "otg \<Rightarrow> hc_regs \<Rightarrow> USB_OTG_HCTypeDef \<Rightarrow> hchan" where
  "handled u r c = (let k = \<lparr>regs = r, chd = c, acts = []\<rparr> in
     if HCCHAR r AND HCCHAR_EPDIR = HCCHAR_EPDIR then HCD_HC_IN_IRQHandler u k else HCD_HC_OUT_IRQHandler u k)"

lemma chan_irq_ok:
  assumes "i < length (chans u)" "i < length (hc (wb w))"
  shows "\<exists>u' w'. chan_irq i (u, w) = Some (u', w') \<and> hs w' = hs w \<and> Pipes (wb w') = Pipes (wb w) \<and>
    HNPTXSTS u' = HNPTXSTS u \<and> HPTXSTS u' = HPTXSTS u \<and>
    chans u' = (chans u)[i := regs (handled u (chans u ! i) (hc (wb w) ! i))] \<and>
    hc (wb w') = (hc (wb w))[i := chd (handled u (chans u ! i) (hc (wb w) ! i))]"
  using assms by (simp add: chan_irq_def get_chan_def mem_simps put_chan_def Let_def handled_def)

lemma chan_irqs_ok:
  "i + n \<le> length (chans u) \<Longrightarrow> i + n \<le> length (hc (wb w)) \<Longrightarrow> i + n \<le> 16 \<Longrightarrow>
   \<exists>u' w'. chan_irqs ints i n (u, w) = Some (u', w') \<and> hs w' = hs w \<and> Pipes (wb w') = Pipes (wb w) \<and>
     HNPTXSTS u' = HNPTXSTS u \<and> HPTXSTS u' = HPTXSTS u \<and>
     length (chans u') = length (chans u) \<and> length (hc (wb w')) = length (hc (wb w)) \<and>
     (\<forall>j. (chans u' ! j, hc (wb w') ! j) =
       (if i \<le> j \<and> j < i + n \<and> bit ints j
        then (let k = handled u (chans u ! j) (hc (wb w) ! j) in (regs k, chd k))
        else (chans u ! j, hc (wb w) ! j)))"
proof (induction n arbitrary: i u w)
  case (Suc n)
  have m: "ints AND push_bit (i mod 16) 1 \<noteq> 0 \<longleftrightarrow> bit ints i"
    using Suc.prems(3) by (simp add: bit_iff_and_push_bit_not_eq_0)
  show ?case
  proof (cases "bit ints i")
    case True
    from chan_irq_ok [of i u w] Suc.prems obtain u1 w1 where 1: "chan_irq i (u, w) = Some (u1, w1)" "hs w1 = hs w"
      "Pipes (wb w1) = Pipes (wb w)"
      "HNPTXSTS u1 = HNPTXSTS u" "HPTXSTS u1 = HPTXSTS u"
      "chans u1 = (chans u)[i := regs (handled u (chans u ! i) (hc (wb w) ! i))]"
      "hc (wb w1) = (hc (wb w))[i := chd (handled u (chans u ! i) (hc (wb w) ! i))]" by auto
    have h: "handled u1 = handled u"
      by (intro ext) (simp only: handled_def handler_cong [OF 1(4,5)])
    from Suc.IH [of "Suc i" u1 w1] Suc.prems 1 obtain u2 w2 where 2: "chan_irqs ints (Suc i) n (u1, w1) = Some (u2, w2)"
      "hs w2 = hs w1" "Pipes (wb w2) = Pipes (wb w1)" "HNPTXSTS u2 = HNPTXSTS u1" "HPTXSTS u2 = HPTXSTS u1"
      "length (chans u2) = length (chans u1)" "length (hc (wb w2)) = length (hc (wb w1))"
      "\<forall>j. (chans u2 ! j, hc (wb w2) ! j) = (if Suc i \<le> j \<and> j < Suc i + n \<and> bit ints j
        then (let k = handled u (chans u1 ! j) (hc (wb w1) ! j) in (regs k, chd k)) else (chans u1 ! j, hc (wb w1) ! j))"
      unfolding h by auto
    have "(chans u2 ! j, hc (wb w2) ! j) = (if i \<le> j \<and> j < i + Suc n \<and> bit ints j
        then (let k = handled u (chans u ! j) (hc (wb w) ! j) in (regs k, chd k)) else (chans u ! j, hc (wb w) ! j))" for j
      using 2(8) [rule_format, of j] 1(6,7) True Suc.prems(1,2)
      by (cases "j = i") (auto simp: Let_def nth_list_update)
    then show ?thesis using 1 2 m True by simp
  next
    case False
    from Suc.IH [of "Suc i" u w] Suc.prems obtain u2 w2 where 2: "chan_irqs ints (Suc i) n (u, w) = Some (u2, w2)"
      "hs w2 = hs w" "Pipes (wb w2) = Pipes (wb w)" "HNPTXSTS u2 = HNPTXSTS u" "HPTXSTS u2 = HPTXSTS u"
      "length (chans u2) = length (chans u)" "length (hc (wb w2)) = length (hc (wb w))"
      "\<forall>j. (chans u2 ! j, hc (wb w2) ! j) = (if Suc i \<le> j \<and> j < Suc i + n \<and> bit ints j
        then (let k = handled u (chans u ! j) (hc (wb w) ! j) in (regs k, chd k)) else (chans u ! j, hc (wb w) ! j))"
      by auto
    have "(chans u2 ! j, hc (wb w2) ! j) = (if i \<le> j \<and> j < i + Suc n \<and> bit ints j
        then (let k = handled u (chans u ! j) (hc (wb w) ! j) in (regs k, chd k)) else (chans u ! j, hc (wb w) ! j))" for j
      using 2(8) [rule_format, of j] False by (cases "j = i") auto
    then show ?thesis using 2 m False by simp
  qed
qed auto

text \<open>
  C12: a channel interrupt serves each of the channels 0 to 10 whose bit is pending exactly once, with
  the handler of its direction, and changes no other channel and no handle. Channels from 11 on are
  never served, although the pipe table hands out 15.
\<close>

theorem irq_serves_channels:
  assumes "host_mode q" "gint q 0 \<noteq> 0" "\<not> gflag q 5 GINT_DISCINT" "\<not> gflag q 6 GINT_HPRTINT" "\<not> gflag q 7 GINT_SOF"
    "gflag q 8 GINT_HCINT" "\<not> gflag q 9 GINT_RXFLVL" "length (chans u) = 16" "length (hc (wb w)) = 16"
  shows "\<exists>u' w'. HAL_HCD_IRQHandler env d x q (u, w) = Some (u', w') \<and> hs w' = hs w \<and>
     length (hc (wb w')) = 16 \<and>
     (\<forall>j. (chans u' ! j, hc (wb w') ! j) =
       (if j < 11 \<and> bit (haint q) j
        then (let k = handled u (chans u ! j) (hc (wb w) ! j) in (regs k, chd k))
        else (chans u ! j, hc (wb w) ! j)))"
proof -
  from chan_irqs_ok [of 0 Host_channels u w "haint q AND 0xFFFF"] assms(8,9) obtain u' w'
    where 1: "chan_irqs (haint q AND 0xFFFF) 0 Host_channels (u, w) = Some (u', w')" "hs w' = hs w"
      "length (hc (wb w')) = length (hc (wb w))"
      "\<forall>j. (chans u' ! j, hc (wb w') ! j) = (if 0 \<le> j \<and> j < 0 + Host_channels \<and> bit (haint q AND 0xFFFF) j
        then (let k = handled u (chans u ! j) (hc (wb w) ! j) in (regs k, chd k)) else (chans u ! j, hc (wb w) ! j))"
    by auto
  have b: "j < 11 \<and> bit (haint q AND 0xFFFF) j \<longleftrightarrow> j < 11 \<and> bit (haint q) j" for j
    by (auto simp: bit_and_iff bit_consts simp del: bit_numeral_word_iff)
  have "HAL_HCD_IRQHandler env d x q (u, w) = Some (u', w')"
    using assms(1-7) 1(1) by (simp add: HAL_HCD_IRQHandler_def irq_disconnect_def irq_sof_def)
  then show ?thesis using 1(2-4) assms(9) b by (intro exI [of _ u'] exI [of _ w']) simp
qed

definition idle_env :: usb_env where
  "idle_env = \<lparr>e_Init = (\<lambda>_ _ w. Some (USBH_OK, w)), e_DeInit = (\<lambda>_ _ w. Some (USBH_OK, w)),
     e_Requests = (\<lambda>_ _ w. Some (USBH_OK, w)), e_BgndProcess = (\<lambda>_ _ w. Some (USBH_OK, w)),
     e_SOFProcess = (\<lambda>_ _ w. Some (USBH_OK, w)), e_user = (\<lambda>_ _ w. Some w), e_irq = (\<lambda>_. Some)\<rparr>"

definition sample_irq :: irq_in where
  "sample_irq = \<lparr>host_mode = True, gint = (\<lambda>_. GINT_HCINT), disc_hprt = 1, port_hprt = 0, port_hprt_dup = 0,
     haint = 0x1002, grxstsp = 0\<rparr>"

lemma irq_serves_channels_witness:
  "\<exists>u' w'. HAL_HCD_IRQHandler idle_env 3 0 sample_irq (sample_otg, sample_rx_world) = Some (u', w') \<and> hs w' = hs sample_rx_world \<and>
     length (hc (wb w')) = 16 \<and>
     (\<forall>j. (chans u' ! j, hc (wb w') ! j) =
       (if j < 11 \<and> bit (haint sample_irq) j
        then (let k = handled sample_otg (chans sample_otg ! j) (hc (wb sample_rx_world) ! j) in (regs k, chd k))
        else (chans sample_otg ! j, hc (wb sample_rx_world) ! j)))"
  by (rule irq_serves_channels)
    (simp_all add: sample_irq_def gflag_def sample_otg_def sample_rx_world_def sample_bus_def zero_bus_def)

end
