(* ===== verification/Wire.thy ===== *)
theory Wire
  imports HcdIrq
begin

text \<open>
  From the host library down to the registers. The upper layers record the calls of the register layer
  in the trace; \<open>hw_run\<close> carries them out with the functions of \<^verbatim>\<open>LlUsb\<close>, so that a request of the
  library can be followed to what the controller is programmed with.
\<close>

text \<open>
  \<open>mem p\<close> are the words of memory from the address \<open>p\<close> on: \<^verbatim>\<open>USB_WritePacket\<close> reads them from the
  channel's \<^verbatim>\<open>xfer_buff\<close>. Pins and delays have no register here.
\<close>

definition hw_regs :: "(buf_ptr \<Rightarrow> u32 list) \<Rightarrow> hw_op \<Rightarrow> otg \<Rightarrow> otg option" where
  "hw_regs mem x u =
     (case x of
        HW_HC_Init ch ep a sp ty mps \<Rightarrow> map_option snd (USB_HC_Init ch ep a sp ty mps u)
      | HW_HC_StartXfer c \<Rightarrow> map_option snd (USB_HC_StartXfer (mem (xfer_buff c)) c u)
      | HW_HC_Halt ch \<Rightarrow> USB_HC_Halt (unat ch) u
      | HW_StopHost \<Rightarrow> Some (USB_StopHost u)
      | HW_DriveVbus \<Rightarrow> Some (USB_DriveVbus 1 u)
      | HW_ResetPort \<Rightarrow> Some (snd (USB_ResetPort u))
      | _ \<Rightarrow> Some u)"

fun hw_run :: "(buf_ptr \<Rightarrow> u32 list) \<Rightarrow> hw_op list \<Rightarrow> otg \<Rightarrow> otg option" where
  "hw_run mem [] u = Some u"
| "hw_run mem (x # xs) u = do { u \<leftarrow> hw_regs mem x u; hw_run mem xs u }"

lemma submit_bulk_hc:
  "ch_num (submit_hc ch 0 EP_TYPE_BULK 1 p len ping c) = ch"
  "data_pid (submit_hc ch 0 EP_TYPE_BULK 1 p len ping c) = pid_of_toggle (toggle_out c)"
  "xfer_buff (submit_hc ch 0 EP_TYPE_BULK 1 p len ping c) = p"
  by (simp_all add: submit_hc_def submit_toggle_def Let_def)

text \<open>
  C9: opening a pipe and sending a buffer over it, in the library, programs the controller as the
  endpoint wants it: address, type, packet size, direction, the data PID of the toggle, the number of
  bytes and of packets, the channel enabled, and the words of memory at the buffer's address in the FIFO.
\<close>

theorem bulk_send_on_wire:
  assumes "pData h" "unat p < 16" "length (hc b) = 16" "length (chans u) = 16" "a < 128" "0 < mps" "mps < 2048"
    "ep AND 0x80 = 0" "ep AND 0x7F < 16" "0 < unat len" "unat len \<le> 256 * unat mps" "unat len + 3 \<le> 4 * length (mem buf)"
  shows "\<exists>b1 b2 ops u'. USBH_OpenPipe h b p ep a sp EP_TYPE_BULK mps = Some (USBH_OK, b1) \<and>
     USBH_BulkSendData h b1 buf len p ping = Some (USBH_OK, b2) \<and> trace b2 = trace b @ ops \<and> hw_run mem ops u = Some u' \<and>
     (let r = chans u' ! unat p in
      drop_bit 22 (HCCHAR r AND HCCHAR_DAD) = ucast a \<and> drop_bit 18 (HCCHAR r AND HCCHAR_EPTYP) = 2 \<and>
      HCCHAR r AND HCCHAR_EPDIR = 0 \<and> HCCHAR r AND HCCHAR_CHENA = HCCHAR_CHENA \<and>
      unat (HCTSIZ r AND HCTSIZ_XFRSIZ) = unat len \<and>
      unat (drop_bit 19 (HCTSIZ r AND HCTSIZ_PKTCNT)) = (unat len + unat mps - 1) div unat mps \<and>
      drop_bit 29 (HCTSIZ r AND HCTSIZ_DPID) = ucast (pid_of_toggle (toggle_out (hc b ! unat p))) \<and>
      tx_fifo u' = tx_fifo u @ map (Pair p) (take ((unat len + 3) div 4) (mem buf)))"
proof -
  let ?c1 = "(hc b ! unat p)\<lparr>do_ping := 0, dev_addr := a, max_packet := mps, ch_num := p,
            ep_type := EP_TYPE_BULK, ep_num := ep AND 0x7F, ep_is_in := (if ep AND 0x80 = 0x80 then 1 else 0), hc_speed := sp\<rparr>"
  let ?b1 = "hw (HW_HC_Init p ep a sp EP_TYPE_BULK mps) (b\<lparr>hc := (hc b)[unat p := ?c1]\<rparr>)"
  let ?ping = "if speed (device h) = USBH_SPEED_HIGH then ping else 0"
  let ?c = "submit_hc p 0 EP_TYPE_BULK USBH_PID_DATA buf len ?ping ?c1"
  let ?b2 = "submitted p 0 EP_TYPE_BULK USBH_PID_DATA buf len ?ping ?b1"
  have o: "USBH_OpenPipe h b p ep a sp EP_TYPE_BULK mps = Some (USBH_OK, ?b1)"
    using assms(1-3) by (simp add: USBH_OpenPipe_def USBH_LL_OpenPipe_def HAL_HCD_HC_Init_def mem_simps)
  have s: "USBH_BulkSendData h ?b1 buf len p ping = Some (USBH_OK, ?b2)"
    using assms(1-3) by (simp add: data_requests_iff)
  have t: "trace ?b2 = trace b @ [HW_HC_Init p ep a sp EP_TYPE_BULK mps, HW_HC_StartXfer ?c]"
    using assms(2,3) by simp
  from hc_init_programs [of p u a EP_TYPE_BULK mps ep sp] assms obtain u1
    where u1: "USB_HC_Init p ep a sp EP_TYPE_BULK mps u = Some (True, u1)"
      "drop_bit 22 (HCCHAR (chans u1 ! unat p) AND HCCHAR_DAD) = ucast a"
      "drop_bit 18 (HCCHAR (chans u1 ! unat p) AND HCCHAR_EPTYP) = 2"
    by (auto simp: Let_def)
  have l1: "length (chans u1) = 16" "tx_fifo u1 = tx_fifo u"
    using u1(1) assms(4) by (auto simp: USB_HC_Init_def upd_chan_def bind_eq_Some_conv Let_def)
  have x: "unat (xfer_len ?c) = unat len" by (simp add: unat_u16)
  have d: "data_pid ?c < 4" by (simp add: submit_bulk_hc pid_of_toggle_def)
  have len: "unat len < 0x10000" using unsigned_less [of len, where ?'a = nat] by simp
  have m0: "max_packet ?c \<noteq> 0" "max_packet ?c < 2048" using assms(6,7) by simp_all
  from start_xfer_programs [of ?c u1 "mem buf", OF m0] obtain c' u2
    where u2: "USB_HC_StartXfer (mem buf) ?c u1 = Some (c', u2)"
      "unat (drop_bit 19 (HCTSIZ (chans u2 ! unat p) AND HCTSIZ_PKTCNT)) = packets (unat len) (unat mps)"
      "unat (HCTSIZ (chans u2 ! unat p) AND HCTSIZ_XFRSIZ) = min (unat len) (256 * unat mps)"
      "drop_bit 29 (HCTSIZ (chans u2 ! unat p) AND HCTSIZ_DPID) = ucast (data_pid ?c)"
      "HCCHAR (chans u2 ! unat p) AND HCCHAR_CHENA = HCCHAR_CHENA" "HCCHAR (chans u2 ! unat p) AND HCCHAR_EPDIR = 0"
      "HCCHAR (chans u2 ! unat p) AND HCCHAR_DAD = HCCHAR (chans u1 ! unat p) AND HCCHAR_DAD"
      "HCCHAR (chans u2 ! unat p) AND HCCHAR_EPTYP = HCCHAR (chans u1 ! unat p) AND HCCHAR_EPTYP"
      "tx_fifo u2 = tx_fifo u1 @ map (Pair p) (take ((min (unat len) (256 * unat mps) + 3) div 4) (mem buf))"
    using x d len assms(2,12) l1(1) by (auto simp: Let_def submit_bulk_hc(1))
  have k: "packets (unat len) (unat mps) = (unat len + unat mps - 1) div unat mps"
  proof -
    have m: "0 < unat mps" using assms(6) by (simp add: unat_gt_0 word_gt_0)
    have "1 * unat mps \<le> unat len + unat mps - 1" using assms(10) by simp
    then have "1 \<le> (unat len + unat mps - 1) div unat mps" using m by (simp add: less_eq_div_iff_mult_less_eq)
    moreover have "unat len + unat mps - 1 < 257 * unat mps" using assms(11) m by linarith
    then have "(unat len + unat mps - 1) div unat mps < 257" using m by (simp add: div_less_iff_less_mult)
    ultimately show ?thesis by (simp add: packets_def)
  qed
  have r: "hw_run mem [HW_HC_Init p ep a sp EP_TYPE_BULK mps, HW_HC_StartXfer ?c] u = Some u2"
    using u1(1) u2(1) by (simp add: hw_regs_def submit_bulk_hc(3))
  have d: "data_pid ?c = pid_of_toggle (toggle_out (hc b ! unat p))" by (simp add: submit_bulk_hc)
  show ?thesis
    by (rule exI [of _ ?b1], rule exI [of _ ?b2], rule exI, rule exI [of _ u2], intro conjI, rule o, rule s, rule t, rule r)
      (use u1(2,3) [folded u2(7,8)] u2(2-6,9) k l1(2) assms(11) d in \<open>simp add: Let_def min_def\<close>)
qed

definition sample_mem :: "buf_ptr \<Rightarrow> u32 list" where
  "sample_mem p = (if p = Mem 0 then replicate 26 0x41 else replicate 26 0)"

lemma bulk_send_on_wire_witness:
  "\<exists>b1 b2 ops u'. USBH_OpenPipe sample_host sample_bus 3 0x02 5 1 EP_TYPE_BULK 64 = Some (USBH_OK, b1) \<and>
     USBH_BulkSendData sample_host b1 (Mem 0) 100 3 0 = Some (USBH_OK, b2) \<and> trace b2 = trace sample_bus @ ops \<and>
     hw_run sample_mem ops sample_otg = Some u' \<and>
     (let r = chans u' ! unat (3 :: u8) in
      drop_bit 22 (HCCHAR r AND HCCHAR_DAD) = ucast (5 :: u8) \<and> drop_bit 18 (HCCHAR r AND HCCHAR_EPTYP) = 2 \<and>
      HCCHAR r AND HCCHAR_EPDIR = 0 \<and> HCCHAR r AND HCCHAR_CHENA = HCCHAR_CHENA \<and>
      unat (HCTSIZ r AND HCTSIZ_XFRSIZ) = unat (100 :: u16) \<and>
      unat (drop_bit 19 (HCTSIZ r AND HCTSIZ_PKTCNT)) = (unat (100 :: u16) + unat (64 :: u16) - 1) div unat (64 :: u16) \<and>
      drop_bit 29 (HCTSIZ r AND HCTSIZ_DPID) = ucast (pid_of_toggle (toggle_out (hc sample_bus ! unat (3 :: u8)))) \<and>
      tx_fifo u' = tx_fifo sample_otg @ map (Pair 3) (take ((unat (100 :: u16) + 3) div 4) (replicate 26 0x41)))"
proof -
  have m: "sample_mem (Mem 0) = replicate 26 0x41" by (simp add: sample_mem_def)
  show ?thesis unfolding m [symmetric]
    by (rule bulk_send_on_wire)
      (simp_all add: sample_host_def sample_bus_def zero_bus_def sample_otg_def sample_mem_def)
qed

end
