(* ===== verification/Hub.thy ===== *)
theory Hub
  imports Core
begin

text \<open>
  The hub class driver, \<^verbatim>\<open>Class/HUB/Src/usbh_hub.c\<close>. Its state is the \<open>HUB_HandleTypeDef\<close> that slot 0
  of the handle's \<^verbatim>\<open>pClassData\<close> points to. The interrupt endpoint is polled from the frame interrupt
  (\<open>USBH_HUB_SOFProcess\<close>); a reported change makes \<open>USBH_HUB_Process\<close> ask every marked port for its
  status, clear the changes, reset a port that is not enabled, bring up a child handle for a new
  device and take down the child of a device that is gone.

  The port requests spin until the request is done or 256 polls are over. Between two polls the
  controller's interrupts run (\<open>tick\<close>). Status bytes are read from the handle's \<^verbatim>\<open>Data\<close> buffer at
  every use, as the code does through a pointer into it. Logging and the never read sum \<^verbatim>\<open>ret\<close> of the
  request results (which starts uninitialised) are left out.
\<close>

abbreviation HUB_TIME_OUT_COUNT :: nat where "HUB_TIME_OUT_COUNT \<equiv> 0x100"
abbreviation USB_HUB_CLASS :: u8 where "USB_HUB_CLASS \<equiv> 0x09"
abbreviation USB_DESC_HUB :: u16 where "USB_DESC_HUB \<equiv> 0x2900"
abbreviation HUB_FEATURE_SEL_PORT_RESET :: u16 where "HUB_FEATURE_SEL_PORT_RESET \<equiv> 0x04"
abbreviation HUB_FEATURE_SEL_PORT_POWER :: u16 where "HUB_FEATURE_SEL_PORT_POWER \<equiv> 0x08"
abbreviation USB_EP_TYPE_INTR :: u8 where "USB_EP_TYPE_INTR \<equiv> 0x03"

definition get_hub :: "host \<Rightarrow> HUB_HandleTypeDef option" where
  "get_hub h = (case rd (pClassData h) 0 of Some (Some (Hub_data u)) \<Rightarrow> Some u | _ \<Rightarrow> None)"

definition put_hub :: "HUB_HandleTypeDef \<Rightarrow> host \<Rightarrow> host" where
  "put_hub u h = h\<lparr>pClassData := (pClassData h)[0 := Some (Hub_data u)]\<rparr>"

definition mod_hub :: "(HUB_HandleTypeDef \<Rightarrow> HUB_HandleTypeDef) \<Rightarrow> host \<Rightarrow> host option" where
  "mod_hub f h = map_option (\<lambda>u. put_hub (f u) h) (get_hub h)"

subsection \<open>Class requests\<close>

definition USBH_HUB_GetHUBDescriptor :: "host \<Rightarrow> bus \<Rightarrow> u16 \<Rightarrow> call" where
  "USBH_HUB_GetHUBDescriptor h b len =
     USBH_GetDescriptor h b (USB_REQ_RECIPIENT_DEVICE OR USB_REQ_TYPE_CLASS) USB_DESC_HUB
       (Data_of (self h)) len"

definition USBH_HUB_GetHUBStatus :: "host \<Rightarrow> bus \<Rightarrow> u16 \<Rightarrow> call" where
  "USBH_HUB_GetHUBStatus h b len =
     (let h = (if RequestState h = CMD_SEND
               then set_setup (USB_D2H OR USB_REQ_RECIPIENT_DEVICE OR USB_REQ_TYPE_CLASS)
                      USB_REQ_GET_STATUS 0 0 len h
               else h)
      in USBH_CtlReq h b (Data_of (self h)) len)"

definition USBH_HUB_SetHUBPower :: "host \<Rightarrow> bus \<Rightarrow> u8 \<Rightarrow> call" where
  "USBH_HUB_SetHUBPower h b port =
     (let h = (if RequestState h = CMD_SEND
               then set_setup (USB_H2D OR USB_REQ_RECIPIENT_OTHER OR USB_REQ_TYPE_CLASS)
                      USB_REQ_SET_FEATURE HUB_FEATURE_SEL_PORT_POWER (ucast port) 0 h
               else h)
      in USBH_CtlReq h b NULL_buf 0)"

text \<open>
  The loop of the port requests: \<open>n\<close> polls are left; the result tells how many remain when it stops
  and the last status (\<open>st\<close> when no poll is left to make).
\<close>

fun ctl_spin ::
  "usb_env \<Rightarrow> hid \<Rightarrow> buf_ptr \<Rightarrow> u16 \<Rightarrow> nat \<Rightarrow> USBH_StatusTypeDef \<Rightarrow> world \<Rightarrow>
     (nat \<times> USBH_StatusTypeDef \<times> world) option" where
  "ctl_spin env x buf len 0 st w = Some (0, st, w)"
| "ctl_spin env x buf len (Suc n) st w = do {
     (s, w) \<leftarrow> on_host x (\<lambda>h b. USBH_CtlReq h b buf len) w;
     h \<leftarrow> hs w x;
     (if s = USBH_BUSY \<and> gState h \<noteq> HOST_DEV_DISCONNECTED
      then do { w \<leftarrow> tick env w; ctl_spin env x buf len n s w }
      else Some (Suc n, s, w))
   }"

definition USBH_HUB_GetPortStatus :: "usb_env \<Rightarrow> hid \<Rightarrow> u8 \<Rightarrow> u16 \<Rightarrow> world \<Rightarrow> wcall" where
  "USBH_HUB_GetPortStatus env x port len w = do {
     w \<leftarrow> mod_host x (\<lambda>h. if RequestState h = CMD_SEND
            then set_setup (USB_D2H OR USB_REQ_RECIPIENT_OTHER OR USB_REQ_TYPE_CLASS)
                   USB_REQ_GET_STATUS 0 (ucast port) len h
            else h) w;
     (left, status, w) \<leftarrow> ctl_spin env x (Data_of x) len HUB_TIME_OUT_COUNT USBH_FAIL w;
     (if left = 0 \<or> status \<noteq> USBH_OK then do {
        w \<leftarrow> mod_host x (\<lambda>h. h\<lparr>RequestState := CMD_SEND\<rparr>) w;
        Some (USBH_FAIL, w)
      } else Some (status, w))
   }"

definition port_feature :: "u8 \<Rightarrow> usb_env \<Rightarrow> hid \<Rightarrow> u8 \<Rightarrow> u16 \<Rightarrow> world \<Rightarrow> wcall" where
  "port_feature rq env x port feature w = do {
     w \<leftarrow> mod_host x (set_setup (USB_H2D OR USB_REQ_RECIPIENT_OTHER OR USB_REQ_TYPE_CLASS)
                   rq feature (ucast port) 0) w;
     (left, status, w) \<leftarrow> ctl_spin env x NULL_buf 0 HUB_TIME_OUT_COUNT USBH_FAIL w;
     (if left = 0 then do {
        w \<leftarrow> mod_host x (\<lambda>h. h\<lparr>RequestState := CMD_SEND\<rparr>) w;
        Some (USBH_FAIL, w)
      } else Some (status, w))
   }"

definition USBH_HUB_ClearPort :: "usb_env \<Rightarrow> hid \<Rightarrow> u8 \<Rightarrow> u16 \<Rightarrow> world \<Rightarrow> wcall" where
  "USBH_HUB_ClearPort = port_feature USB_REQ_CLEAR_FEATURE"

definition USBH_HUB_SetPort :: "usb_env \<Rightarrow> hid \<Rightarrow> u8 \<Rightarrow> u16 \<Rightarrow> world \<Rightarrow> wcall" where
  "USBH_HUB_SetPort = port_feature USB_REQ_SET_FEATURE"

subsection \<open>Binding and releasing the interface\<close>

text \<open>
  An unknown protocol code leaves \<^verbatim>\<open>interface\<close> uninitialised, and a failed allocation is handed to
  \<^verbatim>\<open>memset\<close>: both are faults.
\<close>

definition hub_protocol :: "u8 \<Rightarrow> u8 option" where
  "hub_protocol p = (if p = 0 \<or> p = 1 then Some 0 else if p = 2 then Some 2 else None)"

definition hub_open :: "u8 \<Rightarrow> host \<Rightarrow> bus \<Rightarrow> call" where
  "hub_open i h b = do {
     itf \<leftarrow> rd (Itf_Desc (CfgDesc (device h))) (unat i);
     ep \<leftarrow> rd (Ep_Desc itf) 0;
     (p, b) \<leftarrow> USBH_AllocPipe b (bEndpointAddress ep);
     let u = zero_hub\<lparr>hub_NotifEp := bEndpointAddress ep, hub_NotifEpSize := wMaxPacketSize ep,
               hub_poll := bInterval ep, hub_NotifPipe := p, port_state := 0,
               hub_ctl_state := HUB_REQ_INIT\<rparr>;
     (_, b) \<leftarrow> USBH_OpenPipe h b p (bEndpointAddress ep) (dev_address (device h)) (speed (device h))
                 USB_EP_TYPE_INTR (wMaxPacketSize ep);
     (_, b) \<leftarrow> USBH_LL_SetToggle b p 0;
     cd \<leftarrow> wr (pClassData h) 0 (Some (Hub_data u));
     Some (USBH_OK, h\<lparr>pClassData := cd\<rparr>, b)
   }"

definition USBH_HUB_InterfaceInit :: "hid \<Rightarrow> world \<Rightarrow> wcall" where
  "USBH_HUB_InterfaceInit x w = do {
     h \<leftarrow> hs w x;
     prot \<leftarrow> hub_protocol (bDeviceProtocol (DevDesc (device h)));
     i \<leftarrow> USBH_FindInterface h USB_HUB_CLASS 0 prot;
     (if i = 0xFF then Some (USBH_FAIL, w)
      else do {
        (_, h) \<leftarrow> USBH_SelectInterface h i;
        let (ok, w) = take_malloc w;
        (if \<not> ok then None else on_host x (hub_open i) (put_host x h w))
      })
   }"

definition close_free :: "host \<Rightarrow> u8 \<Rightarrow> bus \<Rightarrow> bus option" where
  "close_free h p b =
     (if p \<noteq> 0xff then do {
        (_, b) \<leftarrow> USBH_ClosePipe h b p;
        (_, b) \<leftarrow> USBH_FreePipe b p;
        Some b
      } else Some b)"

definition set_child :: "hid \<Rightarrow> nat \<Rightarrow> hid option \<Rightarrow> world \<Rightarrow> world option" where
  "set_child x i c w = do {
     h \<leftarrow> hs w x;
     cs \<leftarrow> wr (children h) i c;
     Some (put_host x (h\<lparr>children := cs\<rparr>) w)
   }"

definition free_host :: "hid \<Rightarrow> world \<Rightarrow> world" where
  "free_host y w = w\<lparr>hs := (hs w)(y := None)\<rparr>"

definition release_child :: "hid \<Rightarrow> nat \<Rightarrow> hid \<Rightarrow> world \<Rightarrow> world option" where
  "release_child x i y w = do {
     h \<leftarrow> hs w y;
     b \<leftarrow> close_free h (pipe_in (Control h)) (wb w);
     b \<leftarrow> close_free h (pipe_out (Control h)) b;
     set_child x i None (free_host y (w\<lparr>wb := b\<rparr>))
   }"

text \<open>Running a step for every child that is present, with its index.\<close>

fun each_index ::
  "(nat \<Rightarrow> hid \<Rightarrow> world \<Rightarrow> world option) \<Rightarrow> hid \<Rightarrow> nat \<Rightarrow> world \<Rightarrow> world option" where
  "each_index f x 0 w = Some w"
| "each_index f x (Suc i) w = do {
     w \<leftarrow> each_index f x i w;
     h \<leftarrow> hs w x;
     c \<leftarrow> rd (children h) i;
     (case c of None \<Rightarrow> Some w | Some y \<Rightarrow> f i y w)
   }"

text \<open>A child without an active class is dereferenced all the same.\<close>

definition deinit_child :: "usb_env \<Rightarrow> hid \<Rightarrow> world \<Rightarrow> world option" where
  "deinit_child env y w = do {
     h \<leftarrow> hs w y;
     c \<leftarrow> pActiveClass h;
     (_, w) \<leftarrow> e_DeInit env c y w;
     mod_host y (\<lambda>h. h\<lparr>pActiveClass := None\<rparr>) w
   }"

definition hub_close :: "host \<Rightarrow> bus \<Rightarrow> call" where
  "hub_close h b = do {
     u \<leftarrow> get_hub h;
     b \<leftarrow> (if hub_NotifPipe u \<noteq> 0 then do {
            (_, b) \<leftarrow> USBH_ClosePipe h b (hub_NotifPipe u);
            (_, b) \<leftarrow> USBH_FreePipe b (hub_NotifPipe u);
            Some b
          } else Some b);
     let h = h\<lparr>pClassData := (pClassData h)[0 := None]\<rparr>;
     (_, h, b) \<leftarrow> USBH_Free_One_Address h b;
     Some (USBH_OK, h, b)
   }"

definition USBH_HUB_InterfaceDeInit :: "usb_env \<Rightarrow> hid \<Rightarrow> world \<Rightarrow> wcall" where
  "USBH_HUB_InterfaceDeInit env x w = do {
     w \<leftarrow> each_child (\<lambda>y. call_user env y HOST_USER_DISCONNECTION) x USBH_MAX_NUM_CHILD w;
     w \<leftarrow> each_child (deinit_child env) x USBH_MAX_NUM_CHILD w;
     w \<leftarrow> each_index (release_child x) x USBH_MAX_NUM_CHILD w;
     on_host x hub_close w
   }"

subsection \<open>Bringing the hub up\<close>

definition hub_bytes :: "nat \<Rightarrow> host \<Rightarrow> u8 list option" where
  "hub_bytes n h = (if n \<le> length (Data (device h)) then Some (take n (Data (device h))) else None)"

definition bNbrPorts :: "HUB_HandleTypeDef \<Rightarrow> u8 option" where
  "bNbrPorts u = rd (HUB_Desc u) 2"

definition hub_power :: "host \<Rightarrow> bus \<Rightarrow> call" where
  "hub_power h b = do {
     u \<leftarrow> get_hub h;
     (s, h, b) \<leftarrow> USBH_HUB_SetHUBPower h b (port_index u);
     (if s = USBH_OK then do {
        n \<leftarrow> bNbrPorts u;
        let u = u\<lparr>port_index := port_index u + 1\<rparr>;
        Some (if port_index u > n
              then (USBH_OK, put_hub (u\<lparr>hub_ctl_state := HUB_REQ_SCAN_PORT\<rparr>) h, os_put USBH_PORT_EVENT b)
              else (USBH_BUSY, put_hub u h, b))
      } else Some (USBH_BUSY, h, b))
   }"

definition USBH_HUB_ClassRequest :: "host \<Rightarrow> bus \<Rightarrow> call" where
  "USBH_HUB_ClassRequest h b = do {
     u \<leftarrow> get_hub h;
     (case hub_ctl_state u of
        HUB_REQ_INIT \<Rightarrow> do {
          (s, h, b) \<leftarrow> USBH_HUB_GetHUBDescriptor h b 4;
          (if s = USBH_OK then do {
             h \<leftarrow> mod_hub (\<lambda>u. u\<lparr>hub_ctl_state := HUB_REQ_GET_HUB_DESC\<rparr>) h;
             Some (USBH_BUSY, h, b)
           } else Some (USBH_BUSY, h, b))
        }
      | HUB_REQ_GET_HUB_DESC \<Rightarrow> do {
          (s, h, b) \<leftarrow> USBH_HUB_GetHUBDescriptor h b 12;
          (if s = USBH_OK then do {
             d \<leftarrow> hub_bytes 12 h;
             h \<leftarrow> mod_hub (\<lambda>u. u\<lparr>HUB_Desc := d, port_index := 1,
                    hub_ctl_state := HUB_REQ_SET_PORT_POWER\<rparr>) h;
             Some (USBH_BUSY, h, b)
           } else Some (USBH_BUSY, h, b))
        }
      | HUB_REQ_GET_HUB_STATUS \<Rightarrow> do {
          (s, h, b) \<leftarrow> USBH_HUB_GetHUBStatus h b 12;
          (if s = USBH_OK then do {
             d \<leftarrow> hub_bytes 4 h;
             h \<leftarrow> mod_hub (\<lambda>u. u\<lparr>HUB_Status := d, hub_ctl_state := HUB_REQ_SET_PORT_POWER\<rparr>) h;
             Some (USBH_BUSY, h, b)
           } else Some (USBH_BUSY, h, b))
        }
      | HUB_REQ_SET_PORT_POWER \<Rightarrow> hub_power h b
      | _ \<Rightarrow> Some (USBH_BUSY, h, b))
   }"

subsection \<open>Port changes\<close>

text \<open>Bit \<open>j\<close> of byte \<open>i\<close> of the status the hub sent: bytes 0 and 1 the status, 2 and 3 the changes.\<close>

definition port_flag :: "hid \<Rightarrow> nat \<Rightarrow> nat \<Rightarrow> world \<Rightarrow> bool option" where
  "port_flag x i j w = do {
     h \<leftarrow> hs w x;
     v \<leftarrow> rd (Data (device h)) i;
     Some (bit v j)
   }"

text \<open>The change bits in the order the code looks at them, with the feature that clears each.\<close>

definition change_features :: "(nat \<times> u16) list" where
  "change_features = [(0, 0x10), (1, 0x11), (2, 0x12), (3, 0x13), (4, 0x14)]"

fun clear_changes :: "usb_env \<Rightarrow> hid \<Rightarrow> u8 \<Rightarrow> (nat \<times> u16) list \<Rightarrow> world \<Rightarrow> world option" where
  "clear_changes env x port [] w = Some w"
| "clear_changes env x port ((j, feature) # fs) w = do {
     changed \<leftarrow> port_flag x 2 j w;
     w \<leftarrow> (if changed then map_option snd (USBH_HUB_ClearPort env x port feature w) else Some w);
     clear_changes env x port fs w
   }"

definition HUB_Child_DeInitStateMachine :: "host \<Rightarrow> host" where
  "HUB_Child_DeInitStateMachine h = reset_device (reset_machine 0x40 (clear_device h))"

definition child_speed :: "bool \<Rightarrow> bool \<Rightarrow> u8" where
  "child_speed low high = (if low then USBH_SPEED_LOW else if high then USBH_SPEED_HIGH else USBH_SPEED_FULL)"

text \<open>
  A new child shares the tables, the queue, the channel driver and the user callback of its parent,
  and starts with a copy of its class table. \<open>ClassNumber\<close> entries are copied; more than the table
  holds would run past it.
\<close>

definition child_handle :: "hid \<Rightarrow> hid \<Rightarrow> host \<Rightarrow> u8 \<Rightarrow> host option" where
  "child_handle y x h sp =
     (if unat (ClassNumber h) \<le> min USBH_MAX_NUM_SUPPORTED_CLASS (length (pClass h)) then
        Some (upd_dev (\<lambda>d. d\<lparr>is_connected := 1, speed := sp\<rparr>)
          ((HUB_Child_DeInitStateMachine (zero_host y))
             \<lparr>is_child := 1, parent := Some x, pUser := pUser h, ClassNumber := ClassNumber h,
              pClass := take (unat (ClassNumber h)) (pClass h) @
                replicate (USBH_MAX_NUM_SUPPORTED_CLASS - unat (ClassNumber h)) None,
              pActiveClass := None, pData := pData h\<rparr>))
      else None)"

definition child_pipes :: "host \<Rightarrow> bus \<Rightarrow> call" where
  "child_pipes h b = do {
     (po, b) \<leftarrow> USBH_AllocPipe b 0x00;
     let h = upd_ctl (\<lambda>c. c\<lparr>pipe_out := po\<rparr>) h;
     (pi, b) \<leftarrow> USBH_AllocPipe b 0x80;
     let h = upd_ctl (\<lambda>c. c\<lparr>pipe_in := pi\<rparr>) h;
     b \<leftarrow> open_control_pipes h b;
     Some (USBH_OK, h\<lparr>gState := HOST_ENUMERATION\<rparr>, b)
   }"

definition new_child :: "hid \<Rightarrow> world \<Rightarrow> (hid \<times> world) option" where
  "new_child x w = do {
     h \<leftarrow> hs w x;
     low \<leftarrow> port_flag x 1 1 w;
     high \<leftarrow> port_flag x 1 2 w;
     let y = next_hid w;
     c \<leftarrow> child_handle y x h (child_speed low high);
     (_, w) \<leftarrow> on_host y child_pipes (put_host y c (w\<lparr>next_hid := Suc y\<rparr>));
     Some (y, w)
   }"

text \<open>
  The child is enumerated in place, with at most 5000 polls. \<open>False\<close> is the jump to the port reset;
  the child is then forgotten without being released.
\<close>

fun enum_child :: "usb_env \<Rightarrow> hid \<Rightarrow> nat \<Rightarrow> world \<Rightarrow> (bool \<times> world) option" where
  "enum_child env y 0 w = Some (True, w)"
| "enum_child env y (Suc n) w = do {
     h \<leftarrow> hs w y;
     (if gState h = HOST_CLASS then Some (True, w)
      else do {
        (ret, w) \<leftarrow> USBH_Process env y w;
        h \<leftarrow> hs w y;
        (if gState h = HOST_ENUMERATION \<and> ret = USBH_FAIL then Some (False, w)
         else if gState h = HOST_ABORT_STATE then Some (True, w)
         else do { w \<leftarrow> tick env w; enum_child env y n w })
      })
   }"

definition reset_port :: "usb_env \<Rightarrow> hid \<Rightarrow> u8 \<Rightarrow> world \<Rightarrow> world option" where
  "reset_port env x port w = do {
     (_, w) \<leftarrow> USBH_HUB_SetPort env x port HUB_FEATURE_SEL_PORT_RESET w;
     Some (mod_bus (USBH_Delay 150) w)
   }"

definition close_if :: "host \<Rightarrow> u8 \<Rightarrow> bus \<Rightarrow> bus option" where
  "close_if h p b = (if p \<noteq> 0xff then map_option snd (USBH_ClosePipe h b p) else Some b)"

definition unplug_child :: "usb_env \<Rightarrow> hid \<Rightarrow> nat \<Rightarrow> hid \<Rightarrow> world \<Rightarrow> world option" where
  "unplug_child env x i y w = do {
     (_, w) \<leftarrow> USBH_LL_Disconnect env y w;
     h \<leftarrow> hs w y;
     w \<leftarrow> (case pActiveClass h of
            Some c \<Rightarrow> do {
              (_, w) \<leftarrow> e_DeInit env c y w;
              mod_host y (\<lambda>h. h\<lparr>pActiveClass := None\<rparr>) w
            }
          | None \<Rightarrow> Some w);
     w \<leftarrow> mod_host y HUB_Child_DeInitStateMachine w;
     h \<leftarrow> hs w y;
     b \<leftarrow> close_if h (pipe_in (Control h)) (wb w);
     b \<leftarrow> close_if h (pipe_out (Control h)) b;
     set_child x i None (free_host y (w\<lparr>wb := b\<rparr>))
   }"

definition child_slot :: "hid \<Rightarrow> u8 \<Rightarrow> world \<Rightarrow> hid option option" where
  "child_slot x port w = do {
     h \<leftarrow> hs w x;
     (if port = 0 then None else rd (children h) (unat port - 1))
   }"

text \<open>
  What is done for one marked port: the flag says whether the scan goes on to the next port. A port
  without power, a reset and a failed allocation leave it at the same port.
\<close>

definition port_connected :: "usb_env \<Rightarrow> hid \<Rightarrow> u8 \<Rightarrow> world \<Rightarrow> (bool \<times> world) option" where
  "port_connected env x port w = do {
     enabled \<leftarrow> port_flag x 0 1 w;
     (if \<not> enabled then do {
        w \<leftarrow> reset_port env x port w;
        Some (False, w)
      }
      else do {
        slot \<leftarrow> child_slot x port w;
        (case slot of
           Some _ \<Rightarrow> Some (True, w)
         | None \<Rightarrow> do {
             let (ok, w) = take_malloc w;
             (if \<not> ok then Some (False, w)
              else do {
                (y, w) \<leftarrow> new_child x w;
                (fin, w) \<leftarrow> enum_child env y 5000 w;
                (if fin then do {
                   w \<leftarrow> set_child x (unat port - 1) (Some y) w;
                   Some (True, w)
                 }
                 else do {
                   w \<leftarrow> reset_port env x port w;
                   Some (False, w)
                 })
              })
           })
      })
   }"

definition port_disconnected :: "usb_env \<Rightarrow> hid \<Rightarrow> u8 \<Rightarrow> world \<Rightarrow> (bool \<times> world) option" where
  "port_disconnected env x port w = do {
     slot \<leftarrow> child_slot x port w;
     w \<leftarrow> (case slot of None \<Rightarrow> Some w | Some y \<Rightarrow> unplug_child env x (unat port - 1) y w);
     Some (True, w)
   }"

definition scan_port :: "usb_env \<Rightarrow> hid \<Rightarrow> u8 \<Rightarrow> world \<Rightarrow> (bool \<times> world) option" where
  "scan_port env x port w = do {
     (s, w) \<leftarrow> USBH_HUB_GetPortStatus env x port 4 w;
     (if s \<noteq> USBH_OK then Some (True, w)
      else do {
        power \<leftarrow> port_flag x 1 0 w;
        (if \<not> power then Some (False, w)
         else do {
           w \<leftarrow> clear_changes env x port change_features w;
           connected \<leftarrow> port_flag x 0 0 w;
           (if connected then port_connected env x port w else port_disconnected env x port w)
         })
      })
   }"

partial_function (option) scan_ports :: "usb_env \<Rightarrow> hid \<Rightarrow> u8 \<Rightarrow> u8 \<Rightarrow> world \<Rightarrow> world option" where
  "scan_ports env x port marks w =
     (if marks = 0 then Some w
      else if marks AND 1 = 0 then scan_ports env x (port + 1) (drop_bit 1 marks) w
      else do {
        (next, w) \<leftarrow> scan_port env x port w;
        (if next then scan_ports env x (port + 1) (drop_bit 1 marks) w
         else scan_ports env x port marks w)
      })"

definition hub_scan_wait :: "HUB_HandleTypeDef \<Rightarrow> host \<Rightarrow> bus \<Rightarrow> call" where
  "hub_scan_wait u h b = do {
     s \<leftarrow> USBH_LL_GetURBState h b (hub_NotifPipe u);
     (if s = USBH_URB_DONE then do {
        v \<leftarrow> rd (hub_intr_buf u) 0;
        Some (USBH_OK, put_hub (u\<lparr>port_state := v, hub_ctl_state := HUB_REQ_ENUM_PORT\<rparr>) h,
              os_put USBH_PORT_EVENT b)
      }
      else
        Some (if s = USBH_URB_STALL
           then (USBH_OK, put_hub (u\<lparr>hub_ctl_state := HUB_REQ_CLR_FEATURE\<rparr>) h, os_put USBH_PORT_EVENT b)
           else if s = USBH_URB_NOTREADY
           then (USBH_OK, put_hub (u\<lparr>hub_ctl_state := HUB_REQ_SCAN_PORT\<rparr>) h, b)
           else (USBH_OK, h, os_put USBH_PORT_EVENT b)))
   }"

definition hub_clr_feature :: "HUB_HandleTypeDef \<Rightarrow> host \<Rightarrow> bus \<Rightarrow> call" where
  "hub_clr_feature u h b = do {
     (s, h, b) \<leftarrow> USBH_ClrFeature h b (hub_NotifEp u);
     (if s = USBH_OK then do {
        h \<leftarrow> mod_hub (\<lambda>u. u\<lparr>hub_ctl_state := HUB_REQ_SCAN_PORT\<rparr>) h;
        Some (s, h, b)
      } else Some (s, h, os_put USBH_PORT_EVENT b))
   }"

definition hub_enum_ports :: "usb_env \<Rightarrow> hid \<Rightarrow> world \<Rightarrow> world option" where
  "hub_enum_ports env x w = do {
     h \<leftarrow> hs w x;
     u \<leftarrow> get_hub h;
     w \<leftarrow> scan_ports env x 0 (port_state u) w;
     h \<leftarrow> hs w x;
     h \<leftarrow> mod_hub (\<lambda>u. u\<lparr>hub_ctl_state := HUB_REQ_SCAN_PORT\<rparr>) h;
     Some (post USBH_PORT_EVENT (put_host x h w))
   }"

text \<open>The case \<^verbatim>\<open>HUB_REQ_CLR_FEATURE\<close> has no \<^verbatim>\<open>break\<close>: it goes on with the ports.\<close>

definition USBH_HUB_Process :: "usb_env \<Rightarrow> hid \<Rightarrow> world \<Rightarrow> wcall" where
  "USBH_HUB_Process env x w = do {
     h \<leftarrow> hs w x;
     slot \<leftarrow> rd (pClassData h) 0;
     (if pActiveClass h = None \<or> slot = None then Some (USBH_OK, w)
      else do {
        u \<leftarrow> get_hub h;
        w \<leftarrow> (case hub_ctl_state u of
               HUB_REQ_SCAN_PORT_WAIT \<Rightarrow> map_option snd (on_host x (hub_scan_wait u) w)
             | HUB_REQ_CLR_FEATURE \<Rightarrow> do {
                 (_, w) \<leftarrow> on_host x (hub_clr_feature u) w;
                 hub_enum_ports env x w
               }
             | HUB_REQ_ENUM_PORT \<Rightarrow> hub_enum_ports env x w
             | _ \<Rightarrow> Some w);
        Some (USBH_OK, w)
      })
   }"

subsection \<open>The frame interrupt\<close>

text \<open>The endpoint size is narrowed to the eight bits of the request's length.\<close>

definition hub_sof :: "HUB_HandleTypeDef \<Rightarrow> host \<Rightarrow> bus \<Rightarrow> call" where
  "hub_sof u h b =
     (let u = u\<lparr>sof_num := sof_num u + 1\<rparr> in
      if sof_num u \<ge> ucast (hub_poll u) then do {
        (_, b) \<leftarrow> USBH_InterruptReceiveData h b (HubIntr_of (self h)) (ucast (hub_NotifEpSize u))
                    (hub_NotifPipe u);
        let u = u\<lparr>sof_num := 0\<rparr>;
        Some (USBH_OK, put_hub (if hub_ctl_state u = HUB_REQ_SCAN_PORT
                                then u\<lparr>hub_ctl_state := HUB_REQ_SCAN_PORT_WAIT\<rparr> else u) h, b)
      }
      else Some (USBH_OK, put_hub u h, b))"

definition USBH_HUB_SOFProcess :: "host \<Rightarrow> bus \<Rightarrow> call" where
  "USBH_HUB_SOFProcess h b = do {
     slot \<leftarrow> rd (pClassData h) 0;
     (if pActiveClass h = None \<or> slot = None then Some (USBH_OK, h, b)
      else do {
        u \<leftarrow> get_hub h;
        hub_sof u h b
      })
   }"

definition USBH_HUB_Init :: USBH_StatusTypeDef where
  "USBH_HUB_Init = USBH_BUSY"

definition USBH_HUB_IOProcess :: "usb_env \<Rightarrow> hid \<Rightarrow> world \<Rightarrow> wcall" where
  "USBH_HUB_IOProcess env x w = do {
     h \<leftarrow> hs w x;
     (if is_connected (device h) = 1 \<and> gState h = HOST_CLASS
      then map_option (\<lambda>(_, w). (USBH_OK, w)) (USBH_HUB_Process env x w)
      else Some (USBH_OK, w))
   }"

end
