(* ===== verification/Requests.thy ===== *)
theory Requests
  imports CtlReq
begin

text \<open>
  Drivers that work through control requests, one after the other, polled by the host thread.
  \<open>requester\<close> is what one poll of such a driver promises while it is at a request; that every request
  goes out once, completes, and leads to the next one is proved from it once. The enumeration,
  the hub driver's port power and the serial converter's bring-up are instances.
\<close>

subsection \<open>One poll of a request\<close>

lemma stage_poll:
  assumes "in_stage h0 buf len st w h b"
  shows "(\<exists>h1 b1 st' w'. USBH_CtlReq h (if a then ack b else b) buf len = Some (USBH_BUSY, h1, b1) \<and>
           in_stage h0 buf len st' w' h1 b1 \<and> Suc (steps_left h0 st' w') = steps_left h0 st w \<and>
           (st' = CTRL_SETUP \<longrightarrow> w') \<and>
           (if w then a \<and> stages (setup_pkt (Control h0)) st' = tl (stages (setup_pkt (Control h0)) st) else st' = st \<and> w')) \<or>
         (\<not> a \<and> w \<and> USBH_CtlReq h b buf len = Some (USBH_BUSY, h, b)) \<or>
         (\<exists>h1 b1. a \<and> w \<and> steps_left h0 st w = 1 \<and> USBH_CtlReq h (ack b) buf len = Some (USBH_OK, h1, b1) \<and>
           ctl_frame h0 h1 \<and> RequestState h1 = CMD_SEND \<and> pipes_open h1 b1)"
proof -
  let ?b = "if a then ack b else b"
  have po: "pipes_open h ?b" and fr: "ctl_frame h0 h" and rs: "RequestState h = CMD_WAIT" and st: "st \<in> set submit_states"
    using assms pipes_open_frame [of h b h "ack b"] by (auto simp: in_stage_def)
  have sp: "setup_pkt (Control h) = setup_pkt (Control h0)" using fr by (simp add: ctl_frame_def)
  show ?thesis
  proof (cases w)
    case False
    with assms have cs: "ctl_state (Control h) = st" "buff (Control h) = buf" "ctl_length (Control h) = len"
      by (auto simp: in_stage_def)
    from submit_step [OF po rs, of buf len] st cs obtain h1 b1
      where r: "USBH_CtlReq h ?b buf len = Some (USBH_BUSY, h1, b1)"
      and p: "RequestState h1 = CMD_WAIT" "ctl_state (Control h1) = wait_of st" "buff (Control h1) = buf"
        "ctl_length (Control h1) = len" "urb_state (hc b1 ! unat (stage_pipe (Control h) st)) = USBH_URB_IDLE" by auto
    note f = CtlReq_frame [OF r]
    have "stage_pipe (Control h1) st = stage_pipe (Control h) st" using f(1) by (simp add: stage_pipe_def ctl_frame_def)
    then have "in_stage h0 buf len st True h1 b1"
      using p st pipes_open_frame [OF po f] ctl_frame_trans [OF fr f(1)] by (simp add: in_stage_def)
    moreover have "Suc (steps_left h0 st True) = steps_left h0 st w"
      using False stages_hd [OF st, of "setup_pkt (Control h0)"] by (simp add: steps_left_def) (metis Suc_pred length_greater_0_conv list.simps(3) nat_0_less_mult_iff zero_less_numeral)
    ultimately show ?thesis using r False by auto
  next
    case True
    with assms have cs: "ctl_state (Control h) = wait_of st"
      and idle: "urb_state (hc b ! unat (stage_pipe (Control h) st)) = USBH_URB_IDLE" by (auto simp: in_stage_def)
    show ?thesis
    proof (cases a)
      case False
      with stutter_step [OF _ rs st cs idle] po True show ?thesis by simp
    next
      case True
      have "urb_state (hc ?b ! unat (stage_pipe (Control h) st)) = USBH_URB_DONE"
        using po True by (auto simp: pipes_open_def ctl_ok_def stage_pipe_def)
      note fin = finish_step [OF po rs st cs this, of buf len]
      show ?thesis
      proof (cases "tl (stages (setup_pkt (Control h)) st)")
        case Nil
        let ?h = "set_ctl_state CTRL_IDLE ((set_ctl_state CTRL_COMPLETE h)\<lparr>RequestState := CMD_SEND\<rparr>)"
        have "pipes_open ?h (ctl_event ?b)" by (rule pipes_open_frame [OF po]) simp_all
        moreover have "steps_left h0 st w = 1"
          using \<open>w\<close> stages_hd [OF st, of "setup_pkt (Control h0)"] Nil sp by (simp add: steps_left_def)
        ultimately show ?thesis using fin Nil True \<open>w\<close> fr by simp
      next
        case (Cons st' sts)
        note s' = stages_tl [OF st Cons]
        have "in_stage h0 buf len st' False (set_ctl_state st' h) (ctl_event ?b)"
          using assms s' fr rs pipes_open_frame [OF po, of "set_ctl_state st' h" "ctl_event ?b"] by (simp add: in_stage_def)
        moreover have "Suc (steps_left h0 st' False) = steps_left h0 st w"
          using \<open>w\<close> stages_hd [OF st, of "setup_pkt (Control h0)"] s' Cons sp by (simp add: steps_left_def)
        moreover have "st' \<noteq> CTRL_SETUP"
          using Cons st by (auto simp: stages_def after_setup_def submit_states_def Let_def split: if_splits)
        moreover have "stages (setup_pkt (Control h0)) st' = tl (stages (setup_pkt (Control h0)) st)" using s' Cons sp by simp
        ultimately show ?thesis using fin Cons True \<open>w\<close> by auto
      qed
    qed
  qed
qed

subsection \<open>Polling a driver\<close>

text \<open>The setup packet that goes out in a poll, if one does.\<close>

definition setup_sent :: "host \<Rightarrow> u8 list list" where
  "setup_sent h = (if RequestState h = CMD_WAIT \<and> ctl_state (Control h) = CTRL_SETUP
     then [setup_bytes (setup_pkt (Control h))] else [])"

text \<open>
  The setup packets and the statuses of a run; the tape says before which polls the controller has
  finished. \<open>arrive\<close> is what the device puts into the host's memory by then.
\<close>

fun polls_of :: "(host \<Rightarrow> host) \<Rightarrow> (host \<Rightarrow> bus \<Rightarrow> call) \<Rightarrow> bool list \<Rightarrow> host \<Rightarrow> bus \<Rightarrow>
    (u8 list list \<times> USBH_StatusTypeDef list \<times> host \<times> bus) option" where
  "polls_of arrive step [] h b = Some ([], [], h, b)"
| "polls_of arrive step (a # tape) h b = do {
     (s, h', b') \<leftarrow> step (if a then arrive h else h) (if a then ack b else b);
     (l, ss, h2, b2) \<leftarrow> polls_of arrive step tape h' b';
     Some (setup_sent h @ l, s # ss, h2, b2)
   }"

text \<open>A device whose data the driver does not look at.\<close>

definition no_data :: "host \<Rightarrow> host" where
  "no_data h = h"

lemma no_data_if [simp]: "(if a then no_data h else h) = h"
  by (simp add: no_data_def)

lemma polls_append:
  "polls_of arrive step t1 h b = Some (l1, ss1, h1, b1) \<Longrightarrow> polls_of arrive step t2 h1 b1 = Some (l2, ss2, h2, b2) \<Longrightarrow>
   polls_of arrive step (t1 @ t2) h b = Some (l1 @ l2, ss1 @ ss2, h2, b2)"
  by (induction t1 arbitrary: h b l1 ss1) (auto simp: bind_eq_Some_conv)

lemma polls_length: "polls_of arrive step tape h b = Some (l, ss, h', b') \<Longrightarrow> length ss = length tape"
  by (induction tape arbitrary: h b l ss) (auto simp: bind_eq_Some_conv)

definition with_setup :: "USB_Setup_TypeDef \<Rightarrow> host \<Rightarrow> host" where
  "with_setup p h = upd_ctl (\<lambda>c. c\<lparr>setup_pkt := p\<rparr>) h"

lemma set_setup_with: "set_setup rt rq v i l h = with_setup \<lparr>bmRequestType = rt, bRequest = rq, wValue = v, wIndex = i, wLength = l\<rparr> h"
  by (simp add: set_setup_def with_setup_def)

lemma with_setup_same: "setup_pkt (Control h) = p \<Longrightarrow> with_setup p h = h"
  by (simp add: with_setup_def upd_ctl_def)

lemma with_setup_simps [simp]:
  "setup_pkt (Control (with_setup p h)) = p" "RequestState (with_setup p h) = RequestState h"
  "pipes_open (with_setup p h) b = pipes_open h b"
  "self (with_setup p h) = self h" "gState (with_setup p h) = gState h" "EnumState (with_setup p h) = EnumState h"
  "device (with_setup p h) = device h" "pClassData (with_setup p h) = pClassData h"
  by (simp_all add: with_setup_def upd_ctl_def pipes_open_def ctl_ok_def)

text \<open>The answers a request needs: one may come before it starts, two for each of its stages.\<close>

definition req_cost :: "USB_Setup_TypeDef \<Rightarrow> nat" where
  "req_cost p = Suc (2 * length (stages p CTRL_SETUP))"

text \<open>
  \<open>at j\<close>: the driver is at request \<open>j\<close>; \<open>got j\<close>: the device's answer to it, if it has one, is in memory;
  \<open>keep\<close>: something of the bus that control transfers leave alone.
\<close>

locale request_data =
  fixes arrive :: "host \<Rightarrow> host" and at :: "'j \<Rightarrow> host \<Rightarrow> bool" and pkt :: "'j \<Rightarrow> USB_Setup_TypeDef"
    and buf :: "'j \<Rightarrow> buf_ptr" and len :: "'j \<Rightarrow> u16" and got :: "'j \<Rightarrow> host \<Rightarrow> bool" and keep :: "bus \<Rightarrow> bool"
  assumes arrive_same: "Control (arrive h) = Control h" "RequestState (arrive h) = RequestState h"
      "pData (arrive h) = pData h" "pUser (arrive h) = pUser h"
    and at_arrive: "at j h \<Longrightarrow> at j (arrive h)"
    and at_frame: "at j h \<Longrightarrow> ctl_frame (with_setup (pkt j) h) h' \<Longrightarrow> at j h'"
    and got_none: "at j h \<Longrightarrow> CTRL_DATA_IN \<notin> set (stages (pkt j) CTRL_SETUP) \<Longrightarrow> got j h"
    and got_arrive: "\<lbrakk>at j h; RequestState h = CMD_WAIT; ctl_state (Control h) = CTRL_DATA_IN_WAIT; buff (Control h) = buf j;
      ctl_length (Control h) = len j; setup_pkt (Control h) = pkt j\<rbrakk> \<Longrightarrow> got j (arrive h)"
    and got_keep: "got j h \<Longrightarrow> ctl_state (Control h) \<noteq> CTRL_DATA_IN_WAIT \<Longrightarrow> got j (arrive h)"
    and got_frame: "got j h \<Longrightarrow> ctl_frame h h' \<Longrightarrow> got j h'"
    and keep_frame: "keep b \<Longrightarrow> bus_frame b b' \<Longrightarrow> keep b'"
begin

lemma arrive_open: "pipes_open (arrive h) b = pipes_open h b"
  by (simp add: pipes_open_def ctl_ok_def arrive_same)

lemma keep_ack: "keep b \<Longrightarrow> keep (if a then ack b else b)"
  by (cases a) (auto intro!: keep_frame [of b] simp: bus_frame_def)

lemma in_stage_self: "in_stage h0 p l st w h b \<Longrightarrow> in_stage h p l st w h b"
  by (simp add: in_stage_def)

lemma in_stage_arrive: "in_stage h p l st w h b \<Longrightarrow> in_stage (arrive h) p l st w (arrive h) b"
  by (simp add: in_stage_def arrive_same arrive_open)

text \<open>The data stage is still to come, or the answer is there; a poll keeps it so.\<close>

lemma got_poll:
  assumes "in_stage h (buf j) (len j) st w h b" "at j h" "setup_pkt (Control h) = pkt j"
    "got j h \<or> CTRL_DATA_IN \<in> set (stages (pkt j) st)"
  shows "got j (if a then arrive h else h) \<or> CTRL_DATA_IN \<in> set (stages (pkt j) st) \<and>
     (w \<and> a \<longrightarrow> CTRL_DATA_IN \<in> set (tl (stages (pkt j) st)))"
proof (cases "a \<and> w \<and> st = CTRL_DATA_IN")
  case True
  with assms got_arrive [OF assms(2)] show ?thesis by (simp add: in_stage_def)
next
  case False
  have st: "st \<in> set submit_states" using assms(1) by (simp add: in_stage_def)
  then have "CTRL_DATA_IN \<in> set (stages (pkt j) st) \<Longrightarrow> st \<noteq> CTRL_DATA_IN \<Longrightarrow> CTRL_DATA_IN \<in> set (tl (stages (pkt j) st))"
    using stages_hd [OF st, of "pkt j"] by (metis set_ConsD)
  moreover have "got j (arrive h)" if "got j h" "a"
    using that False assms(1) st by (intro got_keep) (auto simp: in_stage_def submit_states_def split: if_splits)
  ultimately show ?thesis using assms(4) False by (cases a) auto
qed

text \<open>One poll of a request in the middle, with an answer: it moves on, or it is over.\<close>

lemma answered_poll:
  assumes "in_stage h (buf j) (len j) st w h b" "at j h" "setup_pkt (Control h) = pkt j" "keep b"
    "got j h \<or> CTRL_DATA_IN \<in> set (stages (pkt j) st)"
  obtains (go) h1 b1 st' w' where "USBH_CtlReq (arrive h) (ack b) (buf j) (len j) = Some (USBH_BUSY, h1, b1)"
      "in_stage h1 (buf j) (len j) st' w' h1 b1" "Suc (steps_left h1 st' w') = steps_left h st w" "st' = CTRL_SETUP \<longrightarrow> w'"
      "at j h1" "setup_pkt (Control h1) = pkt j" "keep b1" "got j h1 \<or> CTRL_DATA_IN \<in> set (stages (pkt j) st')"
      "ctl_state (Control h1) \<noteq> ctl_state (Control h)" "ctl_frame (arrive h) h1"
  | (fin) h1 b1 where "w" "steps_left h st w = 1" "USBH_CtlReq (arrive h) (ack b) (buf j) (len j) = Some (USBH_OK, h1, b1)"
      "RequestState h1 = CMD_SEND" "pipes_open h1 b1" "got j h1" "keep b1" "at j h1" "ctl_frame (arrive h) h1"
proof -
  have i: "in_stage (arrive h) (buf j) (len j) st w (arrive h) b" using assms(1) in_stage_arrive by simp
  have st: "st \<in> set submit_states" using i by (simp add: in_stage_def)
  have pk: "setup_pkt (Control (arrive h)) = pkt j" using assms(3) by (simp add: arrive_same)
  have at: "at j (arrive h)" using assms(2) at_arrive by simp
  have sl: "steps_left (arrive h) x y = steps_left h x y" for x y by (simp add: steps_left_def arrive_same)
  note same = with_setup_same [OF pk]
  note got = got_poll [OF assms(1-3,5), of True]
  have kp: "keep (ack b)" using keep_ack [OF assms(4), of True] by simp
  from stage_poll [OF i, of True]
  consider (1) h1 b1 st' w' where "USBH_CtlReq (arrive h) (ack b) (buf j) (len j) = Some (USBH_BUSY, h1, b1)"
      "in_stage (arrive h) (buf j) (len j) st' w' h1 b1" "Suc (steps_left h st' w') = steps_left h st w" "st' = CTRL_SETUP \<longrightarrow> w'"
      "if w then stages (pkt j) st' = tl (stages (pkt j) st) else st' = st \<and> w'"
    | (2) h1 b1 where "w" "steps_left h st w = 1" "USBH_CtlReq (arrive h) (ack b) (buf j) (len j) = Some (USBH_OK, h1, b1)"
      "RequestState h1 = CMD_SEND" "pipes_open h1 b1" unfolding sl pk by auto
  then show ?thesis
  proof cases
    case 1
    have f: "ctl_frame (arrive h) h1" using CtlReq_frame(1) [OF 1(1)] .
    have pk1: "setup_pkt (Control h1) = pkt j" using f pk by (simp add: ctl_frame_def)
    have st': "st' \<in> set submit_states" using 1(2) by (simp add: in_stage_def)
    have "stages (pkt j) st' \<noteq> stages (pkt j) st" if w using that 1(5) stages_hd [OF st, of "pkt j"] by (metis not_Cons_self2)
    then have "ctl_state (Control h1) \<noteq> ctl_state (Control h)"
      using 1(2,5) assms(1) st st' by (cases w; cases w') (auto simp: in_stage_def submit_states_def 1(3))
    moreover have "got j h1 \<or> CTRL_DATA_IN \<in> set (stages (pkt j) st')" using got got_frame [OF _ f] 1(5) by (cases w) auto
    ultimately show ?thesis
      using go [OF 1(1) in_stage_self [OF 1(2)] _ 1(4) at_frame [OF at] pk1 keep_frame [OF kp CtlReq_frame(2) [OF 1(1)]]]
        1(3) f same pk pk1 assms(3) by (simp add: steps_left_def)
  next
    case 2
    have f: "ctl_frame (arrive h) h1" using CtlReq_frame(1) [OF 2(3)] .
    have "tl (stages (pkt j) st) = []"
      using 2(1,2) stages_hd [OF st, of "pkt j"] assms(3) by (cases "tl (stages (pkt j) st)") (auto simp: steps_left_def)
    then have "got j h1" using got got_frame [OF _ f] 2(1) by auto
    then show ?thesis
      using fin [OF 2 _ keep_frame [OF kp CtlReq_frame(2) [OF 2(3)]] at_frame [OF at] f] f same by simp
  qed
qed

end

text \<open>The polls themselves.\<close>

locale requester = request_data arrive at pkt buf len got keep
  for arrive and at :: "'j \<Rightarrow> host \<Rightarrow> bool" and pkt buf len got keep +
  fixes step :: "host \<Rightarrow> bus \<Rightarrow> call" and after :: "'j \<Rightarrow> USBH_StatusTypeDef \<Rightarrow> host \<Rightarrow> bus \<Rightarrow> bool"
  assumes step_busy: "\<lbrakk>at j h; RequestState h = CMD_SEND \<or> setup_pkt (Control h) = pkt j;
      USBH_CtlReq (with_setup (pkt j) h) b (buf j) (len j) = Some (USBH_BUSY, h1, b1)\<rbrakk> \<Longrightarrow>
      step h b = Some (USBH_BUSY, h1, b1)"
    and step_ok: "\<lbrakk>at j h; got j h; RequestState h = CMD_SEND \<or> setup_pkt (Control h) = pkt j;
      USBH_CtlReq (with_setup (pkt j) h) b (buf j) (len j) = Some (USBH_OK, h1, b1);
      pipes_open h1 b1; RequestState h1 = CMD_SEND; keep b1\<rbrakk> \<Longrightarrow>
      \<exists>s h2 b2. step h b = Some (s, h2, b2) \<and> pipes_open h2 b2 \<and> RequestState h2 = CMD_SEND \<and> after j s h2 b2"
begin

lemma request_rest:
  "\<lbrakk>in_stage h (buf j) (len j) st w h b; at j h; setup_pkt (Control h) = pkt j; keep b;
    got j h \<or> CTRL_DATA_IN \<in> set (stages (pkt j) st); steps_left h st w \<le> count_list tape True\<rbrakk> \<Longrightarrow>
   \<exists>t1 t2 ss s h' b'. tape = t1 @ t2 \<and>
     polls_of arrive step t1 h b = Some (if st = CTRL_SETUP \<and> \<not> w then [setup_bytes (pkt j)] else [], ss @ [s], h', b') \<and>
     set ss \<subseteq> {USBH_BUSY} \<and> after j s h' b' \<and> pipes_open h' b' \<and> RequestState h' = CMD_SEND \<and>
     count_list tape True \<le> count_list t2 True + steps_left h st w"
proof (induction tape arbitrary: st w h b)
  case Nil
  then have "st \<in> set submit_states" by (simp add: in_stage_def)
  from steps_left_pos [OF this, of h w] Nil.prems(6) show ?case by simp
next
  case (Cons a tape)
  let ?h = "if a then arrive h else h"
  have i: "in_stage ?h (buf j) (len j) st w ?h b" using Cons.prems(1) in_stage_arrive by simp
  have pk: "setup_pkt (Control ?h) = pkt j" using Cons.prems(3) by (simp add: arrive_same)
  have at: "at j ?h" using Cons.prems(2) at_arrive by simp
  have sl: "steps_left ?h st w = steps_left h st w" by (simp add: steps_left_def arrive_same)
  note same = with_setup_same [OF pk]
  note got = got_poll [OF Cons.prems(1-3,5), of a]
  have sent: "setup_sent h = (if st = CTRL_SETUP \<and> \<not> w then [setup_bytes (pkt j)] else [])"
    using Cons.prems(1,3) by (cases st) (auto simp: setup_sent_def in_stage_def submit_states_def)
  from stage_poll [OF i, of a]
  consider (go) h1 b1 st' w' where "USBH_CtlReq ?h (if a then ack b else b) (buf j) (len j) = Some (USBH_BUSY, h1, b1)"
      "in_stage ?h (buf j) (len j) st' w' h1 b1" "Suc (steps_left ?h st' w') = steps_left ?h st w" "st' = CTRL_SETUP \<longrightarrow> w'"
      "if w then a \<and> stages (setup_pkt (Control ?h)) st' = tl (stages (setup_pkt (Control ?h)) st) else st' = st \<and> w'"
    | (stay) "\<not> a" "w" "USBH_CtlReq ?h b (buf j) (len j) = Some (USBH_BUSY, ?h, b)"
    | (fin) h1 b1 where "a" "w" "steps_left ?h st w = 1" "USBH_CtlReq ?h (ack b) (buf j) (len j) = Some (USBH_OK, h1, b1)"
      "RequestState h1 = CMD_SEND" "pipes_open h1 b1" by blast
  then show ?case
  proof cases
    case go
    from step_busy [OF at] pk same go(1) have r: "step ?h (if a then ack b else b) = Some (USBH_BUSY, h1, b1)" by simp
    have f: "ctl_frame ?h h1" using CtlReq_frame(1) [OF go(1)] .
    have at1: "at j h1" using at_frame [OF at] f same by simp
    have pk1: "setup_pkt (Control h1) = pkt j" using f pk by (simp add: ctl_frame_def)
    have "got j h1 \<or> CTRL_DATA_IN \<in> set (stages (pkt j) st')"
      using got got_frame [OF _ f] go(5) pk by (cases w) auto
    moreover have sl1: "steps_left h1 st' w' = steps_left ?h st' w'" using pk pk1 by (simp add: steps_left_def)
    moreover have "keep b1" using keep_frame [OF keep_ack [OF Cons.prems(4), of a]] CtlReq_frame(2) [OF go(1)] by simp
    ultimately obtain t1 t2 ss s h' b' where 1: "tape = t1 @ t2"
      "polls_of arrive step t1 h1 b1 = Some (if st' = CTRL_SETUP \<and> \<not> w' then [setup_bytes (pkt j)] else [], ss @ [s], h', b')"
      "set ss \<subseteq> {USBH_BUSY}" "after j s h' b'" "pipes_open h' b'" "RequestState h' = CMD_SEND"
      "count_list tape True \<le> count_list t2 True + steps_left h1 st' w'"
      using Cons.IH [OF in_stage_self [OF go(2)] at1 pk1] go(3) Cons.prems(6) sl by (auto split: if_splits)
    then show ?thesis using r go(3,4) sent sl sl1
      by (intro exI [of _ "a # t1"] exI [of _ t2] exI [of _ "USBH_BUSY # ss"] exI [of _ s] exI [of _ h'] exI [of _ b']) auto
  next
    case stay
    from step_busy [OF at] pk same stay have r: "step h b = Some (USBH_BUSY, h, b)" by simp
    from Cons.IH [OF Cons.prems(1-5)] stay(1) Cons.prems(6) obtain t1 t2 ss s h' b' where 1: "tape = t1 @ t2"
      "polls_of arrive step t1 h b = Some (if st = CTRL_SETUP \<and> \<not> w then [setup_bytes (pkt j)] else [], ss @ [s], h', b')"
      "set ss \<subseteq> {USBH_BUSY}" "after j s h' b'" "pipes_open h' b'" "RequestState h' = CMD_SEND"
      "count_list tape True \<le> count_list t2 True + steps_left h st w" by auto
    then show ?thesis using r stay sent
      by (intro exI [of _ "a # t1"] exI [of _ t2] exI [of _ "USBH_BUSY # ss"] exI [of _ s] exI [of _ h'] exI [of _ b']) auto
  next
    case fin
    have st: "st \<in> set submit_states" using i by (simp add: in_stage_def)
    have "tl (stages (pkt j) st) = []" using fin(2,3) stages_hd [OF st, of "pkt j"] pk by (cases "tl (stages (pkt j) st)") (auto simp: steps_left_def)
    then have "got j ?h" using got fin by auto
    have "keep b1" using keep_frame [OF keep_ack [OF Cons.prems(4), of True]] CtlReq_frame(2) [OF fin(4)] by simp
    from step_ok [OF at \<open>got j ?h\<close> _ _ fin(6,5) this, of "ack b"] pk same fin(1,4)
    obtain s h2 b2 where 1: "step ?h (ack b) = Some (s, h2, b2)" "pipes_open h2 b2" "RequestState h2 = CMD_SEND"
      "after j s h2 b2" by auto
    then show ?thesis using fin sent sl
      by (intro exI [of _ "[a]"] exI [of _ tape] exI [of _ "[]"] exI [of _ s] exI [of _ h2] exI [of _ b2]) simp
  qed
qed

text \<open>A request that has just been started.\<close>

lemma request_started:
  assumes "in_stage h0 (buf j) (len j) CTRL_SETUP False h b" "at j h" "setup_pkt (Control h) = pkt j" "keep b"
    "req_cost (pkt j) \<le> Suc (count_list tape True)"
  shows "\<exists>t1 t2 ss s h' b'. tape = t1 @ t2 \<and> polls_of arrive step t1 h b = Some ([setup_bytes (pkt j)], ss @ [s], h', b') \<and>
     set ss \<subseteq> {USBH_BUSY} \<and> after j s h' b' \<and> pipes_open h' b' \<and> RequestState h' = CMD_SEND \<and>
     Suc (count_list tape True) \<le> count_list t2 True + req_cost (pkt j)"
proof -
  have c: "req_cost (pkt j) = Suc (steps_left h CTRL_SETUP False)" using assms(3) by (simp add: req_cost_def steps_left_def)
  have "got j h \<or> CTRL_DATA_IN \<in> set (stages (pkt j) CTRL_SETUP)" using got_none [OF assms(2)] by blast
  from request_rest [OF in_stage_self [OF assms(1)] assms(2-4) this, of tape] assms(5) c show ?thesis by simp
qed

text \<open>A whole request: its setup packet goes out once, and the driver goes on.\<close>

lemma request_run:
  assumes "at j h" "pipes_open h b" "RequestState h = CMD_SEND" "keep b" "req_cost (pkt j) \<le> count_list tape True"
  shows "\<exists>t1 t2 ss s h' b'. tape = t1 @ t2 \<and> polls_of arrive step t1 h b = Some ([setup_bytes (pkt j)], ss @ [s], h', b') \<and>
     set ss \<subseteq> {USBH_BUSY} \<and> after j s h' b' \<and> pipes_open h' b' \<and> RequestState h' = CMD_SEND \<and>
     count_list tape True \<le> count_list t2 True + req_cost (pkt j)"
proof -
  from assms(5) obtain a as where t: "tape = a # as" by (cases tape) (auto simp: req_cost_def)
  let ?b = "if a then ack b else b" and ?g = "if a then arrive h else h"
  let ?h = "with_setup (pkt j) ?g"
  have at: "at j ?g" and rs: "RequestState ?g = CMD_SEND" using assms(1,3) at_arrive arrive_same by simp_all
  have "pipes_open ?h ?b" using assms(2) pipes_open_frame [of h b h "ack b"] by (simp add: arrive_open)
  from start_stage [OF this, of "buf j" "len j"] rs obtain h1
    where r: "USBH_CtlReq ?h ?b (buf j) (len j) = Some (USBH_BUSY, h1, ctl_event ?b)"
    and st: "in_stage ?h (buf j) (len j) CTRL_SETUP False h1 (ctl_event ?b)" by auto
  have s: "step ?g ?b = Some (USBH_BUSY, h1, ctl_event ?b)" using step_busy [OF at _ r] rs by simp
  have at1: "at j h1" using at_frame [OF at] st by (simp add: in_stage_def)
  have pk1: "setup_pkt (Control h1) = pkt j" using st by (simp add: in_stage_def ctl_frame_def)
  have "req_cost (pkt j) \<le> Suc (count_list as True)" using assms(5) t by (auto split: if_splits)
  moreover have "keep (ctl_event ?b)" using keep_frame [OF keep_ack [OF assms(4), of a]] CtlReq_frame(2) [OF r] by simp
  ultimately obtain t1 t2 ss q h' b' where 1: "as = t1 @ t2"
    "polls_of arrive step t1 h1 (ctl_event ?b) = Some ([setup_bytes (pkt j)], ss @ [q], h', b')" "set ss \<subseteq> {USBH_BUSY}"
    "after j q h' b'" "pipes_open h' b'" "RequestState h' = CMD_SEND"
    "Suc (count_list as True) \<le> count_list t2 True + req_cost (pkt j)" using request_started [OF st at1 pk1, of as] by auto
  have "setup_sent h = []" using assms(3) by (simp add: setup_sent_def)
  with 1 s t show ?thesis
    by (intro exI [of _ "a # t1"] exI [of _ t2] exI [of _ "USBH_BUSY # ss"] exI [of _ q] exI [of _ h'] exI [of _ b']) auto
qed

text \<open>A list of requests, each led to by the one before it.\<close>

lemma requests_run:
  "\<lbrakk>at j h; pipes_open h b; RequestState h = CMD_SEND; keep b;
    \<forall>i s h b. Suc i < length (j # js) \<longrightarrow> after ((j # js) ! i) s h b \<longrightarrow> s = USBH_BUSY \<and> at ((j # js) ! Suc i) h;
    \<forall>i s h b. after i s h b \<longrightarrow> keep b;
    (\<Sum>i\<leftarrow>j # js. req_cost (pkt i)) \<le> count_list tape True\<rbrakk> \<Longrightarrow>
   \<exists>t1 t2 ss s h' b'. tape = t1 @ t2 \<and>
     polls_of arrive step t1 h b = Some (map (\<lambda>i. setup_bytes (pkt i)) (j # js), ss @ [s], h', b') \<and> set ss \<subseteq> {USBH_BUSY} \<and>
     after (last (j # js)) s h' b' \<and> pipes_open h' b' \<and> RequestState h' = CMD_SEND \<and>
     count_list tape True \<le> count_list t2 True + (\<Sum>i\<leftarrow>j # js. req_cost (pkt i))"
proof (induction js arbitrary: j h b tape)
  case Nil
  from request_run [OF Nil.prems(1-4)] Nil.prems(7) show ?case by simp
next
  case (Cons k js)
  from Cons.prems(7) have "req_cost (pkt j) \<le> count_list tape True" by simp
  from request_run [OF Cons.prems(1-4) this] obtain t1 t2 ss s h1 b1 where 1: "tape = t1 @ t2"
    "polls_of arrive step t1 h b = Some ([setup_bytes (pkt j)], ss @ [s], h1, b1)" "set ss \<subseteq> {USBH_BUSY}" "after j s h1 b1"
    "pipes_open h1 b1" "RequestState h1 = CMD_SEND" "count_list tape True \<le> count_list t2 True + req_cost (pkt j)" by blast
  from Cons.prems(5) [rule_format, of 0 s h1 b1] Cons.prems(6) 1(4) have k: "s = USBH_BUSY" "at k h1" "keep b1" by auto
  have chain: "\<forall>i s h b. Suc i < length (k # js) \<longrightarrow> after ((k # js) ! i) s h b \<longrightarrow> s = USBH_BUSY \<and> at ((k # js) ! Suc i) h"
    using Cons.prems(5) by (metis Suc_less_eq length_Cons nth_Cons_Suc)
  have "(\<Sum>i\<leftarrow>k # js. req_cost (pkt i)) \<le> count_list t2 True" using Cons.prems(7) 1(7) by simp
  from Cons.IH [OF k(2) 1(5,6) k(3) chain Cons.prems(6) this] obtain u1 u2 rs q h' b' where 2: "t2 = u1 @ u2"
    "polls_of arrive step u1 h1 b1 = Some (map (\<lambda>i. setup_bytes (pkt i)) (k # js), rs @ [q], h', b')" "set rs \<subseteq> {USBH_BUSY}"
    "after (last (k # js)) q h' b'" "pipes_open h' b'" "RequestState h' = CMD_SEND"
    "count_list t2 True \<le> count_list u2 True + (\<Sum>i\<leftarrow>k # js. req_cost (pkt i))" by blast
  from polls_append [OF 1(2) 2(2)] 1 2 k(1) show ?case
    by (intro exI [of _ "t1 @ u1"] exI [of _ u2] exI [of _ "(ss @ [s]) @ rs"] exI [of _ q] exI [of _ h'] exI [of _ b']) auto
qed

end

end
