(* ===== verification/HubFacts.thy ===== *)
theory HubFacts
  imports Hub Requests
begin

text \<open>
  What the hub driver of \<^verbatim>\<open>Hub\<close> does. The pipes and the address it takes are given back; a new child
  is a fresh handle that shares its parent's tables; every port request returns after at most 256
  polls whatever the interrupts between them do (\<open>calm_irq\<close> states what they may not touch, an
  unplug is allowed); the
  interrupt endpoint is polled every \<open>bInterval\<close> frames; and the class requests power every port
  once, in order. Two theorems show defects: a child without an active class makes the release fail,
  and a marked port that has no power is asked for its status forever.
\<close>

lemma get_put_hub [simp]: "get_hub h = Some u0 \<Longrightarrow> get_hub (put_hub u h) = Some u"
  by (auto simp: get_hub_def put_hub_def rd_def split: option.splits if_splits)

lemma put_hub_simps [simp]:
  "self (put_hub u h) = self h" "gState (put_hub u h) = gState h" "parent (put_hub u h) = parent h"
  "is_child (put_hub u h) = is_child h" "device (put_hub u h) = device h" "children (put_hub u h) = children h"
  "Control (put_hub u h) = Control h" "pData (put_hub u h) = pData h" "pUser (put_hub u h) = pUser h"
  "RequestState (put_hub u h) = RequestState h" "pActiveClass (put_hub u h) = pActiveClass h"
  "put_hub u2 (put_hub u h) = put_hub u2 h"
  by (simp_all add: put_hub_def)

lemma get_hub_frame: "ctl_frame h h' \<Longrightarrow> get_hub h' = get_hub h"
  by (simp add: get_hub_def ctl_frame_fields)

subsection \<open>The port requests return\<close>

text \<open>
  What the port requests need of the interrupts that run between two polls: they may finish URBs,
  deliver data, post events, close and free pipes and change the machine's state, but neither shorten the
  tables nor touch the control block of the handle.
\<close>

locale calm_irq =
  fixes env :: usb_env and x :: hid
  assumes calm_bus: "e_irq env n w = Some w' \<Longrightarrow>
      length (hc (wb w')) = length (hc (wb w)) \<and> length (Pipes (wb w')) = length (Pipes (wb w))"
    and calm_host: "e_irq env n w = Some w' \<Longrightarrow> hs w x = Some h \<Longrightarrow> \<exists>h'. hs w' x = Some h' \<and>
      Control h' = Control h \<and> RequestState h' = RequestState h \<and> pData h' = pData h \<and> pUser h' = pUser h"

text \<open>
  No interrupt that comes in while \<open>ctl_spin\<close> polls faults or hangs: said of the points the loop really
  comes to.
\<close>

fun irqs_return :: "usb_env \<Rightarrow> hid \<Rightarrow> buf_ptr \<Rightarrow> u16 \<Rightarrow> nat \<Rightarrow> world \<Rightarrow> bool" where
  "irqs_return env x buf len 0 w = True"
| "irqs_return env x buf len (Suc n) w =
     (case on_host x (\<lambda>h b. USBH_CtlReq h b buf len) w of
        None \<Rightarrow> True
      | Some (s, w) \<Rightarrow>
          (case hs w x of
             None \<Rightarrow> True
           | Some h \<Rightarrow>
               if s = USBH_BUSY \<and> gState h \<noteq> HOST_DEV_DISCONNECTED
               then (case tick env w of None \<Rightarrow> False | Some w \<Rightarrow> irqs_return env x buf len n w)
               else True))"

definition hid_ok :: "hid \<Rightarrow> world \<Rightarrow> bool" where
  "hid_ok x w \<longleftrightarrow> (case hs w x of None \<Rightarrow> False | Some h \<Rightarrow> ctl_ok h (wb w))"

text \<open>The same of the interrupts during one \<open>USBH_HUB_GetPortStatus\<close>.\<close>

definition status_irqs_return :: "usb_env \<Rightarrow> hid \<Rightarrow> u8 \<Rightarrow> u16 \<Rightarrow> world \<Rightarrow> bool" where
  "status_irqs_return env x port len w =
     (case mod_host x (\<lambda>h. if RequestState h = CMD_SEND
            then set_setup (USB_D2H OR USB_REQ_RECIPIENT_OTHER OR USB_REQ_TYPE_CLASS)
                   USB_REQ_GET_STATUS 0 (ucast port) len h
            else h) w of
        None \<Rightarrow> True
      | Some w \<Rightarrow> irqs_return env x (Data_of x) len HUB_TIME_OUT_COUNT w)"

lemma hid_okI: "hs w x = Some h \<Longrightarrow> ctl_ok h (wb w) \<Longrightarrow> hid_ok x w"
  by (simp add: hid_ok_def)

lemma hid_okE:
  assumes "hid_ok x w"
  obtains h where "hs w x = Some h" "ctl_ok h (wb w)"
  using assms by (auto simp: hid_ok_def split: option.splits)

lemma CtlReq_world:
  assumes "hid_ok x w"
  shows "\<exists>s w' h'. on_host x (\<lambda>h b. USBH_CtlReq h b buf len) w = Some (s, w') \<and> hid_ok x w' \<and> hs w' x = Some h' \<and>
     (s = USBH_OK \<longrightarrow> RequestState h' = CMD_SEND)"
proof -
  from assms obtain h where h: "hs w x = Some h" "ctl_ok h (wb w)" by (rule hid_okE)
  from CtlReq_total [OF h(2)] obtain s h' b' where r: "USBH_CtlReq h (wb w) buf len = Some (s, h', b')" by blast
  have "s = USBH_OK \<longrightarrow> RequestState h' = CMD_SEND" using r by (cases rule: CtlReq_cases) auto
  moreover have "on_host x (\<lambda>h b. USBH_CtlReq h b buf len) w = Some (s, (put_host x h' w)\<lparr>wb := b'\<rparr>)"
    by (rule on_host_Some [OF h(1)]) (rule r)
  moreover have "hid_ok x ((put_host x h' w)\<lparr>wb := b'\<rparr>)"
    using ctl_ok_frame [OF h(2) CtlReq_frame [OF r]] by (simp add: hid_ok_def)
  moreover have "hs ((put_host x h' w)\<lparr>wb := b'\<rparr>) x = Some h'" by simp
  ultimately show ?thesis
    by (intro exI [of _ s] exI [of _ "(put_host x h' w)\<lparr>wb := b'\<rparr>"] exI [of _ h'] conjI)
qed

context calm_irq
begin

lemma tick_ok:
  assumes "hid_ok x w" "tick env w = Some w'"
  shows "hid_ok x w'"
proof -
  from assms(2) obtain v where v: "e_irq env (clock w) w = Some v" "w' = v\<lparr>clock := Suc (clock v)\<rparr>"
    by (auto simp: tick_eq_Some_iff)
  from assms(1) obtain h where h: "hs w x = Some h" "ctl_ok h (wb w)" by (rule hid_okE)
  from calm_host [OF v(1) h(1)] obtain h' where "hs v x = Some h'"
    "Control h' = Control h" "pData h' = pData h" "pUser h' = pUser h" by blast
  with h(2) calm_bus [OF v(1)] show ?thesis
    by (simp add: v(2) hid_ok_def ctl_ok_def pipes_ok_def)
qed

lemma spin_total:
  "hid_ok x w \<Longrightarrow> irqs_return env x buf len n w \<Longrightarrow> \<exists>k s w'. ctl_spin env x buf len n st w = Some (k, s, w') \<and> k \<le> n \<and> hid_ok x w' \<and>
     (0 < k \<and> s = USBH_OK \<longrightarrow> (\<forall>h. hs w' x = Some h \<longrightarrow> RequestState h = CMD_SEND))"
proof (induction n arbitrary: st w)
  case 0
  then show ?case by simp
next
  case (Suc n)
  from CtlReq_world [OF Suc.prems(1)] obtain s w1 h1 where 1: "on_host x (\<lambda>h b. USBH_CtlReq h b buf len) w = Some (s, w1)"
    "hid_ok x w1" "hs w1 x = Some h1" "s = USBH_OK \<longrightarrow> RequestState h1 = CMD_SEND" by blast
  show ?case
  proof (cases "s = USBH_BUSY \<and> gState h1 \<noteq> HOST_DEV_DISCONNECTED")
    case True
    with Suc.prems(2) 1 obtain w2 where 2: "tick env w1 = Some w2" "irqs_return env x buf len n w2"
      by (auto split: option.splits)
    from Suc.IH [OF tick_ok [OF 1(2) 2(1)] 2(2), of s] 1 2(1) True show ?thesis by (auto intro: le_SucI)
  next
    case False
    with 1 show ?thesis by auto
  qed
qed

lemma port_status_total:
  assumes "hid_ok x w" "status_irqs_return env x port len w"
  shows "\<exists>s w' h'. USBH_HUB_GetPortStatus env x port len w = Some (s, w') \<and> s \<in> {USBH_OK, USBH_FAIL} \<and>
     hid_ok x w' \<and> hs w' x = Some h' \<and> RequestState h' = CMD_SEND"
proof -
  from assms(1) obtain h where h: "hs w x = Some h" "ctl_ok h (wb w)" by (rule hid_okE)
  let ?h = "if RequestState h = CMD_SEND
            then set_setup (USB_D2H OR USB_REQ_RECIPIENT_OTHER OR USB_REQ_TYPE_CLASS)
                   USB_REQ_GET_STATUS 0 (ucast port) len h else h"
  have "hid_ok x (put_host x ?h w)" using h by (simp add: hid_ok_def ctl_ok_def set_setup_def upd_ctl_def)
  moreover have "irqs_return env x (Data_of x) len HUB_TIME_OUT_COUNT (put_host x ?h w)"
    using assms(2) h(1) by (simp add: status_irqs_return_def)
  ultimately obtain k s w1
    where 1: "ctl_spin env x (Data_of x) len HUB_TIME_OUT_COUNT USBH_FAIL (put_host x ?h w) = Some (k, s, w1)"
      "hid_ok x w1" "0 < k \<and> s = USBH_OK \<longrightarrow> (\<forall>h. hs w1 x = Some h \<longrightarrow> RequestState h = CMD_SEND)" using spin_total [where st = USBH_FAIL] by blast
  from 1(2) obtain h1 where h1: "hs w1 x = Some h1" "ctl_ok h1 (wb w1)" by (rule hid_okE)
  have r: "USBH_HUB_GetPortStatus env x port len w = (if k = 0 \<or> s \<noteq> USBH_OK
      then Some (USBH_FAIL, put_host x (h1\<lparr>RequestState := CMD_SEND\<rparr>) w1) else Some (s, w1))"
    using h(1) 1(1) h1(1) by (simp add: USBH_HUB_GetPortStatus_def)
  show ?thesis
  proof (cases "k = 0 \<or> s \<noteq> USBH_OK")
    case True
    with r h1 show ?thesis by (simp add: hid_ok_def ctl_ok_def)
  next
    case False
    with r h1 1 show ?thesis by (simp add: hid_ok_def)
  qed
qed

end

subsection \<open>Pipes of the hub and of its children\<close>

lemma AllocPipe_one:
  assumes "pipes_ok b" "card (pipes_used b) < USBH_MAX_PIPES_NBR"
  shows "\<exists>p b1. USBH_AllocPipe b ep = Some (p, b1) \<and> unat p < USBH_MAX_PIPES_NBR \<and> unat p \<notin> pipes_used b \<and>
    p \<noteq> 0xFF \<and> pipes_used b1 = pipes_used b \<union> {unat p} \<and> pipes_ok b1 \<and> hc b1 = hc b \<and> addresses b1 = addresses b"
proof -
  from pipes.alloc_Some_if_room [where ep = ep, OF assms] obtain i b1 where i: "pipe_alloc ep b = Some (i, b1)" by blast
  note a1 = pipes.alloc_slot [OF assms(1) i]
  from i obtain p where p: "USBH_AllocPipe b ep = Some (p, b1)" "i = unat p" "p \<noteq> 0xFF"
    by (auto simp: pipe_alloc_iff)
  with a1 AllocPipe_frame [OF p(1)] show ?thesis by auto
qed

text \<open>A hub that is bound: its notification pipe is in use, not pipe 0, and inside the table.\<close>

definition hub_bound :: "HUB_HandleTypeDef \<Rightarrow> bool" where
  "hub_bound u \<longleftrightarrow> hub_NotifPipe u \<noteq> 0 \<and> hub_NotifPipe u \<noteq> 0xFF \<and> unat (hub_NotifPipe u) < USBH_MAX_PIPES_NBR"

lemma hub_open_ok:
  assumes "cfg_wf (CfgDesc (device h))" "unat i < USBH_MAX_NUM_INTERFACES" "pipes_ok b" "length (hc b) = HCD_NBR_HC"
    "card (pipes_used b) < USBH_MAX_PIPES_NBR" "pData h" "pClassData h \<noteq> []"
  shows "\<exists>u b'. hub_open i h b = Some (USBH_OK, put_hub u h, b') \<and> hub_ctl_state u = HUB_REQ_INIT \<and>
    hub_NotifPipe u \<noteq> 0xFF \<and> unat (hub_NotifPipe u) < USBH_MAX_PIPES_NBR \<and>
    unat (hub_NotifPipe u) \<notin> pipes_used b \<and> pipes_used b' = pipes_used b \<union> {unat (hub_NotifPipe u)} \<and>
    pipes_ok b' \<and> length (hc b') = HCD_NBR_HC \<and> addresses b' = addresses b"
proof -
  let ?itf = "Itf_Desc (CfgDesc (device h)) ! unat i"
  let ?ep = "Ep_Desc ?itf ! 0"
  have r: "rd (Itf_Desc (CfgDesc (device h))) (unat i) = Some ?itf" "rd (Ep_Desc ?itf) 0 = Some ?ep"
    using assms(1,2) by (simp_all add: cfg_wf_def rd_def)
  from AllocPipe_one [OF assms(3,5), of "bEndpointAddress ?ep"] obtain p b1
    where p: "USBH_AllocPipe b (bEndpointAddress ?ep) = Some (p, b1)" and f1: "unat p < USBH_MAX_PIPES_NBR"
      "unat p \<notin> pipes_used b" "p \<noteq> 0xFF" "pipes_used b1 = pipes_used b \<union> {unat p}" "pipes_ok b1"
      "hc b1 = hc b" "addresses b1 = addresses b" by blast
  have l: "unat p < length (hc b1)" using f1 assms(4) by simp
  from OpenPipe_Some [OF assms(6) l] obtain b2 where 2: "USBH_OpenPipe h b1 p (bEndpointAddress ?ep)
     (dev_address (device h)) (speed (device h)) USB_EP_TYPE_INTR (wMaxPacketSize ?ep) = Some (USBH_OK, b2)" by blast
  note f2 = OpenPipe_frame [OF 2]
  from SetToggle_Some [of p b2 0] l f2 obtain b3 where 3: "USBH_LL_SetToggle b2 p 0 = Some (USBH_OK, b3)" by auto
  note f3 = SetToggle_frame [OF 3]
  let ?u = "zero_hub\<lparr>hub_NotifEp := bEndpointAddress ?ep, hub_NotifEpSize := wMaxPacketSize ?ep,
               hub_poll := bInterval ?ep, hub_NotifPipe := p, port_state := 0,
               hub_ctl_state := HUB_REQ_INIT\<rparr>"
  have "wr (pClassData h) 0 (Some (Hub_data ?u)) = Some ((pClassData h)[0 := Some (Hub_data ?u)])"
    using assms(7) by (simp add: wr_def)
  then have "hub_open i h b = Some (USBH_OK, put_hub ?u h, b3)"
    using r p 2 3 by (simp add: hub_open_def put_hub_def)
  moreover have "Pipes b3 = Pipes b1" using f2 f3 by simp
  note pu = pipes_used_cong [OF this]
  ultimately show ?thesis using f1 pu f2 f3 assms(4)
    by (intro exI [of _ ?u] exI [of _ b3]) auto
qed

lemma hub_close_ok:
  assumes "get_hub h = Some u" "hub_bound u" "pipes_ok b" "pData h" "addr_ok b"
    "unat (dev_address (device h)) \<le> length (addresses b)"
  shows "\<exists>h' b'. hub_close h b = Some (USBH_OK, h', b') \<and> get_hub h' = None \<and> dev_address (device h') = 0 \<and>
     pipes_ok b' \<and> pipes_used b' = pipes_used b - {unat (hub_NotifPipe u)} \<and>
     addr_used b' = addr_used b - (if dev_address (device h) = 0 then {} else {unat (dev_address (device h)) - 1})"
proof -
  from close_free_ok [OF assms(3,4), of "hub_NotifPipe u"] obtain b1 b2
    where 1: "USBH_ClosePipe h b (hub_NotifPipe u) = Some (USBH_OK, b1)" "USBH_FreePipe b1 (hub_NotifPipe u) = Some (USBH_OK, b2)"
      "pipes_ok b2" "pipes_used b2 = pipes_used b - {unat (hub_NotifPipe u)}" "addresses b2 = addresses b" by blast
  let ?h = "h\<lparr>pClassData := (pClassData h)[0 := None]\<rparr>"
  have "addr_ok b2" "addr_used b2 = addr_used b" using assms(5) 1 by (simp_all add: addr_ok_def addr_used_def)
  with Free_One_Address_ok [of b2 ?h] assms(6) 1 obtain b3
    where 3: "USBH_Free_One_Address ?h b2 = Some (0, set_dev_address 0 ?h, b3)" "Pipes b3 = Pipes b2"
      "addr_used b3 = addr_used b -
       (if dev_address (device h) = 0 then {} else {unat (dev_address (device h)) - 1})" by auto
  have "hub_close h b = Some (USBH_OK, set_dev_address 0 ?h, b3)"
    using assms(1,2) 1 3 by (simp add: hub_close_def hub_bound_def)
  moreover have "get_hub (set_dev_address 0 ?h) = None"
    using assms(1) by (auto simp: get_hub_def rd_def split: option.splits if_splits)
  ultimately show ?thesis using 1 3 pipes_used_cong [OF 3(2)] by auto
qed

lemma child_pipes_ok:
  assumes "pipes_ok b" "length (hc b) = HCD_NBR_HC" "card (pipes_used b) + 2 \<le> USBH_MAX_PIPES_NBR" "pData h"
  shows "\<exists>h' b' po pi. child_pipes h b = Some (USBH_OK, h', b') \<and>
    h' = (upd_ctl (\<lambda>c. c\<lparr>pipe_out := po, pipe_in := pi\<rparr>) h)\<lparr>gState := HOST_ENUMERATION\<rparr> \<and>
    unat po \<noteq> unat pi \<and> unat po \<notin> pipes_used b \<and> unat pi \<notin> pipes_used b \<and> 
    pipes_used b' = pipes_used b \<union> {unat po, unat pi} \<and> pipes_ok b' \<and> length (hc b') = HCD_NBR_HC"
proof -
  from two_pipes [OF assms(1), of 0 "0x80"] assms(3) obtain po b1 pin b2
    where po: "USBH_AllocPipe b 0 = Some (po, b1)" and pin: "USBH_AllocPipe b1 0x80 = Some (pin, b2)"
    and r: "unat po < USBH_MAX_PIPES_NBR" "unat pin < USBH_MAX_PIPES_NBR"
      "unat po \<notin> pipes_used b" "unat pin \<notin> pipes_used b" "unat po \<noteq> unat pin"
      "pipes_used b2 = pipes_used b \<union> {unat po, unat pin}" "pipes_ok b2" "hc b2 = hc b"
    by auto
  let ?h = "upd_ctl (\<lambda>c. c\<lparr>pipe_in := pin\<rparr>) (upd_ctl (\<lambda>c. c\<lparr>pipe_out := po\<rparr>) h)"
  have "\<exists>b'. open_control_pipes ?h b2 = Some b' \<and> Pipes b' = Pipes b2 \<and> addresses b' = addresses b2 \<and>
     addr_hdr b' = addr_hdr b2 \<and> os_event b' = os_event b2 \<and> length (hc b') = length (hc b2)"
    by (rule open_control_pipes_Some) (use assms(2,4) r in \<open>simp_all add: upd_ctl_def\<close>)
  then obtain b3 where b3: "open_control_pipes ?h b2 = Some b3" "Pipes b3 = Pipes b2" "length (hc b3) = length (hc b2)"
    by blast
  have "child_pipes h b = Some (USBH_OK, ?h\<lparr>gState := HOST_ENUMERATION\<rparr>, b3)"
    using po pin b3(1) by (simp add: child_pipes_def)
  with r b3 pipes_used_cong [OF b3(2)] assms(2) show ?thesis
    by (intro exI [of _ "?h\<lparr>gState := HOST_ENUMERATION\<rparr>"] exI [of _ b3] exI [of _ po] exI [of _ pin])
      (simp add: upd_ctl_def)
qed

text \<open>
  Binding a hub takes one fresh pipe for its interrupt endpoint, and releasing a hub without
  children gives it back, with the device's address. Pipe 0 must be in use: the release skips it.
\<close>

theorem hub_open_close:
  assumes "cfg_wf (CfgDesc (device h))" "unat i < USBH_MAX_NUM_INTERFACES" "pipes_ok b"
    "length (hc b) = HCD_NBR_HC" "card (pipes_used b) < USBH_MAX_PIPES_NBR" "pData h" "pClassData h \<noteq> []"
    "0 \<in> pipes_used b" "addr_ok b" "unat (dev_address (device h)) \<le> length (addresses b)"
  shows "\<exists>h1 b1 h2 b2. hub_open i h b = Some (USBH_OK, h1, b1) \<and> card (pipes_used b1) = card (pipes_used b) + 1 \<and>
     hub_close h1 b1 = Some (USBH_OK, h2, b2) \<and> pipes_used b2 = pipes_used b \<and> get_hub h2 = None \<and>
     dev_address (device h2) = 0"
proof -
  from hub_open_ok [OF assms(1-7)] obtain u b1 where 1: "hub_open i h b = Some (USBH_OK, put_hub u h, b1)"
    and p: "hub_NotifPipe u \<noteq> 0xFF" "unat (hub_NotifPipe u) < USBH_MAX_PIPES_NBR"
      "unat (hub_NotifPipe u) \<notin> pipes_used b" "pipes_used b1 = pipes_used b \<union> {unat (hub_NotifPipe u)}"
      "pipes_ok b1" "addresses b1 = addresses b" by blast
  have g: "get_hub (put_hub u h) = Some u" using assms(7) by (simp add: get_hub_def put_hub_def rd_def)
  have bd: "hub_bound u" using p assms(8) by (auto simp: hub_bound_def)
  have "addr_ok b1" "unat (dev_address (device (put_hub u h))) \<le> length (addresses b1)" "pData (put_hub u h)"
    using assms(6,9,10) p(6) by (simp_all add: addr_ok_def)
  from hub_close_ok [OF g bd p(5) this(3,1,2)] obtain h2 b2
    where 2: "hub_close (put_hub u h) b1 = Some (USBH_OK, h2, b2)" "get_hub h2 = None" "dev_address (device h2) = 0"
      "pipes_used b2 = pipes_used b1 - {unat (hub_NotifPipe u)}" by blast
  have "card (pipes_used b1) = card (pipes_used b) + 1" using p pipes.finite_used [OF assms(3)] by simp
  then show ?thesis using 1 2 p by auto
qed

lemma hub_open_close_witness:
  "\<exists>h1 b1 h2 b2. hub_open 0 sample_host sample_bus = Some (USBH_OK, h1, b1) \<and>
     card (pipes_used b1) = card (pipes_used sample_bus) + 1 \<and>
     hub_close h1 b1 = Some (USBH_OK, h2, b2) \<and> pipes_used b2 = pipes_used sample_bus \<and> get_hub h2 = None \<and>
     dev_address (device h2) = 0"
  by (rule hub_open_close [OF sample_cfg_wf _ sample_pools(1,2)])
    (use sample_pools(3) in \<open>simp_all add: sample_host_def zero_host_def zero_device_def addr_ok_def sample_bus_def
      pipes_used_def pipe_used_def\<close>)

text \<open>
  C23: the handle for a device behind a hub gets two different free pipes, its parent's class table,
  tables and callback, the speed the hub reported for the port, address 0, and starts its own
  enumeration; the parent is not touched.
\<close>

theorem new_child_fresh:
  assumes "hs w x = Some h" "next_hid w \<noteq> x" "4 \<le> length (Data (device h))"
    "length (pClass h) = USBH_MAX_NUM_SUPPORTED_CLASS" "ClassNumber h = 3"
    "pipes_ok (wb w)" "length (hc (wb w)) = HCD_NBR_HC" "card (pipes_used (wb w)) + 2 \<le> USBH_MAX_PIPES_NBR" "pData h"
  shows "\<exists>w' c. new_child x w = Some (next_hid w, w') \<and> hs w' (next_hid w) = Some c \<and> hs w' x = Some h \<and>
     parent c = Some x \<and> is_child c = 1 \<and> gState c = HOST_ENUMERATION \<and> EnumState c = ENUM_IDLE \<and>
     RequestState c = CMD_SEND \<and> dev_address (device c) = 0 \<and> pClass c = pClass h \<and> pUser c = pUser h \<and>
     speed (device c) = (if bit (Data (device h) ! 1) 1 then USBH_SPEED_LOW
       else if bit (Data (device h) ! 1) 2 then USBH_SPEED_HIGH else USBH_SPEED_FULL) \<and>
     unat (pipe_out (Control c)) \<noteq> unat (pipe_in (Control c)) \<and>
     {unat (pipe_out (Control c)), unat (pipe_in (Control c))} \<inter> pipes_used (wb w) = {} \<and>
     pipes_used (wb w') = pipes_used (wb w) \<union> {unat (pipe_out (Control c)), unat (pipe_in (Control c))}"
proof -
  let ?y = "next_hid w" and ?sp = "child_speed (bit (Data (device h) ! 1) 1) (bit (Data (device h) ! 1) 2)"
  have fl: "port_flag x 1 1 w = Some (bit (Data (device h) ! 1) 1)" "port_flag x 1 2 w = Some (bit (Data (device h) ! 1) 2)"
    using assms(1,3) by (simp_all add: port_flag_def rd_def)
  obtain c where c: "child_handle ?y x h ?sp = Some c" and cf: "is_child c = 1" "parent c = Some x" "EnumState c = ENUM_IDLE"
    "RequestState c = CMD_SEND" "dev_address (device c) = 0" "speed (device c) = ?sp" "pClass c = pClass h"
    "pUser c = pUser h" "pData c"
    using assms(4,5,9) by (simp add: child_handle_def HUB_Child_DeInitStateMachine_def reset_device_def reset_machine_def
        clear_device_def upd_dev_def upd_ctl_def)
  let ?w = "put_host ?y c (w\<lparr>next_hid := Suc ?y\<rparr>)"
  from child_pipes_ok [OF assms(6-8) cf(9)] obtain h' b' po pin
    where r: "child_pipes c (wb w) = Some (USBH_OK, h', b')"
      "h' = (upd_ctl (\<lambda>c. c\<lparr>pipe_out := po, pipe_in := pin\<rparr>) c)\<lparr>gState := HOST_ENUMERATION\<rparr>"
      "unat po \<noteq> unat pin" "unat po \<notin> pipes_used (wb w)" "unat pin \<notin> pipes_used (wb w)"
      "pipes_used b' = pipes_used (wb w) \<union> {unat po, unat pin}" by blast
  have on: "on_host ?y child_pipes ?w = Some (USBH_OK, (put_host ?y h' ?w)\<lparr>wb := b'\<rparr>)"
    by (rule on_host_Some) (use r(1) in simp_all)
  have "new_child x w = Some (?y, (put_host ?y h' ?w)\<lparr>wb := b'\<rparr>)"
    using assms(1) fl c on by (simp add: new_child_def Let_def)
  moreover have "hs ((put_host ?y h' ?w)\<lparr>wb := b'\<rparr>) ?y = Some h'" "hs ((put_host ?y h' ?w)\<lparr>wb := b'\<rparr>) x = Some h"
    using assms(1,2) by simp_all
  ultimately show ?thesis using r(2-6) cf
    by (intro exI [of _ "(put_host ?y h' ?w)\<lparr>wb := b'\<rparr>"] exI [of _ h']) (simp add: upd_ctl_def child_speed_def)
qed

definition sample_hub_host :: host where
  "sample_hub_host = sample_host\<lparr>pClass := [Some MSC_Class, Some EC20_Class, Some HUB_Class], ClassNumber := 3,
     pActiveClass := Some HUB_Class, gState := HOST_CLASS,
     pClassData := [Some (Hub_data (zero_hub\<lparr>hub_NotifPipe := 2, hub_NotifEpSize := 1, hub_poll := 2,
       hub_ctl_state := HUB_REQ_SCAN_PORT, HUB_Desc := [9, 0x29, 2] @ replicate 9 0\<rparr>)), None, None, None]\<rparr>"

definition sample_hub_world :: world where
  "sample_hub_world = \<lparr>hs = [0 \<mapsto> sample_hub_host], wb = sample_bus, mallocs = [], next_hid = 1, clock = 0\<rparr>"

definition sample_low_world :: world where
  "sample_low_world = sample_hub_world\<lparr>hs := [0 \<mapsto> upd_dev (\<lambda>d. d\<lparr>Data := (Data d)[1 := 2]\<rparr>) sample_hub_host]\<rparr>"

lemma new_child_fresh_witness:
  "\<exists>w' c. new_child 0 sample_low_world = Some (1, w') \<and> hs w' 1 = Some c \<and> parent c = Some 0 \<and>
     speed (device c) = USBH_SPEED_LOW"
proof -
  let ?h = "upd_dev (\<lambda>d. d\<lparr>Data := (Data d)[1 := 2]\<rparr>) sample_hub_host"
  have d: "4 \<le> length (Data (device ?h))" "bit (Data (device ?h) ! 1) 1"
    by (simp_all add: upd_dev_def sample_hub_host_def sample_host_def zero_host_def zero_device_def)
  have "\<exists>w' c. new_child 0 sample_low_world = Some (next_hid sample_low_world, w') \<and> hs w' (next_hid sample_low_world) = Some c \<and>
     hs w' 0 = Some ?h \<and>
     parent c = Some 0 \<and> is_child c = 1 \<and> gState c = HOST_ENUMERATION \<and> EnumState c = ENUM_IDLE \<and>
     RequestState c = CMD_SEND \<and> dev_address (device c) = 0 \<and> pClass c = pClass ?h \<and>
     pUser c = pUser ?h \<and>
     speed (device c) = (if bit (Data (device ?h) ! 1) 1 then USBH_SPEED_LOW
       else if bit (Data (device ?h) ! 1) 2 then USBH_SPEED_HIGH else USBH_SPEED_FULL) \<and>
     unat (pipe_out (Control c)) \<noteq> unat (pipe_in (Control c)) \<and>
     {unat (pipe_out (Control c)), unat (pipe_in (Control c))} \<inter> pipes_used (wb sample_low_world) = {} \<and>
     pipes_used (wb w') = pipes_used (wb sample_low_world) \<union> {unat (pipe_out (Control c)), unat (pipe_in (Control c))}"
    by (rule new_child_fresh)
      (use sample_pools d(1) in \<open>simp_all add: sample_low_world_def sample_hub_world_def\<close>,
       simp_all add: upd_dev_def sample_hub_host_def sample_host_def zero_host_def)
  with d(2) show ?thesis by (auto simp: sample_low_world_def sample_hub_world_def)
qed

lemma call_user_Some: "call_user env y code v = Some v' \<Longrightarrow> e_user env y code v = Some v'"
  by (auto simp: call_user_def bind_eq_Some_conv split: if_splits)

lemma each_child_inv:
  assumes "each_child f x n w = Some w'" "P w" "\<And>y v v'. P v \<Longrightarrow> f y v = Some v' \<Longrightarrow> P v'"
  shows "P w'"
  using assms(1)
proof (induction n arbitrary: w')
  case 0
  with assms(2) show ?case by simp
next
  case (Suc n)
  then obtain w1 h c where 1: "each_child f x n w = Some w1" "hs w1 x = Some h" "rd (children h) n = Some c"
    "(case c of None \<Rightarrow> Some w1 | Some y \<Rightarrow> f y w1) = Some w'" by (auto simp: bind_eq_Some_conv)
  with Suc.IH [OF 1(1)] assms(3) show ?case by (auto split: option.splits)
qed

text \<open>What the callbacks of the release must leave alone.\<close>

definition tree_view :: "world \<Rightarrow> hid \<Rightarrow> (hid option list \<times> class_ref option) option" where
  "tree_view v z = map_option (\<lambda>h. (children h, pActiveClass h)) (hs v z)"

text \<open>
  Releasing a hub dereferences the active class of every child. A child whose enumeration was
  aborted has none, so unplugging the hub crashes the host.
\<close>

theorem hub_release_aborted_child:
  assumes "hs w x = Some h" "length (children h) = USBH_MAX_NUM_CHILD" "children h ! 0 = Some y"
    "hs w y = Some c" "pActiveClass c = None"
    "\<forall>z code v v'. e_user env z code v = Some v' \<longrightarrow> tree_view v' = tree_view v"
  shows "USBH_HUB_InterfaceDeInit env x w = None"
proof (cases "each_child (\<lambda>y. call_user env y HOST_USER_DISCONNECTION) x USBH_MAX_NUM_CHILD w")
  case None
  then show ?thesis by (simp add: USBH_HUB_InterfaceDeInit_def)
next
  case (Some w1)
  have v: "tree_view w1 = tree_view w"
    by (rule each_child_inv [where P = "\<lambda>v. tree_view v = tree_view w", OF Some])
      (use assms(6) in \<open>auto dest: call_user_Some\<close>)
  from fun_cong [OF v, of x] assms(1) obtain h1 where h1: "hs w1 x = Some h1" "children h1 = children h"
    by (auto simp: tree_view_def)
  from fun_cong [OF v, of y] assms(4,5) obtain c1 where c1: "hs w1 y = Some c1" "pActiveClass c1 = None"
    by (auto simp: tree_view_def)
  have "each_child (deinit_child env) x (Suc n) w1 = None" for n
    by (induction n) (use h1 c1 assms(2,3) in \<open>simp_all add: deinit_child_def rd_def\<close>)
  moreover have "Suc 3 = (4 :: nat)" by simp
  ultimately have "each_child (deinit_child env) x USBH_MAX_NUM_CHILD w1 = None" by metis
  with Some show ?thesis by (simp only: USBH_HUB_InterfaceDeInit_def Option.bind.simps)
qed

definition still_env :: usb_env where
  "still_env = \<lparr>e_Init = (\<lambda>_ _ _. None), e_DeInit = (\<lambda>_ _ w. Some (USBH_OK, w)), e_Requests = (\<lambda>_ _ _. None),
     e_BgndProcess = (\<lambda>_ _ _. None), e_SOFProcess = (\<lambda>_ _ _. None), e_user = (\<lambda>_ _ w. Some w),
     e_irq = (\<lambda>_ w. Some (w\<lparr>wb := ack (wb w)\<rparr>))\<rparr>"

lemma hub_release_aborted_child_witness:
  "USBH_HUB_InterfaceDeInit still_env 0
     (sample_hub_world\<lparr>hs := [0 \<mapsto> sample_hub_host\<lparr>children := [Some 1, None, None, None]\<rparr>,
                             1 \<mapsto> (zero_host 1)\<lparr>gState := HOST_ABORT_STATE, pUser := True\<rparr>]\<rparr>) = None"
  by (rule hub_release_aborted_child
      [where h = "sample_hub_host\<lparr>children := [Some 1, None, None, None]\<rparr>" and y = 1
        and c = "(zero_host 1)\<lparr>gState := HOST_ABORT_STATE, pUser := True\<rparr>"])
    (simp_all add: zero_host_def still_env_def)

subsection \<open>The port status over a controller that answers\<close>

text \<open>Between two polls the controller finishes what is outstanding.\<close>

definition acks :: "usb_env \<Rightarrow> bool" where
  "acks env \<longleftrightarrow> e_irq env = (\<lambda>_ w. Some (w\<lparr>wb := ack (wb w)\<rparr>))"

lemma spin_drive:
  "ctl_drive (a # replicate k True) h b buf len = Some (s, h', b') \<Longrightarrow> s \<noteq> USBH_BUSY \<Longrightarrow> acks env \<Longrightarrow>
   hs w x = Some h \<Longrightarrow> wb w = (if a then ack b else b) \<Longrightarrow> gState h \<noteq> HOST_DEV_DISCONNECTED \<Longrightarrow> k < n \<Longrightarrow>
   \<exists>j w'. ctl_spin env x buf len n st w = Some (Suc j, s, w') \<and> hs w' x = Some h' \<and> wb w' = b'"
proof (induction k arbitrary: a h b n st w)
  case 0
  then obtain m where n: "n = Suc m" by (cases n) auto
  from "0.prems" have r: "USBH_CtlReq h (wb w) buf len = Some (s, h', b')"
    by (auto simp: bind_eq_Some_conv split: if_splits)
  let ?w = "(put_host x h' w)\<lparr>wb := b'\<rparr>"
  have "on_host x (\<lambda>h b. USBH_CtlReq h b buf len) w = Some (s, ?w)" by (rule on_host_Some [OF "0.prems"(4)]) (rule r)
  then show ?case using n "0.prems"(2) by (intro exI [of _ m] exI [of _ ?w]) simp
next
  case (Suc k)
  then obtain m where n: "n = Suc m" by (cases n) auto
  from Suc.prems obtain s1 h1 b1 where r: "USBH_CtlReq h (wb w) buf len = Some (s1, h1, b1)"
    and d: "if s1 = USBH_BUSY then ctl_drive (replicate (Suc k) True) h1 b1 buf len = Some (s, h', b')
       else (s1, h1, b1) = (s, h', b')"
    by (auto simp: bind_eq_Some_conv split: if_splits)
  let ?w = "(put_host x h1 w)\<lparr>wb := b1\<rparr>"
  have on: "on_host x (\<lambda>h b. USBH_CtlReq h b buf len) w = Some (s1, ?w)" by (rule on_host_Some [OF Suc.prems(4)]) (rule r)
  show ?case
  proof (cases "s1 = USBH_BUSY")
    case True
    have g: "gState h1 \<noteq> HOST_DEV_DISCONNECTED" using Suc.prems(6) ctl_frame_fields(2) [OF CtlReq_frame(1) [OF r]] by simp
    let ?t = "?w\<lparr>wb := ack b1, clock := Suc (clock w)\<rparr>"
    have t: "tick env ?w = Some ?t"
      using Suc.prems(3) by (simp add: tick_def acks_def)
    have d': "ctl_drive (True # replicate k True) h1 b1 buf len = Some (s, h', b')" using d True by simp
    have "k < m" using Suc.prems(7) n by simp
    from Suc.IH [OF d' Suc.prems(2,3) _ _ g this, of ?t s1] obtain j w'
      where "ctl_spin env x buf len m s1 ?t = Some (Suc j, s, w')"
        "hs w' x = Some h'" "wb w' = b'" by auto
    moreover have "ctl_spin env x buf len n st w = ctl_spin env x buf len m s1 ?t"
      using n on True g t by simp
    ultimately show ?thesis by (intro exI [of _ j] exI [of _ w']) simp
  next
    case False
    with d have e: "s1 = s" "h1 = h'" "b1 = b'" by simp_all
    with n on Suc.prems(2) show ?thesis by (intro exI [of _ m] exI [of _ ?w]) simp
  qed
qed

lemma drive_frame:
  "ctl_drive tape h b buf len = Some (s, h', b') \<Longrightarrow> ctl_frame h h' \<and> bus_frame b b'"
proof (induction tape arbitrary: h b)
  case (Cons a tape)
  then obtain s1 h1 b1 where r: "USBH_CtlReq h (if a then ack b else b) buf len = Some (s1, h1, b1)"
    and d: "(if s1 = USBH_BUSY then ctl_drive tape h1 b1 buf len else Some (s1, h1, b1)) = Some (s, h', b')"
    by (auto simp: bind_eq_Some_conv split: if_splits)
  have f: "bus_frame b (if a then ack b else b)" by simp
  note fr = CtlReq_frame [OF r]
  show ?case
  proof (cases "s1 = USBH_BUSY")
    case True
    with d Cons.IH [of h1 b1] have "ctl_frame h1 h' \<and> bus_frame b1 b'" by simp
    with fr f show ?thesis by (meson ctl_frame_trans bus_frame_trans)
  next
    case False
    with d fr f show ?thesis by (auto intro: bus_frame_trans)
  qed
qed simp

lemma request_answered:
  assumes "pipes_open h b" "RequestState h = CMD_SEND"
  shows "\<exists>h' b'. ctl_drive (False # replicate 7 True) h b buf len = Some (USBH_OK, h', b') \<and>
     ctl_frame h h' \<and> bus_frame b b' \<and> RequestState h' = CMD_SEND"
proof -
  from start_stage [OF assms] obtain h1 where 1: "USBH_CtlReq h b buf len = Some (USBH_BUSY, h1, ctl_event b)"
    "in_stage h buf len CTRL_SETUP False h1 (ctl_event b)" by blast
  have "steps_left h CTRL_SETUP False \<le> count_list (replicate 7 True) True"
    using length_stages [of "setup_pkt (Control h)"] by (simp add: steps_left_def eval_nat_numeral)
  from drive_stage [OF 1(2) this] obtain h' b' where
    2: "ctl_drive (replicate 7 True) h1 (ctl_event b) buf len = Some (USBH_OK, h', b')" "RequestState h' = CMD_SEND" by blast
  have "ctl_drive (False # replicate 7 True) h b buf len = Some (USBH_OK, h', b')" using 1(1) 2(1) by simp
  with drive_frame [OF this] 2(2) show ?thesis by blast
qed

text \<open>A hub that answers every request and says that the port has no power.\<close>

definition unpowered :: "hid \<Rightarrow> world \<Rightarrow> bool" where
  "unpowered x w \<longleftrightarrow> (\<exists>h. hs w x = Some h \<and> pipes_open h (wb w) \<and> RequestState h = CMD_SEND \<and>
     gState h \<noteq> HOST_DEV_DISCONNECTED \<and> 2 \<le> length (Data (device h)) \<and> \<not> bit (Data (device h) ! 1) 0)"

lemma unpowered_scan:
  assumes "acks env" "unpowered x w"
  shows "\<exists>w'. scan_port env x port w = Some (False, w') \<and> unpowered x w'"
proof -
  from assms(2) obtain h where h: "hs w x = Some h" "pipes_open h (wb w)" "RequestState h = CMD_SEND"
    "gState h \<noteq> HOST_DEV_DISCONNECTED" "2 \<le> length (Data (device h))" "\<not> bit (Data (device h) ! 1) 0"
    by (auto simp: unpowered_def)
  let ?h = "set_setup (USB_D2H OR USB_REQ_RECIPIENT_OTHER OR USB_REQ_TYPE_CLASS) USB_REQ_GET_STATUS 0 (ucast port) 4 h"
  have po: "pipes_open ?h (wb w)" using h(2) by (simp add: pipes_open_def ctl_ok_def)
  have rs: "RequestState ?h = CMD_SEND" using h(3) by simp
  from request_answered [OF po rs, of "Data_of x" 4] obtain h' b'
    where d: "ctl_drive (False # replicate 7 True) ?h (wb w) (Data_of x) 4 = Some (USBH_OK, h', b')"
      "ctl_frame ?h h'" "bus_frame (wb w) b'" "RequestState h' = CMD_SEND" by blast
  have "\<exists>j w'. ctl_spin env x (Data_of x) 4 HUB_TIME_OUT_COUNT USBH_FAIL (put_host x ?h w) = Some (Suc j, USBH_OK, w') \<and>
      hs w' x = Some h' \<and> wb w' = b'"
    by (rule spin_drive [OF d(1) _ assms(1)]) (use h(4) in simp_all)
  then obtain j w' where 1: "ctl_spin env x (Data_of x) 4 HUB_TIME_OUT_COUNT USBH_FAIL (put_host x ?h w) = Some (Suc j, USBH_OK, w')"
    "hs w' x = Some h'" "wb w' = b'" by auto
  have "USBH_HUB_GetPortStatus env x port 4 w = Some (USBH_OK, w')"
    using h(1,3) 1(1) by (simp add: USBH_HUB_GetPortStatus_def)
  moreover have dv: "device h' = device h" "gState h' = gState h" using ctl_frame_fields [OF d(2)] by simp_all
  have "port_flag x 1 0 w' = Some False" using 1(2) dv h(5,6) by (simp add: port_flag_def rd_def)
  ultimately have "scan_port env x port w = Some (False, w')" by (simp add: scan_port_def)
  moreover have "unpowered x w'"
    using 1 d(4) dv h(4-6) pipes_open_frame [OF po d(2,3)] by (auto simp: unpowered_def)
  ultimately show ?thesis by blast
qed

lemmas scan_ports_induct =
  scan_ports.raw_induct [where xa = "((((e, y), p), m), v)" for e y p m v, unfolded prod.case]

lemma scan_ports_spins:
  assumes "\<And>w. P w \<Longrightarrow> \<exists>w'. scan_port env x port w = Some (False, w') \<and> P w'" "P w" "marks AND 1 \<noteq> (0 :: u8)"
  shows "scan_ports env x port marks w = None"
proof -
  have "\<not> (e = env \<and> y = x \<and> p = port \<and> m = marks \<and> P v)" if "scan_ports e y p m v = Some r" for e y p m v r
  proof (rule scan_ports_induct [OF _ that])
    fix scan :: "usb_env \<Rightarrow> hid \<Rightarrow> u8 \<Rightarrow> u8 \<Rightarrow> world \<Rightarrow> world option" and e y p m v r
    assume ih: "\<And>e y p m v r. scan e y p m v = Some r \<Longrightarrow> \<not> (e = env \<and> y = x \<and> p = port \<and> m = marks \<and> P v)"
      and r: "(if m = 0 then Some v else if m AND 1 = 0 then scan e y (p + 1) (drop_bit 1 m) v
       else do {
         (next, w) \<leftarrow> scan_port e y p v;
         (if next then scan e y (p + 1) (drop_bit 1 m) w else scan e y p m w)
       }) = Some r"
    show "\<not> (e = env \<and> y = x \<and> p = port \<and> m = marks \<and> P v)"
    proof
      assume a: "e = env \<and> y = x \<and> p = port \<and> m = marks \<and> P v"
      with assms(1) obtain v' where v': "scan_port env x port v = Some (False, v')" "P v'" by blast
      moreover have "marks \<noteq> 0" using assms(3) by auto
      ultimately have "scan env x port marks v' = Some r" using a r assms(3) by simp
      from ih [OF this] v' show False by simp
    qed
  qed
  then show ?thesis using assms(2) by (cases "scan_ports env x port marks w") blast+
qed

text \<open>
  A hub that answers every request and reports a marked port without power keeps the host in the
  scan for ever: the port is asked again and again.
\<close>

theorem unpowered_port_spins:
  assumes "acks env" "unpowered x w" "marks AND 1 \<noteq> 0"
  shows "scan_ports env x port marks w = None"
  by (rule scan_ports_spins [where P = "unpowered x", OF unpowered_scan [OF assms(1)] assms(2,3)])

lemma unpowered_port_spins_witness:
  "scan_ports still_env 0 1 1 sample_hub_world = None"
proof (rule unpowered_port_spins)
  show "unpowered 0 sample_hub_world"
    using sample_open
    by (simp add: unpowered_def sample_hub_world_def sample_hub_host_def pipes_open_def ctl_ok_def)
      (simp add: sample_host_def zero_host_def zero_device_def)
qed (simp_all add: acks_def still_env_def)

subsection \<open>Polling the interrupt endpoint\<close>

fun sof_run :: "nat \<Rightarrow> host \<Rightarrow> bus \<Rightarrow> call" where
  "sof_run 0 h b = Some (USBH_OK, h, b)"
| "sof_run (Suc n) h b = do { (_, h, b) \<leftarrow> USBH_HUB_SOFProcess h b; sof_run n h b }"

lemma sof_run_add:
  "sof_run (m + n) h b = (if m = 0 then sof_run n h b else do { (_, h, b) \<leftarrow> sof_run m h b; sof_run n h b })"
proof (induction m arbitrary: h b)
  case (Suc m)
  show ?case
  proof (cases "USBH_HUB_SOFProcess h b")
    case (Some r)
    obtain s h1 b1 where "r = (s, h1, b1)" by (cases r)
    with Some Suc show ?thesis by simp
  qed simp
qed simp

text \<open>A request for the hub's change bits, as it goes out.\<close>

definition intr_xfer :: "host \<Rightarrow> HUB_HandleTypeDef \<Rightarrow> u8 \<times> u8 \<times> bool \<times> buf_ptr \<times> u32" where
  "intr_xfer h u = (hub_NotifPipe u, 1, False, HubIntr_of (self h), ucast (ucast (hub_NotifEpSize u) :: u8))"

lemma xfers_intr:
  "xfers (submitted ch d EP_TYPE_INTR 1 p len ping b) = xfers b @ [(ch, d, False, p, ucast len)]"
proof -
  have "data_pid (submit_hc ch d EP_TYPE_INTR 1 p len ping (hc b ! unat ch)) \<noteq> HC_PID_SETUP"
    by (simp add: submit_hc_def submit_toggle_def pid_of_toggle_def Let_def)
  moreover have "ch_num (submit_hc ch d EP_TYPE_INTR 1 p len ping (hc b ! unat ch)) = ch"
    by (simp add: submit_hc_def Let_def)
  ultimately show ?thesis by (simp add: xfers_def map_filter_append List.map_filter_simps)
qed

lemma u8_u16_u32: "(ucast (ucast (v :: u8) :: u16) :: u32) = ucast v"
  by (rule bit_word_eqI) (auto simp: bit_simps dest: bit_imp_le_length)

lemma unat_u8_u32: "unat (ucast (v :: u8) :: u32) = unat v"
  by transfer simp

definition hub_polling :: "host \<Rightarrow> HUB_HandleTypeDef \<Rightarrow> bus \<Rightarrow> bool" where
  "hub_polling h u b \<longleftrightarrow> get_hub h = Some u \<and> pActiveClass h \<noteq> None \<and> pData h \<and> unat (hub_NotifPipe u) < length (hc b)"

lemma get_hub_slot: "get_hub h = Some u \<Longrightarrow> rd (pClassData h) 0 = Some (Some (Hub_data u))"
  by (auto simp: get_hub_def split: option.splits class_data.splits)

lemma SOFProcess_hub: "hub_polling h u b \<Longrightarrow> USBH_HUB_SOFProcess h b = hub_sof u h b"
  by (auto simp: USBH_HUB_SOFProcess_def hub_polling_def get_hub_slot)

lemma sof_quiet:
  assumes "hub_polling h u b" "sof_num u + 1 < ucast (hub_poll u)"
  shows "USBH_HUB_SOFProcess h b = Some (USBH_OK, put_hub (u\<lparr>sof_num := sof_num u + 1\<rparr>) h, b)"
proof -
  have "\<not> ucast (hub_poll u) \<le> sof_num u + 1" using assms(2) by (simp add: linorder_not_le)
  then show ?thesis using assms(1) by (simp add: SOFProcess_hub hub_sof_def Let_def)
qed

definition sof_fired :: "HUB_HandleTypeDef \<Rightarrow> HUB_HandleTypeDef" where
  "sof_fired u = u\<lparr>sof_num := 0, hub_ctl_state :=
     (if hub_ctl_state u = HUB_REQ_SCAN_PORT then HUB_REQ_SCAN_PORT_WAIT else hub_ctl_state u)\<rparr>"

lemma sof_fire:
  assumes "hub_polling h u b" "\<not> sof_num u + 1 < ucast (hub_poll u)"
  shows "\<exists>b'. USBH_HUB_SOFProcess h b = Some (USBH_OK, put_hub (sof_fired u) h, b') \<and>
     xfers b' = xfers b @ [intr_xfer h u] \<and> length (hc b') = length (hc b)"
proof -
  have "USBH_InterruptReceiveData h b (HubIntr_of (self h)) (ucast (hub_NotifEpSize u)) (hub_NotifPipe u) =
      Some (USBH_OK, submitted (hub_NotifPipe u) 1 EP_TYPE_INTR 1 (HubIntr_of (self h))
        (ucast (ucast (hub_NotifEpSize u) :: u8)) 0 b)"
    using assms(1) by (simp add: USBH_InterruptReceiveData_def hub_polling_def mem_simps submitted_def Let_def)
  moreover have "ucast (hub_poll u) \<le> sof_num u + 1" using assms(2) by (simp add: linorder_not_less)
  ultimately show ?thesis using assms(1)
    by (simp add: SOFProcess_hub hub_sof_def Let_def sof_fired_def xfers_intr intr_xfer_def u8_u16_u32)
qed

lemma polling_put [simp]: "hub_polling h u0 b \<Longrightarrow> hub_NotifPipe u = hub_NotifPipe u0 \<Longrightarrow> length (hc b') = length (hc b) \<Longrightarrow>
    hub_polling (put_hub u h) u b'"
  by (auto simp: hub_polling_def)

text \<open>From a cleared counter the next request goes out with frame \<open>max 1 poll\<close>, and none before.\<close>

lemma sof_round:
  assumes "hub_polling h u b" "unat (sof_num u) < max 1 (unat (hub_poll u))"
  shows "\<exists>b'. sof_run (max 1 (unat (hub_poll u)) - unat (sof_num u)) h b = Some (USBH_OK, put_hub (sof_fired u) h, b') \<and>
     xfers b' = xfers b @ [intr_xfer h u] \<and> length (hc b') = length (hc b)"
  using assms
proof (induction "max 1 (unat (hub_poll u)) - unat (sof_num u)" arbitrary: h u)
  case 0
  then show ?case by linarith
next
  case (Suc d)
  have small: "unat (hub_poll u) < 256" using unsigned_less [of "hub_poll u"] by simp
  have u1: "unat (sof_num u + 1) = Suc (unat (sof_num u))"
    using Suc.prems(2) small by (simp add: unat_word_ariths)
  have lt: "sof_num u + 1 < ucast (hub_poll u) \<longleftrightarrow> Suc (unat (sof_num u)) < unat (hub_poll u)"
    by (simp add: word_less_nat_alt u1 unat_u8_u32)
  show ?case
  proof (cases d)
    case 0
    with Suc.hyps(2) have "\<not> sof_num u + 1 < ucast (hub_poll u)" using lt by auto
    from sof_fire [OF Suc.prems(1) this] obtain b' where "USBH_HUB_SOFProcess h b = Some (USBH_OK, put_hub (sof_fired u) h, b')"
      "xfers b' = xfers b @ [intr_xfer h u]" "length (hc b') = length (hc b)" by blast
    then show ?thesis using Suc.hyps(2) 0 by (intro exI [of _ b']) (simp flip: Suc.hyps(2))
  next
    case (Suc e)
    let ?u = "u\<lparr>sof_num := sof_num u + 1\<rparr>"
    have "sof_num u + 1 < ucast (hub_poll u)" using Suc.hyps(2) Suc lt by auto
    note q = sof_quiet [OF Suc.prems(1) this]
    have "hub_polling (put_hub ?u h) ?u b" using Suc.prems(1) by simp
    moreover have "d = max 1 (unat (hub_poll ?u)) - unat (sof_num ?u)" "unat (sof_num ?u) < max 1 (unat (hub_poll ?u))"
      using Suc.hyps(2) Suc u1 by simp_all
    ultimately obtain b' where "sof_run d (put_hub ?u h) b = Some (USBH_OK, put_hub (sof_fired ?u) (put_hub ?u h), b')"
      "xfers b' = xfers b @ [intr_xfer (put_hub ?u h) ?u]" "length (hc b') = length (hc b)"
      using Suc.hyps(1) [of ?u "put_hub ?u h"] by metis
    moreover have "sof_fired ?u = sof_fired u" "intr_xfer (put_hub ?u h) ?u = intr_xfer h u"
      by (simp_all add: sof_fired_def intr_xfer_def)
    ultimately show ?thesis unfolding Suc.hyps(2) [symmetric] using q by (intro exI [of _ b']) simp
  qed
qed

text \<open>
  The hub's interrupt endpoint is asked once every \<open>max 1 poll\<close> frames, neither more nor less
  often, and the first request moves the scan on to waiting.
\<close>

theorem hub_polls_endpoint:
  assumes "hub_polling h u b" "sof_num u = 0"
  shows "\<exists>h' b' u'. sof_run (k * max 1 (unat (hub_poll u))) h b = Some (USBH_OK, h', b') \<and>
     xfers b' = xfers b @ replicate k (intr_xfer h u) \<and> get_hub h' = Some u' \<and> sof_num u' = 0 \<and>
     hub_ctl_state u' = (if 0 < k \<and> hub_ctl_state u = HUB_REQ_SCAN_PORT then HUB_REQ_SCAN_PORT_WAIT else hub_ctl_state u)"
  using assms
proof (induction k arbitrary: h u b)
  case 0
  then show ?case by (auto simp: hub_polling_def)
next
  case (Suc k)
  have z: "unat (sof_num u) = 0" "0 < max 1 (unat (hub_poll u))" using Suc.prems(2) by simp_all
  from sof_round [OF Suc.prems(1), unfolded z(1)] z(2) obtain b1
    where 1: "sof_run (max 1 (unat (hub_poll u))) h b = Some (USBH_OK, put_hub (sof_fired u) h, b1)"
      "xfers b1 = xfers b @ [intr_xfer h u]" "length (hc b1) = length (hc b)" by fastforce
  have p: "hub_polling (put_hub (sof_fired u) h) (sof_fired u) b1"
    using Suc.prems(1) 1(3) by (simp add: sof_fired_def)
  have f: "sof_num (sof_fired u) = 0" "hub_poll (sof_fired u) = hub_poll u"
    "intr_xfer (put_hub (sof_fired u) h) (sof_fired u) = intr_xfer h u"
    by (simp_all add: sof_fired_def intr_xfer_def)
  from Suc.IH [OF p f(1)] f obtain h' b' u' where 2: "sof_run (k * max 1 (unat (hub_poll u))) (put_hub (sof_fired u) h) b1 = Some (USBH_OK, h', b')"
    "xfers b' = xfers b1 @ replicate k (intr_xfer h u)" "get_hub h' = Some u'" "sof_num u' = 0"
    "hub_ctl_state u' = (if 0 < k \<and> hub_ctl_state (sof_fired u) = HUB_REQ_SCAN_PORT then HUB_REQ_SCAN_PORT_WAIT
       else hub_ctl_state (sof_fired u))" by auto
  have "sof_run (Suc k * max 1 (unat (hub_poll u))) h b = Some (USBH_OK, h', b')"
    using sof_run_add [of "max 1 (unat (hub_poll u))" "k * max 1 (unat (hub_poll u))" h b] 1(1) 2(1) by simp
  moreover have "hub_ctl_state u' = (if hub_ctl_state u = HUB_REQ_SCAN_PORT then HUB_REQ_SCAN_PORT_WAIT else hub_ctl_state u)"
    using 2(5) by (simp add: sof_fired_def)
  ultimately show ?case using 1(2) 2(2-4) by simp
qed

lemma hub_polls_endpoint_witness:
  "\<exists>h' b'. sof_run (3 * max 1 (unat (2 :: u8))) sample_hub_host sample_bus = Some (USBH_OK, h', b') \<and>
     xfers b' = xfers sample_bus @ replicate 3 (2, 1, False, HubIntr_of 0, 1)"
proof -
  let ?u = "zero_hub\<lparr>hub_NotifPipe := 2, hub_NotifEpSize := 1, hub_poll := 2,
       hub_ctl_state := HUB_REQ_SCAN_PORT, HUB_Desc := [9, 0x29, 2] @ replicate 9 0\<rparr>"
  have "hub_polling sample_hub_host ?u sample_bus"
    by (simp add: hub_polling_def sample_hub_host_def get_hub_def rd_def sample_host_def sample_bus_def zero_bus_def)
  moreover have "sof_num ?u = 0" by (simp add: zero_hub_def)
  ultimately show ?thesis using hub_polls_endpoint [of sample_hub_host ?u sample_bus 3]
    by (auto simp: intr_xfer_def sample_hub_host_def sample_host_def zero_host_def)
qed

subsection \<open>Powering the ports\<close>

text \<open>
  The setup packets that go out, in order, while the class requests of a hub are polled until they are
  no longer busy.
\<close>

fun hub_drive :: "bool list \<Rightarrow> host \<Rightarrow> bus \<Rightarrow> (u8 list list \<times> USBH_StatusTypeDef \<times> host \<times> bus) option" where
  "hub_drive [] h b = Some ([], USBH_BUSY, h, b)"
| "hub_drive (a # tape) h b = do {
     (s, h', b') \<leftarrow> USBH_HUB_ClassRequest h (if a then ack b else b);
     (if s = USBH_BUSY then map_option (\<lambda>(l, r). (setup_sent h @ l, r)) (hub_drive tape h' b')
      else Some (setup_sent h, s, h', b'))
   }"

lemma hub_drive_polls:
  "polls_of no_data USBH_HUB_ClassRequest t1 h b = Some (l, ss @ [s], h', b') \<Longrightarrow> set ss \<subseteq> {USBH_BUSY} \<Longrightarrow> s \<noteq> USBH_BUSY \<Longrightarrow>
   hub_drive (t1 @ t2) h b = Some (l, s, h', b')"
proof (induction t1 arbitrary: h b l ss)
  case (Cons a t1)
  then obtain q h1 b1 l1 ss1 where 1: "USBH_HUB_ClassRequest h (if a then ack b else b) = Some (q, h1, b1)"
    "polls_of no_data USBH_HUB_ClassRequest t1 h1 b1 = Some (l1, ss1, h', b')" "l = setup_sent h @ l1" "ss @ [s] = q # ss1"
    by (auto simp: bind_eq_Some_conv)
  show ?case
  proof (cases ss)
    case Nil
    with 1(2,4) have "t1 = []" by (cases t1) (auto simp: bind_eq_Some_conv)
    with 1 Nil Cons.prems(3) show ?thesis by simp
  next
    case (Cons q' ss')
    with 1(4) have "q' = q" "ss1 = ss' @ [s]" by simp_all
    with Cons.IH [of h1 b1 l1 ss'] Cons.prems(2,3) 1 Cons show ?thesis by simp
  qed
qed simp

definition power_pkt :: "u8 \<Rightarrow> USB_Setup_TypeDef" where
  "power_pkt p = \<lparr>bmRequestType = USB_H2D OR USB_REQ_RECIPIENT_OTHER OR USB_REQ_TYPE_CLASS,
     bRequest = USB_REQ_SET_FEATURE, wValue = HUB_FEATURE_SEL_PORT_POWER, wIndex = ucast p, wLength = 0\<rparr>"

lemma power_cost [simp]: "req_cost (power_pkt p) = 5"
  by (simp add: req_cost_def stages_def after_setup_def power_pkt_def)

text \<open>Port \<open>p\<close> of a hub with \<open>n\<close> ports is being powered; and what follows.\<close>

definition power_at :: "u8 \<Rightarrow> u8 \<Rightarrow> host \<Rightarrow> bool" where
  "power_at n p h \<longleftrightarrow> (\<exists>u. get_hub h = Some u \<and> hub_ctl_state u = HUB_REQ_SET_PORT_POWER \<and>
     bNbrPorts u = Some n \<and> port_index u = p)"

definition power_after :: "u8 \<Rightarrow> u8 \<Rightarrow> USBH_StatusTypeDef \<Rightarrow> host \<Rightarrow> bus \<Rightarrow> bool" where
  "power_after n p s h b \<longleftrightarrow> (if p + 1 > n
     then s = USBH_OK \<and> (\<exists>u. get_hub h = Some u \<and> hub_ctl_state u = HUB_REQ_SCAN_PORT) \<and> os_event b \<noteq> []
     else s = USBH_BUSY \<and> power_at n (p + 1) h)"

lemma get_hub_with_setup [simp]: "get_hub (with_setup q h) = get_hub h"
  by (simp add: get_hub_def with_setup_def upd_ctl_def)

lemma hub_power_wait:
  assumes "get_hub h = Some u" "hub_ctl_state u = HUB_REQ_SET_PORT_POWER" "bNbrPorts u = Some n" "port_index u = p"
    "RequestState h = CMD_SEND \<or> setup_pkt (Control h) = power_pkt p"
    "USBH_CtlReq (with_setup (power_pkt p) h) b NULL_buf 0 = Some (s, h1, b1)"
  shows "USBH_HUB_ClassRequest h b = Some (if s \<noteq> USBH_OK then (USBH_BUSY, h1, b1)
     else if p + 1 > n
     then (USBH_OK, put_hub (u\<lparr>port_index := p + 1, hub_ctl_state := HUB_REQ_SCAN_PORT\<rparr>) h1, os_put USBH_PORT_EVENT b1)
     else (USBH_BUSY, put_hub (u\<lparr>port_index := p + 1\<rparr>) h1, b1))"
proof -
  have "USBH_HUB_SetHUBPower h b p = Some (s, h1, b1)"
    using assms(5,6) with_setup_same [of h "power_pkt p"]
    by (auto simp: USBH_HUB_SetHUBPower_def Let_def set_setup_with power_pkt_def)
  then show ?thesis using assms(1-4) by (simp add: USBH_HUB_ClassRequest_def hub_power_def Let_def)
qed

interpretation port_power: requester no_data "power_at n" power_pkt "\<lambda>_. NULL_buf" "\<lambda>_. 0" "\<lambda>_ _. True"
  "\<lambda>_. True" USBH_HUB_ClassRequest "power_after n" for n
proof (unfold_locales; (simp add: no_data_def; fail)?)
  fix p h h' assume "power_at n p h" "ctl_frame (with_setup (power_pkt p) h) h'"
  then show "power_at n p h'" using get_hub_frame [of "with_setup (power_pkt p) h" h'] by (simp add: power_at_def)
next
  fix p h b h1 b1
  assume p: "power_at n p h" "RequestState h = CMD_SEND \<or> setup_pkt (Control h) = power_pkt p"
    "USBH_CtlReq (with_setup (power_pkt p) h) b NULL_buf 0 = Some (USBH_BUSY, h1, b1)"
  then show "USBH_HUB_ClassRequest h b = Some (USBH_BUSY, h1, b1)" by (auto simp: power_at_def hub_power_wait)
next
  fix p h b h1 b1
  assume p: "power_at n p h" "RequestState h = CMD_SEND \<or> setup_pkt (Control h) = power_pkt p"
    "USBH_CtlReq (with_setup (power_pkt p) h) b NULL_buf 0 = Some (USBH_OK, h1, b1)" "pipes_open h1 b1" "RequestState h1 = CMD_SEND"
  then obtain u where u: "get_hub h = Some u" "hub_ctl_state u = HUB_REQ_SET_PORT_POWER" "bNbrPorts u = Some n" "port_index u = p"
    by (auto simp: power_at_def)
  have "get_hub h1 = Some u" using get_hub_frame [OF CtlReq_frame(1) [OF p(3)]] u(1) by simp
  moreover have "pipes_open (put_hub v h1) (os_put USBH_PORT_EVENT b1)" "pipes_open (put_hub v h1) b1" for v
    using p(4) by (simp_all add: pipes_open_def ctl_ok_def pipes_ok_def)
  ultimately show "\<exists>s h2 b2. USBH_HUB_ClassRequest h b = Some (s, h2, b2) \<and> pipes_open h2 b2 \<and>
      RequestState h2 = CMD_SEND \<and> power_after n p s h2 b2"
    using hub_power_wait [OF u p(2,3)] u p(5) by (auto simp: power_after_def power_at_def bNbrPorts_def)
qed

text \<open>
  C22: a hub with \<open>n\<close> ports (fewer than 255) gets exactly the requests that power its ports 1 to
  \<open>n\<close>, in order, whatever the spread of the controller's answers; then scanning starts, with an event
  for the host thread.
\<close>

theorem hub_powers_ports:
  assumes "get_hub h = Some u" "hub_ctl_state u = HUB_REQ_SET_PORT_POWER" "port_index u = 1"
    "bNbrPorts u = Some n" "1 \<le> n" "n < 255" "pipes_open h b" "RequestState h = CMD_SEND"
    "5 * unat n \<le> count_list tape True"
  shows "\<exists>h' b' u'. hub_drive tape h b =
       Some (map (\<lambda>i. [0x23, 0x03, 0x08, 0x00, of_nat i, 0x00, 0x00, 0x00]) [1..<Suc (unat n)], USBH_OK, h', b') \<and>
     get_hub h' = Some u' \<and> hub_ctl_state u' = HUB_REQ_SCAN_PORT \<and> os_event b' \<noteq> []"
proof -
  let ?js = "map (of_nat :: nat \<Rightarrow> u8) [2..<Suc (unat n)]"
  have n: "1 \<le> unat n" "unat n < 255" using assms(5,6) by (simp_all add: word_le_nat_alt word_less_nat_alt)
  have js: "1 # ?js = map of_nat [1..<Suc (unat n)]"
    using n upt_conv_Cons [of 1 "Suc (unat n)"] by (simp add: numeral_2_eq_2 del: upt_Suc)
  have nth: "(1 # ?js) ! i = of_nat (Suc i)" if "i < unat n" for i unfolding js using that by (simp del: upt_Suc)
  have len: "length (1 # ?js) = unat n" unfolding js by simp
  have next1: "(of_nat (Suc i) :: u8) + 1 = of_nat (Suc (Suc i))" for i by simp
  have le: "(of_nat k > n) = (unat n < k)" if "k \<le> 255" for k
    using that by (simp add: word_less_nat_alt unat_of_nat)
  have step: "\<forall>i s h' b'. Suc i < length (1 # ?js) \<longrightarrow> power_after n ((1 # ?js) ! i) s h' b' \<longrightarrow>
      s = USBH_BUSY \<and> power_at n ((1 # ?js) ! Suc i) h'"
  proof (intro allI impI)
    fix i s h' b' assume "Suc i < length (1 # ?js)" "power_after n ((1 # ?js) ! i) s h' b'"
    then show "s = USBH_BUSY \<and> power_at n ((1 # ?js) ! Suc i) h'" using n le [of "Suc (Suc i)"] unfolding len
      by (simp only: nth Suc_lessD power_after_def next1)
  qed
  have cost: "(\<Sum>i\<leftarrow>1 # ?js. req_cost (power_pkt i)) \<le> count_list tape True"
    using assms(9) len by (simp only: power_cost sum_list_triv) (simp add: mult.commute)
  have keep: "\<forall>i s h b. power_after n i s h b \<longrightarrow> True" by simp
  have "power_at n 1 h" using assms by (auto simp: power_at_def)
  from port_power.requests_run [where js = ?js and tape = tape, OF this assms(7,8) TrueI step keep cost] obtain t1 t2 ss s h' b' where 1: "tape = t1 @ t2"
    "polls_of no_data USBH_HUB_ClassRequest t1 h b = Some (map (\<lambda>i. setup_bytes (power_pkt i)) (1 # ?js), ss @ [s], h', b')"
    "set ss \<subseteq> {USBH_BUSY}" "power_after n (last (1 # ?js)) s h' b'"
    by blast
  have l: "last (1 # ?js) = n" unfolding js using n by (simp add: last_map)
  have "n + 1 > n" using le [of "Suc (unat n)"] n by (simp add: add.commute)
  with 1(4) have a: "s = USBH_OK" "\<exists>u. get_hub h' = Some u \<and> hub_ctl_state u = HUB_REQ_SCAN_PORT" "os_event b' \<noteq> []"
    unfolding power_after_def l by simp_all
  have "setup_bytes (power_pkt p) = [0x23, 0x03, 0x08, 0x00, p, 0x00, 0x00, 0x00]" for p
  proof -
    have "drop_bit 8 (ucast p :: u16) = 0" by (rule bit_word_eqI) (auto simp: bit_simps dest: bit_imp_le_length)
    moreover have "ucast (ucast p :: u16) = p" by (rule bit_word_eqI) (auto simp: bit_simps)
    ultimately show ?thesis by (simp add: setup_bytes_def power_pkt_def le16_bytes_def)
  qed
  then have "map (\<lambda>i. setup_bytes (power_pkt i)) (1 # ?js) =
      map (\<lambda>i. [0x23, 0x03, 0x08, 0x00, of_nat i, 0x00, 0x00, 0x00]) [1..<Suc (unat n)]" unfolding js by simp
  with hub_drive_polls [OF 1(2,3), of t2] a 1(1) show ?thesis by simp
qed

definition sample_new_hub :: host where
  "sample_new_hub = sample_hub_host\<lparr>pClassData := [Some (Hub_data (zero_hub\<lparr>hub_NotifPipe := 2, port_index := 1,
     hub_ctl_state := HUB_REQ_SET_PORT_POWER, HUB_Desc := [9, 0x29, 2] @ replicate 9 0\<rparr>)), None, None, None]\<rparr>"

lemma hub_powers_ports_witness:
  "\<exists>h' b' u'. hub_drive (replicate 4 False @ replicate 10 True) sample_new_hub sample_bus =
       Some ([[0x23, 0x03, 0x08, 0x00, 1, 0x00, 0x00, 0x00], [0x23, 0x03, 0x08, 0x00, 2, 0x00, 0x00, 0x00]], USBH_OK, h', b') \<and>
     get_hub h' = Some u' \<and> hub_ctl_state u' = HUB_REQ_SCAN_PORT \<and> os_event b' \<noteq> []"
proof -
  let ?u = "zero_hub\<lparr>hub_NotifPipe := 2, port_index := 1,
     hub_ctl_state := HUB_REQ_SET_PORT_POWER, HUB_Desc := [9, 0x29, 2] @ replicate 9 0\<rparr>"
  have "get_hub sample_new_hub = Some ?u" by (simp add: get_hub_def sample_new_hub_def rd_def)
  moreover have "bNbrPorts ?u = Some 2" by (simp add: bNbrPorts_def byte_simps)
  moreover have "pipes_open sample_new_hub sample_bus" "RequestState sample_new_hub = CMD_SEND"
    using sample_open by (simp_all add: sample_new_hub_def sample_hub_host_def pipes_open_def ctl_ok_def sample_host_def)
  moreover have "5 * unat (2 :: u8) \<le> count_list (replicate 4 False @ replicate 10 True) True"
    by code_simp
  ultimately have "\<exists>h' b' u'. hub_drive (replicate 4 False @ replicate 10 True) sample_new_hub sample_bus =
       Some (map (\<lambda>i. [0x23, 0x03, 0x08, 0x00, of_nat i, 0x00, 0x00, 0x00]) [1..<Suc (unat (2 :: u8))], USBH_OK, h', b') \<and>
     get_hub h' = Some u' \<and> hub_ctl_state u' = HUB_REQ_SCAN_PORT \<and> os_event b' \<noteq> []"
    by (intro hub_powers_ports [where u = ?u]) simp_all
  moreover have "[1..<Suc (unat (2 :: u8))] = [1, 2]" by (simp add: upt_rec)
  ultimately show ?thesis by (simp del: hub_drive.simps replicate_append_same append_replicate_commute)
qed

end
