(* ===== verification/HubTree.thy ===== *)
theory HubTree
  imports HubFacts
begin

text \<open>
  The hub driver and the tree of handles. Its requests and its binding leave the tree alone. Releasing a
  hub and polling it change the table of its children: a child is released only from the table that
  holds it, and a new child is younger than its parent and enters the table when it has been enumerated.
  So both keep the tree, and leave the hub's own machine to the interrupts that come in where they spin,
  whatever the children's own steps do.
\<close>

subsection \<open>Binding and class requests\<close>

lemma put_hub_node [simp]: "node (put_hub u h) = node h"
  by (simp add: node_def)

lemma mod_hub_node: "mod_hub f h = Some h' \<Longrightarrow> node h' = node h"
  by (auto simp: mod_hub_def)

lemma req_frame_node: "req_frame h h' \<Longrightarrow> node h' = node h"
  by (simp add: req_frame_def node_def)

lemma hub_requests_frame:
  "USBH_HUB_GetHUBDescriptor h b n = Some (s, h', b') \<Longrightarrow> node h' = node h"
  "USBH_HUB_GetHUBStatus h b n = Some (s, h', b') \<Longrightarrow> node h' = node h"
  "USBH_HUB_SetHUBPower h b p = Some (s, h', b') \<Longrightarrow> node h' = node h"
  by (rule req_frame_node, auto simp: USBH_HUB_GetHUBDescriptor_def USBH_HUB_GetHUBStatus_def USBH_HUB_SetHUBPower_def Let_def
      split: if_splits dest: GetDescriptor_frame CtlReq_req_frame)+

lemma hub_power_node: "hub_power h b = Some (s, h', b') \<Longrightarrow> node h' = node h"
  by (auto simp: hub_power_def bind_eq_Some_conv Let_def split: if_splits dest!: hub_requests_frame)

lemma HUB_ClassRequest_node:
  assumes "USBH_HUB_ClassRequest h b = Some (s, h', b')"
  shows "node h' = node h"
proof -
  from assms obtain u where u: "get_hub h = Some u" by (auto simp: USBH_HUB_ClassRequest_def bind_eq_Some_conv)
  show ?thesis
    by (cases "hub_ctl_state u")
      (use assms u in \<open>auto simp: USBH_HUB_ClassRequest_def bind_eq_Some_conv split: if_splits
        dest!: hub_requests_frame mod_hub_node dest: hub_power_node\<close>)
qed

lemma HUB_Requests_shape: "on_host x USBH_HUB_ClassRequest w = Some (s, w') \<Longrightarrow> shape w' = shape w"
  by (erule shape_on) (rule HUB_ClassRequest_node)

lemma HUB_Init_shape:
  assumes "USBH_HUB_InterfaceInit x w = Some (s, w')"
  shows "shape w' = shape w"
proof -
  obtain ok w1 where t: "take_malloc w = (ok, w1)" by (metis surj_pair)
  from assms t have "w' = w \<or> (\<exists>h i s1 h1. hs w x = Some h \<and> USBH_SelectInterface h i = Some (s1, h1) \<and>
      on_host x (hub_open i) (put_host x h1 w1) = Some (s, w'))"
    by (auto simp: USBH_HUB_InterfaceInit_def bind_eq_Some_conv Let_def split: if_splits)
  then show ?thesis
  proof (elim disjE exE conjE)
    fix h i s1 h1
    assume h: "hs w x = Some h" and sel: "USBH_SelectInterface h i = Some (s1, h1)"
      and o: "on_host x (hub_open i) (put_host x h1 w1) = Some (s, w')"
    have "hs w1 = hs w" using take_malloc_simps(1) [of w] t by simp
    then have "shape (put_host x h1 w1) = shape w1" using h SelectInterface_keeps [OF sel] by (intro shape_put) simp_all
    moreover have "shape w' = shape (put_host x h1 w1)"
      using o by (rule shape_on) (auto simp: hub_open_def node_def bind_eq_Some_conv Let_def)
    ultimately show ?thesis using shape_take [OF t] by simp
  qed simp
qed

subsection \<open>Children leaving and entering\<close>

lemma child_of_below: "below r n w w' \<Longrightarrow> x < n \<Longrightarrow> child_of w x i y \<Longrightarrow> child_of w' x i y"
  by (force simp: below_def child_of_def same_place_def split: option.splits)

lemma not_child_of_below: "below r n w w' \<Longrightarrow> x < n \<Longrightarrow> hs w x = Some h \<Longrightarrow> child_of w' x i y \<Longrightarrow> child_of w x i y"
  by (force simp: below_def child_of_def same_place_def split: option.splits)

lemma child_younger: "tree_ok w \<Longrightarrow> child_of w x i y \<Longrightarrow> x < y"
  by (auto simp: tree_ok_def)

lemma child_live: "tree_ok w \<Longrightarrow> child_of w x i y \<Longrightarrow> \<exists>c. hs w y = Some c \<and> parent c = Some x"
  by (auto simp: tree_ok_def)

lemma child_parent: "tree_ok w \<Longrightarrow> child_of w x i y \<Longrightarrow> hs w y = Some c \<Longrightarrow> parent c = Some x"
  by (auto dest: child_live)

lemma child_once:
  assumes "tree_ok w" "child_of w x i y" "child_of w z j y"
  shows "z = x \<and> j = i"
proof -
  have "z = x" using child_live [OF assms(1,2)] child_live [OF assms(1,3)] by auto
  with assms show ?thesis unfolding tree_ok_def by blast
qed

text \<open>A table entry is cleared and its handle freed.\<close>

lemma release_step:
  assumes "tree_ok w" "child_of w x i y" "set_child x i None (free_host y (w\<lparr>wb := b\<rparr>)) = Some w'"
  shows "class_step r x w w'"
proof -
  have xy: "x < y" by (rule child_younger [OF assms(1,2)])
  from assms(2) obtain h where h: "hs w x = Some h" "i < length (children h)" "children h ! i = Some y"
    by (auto simp: child_of_def split: option.splits)
  let ?h = "h\<lparr>children := (children h)[i := None]\<rparr>"
  have w': "hs w' = (hs w)(y := None, x \<mapsto> ?h)" "next_hid w' = next_hid w"
    using assms(3) h xy by (auto simp: set_child_def free_host_def bind_eq_Some_conv wr_def split: if_splits)
  have c: "child_of w' a j z \<longleftrightarrow> child_of w a j z \<and> a \<noteq> y \<and> (a, j) \<noteq> (x, i)" for a j z
    using h xy by (auto simp: child_of_def w' nth_list_update)
  have only: "(a, j) = (x, i)" if "child_of w a j y" for a j
    using child_once [OF assms(1,2) that] by simp
  have "tree_ok w'"
    unfolding tree_ok_def c
  proof (intro conjI allI impI; (elim conjE)?)
    fix z h' assume "hs w' z = Some h'"
    with assms(1) h(1) show "z < next_hid w'" by (auto simp: tree_ok_def w' split: if_splits)
  next
    fix a j z assume z: "child_of w a j z" "(a, j) \<noteq> (x, i)"
    then have "z \<noteq> y" using only by blast
    with z(1) assms(1) h(1) show "a < z" "\<exists>c. hs w' z = Some c \<and> parent c = Some a"
      unfolding tree_ok_def w' by (auto, metis option.inject)
  next
    fix a j k z assume "child_of w a j z" "child_of w a k z"
    with assms(1) show "j = k" by (auto simp: tree_ok_def)
  qed
  moreover have "below r x w w'" using xy by (auto simp: below_def w')
  ultimately show ?thesis using h(1) by (simp add: class_step_def moved_def w')
qed

text \<open>A live handle that points back to its parent and is in no table enters one.\<close>

lemma adopt_step:
  assumes "tree_ok w" "x < y" "hs w y = Some c" "parent c = Some x" "\<And>j. \<not> child_of w x j y" "set_child x i (Some y) w = Some w'"
  shows "class_step r x w w'"
proof -
  from assms(6) obtain h where h: "hs w x = Some h" "i < length (children h)"
    and w': "w' = put_host x (h\<lparr>children := (children h)[i := Some y]\<rparr>) w"
    by (auto simp: set_child_def bind_eq_Some_conv wr_def split: if_splits)
  have new: "child_of w' a j z \<longleftrightarrow> (if (a, j) = (x, i) then z = y else child_of w a j z)" for a j z
    using h by (auto simp: child_of_def w' nth_list_update)
  have "tree_ok w'"
    unfolding tree_ok_def new
  proof (intro conjI allI impI)
    fix z h' assume "hs w' z = Some h'"
    with assms(1) h(1) show "z < next_hid w'" by (auto simp: tree_ok_def w' split: if_splits)
  next
    fix a j z assume "if (a, j) = (x, i) then z = y else child_of w a j z"
    with assms(1-4) h(1) show "a < z" "\<exists>c. hs w' z = Some c \<and> parent c = Some a"
      using child_younger [OF assms(1)] child_live [OF assms(1)] child_parent [OF assms(1) _ h(1)]
      by (auto simp: w' split: if_splits)
  next
    fix a j k z
    assume "if (a, j) = (x, i) then z = y else child_of w a j z" "if (a, k) = (x, i) then z = y else child_of w a k z"
    with assms(1,5) show "j = k" unfolding tree_ok_def by (auto split: if_splits)
  qed
  then show ?thesis using h(1) by (simp add: class_step_def below_def moved_def w')
qed

text \<open>A new handle, not yet in any table.\<close>

lemma fresh_child:
  assumes "tree_ok w" "new_child x w = Some (y, w')"
  shows "tree_ok w' \<and> below r y w w' \<and> x < y \<and> (\<exists>c. hs w' y = Some c \<and> parent c = Some x) \<and>
    (\<exists>h. hs w' x = Some h) \<and> (\<forall>j. \<not> child_of w' x j y)"
proof -
  from assms(2) obtain h lo hi c s where h: "hs w x = Some h" and y: "y = next_hid w"
    and c: "child_handle y x h (child_speed lo hi) = Some c"
    and p: "on_host y child_pipes (put_host y c (w\<lparr>next_hid := Suc y\<rparr>)) = Some (s, w')"
    by (auto simp: new_child_def bind_eq_Some_conv Let_def)
  have pc: "parent c = Some x" "\<forall>k<length (children c). children c ! k = None"
    using c by (auto simp: child_handle_def HUB_Child_DeInitStateMachine_def reset_device_def reset_machine_def clear_device_def
        upd_dev_def upd_ctl_def zero_host_def split: if_splits)
  let ?w = "put_host y c (w\<lparr>next_hid := Suc y\<rparr>)"
  have none: "hs w y = None" and xy: "x < y" using assms(1) h unfolding tree_ok_def y by (cases "hs w (next_hid w)"; auto)+
  have ch: "child_of ?w = child_of w"
    by (intro ext) (use pc(2) none in \<open>auto simp: child_of_def\<close>)
  have no: "\<not> child_of w a j y" for a j using assms(1) none unfolding tree_ok_def by fastforce
  have "tree_ok ?w"
    unfolding tree_ok_def ch
  proof (intro conjI allI impI)
    fix z h' assume "hs ?w z = Some h'"
    then show "z < next_hid ?w" using assms(1) y by (auto simp: tree_ok_def split: if_splits intro: less_SucI)
  next
    fix a j z assume z: "child_of w a j z"
    then have "z \<noteq> y" using no by blast
    with z assms(1) show "a < z" "\<exists>c. hs ?w z = Some c \<and> parent c = Some a" by (auto simp: tree_ok_def)
  next
    fix a j k z assume "child_of w a j z" "child_of w a k z"
    with assms(1) show "j = k" by (auto simp: tree_ok_def)
  qed
  moreover have "same_place h1 h2" if "child_pipes h1 b1 = Some (s1, h2, b2)" for h1 b1 s1 h2 b2
    using that by (auto simp: child_pipes_def same_place_def upd_ctl_def bind_eq_Some_conv Let_def)
  ultimately have t: "tree_step r y ?w w'" using p by (intro tree_step_on)
  have "below r y w ?w" using y by (auto simp: below_def)
  then have "below r y w w'" using t by (auto simp: tree_step_def intro: below_trans)
  moreover have "\<not> child_of w' x j y" for j
    using not_child_of_below [OF \<open>below r y w w'\<close> xy h] no by blast
  moreover have "\<exists>h. hs w' x = Some h" using \<open>below r y w w'\<close> h xy unfolding below_def by blast
  ultimately show ?thesis using t xy pc(1) by (auto simp: tree_step_def)
qed

subsection \<open>The driver's steps\<close>

text \<open>Running a step for every child present: each is younger than its parent at that moment.\<close>

lemma each_index_step:
  assumes "each_index f x n w = Some w'" "tree_ok w"
    "\<And>i y v v'. \<lbrakk>tree_ok v; child_of v x i y; f i y v = Some v'\<rbrakk> \<Longrightarrow> class_step r x v v'"
  shows "class_step r x w w'"
  using assms(1)
proof (induction n arbitrary: w')
  case 0
  with assms(2) show ?case by (simp add: class_step_refl)
next
  case (Suc n)
  then obtain w1 h c where 1: "each_index f x n w = Some w1" "hs w1 x = Some h" "rd (children h) n = Some c"
    "(case c of None \<Rightarrow> Some w1 | Some y \<Rightarrow> f n y w1) = Some w'" by (auto simp: bind_eq_Some_conv)
  note ih = Suc.IH [OF 1(1)]
  show ?case
  proof (cases c)
    case None
    with ih 1(4) show ?thesis by simp
  next
    case (Some y)
    have "child_of w1 x n y" using 1(2,3) Some by (simp add: child_of_def rd_eq_Some_iff)
    from assms(3) [OF step_trees(2) [OF ih] this] 1(4) Some have "class_step r x w1 w'" by simp
    with ih show ?thesis by (rule class_step_trans)
  qed
qed

lemma each_child_index: "each_child f x n w = each_index (\<lambda>_. f) x n w"
  by (induction n) simp_all

lemmas each_child_step = each_index_step [where f = "\<lambda>_. f" for f, folded each_child_index]

lemma release_child_step:
  assumes "release_child x i y w = Some w'" "tree_ok w" "child_of w x i y"
  shows "class_step r x w w'"
proof -
  from assms(1) obtain b where "set_child x i None (free_host y (w\<lparr>wb := b\<rparr>)) = Some w'"
    by (auto simp: release_child_def bind_eq_Some_conv)
  with release_step assms(2,3) show ?thesis by blast
qed

lemma hub_close_node: "hub_close h b = Some (s, h', b') \<Longrightarrow> node h' = node h"
  by (auto simp: hub_close_def bind_eq_Some_conv Let_def split: if_splits dest!: Free_One_Address_keeps) (simp_all add: node_def)

lemma disconnect_port_place: "disconnect_port h b = Some (s, h', b') \<Longrightarrow> same_place h h'"
  by (auto simp: disconnect_port_def bind_eq_Some_conv Let_def same_place_def)

lemma child_deinit_place: "same_place h (HUB_Child_DeInitStateMachine h)"
  by (simp add: HUB_Child_DeInitStateMachine_def reset_device_def reset_machine_def clear_device_def same_place_def
      upd_ctl_def upd_dev_def)

lemma set_setup_node [simp]: "node (set_setup rt rq v i l h) = node h"
  by (simp add: node_def set_setup_def upd_ctl_def)

context host_callbacks
begin

lemma ctl_spin_keeps: "ctl_spin env x buf len n st w = Some (k, s, w') \<Longrightarrow> keeps r w w'"
proof (induction n arbitrary: st w)
  case (Suc n)
  then obtain s1 w1 h where 1: "on_host x (\<lambda>h b. USBH_CtlReq h b buf len) w = Some (s1, w1)" "hs w1 x = Some h"
    "(if s1 = USBH_BUSY \<and> gState h \<noteq> HOST_DEV_DISCONNECTED then do { w \<leftarrow> tick env w1; ctl_spin env x buf len n s1 w }
      else Some (Suc n, s1, w1)) = Some (k, s, w')" by (auto simp: bind_eq_Some_conv)
  have "shape w1 = shape w" using 1(1) by (rule shape_on) (auto dest!: CtlReq_req_frame intro: req_frame_node)
  then have w1: "keeps r w w1" by (rule shape_keeps)
  from 1(3) consider "w' = w1" | w2 where "tick env w1 = Some w2" "ctl_spin env x buf len n s1 w2 = Some (k, s, w')"
    by (auto simp: bind_eq_Some_conv split: if_splits)
  then show ?case
  proof cases
    case 2
    from w1 tick_keeps [OF 2(1)] Suc.IH [OF 2(2)] show ?thesis by (blast intro: keeps_trans)
  qed (simp add: w1)
qed simp

lemma keeps_mod: "mod_host x f w = Some w' \<Longrightarrow> (\<And>h. node (f h) = node h) \<Longrightarrow> keeps r w w'"
  by (rule shape_keeps [OF shape_mod])

lemma spin_call_keeps:
  assumes "mod_host x f w = Some w1" "\<And>h. node (f h) = node h" "ctl_spin env x buf len n st w1 = Some (k, s, w2)"
    "w' = w2 \<or> mod_host x (\<lambda>h. h\<lparr>RequestState := CMD_SEND\<rparr>) w2 = Some w'"
  shows "keeps r w w'"
proof -
  have "keeps r w2 w'" using assms(4) by (auto simp: node_def intro: keeps_mod)
  with keeps_mod [OF assms(1,2)] ctl_spin_keeps [OF assms(3)] show ?thesis by (blast intro: keeps_trans)
qed

lemma port_requests_keep:
  "USBH_HUB_GetPortStatus env x port len w = Some (s, w') \<Longrightarrow> keeps r w w'"
  "port_feature rq env x port f w = Some (s, w') \<Longrightarrow> keeps r w w'"
  by (auto simp: USBH_HUB_GetPortStatus_def port_feature_def bind_eq_Some_conv split: if_splits
      elim!: spin_call_keeps)

lemma clear_changes_keep: "clear_changes env x port fs w = Some w' \<Longrightarrow> keeps r w w'"
proof (induction fs arbitrary: w)
  case (Cons jf fs)
  obtain j f where jf: "jf = (j, f)" by (cases jf)
  from Cons.prems obtain w1 where "clear_changes env x port fs w1 = Some w'"
    "w1 = w \<or> (\<exists>s. port_feature USB_REQ_CLEAR_FEATURE env x port f w = Some (s, w1))"
    by (auto simp: jf bind_eq_Some_conv USBH_HUB_ClearPort_def split: if_splits)
  with Cons.IH port_requests_keep(2) show ?case by (blast intro: keeps_trans)
qed simp

lemma reset_port_keeps: "reset_port env x port w = Some w' \<Longrightarrow> keeps r w w'"
  by (auto simp: reset_port_def bind_eq_Some_conv USBH_HUB_SetPort_def dest!: port_requests_keep)

end

context host_callbacks
begin

subsubsection \<open>Release\<close>

lemma deinit_child_step:
  assumes "deinit_child env y w = Some w'" "tree_ok w"
  shows "tree_step r y w w'"
proof -
  from assms(1) obtain h c s w1 where "hs w y = Some h" "e_DeInit env c y w = Some (s, w1)"
    and m: "mod_host y (\<lambda>h. h\<lparr>pActiveClass := None\<rparr>) w1 = Some w'" by (auto simp: deinit_child_def bind_eq_Some_conv)
  with deinit_step [OF _ assms(2)] have "class_step r y w w1" by blast
  then show ?thesis using keeps_mod [OF m] by (auto simp: node_def intro: class_tree step_after)
qed

lemma HUB_DeInit_step:
  assumes "USBH_HUB_InterfaceDeInit env x w = Some (s, w')" "tree_ok w"
  shows "class_step r x w w'"
proof -
  from assms(1) obtain w1 w2 w3 where
    1: "each_child (\<lambda>y. call_user env y HOST_USER_DISCONNECTION) x USBH_MAX_NUM_CHILD w = Some w1"
    and 2: "each_child (deinit_child env) x USBH_MAX_NUM_CHILD w1 = Some w2"
    and 3: "each_index (release_child x) x USBH_MAX_NUM_CHILD w2 = Some w3" and 4: "on_host x hub_close w3 = Some (s, w')"
    by (auto simp: USBH_HUB_InterfaceDeInit_def bind_eq_Some_conv)
  have c1: "class_step r x w w1" by (rule each_child_step [OF 1 assms(2)]) (blast intro: class_step_keeps call_user_keeps)
  have c2: "class_step r x w1 w2"
    by (rule each_child_step [OF 2 step_trees(2) [OF c1]]) (blast intro: step_younger deinit_child_step dest: child_younger)
  have c3: "class_step r x w2 w3"
    by (rule each_index_step [OF 3 step_trees(2) [OF c2]]) (rule release_child_step)
  have "shape w' = shape w3" using 4 by (rule shape_on) (rule hub_close_node)
  then have "keeps r w3 w'" by (rule shape_keeps)
  with c1 c2 c3 show ?thesis by (blast intro: class_step_trans step_after)
qed

lemma Disconnect_step:
  assumes "USBH_LL_Disconnect env y w = Some (s, w')" "tree_ok w"
  shows "tree_step r y w w'"
proof -
  from assms(1) obtain w1 w2 h where m: "mod_host y (upd_dev (\<lambda>d. d\<lparr>is_connected := 0\<rparr>)) w = Some w1" and h: "hs w1 y = Some h"
    and u: "(if pUser h then call_user env y HOST_USER_DISCONNECTION w1 else Some w1) = Some w2"
    and d: "on_host y disconnect_port w2 = Some (s, w')" by (auto simp: USBH_LL_Disconnect_def bind_eq_Some_conv)
  have "keeps r w w1" using m by (rule keeps_mod) (simp add: node_def upd_dev_def)
  moreover have "keeps r w1 w2" using u call_user_keeps by (auto split: if_splits)
  ultimately have c: "class_step r y w w2" using assms(2) by (blast intro: class_step_keeps keeps_trans)
  have "tree_step r y w2 w'" using d step_trees(2) [OF c] disconnect_port_place by (rule tree_step_on)
  with class_tree [OF c] show ?thesis by (rule tree_step_trans)
qed

lemma unplug_child_step:
  assumes "unplug_child env x i y w = Some w'" "tree_ok w" "child_of w x i y"
  shows "class_step r x w w'"
proof -
  from assms(1) obtain s w1 h w2 w3 b where d: "USBH_LL_Disconnect env y w = Some (s, w1)" and h: "hs w1 y = Some h"
    and c: "(case pActiveClass h of
            Some c \<Rightarrow> do {
              (_, w) \<leftarrow> e_DeInit env c y w1;
              mod_host y (\<lambda>h. h\<lparr>pActiveClass := None\<rparr>) w
            }
          | None \<Rightarrow> Some w1) = Some w2"
    and m: "mod_host y HUB_Child_DeInitStateMachine w2 = Some w3"
    and r: "set_child x i None (free_host y (w3\<lparr>wb := b\<rparr>)) = Some w'"
    by (auto simp: unplug_child_def bind_eq_Some_conv)
  note t1 = Disconnect_step [OF d assms(2)]
  have t2: "tree_step r y w1 w2"
  proof (cases "pActiveClass h")
    case None
    with c t1 show ?thesis by (auto intro: class_tree class_step_refl step_trees)
  next
    case (Some k)
    with c obtain s1 v where v: "e_DeInit env k y w1 = Some (s1, v)" "mod_host y (\<lambda>h. h\<lparr>pActiveClass := None\<rparr>) v = Some w2"
      by (auto simp: bind_eq_Some_conv)
    from deinit_step [OF v(1) step_trees(1) [OF t1]] keeps_mod [OF v(2)] show ?thesis
      by (auto simp: node_def intro: class_tree step_after)
  qed
  have t3: "tree_step r y w2 w3" using m child_deinit_place step_trees(1) [OF t2] by (rule tree_step_mod)
  from t1 t2 t3 have t: "tree_step r y w w3" by (blast intro: tree_step_trans)
  note xy = child_younger [OF assms(2,3)]
  have "child_of w3 x i y" using child_of_below [OF _ xy assms(3), of r w3] t by (simp add: tree_step_def)
  from release_step [OF step_trees(1) [OF t] this r] step_younger [OF t xy] show ?thesis by (blast intro: class_step_trans)
qed

subsubsection \<open>Polling\<close>

lemma enum_child_step: "enum_child env y n w = Some (fin, w') \<Longrightarrow> tree_ok w \<Longrightarrow> tree_step r y w w'"
proof (induction n arbitrary: w)
  case 0
  then show ?case by (auto intro: class_tree class_step_refl)
next
  case (Suc n)
  from Suc.prems obtain h where h: "hs w y = Some h" by (auto simp: bind_eq_Some_conv)
  show ?case
  proof (cases "gState h = HOST_CLASS")
    case True
    with Suc.prems h show ?thesis by (auto intro: class_tree class_step_refl)
  next
    case False
    with Suc.prems h obtain s w1 where p: "USBH_Process env y w = Some (s, w1)"
      and r: "w' = w1 \<or> (\<exists>w2. tick env w1 = Some w2 \<and> enum_child env y n w2 = Some (fin, w'))"
      by (auto simp: bind_eq_Some_conv split: if_splits)
    have t: "tree_step r y w w1" using process_edge [OF p h Suc.prems(2)] by (simp add: machine_step_def)
    from r show ?thesis
    proof (elim disjE exE conjE)
      fix w2 assume 2: "tick env w1 = Some w2" "enum_child env y n w2 = Some (fin, w')"
      have k: "class_step r y w1 w2" using tick_keeps [OF 2(1)] step_trees(1) [OF t] by (rule class_step_keeps)
      from Suc.IH [OF 2(2) step_trees(2) [OF k]] t class_tree [OF k] show ?thesis by (blast intro: tree_step_trans)
    qed (simp add: t)
  qed
qed

lemma port_connected_step:
  assumes "port_connected env x port w = Some (nx, w')" "tree_ok w"
  shows "class_step r x w w'"
proof -
  from assms(1) consider (same) "keeps r w w'"
    | (scan) w0 y w1 fin w2 where "keeps r w w0" "new_child x w0 = Some (y, w1)" "enum_child env y 5000 w1 = Some (fin, w2)"
      "set_child x (unat port - 1) (Some y) w2 = Some w' \<or> keeps r w2 w'"
    by (auto simp: port_connected_def bind_eq_Some_conv Let_def split: if_splits option.splits prod.splits
        dest!: reset_port_keeps shape_take [THEN shape_keeps [where r = r]])
  then show ?thesis
  proof cases
    case same
    then show ?thesis using assms(2) by (rule class_step_keeps)
  next
    case scan
    have "tree_ok w0" using scan(1) assms(2) by (rule tree_ok_keeps)
    from fresh_child [OF this scan(2)] obtain c h1 where f: "tree_ok w1" "below r y w0 w1" "x < y" "hs w1 y = Some c"
      "parent c = Some x" "\<And>j. \<not> child_of w1 x j y"
      and h1: "hs w1 x = Some h1" by blast
    note t = enum_child_step [OF scan(3) f(1)]
    have c0: "class_step r x w w2"
    proof -
      have "below r y w0 w2" using f(2) t by (auto simp: tree_step_def intro: below_trans)
      then have "class_step r x w0 w2" using f(3) step_trees(1) [OF t] below_mono [of r y w0 w2 x]
        by (fastforce simp: class_step_def below_def same_place_def)
      then show ?thesis using scan(1) assms(2) by (rule step_before)
    qed
    from scan(4) show ?thesis
    proof
      assume s: "set_child x (unat port - 1) (Some y) w2 = Some w'"
      obtain c2 where c2: "hs w2 y = Some c2" "parent c2 = Some x" using t f(4,5) by (auto simp: tree_step_def)
      have "\<not> child_of w2 x j y" for j
      proof
        assume a: "child_of w2 x j y"
        from not_child_of_below [OF _ f(3) h1 a] t f(6) show False by (auto simp: tree_step_def)
      qed
      from adopt_step [OF step_trees(1) [OF t] f(3) c2 this s] c0 show ?thesis by (blast intro: class_step_trans)
    qed (use c0 in \<open>blast intro: step_after\<close>)
  qed
qed

end

lemma hub_scan_wait_node: "hub_scan_wait u h b = Some (s, h', b') \<Longrightarrow> node h' = node h"
  by (auto simp: hub_scan_wait_def bind_eq_Some_conv split: if_splits)

lemma hub_clr_feature_node: "hub_clr_feature u h b = Some (s, h', b') \<Longrightarrow> node h' = node h"
  by (auto simp: hub_clr_feature_def bind_eq_Some_conv split: if_splits dest!: request_frames mod_hub_node)
    (auto intro: req_frame_node)

context host_callbacks
begin

lemma port_disconnected_step:
  assumes "port_disconnected env x port w = Some (nx, w')" "tree_ok w"
  shows "class_step r x w w'"
proof -
  from assms(1) consider "w' = w" | y where "child_of w x (unat port - 1) y" "unplug_child env x (unat port - 1) y w = Some w'"
    by (auto simp: port_disconnected_def child_slot_def child_of_def bind_eq_Some_conv rd_eq_Some_iff
        split: option.splits if_splits)
  then show ?thesis using assms(2) unplug_child_step class_step_refl by cases blast+
qed

lemma scan_port_step:
  assumes "scan_port env x port w = Some (nx, w')" "tree_ok w"
  shows "class_step r x w w'"
proof -
  from assms(1) obtain s w1 where 1: "USBH_HUB_GetPortStatus env x port 4 w = Some (s, w1)"
    and r: "w' = w1 \<or> (\<exists>w2. clear_changes env x port change_features w1 = Some w2 \<and>
      (port_connected env x port w2 = Some (nx, w') \<or> port_disconnected env x port w2 = Some (nx, w')))"
    by (auto simp: scan_port_def bind_eq_Some_conv split: if_splits)
  note s1 = port_requests_keep(1) [OF 1]
  note c1 = class_step_keeps [OF s1 assms(2), of x]
  from r show ?thesis
  proof (elim disjE exE conjE)
    fix w2 assume "clear_changes env x port change_features w1 = Some w2"
    from s1 clear_changes_keep [OF this] have s2: "keeps r w w2" by (rule keeps_trans)
    then have t2: "tree_ok w2" using assms(2) by (rule tree_ok_keeps)
    show "port_connected env x port w2 = Some (nx, w') \<Longrightarrow> ?thesis" "port_disconnected env x port w2 = Some (nx, w') \<Longrightarrow> ?thesis"
      using port_connected_step port_disconnected_step t2 s2 assms(2) by (blast intro: step_before)+
  qed (simp add: c1)
qed

lemma scan_ports_step:
  assumes "scan_ports env x port marks w = Some w'" "tree_ok w"
  shows "class_step r x w w'"
proof -
  have "e = env \<longrightarrow> tree_ok v \<longrightarrow> class_step r y v v'" if "scan_ports e y p m v = Some v'" for e y p m v v'
  proof (rule scan_ports_induct [OF _ that])
    fix scan :: "usb_env \<Rightarrow> hid \<Rightarrow> u8 \<Rightarrow> u8 \<Rightarrow> world \<Rightarrow> world option" and e y p m v v'
    assume ih: "\<And>e y p m v v'. scan e y p m v = Some v' \<Longrightarrow> e = env \<longrightarrow> tree_ok v \<longrightarrow> class_step r y v v'"
      and m: "(if m = 0 then Some v else if m AND 1 = 0 then scan e y (p + 1) (drop_bit 1 m) v
       else do {
         (next, w) \<leftarrow> scan_port e y p v;
         (if next then scan e y (p + 1) (drop_bit 1 m) w else scan e y p m w)
       }) = Some v'"
    show "e = env \<longrightarrow> tree_ok v \<longrightarrow> class_step r y v v'"
    proof (intro impI)
      assume e: "e = env" and t: "tree_ok v"
      consider "m = 0" | "m \<noteq> 0" "m AND 1 = 0" | "m \<noteq> 0" "m AND 1 \<noteq> 0" by blast
      then show "class_step r y v v'"
      proof cases
        case 3
        from m [unfolded if_not_P [OF 3(1)] if_not_P [OF 3(2)]] obtain nx v1 where v1: "scan_port e y p v = Some (nx, v1)"
          and r1: "(if nx then scan e y (p + 1) (drop_bit 1 m) v1 else scan e y p m v1) = Some v'" by (auto simp: bind_eq_Some_conv)
        note c = scan_port_step [OF v1 [unfolded e] t]
        have "class_step r y v1 v'" using r1 ih e step_trees(2) [OF c] by (cases nx) auto
        with c show ?thesis by (rule class_step_trans)
      qed (use m ih e t class_step_refl in auto)
    qed
  qed
  with assms show ?thesis by blast
qed

lemma hub_enum_ports_step:
  assumes "hub_enum_ports env x w = Some w'" "tree_ok w"
  shows "class_step r x w w'"
proof -
  from assms(1) obtain h0 u w1 h h' where 1: "hs w x = Some h0" "get_hub h0 = Some u"
    "scan_ports env x 0 (port_state u) w = Some w1" "hs w1 x = Some h"
    "mod_hub (\<lambda>u. u\<lparr>hub_ctl_state := HUB_REQ_SCAN_PORT\<rparr>) h = Some h'" "post USBH_PORT_EVENT (put_host x h' w1) = w'"
    unfolding hub_enum_ports_def bind_eq_Some_conv option.inject by blast
  have "shape w' = shape w1" unfolding 1(6) [symmetric] shape_frame by (rule shape_put [OF 1(4) mod_hub_node [OF 1(5)]])
  with scan_ports_step [OF 1(3) assms(2)] show ?thesis by (blast intro: step_after shape_keeps)
qed

lemma HUB_Process_step:
  assumes "USBH_HUB_Process env x w = Some (s, w')" "tree_ok w"
  shows "class_step r x w w'"
proof -
  from assms(1) obtain h where h: "hs w x = Some h" by (auto simp: USBH_HUB_Process_def bind_eq_Some_conv)
  consider (same) "w' = w" | (wait) u s where "on_host x (hub_scan_wait u) w = Some (s, w')"
    | (clr) u s w1 where "on_host x (hub_clr_feature u) w = Some (s, w1)" "hub_enum_ports env x w1 = Some w'"
    | (enum) "hub_enum_ports env x w = Some w'"
  proof (cases "pActiveClass h = None \<or> rd (pClassData h) 0 = Some None")
    case True
    then have "w' = w" using assms(1) h by (auto simp: USBH_HUB_Process_def bind_eq_Some_conv)
    then show thesis by (rule that(1))
  next
    case False
    with assms(1) h obtain u where u: "(case hub_ctl_state u of
               HUB_REQ_SCAN_PORT_WAIT \<Rightarrow> map_option snd (on_host x (hub_scan_wait u) w)
             | HUB_REQ_CLR_FEATURE \<Rightarrow> do {
                 (_, w) \<leftarrow> on_host x (hub_clr_feature u) w;
                 hub_enum_ports env x w
               }
             | HUB_REQ_ENUM_PORT \<Rightarrow> hub_enum_ports env x w
             | _ \<Rightarrow> Some w) = Some w'" by (auto simp: USBH_HUB_Process_def bind_eq_Some_conv)
    show thesis using u that by (cases "hub_ctl_state u") (auto simp: bind_eq_Some_conv)
  qed
  then show ?thesis
  proof cases
    case same
    with assms(2) show ?thesis by (simp add: class_step_refl)
  next
    case wait
    from shape_on [OF this hub_scan_wait_node] assms(2) show ?thesis by (rule class_step_shape)
  next
    case clr
    have s: "shape w1 = shape w" using clr(1) by (rule shape_on) (rule hub_clr_feature_node)
    then have "tree_ok w1" using assms(2) tree_ok_shape by blast
    from hub_enum_ports_step [OF clr(2) this] shape_keeps [OF s] assms(2) show ?thesis by (rule step_before)
  next
    case enum
    then show ?thesis using assms(2) by (rule hub_enum_ports_step)
  qed
qed

text \<open>The host thread: the root, then all handles below it.\<close>

lemma children_process_step:
  "USBH_Children_Process_OS env d x w = Some w' \<Longrightarrow> tree_ok w \<Longrightarrow> class_step r x w w'"
proof (induction d arbitrary: x w w')
  case (Suc d)
  show ?case
  proof (rule each_child_step [OF _ Suc.prems(2)])
    show "each_child (\<lambda>y w. do {
         (_, w) \<leftarrow> USBH_Process env y w;
         USBH_Children_Process_OS env d y w
       }) x USBH_MAX_NUM_CHILD w = Some w'" using Suc.prems(1) by simp
    fix i y v v'
    assume v: "tree_ok v" "child_of v x i y" "do {
         (_, w) \<leftarrow> USBH_Process env y v;
         USBH_Children_Process_OS env d y w
       } = Some v'"
    then obtain s v1 where p: "USBH_Process env y v = Some (s, v1)" "USBH_Children_Process_OS env d y v1 = Some v'"
      by (auto simp: bind_eq_Some_conv)
    obtain h where "hs v y = Some h" using child_live [OF v(1,2)] by blast
    from process_edge [OF p(1) this v(1)] have t: "tree_step r y v v1" by (simp add: machine_step_def)
    from tree_step_trans [OF t class_tree [OF Suc.IH [OF p(2) step_trees(1) [OF t]]]] child_younger [OF v(1,2)]
    show "class_step r x v v'" by (rule step_younger)
  qed
qed simp

lemma thread_round_step:
  assumes "USBH_Process_OS env d x w = Some (Some w')" "tree_ok w"
  shows "tree_step r x w w'"
proof -
  from assms(1) obtain q s w1 where p: "USBH_Process env x (mod_bus (\<lambda>b. b\<lparr>os_event := q\<rparr>) w) = Some (s, w1)"
    and c: "USBH_Children_Process_OS env d x w1 = Some w'"
    by (auto simp: USBH_Process_OS_def bind_eq_Some_conv Let_def split: option.splits prod.splits)
  have k: "class_step r x w (mod_bus (\<lambda>b. b\<lparr>os_event := q\<rparr>) w)" using assms(2) by (intro class_step_shape) simp_all
  from p obtain h where h: "hs (mod_bus (\<lambda>b. b\<lparr>os_event := q\<rparr>) w) x = Some h"
    by (auto simp: USBH_Process_def mask_hprt_def bind_eq_Some_conv)
  from process_edge [OF p h step_trees(2) [OF k]] have t: "tree_step r x (mod_bus (\<lambda>b. b\<lparr>os_event := q\<rparr>) w) w1"
    by (simp add: machine_step_def)
  from class_tree [OF k] t class_tree [OF children_process_step [OF c step_trees(1) [OF t]]] show ?thesis
    by (blast intro: tree_step_trans)
qed

end

end
