(* ===== verification/BulkSender.thy ===== *)
theory BulkSender
  imports Core
begin

text \<open>
  Sending a buffer packet by packet over a bulk pipe, as the modem driver and the serial converter's
  driver do it: one poll submits the packet, later polls wait for the controller, then the next packet
  goes out. \<open>packet_sender\<close> is what one poll of such a driver promises of the packets it still has to
  send; that a run of polls sends them all, each once and in order, is proved from it once.
\<close>

subsection \<open>The packets of a buffer\<close>

text \<open>
  Packets of \<open>m\<close> bytes as long as more than \<open>m\<close> are left, then the rest; \<open>z\<close> says whether an empty
  packet follows.
\<close>

function pkts :: "nat \<Rightarrow> bool \<Rightarrow> buf_ptr \<Rightarrow> nat \<Rightarrow> (buf_ptr \<times> nat) list" where
  "pkts m z p n =
     (if m < n \<and> 0 < m then (p, m) # pkts m z (buf_add p m) (n - m)
      else (p, n) # (if z then [(p, 0)] else []))"
  by pat_completeness auto
termination
  by (relation "measure (\<lambda>(m, z, p, n). n)") auto

declare pkts.simps [simp del]

text \<open>Every packet but the last is full, and the last one is short: the modem can tell where the
  transmission ends.\<close>

lemma pkts_lengths:
  "0 < m \<Longrightarrow> 0 < n \<Longrightarrow> map snd (pkts m (n mod m = 0) p n) = replicate (n div m) m @ [n mod m]"
proof (induction n arbitrary: p rule: less_induct)
  case (less n)
  show ?case
  proof (cases "m < n")
    case True
    have z: "(n mod m = 0) = ((n - m) mod m = 0)" using True by (simp add: le_mod_geq)
    have d: "n div m = Suc ((n - m) div m)" and md: "n mod m = (n - m) mod m"
      using True less.prems(1) by (simp_all add: le_div_geq le_mod_geq)
    have "map snd (pkts m ((n - m) mod m = 0) (buf_add p m) (n - m)) =
       replicate ((n - m) div m) m @ [(n - m) mod m]"
      using True less.prems by (intro less.IH) simp_all
    with True less.prems(1) z d md show ?thesis by (simp add: pkts.simps [of m _ p n])
  next
    case False
    show ?thesis
    proof (cases "n = m")
      case True
      with less.prems show ?thesis by (simp add: pkts.simps [of m _ p m])
    next
      case f2: False
      with False less.prems show ?thesis by (simp add: pkts.simps [of m _ p n])
    qed
  qed
qed

text \<open>Without the empty packet the last one is full when the length is a multiple.\<close>

lemma pkts_lengths_plain:
  "0 < m \<Longrightarrow> 0 < n \<Longrightarrow>
     map snd (pkts m False p n) = replicate (n div m) m @ (if n mod m = 0 then [] else [n mod m])"
proof (induction n arbitrary: p rule: less_induct)
  case (less n)
  show ?case
  proof (cases "m < n")
    case True
    have "map snd (pkts m False (buf_add p m) (n - m)) =
       replicate ((n - m) div m) m @ (if (n - m) mod m = 0 then [] else [(n - m) mod m])"
      using True less.prems by (intro less.IH) simp_all
    moreover have "n div m = Suc ((n - m) div m)" "n mod m = (n - m) mod m"
      using True less.prems(1) by (simp_all add: le_div_geq le_mod_geq)
    ultimately show ?thesis using True less.prems(1) by (simp add: pkts.simps [of m _ p n])
  next
    case False
    with less.prems show ?thesis by (cases "n = m") (simp_all add: pkts.simps [of m _ p n] pkts.simps [of m _ p m])
  qed
qed

text \<open>The packets are consecutive pieces of the buffer.\<close>

lemma pkts_starts:
  "0 < m \<Longrightarrow> i * m < n \<Longrightarrow> i < length (pkts m z p n) \<and> fst (pkts m z p n ! i) = buf_at p (i * m)"
proof (induction n arbitrary: p i rule: less_induct)
  case (less n)
  show ?case
  proof (cases i)
    case 0
    then show ?thesis by (simp add: pkts.simps [of m z p n] buf_at_def)
  next
    case (Suc j)
    with less.prems have mn: "m < n" "j * m < n - m"
      by (simp_all add: less_diff_conv add.commute)
    have "j < length (pkts m z (buf_add p m) (n - m)) \<and>
       fst (pkts m z (buf_add p m) (n - m) ! j) = buf_at (buf_add p m) (j * m)"
      using mn less.prems(1) by (intro less.IH) simp_all
    with mn less.prems(1) Suc show ?thesis by (simp add: pkts.simps [of m z p n] buf_at_add)
  qed
qed

definition pkt_view :: "u8 \<Rightarrow> buf_ptr \<times> nat \<Rightarrow> u8 \<times> u8 \<times> bool \<times> buf_ptr \<times> u32" where
  "pkt_view ch q = (ch, 0, False, fst q, of_nat (snd q))"

text \<open>The size of the next packet: what the C comparison of a 32-bit length with a 16-bit size picks.\<close>

definition packet_len :: "u16 \<Rightarrow> u32 \<Rightarrow> nat" where
  "packet_len m n = (if unat m < unat n then unat m else unat n)"

lemma full_iff: "(n > ucast (m :: u16)) = (unat m < unat (n :: u32))"
  by (simp add: word_less_nat_alt)

lemma packet_len_word: "ucast (if n > ucast m then m else ucast n :: u16) = (of_nat (packet_len m n) :: u32)"
proof (cases "unat m < unat n")
  case True
  then show ?thesis unfolding full_iff by (simp add: packet_len_def)
next
  case False
  then have "unat n < 2 ^ 16" using unsigned_less [of m, where 'a = nat] by simp
  then have "ucast (ucast n :: u16) = n"
    by (subst word_unat_eq_iff) (simp add: unsigned_ucast_eq unsigned_take_bit_eq take_bit_nat_eq_self)
  with False show ?thesis unfolding full_iff by (simp add: packet_len_def)
qed

lemma pkts_Cons: "m \<noteq> 0 \<Longrightarrow> pkts (unat m) z p (unat n) = (p, packet_len m n) # tl (pkts (unat m) z p (unat n))"
  by (subst (1 2) pkts.simps) (simp add: packet_len_def unat_gt_0)

lemma pkts_more:
  fixes m :: u16 and n :: u32
  assumes "m \<noteq> 0" "unat m < unat n"
  shows "unat (n - ucast m) = unat n - unat m" "0 < n - ucast m"
    "tl (pkts (unat m) z p (unat n)) = pkts (unat m) z (buf_add p (unat m)) (unat (n - ucast m))"
proof -
  show u: "unat (n - ucast m) = unat n - unat m"
    using assms(2) by (subst unat_sub) (simp_all add: word_le_nat_alt)
  then show "0 < n - ucast m" using assms(2) by (simp add: word_less_nat_alt)
  show "tl (pkts (unat m) z p (unat n)) = pkts (unat m) z (buf_add p (unat m)) (unat (n - ucast m))"
    using assms u by (subst pkts.simps) (simp add: unat_gt_0)
qed

lemma pkts_last: "\<not> unat m < n \<Longrightarrow> tl (pkts (unat m) z p n) = (if z then [(p, 0)] else [])"
  by (subst pkts.simps) simp

subsection \<open>A driver that sends packets\<close>

datatype tx_phase = Tx_idle | Tx_send | Tx_wait

text \<open>The phase, the pipe and the packets that are not yet acknowledged.\<close>

type_synonym tx_view = "tx_phase \<times> u8 \<times> (buf_ptr \<times> nat) list"

locale packet_sender =
  fixes step :: "host \<Rightarrow> bus \<Rightarrow> (host \<times> bus) option" and view :: "host \<Rightarrow> tx_view option"
  assumes step_send: "\<lbrakk>view h = Some (Tx_send, p, q # qs); pData h; unat p < length (hc b)\<rbrakk> \<Longrightarrow>
      \<exists>h' b'. step h b = Some (h', b') \<and> view h' = Some (Tx_wait, p, q # qs) \<and> pData h' \<and>
        xfers b' = xfers b @ [pkt_view p q] \<and> urb_state (hc b' ! unat p) = USBH_URB_IDLE \<and>
        length (hc b') = length (hc b)"
    and step_wait: "\<lbrakk>view h = Some (Tx_wait, p, q # qs); pData h; unat p < length (hc b);
      urb_state (hc b ! unat p) = USBH_URB_IDLE\<rbrakk> \<Longrightarrow> step h b = Some (h, b)"
    and step_done: "\<lbrakk>view h = Some (Tx_wait, p, q # qs); pData h; unat p < length (hc b);
      urb_state (hc b ! unat p) = USBH_URB_DONE\<rbrakk> \<Longrightarrow>
      \<exists>h'. step h b = Some (h', os_put USBH_CLASS_EVENT b) \<and> pData h' \<and>
        view h' = Some (if qs = [] then Tx_idle else Tx_send, p, qs)"
    and step_nak: "\<lbrakk>view h = Some (Tx_wait, p, q # qs); pData h; unat p < length (hc b);
      urb_state (hc b ! unat p) = USBH_URB_NOTREADY\<rbrakk> \<Longrightarrow>
      \<exists>h'. step h b = Some (h', os_put USBH_CLASS_EVENT b) \<and> pData h' \<and> view h' = Some (Tx_send, p, q # qs)"
    and step_idle: "view h = Some (Tx_idle, p, qs) \<Longrightarrow> step h b = Some (h, b)"

text \<open>
  Repeated polls; the tape says before which of them the controller has news, and whether the packet
  was taken (\<open>True\<close>) or is to be sent again.
\<close>

definition nak :: "bus \<Rightarrow> bus" where
  "nak b = b\<lparr>hc := map (\<lambda>c. c\<lparr>urb_state := USBH_URB_NOTREADY\<rparr>) (hc b)\<rparr>"

fun news :: "bool option \<Rightarrow> bus \<Rightarrow> bus" where
  "news None b = b"
| "news (Some True) b = ack b"
| "news (Some False) b = nak b"

fun poll_news :: "(host \<Rightarrow> bus \<Rightarrow> (host \<times> bus) option) \<Rightarrow> bool option list \<Rightarrow> host \<Rightarrow> bus \<Rightarrow> (host \<times> bus) option" where
  "poll_news step [] h b = Some (h, b)"
| "poll_news step (a # tape) h b = do {
     (h, b) \<leftarrow> step h (news a b);
     poll_news step tape h b
   }"

lemma news_simps [simp]:
  "length (hc (news a b)) = length (hc b)" "xfers (news a b) = xfers b"
  "i < length (hc b) \<Longrightarrow> urb_state (hc (news a b) ! i) =
     (case a of None \<Rightarrow> urb_state (hc b ! i) | Some t \<Rightarrow> if t then USBH_URB_DONE else USBH_URB_NOTREADY)"
  by (cases a; cases "the a"; simp add: nak_def xfers_def)+

text \<open>The packets that go out when packet \<open>i\<close> is refused \<open>ks ! i\<close> times; \<open>w\<close>: the first is on its way.\<close>

definition repeats :: "bool \<Rightarrow> nat list \<Rightarrow> 'a list \<Rightarrow> 'a list" where
  "repeats w ks qs = (if w then tl else id) (concat (map2 (\<lambda>k q. replicate (Suc k) q) ks qs))"

lemma repeats_simps [simp]:
  "repeats w [] [] = []" "repeats w (Suc k # ks) (q # qs) = (if w then repeats False (k # ks) (q # qs) else q # repeats False (k # ks) (q # qs))"
  "repeats True (0 # ks) (q # qs) = repeats False ks qs" "repeats False (k # ks) (q # qs) = q # repeats True (k # ks) (q # qs)"
  by (simp_all add: repeats_def)

lemma repeats_none: "length ks = length qs \<Longrightarrow> sum_list ks = 0 \<Longrightarrow> repeats False ks qs = qs"
proof (induction ks qs rule: list_induct2)
  case (Cons k ks q qs)
  then show ?case by simp
qed simp

context packet_sender
begin

definition polled :: "bool \<Rightarrow> u8 \<Rightarrow> (buf_ptr \<times> nat) list \<Rightarrow> host \<Rightarrow> bus \<Rightarrow> bool" where
  "polled w p qs h b \<longleftrightarrow> view h = Some (if qs = [] then Tx_idle else if w then Tx_wait else Tx_send, p, qs) \<and>
     pData h \<and> unat p < length (hc b) \<and> (w \<and> qs \<noteq> [] \<longrightarrow> urb_state (hc b ! unat p) = USBH_URB_IDLE)"

lemma polled_send:
  assumes "polled False p (q # qs) h b"
  shows "\<exists>h' b'. step h (news a b) = Some (h', b') \<and> polled True p (q # qs) h' b' \<and> xfers b' = xfers b @ [pkt_view p q]"
  using assms step_send [of h p q qs "news a b"] by (fastforce simp: polled_def)

lemma polled_wait:
  assumes "polled True p (q # qs) h b"
  shows "step h (news None b) = Some (h, b)"
    "\<exists>h' b'. step h (news (Some True) b) = Some (h', b') \<and> polled False p qs h' b' \<and> xfers b' = xfers b"
    "\<exists>h' b'. step h (news (Some False) b) = Some (h', b') \<and> polled False p (q # qs) h' b' \<and> xfers b' = xfers b"
proof -
  show "step h (news None b) = Some (h, b)" using assms by (simp add: polled_def step_wait)
  have x: "xfers (os_put USBH_CLASS_EVENT c) = xfers c" for c by (simp add: xfers_def)
  show "\<exists>h' b'. step h (news (Some True) b) = Some (h', b') \<and> polled False p qs h' b' \<and> xfers b' = xfers b"
    using assms step_done [of h p q qs "news (Some True) b"] news_simps(3) [of "unat p" b "Some True"]
    by (auto simp: polled_def x simp del: news.simps)
  show "\<exists>h' b'. step h (news (Some False) b) = Some (h', b') \<and> polled False p (q # qs) h' b' \<and> xfers b' = xfers b"
    using assms step_nak [of h p q qs "news (Some False) b"] news_simps(3) [of "unat p" b "Some False"]
    by (auto simp: polled_def x simp del: news.simps)
qed

text \<open>Enough polls with the packet taken, two per packet and one for each refusal, send everything.\<close>

lemma poll_all:
  "\<lbrakk>polled w p qs h b; 2 * length qs + count_list tape (Some False) \<le> count_list tape (Some True) + of_bool w\<rbrakk> \<Longrightarrow>
   \<exists>h' b' ks. poll_news step tape h b = Some (h', b') \<and> view h' = Some (Tx_idle, p, []) \<and> length ks = length qs \<and>
     sum_list ks \<le> count_list tape (Some False) \<and> xfers b' = xfers b @ map (pkt_view p) (repeats w ks qs)"
proof (induction tape arbitrary: w qs h b)
  case Nil
  then have "qs = []" by (cases qs) (auto simp: of_bool_def split: if_splits)
  with Nil.prems(1) show ?case by (auto simp: polled_def intro!: exI [of _ "[]"])
next
  case (Cons a tape)
  show ?case
  proof (cases qs)
    case Nil
    with Cons.prems(1) have r: "step h (news a b) = Some (h, news a b)" by (simp add: polled_def step_idle)
    have "\<exists>h' b'. poll_news step t h c = Some (h', b') \<and> view h' = Some (Tx_idle, p, []) \<and> xfers b' = xfers c" for t c
    proof (induction t arbitrary: c)
      case Nil
      then show ?case using Cons.prems(1) \<open>qs = []\<close> by (simp add: polled_def)
    next
      case (Cons a t)
      have "step h (news a c) = Some (h, news a c)"
        using Cons.prems \<open>polled w p qs h b\<close> \<open>qs = []\<close> by (simp add: polled_def step_idle)
      with Cons.IH [of "news a c"] show ?case by simp
    qed
    from this [of tape "news a b"] r Nil show ?thesis by (auto intro!: exI [of _ "[]"])
  next
    case q: (Cons q rest)
    show ?thesis
    proof (cases w)
      case False
      from polled_send [of p q rest h b a] Cons.prems(1) q False obtain h1 b1
        where 1: "step h (news a b) = Some (h1, b1)" "polled True p (q # rest) h1 b1" "xfers b1 = xfers b @ [pkt_view p q]" by auto
      have "2 * length (q # rest) + count_list tape (Some False) \<le> count_list tape (Some True) + of_bool True"
        using Cons.prems(2) q False by (cases a) (auto split: if_splits)
      from Cons.IH [OF 1(2) this] obtain h' b' ks where 2: "poll_news step tape h1 b1 = Some (h', b')"
        "view h' = Some (Tx_idle, p, [])" "length ks = length (q # rest)" "sum_list ks \<le> count_list tape (Some False)"
        "xfers b' = xfers b1 @ map (pkt_view p) (repeats True ks (q # rest))" by blast
      then show ?thesis using 1(1,3) q False
        by (intro exI [of _ h'] exI [of _ b'] exI [of _ ks]) (cases ks, auto)
    next
      case True
      note wt = polled_wait [of p q rest h b]
      consider (none) "a = None" | (taken) "a = Some True" | (refused) "a = Some False" by (cases a) auto
      then show ?thesis
      proof cases
        case none
        with Cons.IH [OF Cons.prems(1)] Cons.prems True q wt(1) show ?thesis by auto
      next
        case taken
        from wt(2) Cons.prems(1) True q obtain h1 b1 where 1: "step h (news a b) = Some (h1, b1)"
          "polled False p rest h1 b1" "xfers b1 = xfers b" unfolding taken by auto
        have "2 * length rest + count_list tape (Some False) \<le> count_list tape (Some True) + of_bool False"
          using Cons.prems(2) q True taken by simp
        from Cons.IH [OF 1(2) this] obtain h' b' ks where 2: "poll_news step tape h1 b1 = Some (h', b')"
          "view h' = Some (Tx_idle, p, [])" "length ks = length rest" "sum_list ks \<le> count_list tape (Some False)"
          "xfers b' = xfers b1 @ map (pkt_view p) (repeats False ks rest)" by blast
        then show ?thesis using 1(1,3) q True taken
          by (intro exI [of _ h'] exI [of _ b'] exI [of _ "0 # ks"]) simp
      next
        case refused
        from wt(3) Cons.prems(1) True q obtain h1 b1 where 1: "step h (news a b) = Some (h1, b1)"
          "polled False p (q # rest) h1 b1" "xfers b1 = xfers b" unfolding refused by auto
        have "2 * length (q # rest) + count_list tape (Some False) \<le> count_list tape (Some True) + of_bool False"
          using Cons.prems(2) q True refused by simp
        from Cons.IH [OF 1(2) this] obtain h' b' ks where 2: "poll_news step tape h1 b1 = Some (h', b')"
          "view h' = Some (Tx_idle, p, [])" "length ks = length (q # rest)" "sum_list ks \<le> count_list tape (Some False)"
          "xfers b' = xfers b1 @ map (pkt_view p) (repeats False ks (q # rest))" by blast
        then obtain k ks' where "ks = k # ks'" by (cases ks) auto
        with 1(1,3) 2 q True refused show ?thesis
          by (intro exI [of _ h'] exI [of _ b'] exI [of _ "Suc k # ks'"]) simp
      qed
    qed
  qed
qed

end

end
