(* ===== verification/Ec20.thy ===== *)
theory Ec20
  imports BulkSender
begin

text \<open>
  The class driver of the Quectel EC20 modem, \<^verbatim>\<open>Class/EC20/Src/usbh_ec20.c\<close>. Its state is the
  \<open>EC20_HandleTypeDef\<close> that slot 0 of the handle's \<^verbatim>\<open>pClassData\<close> points to; following the slot when
  it is null is a fault. Two machines run in \<open>USBH_EC20_Process\<close>: one cuts the data to send into
  packets, one takes what the modem sends. \<open>USBH_EC20_ReceiveCallback\<close> is defined by the
  application (\<^verbatim>\<open>User/app_ec20.c\<close>) and is an argument here.
\<close>

abbreviation USB_EP_TYPE_BULK :: u8 where "USB_EP_TYPE_BULK \<equiv> 2"

definition get_ec20 :: "host \<Rightarrow> EC20_HandleTypeDef option" where
  "get_ec20 h = (case rd (pClassData h) 0 of Some (Some (EC20_data e)) \<Rightarrow> Some e | _ \<Rightarrow> None)"

definition put_ec20 :: "EC20_HandleTypeDef \<Rightarrow> host \<Rightarrow> host" where
  "put_ec20 e h = h\<lparr>pClassData := (pClassData h)[0 := Some (EC20_data e)]\<rparr>"

subsection \<open>Binding and releasing the interface\<close>

definition take_notif :: "USBH_EpDescTypeDef \<Rightarrow> EC20_HandleTypeDef \<Rightarrow> EC20_HandleTypeDef" where
  "take_notif ep e =
     (if bEndpointAddress ep AND 0x80 \<noteq> 0
      then e\<lparr>ec_NotifEp := bEndpointAddress ep, ec_NotifEpSize := wMaxPacketSize ep\<rparr> else e)"

definition take_data_ep :: "USBH_EpDescTypeDef \<Rightarrow> EC20_HandleTypeDef \<Rightarrow> EC20_HandleTypeDef" where
  "take_data_ep ep e =
     (if bEndpointAddress ep AND 0x80 \<noteq> 0
      then e\<lparr>InEp := bEndpointAddress ep, InEpSize := wMaxPacketSize ep\<rparr>
      else e\<lparr>OutEp := bEndpointAddress ep, OutEpSize := wMaxPacketSize ep\<rparr>)"

definition ec20_endpoints :: "host \<Rightarrow> EC20_HandleTypeDef option" where
  "ec20_endpoints h = do {
     itf \<leftarrow> rd (Itf_Desc (CfgDesc (device h))) 2;
     ep0 \<leftarrow> rd (Ep_Desc itf) 0;
     ep1 \<leftarrow> rd (Ep_Desc itf) 1;
     ep2 \<leftarrow> rd (Ep_Desc itf) 2;
     Some (take_data_ep ep2 (take_data_ep ep1 (take_notif ep0 zero_ec20)))
   }"

definition ec20_open :: "host \<Rightarrow> bus \<Rightarrow> call" where
  "ec20_open h b = do {
     e \<leftarrow> ec20_endpoints h;
     (po, b) \<leftarrow> USBH_AllocPipe b (OutEp e);
     (pi, b) \<leftarrow> USBH_AllocPipe b (InEp e);
     let e = e\<lparr>OutPipe := po, InPipe := pi\<rparr>;
     (_, b) \<leftarrow> USBH_OpenPipe h b po (OutEp e) (dev_address (device h)) (speed (device h))
                 USB_EP_TYPE_BULK (OutEpSize e);
     (_, b) \<leftarrow> USBH_OpenPipe h b pi (InEp e) (dev_address (device h)) (speed (device h))
                 USB_EP_TYPE_BULK (InEpSize e);
     let e = e\<lparr>ec_state := EC20_IDLE_STATE, data_tx_state := EC20_IDLE, data_rx_state := EC20_IDLE\<rparr>;
     (_, b) \<leftarrow> USBH_LL_SetToggle b po 0;
     (_, b) \<leftarrow> USBH_LL_SetToggle b pi 0;
     Some (USBH_OK, put_ec20 e h, b)
   }"

definition USBH_EC20_InterfaceInit :: "hid \<Rightarrow> world \<Rightarrow> wcall" where
  "USBH_EC20_InterfaceInit x w = do {
     h \<leftarrow> hs w x;
     (_, h) \<leftarrow> USBH_SelectInterface h 2;
     let (ok, w) = take_malloc w;
     cd \<leftarrow> wr (pClassData h) 0 (if ok then Some (EC20_data zero_ec20) else None);
     let w = put_host x (h\<lparr>pClassData := cd\<rparr>) w;
     (if \<not> ok then Some (USBH_FAIL, w) else on_host x ec20_open w)
   }"

text \<open>Waiting until the application record is gone; only an interrupt or another thread removes it.\<close>

partial_function (option) wait_app :: "usb_env \<Rightarrow> hid \<Rightarrow> world \<Rightarrow> world option" where
  "wait_app env x w = do {
     h \<leftarrow> hs w x;
     (if app_data h = None then Some w
      else do {
        w \<leftarrow> tick env (mod_bus (USBH_Delay 10) w);
        wait_app env x w
      })
   }"

definition release_pipe :: "host \<Rightarrow> u8 \<Rightarrow> bus \<Rightarrow> (u8 \<times> bus) option" where
  "release_pipe h p b =
     (if p \<noteq> 0 \<and> p \<noteq> 0xff then do {
        (_, b) \<leftarrow> USBH_ClosePipe h b p;
        (_, b) \<leftarrow> USBH_FreePipe b p;
        Some (0, b)
      } else Some (p, b))"

definition ec20_close :: "host \<Rightarrow> bus \<Rightarrow> call" where
  "ec20_close h b = do {
     e \<leftarrow> get_ec20 h;
     (p, b) \<leftarrow> release_pipe h (ec_NotifPipe e) b;
     (p, b) \<leftarrow> release_pipe h (InPipe e) b;
     (p, b) \<leftarrow> release_pipe h (OutPipe e) b;
     let h = h\<lparr>pClassData := (pClassData h)[0 := None]\<rparr>;
     (_, h, b) \<leftarrow> USBH_Free_One_Address h b;
     Some (USBH_OK, h, b)
   }"

definition USBH_EC20_InterfaceDeInit :: "usb_env \<Rightarrow> hid \<Rightarrow> world \<Rightarrow> wcall" where
  "USBH_EC20_InterfaceDeInit env x w = do {
     w \<leftarrow> wait_app env x w;
     on_host x ec20_close w
   }"

subsection \<open>Requests from the application\<close>

definition USBH_EC20_GetLastReceivedDataSize :: "host \<Rightarrow> bus \<Rightarrow> u16 option" where
  "USBH_EC20_GetLastReceivedDataSize h b =
     (if gState h = HOST_CLASS then do {
        e \<leftarrow> get_ec20 h;
        n \<leftarrow> USBH_LL_GetLastXferSize h b (InPipe e);
        Some (ucast n)
      } else Some 0)"

definition ec20_ready :: "EC20_HandleTypeDef \<Rightarrow> bool" where
  "ec20_ready e \<longleftrightarrow> ec_state e = EC20_IDLE_STATE \<or> ec_state e = EC20_TRANSFER_DATA"

text \<open>The remainder by a zero packet size is undefined.\<close>

definition USBH_EC20_Transmit :: "host \<Rightarrow> bus \<Rightarrow> buf_ptr \<Rightarrow> u32 \<Rightarrow> call" where
  "USBH_EC20_Transmit h b pbuff len =
     (if pbuff = NULL_buf then Some (USBH_FAIL, h, b)
      else do {
        e \<leftarrow> get_ec20 h;
        (if ec20_ready e \<and> data_tx_state e = EC20_IDLE then
           (if OutEpSize e = 0 then None
            else do {
              let e = e\<lparr>pTxData := pbuff, TxDataLength := len\<rparr>;
              let e = (if len mod ucast (OutEpSize e) = 0 then e\<lparr>tx_zero_packet_flag := 1\<rparr> else e);
              let e = e\<lparr>ec_state := EC20_TRANSFER_DATA, data_tx_state := EC20_SEND_DATA\<rparr>;
              Some (USBH_OK, put_ec20 e h, os_put USBH_CLASS_EVENT b)
            })
         else Some (USBH_BUSY, h, b))
      })"

definition USBH_EC20_Receive :: "host \<Rightarrow> bus \<Rightarrow> buf_ptr \<Rightarrow> u32 \<Rightarrow> call" where
  "USBH_EC20_Receive h b pbuff len =
     (if pbuff = NULL_buf then Some (USBH_FAIL, h, b)
      else do {
        e \<leftarrow> get_ec20 h;
        (if ec20_ready e \<and> data_rx_state e = EC20_IDLE then
           Some (USBH_OK, put_ec20 (e\<lparr>pRxData := pbuff, RxDataLength := len,
             ec_state := EC20_TRANSFER_DATA, data_rx_state := EC20_RECEIVE_DATA\<rparr>) h,
             os_put USBH_CLASS_EVENT b)
         else Some (USBH_BUSY, h, b))
      })"

subsection \<open>The transfer machines\<close>

definition ec20_send :: "EC20_HandleTypeDef \<Rightarrow> host \<Rightarrow> bus \<Rightarrow> (host \<times> bus) option" where
  "ec20_send e h b = do {
     (_, b) \<leftarrow> USBH_BulkSendData h b (pTxData e)
                 (if TxDataLength e > ucast (OutEpSize e) then OutEpSize e else ucast (TxDataLength e))
                 (OutPipe e) 1;
     Some (put_ec20 (e\<lparr>data_tx_state := EC20_SEND_DATA_WAIT\<rparr>) h, b)
   }"

definition ec20_sent :: "EC20_HandleTypeDef \<Rightarrow> EC20_HandleTypeDef" where
  "ec20_sent e =
     (let e = (if TxDataLength e > ucast (OutEpSize e)
               then e\<lparr>TxDataLength := TxDataLength e - ucast (OutEpSize e),
                      pTxData := buf_add (pTxData e) (unat (OutEpSize e))\<rparr>
               else e\<lparr>TxDataLength := 0\<rparr>)
      in if TxDataLength e > 0 then e\<lparr>data_tx_state := EC20_SEND_DATA\<rparr>
         else if tx_zero_packet_flag e = 1
         then e\<lparr>tx_zero_packet_flag := 0, data_tx_state := EC20_SEND_DATA\<rparr>
         else e\<lparr>data_tx_state := EC20_IDLE\<rparr>)"

definition EC20_ProcessTransmission :: "host \<Rightarrow> bus \<Rightarrow> (host \<times> bus) option" where
  "EC20_ProcessTransmission h b = do {
     e \<leftarrow> get_ec20 h;
     (case data_tx_state e of
        EC20_SEND_DATA \<Rightarrow> ec20_send e h b
      | EC20_SEND_DATA_WAIT \<Rightarrow> do {
          u \<leftarrow> USBH_LL_GetURBState h b (OutPipe e);
          Some (if u = USBH_URB_DONE then (put_ec20 (ec20_sent e) h, os_put USBH_CLASS_EVENT b)
                else if u = USBH_URB_NOTREADY
                then (put_ec20 (e\<lparr>data_tx_state := EC20_SEND_DATA\<rparr>) h, os_put USBH_CLASS_EVENT b)
                else (h, b))
        }
      | _ \<Rightarrow> Some (h, b))
   }"

text \<open>
  The length of a received packet is narrowed to 16 bits; \<^verbatim>\<open>RxDataLength - length\<close> wraps in 32.
\<close>

definition EC20_ProcessReception ::
  "(hid \<Rightarrow> world \<Rightarrow> world option) \<Rightarrow> hid \<Rightarrow> world \<Rightarrow> world option" where
  "EC20_ProcessReception callback x w = do {
     h \<leftarrow> hs w x;
     e \<leftarrow> get_ec20 h;
     (case data_rx_state e of
        EC20_RECEIVE_DATA \<Rightarrow> do {
          (_, b) \<leftarrow> USBH_BulkReceiveData h (wb w) (pRxData e) (InEpSize e) (InPipe e);
          Some ((put_host x (put_ec20 (e\<lparr>data_rx_state := EC20_RECEIVE_DATA_WAIT\<rparr>) h) w)\<lparr>wb := b\<rparr>)
        }
      | EC20_RECEIVE_DATA_WAIT \<Rightarrow> do {
          u \<leftarrow> USBH_LL_GetURBState h (wb w) (InPipe e);
          (if u = USBH_URB_DONE then do {
             n \<leftarrow> USBH_LL_GetLastXferSize h (wb w) (InPipe e);
             let len = (ucast n :: u16);
             w \<leftarrow> (if RxDataLength e - ucast len > 0 \<and> len > InEpSize e
                  then Some (put_host x (put_ec20 (e\<lparr>RxDataLength := RxDataLength e - ucast len,
                         pRxData := buf_add (pRxData e) (unat len),
                         data_rx_state := EC20_RECEIVE_DATA\<rparr>) h) w)
                  else callback x (put_host x (put_ec20 (e\<lparr>data_rx_state := EC20_IDLE\<rparr>) h) w));
             Some (post USBH_CLASS_EVENT w)
           }
           else if u = USBH_URB_NOTREADY then Some (post USBH_CLASS_EVENT w)
           else Some w)
        }
      | _ \<Rightarrow> Some w)
   }"

definition USBH_EC20_Process ::
  "(hid \<Rightarrow> world \<Rightarrow> world option) \<Rightarrow> hid \<Rightarrow> world \<Rightarrow> wcall" where
  "USBH_EC20_Process callback x w = do {
     h \<leftarrow> hs w x;
     e \<leftarrow> get_ec20 h;
     (case ec_state e of
        EC20_IDLE_STATE \<Rightarrow> Some (USBH_OK, w)
      | EC20_TRANSFER_DATA \<Rightarrow> do {
          (h, b) \<leftarrow> EC20_ProcessTransmission h (wb w);
          w \<leftarrow> EC20_ProcessReception callback x ((put_host x h w)\<lparr>wb := b\<rparr>);
          Some (USBH_BUSY, w)
        }
      | EC20_ERROR_STATE \<Rightarrow> do {
          (s, h, b) \<leftarrow> USBH_ClrFeature h (wb w) 0;
          e \<leftarrow> get_ec20 h;
          Some (USBH_BUSY, (put_host x (if s = USBH_OK then put_ec20 (e\<lparr>ec_state := EC20_IDLE_STATE\<rparr>) h
                                        else h) w)\<lparr>wb := b\<rparr>)
        }
      | _ \<Rightarrow> Some (USBH_BUSY, w))
   }"

definition USBH_EC20_ClassRequest :: "usb_env \<Rightarrow> hid \<Rightarrow> world \<Rightarrow> wcall" where
  "USBH_EC20_ClassRequest env x w = do {
     h \<leftarrow> hs w x;
     e \<leftarrow> get_ec20 h;
     let h = put_ec20 (e\<lparr>dwDTERate := 115200, bCharFormat := 0, bParityType := 0, bDataBits := 8\<rparr>) h;
     let w = put_host x h w;
     w \<leftarrow> (if pUser h then call_user env x HOST_USER_CLASS_ACTIVE w else Some w);
     Some (USBH_OK, w)
   }"

definition USBH_EC20_SOFProcess :: "hid \<Rightarrow> world \<Rightarrow> wcall" where
  "USBH_EC20_SOFProcess x w = Some (USBH_OK, w)"

subsection \<open>Packets of one transmission\<close>

lemma get_put_ec20 [simp]: "get_ec20 h = Some e0 \<Longrightarrow> get_ec20 (put_ec20 e h) = Some e"
  by (auto simp: get_ec20_def put_ec20_def rd_def split: option.splits if_splits)

lemma put_ec20_simps [simp]:
  "self (put_ec20 e h) = self h" "gState (put_ec20 e h) = gState h" "parent (put_ec20 e h) = parent h"
  "is_child (put_ec20 e h) = is_child h" "device (put_ec20 e h) = device h"
  "Control (put_ec20 e h) = Control h" "pData (put_ec20 e h) = pData h" "pUser (put_ec20 e h) = pUser h"
  "app_data (put_ec20 e h) = app_data h" "put_ec20 e2 (put_ec20 e h) = put_ec20 e2 h"
  "RequestState (put_ec20 e h) = RequestState h" "children (put_ec20 e h) = children h"
  by (simp_all add: put_ec20_def)

definition tx_todo :: "EC20_HandleTypeDef \<Rightarrow> (buf_ptr \<times> nat) list" where
  "tx_todo e = pkts (unat (OutEpSize e)) (tx_zero_packet_flag e = 1) (pTxData e) (unat (TxDataLength e))"

definition ec20_tx :: "host \<Rightarrow> tx_view option" where
  "ec20_tx h = (case get_ec20 h of None \<Rightarrow> None
     | Some e \<Rightarrow> if OutEpSize e = 0 then None else (case data_tx_state e of
         EC20_IDLE \<Rightarrow> Some (Tx_idle, OutPipe e, [])
       | EC20_SEND_DATA \<Rightarrow> Some (Tx_send, OutPipe e, tx_todo e)
       | EC20_SEND_DATA_WAIT \<Rightarrow> Some (Tx_wait, OutPipe e, tx_todo e)
       | _ \<Rightarrow> None))"

lemma ec20_tx_iff:
  "ec20_tx h = Some (Tx_send, p, ps) \<longleftrightarrow> (\<exists>e. get_ec20 h = Some e \<and> OutEpSize e \<noteq> 0 \<and> data_tx_state e = EC20_SEND_DATA \<and>
     p = OutPipe e \<and> ps = tx_todo e)"
  "ec20_tx h = Some (Tx_wait, p, ps) \<longleftrightarrow> (\<exists>e. get_ec20 h = Some e \<and> OutEpSize e \<noteq> 0 \<and> data_tx_state e = EC20_SEND_DATA_WAIT \<and>
     p = OutPipe e \<and> ps = tx_todo e)"
  "ec20_tx h = Some (Tx_idle, p, ps) \<longleftrightarrow> (\<exists>e. get_ec20 h = Some e \<and> OutEpSize e \<noteq> 0 \<and> data_tx_state e = EC20_IDLE \<and>
     p = OutPipe e \<and> ps = [])"
  by (auto simp: ec20_tx_def split: option.splits if_splits EC20_DataStateTypeDef.splits)

text \<open>An acknowledged packet leaves the list.\<close>

lemma ec20_sent_todo:
  assumes "OutEpSize e \<noteq> 0" "tx_todo e = q # qs"
  shows "data_tx_state (ec20_sent e) = (if qs = [] then EC20_IDLE else EC20_SEND_DATA)"
    "qs \<noteq> [] \<Longrightarrow> tx_todo (ec20_sent e) = qs" "OutEpSize (ec20_sent e) = OutEpSize e" "OutPipe (ec20_sent e) = OutPipe e"
proof -
  have "data_tx_state (ec20_sent e) = (if qs = [] then EC20_IDLE else EC20_SEND_DATA) \<and>
      (qs \<noteq> [] \<longrightarrow> tx_todo (ec20_sent e) = qs)"
  proof (cases "unat (OutEpSize e) < unat (TxDataLength e)")
    case True
    note m = pkts_more [OF assms(1) True]
    have s: "ec20_sent e = e\<lparr>TxDataLength := TxDataLength e - ucast (OutEpSize e),
        pTxData := buf_add (pTxData e) (unat (OutEpSize e)), data_tx_state := EC20_SEND_DATA\<rparr>"
      using True m(2) unfolding ec20_sent_def full_iff by (simp add: Let_def)
    have "qs = tx_todo (ec20_sent e)"
      using assms(2) m(3) [of "tx_zero_packet_flag e = 1" "pTxData e"] unfolding s tx_todo_def by simp
    moreover have "tx_todo (ec20_sent e) \<noteq> []" unfolding s tx_todo_def by (subst pkts.simps) simp
    ultimately show ?thesis by (auto simp: s)
  next
    case False
    then have s: "ec20_sent e = (if tx_zero_packet_flag e = 1
        then e\<lparr>TxDataLength := 0, tx_zero_packet_flag := 0, data_tx_state := EC20_SEND_DATA\<rparr>
        else e\<lparr>TxDataLength := 0, data_tx_state := EC20_IDLE\<rparr>)"
      unfolding ec20_sent_def full_iff by (simp add: Let_def)
    have "qs = (if tx_zero_packet_flag e = 1 then [(pTxData e, 0)] else [])"
      using assms(2) pkts_last [OF False, of "tx_zero_packet_flag e = 1" "pTxData e"] unfolding tx_todo_def by simp
    then show ?thesis unfolding s by (auto simp: tx_todo_def pkts.simps)
  qed
  then show "data_tx_state (ec20_sent e) = (if qs = [] then EC20_IDLE else EC20_SEND_DATA)"
    "qs \<noteq> [] \<Longrightarrow> tx_todo (ec20_sent e) = qs" by simp_all
  show "OutEpSize (ec20_sent e) = OutEpSize e" "OutPipe (ec20_sent e) = OutPipe e"
    by (simp_all add: ec20_sent_def Let_def)
qed

lemma tx_todo_frame: "tx_todo (e\<lparr>data_tx_state := s\<rparr>) = tx_todo e"
  by (simp add: tx_todo_def)

interpretation ec20_sender: packet_sender EC20_ProcessTransmission ec20_tx
proof
  fix h b p q qs
  show "EC20_ProcessTransmission h b = Some (h, b)" if "ec20_tx h = Some (Tx_idle, p, qs)"
    using that by (auto simp: ec20_tx_iff EC20_ProcessTransmission_def)
  assume d: "pData h" "unat p < length (hc b)"
  show "\<exists>h' b'. EC20_ProcessTransmission h b = Some (h', b') \<and> ec20_tx h' = Some (Tx_wait, p, q # qs) \<and> pData h' \<and>
      xfers b' = xfers b @ [pkt_view p q] \<and> urb_state (hc b' ! unat p) = USBH_URB_IDLE \<and> length (hc b') = length (hc b)"
    if "ec20_tx h = Some (Tx_send, p, q # qs)"
  proof -
    from that obtain e where e: "get_ec20 h = Some e" "OutEpSize e \<noteq> 0" "data_tx_state e = EC20_SEND_DATA"
      "p = OutPipe e" "tx_todo e = q # qs" by (auto simp: ec20_tx_iff)
    have q: "q = (pTxData e, packet_len (OutEpSize e) (TxDataLength e))"
      using e(5) pkts_Cons [OF e(2), of "tx_zero_packet_flag e = 1" "pTxData e" "TxDataLength e"]
      unfolding tx_todo_def by simp
    show ?thesis using d e
      by (simp add: EC20_ProcessTransmission_def ec20_send_def ec20_tx_iff tx_todo_frame mem_simps xfers_bulk pkt_view_def q packet_len_word)
  qed
  assume w: "ec20_tx h = Some (Tx_wait, p, q # qs)"
  then obtain e where e: "get_ec20 h = Some e" "OutEpSize e \<noteq> 0" "data_tx_state e = EC20_SEND_DATA_WAIT"
    "p = OutPipe e" "tx_todo e = q # qs" by (auto simp: ec20_tx_iff)
  show "EC20_ProcessTransmission h b = Some (h, b)" if "urb_state (hc b ! unat p) = USBH_URB_IDLE"
    using that d e by (simp add: EC20_ProcessTransmission_def mem_simps)
  show "\<exists>h'. EC20_ProcessTransmission h b = Some (h', os_put USBH_CLASS_EVENT b) \<and> pData h' \<and> ec20_tx h' = Some (Tx_send, p, q # qs)"
    if "urb_state (hc b ! unat p) = USBH_URB_NOTREADY"
    using that d e by (simp add: EC20_ProcessTransmission_def ec20_tx_iff tx_todo_frame mem_simps)
  show "\<exists>h'. EC20_ProcessTransmission h b = Some (h', os_put USBH_CLASS_EVENT b) \<and> pData h' \<and>
      ec20_tx h' = Some (if qs = [] then Tx_idle else Tx_send, p, qs)" if "urb_state (hc b ! unat p) = USBH_URB_DONE"
    using that d e ec20_sent_todo [OF e(2,5)]
    by (cases "qs = []") (simp_all add: EC20_ProcessTransmission_def ec20_tx_iff mem_simps)
qed

text \<open>Repeated processing; the tape says before which rounds the controller has finished.\<close>

definition tx_drive :: "bool list \<Rightarrow> host \<Rightarrow> bus \<Rightarrow> (host \<times> bus) option" where
  "tx_drive tape = poll_news EC20_ProcessTransmission (map (\<lambda>a. if a then Some True else None) tape)"

lemma answered_tape:
  "count_list (map (\<lambda>a. if a then Some True else None) tape) (Some True) = count_list tape True"
  "count_list (map (\<lambda>a. if a then Some True else None) tape) (Some False) = 0"
  by (induction tape) auto

text \<open>
  C5: handing \<open>len\<close> bytes to the modem driver sends them as consecutive pieces of the buffer, every
  packet but the last of the endpoint's size and the last shorter (empty when \<open>len\<close> is a multiple of
  it), each exactly once, however the controller's answers are spread over the polls.
\<close>

theorem transmit_completes:
  assumes "get_ec20 h = Some e" "ec20_ready e" "data_tx_state e = EC20_IDLE" "tx_zero_packet_flag e = 0"
    "OutEpSize e \<noteq> 0" "pData h" "unat (OutPipe e) < length (hc b)" "pbuff \<noteq> NULL_buf" "len \<noteq> 0"
    "2 * (unat len div unat (OutEpSize e) + 1) \<le> count_list tape True"
  shows "\<exists>h1 b1 h' b' e' ps. USBH_EC20_Transmit h b pbuff len = Some (USBH_OK, h1, b1) \<and>
     tx_drive tape h1 b1 = Some (h', b') \<and> get_ec20 h' = Some e' \<and> data_tx_state e' = EC20_IDLE \<and>
     xfers b' = xfers b @ map (pkt_view (OutPipe e)) ps \<and>
     map snd ps = replicate (unat len div unat (OutEpSize e)) (unat (OutEpSize e)) @
       [unat len mod unat (OutEpSize e)] \<and>
     (\<forall>i. i * unat (OutEpSize e) < unat len \<longrightarrow> fst (ps ! i) = buf_at pbuff (i * unat (OutEpSize e)))"
proof -
  let ?m = "unat (OutEpSize e)"
  let ?e = "e\<lparr>pTxData := pbuff, TxDataLength := len,
      tx_zero_packet_flag := (if len mod ucast (OutEpSize e) = 0 then 1 else tx_zero_packet_flag e),
      ec_state := EC20_TRANSFER_DATA, data_tx_state := EC20_SEND_DATA\<rparr>"
  have m: "0 < ?m" and n: "0 < unat len" using assms(5,9) by (simp_all add: unat_gt_0)
  have t: "USBH_EC20_Transmit h b pbuff len = Some (USBH_OK, put_ec20 ?e h, os_put USBH_CLASS_EVENT b)"
    using assms(1-3,5-8) by (simp add: USBH_EC20_Transmit_def)
  have "(len mod ucast (OutEpSize e) = 0) = (unat len mod ?m = 0)"
    by (simp only: unat_mod unat_up flip: unat_eq_zero)
  then have td: "tx_todo ?e = pkts ?m (unat len mod ?m = 0) pbuff (unat len)"
    using assms(4) by (simp add: tx_todo_def)
  note l = pkts_lengths [OF m n, of pbuff]
  have len: "length (tx_todo ?e) = unat len div ?m + 1"
    using arg_cong [OF l, of length] td by simp
  let ?b = "os_put USBH_CLASS_EVENT b"
  have "ec20_sender.polled False (OutPipe e) (tx_todo ?e) (put_ec20 ?e h) ?b"
  proof -
    have "tx_todo ?e \<noteq> []" using len by (cases "tx_todo ?e") simp_all
    then show ?thesis using assms(1,5-7) by (simp add: ec20_sender.polled_def ec20_tx_iff)
  qed
  from ec20_sender.poll_all [OF this, of "map (\<lambda>a. if a then Some True else None) tape"] obtain h' b' ks
    where d: "tx_drive tape (put_ec20 ?e h) ?b = Some (h', b')" "ec20_tx h' = Some (Tx_idle, OutPipe e, [])"
      "length ks = length (tx_todo ?e)" "sum_list ks \<le> 0" "xfers b' = xfers ?b @ map (pkt_view (OutPipe e)) (repeats False ks (tx_todo ?e))"
    using assms(10) len unfolding tx_drive_def answered_tape by auto
  have x: "xfers b' = xfers b @ map (pkt_view (OutPipe e)) (tx_todo ?e)"
    using d(3-5) repeats_none [of ks "tx_todo ?e"] by (simp add: xfers_def)
  from d(2) obtain e' where e': "get_ec20 h' = Some e'" "data_tx_state e' = EC20_IDLE" by (auto simp: ec20_tx_iff)
  show ?thesis
    by (rule exI [of _ "put_ec20 ?e h"], rule exI [of _ ?b], rule exI [of _ h'], rule exI [of _ b'],
        rule exI [of _ e'], rule exI [of _ "tx_todo ?e"])
      (use t d(1) x e' l pkts_starts [OF m, of _ "unat len" _ pbuff] in \<open>simp add: td\<close>)
qed

definition sample_ec20 :: EC20_HandleTypeDef where
  "sample_ec20 = zero_ec20\<lparr>OutPipe := 2, InPipe := 3, OutEp := 2, InEp := 0x81, OutEpSize := 64, InEpSize := 64\<rparr>"

definition sample_modem :: host where
  "sample_modem = put_ec20 sample_ec20 sample_host"

lemma sample_modem_ec20: "get_ec20 sample_modem = Some sample_ec20"
  by (simp add: get_ec20_def sample_modem_def put_ec20_def sample_host_def zero_host_def rd_def)

lemma transmit_completes_witness:
  "\<exists>h1 b1 h' b' e' ps. USBH_EC20_Transmit sample_modem sample_bus (Mem 0x1000) 130 = Some (USBH_OK, h1, b1) \<and>
     tx_drive [True, False, True, True, True, True, True] h1 b1 = Some (h', b') \<and> get_ec20 h' = Some e' \<and> data_tx_state e' = EC20_IDLE \<and>
     xfers b' = xfers sample_bus @ map (pkt_view (OutPipe sample_ec20)) ps \<and>
     map snd ps = replicate (unat (130 :: u32) div unat (OutEpSize sample_ec20)) (unat (OutEpSize sample_ec20)) @
       [unat (130 :: u32) mod unat (OutEpSize sample_ec20)] \<and>
     (\<forall>i. i * unat (OutEpSize sample_ec20) < unat (130 :: u32) \<longrightarrow>
        fst (ps ! i) = buf_at (Mem 0x1000) (i * unat (OutEpSize sample_ec20)))"
  by (rule transmit_completes [OF sample_modem_ec20])
    (simp_all add: sample_ec20_def zero_ec20_def ec20_ready_def sample_modem_def sample_host_def sample_bus_def
      zero_bus_def)

subsection \<open>Pipes of the modem interface\<close>

lemma ec20_endpoints_Some:
  assumes "cfg_wf (CfgDesc (device h))"
  shows "\<exists>e. ec20_endpoints h = Some e \<and> ec_NotifPipe e = 0"
  using assms
  by (simp add: ec20_endpoints_def cfg_wf_def mem_simps take_data_ep_def take_notif_def zero_ec20_def)

text \<open>The pair of bulk pipes that a driver takes and opens when it binds its interface.\<close>

lemma bulk_pair:
  assumes "pipes_ok b" "length (hc b) = HCD_NBR_HC" "card (pipes_used b) + 2 \<le> USBH_MAX_PIPES_NBR" "pData h"
  obtains po pin b1 b2 b3 b4 b5 b6 where
    "USBH_AllocPipe b oe = Some (po, b1)" "USBH_AllocPipe b1 ie = Some (pin, b2)"
    "USBH_OpenPipe h b2 po oe a sp t on = Some (USBH_OK, b3)" "USBH_OpenPipe h b3 pin ie a sp t inn = Some (USBH_OK, b4)"
    "USBH_LL_SetToggle b4 po 0 = Some (USBH_OK, b5)" "USBH_LL_SetToggle b5 pin 0 = Some (USBH_OK, b6)"
    "po \<noteq> 0xFF" "pin \<noteq> 0xFF" "unat po < USBH_MAX_PIPES_NBR" "unat pin < USBH_MAX_PIPES_NBR"
    "unat po \<noteq> unat pin" "unat po \<notin> pipes_used b" "unat pin \<notin> pipes_used b"
    "pipes_used b6 = pipes_used b \<union> {unat po, unat pin}" "pipes_ok b6" "length (hc b6) = HCD_NBR_HC" "addresses b6 = addresses b"
proof -
  from two_pipes [OF assms(1,3), of oe ie] obtain po b1 pin b2
    where po: "USBH_AllocPipe b oe = Some (po, b1)" and pin: "USBH_AllocPipe b1 ie = Some (pin, b2)"
    and r: "unat po < USBH_MAX_PIPES_NBR" "unat pin < USBH_MAX_PIPES_NBR"
      "unat po \<notin> pipes_used b" "unat pin \<notin> pipes_used b" "unat po \<noteq> unat pin" "po \<noteq> 0xFF" "pin \<noteq> 0xFF"
      "pipes_used b2 = pipes_used b \<union> {unat po, unat pin}" "pipes_ok b2" "hc b2 = hc b" "addresses b2 = addresses b"
    by blast
  have l: "unat po < length (hc b2)" "unat pin < length (hc b2)" using r assms(2) by simp_all
  from OpenPipe_Some [OF assms(4) l(1)] obtain b3 where 3: "USBH_OpenPipe h b2 po oe a sp t on = Some (USBH_OK, b3)" by blast
  note f3 = OpenPipe_frame [OF 3]
  from OpenPipe_Some [OF assms(4), of pin b3] l f3 obtain b4
    where 4: "USBH_OpenPipe h b3 pin ie a sp t inn = Some (USBH_OK, b4)" by metis
  note f4 = OpenPipe_frame [OF 4]
  from SetToggle_Some [of po b4 0] l f3 f4 obtain b5 where 5: "USBH_LL_SetToggle b4 po 0 = Some (USBH_OK, b5)" by auto
  note f5 = SetToggle_frame [OF 5]
  from SetToggle_Some [of pin b5 0] l f3 f4 f5 obtain b6 where 6: "USBH_LL_SetToggle b5 pin 0 = Some (USBH_OK, b6)" by auto
  note f6 = SetToggle_frame [OF 6]
  have "Pipes b6 = Pipes b2" using f3 f4 f5 f6 by simp
  note pu = pipes_used_cong [OF this]
  show ?thesis
    by (rule that [OF po pin 3 4 5 6]) (use r pu f3 f4 f5 f6 assms(2) in \<open>simp_all\<close>)
qed

lemma ec20_open_ok:
  assumes "cfg_wf (CfgDesc (device h))" "pipes_ok b" "length (hc b) = HCD_NBR_HC"
    "card (pipes_used b) + 2 \<le> USBH_MAX_PIPES_NBR" "pData h" "pClassData h \<noteq> []"
  shows "\<exists>e b'. ec20_open h b = Some (USBH_OK, put_ec20 e h, b') \<and> ec_NotifPipe e = 0 \<and>
    OutPipe e \<noteq> 0xFF \<and> InPipe e \<noteq> 0xFF \<and> unat (OutPipe e) < USBH_MAX_PIPES_NBR \<and>
    unat (InPipe e) < USBH_MAX_PIPES_NBR \<and> unat (OutPipe e) \<noteq> unat (InPipe e) \<and>
    unat (OutPipe e) \<notin> pipes_used b \<and> unat (InPipe e) \<notin> pipes_used b \<and>
    pipes_used b' = pipes_used b \<union> {unat (OutPipe e), unat (InPipe e)} \<and> pipes_ok b' \<and>
    length (hc b') = HCD_NBR_HC \<and> addresses b' = addresses b \<and>
    data_tx_state e = EC20_IDLE \<and> data_rx_state e = EC20_IDLE \<and> ec_state e = EC20_IDLE_STATE"
proof -
  from ec20_endpoints_Some [OF assms(1)] obtain e where e: "ec20_endpoints h = Some e" "ec_NotifPipe e = 0"
    by blast
  show ?thesis
  proof (rule bulk_pair [OF assms(2-5)])
    fix po pin b1 b2 b3 b4 b5 b6
    assume r: "USBH_AllocPipe b (OutEp e) = Some (po, b1)" "USBH_AllocPipe b1 (InEp e) = Some (pin, b2)"
      "USBH_OpenPipe h b2 po (OutEp e) (dev_address (device h)) (speed (device h)) USB_EP_TYPE_BULK (OutEpSize e) = Some (USBH_OK, b3)"
      "USBH_OpenPipe h b3 pin (InEp e) (dev_address (device h)) (speed (device h)) USB_EP_TYPE_BULK (InEpSize e) = Some (USBH_OK, b4)"
      "USBH_LL_SetToggle b4 po 0 = Some (USBH_OK, b5)" "USBH_LL_SetToggle b5 pin 0 = Some (USBH_OK, b6)"
    assume p: "po \<noteq> 0xFF" "pin \<noteq> 0xFF" "unat po < USBH_MAX_PIPES_NBR" "unat pin < USBH_MAX_PIPES_NBR"
      "unat po \<noteq> unat pin" "unat po \<notin> pipes_used b" "unat pin \<notin> pipes_used b"
      "pipes_used b6 = pipes_used b \<union> {unat po, unat pin}" "pipes_ok b6" "length (hc b6) = HCD_NBR_HC" "addresses b6 = addresses b"
    let ?e = "e\<lparr>OutPipe := po, InPipe := pin, ec_state := EC20_IDLE_STATE, data_tx_state := EC20_IDLE,
        data_rx_state := EC20_IDLE\<rparr>"
    have "ec20_open h b = Some (USBH_OK, put_ec20 ?e h, b6)" using e r by (simp add: ec20_open_def)
    with p e(2) show ?thesis by (intro exI [of _ ?e] exI [of _ b6]) simp
  qed
qed

lemma release_pipe_ok:
  assumes "pipes_ok b" "pData h"
  shows "\<exists>q b'. release_pipe h p b = Some (q, b') \<and> pipes_ok b' \<and>
     pipes_used b' = pipes_used b - (if p = 0 \<or> p = 0xff then {} else {unat p}) \<and> addresses b' = addresses b"
  using close_free_ok [OF assms, of p] assms(1) by (auto simp: release_pipe_def)

text \<open>Releasing three pipes and the device's address; the numbers 0 and 0xff stand for no pipe.\<close>

lemma release_three:
  assumes "pipes_ok b" "pData h" "addr_ok b" "unat (dev_address (device h)) \<le> length (addresses b)"
  obtains q1 b1 q2 b2 q3 b3 b4 where
    "release_pipe h p1 b = Some (q1, b1)" "release_pipe h p2 b1 = Some (q2, b2)" "release_pipe h p3 b2 = Some (q3, b3)"
    "USBH_Free_One_Address (h\<lparr>pClassData := cd\<rparr>) b3 = Some (0, set_dev_address 0 (h\<lparr>pClassData := cd\<rparr>), b4)"
    "pipes_ok b4" "pipes_used b4 = pipes_used b - {unat p |p. p \<in> {p1, p2, p3} \<and> p \<noteq> 0 \<and> p \<noteq> 0xff}"
    "addr_used b4 = addr_used b - (if dev_address (device h) = 0 then {} else {unat (dev_address (device h)) - 1})"
proof -
  let ?h = "h\<lparr>pClassData := cd\<rparr>"
  let ?d = "\<lambda>p :: u8. if p = 0 \<or> p = 0xff then {} else {unat p}"
  from release_pipe_ok [OF assms(1,2), of p1] obtain q1 b1 where 1: "release_pipe h p1 b = Some (q1, b1)"
    "pipes_ok b1" "pipes_used b1 = pipes_used b - ?d p1" "addresses b1 = addresses b" by blast
  from release_pipe_ok [OF 1(2) assms(2), of p2] obtain q2 b2 where 2: "release_pipe h p2 b1 = Some (q2, b2)"
    "pipes_ok b2" "pipes_used b2 = pipes_used b1 - ?d p2" "addresses b2 = addresses b1" by blast
  from release_pipe_ok [OF 2(2) assms(2), of p3] obtain q3 b3 where 3: "release_pipe h p3 b2 = Some (q3, b3)"
    "pipes_ok b3" "pipes_used b3 = pipes_used b2 - ?d p3" "addresses b3 = addresses b2" by blast
  have "addr_ok b3" "addr_used b3 = addr_used b" using assms(3) 1 2 3 by (simp_all add: addr_ok_def addr_used_def)
  with Free_One_Address_ok [of b3 ?h] assms(4) 1 2 3 obtain b4
    where 4: "USBH_Free_One_Address ?h b3 = Some (0, set_dev_address 0 ?h, b4)" "Pipes b4 = Pipes b3"
      "addr_used b4 = addr_used b -
       (if dev_address (device h) = 0 then {} else {unat (dev_address (device h)) - 1})"
    by auto
  have "?d p1 \<union> ?d p2 \<union> ?d p3 = {unat p |p. p \<in> {p1, p2, p3} \<and> p \<noteq> 0 \<and> p \<noteq> 0xff}" by auto
  moreover have "pipes_used b4 = pipes_used b - (?d p1 \<union> ?d p2 \<union> ?d p3)" "pipes_ok b4"
    using pipes_used_cong [OF 4(2)] 1(3) 2(3) 3(2,3) by auto
  ultimately show ?thesis using that [OF 1(1) 2(1) 3(1) 4(1)] 4(3) by simp
qed

lemma ec20_close_ok:
  assumes "get_ec20 h = Some e" "ec_NotifPipe e = 0" "OutPipe e \<noteq> 0" "OutPipe e \<noteq> 0xFF" "InPipe e \<noteq> 0"
    "InPipe e \<noteq> 0xFF" "pipes_ok b" "pData h" "addr_ok b"
    "unat (dev_address (device h)) \<le> length (addresses b)"
  shows "\<exists>h' b'. ec20_close h b = Some (USBH_OK, h', b') \<and> get_ec20 h' = None \<and>
     dev_address (device h') = 0 \<and> pipes_ok b' \<and>
     pipes_used b' = pipes_used b - {unat (OutPipe e), unat (InPipe e)} \<and>
     addr_used b' = addr_used b -
       (if dev_address (device h) = 0 then {} else {unat (dev_address (device h)) - 1})"
proof -
  let ?cd = "(pClassData h)[0 := None]"
  let ?h = "set_dev_address 0 (h\<lparr>pClassData := ?cd\<rparr>)"
  have u: "{unat p |p. p \<in> {ec_NotifPipe e, InPipe e, OutPipe e} \<and> p \<noteq> 0 \<and> p \<noteq> 0xff} = {unat (OutPipe e), unat (InPipe e)}"
    using assms(2-6) by auto
  have g: "get_ec20 ?h = None" using assms(1) by (auto simp: get_ec20_def rd_def split: option.splits if_splits)
  show ?thesis
  proof (rule release_three [OF assms(7-10), of "ec_NotifPipe e" "InPipe e" "OutPipe e" ?cd])
    fix q1 b1 q2 b2 q3 b3 b4
    assume r: "release_pipe h (ec_NotifPipe e) b = Some (q1, b1)" "release_pipe h (InPipe e) b1 = Some (q2, b2)"
      "release_pipe h (OutPipe e) b2 = Some (q3, b3)" "USBH_Free_One_Address (h\<lparr>pClassData := ?cd\<rparr>) b3 = Some (0, ?h, b4)"
    assume p: "pipes_ok b4"
      "pipes_used b4 = pipes_used b - {unat p |p. p \<in> {ec_NotifPipe e, InPipe e, OutPipe e} \<and> p \<noteq> 0 \<and> p \<noteq> 0xff}"
      "addr_used b4 = addr_used b - (if dev_address (device h) = 0 then {} else {unat (dev_address (device h)) - 1})"
    have "ec20_close h b = Some (USBH_OK, ?h, b4)" using assms(1) r by (simp add: ec20_close_def)
    with g p show ?thesis unfolding u by (intro exI [of _ ?h] exI [of _ b4]) simp
  qed
qed

lemma wait_app_done: "hs w x = Some h \<Longrightarrow> app_data h = None \<Longrightarrow> wait_app env x w = Some w"
  by (subst wait_app.simps) simp

text \<open>
  Binding the modem interface takes two fresh pipes and releasing it gives both back, with the
  device's address. Pipe 0 must be in use: the release skips a pipe of that number.
\<close>

theorem ec20_open_close:
  assumes "cfg_wf (CfgDesc (device h))" "pipes_ok b" "length (hc b) = HCD_NBR_HC"
    "card (pipes_used b) + 2 \<le> USBH_MAX_PIPES_NBR" "pData h" "pClassData h \<noteq> []" "0 \<in> pipes_used b"
    "addr_ok b" "unat (dev_address (device h)) \<le> length (addresses b)"
  shows "\<exists>h1 b1 h2 b2. ec20_open h b = Some (USBH_OK, h1, b1) \<and> card (pipes_used b1) = card (pipes_used b) + 2 \<and>
     ec20_close h1 b1 = Some (USBH_OK, h2, b2) \<and> pipes_used b2 = pipes_used b \<and>
     dev_address (device h2) = 0"
proof -
  from ec20_open_ok [OF assms(1-6)] obtain e b1 where 1: "ec20_open h b = Some (USBH_OK, put_ec20 e h, b1)"
    and p: "ec_NotifPipe e = 0" "OutPipe e \<noteq> 0xFF" "InPipe e \<noteq> 0xFF"
      "unat (OutPipe e) \<noteq> unat (InPipe e)" "unat (OutPipe e) \<notin> pipes_used b" "unat (InPipe e) \<notin> pipes_used b"
      "pipes_used b1 = pipes_used b \<union> {unat (OutPipe e), unat (InPipe e)}" "pipes_ok b1" "addresses b1 = addresses b"
    by blast
  have g: "get_ec20 (put_ec20 e h) = Some e" using assms(6) by (simp add: get_ec20_def put_ec20_def rd_def)
  have nz: "OutPipe e \<noteq> 0" "InPipe e \<noteq> 0" using p assms(7) by auto
  have "addr_ok b1" "unat (dev_address (device (put_ec20 e h))) \<le> length (addresses b1)"
    using assms(8,9) p(9) by (simp_all add: addr_ok_def)
  from ec20_close_ok [OF g p(1) nz(1) p(2) nz(2) p(3,8) _ this] assms(5) obtain h2 b2
    where 2: "ec20_close (put_ec20 e h) b1 = Some (USBH_OK, h2, b2)" "dev_address (device h2) = 0"
      "pipes_used b2 = pipes_used b1 - {unat (OutPipe e), unat (InPipe e)}" by auto
  have "card (pipes_used b1) = card (pipes_used b) + 2"
    using p pipes.finite_used [OF assms(2)] by simp
  then show ?thesis using 1 2 p by auto
qed

lemma ec20_open_close_witness:
  "\<exists>h1 b1 h2 b2. ec20_open sample_host sample_bus = Some (USBH_OK, h1, b1) \<and>
     card (pipes_used b1) = card (pipes_used sample_bus) + 2 \<and>
     ec20_close h1 b1 = Some (USBH_OK, h2, b2) \<and> pipes_used b2 = pipes_used sample_bus \<and>
     dev_address (device h2) = 0"
  by (rule ec20_open_close [OF sample_cfg_wf sample_pools])
    (simp_all add: sample_host_def zero_host_def zero_device_def addr_ok_def sample_bus_def pipes_used_def pipe_used_def)

subsection \<open>The driver keeps the machine state\<close>

lemma ec20_open_keeps:
  assumes "ec20_open h b = Some (s, h', b')"
  shows "node h' = node h"
proof -
  from assms obtain e where "h' = put_ec20 e h"
    by (auto simp: ec20_open_def bind_eq_Some_conv Let_def)
  then show ?thesis by (simp add: node_def)
qed

lemma InterfaceInit_keeps:
  assumes "USBH_EC20_InterfaceInit x w = Some (s, w')"
  shows "shape w' = shape w"
proof -
  obtain ok w1 where tm: "take_malloc w = (ok, w1)" by (cases "take_malloc w")
  have w1: "hs w1 = hs w" using take_malloc_simps(1) [of w] tm by simp
  from assms tm obtain h s1 h1 cd where h: "hs w x = Some h" and sel: "USBH_SelectInterface h 2 = Some (s1, h1)"
    and r: "(if \<not> ok then Some (USBH_FAIL, put_host x (h1\<lparr>pClassData := cd\<rparr>) w1)
       else on_host x ec20_open (put_host x (h1\<lparr>pClassData := cd\<rparr>) w1)) = Some (s, w')"
    by (auto simp: USBH_EC20_InterfaceInit_def bind_eq_Some_conv Let_def)
  have k: "shape (put_host x (h1\<lparr>pClassData := cd\<rparr>) w1) = shape w"
    using shape_put [of w1 x h] SelectInterface_keeps [OF sel] h shape_take [OF tm] by (simp add: w1 node_def)
  show ?thesis
  proof (cases ok)
    case True
    with r have "on_host x ec20_open (put_host x (h1\<lparr>pClassData := cd\<rparr>) w1) = Some (s, w')" by simp
    then have "shape w' = shape (put_host x (h1\<lparr>pClassData := cd\<rparr>) w1)"
      by (rule shape_on) (rule ec20_open_keeps)
    with k show ?thesis by simp
  next
    case False
    with r have "w' = put_host x (h1\<lparr>pClassData := cd\<rparr>) w1" by simp
    with k show ?thesis by simp
  qed
qed

lemma ec20_close_keeps:
  assumes "ec20_close h b = Some (s, h', b')"
  shows "node h' = node h"
proof -
  from assms obtain a b1 where "USBH_Free_One_Address (h\<lparr>pClassData := (pClassData h)[0 := None]\<rparr>) b1 = Some (a, h', b')"
    by (auto simp: ec20_close_def bind_eq_Some_conv)
  from Free_One_Address_keeps [OF this] show ?thesis by (simp add: node_def)
qed

lemma ProcessTransmission_keeps:
  assumes "EC20_ProcessTransmission h b = Some (h', b')"
  shows "h' = h \<or> (\<exists>e. h' = put_ec20 e h)"
proof -
  from assms obtain e where e: "get_ec20 h = Some e" by (auto simp: EC20_ProcessTransmission_def bind_eq_Some_conv)
  show ?thesis
  proof (cases "data_tx_state e")
    case EC20_SEND_DATA
    with assms e show ?thesis by (auto simp: EC20_ProcessTransmission_def ec20_send_def bind_eq_Some_conv)
  next
    case EC20_SEND_DATA_WAIT
    with assms e show ?thesis by (auto simp: EC20_ProcessTransmission_def bind_eq_Some_conv split: if_splits)
  qed (use assms e in \<open>simp_all add: EC20_ProcessTransmission_def\<close>)
qed

lemma ProcessReception_keeps:
  assumes "EC20_ProcessReception cb x w = Some w'"
    "\<And>w w'. cb x w = Some w' \<Longrightarrow> shape w' = shape w"
  shows "shape w' = shape w"
proof -
  from assms(1) obtain h e where h: "hs w x = Some h" and e: "get_ec20 h = Some e"
    by (auto simp: EC20_ProcessReception_def bind_eq_Some_conv)
  have p: "shape (put_host x (put_ec20 e' h) w) = shape w" for e' by (rule shape_put [OF h]) (simp add: node_def)
  show ?thesis
  proof (cases "data_rx_state e")
    case EC20_RECEIVE_DATA
    with assms(1) h e show ?thesis
      by (auto simp: EC20_ProcessReception_def bind_eq_Some_conv p)
  next
    case EC20_RECEIVE_DATA_WAIT
    have k: "shape v' = shape w" if "cb x (put_host x (put_ec20 e' h) w) = Some v'" for e' v'
      using assms(2) [OF that] p by simp
    from EC20_RECEIVE_DATA_WAIT assms(1) h e show ?thesis
      by (auto simp: EC20_ProcessReception_def bind_eq_Some_conv Let_def GetURBState_eq_Some_iff
          split: if_splits dest: k) (auto simp: p)
  qed (use assms(1) h e in \<open>simp_all add: EC20_ProcessReception_def\<close>)
qed

end
