(* ===== verification/AppEc20.thy ===== *)
theory AppEc20
  imports Ec20 "HOL-Library.Sublist"
begin

text \<open>
  The modem application (\<^verbatim>\<open>User/app_ec20.c\<close>) and the user side of the host library
  (\<^verbatim>\<open>User/test_usbh.c\<close>). A sender thread issues AT commands one state after the other; the
  receive hook, called by the class driver with each packet, recognises the echoed command and
  searches the answer for the expected result across packets. Both talk through a queue of one
  message. The application record hangs off the handle (\<open>app_data\<close>).
\<close>

abbreviation RECV_BUFF_SIZE :: nat where "RECV_BUFF_SIZE \<equiv> 64"
abbreviation MAX_TIME_OUT_NUM :: u8 where "MAX_TIME_OUT_NUM \<equiv> 5"
abbreviation APP_Q_SIZE :: nat where "APP_Q_SIZE \<equiv> 1"

subsection \<open>Strings\<close>

definition ascii :: "string \<Rightarrow> u8 list" where
  "ascii s = map of_char s"

text \<open>\<^verbatim>\<open>strstr\<close> reads the buffer up to a NUL; without one it leaves the buffer.\<close>

definition cstr :: "u8 list \<Rightarrow> u8 list option" where
  "cstr buf = (if 0 \<in> set buf then Some (takeWhile (\<lambda>c. c \<noteq> 0) buf) else None)"

definition strstr :: "u8 list \<Rightarrow> u8 list \<Rightarrow> bool option" where
  "strstr buf pat = map_option (sublist pat) (cstr buf)"

definition bytes_from :: "u8 list \<Rightarrow> nat \<Rightarrow> nat \<Rightarrow> u8 list option" where
  "bytes_from src off n = (if off + n \<le> length src then Some (take n (drop off src)) else None)"

definition memcpy_at :: "u8 list \<Rightarrow> nat \<Rightarrow> u8 list \<Rightarrow> u8 list option" where
  "memcpy_at dst off src =
     (if off + length src \<le> length dst
      then Some (take off dst @ src @ drop (off + length src) dst) else None)"

subsection \<open>The command table\<close>

definition CMD_TESTING :: "u8 list" where "CMD_TESTING = ascii ''ati;+csub''"
definition CMD_SMS_DONE :: "u8 list" where "CMD_SMS_DONE = [0x0D, 0x0A] @ ascii ''+QIND: SMS DONE''"
definition CMD_QUERY_CARD :: "u8 list" where "CMD_QUERY_CARD = ascii ''AT+CPIN?''"
definition CMD_QUERY_CS :: "u8 list" where "CMD_QUERY_CS = ascii ''AT+CREG?''"
definition CMD_QUERY_PS :: "u8 list" where "CMD_QUERY_PS = ascii ''AT+CGREG?''"
definition CMD_CONFIG_PDP :: "u8 list" where "CMD_CONFIG_PDP = ascii ''AT+QICSGP=1''"
definition CMD_ACTIVATE_PDP :: "u8 list" where "CMD_ACTIVATE_PDP = ascii ''AT+QIACT=1''"
definition CMD_RUNNING :: "u8 list" where
  "CMD_RUNNING = ascii ''AT+QPING=1,'' @ [0x22] @ ascii ''www.baidu.com'' @ [0x22]"

record ec20_cmd =
  cmd_name :: "u8 list"
  cmd_result :: "u8 list option"
  cmd_recvdata :: recv_fn

definition cmd :: "ec20_cmd list" where
  "cmd =
    [\<lparr>cmd_name = CMD_TESTING, cmd_result = Some (ascii ''OK''), cmd_recvdata = ec20_recv_ati_fn\<rparr>,
     \<lparr>cmd_name = CMD_SMS_DONE, cmd_result = None, cmd_recvdata = ec20_recv_init_done_fn\<rparr>,
     \<lparr>cmd_name = CMD_QUERY_CARD, cmd_result = Some (ascii ''READY''), cmd_recvdata = ec20_recv_general_fn\<rparr>,
     \<lparr>cmd_name = CMD_QUERY_CS, cmd_result = Some (ascii ''OK''), cmd_recvdata = ec20_recv_general_fn\<rparr>,
     \<lparr>cmd_name = CMD_QUERY_PS, cmd_result = Some (ascii ''OK''), cmd_recvdata = ec20_recv_general_fn\<rparr>,
     \<lparr>cmd_name = CMD_CONFIG_PDP, cmd_result = Some (ascii ''OK''), cmd_recvdata = ec20_recv_general_fn\<rparr>,
     \<lparr>cmd_name = CMD_ACTIVATE_PDP, cmd_result = Some (ascii ''OK''), cmd_recvdata = ec20_recv_general_fn\<rparr>,
     \<lparr>cmd_name = CMD_RUNNING, cmd_result = Some (ascii ''OK''), cmd_recvdata = ec20_recv_running_fn\<rparr>]"

text \<open>
  The successor of an application state, \<^verbatim>\<open>Appli_state + 1\<close>. The value past the last one and the
  last one itself are both ignored by the thread, so they are not told apart.
\<close>

primrec app_next :: "ApplicationTypeDef \<Rightarrow> ApplicationTypeDef" where
  "app_next EC20_APPLICATION_IDLE = EC20_APPLICATION_START"
| "app_next EC20_APPLICATION_START = EC20_APPLICATION_READY"
| "app_next EC20_APPLICATION_READY = EC20_APPLICATION_SMS_DONE"
| "app_next EC20_APPLICATION_SMS_DONE = EC20_APPLICATION_QUERY_CARD"
| "app_next EC20_APPLICATION_QUERY_CARD = EC20_APPLICATION_QUERY_CS"
| "app_next EC20_APPLICATION_QUERY_CS = EC20_APPLICATION_QUERY_PS"
| "app_next EC20_APPLICATION_QUERY_PS = EC20_APPLICATION_CONFIG_PDP"
| "app_next EC20_APPLICATION_CONFIG_PDP = EC20_APPLICATION_ACTIVATE_PDP"
| "app_next EC20_APPLICATION_ACTIVATE_PDP = EC20_APPLICATION_RUNNING"
| "app_next EC20_APPLICATION_RUNNING = EC20_APPLICATION_DISCONNECT"
| "app_next EC20_APPLICATION_DISCONNECT = EC20_APPLICATION_MAX_NUM"
| "app_next EC20_APPLICATION_MAX_NUM = EC20_APPLICATION_MAX_NUM"

subsection \<open>The application record\<close>

definition zero_app :: ec20_app where
  "zero_app = \<lparr>AppliEvent = [], Appli_state = EC20_APPLICATION_IDLE,
     recv_buf = replicate (RECV_BUFF_SIZE + 1) 0, g_stop_flag = 0, rx_total_num = 0,
     tx_total_num = 0, EC20_Send_Thread = None, ec20_recvdata = None, cmd_index = 0,
     result_buff = None, result_flag = 0, timeout_times = 0\<rparr>"

definition put_app :: "hid \<Rightarrow> ec20_app \<Rightarrow> world \<Rightarrow> world option" where
  "put_app x a = mod_host x (\<lambda>h. h\<lparr>app_data := Some a\<rparr>)"

definition app_put :: "ApplicationTypeDef \<Rightarrow> ec20_app \<Rightarrow> ec20_app" where
  "app_put e a = a\<lparr>AppliEvent := mq_put APP_Q_SIZE (AppliEvent a) e\<rparr>"

interpretation app_q: message_queue "mq_put APP_Q_SIZE" mq_get "\<lambda>q. q" APP_Q_SIZE
  by (rule mq_message_queue)

definition clear_recv :: "ec20_app \<Rightarrow> ec20_app" where
  "clear_recv a = a\<lparr>recv_buf := replicate (RECV_BUFF_SIZE + 1) 0\<rparr>"

definition new_EC20_Application :: "hid \<Rightarrow> world \<Rightarrow> wcall" where
  "new_EC20_Application x w =
     (let (ok, w) = take_malloc w
      in if \<not> ok then Some (USBH_FAIL, w)
         else let (ok, w) = take_malloc w
              in if \<not> ok then Some (USBH_FAIL, w)
                 else do {
                   w \<leftarrow> put_app x (zero_app\<lparr>ec20_recvdata := Some ec20_recv_cmd_select_fn,
                          Appli_state := EC20_APPLICATION_IDLE\<rparr>) w;
                   Some (USBH_OK, w)
                 })"

subsection \<open>The receive hooks\<close>

text \<open>
  Each hook takes the number of received bytes \<open>n\<close>, the record and the world (for the allocator)
  and returns the C status. The print loops read \<^verbatim>\<open>recv_buf\<close> up to the received length.
\<close>

type_synonym hook_result = "(int \<times> ec20_app \<times> world) option"

definition ec20_recv_ati :: "u16 \<Rightarrow> ec20_app \<Rightarrow> world \<Rightarrow> hook_result" where
  "ec20_recv_ati n a w =
     (let a = clear_recv a
      in if unat n = RECV_BUFF_SIZE then Some (0, a\<lparr>ec20_recvdata := Some ec20_recv_ati_fn\<rparr>, w)
         else Some (0, app_put (app_next (Appli_state a))
                (a\<lparr>ec20_recvdata := Some ec20_recv_cmd_select_fn, timeout_times := 0\<rparr>), w))"

definition ec20_recv_init_done :: "u16 \<Rightarrow> ec20_app \<Rightarrow> world \<Rightarrow> hook_result" where
  "ec20_recv_init_done n a w =
     (let a = clear_recv a
      in Some (0, app_put (app_next (Appli_state a))
           (a\<lparr>ec20_recvdata := Some ec20_recv_cmd_select_fn, timeout_times := 0\<rparr>), w))"

definition ec20_recv_running :: "u16 \<Rightarrow> ec20_app \<Rightarrow> world \<Rightarrow> hook_result" where
  "ec20_recv_running n a w =
     (let a = clear_recv a
      in Some (0, app_put EC20_APPLICATION_RUNNING
           (a\<lparr>ec20_recvdata := Some ec20_recv_cmd_select_fn, timeout_times := 0\<rparr>), w))"

text \<open>
  The overlap buffer: the last \<open>L\<close> bytes of a full packet, then room for the next packet and a NUL.
\<close>

definition keep_tail :: "nat \<Rightarrow> u8 list \<Rightarrow> u8 list option" where
  "keep_tail L rb = do {
     tl \<leftarrow> bytes_from rb (RECV_BUFF_SIZE - L) L;
     memcpy_at (replicate (L + RECV_BUFF_SIZE + 1) 0) 0 tl
   }"

definition print_check :: "u16 \<Rightarrow> ec20_app \<Rightarrow> unit option" where
  "print_check n a = (if unat n \<le> length (recv_buf a) then Some () else None)"

definition general_full :: "u8 list \<Rightarrow> ec20_app \<Rightarrow> world \<Rightarrow> (ec20_app \<times> world) option" where
  "general_full pat a w =
     (case result_buff a of
        None \<Rightarrow> do {
          found \<leftarrow> strstr (recv_buf a) pat;
          (if found then Some (a\<lparr>result_flag := 1\<rparr>, w)
           else let (ok, w) = take_malloc w
                in if \<not> ok then Some (a, w)
                   else do {
                     rb \<leftarrow> keep_tail (length pat) (recv_buf a);
                     Some (a\<lparr>result_buff := Some rb\<rparr>, w)
                   })
        }
      | Some rb \<Rightarrow>
          if result_flag a = 0 then do {
            seg \<leftarrow> bytes_from (recv_buf a) 0 RECV_BUFF_SIZE;
            rb \<leftarrow> memcpy_at rb (length pat) seg;
            found \<leftarrow> strstr rb pat;
            (if found then Some (a\<lparr>result_buff := Some rb, result_flag := 1\<rparr>, w)
             else do {
               rb \<leftarrow> keep_tail (length pat) (recv_buf a);
               Some (a\<lparr>result_buff := Some rb\<rparr>, w)
             })
          } else Some (a, w))"

definition general_last :: "u8 list \<Rightarrow> u16 \<Rightarrow> ec20_app \<Rightarrow> ec20_app option" where
  "general_last pat n a =
     (if result_flag a \<noteq> 0 then Some a
      else case result_buff a of
        None \<Rightarrow> do {
          found \<leftarrow> strstr (recv_buf a) pat;
          Some (if found then a\<lparr>result_flag := 1\<rparr> else a)
        }
      | Some rb \<Rightarrow> do {
          seg \<leftarrow> bytes_from (recv_buf a) 0 (unat n);
          rb \<leftarrow> memcpy_at rb (length pat) seg;
          found \<leftarrow> strstr rb pat;
          Some (if found then a\<lparr>result_buff := Some rb, result_flag := 1\<rparr>
                else a\<lparr>result_buff := Some rb\<rparr>)
        })"

definition ec20_recv_general :: "u16 \<Rightarrow> ec20_app \<Rightarrow> world \<Rightarrow> hook_result" where
  "ec20_recv_general n a w = do {
     c \<leftarrow> (if cmd_index a < 0 then None else rd cmd (nat (cmd_index a)));
     pat \<leftarrow> cmd_result c;
     (if unat n = RECV_BUFF_SIZE then do {
        (a, w) \<leftarrow> general_full pat a w;
        Some (0, a\<lparr>ec20_recvdata := Some ec20_recv_general_fn\<rparr>, w)
      }
      else do {
        a \<leftarrow> general_last pat n a;
        let a = a\<lparr>result_buff := None\<rparr>;
        (if result_flag a = 1
         then Some (0, app_put (app_next (Appli_state a))
                (clear_recv a\<lparr>result_flag := 0, ec20_recvdata := Some ec20_recv_cmd_select_fn,
                              timeout_times := 0\<rparr>), w)
         else do {
           _ \<leftarrow> print_check n a;
           Some (0, app_put (Appli_state a)
             (clear_recv a\<lparr>result_flag := 0, ec20_recvdata := Some ec20_recv_cmd_select_fn\<rparr>), w)
         })
      })
   }"

fun find_cmd_loop :: "ec20_cmd list \<Rightarrow> nat \<Rightarrow> u8 list \<Rightarrow> (nat \<times> ec20_cmd) option" where
  "find_cmd_loop [] i s = None"
| "find_cmd_loop (c # cs) i s =
     (if sublist (cmd_name c) s then Some (i, c) else find_cmd_loop cs (Suc i) s)"

definition ec20_find_cmd :: "u8 list \<Rightarrow> ec20_app \<Rightarrow> (int \<times> ec20_app) option" where
  "ec20_find_cmd buf a = do {
     s \<leftarrow> cstr buf;
     (case find_cmd_loop cmd 0 s of
        None \<Rightarrow> Some (-1, a)
      | Some (i, c) \<Rightarrow> Some (0, a\<lparr>ec20_recvdata := Some (cmd_recvdata c), cmd_index := int i\<rparr>))
   }"

definition select_full :: "ec20_app \<Rightarrow> world \<Rightarrow> hook_result" where
  "select_full a w =
     (case result_buff a of
        None \<Rightarrow> do {
          (ret, a) \<leftarrow> ec20_find_cmd (recv_buf a) a;
          (if ret = 0 then Some (ret, a, w)
           else let (ok, w) = take_malloc w
                in if \<not> ok then Some (ret, a, w)
                   else do {
                     rb \<leftarrow> keep_tail (length CMD_RUNNING) (recv_buf a);
                     Some (ret, a\<lparr>result_buff := Some rb\<rparr>, w)
                   })
        }
      | Some rb \<Rightarrow> do {
          seg \<leftarrow> bytes_from (recv_buf a) 0 RECV_BUFF_SIZE;
          rb \<leftarrow> memcpy_at rb (length CMD_RUNNING) seg;
          (ret, a) \<leftarrow> ec20_find_cmd rb a;
          rb \<leftarrow> (if ret \<noteq> 0 then keep_tail (length CMD_RUNNING) (recv_buf a) else Some rb);
          Some (ret, a\<lparr>result_buff := Some rb\<rparr>, w)
        })"

definition select_last :: "u16 \<Rightarrow> ec20_app \<Rightarrow> (int \<times> ec20_app) option" where
  "select_last n a =
     (case result_buff a of
        None \<Rightarrow> ec20_find_cmd (recv_buf a) a
      | Some rb \<Rightarrow> do {
          seg \<leftarrow> bytes_from (recv_buf a) 0 (unat n);
          rb \<leftarrow> memcpy_at rb (length CMD_RUNNING) seg;
          ec20_find_cmd rb (a\<lparr>result_buff := Some rb\<rparr>)
        })"

definition ec20_recv_cmd_select :: "u16 \<Rightarrow> ec20_app \<Rightarrow> world \<Rightarrow> hook_result" where
  "ec20_recv_cmd_select n a w = do {
     (ret, a, w) \<leftarrow> (if unat n = RECV_BUFF_SIZE then select_full a w
                    else do { (ret, a) \<leftarrow> select_last n a; Some (ret, a, w) });
     Some (ret, if ret = 0 \<or> unat n < RECV_BUFF_SIZE then a\<lparr>result_buff := None\<rparr> else a, w)
   }"

primrec call_hook :: "recv_fn \<Rightarrow> u16 \<Rightarrow> ec20_app \<Rightarrow> world \<Rightarrow> hook_result" where
  "call_hook ec20_recv_cmd_select_fn = ec20_recv_cmd_select"
| "call_hook ec20_recv_ati_fn = ec20_recv_ati"
| "call_hook ec20_recv_init_done_fn = ec20_recv_init_done"
| "call_hook ec20_recv_general_fn = ec20_recv_general"
| "call_hook ec20_recv_running_fn = ec20_recv_running"

text \<open>The class driver's callback: run the hook, count, and arm the next receive.\<close>

definition rearm :: "hid \<Rightarrow> host \<Rightarrow> bus \<Rightarrow> call" where
  "rearm x h b = USBH_EC20_Receive h b (Recv_of x) (of_nat RECV_BUFF_SIZE)"

definition USBH_EC20_ReceiveCallback :: "hid \<Rightarrow> world \<Rightarrow> world option" where
  "USBH_EC20_ReceiveCallback x w = do {
     h \<leftarrow> hs w x;
     (case app_data h of
        None \<Rightarrow> Some w
      | Some a \<Rightarrow> do {
          n \<leftarrow> USBH_EC20_GetLastReceivedDataSize h (wb w);
          (ret, a, w) \<leftarrow> (case ec20_recvdata a of
                            None \<Rightarrow> Some (-1, a, w)
                          | Some f \<Rightarrow> call_hook f n a w);
          _ \<leftarrow> (if ret = -1 then print_check n a else Some ());
          w \<leftarrow> put_app x (clear_recv (a\<lparr>rx_total_num := rx_total_num a + ucast n\<rparr>)) w;
          (_, w) \<leftarrow> on_host x (rearm x) w;
          Some w
        })
   }"

subsection \<open>The sender thread\<close>

definition EC20_send_data :: "hid \<Rightarrow> u8 list \<Rightarrow> world \<Rightarrow> wcall" where
  "EC20_send_data x c w = do {
     h \<leftarrow> hs w x;
     a \<leftarrow> app_data h;
     t \<leftarrow> EC20_Send_Thread a;
     let line = c @ [0x0D, 0x0A];
     let text = take (length (send_buf t) - 1) line;
     sb \<leftarrow> memcpy_at (send_buf t) 0 (text @ [0]);
     let w = put_host x (h\<lparr>app_data := Some (a\<lparr>EC20_Send_Thread := Some (t\<lparr>send_buf := sb\<rparr>)\<rparr>)\<rparr>) w;
     (s, w) \<leftarrow> on_host x (\<lambda>h b. USBH_EC20_Transmit h b (Send_of x) (of_nat (length text))) w;
     (if s = USBH_OK then do {
        h \<leftarrow> hs w x;
        a \<leftarrow> app_data h;
        w \<leftarrow> put_app x (a\<lparr>tx_total_num := tx_total_num a + of_nat (length line)\<rparr>) w;
        Some (s, w)
      } else Some (s, w))
   }"

definition enter_state :: "hid \<Rightarrow> ApplicationTypeDef \<Rightarrow> world \<Rightarrow> world option" where
  "enter_state x st w = do {
     h \<leftarrow> hs w x;
     a \<leftarrow> app_data h;
     put_app x (a\<lparr>Appli_state := st, timeout_times := timeout_times a + 1\<rparr>) w
   }"

definition app_command :: "hid \<Rightarrow> ApplicationTypeDef \<Rightarrow> u8 list \<Rightarrow> world \<Rightarrow> wcall" where
  "app_command x st c w = do { w \<leftarrow> enter_state x st w; EC20_send_data x c w }"

definition app_event :: "hid \<Rightarrow> ApplicationTypeDef \<Rightarrow> world \<Rightarrow> wcall" where
  "app_event x e w =
     (case e of
        EC20_APPLICATION_DISCONNECT \<Rightarrow> do {
          h \<leftarrow> hs w x;
          a \<leftarrow> app_data h;
          w \<leftarrow> put_app x (a\<lparr>Appli_state := EC20_APPLICATION_DISCONNECT\<rparr>) w;
          Some (USBH_OK, w)
        }
      | EC20_APPLICATION_READY \<Rightarrow> do {
          (_, w) \<leftarrow> app_command x EC20_APPLICATION_READY CMD_TESTING w;
          Some (USBH_OK, w)
        }
      | EC20_APPLICATION_SMS_DONE \<Rightarrow> do {
          w \<leftarrow> enter_state x EC20_APPLICATION_SMS_DONE w;
          Some (USBH_OK, w)
        }
      | EC20_APPLICATION_QUERY_CARD \<Rightarrow> app_command x e CMD_QUERY_CARD w
      | EC20_APPLICATION_QUERY_CS \<Rightarrow> app_command x e CMD_QUERY_CS w
      | EC20_APPLICATION_QUERY_PS \<Rightarrow> app_command x e CMD_QUERY_PS w
      | EC20_APPLICATION_CONFIG_PDP \<Rightarrow> app_command x e CMD_CONFIG_PDP w
      | EC20_APPLICATION_ACTIVATE_PDP \<Rightarrow> do {
          w \<leftarrow> enter_state x e w;
          EC20_send_data x CMD_ACTIVATE_PDP (mod_bus (USBH_Delay 1000) w)
        }
      | EC20_APPLICATION_RUNNING \<Rightarrow> app_command x e CMD_RUNNING w
      | _ \<Rightarrow> Some (USBH_OK, w))"

subsection \<open>Powering the modem\<close>

text \<open>
  The modem pulls its status pin low while it is on. \<^verbatim>\<open>ec20PowerInit\<close> presses the power key once to
  switch it on, or, when it is on already, once to switch it off and once more to switch it on; each
  press is followed by a loop that reads the status pin every 100 ms until it shows the effect. The
  successive readings are \<open>status_reads\<close>; when they run out the call is still waiting.
\<close>

definition status_pin :: "bus \<Rightarrow> (bool \<times> bus) option" where
  "status_pin b = (case status_reads b of [] \<Rightarrow> None | r # rs \<Rightarrow> Some (r, b\<lparr>status_reads := rs\<rparr>))"

definition press_power_key :: "bus \<Rightarrow> bus" where
  "press_power_key b =
     (let b = hw (HW_Pin EC20_PWRKEY_PIN False) b;
          b = hw (HW_Delay 40) b;
          b = hw (HW_Pin EC20_PWRKEY_PIN True) b;
          b = hw (HW_Delay 700) b
      in hw (HW_Pin EC20_PWRKEY_PIN False) b)"

partial_function (option) wait_status :: "bool \<Rightarrow> bus \<Rightarrow> bus option" where
  "wait_status v b = do {
     (r, b) \<leftarrow> status_pin b;
     (if r = v then Some b else wait_status v (hw (HW_Delay 100) b))
   }"

definition ec20PowerInit :: "bus \<Rightarrow> bus option" where
  "ec20PowerInit b =
     (let b = hw (HW_PinInit GPIOB_9 True) b;
          b = hw (HW_Pin GPIOB_9 True) b;
          b = hw (HW_PinInit EC20_STATUS_PIN False) b;
          b = hw (HW_PinInit EC20_RST_PIN True) b;
          b = hw (HW_PinInit EC20_PWRKEY_PIN True) b;
          b = hw (HW_Pin EC20_RST_PIN False) b
      in do {
        (r, b) \<leftarrow> status_pin b;
        (if \<not> r then do {
           b \<leftarrow> wait_status True (press_power_key b);
           wait_status False (press_power_key b)
         }
         else wait_status False (press_power_key b))
      })"

text \<open>
  One round of the thread: the message at hand, or the time-out when there is none. The end of the
  thread clears \<^verbatim>\<open>g_stop_flag\<close>.
\<close>

definition app_exit :: "app_thread \<Rightarrow> ec20_app \<Rightarrow> ec20_app" where
  "app_exit t a = a\<lparr>g_stop_flag := 0, EC20_Send_Thread := Some (t\<lparr>th_live := False\<rparr>)\<rparr>"

definition app_receive :: "hid \<Rightarrow> app_thread \<Rightarrow> ec20_app \<Rightarrow> world \<Rightarrow> wcall" where
  "app_receive x t a w =
     (case mq_get (AppliEvent a) of
        Some (e, q) \<Rightarrow> do {
          w \<leftarrow> put_app x (a\<lparr>AppliEvent := q\<rparr>) w;
          app_event x e w
        }
      | None \<Rightarrow> do {
          w \<leftarrow> put_app x (if timeout_times a \<le> MAX_TIME_OUT_NUM
                        then app_put (Appli_state a) (a\<lparr>timeout_times := timeout_times a + 1\<rparr>)
                        else a) w;
          Some (th_status t, w)
        })"

definition app_settle :: "hid \<Rightarrow> USBH_StatusTypeDef \<Rightarrow> world \<Rightarrow> world option" where
  "app_settle x s w = do {
     h \<leftarrow> hs w x;
     a \<leftarrow> app_data h;
     t \<leftarrow> EC20_Send_Thread a;
     let t = t\<lparr>th_status := s\<rparr>;
     (if timeout_times a > MAX_TIME_OUT_NUM
      then do {
        b \<leftarrow> ec20PowerInit (wb w);
        put_app x (app_exit t (a\<lparr>timeout_times := 0\<rparr>)) (w\<lparr>wb := b\<rparr>)
      }
      else put_app x (if s \<noteq> USBH_OK then app_put (Appli_state a) (a\<lparr>EC20_Send_Thread := Some t\<rparr>)
                      else a\<lparr>EC20_Send_Thread := Some t\<rparr>) w)
   }"

definition Start_EC20_Application_Thread :: "hid \<Rightarrow> world \<Rightarrow> world option" where
  "Start_EC20_Application_Thread x w = do {
     h \<leftarrow> hs w x;
     a \<leftarrow> app_data h;
     t \<leftarrow> EC20_Send_Thread a;
     (if \<not> th_live t then Some w
      else if g_stop_flag a = 0 \<or> Appli_state a \<noteq> EC20_APPLICATION_DISCONNECT then do {
        (s, w) \<leftarrow> app_receive x t a w;
        app_settle x s w
      }
      else put_app x (app_exit t a) w)
   }"

subsection \<open>Starting, stopping and deleting the application\<close>

partial_function (option) wait_receive :: "usb_env \<Rightarrow> hid \<Rightarrow> world \<Rightarrow> world option" where
  "wait_receive env x w = do {
     (s, w) \<leftarrow> on_host x (rearm x) w;
     (if s = USBH_OK then Some w
      else do {
        w \<leftarrow> tick env (mod_bus (USBH_Delay 100) w);
        wait_receive env x w
      })
   }"

definition start_EC20_Application :: "usb_env \<Rightarrow> hid \<Rightarrow> world \<Rightarrow> wcall" where
  "start_EC20_Application env x w = do {
     h \<leftarrow> hs w x;
     a \<leftarrow> app_data h;
     let (ok, w) = take_malloc w;
     (if \<not> ok then do {
        w \<leftarrow> put_app x (a\<lparr>EC20_Send_Thread := None\<rparr>) w;
        Some (USBH_FAIL, w)
      }
      else do {
        w \<leftarrow> put_app x (a\<lparr>EC20_Send_Thread := Some \<lparr>th_live = True, th_status = USBH_BUSY,
               send_buf = replicate 64 0\<rparr>\<rparr>) w;
        w \<leftarrow> wait_receive env x w;
        h \<leftarrow> hs w x;
        a \<leftarrow> app_data h;
        w \<leftarrow> put_app x (app_put EC20_APPLICATION_READY a) w;
        Some (USBH_OK, w)
      })
   }"

fun stop_wait :: "usb_env \<Rightarrow> hid \<Rightarrow> nat \<Rightarrow> world \<Rightarrow> world option" where
  "stop_wait env x 0 w = Some w"
| "stop_wait env x (Suc i) w = do {
     h \<leftarrow> hs w x;
     a \<leftarrow> app_data h;
     (if g_stop_flag a = 1 then do {
        w \<leftarrow> tick env (mod_bus (USBH_Delay 500) w);
        stop_wait env x i w
      } else Some w)
   }"

definition stop_EC20_Application :: "usb_env \<Rightarrow> hid \<Rightarrow> world \<Rightarrow> wcall" where
  "stop_EC20_Application env x w = do {
     h \<leftarrow> hs w x;
     (case app_data h of
        None \<Rightarrow> Some (USBH_OK, w)
      | Some a \<Rightarrow> do {
          w \<leftarrow> put_app x (app_put EC20_APPLICATION_DISCONNECT (a\<lparr>g_stop_flag := 1\<rparr>)) w;
          w \<leftarrow> stop_wait env x 10 w;
          h \<leftarrow> hs w x;
          a \<leftarrow> app_data h;
          w \<leftarrow> put_app x (a\<lparr>EC20_Send_Thread :=
                 map_option (\<lambda>t. t\<lparr>th_live := False\<rparr>) (EC20_Send_Thread a)\<rparr>) w;
          Some (USBH_OK, w)
        })
   }"

text \<open>A missing record makes the deletion spin for ever.\<close>

definition delete_EC20_Application :: "hid \<Rightarrow> world \<Rightarrow> wcall" where
  "delete_EC20_Application x w = do {
     h \<leftarrow> hs w x;
     _ \<leftarrow> app_data h;
     Some (USBH_OK, put_host x (h\<lparr>app_data := None\<rparr>) w)
   }"

subsection \<open>The user callback and the start of the program\<close>

primrec app_ClassCode :: "app_ref \<Rightarrow> u8" where
  "app_ClassCode App_ec20 = ClassCode EC20_Class"

definition AppClass :: "app_ref list" where
  "AppClass = [App_ec20]"

fun activeclass_loop :: "app_ref list \<Rightarrow> u8 \<Rightarrow> app_ref option" where
  "activeclass_loop [] code = None"
| "activeclass_loop (r # rs) code = (if app_ClassCode r = code then Some r else activeclass_loop rs code)"

definition get_activeclass_app :: "host \<Rightarrow> (int \<times> host) option" where
  "get_activeclass_app h = do {
     c \<leftarrow> pActiveClass h;
     Some (case activeclass_loop AppClass (ClassCode c) of
             Some r \<Rightarrow> (0, h\<lparr>app_class := Some r\<rparr>)
           | None \<Rightarrow> (-1, h))
   }"

definition USBH_UserProcess :: "usb_env \<Rightarrow> hid \<Rightarrow> u8 \<Rightarrow> world \<Rightarrow> world option" where
  "USBH_UserProcess env x code w = do {
     h \<leftarrow> hs w x;
     (if code = HOST_USER_CLASS_SELECTED then do {
        (r, h) \<leftarrow> get_activeclass_app h;
        let w = put_host x h w;
        (if r = 0 then do {
           (_, w) \<leftarrow> new_EC20_Application x w;
           Some w
         } else Some w)
      }
      else if code = HOST_USER_CLASS_ACTIVE then
        (if app_class h \<noteq> None then do {
           (_, w) \<leftarrow> start_EC20_Application env x w;
           Some w
         } else Some w)
      else if code = HOST_USER_DISCONNECTION then
        (if app_class h \<noteq> None then do {
           (_, w) \<leftarrow> stop_EC20_Application env x w;
           (_, w) \<leftarrow> delete_EC20_Application x w;
           Some w
         } else Some w)
      else Some w)
   }"

definition register :: "hid \<Rightarrow> class_ref \<Rightarrow> world \<Rightarrow> wcall" where
  "register x c w = do {
     h \<leftarrow> hs w x;
     (s, h) \<leftarrow> USBH_RegisterClass h (Some c);
     Some (s, put_host x h w)
   }"

text \<open>A failed initialisation spins for ever; the results of the registrations are ignored.\<close>

definition init_usb_host :: "hid \<Rightarrow> world \<Rightarrow> wcall" where
  "init_usb_host x w = do {
     (ret, w) \<leftarrow> USBH_Init x True 0 w;
     (if ret = USBH_FAIL then None
      else do {
        (_, w) \<leftarrow> register x MSC_Class w;
        (_, w) \<leftarrow> register x EC20_Class w;
        (_, w) \<leftarrow> register x HUB_Class w;
        on_host x USBH_Start w
      })
   }"

end
