(* ===== verification/AppFacts.thy ===== *)
theory AppFacts
  imports AppEc20
begin

text \<open>
  Facts about the modem application: the search of the receive hook over any number of packets,
  the time-out of the sender thread, and the bounds of the buffers the hooks write.
\<close>

subsection \<open>Searching a stream of packets\<close>

lemma sublist_split:
  assumes "\<not> sublist pat (u @ v)" "length pat \<le> length v"
  shows "sublist pat (u @ v @ t) \<longleftrightarrow> sublist pat (v @ t)"
proof
  assume "sublist pat (v @ t)"
  then show "sublist pat (u @ v @ t)" by (simp add: sublist_appendI sublist_append)
next
  assume "sublist pat (u @ v @ t)"
  then obtain p q where e: "u @ v @ t = p @ pat @ q" by (auto simp: sublist_def)
  show "sublist pat (v @ t)"
  proof (cases "length u \<le> length p")
    case True
    then obtain p' where "p = u @ p'"
      using e by (metis append_eq_append_conv_if append_take_drop_id)
    with e have "v @ t = p' @ pat @ q" by simp
    then show ?thesis by (auto simp: sublist_def)
  next
    case False
    have "(u @ v) @ t = (p @ pat) @ q" using e by simp
    moreover have "length (p @ pat) \<le> length (u @ v)" using False assms(2) by simp
    ultimately obtain r where "u @ v = (p @ pat) @ r"
      by (metis append_eq_append_conv_if append_take_drop_id)
    then have "sublist pat (u @ v)" by (auto simp: sublist_def)
    with assms(1) show ?thesis by simp
  qed
qed

text \<open>A packet as the controller leaves it in the cleared receive buffer.\<close>

definition load :: "u8 list \<Rightarrow> ec20_app \<Rightarrow> ec20_app" where
  "load seg a = a\<lparr>recv_buf := seg @ replicate (RECV_BUFF_SIZE + 1 - length seg) 0\<rparr>"

lemma load_simps [simp]:
  "recv_buf (load seg a) = seg @ replicate (RECV_BUFF_SIZE + 1 - length seg) 0"
  "result_buff (load seg a) = result_buff a" "result_flag (load seg a) = result_flag a"
  "cmd_index (load seg a) = cmd_index a" "ec20_recvdata (load seg a) = ec20_recvdata a"
  "AppliEvent (load seg a) = AppliEvent a" "Appli_state (load seg a) = Appli_state a"
  "timeout_times (load seg a) = timeout_times a"
  by (simp_all add: load_def)

definition no_nul :: "u8 list \<Rightarrow> bool" where
  "no_nul s \<longleftrightarrow> 0 \<notin> set s"

lemma cstr_pad: "no_nul s \<Longrightarrow> 0 < k \<Longrightarrow> cstr (s @ replicate k 0) = Some s"
  by (cases k) (auto simp: cstr_def no_nul_def takeWhile_append2 takeWhile_append)

lemma keep_tail_load:
  assumes "length seg = RECV_BUFF_SIZE" "L \<le> RECV_BUFF_SIZE"
  shows "keep_tail L (seg @ replicate k 0) =
     Some (drop (RECV_BUFF_SIZE - L) seg @ replicate (RECV_BUFF_SIZE + 1) 0)"
  using assms by (simp add: keep_tail_def bytes_from_def memcpy_at_def)

lemma memcpy_tail:
  assumes "length v = L" "length seg \<le> RECV_BUFF_SIZE"
  shows "memcpy_at (v @ replicate (RECV_BUFF_SIZE + 1) 0) L seg =
     Some (v @ seg @ replicate (RECV_BUFF_SIZE + 1 - length seg) 0)"
  using assms by (simp add: memcpy_at_def)

lemma bytes_from_load:
  "length seg \<le> RECV_BUFF_SIZE \<Longrightarrow> bytes_from (seg @ replicate k 0) 0 (length seg) = Some seg"
  by (simp add: bytes_from_def)

text \<open>What the overlap buffer knows after the full packets \<open>s\<close>.\<close>

definition search_inv :: "u8 list \<Rightarrow> u8 list \<Rightarrow> ec20_app \<Rightarrow> bool" where
  "search_inv pat s a \<longleftrightarrow>
     (if result_flag a = 0
      then \<not> sublist pat s \<and> result_buff a = Some (drop (length s - length pat) s @ replicate (RECV_BUFF_SIZE + 1) 0)
      else result_flag a = 1 \<and> sublist pat s)"

lemma strstr_pad: "no_nul s \<Longrightarrow> 0 < k \<Longrightarrow> strstr (s @ replicate k 0) pat = Some (sublist pat s)"
  by (simp add: strstr_def cstr_pad)

lemma general_full_first:
  assumes "length seg = RECV_BUFF_SIZE" "no_nul seg" "length pat \<le> RECV_BUFF_SIZE" "result_buff a = None"
    "result_flag a = 0" "mallocs w = []"
  shows "\<exists>a'. general_full pat (load seg a) w = Some (a', w) \<and> search_inv pat seg a' \<and>
     cmd_index a' = cmd_index a \<and> Appli_state a' = Appli_state a \<and> AppliEvent a' = AppliEvent a \<and>
     timeout_times a' = timeout_times a"
proof -
  have s: "strstr (seg @ replicate 1 0) pat = Some (sublist pat seg)" by (rule strstr_pad) (use assms in simp_all)
  have k: "keep_tail (length pat) (seg @ [0]) = Some (drop (RECV_BUFF_SIZE - length pat) seg @ replicate (RECV_BUFF_SIZE + 1) 0)"
    using keep_tail_load [OF assms(1,3), of 1] by simp
  show ?thesis using assms s k
    by (simp add: general_full_def take_malloc_def search_inv_def)
qed

lemma general_full_next:
  assumes "length seg = RECV_BUFF_SIZE" "no_nul seg" "no_nul s" "length pat \<le> RECV_BUFF_SIZE"
    "length pat \<le> length s" "search_inv pat s a" "mallocs w = []"
  shows "\<exists>a'. general_full pat (load seg a) w = Some (a', w) \<and> search_inv pat (s @ seg) a' \<and>
     cmd_index a' = cmd_index a \<and> Appli_state a' = Appli_state a \<and> AppliEvent a' = AppliEvent a \<and>
     timeout_times a' = timeout_times a"
proof (cases "result_flag a = 0")
  case True
  let ?u = "take (length s - length pat) s" and ?v = "drop (length s - length pat) s"
  have uv: "s = ?u @ ?v" by simp
  have lv: "length ?v = length pat" using assms(5) by simp
  from True assms(6) have nf: "\<not> sublist pat s" and rb: "result_buff a = Some (?v @ replicate (RECV_BUFF_SIZE + 1) 0)"
    by (simp_all add: search_inv_def)
  have found: "sublist pat (s @ seg) \<longleftrightarrow> sublist pat (?v @ seg)"
  proof -
    have "?u @ ?v @ seg = s @ seg" by (metis append_assoc append_take_drop_id)
    with sublist_split [of pat ?u ?v seg] nf lv show ?thesis by simp
  qed
  have nn: "no_nul (?v @ seg)" using assms(2,3) by (auto simp: no_nul_def dest: in_set_dropD)
  have m: "memcpy_at (?v @ replicate (RECV_BUFF_SIZE + 1) 0) (length pat) seg = Some ((?v @ seg) @ [0])"
    using memcpy_tail [OF lv, of seg] assms(1) by simp
  have st: "strstr ((?v @ seg) @ [0]) pat = Some (sublist pat (?v @ seg))"
    using strstr_pad [OF nn, of 1] by simp
  have b: "bytes_from (seg @ [0]) 0 RECV_BUFF_SIZE = Some seg"
    using bytes_from_load [of seg 1] assms(1) by simp
  have k: "keep_tail (length pat) (seg @ [0]) = Some (drop (RECV_BUFF_SIZE - length pat) seg @ replicate (RECV_BUFF_SIZE + 1) 0)"
    using keep_tail_load [OF assms(1,4), of 1] by simp
  have d: "drop (length (s @ seg) - length pat) (s @ seg) = drop (RECV_BUFF_SIZE - length pat) seg"
    using assms(1,4) by simp
  show ?thesis using True rb assms(1) m st b k found d
    by (simp add: general_full_def search_inv_def)
next
  case False
  with assms(6) have f: "result_flag a = 1" "sublist pat s" by (simp_all add: search_inv_def)
  then have f2: "sublist pat (s @ seg)" by (simp add: sublist_append)
  show ?thesis
  proof (cases "result_buff a")
    case None
    have s: "strstr (seg @ [0]) pat = Some (sublist pat seg)" using strstr_pad [OF assms(2), of 1] by simp
    have k: "keep_tail (length pat) (seg @ [0]) = Some (drop (RECV_BUFF_SIZE - length pat) seg @ replicate (RECV_BUFF_SIZE + 1) 0)"
      using keep_tail_load [OF assms(1,4), of 1] by simp
    from None f f2 assms(1,7) s k show ?thesis
      by (simp add: general_full_def search_inv_def take_malloc_def)
  next
    case (Some rb)
    with f f2 show ?thesis by (simp add: general_full_def search_inv_def)
  qed
qed

text \<open>Feeding packets to the hook; between two packets the callback only clears and re-arms.\<close>

fun feed_general :: "u8 list list \<Rightarrow> ec20_app \<Rightarrow> world \<Rightarrow> (ec20_app \<times> world) option" where
  "feed_general [] a w = Some (a, w)"
| "feed_general (seg # segs) a w = do {
     (_, a, w) \<leftarrow> ec20_recv_general (of_nat (length seg)) (load seg a) w;
     feed_general segs a w
   }"

lemma general_at:
  assumes "rd cmd (nat (cmd_index a)) = Some c" "cmd_result c = Some pat" "0 \<le> cmd_index a"
    "length seg = RECV_BUFF_SIZE" "general_full pat (load seg a) w = Some (a', w')"
  shows "ec20_recv_general (of_nat (length seg)) (load seg a) w =
     Some (0, a'\<lparr>ec20_recvdata := Some ec20_recv_general_fn\<rparr>, w')"
  using assms by (simp add: ec20_recv_general_def)

lemma search_inv_hook [simp]: "search_inv pat s (a\<lparr>ec20_recvdata := f\<rparr>) = search_inv pat s a"
  by (simp add: search_inv_def)

lemma feed_full:
  assumes "rd cmd (nat i) = Some c" "cmd_result c = Some pat" "0 \<le> i" "length pat \<le> RECV_BUFF_SIZE"
  shows "\<forall>seg\<in>set segs. length seg = RECV_BUFF_SIZE \<and> no_nul seg \<Longrightarrow> no_nul s \<Longrightarrow>
    length pat \<le> length s \<Longrightarrow> search_inv pat s a \<Longrightarrow> cmd_index a = i \<Longrightarrow> mallocs w = [] \<Longrightarrow>
    \<exists>a'. feed_general segs a w = Some (a', w) \<and> search_inv pat (s @ concat segs) a' \<and> cmd_index a' = i \<and>
      Appli_state a' = Appli_state a \<and> AppliEvent a' = AppliEvent a \<and> timeout_times a' = timeout_times a"
proof (induction segs arbitrary: s a)
  case Nil
  then show ?case by simp
next
  case (Cons seg segs)
  have l: "length seg = RECV_BUFF_SIZE" "no_nul seg" using Cons.prems(1) by simp_all
  from general_full_next [OF l Cons.prems(2) assms(4) Cons.prems(3,4,6)] obtain a1
    where 1: "general_full pat (load seg a) w = Some (a1, w)" "search_inv pat (s @ seg) a1" "cmd_index a1 = cmd_index a"
      "Appli_state a1 = Appli_state a" "AppliEvent a1 = AppliEvent a" "timeout_times a1 = timeout_times a" by blast
  have r: "ec20_recv_general (of_nat (length seg)) (load seg a) w =
     Some (0, a1\<lparr>ec20_recvdata := Some ec20_recv_general_fn\<rparr>, w)"
    by (rule general_at [OF _ assms(2) _ l(1) 1(1)]) (use assms Cons.prems(5) in simp_all)
  have "no_nul (s @ seg)" using l(2) Cons.prems(2) by (simp add: no_nul_def)
  with Cons.IH [of "s @ seg" "a1\<lparr>ec20_recvdata := Some ec20_recv_general_fn\<rparr>"] 1 Cons.prems r
  show ?case by simp
qed


lemma of_nat_small: "n \<le> RECV_BUFF_SIZE \<Longrightarrow> unat (of_nat n :: u16) = n"
  by (simp add: unat_of_nat)

text \<open>The last, short packet decides.\<close>

lemma general_last_search:
  assumes "length seg < RECV_BUFF_SIZE" "no_nul seg" "no_nul s"
    "search_inv pat s a \<and> length pat \<le> length s \<or> s = [] \<and> result_flag a = 0 \<and> result_buff a = None"
  shows "\<exists>a'. general_last pat (of_nat (length seg)) (load seg a) = Some a' \<and>
     result_flag a' = (if sublist pat (s @ seg) then 1 else 0) \<and> recv_buf a' = recv_buf (load seg a) \<and>
     Appli_state a' = Appli_state a \<and> AppliEvent a' = AppliEvent a \<and> timeout_times a' = timeout_times a"
proof -
  have u: "unat (of_nat (length seg) :: u16) = length seg" using assms(1) by (intro of_nat_small) simp
  have pad: "0 < RECV_BUFF_SIZE + 1 - length seg" using assms(1) by simp
  consider (flag) "search_inv pat s a" "result_flag a \<noteq> 0"
    | (open_search) "search_inv pat s a" "result_flag a = 0" "length pat \<le> length s"
    | (first) "s = []" "result_flag a = 0" "result_buff a = None"
    using assms(4) by (cases "result_flag a = 0") auto
  then show ?thesis
  proof cases
    case flag
    then have "result_flag a = 1" "sublist pat (s @ seg)" by (simp_all add: search_inv_def sublist_append)
    then show ?thesis by (simp add: general_last_def)
  next
    case open_search
    let ?u = "take (length s - length pat) s" and ?v = "drop (length s - length pat) s"
    have lv: "length ?v = length pat" using open_search(3) by simp
    from open_search have nf: "\<not> sublist pat s" and rb: "result_buff a = Some (?v @ replicate (RECV_BUFF_SIZE + 1) 0)"
      by (simp_all add: search_inv_def)
    have found: "sublist pat (s @ seg) \<longleftrightarrow> sublist pat (?v @ seg)"
    proof -
      have "?u @ ?v @ seg = s @ seg" by (metis append_assoc append_take_drop_id)
      with sublist_split [of pat ?u ?v seg] nf lv show ?thesis by simp
    qed
    have nn: "no_nul (?v @ seg)" using assms(2,3) by (auto simp: no_nul_def dest: in_set_dropD)
    have m: "memcpy_at (?v @ replicate (RECV_BUFF_SIZE + 1) 0) (length pat) seg =
        Some ((?v @ seg) @ replicate (RECV_BUFF_SIZE + 1 - length seg) 0)"
      using memcpy_tail [OF lv, of seg] assms(1) by simp
    note st = strstr_pad [OF nn pad, of pat]
    note b = bytes_from_load [of seg "RECV_BUFF_SIZE + 1 - length seg"]
    show ?thesis using open_search(2) rb u m st b assms(1) found by (simp add: general_last_def)
  next
    case first
    with strstr_pad [OF assms(2) pad, of pat] show ?thesis by (simp add: general_last_def)
  qed
qed

lemma general_done:
  assumes "rd cmd (nat (cmd_index a)) = Some c" "cmd_result c = Some pat" "0 \<le> cmd_index a"
    "length seg < RECV_BUFF_SIZE" "general_last pat (of_nat (length seg)) (load seg a) = Some a1"
    "recv_buf a1 = recv_buf (load seg a)" "result_flag a1 = (if f then 1 else 0)"
  shows "ec20_recv_general (of_nat (length seg)) (load seg a) w = Some (0,
     if f then app_put (app_next (Appli_state a1)) (clear_recv a1\<lparr>result_buff := None, result_flag := 0,
            ec20_recvdata := Some ec20_recv_cmd_select_fn, timeout_times := 0\<rparr>)
     else app_put (Appli_state a1) (clear_recv a1\<lparr>result_buff := None, result_flag := 0,
            ec20_recvdata := Some ec20_recv_cmd_select_fn\<rparr>), w)"
proof -
  have u: "unat (of_nat (length seg) :: u16) = length seg" using assms(4) by (intro of_nat_small) simp
  have p: "print_check (of_nat (length seg)) (a1\<lparr>result_buff := None\<rparr>) = Some ()"
    using assms(4,6) u by (simp add: print_check_def)
  show ?thesis
    using assms(1-5,7) u p by (simp add: ec20_recv_general_def clear_recv_def app_put_def)
qed

lemma feed_general_append:
  "feed_general (xs @ ys) a w = do { (a, w) \<leftarrow> feed_general xs a w; feed_general ys a w }"
  by (induction xs arbitrary: a w) (simp_all split: option.splits bind_splits add: split_beta)

text \<open>
  The answer to a command, in any number of packets: the next state is requested exactly when the
  expected result occurs in what the modem sent, wherever the packet boundaries fall.
\<close>

lemma general_searches_stream:
  assumes "rd cmd (nat (cmd_index a)) = Some c" "cmd_result c = Some pat" "0 \<le> cmd_index a"
    "length pat \<le> RECV_BUFF_SIZE" "result_flag a = 0" "result_buff a = None" "mallocs w = []"
    "\<forall>seg\<in>set fulls. length seg = RECV_BUFF_SIZE \<and> no_nul seg" "length final < RECV_BUFF_SIZE" "no_nul final"
  shows "\<exists>a'. feed_general (fulls @ [final]) a w = Some (a', w) \<and>
     ec20_recvdata a' = Some ec20_recv_cmd_select_fn \<and> result_flag a' = 0 \<and> result_buff a' = None \<and>
     (if sublist pat (concat fulls @ final)
      then AppliEvent a' = mq_put APP_Q_SIZE (AppliEvent a) (app_next (Appli_state a)) \<and> timeout_times a' = 0
      else AppliEvent a' = mq_put APP_Q_SIZE (AppliEvent a) (Appli_state a) \<and> timeout_times a' = timeout_times a)"
proof -
  have "\<exists>a1. feed_general fulls a w = Some (a1, w) \<and> cmd_index a1 = cmd_index a \<and>
      Appli_state a1 = Appli_state a \<and> AppliEvent a1 = AppliEvent a \<and> timeout_times a1 = timeout_times a \<and>
      (search_inv pat (concat fulls) a1 \<and> length pat \<le> length (concat fulls) \<or>
       concat fulls = [] \<and> result_flag a1 = 0 \<and> result_buff a1 = None)"
  proof (cases fulls)
    case Nil
    with assms show ?thesis by simp
  next
    case (Cons seg segs)
    have l: "length seg = RECV_BUFF_SIZE" "no_nul seg" using assms(8) Cons by simp_all
    from general_full_first [OF l assms(4,6,5,7)] obtain a1
      where 1: "general_full pat (load seg a) w = Some (a1, w)" "search_inv pat seg a1" "cmd_index a1 = cmd_index a"
        "Appli_state a1 = Appli_state a" "AppliEvent a1 = AppliEvent a" "timeout_times a1 = timeout_times a" by blast
    note r = general_at [OF assms(1,2,3) l(1) 1(1)]
    from feed_full [OF assms(1,2,3,4), of segs seg "a1\<lparr>ec20_recvdata := Some ec20_recv_general_fn\<rparr>" w]
      l 1 assms(4,7,8) Cons obtain a2 where 2: "feed_general segs (a1\<lparr>ec20_recvdata := Some ec20_recv_general_fn\<rparr>) w = Some (a2, w)"
      "search_inv pat (seg @ concat segs) a2" "cmd_index a2 = cmd_index a"
      "Appli_state a2 = Appli_state a" "AppliEvent a2 = AppliEvent a" "timeout_times a2 = timeout_times a" by auto
    with r Cons l(1) assms(4) show ?thesis by auto
  qed
  then obtain a1 where 1: "feed_general fulls a w = Some (a1, w)" "cmd_index a1 = cmd_index a"
      "Appli_state a1 = Appli_state a" "AppliEvent a1 = AppliEvent a" "timeout_times a1 = timeout_times a"
      and s: "search_inv pat (concat fulls) a1 \<and> length pat \<le> length (concat fulls) \<or>
       concat fulls = [] \<and> result_flag a1 = 0 \<and> result_buff a1 = None" by blast
  have "no_nul (concat fulls)" using assms(8) by (auto simp: no_nul_def)
  from general_last_search [OF assms(9,10) this s] obtain a2
    where 2: "general_last pat (of_nat (length final)) (load final a1) = Some a2"
      "result_flag a2 = (if sublist pat (concat fulls @ final) then 1 else 0)"
      "recv_buf a2 = recv_buf (load final a1)" "Appli_state a2 = Appli_state a1" "AppliEvent a2 = AppliEvent a1"
      "timeout_times a2 = timeout_times a1" by blast
  have "ec20_recv_general (of_nat (length final)) (load final a1) w = Some (0,
     if sublist pat (concat fulls @ final)
     then app_put (app_next (Appli_state a2)) (clear_recv a2\<lparr>result_buff := None, result_flag := 0,
            ec20_recvdata := Some ec20_recv_cmd_select_fn, timeout_times := 0\<rparr>)
     else app_put (Appli_state a2) (clear_recv a2\<lparr>result_buff := None, result_flag := 0,
            ec20_recvdata := Some ec20_recv_cmd_select_fn\<rparr>), w)"
    by (rule general_done [OF _ assms(2) _ assms(9) 2(1,3,2)]) (use 1 assms(1,3) in simp_all)
  with 1 2 show ?thesis by (simp add: feed_general_append app_put_def clear_recv_def)
qed

subsection \<open>Powering the modem\<close>

text \<open>
  The readings on which the power sequence ends: an off modem (high) that goes low, or an on modem
  (low) that goes high and then low again.
\<close>

definition power_answers :: "bool list \<Rightarrow> bool" where
  "power_answers rs \<longleftrightarrow> (case rs of [] \<Rightarrow> False
     | r # rs \<Rightarrow> False \<in> set (if r then rs else tl (dropWhile Not rs)))"

definition key_pulse :: "hw_op list" where
  "key_pulse = [HW_Pin EC20_PWRKEY_PIN False, HW_Delay 40, HW_Pin EC20_PWRKEY_PIN True, HW_Delay 700,
     HW_Pin EC20_PWRKEY_PIN False]"

definition pin_setup :: "hw_op list" where
  "pin_setup = [HW_PinInit GPIOB_9 True, HW_Pin GPIOB_9 True, HW_PinInit EC20_STATUS_PIN False,
     HW_PinInit EC20_RST_PIN True, HW_PinInit EC20_PWRKEY_PIN True, HW_Pin EC20_RST_PIN False]"

definition powered_last :: "hw_op list \<Rightarrow> bool" where
  "powered_last tr \<longleftrightarrow> (\<exists>tr0 n. tr = tr0 @ key_pulse @ replicate n (HW_Delay 100))"

lemma wait_status_eq:
  "wait_status v b = (if v \<in> set (status_reads b)
     then Some (b\<lparr>trace := trace b @ replicate (length (takeWhile (\<lambda>r. r \<noteq> v) (status_reads b))) (HW_Delay 100),
                status_reads := tl (dropWhile (\<lambda>r. r \<noteq> v) (status_reads b))\<rparr>)
     else None)"
proof (induction "status_reads b" arbitrary: b)
  case Nil
  then show ?case by (subst wait_status.simps) (simp add: status_pin_def flip: Nil)
next
  case (Cons r rs)
  let ?b = "hw (HW_Delay 100) (b\<lparr>status_reads := rs\<rparr>)"
  from Cons(2) have step: "wait_status v b = (if r = v then Some (b\<lparr>status_reads := rs\<rparr>) else wait_status v ?b)"
    by (subst wait_status.simps) (simp add: status_pin_def flip: Cons(2))
  show ?case using Cons(1) [of ?b] by (simp add: step hw_def flip: Cons(2))
qed

lemma press_power_key_simps [simp]:
  "trace (press_power_key b) = trace b @ key_pulse" "status_reads (press_power_key b) = status_reads b"
  by (simp_all add: press_power_key_def key_pulse_def Let_def)

lemma power_init_eq:
  "ec20PowerInit b = (case status_reads b of [] \<Rightarrow> None
     | r # rs \<Rightarrow>
        let b1 = b\<lparr>trace := trace b @ pin_setup, status_reads := rs\<rparr> in
        if r then wait_status False (press_power_key b1)
        else do { b2 \<leftarrow> wait_status True (press_power_key b1); wait_status False (press_power_key b2) })"
  by (simp add: ec20PowerInit_def status_pin_def pin_setup_def hw_def Let_def split: list.splits)

lemma wait_status_pressed:
  "wait_status v (press_power_key b) = (if v \<in> set (status_reads b)
     then Some (b\<lparr>trace := trace b @ key_pulse @
                  replicate (length (takeWhile (\<lambda>r. r \<noteq> v) (status_reads b))) (HW_Delay 100),
                status_reads := tl (dropWhile (\<lambda>r. r \<noteq> v) (status_reads b))\<rparr>)
     else None)"
  by (simp add: wait_status_eq) (simp add: press_power_key_def hw_def key_pulse_def Let_def)

lemma tl_dropWhile_mem: "x \<in> set (tl (dropWhile P rs)) \<Longrightarrow> \<exists>y\<in>set rs. \<not> P y"
  by (metis dropWhile_eq_Nil_conv empty_iff empty_set tl_Nil)

text \<open>The four courses of the sequence, by the first reading.\<close>

lemma power_init_off:
  "status_reads b = True # rs \<Longrightarrow> ec20PowerInit b = (if False \<in> set rs
     then Some (b\<lparr>trace := trace b @ pin_setup @ key_pulse @ replicate (length (takeWhile id rs)) (HW_Delay 100),
                status_reads := tl (dropWhile id rs)\<rparr>)
     else None)"
  by (simp add: power_init_eq wait_status_pressed Let_def id_def)

lemma power_init_on:
  "status_reads b = False # rs \<Longrightarrow> ec20PowerInit b =
     (let rs2 = tl (dropWhile Not rs) in if False \<in> set rs2
      then Some (b\<lparr>trace := trace b @ pin_setup @ key_pulse @ replicate (length (takeWhile Not rs)) (HW_Delay 100) @
                   key_pulse @ replicate (length (takeWhile id rs2)) (HW_Delay 100),
                 status_reads := tl (dropWhile id rs2)\<rparr>)
      else None)"
  using tl_dropWhile_mem [of False Not rs]
  by (auto simp add: power_init_eq wait_status_pressed Let_def id_def)

lemma power_init_pulses:
  assumes "power_answers (status_reads b)"
  shows "\<exists>b'. ec20PowerInit b = Some b' \<and> powered_last (trace b')"
proof (cases "status_reads b")
  case Nil
  with assms show ?thesis by (simp add: power_answers_def)
next
  case (Cons r rs)
  have p: "\<exists>tr0' n'. tr0 @ key_pulse @ replicate n (HW_Delay 100) = tr0' @ key_pulse @ replicate n' (HW_Delay 100)"
    for tr0 n by blast
  show ?thesis using Cons assms p [of "trace b @ pin_setup"]
    p [of "trace b @ pin_setup @ key_pulse @ replicate (length (takeWhile Not rs)) (HW_Delay 100)"]
    by (cases r) (simp_all add: power_init_off power_init_on power_answers_def powered_last_def Let_def)
qed

text \<open>
  The power sequence ends exactly when the status pin follows it, and then the power key was
  pressed once on a modem that was off, twice on one that was on, with nothing but waits after the
  last press; on a modem that does not answer it waits for ever.
\<close>

theorem power_cycle:
  "case ec20PowerInit b of
     None \<Rightarrow> \<not> power_answers (status_reads b)
   | Some b' \<Rightarrow> power_answers (status_reads b) \<and>
       (\<exists>m n. trace b' = trace b @ pin_setup @
          (if hd (status_reads b) then [] else key_pulse @ replicate m (HW_Delay 100)) @
          key_pulse @ replicate n (HW_Delay 100))"
proof (cases "status_reads b")
  case Nil
  then show ?thesis by (simp add: power_init_eq power_answers_def)
next
  case (Cons r rs)
  then show ?thesis by (cases r) (auto simp: power_init_off power_init_on power_answers_def Let_def)
qed

subsection \<open>A silent modem\<close>

text \<open>
  The sender's view: record, live thread, a class driver it can hand data to, and a modem whose status
  pin will follow the power key.
\<close>

definition sender_ok :: "hid \<Rightarrow> world \<Rightarrow> ec20_app \<Rightarrow> app_thread \<Rightarrow> bool" where
  "sender_ok x w a t \<longleftrightarrow> (\<exists>h e. hs w x = Some h \<and> app_data h = Some a \<and> EC20_Send_Thread a = Some t \<and>
     length (send_buf t) = 64 \<and> get_ec20 h = Some e \<and> OutEpSize e \<noteq> 0) \<and> power_answers (status_reads (wb w))"

lemma memcpy_at_length: "memcpy_at d k s = Some d' \<Longrightarrow> length d' = length d"
  by (auto simp: memcpy_at_def split: if_splits)

lemma Transmit_total:
  assumes "get_ec20 h = Some e" "OutEpSize e \<noteq> 0"
  shows "\<exists>s h' b' e'. USBH_EC20_Transmit h b p len = Some (s, h', b') \<and> get_ec20 h' = Some e' \<and>
     OutEpSize e' \<noteq> 0 \<and> app_data h' = app_data h \<and> status_reads b' = status_reads b"
  using assms by (simp add: USBH_EC20_Transmit_def Let_def)

lemma put_app_sender:
  assumes "sender_ok x w a t" "EC20_Send_Thread a' = Some t'" "length (send_buf t') = 64"
  shows "\<exists>w'. put_app x a' w = Some w' \<and> sender_ok x w' a' t' \<and> wb w' = wb w"
  using assms by (auto simp: sender_ok_def put_app_def get_ec20_def)

lemma sender_delay [simp]: "sender_ok x (mod_bus (USBH_Delay d) w) a t = sender_ok x w a t"
  by (simp add: sender_ok_def USBH_Delay_def)

lemma send_data_total:
  assumes "sender_ok x w a t"
  shows "\<exists>s w' t' n. EC20_send_data x c w = Some (s, w') \<and> th_live t' = th_live t \<and>
     sender_ok x w' (a\<lparr>EC20_Send_Thread := Some t', tx_total_num := n\<rparr>) t'"
proof -
  from assms obtain h e where h: "hs w x = Some h" "app_data h = Some a" "EC20_Send_Thread a = Some t"
    "length (send_buf t) = 64" "get_ec20 h = Some e" "OutEpSize e \<noteq> 0" and pw: "power_answers (status_reads (wb w))"
    by (auto simp: sender_ok_def)
  let ?text = "take (length (send_buf t) - 1) (c @ [0x0D, 0x0A])"
  have "length (?text @ [0]) \<le> 64" using h(4) by simp
  then obtain sb where sb: "memcpy_at (send_buf t) 0 (?text @ [0]) = Some sb"
    using h(4) unfolding memcpy_at_def by (metis add_0)
  let ?a = "a\<lparr>EC20_Send_Thread := Some (t\<lparr>send_buf := sb\<rparr>)\<rparr>" and ?h = "h\<lparr>app_data := Some (a\<lparr>EC20_Send_Thread := Some (t\<lparr>send_buf := sb\<rparr>)\<rparr>)\<rparr>"
  have l: "length sb = 64" using memcpy_at_length [OF sb] h(4) by simp
  have g: "get_ec20 ?h = Some e" using h(5) by (simp add: get_ec20_def)
  from Transmit_total [OF g h(6)] obtain s h' b' e'
    where tr: "USBH_EC20_Transmit ?h (wb w) (Send_of x) (of_nat (length ?text)) = Some (s, h', b')"
    "get_ec20 h' = Some e'" "OutEpSize e' \<noteq> 0" "app_data h' = app_data ?h" "status_reads b' = status_reads (wb w)" by blast
  have on: "on_host x (\<lambda>h b. USBH_EC20_Transmit h b (Send_of x) (of_nat (length ?text))) (put_host x ?h w) =
      Some (s, (put_host x h' (put_host x ?h w))\<lparr>wb := b'\<rparr>)"
    by (rule on_host_Some) (use tr in simp_all)
  let ?w = "(put_host x h' (put_host x ?h w))\<lparr>wb := b'\<rparr>"
  have hw: "hs ?w x = Some h'" and ah: "app_data h' = Some ?a" using tr(4) by simp_all
  have sw: "sender_ok x ?w ?a (t\<lparr>send_buf := sb\<rparr>)" using tr l pw by (simp add: sender_ok_def)
  show ?thesis
  proof (cases "s = USBH_OK")
    case True
    let ?n = "tx_total_num ?a + of_nat (length (c @ [0x0D, 0x0A]))"
    from put_app_sender [OF sw, of "?a\<lparr>tx_total_num := ?n\<rparr>" "t\<lparr>send_buf := sb\<rparr>"] l obtain w2
      where w2: "put_app x (?a\<lparr>tx_total_num := ?n\<rparr>) ?w = Some w2"
        "sender_ok x w2 (?a\<lparr>tx_total_num := ?n\<rparr>) (t\<lparr>send_buf := sb\<rparr>)" by auto
    have "EC20_send_data x c w = Some (s, w2)"
      by (simp only: EC20_send_data_def Let_def h(1-3) sb on Option.bind.simps prod.case True if_True simp_thms hw ah w2(1))
    then show ?thesis using w2(2) by (intro exI [of _ s] exI [of _ w2] exI [of _ "t\<lparr>send_buf := sb\<rparr>"] exI [of _ ?n]) simp
  next
    case False
    have "EC20_send_data x c w = Some (s, ?w)"
      by (simp only: EC20_send_data_def Let_def h(1-3) sb on Option.bind.simps prod.case False if_False)
    then show ?thesis using sw
      by (intro exI [of _ s] exI [of _ ?w] exI [of _ "t\<lparr>send_buf := sb\<rparr>"] exI [of _ "tx_total_num a"]) simp
  qed
qed

definition app_active :: "ApplicationTypeDef \<Rightarrow> bool" where
  "app_active st \<longleftrightarrow> st \<in> {EC20_APPLICATION_READY, EC20_APPLICATION_SMS_DONE,
     EC20_APPLICATION_QUERY_CARD, EC20_APPLICATION_QUERY_CS, EC20_APPLICATION_QUERY_PS,
     EC20_APPLICATION_CONFIG_PDP, EC20_APPLICATION_ACTIVATE_PDP, EC20_APPLICATION_RUNNING}"

lemma enter_state_ok:
  assumes "sender_ok x w a t"
  shows "\<exists>w'. enter_state x st w = Some w' \<and>
     sender_ok x w' (a\<lparr>Appli_state := st, timeout_times := timeout_times a + 1\<rparr>) t"
proof -
  let ?a = "a\<lparr>Appli_state := st, timeout_times := timeout_times a + 1\<rparr>"
  have "EC20_Send_Thread ?a = Some t" "length (send_buf t) = 64" using assms by (auto simp: sender_ok_def)
  from put_app_sender [OF assms this] obtain w' where "put_app x ?a w = Some w'" "sender_ok x w' ?a t" by blast
  then show ?thesis using assms by (auto simp: enter_state_def sender_ok_def)
qed

lemma app_event_active:
  assumes "sender_ok x w a t" "app_active st"
  shows "\<exists>s w' t' n. app_event x st w = Some (s, w') \<and> th_live t' = th_live t \<and>
     sender_ok x w' (a\<lparr>Appli_state := st, timeout_times := timeout_times a + 1, EC20_Send_Thread := Some t',
       tx_total_num := n\<rparr>) t'"
proof -
  from enter_state_ok [OF assms(1), of st] obtain w1 where w1: "enter_state x st w = Some w1"
    "sender_ok x w1 (a\<lparr>Appli_state := st, timeout_times := timeout_times a + 1\<rparr>) t" by blast
  have cmd: ?thesis if "\<And>s w'. EC20_send_data x c (if d then mod_bus (USBH_Delay 1000) w1 else w1) = Some (s, w') \<Longrightarrow>
      \<exists>s. app_event x st w = Some (s, w')" for c d
  proof -
    have "sender_ok x (if d then mod_bus (USBH_Delay 1000) w1 else w1)
        (a\<lparr>Appli_state := st, timeout_times := timeout_times a + 1\<rparr>) t" using w1(2) by simp
    from send_data_total [OF this, of c] that show ?thesis by fastforce
  qed
  have th: "EC20_Send_Thread a = Some t" using assms(1) by (auto simp: sender_ok_def)
  show ?thesis
  proof (cases st)
    case EC20_APPLICATION_READY
    then show ?thesis using w1 by (intro cmd [of CMD_TESTING False]) (simp add: app_event_def app_command_def)
  next
    case EC20_APPLICATION_SMS_DONE
    have "a\<lparr>Appli_state := st, timeout_times := timeout_times a + 1\<rparr> =
        a\<lparr>Appli_state := st, timeout_times := timeout_times a + 1, EC20_Send_Thread := Some t, tx_total_num := tx_total_num a\<rparr>"
      using th by simp
    with EC20_APPLICATION_SMS_DONE w1 show ?thesis
      by (intro exI [of _ USBH_OK] exI [of _ w1] exI [of _ t] exI [of _ "tx_total_num a"]) (simp add: app_event_def)
  next
    case EC20_APPLICATION_QUERY_CARD
    then show ?thesis using w1 by (intro cmd [of CMD_QUERY_CARD False]) (simp add: app_event_def app_command_def)
  next
    case EC20_APPLICATION_QUERY_CS
    then show ?thesis using w1 by (intro cmd [of CMD_QUERY_CS False]) (simp add: app_event_def app_command_def)
  next
    case EC20_APPLICATION_QUERY_PS
    then show ?thesis using w1 by (intro cmd [of CMD_QUERY_PS False]) (simp add: app_event_def app_command_def)
  next
    case EC20_APPLICATION_CONFIG_PDP
    then show ?thesis using w1 by (intro cmd [of CMD_CONFIG_PDP False]) (simp add: app_event_def app_command_def)
  next
    case EC20_APPLICATION_ACTIVATE_PDP
    then show ?thesis using w1 by (intro cmd [of CMD_ACTIVATE_PDP True]) (simp add: app_event_def)
  next
    case EC20_APPLICATION_RUNNING
    then show ?thesis using w1 by (intro cmd [of CMD_RUNNING False]) (simp add: app_event_def app_command_def)
  qed (use assms(2) in \<open>simp_all add: app_active_def\<close>)
qed

text \<open>A thread in state \<open>st\<close> that has heard nothing for \<open>k\<close> rounds.\<close>

definition waiting_in :: "ApplicationTypeDef \<Rightarrow> nat \<Rightarrow> hid \<Rightarrow> world \<Rightarrow> bool" where
  "waiting_in st k x w \<longleftrightarrow> (\<exists>a t. sender_ok x w a t \<and> th_live t \<and> Appli_state a = st \<and>
     AppliEvent a \<in> {[], [st]} \<and> unat (timeout_times a) = k)"

definition gone :: "hid \<Rightarrow> world \<Rightarrow> bool" where
  "gone x w \<longleftrightarrow> (\<exists>h a t. hs w x = Some h \<and> app_data h = Some a \<and> EC20_Send_Thread a = Some t \<and>
     \<not> th_live t \<and> timeout_times a = 0 \<and> g_stop_flag a = 0 \<and> powered_last (trace (wb w)))"

lemma app_receive_waiting:
  assumes "sender_ok x w a t" "Appli_state a = st" "app_active st" "AppliEvent a \<in> {[], [st]}"
    "timeout_times a \<le> MAX_TIME_OUT_NUM"
  shows "\<exists>s w' a' t'. app_receive x t a w = Some (s, w') \<and> sender_ok x w' a' t' \<and> th_live t' = th_live t \<and>
     Appli_state a' = st \<and> AppliEvent a' \<in> {[], [st]} \<and> timeout_times a' = timeout_times a + 1"
proof (cases "AppliEvent a")
  case Nil
  let ?a = "app_put (Appli_state a) (a\<lparr>timeout_times := timeout_times a + 1\<rparr>)"
  have "EC20_Send_Thread ?a = Some t" "length (send_buf t) = 64" using assms(1) by (auto simp: sender_ok_def app_put_def)
  from put_app_sender [OF assms(1) this] obtain w' where "put_app x ?a w = Some w'" "sender_ok x w' ?a t" by blast
  then show ?thesis using Nil assms(2,5)
    by (intro exI [of _ "th_status t"] exI [of _ w'] exI [of _ ?a] exI [of _ t])
      (simp add: app_receive_def mq_get_def app_put_def mq_put_def)
next
  case (Cons e q)
  with assms(4) have eq: "e = st" "q = []" by auto
  let ?a = "a\<lparr>AppliEvent := []\<rparr>"
  have "EC20_Send_Thread ?a = Some t" "length (send_buf t) = 64" using assms(1) by (auto simp: sender_ok_def)
  from put_app_sender [OF assms(1) this] obtain w1 where w1: "put_app x ?a w = Some w1" "sender_ok x w1 ?a t" by blast
  from app_event_active [OF w1(2) assms(3)] obtain s w' t' n where r: "app_event x st w1 = Some (s, w')"
    "th_live t' = th_live t" "sender_ok x w' (?a\<lparr>Appli_state := st, timeout_times := timeout_times ?a + 1,
       EC20_Send_Thread := Some t', tx_total_num := n\<rparr>) t'" by blast
  have "app_receive x t a w = Some (s, w')" using Cons eq w1(1) r(1) by (simp add: app_receive_def mq_get_def)
  with r show ?thesis by (intro exI conjI) (assumption | simp)+
qed

lemma app_settle_ok:
  assumes "sender_ok x w a t" "th_live t" "Appli_state a = st" "AppliEvent a \<in> {[], [st]}"
  shows "\<exists>w'. app_settle x s w = Some w' \<and>
    (if timeout_times a > MAX_TIME_OUT_NUM then gone x w' else waiting_in st (unat (timeout_times a)) x w')"
proof (cases "timeout_times a > MAX_TIME_OUT_NUM")
  case True
  let ?a = "app_exit (t\<lparr>th_status := s\<rparr>) (a\<lparr>timeout_times := 0\<rparr>)"
  from assms(1) have "power_answers (status_reads (wb w))" by (simp add: sender_ok_def)
  from power_init_pulses [OF this] obtain b where b: "ec20PowerInit (wb w) = Some b" "powered_last (trace b)" by blast
  from assms(1) obtain h where h: "hs w x = Some h" "app_data h = Some a" "EC20_Send_Thread a = Some t"
    by (auto simp: sender_ok_def)
  let ?w = "put_host x (h\<lparr>app_data := Some ?a\<rparr>) (w\<lparr>wb := b\<rparr>)"
  have "app_settle x s w = Some ?w" using True h b(1) by (simp add: app_settle_def put_app_def)
  moreover have "gone x ?w" unfolding gone_def using b(2)
    by (intro exI [of _ "h\<lparr>app_data := Some ?a\<rparr>"] exI [of _ ?a] exI [of _ "t\<lparr>th_status := s, th_live := False\<rparr>"])
      (simp add: app_exit_def)
  ultimately show ?thesis using True by simp
next
  case False
  let ?t = "t\<lparr>th_status := s\<rparr>"
  let ?a = "if s \<noteq> USBH_OK then app_put (Appli_state a) (a\<lparr>EC20_Send_Thread := Some ?t\<rparr>) else a\<lparr>EC20_Send_Thread := Some ?t\<rparr>"
  have p: "EC20_Send_Thread ?a = Some ?t" "length (send_buf ?t) = 64"
    using assms(1) by (auto simp: sender_ok_def app_put_def)
  from put_app_sender [OF assms(1) p] obtain w' where w': "put_app x ?a w = Some w'" "sender_ok x w' ?a ?t" by blast
  have "AppliEvent ?a \<in> {[], [st]}" "Appli_state ?a = st" "timeout_times ?a = timeout_times a"
    using assms(3,4) by (auto simp: app_put_def mq_put_def)
  with w' assms(2) have "waiting_in st (unat (timeout_times a)) x w'" unfolding waiting_in_def by fastforce
  then show ?thesis using False assms(1) w'(1) by (auto simp: app_settle_def sender_ok_def)
qed

lemma silent_round:
  assumes "waiting_in st k x w" "app_active st" "k \<le> 5"
  shows "\<exists>w'. Start_EC20_Application_Thread x w = Some w' \<and>
     (if k = 5 then gone x w' else waiting_in st (Suc k) x w')"
proof -
  from assms(1) obtain a t where a: "sender_ok x w a t" "th_live t" "Appli_state a = st"
    "AppliEvent a \<in> {[], [st]}" "unat (timeout_times a) = k" by (auto simp: waiting_in_def)
  have le: "timeout_times a \<le> MAX_TIME_OUT_NUM" using a(5) assms(3) by (simp add: word_le_nat_alt)
  from app_receive_waiting [OF a(1,3) assms(2) a(4) le] obtain s w1 a1 t1
    where 1: "app_receive x t a w = Some (s, w1)" "sender_ok x w1 a1 t1" "th_live t1" "Appli_state a1 = st"
      "AppliEvent a1 \<in> {[], [st]}" "timeout_times a1 = timeout_times a + 1" using a(2) by blast
  have u: "unat (timeout_times a1) = Suc k" using 1(6) a(5) assms(3) by (simp add: unat_word_ariths)
  have gt: "timeout_times a1 > MAX_TIME_OUT_NUM \<longleftrightarrow> k = 5" using u assms(3) by (auto simp: word_less_nat_alt)
  from app_settle_ok [OF 1(2-5), of s] obtain w' where "app_settle x s w1 = Some w'"
    "if timeout_times a1 > MAX_TIME_OUT_NUM then gone x w' else waiting_in st (unat (timeout_times a1)) x w'" by blast
  moreover have "Start_EC20_Application_Thread x w = app_settle x s w1"
    using a(1-3) 1(1) assms(2) by (auto simp: Start_EC20_Application_Thread_def sender_ok_def app_active_def)
  ultimately show ?thesis using gt u by auto
qed

fun thread_rounds :: "nat \<Rightarrow> hid \<Rightarrow> world \<Rightarrow> world option" where
  "thread_rounds 0 x w = Some w"
| "thread_rounds (Suc n) x w = do { w \<leftarrow> Start_EC20_Application_Thread x w; thread_rounds n x w }"

text \<open>
  C15: a modem that stays silent is power-cycled. From any command state, after at most six rounds
  of the sender thread (time-outs and repeated commands, whether or not the driver accepts them) the
  modem has been switched on anew and the thread has ended, provided its status pin follows the power
  key.
\<close>

theorem silent_modem_reset:
  "waiting_in st k x w \<Longrightarrow> app_active st \<Longrightarrow> k \<le> 5 \<Longrightarrow>
    \<exists>w'. thread_rounds (6 - k) x w = Some w' \<and> gone x w'"
proof (induction "5 - k" arbitrary: k w)
  case 0
  with silent_round [OF 0(2,3,4)] have "k = 5" by simp
  with silent_round [OF 0(2,3,4)] show ?case by (auto simp: eval_nat_numeral)
next
  case (Suc d)
  then have "k \<noteq> 5" by simp
  with silent_round [OF Suc.prems] obtain w1 where 1: "Start_EC20_Application_Thread x w = Some w1"
    "waiting_in st (Suc k) x w1" by auto
  have "6 - k = Suc (6 - Suc k)" using \<open>k \<noteq> 5\<close> Suc.prems(3) by simp
  with Suc.hyps(1) [of "Suc k" w1] Suc.hyps(2) 1 Suc.prems(2,3) show ?case by simp
qed

subsection \<open>The command table\<close>

lemma echoes:
  "\<forall>i\<in>{0..<8}. find_cmd_loop cmd 0 (cmd_name (cmd ! i) @ [0x0D, 0x0A]) = Some (i, cmd ! i)"
  by code_simp

subsection \<open>The hooks stay inside their buffers\<close>

definition ends_nul :: "u8 list \<Rightarrow> bool" where
  "ends_nul b \<longleftrightarrow> b \<noteq> [] \<and> last b = 0"

definition tail_ok :: "nat \<Rightarrow> u8 list option \<Rightarrow> bool" where
  "tail_ok L rb \<longleftrightarrow> (\<forall>b. rb = Some b \<longrightarrow> length b = L + RECV_BUFF_SIZE + 1 \<and> ends_nul b)"

text \<open>
  The record between two packets: the receive buffer has its 65 bytes and a NUL at the end, the
  overlap buffer the size its hook allocated.
\<close>

definition app_ok :: "ec20_app \<Rightarrow> bool" where
  "app_ok a \<longleftrightarrow> length (recv_buf a) = RECV_BUFF_SIZE + 1 \<and> ends_nul (recv_buf a) \<and>
     (case ec20_recvdata a of
        Some ec20_recv_cmd_select_fn \<Rightarrow> tail_ok (length CMD_RUNNING) (result_buff a)
      | Some ec20_recv_general_fn \<Rightarrow> 0 \<le> cmd_index a \<and>
          (\<exists>c pat. rd cmd (nat (cmd_index a)) = Some c \<and> cmd_result c = Some pat \<and>
             length pat \<le> RECV_BUFF_SIZE \<and> tail_ok (length pat) (result_buff a))
      | _ \<Rightarrow> result_buff a = None)"

lemma tail_ok_None [simp]: "tail_ok L None"
  by (simp add: tail_ok_def)

lemma ends_nul_mem: "ends_nul b \<Longrightarrow> 0 \<in> set b"
  by (auto simp: ends_nul_def dest: last_in_set)

lemma strstr_total: "ends_nul b \<Longrightarrow> \<exists>f. strstr b pat = Some f"
  by (simp add: strstr_def cstr_def ends_nul_mem)

lemma bytes_from_total: "off + n \<le> length b \<Longrightarrow> \<exists>s. bytes_from b off n = Some s \<and> length s = n"
  by (simp add: bytes_from_def)

lemma memcpy_tail_ok:
  assumes "length b = L + RECV_BUFF_SIZE + 1" "ends_nul b" "length seg \<le> RECV_BUFF_SIZE"
  shows "\<exists>b'. memcpy_at b L seg = Some b' \<and> length b' = L + RECV_BUFF_SIZE + 1 \<and> ends_nul b'"
  using assms by (auto simp: memcpy_at_def ends_nul_def last_append last_drop)

lemma keep_tail_ok:
  assumes "length b = RECV_BUFF_SIZE + 1" "L \<le> RECV_BUFF_SIZE"
  shows "\<exists>b'. keep_tail L b = Some b' \<and> length b' = L + RECV_BUFF_SIZE + 1 \<and> ends_nul b'"
  using assms by (simp add: keep_tail_def bytes_from_def memcpy_at_def ends_nul_def)

lemma clear_recv_ok [simp]:
  "length (recv_buf (clear_recv a)) = RECV_BUFF_SIZE + 1" "ends_nul (recv_buf (clear_recv a))"
  "result_buff (clear_recv a) = result_buff a" "ec20_recvdata (clear_recv a) = ec20_recvdata a"
  "cmd_index (clear_recv a) = cmd_index a" "rx_total_num (clear_recv a) = rx_total_num a"
  by (simp_all add: clear_recv_def ends_nul_def)

lemma app_put_fields [simp]:
  "recv_buf (app_put e a) = recv_buf a" "ec20_recvdata (app_put e a) = ec20_recvdata a"
  "result_buff (app_put e a) = result_buff a" "cmd_index (app_put e a) = cmd_index a"
  by (simp_all add: app_put_def)

lemma app_put_ok [simp]: "app_ok (app_put e a) = app_ok a"
  by (simp add: app_ok_def cong: option.case_cong recv_fn.case_cong)

definition hook_post :: "(int \<times> ec20_app \<times> world) option \<Rightarrow> world \<Rightarrow> bool" where
  "hook_post r w \<longleftrightarrow> (\<exists>ret a w'. r = Some (ret, a, w') \<and> app_ok (clear_recv a) \<and>
     length (recv_buf a) = RECV_BUFF_SIZE + 1 \<and> hs w' = hs w \<and> wb w' = wb w)"

lemma general_full_ok:
  assumes "length (recv_buf a) = RECV_BUFF_SIZE + 1" "ends_nul (recv_buf a)" "length pat \<le> RECV_BUFF_SIZE"
    "tail_ok (length pat) (result_buff a)"
  shows "\<exists>a' w'. general_full pat a w = Some (a', w') \<and> tail_ok (length pat) (result_buff a') \<and>
     recv_buf a' = recv_buf a \<and> cmd_index a' = cmd_index a \<and> hs w' = hs w \<and> wb w' = wb w"
proof (cases "result_buff a")
  case None
  obtain f where f: "strstr (recv_buf a) pat = Some f" using strstr_total [OF assms(2)] by blast
  obtain ok w1 where tm: "take_malloc w = (ok, w1)" by (cases "take_malloc w")
  have w1: "hs w1 = hs w" "wb w1 = wb w" using take_malloc_simps [of w] tm by simp_all
  from keep_tail_ok [OF assms(1,3)] None f tm w1 assms(4) show ?thesis
    by (auto simp: general_full_def tail_ok_def)
next
  case (Some rb)
  obtain seg where seg: "bytes_from (recv_buf a) 0 RECV_BUFF_SIZE = Some seg" "length seg = RECV_BUFF_SIZE"
    using bytes_from_total [of 0 RECV_BUFF_SIZE "recv_buf a"] assms(1) by auto
  have l: "length rb = length pat + RECV_BUFF_SIZE + 1" "ends_nul rb" using Some assms(4) by (simp_all add: tail_ok_def)
  from memcpy_tail_ok [OF l, of seg] seg obtain rb' where rb': "memcpy_at rb (length pat) seg = Some rb'"
    "length rb' = length pat + RECV_BUFF_SIZE + 1" "ends_nul rb'" by auto
  obtain f where "strstr rb' pat = Some f" using strstr_total [OF rb'(3)] by blast
  with keep_tail_ok [OF assms(1,3)] Some seg rb' assms(4) show ?thesis
    by (auto simp: general_full_def tail_ok_def)
qed

lemma general_last_ok:
  assumes "length (recv_buf a) = RECV_BUFF_SIZE + 1" "ends_nul (recv_buf a)" "unat n \<le> RECV_BUFF_SIZE"
    "tail_ok (length pat) (result_buff a)"
  shows "\<exists>a'. general_last pat n a = Some a' \<and> recv_buf a' = recv_buf a"
proof (cases "result_buff a")
  case None
  obtain f where "strstr (recv_buf a) pat = Some f" using strstr_total [OF assms(2)] by blast
  with None show ?thesis by (auto simp: general_last_def)
next
  case (Some rb)
  obtain seg where seg: "bytes_from (recv_buf a) 0 (unat n) = Some seg" "length seg = unat n"
    using bytes_from_total [of 0 "unat n" "recv_buf a"] assms(1,3) by auto
  have l: "length rb = length pat + RECV_BUFF_SIZE + 1" "ends_nul rb" using Some assms(4) by (simp_all add: tail_ok_def)
  from memcpy_tail_ok [OF l, of seg] seg assms(3) obtain rb' where rb': "memcpy_at rb (length pat) seg = Some rb'"
    "ends_nul rb'" by auto
  obtain f where "strstr rb' pat = Some f" using strstr_total [OF rb'(2)] by blast
  with Some seg rb' show ?thesis by (auto simp: general_last_def)
qed

lemma general_hook_ok:
  assumes "app_ok a" "ec20_recvdata a = Some ec20_recv_general_fn" "unat n \<le> RECV_BUFF_SIZE"
  shows "hook_post (ec20_recv_general n a w) w"
proof -
  from assms obtain c pat where b: "length (recv_buf a) = RECV_BUFF_SIZE + 1" "ends_nul (recv_buf a)"
    and c: "0 \<le> cmd_index a" "rd cmd (nat (cmd_index a)) = Some c" "cmd_result c = Some pat"
      "length pat \<le> RECV_BUFF_SIZE" "tail_ok (length pat) (result_buff a)"
    by (auto simp: app_ok_def)
  show ?thesis
  proof (cases "unat n = RECV_BUFF_SIZE")
    case True
    from general_full_ok [OF b c(4,5), of w] obtain a' w' where r: "general_full pat a w = Some (a', w')"
      "tail_ok (length pat) (result_buff a')" "recv_buf a' = recv_buf a" "cmd_index a' = cmd_index a"
      "hs w' = hs w" "wb w' = wb w" by blast
    then have "ec20_recv_general n a w = Some (0, a'\<lparr>ec20_recvdata := Some ec20_recv_general_fn\<rparr>, w')"
      using c True by (simp add: ec20_recv_general_def)
    with r b c show ?thesis by (auto simp: hook_post_def app_ok_def clear_recv_def ends_nul_def)
  next
    case False
    from general_last_ok [OF b assms(3) c(5)] obtain a' where r: "general_last pat n a = Some a'"
      "recv_buf a' = recv_buf a" by blast
    have p: "print_check n (a'\<lparr>result_buff := None\<rparr>) = Some ()" using r b assms(3) by (simp add: print_check_def)
    from c False r p show ?thesis
      by (auto simp: ec20_recv_general_def hook_post_def app_ok_def clear_recv_def ends_nul_def app_put_def Let_def)
  qed
qed

lemma find_cmd_total:
  assumes "ends_nul b"
  shows "\<exists>ret a'. ec20_find_cmd b a = Some (ret, a') \<and>
     (ret = -1 \<and> a' = a \<or>
      ret = 0 \<and> (\<exists>i c. find_cmd_loop cmd 0 (takeWhile (\<lambda>c. c \<noteq> 0) b) = Some (i, c) \<and>
         a' = a\<lparr>ec20_recvdata := Some (cmd_recvdata c), cmd_index := int i\<rparr>))"
  using ends_nul_mem [OF assms]
  by (cases "find_cmd_loop cmd 0 (takeWhile (\<lambda>c. c \<noteq> 0) b)") (auto simp: ec20_find_cmd_def cstr_def)

lemma find_cmd_loop_sound:
  "find_cmd_loop cs i s = Some (j, c) \<Longrightarrow>
     i \<le> j \<and> j - i < length cs \<and> c = cs ! (j - i) \<and> sublist (cmd_name c) s"
proof (induction cs arbitrary: i)
  case (Cons c0 cs)
  show ?case
  proof (cases "sublist (cmd_name c0) s")
    case True
    with Cons.prems show ?thesis by auto
  next
    case False
    with Cons.prems have "find_cmd_loop cs (Suc i) s = Some (j, c)" by simp
    from Cons.IH [OF this] have "Suc i \<le> j" "j - Suc i < length cs" "c = cs ! (j - Suc i)" "sublist (cmd_name c) s" by auto
    moreover from this(1) have "j - i = Suc (j - Suc i)" by simp
    ultimately show ?thesis by simp
  qed
qed simp

text \<open>Every table entry that selects the searching hook has a result to search for.\<close>

lemma cmd_general_result:
  assumes "i < length cmd" "cmd_recvdata (cmd ! i) = ec20_recv_general_fn"
  shows "\<exists>pat. cmd_result (cmd ! i) = Some pat \<and> length pat \<le> RECV_BUFF_SIZE"
proof -
  have "\<forall>c\<in>set cmd. cmd_recvdata c = ec20_recv_general_fn \<longrightarrow>
      (\<exists>pat. cmd_result c = Some pat \<and> length pat \<le> RECV_BUFF_SIZE)"
    by (simp add: cmd_def ascii_def)
  with assms show ?thesis using nth_mem by blast
qed

lemma cmd_hooks: "i < length cmd \<Longrightarrow> cmd_recvdata (cmd ! i) \<noteq> ec20_recv_cmd_select_fn"
proof -
  have "\<forall>c\<in>set cmd. cmd_recvdata c \<noteq> ec20_recv_cmd_select_fn" by (simp add: cmd_def)
  then show "i < length cmd \<Longrightarrow> ?thesis" using nth_mem by blast
qed

lemma selected_ok:
  assumes "find_cmd_loop cmd 0 s = Some (i, c)" "length (recv_buf a) = RECV_BUFF_SIZE + 1"
  shows "app_ok (clear_recv (a\<lparr>ec20_recvdata := Some (cmd_recvdata c), cmd_index := int i, result_buff := None\<rparr>))"
proof -
  from find_cmd_loop_sound [OF assms(1)] have i: "i < length cmd" "c = cmd ! i" by simp_all
  then have r: "rd cmd i = Some c" by (simp add: rd_def)
  have ns: "cmd_recvdata c \<noteq> ec20_recv_cmd_select_fn" using cmd_hooks i by simp
  show ?thesis
  proof (cases "cmd_recvdata c")
    case ec20_recv_general_fn
    from cmd_general_result [OF i(1)] ec20_recv_general_fn i(2) r obtain pat
      where "cmd_result c = Some pat" "length pat \<le> RECV_BUFF_SIZE" by auto
    with ec20_recv_general_fn r show ?thesis
      by (simp add: app_ok_def clear_recv_def ends_nul_def)
  qed (use ns in \<open>simp_all add: app_ok_def clear_recv_def ends_nul_def\<close>)
qed

lemma length_cmds: "length CMD_RUNNING = 26" "length cmd = 8"
  by (simp_all add: CMD_RUNNING_def ascii_def cmd_def)

lemma select_full_ok:
  assumes "length (recv_buf a) = RECV_BUFF_SIZE + 1" "ends_nul (recv_buf a)"
    "tail_ok (length CMD_RUNNING) (result_buff a)" "ec20_recvdata a = Some ec20_recv_cmd_select_fn"
  shows "\<exists>ret a' w'. select_full a w = Some (ret, a', w') \<and> hs w' = hs w \<and> wb w' = wb w \<and> recv_buf a' = recv_buf a \<and>
     app_ok (clear_recv (if ret = 0 then a'\<lparr>result_buff := None\<rparr> else a'))"
proof (cases "result_buff a")
  case None
  obtain ok w1 where tm: "take_malloc w = (ok, w1)" by (cases "take_malloc w")
  have w1: "hs w1 = hs w" "wb w1 = wb w" using take_malloc_simps [of w] tm by simp_all
  from keep_tail_ok [OF assms(1), of "length CMD_RUNNING"] length_cmds(1) obtain b'
    where b': "keep_tail (length CMD_RUNNING) (recv_buf a) = Some b'"
      "length b' = length CMD_RUNNING + RECV_BUFF_SIZE + 1" "ends_nul b'" by auto
  from find_cmd_total [OF assms(2), of a] show ?thesis
  proof (elim exE conjE disjE)
    fix ret a' assume "ec20_find_cmd (recv_buf a) a = Some (ret, a')" "ret = -1" "a' = a"
    then show ?thesis using None tm w1 b' assms
      by (cases ok) (simp_all add: select_full_def app_ok_def tail_ok_def)
  next
    fix ret a' i c assume "ec20_find_cmd (recv_buf a) a = Some (ret, a')" "ret = 0"
      "find_cmd_loop cmd 0 (takeWhile (\<lambda>c. c \<noteq> 0) (recv_buf a)) = Some (i, c)"
      "a' = a\<lparr>ec20_recvdata := Some (cmd_recvdata c), cmd_index := int i\<rparr>"
    then show ?thesis using None selected_ok [of _ i c a] assms(1) by (simp add: select_full_def)
  qed
next
  case (Some rb)
  obtain seg where seg: "bytes_from (recv_buf a) 0 RECV_BUFF_SIZE = Some seg" "length seg = RECV_BUFF_SIZE"
    using bytes_from_total [of 0 RECV_BUFF_SIZE "recv_buf a"] assms(1) by auto
  have l: "length rb = length CMD_RUNNING + RECV_BUFF_SIZE + 1" "ends_nul rb"
    using Some assms(3) by (simp_all add: tail_ok_def)
  from memcpy_tail_ok [OF l, of seg] seg obtain rb' where rb': "memcpy_at rb (length CMD_RUNNING) seg = Some rb'"
    "ends_nul rb'" by auto
  from keep_tail_ok [OF assms(1), of "length CMD_RUNNING"] length_cmds(1) obtain b'
    where b': "keep_tail (length CMD_RUNNING) (recv_buf a) = Some b'"
      "length b' = length CMD_RUNNING + RECV_BUFF_SIZE + 1" "ends_nul b'" by auto
  from find_cmd_total [OF rb'(2), of a] show ?thesis
  proof (elim exE conjE disjE)
    fix ret a' assume "ec20_find_cmd rb' a = Some (ret, a')" "ret = -1" "a' = a"
    then show ?thesis using Some seg rb' b' assms
      by (simp add: select_full_def app_ok_def tail_ok_def)
  next
    fix ret a' i c assume "ec20_find_cmd rb' a = Some (ret, a')" "ret = 0"
      "find_cmd_loop cmd 0 (takeWhile (\<lambda>c. c \<noteq> 0) rb') = Some (i, c)"
      "a' = a\<lparr>ec20_recvdata := Some (cmd_recvdata c), cmd_index := int i\<rparr>"
    then show ?thesis using Some seg rb' selected_ok [of _ i c a] assms(1) by (simp add: select_full_def)
  qed
qed

lemma select_last_ok:
  assumes "length (recv_buf a) = RECV_BUFF_SIZE + 1" "ends_nul (recv_buf a)" "unat n < RECV_BUFF_SIZE"
    "tail_ok (length CMD_RUNNING) (result_buff a)" "ec20_recvdata a = Some ec20_recv_cmd_select_fn"
  shows "\<exists>ret a'. select_last n a = Some (ret, a') \<and> recv_buf a' = recv_buf a \<and>
     app_ok (clear_recv (a'\<lparr>result_buff := None\<rparr>))"
proof -
  have fin: "\<exists>ret a'. ec20_find_cmd b a0 = Some (ret, a') \<and> recv_buf a' = recv_buf a \<and>
      app_ok (clear_recv (a'\<lparr>result_buff := None\<rparr>))"
    if "ends_nul b" "recv_buf a0 = recv_buf a" "ec20_recvdata a0 = Some ec20_recv_cmd_select_fn" for b a0
    using find_cmd_total [OF that(1), of a0]
  proof (elim exE conjE disjE)
    fix ret a' assume "ec20_find_cmd b a0 = Some (ret, a')" "ret = -1" "a' = a0"
    then show ?thesis using that by (simp add: app_ok_def)
  next
    fix ret a' i c assume "ec20_find_cmd b a0 = Some (ret, a')" "ret = 0"
      "find_cmd_loop cmd 0 (takeWhile (\<lambda>c. c \<noteq> 0) b) = Some (i, c)"
      "a' = a0\<lparr>ec20_recvdata := Some (cmd_recvdata c), cmd_index := int i\<rparr>"
    then show ?thesis using selected_ok [of _ i c a0] that assms(1) by simp
  qed
  show ?thesis
  proof (cases "result_buff a")
    case None
    with fin [OF assms(2) refl assms(5)] show ?thesis by (simp add: select_last_def)
  next
    case (Some rb)
    obtain seg where seg: "bytes_from (recv_buf a) 0 (unat n) = Some seg" "length seg = unat n"
      using bytes_from_total [of 0 "unat n" "recv_buf a"] assms(1,3) by auto
    have l: "length rb = length CMD_RUNNING + RECV_BUFF_SIZE + 1" "ends_nul rb"
      using Some assms(4) by (simp_all add: tail_ok_def)
    from memcpy_tail_ok [OF l, of seg] seg assms(3) obtain rb' where rb': "memcpy_at rb (length CMD_RUNNING) seg = Some rb'"
      "ends_nul rb'" by auto
    with fin [OF rb'(2), of "a\<lparr>result_buff := Some rb'\<rparr>"] Some seg assms(5) show ?thesis
      by (simp add: select_last_def)
  qed
qed

lemma select_hook_ok:
  assumes "app_ok a" "ec20_recvdata a = Some ec20_recv_cmd_select_fn" "unat n \<le> RECV_BUFF_SIZE"
  shows "hook_post (ec20_recv_cmd_select n a w) w"
proof -
  from assms have b: "length (recv_buf a) = RECV_BUFF_SIZE + 1" "ends_nul (recv_buf a)"
    "tail_ok (length CMD_RUNNING) (result_buff a)" by (simp_all add: app_ok_def)
  show ?thesis
  proof (cases "unat n = RECV_BUFF_SIZE")
    case True
    from select_full_ok [OF b assms(2), of w] obtain ret a' w' where r: "select_full a w = Some (ret, a', w')"
      "hs w' = hs w" "wb w' = wb w" "recv_buf a' = recv_buf a"
      "app_ok (clear_recv (if ret = 0 then a'\<lparr>result_buff := None\<rparr> else a'))" by blast
    then have "ec20_recv_cmd_select n a w = Some (ret, if ret = 0 then a'\<lparr>result_buff := None\<rparr> else a', w')"
      using True by (simp add: ec20_recv_cmd_select_def)
    with r b show ?thesis by (cases "ret = 0") (auto simp: hook_post_def)
  next
    case False
    with assms(3) have "unat n < RECV_BUFF_SIZE" by simp
    from select_last_ok [OF b(1,2) this b(3) assms(2)] obtain ret a' where "select_last n a = Some (ret, a')"
      "recv_buf a' = recv_buf a" "app_ok (clear_recv (a'\<lparr>result_buff := None\<rparr>))" by blast
    moreover from this \<open>unat n < RECV_BUFF_SIZE\<close>
    have "ec20_recv_cmd_select n a w = Some (ret, a'\<lparr>result_buff := None\<rparr>, w)"
      using False by (simp add: ec20_recv_cmd_select_def)
    ultimately show ?thesis using b by (simp add: hook_post_def)
  qed
qed

lemma hooks_safe_fact:
  assumes "app_ok a" "ec20_recvdata a = Some f" "unat n \<le> RECV_BUFF_SIZE"
  shows "\<exists>ret a' w'. call_hook f n a w = Some (ret, a', w') \<and> app_ok (clear_recv a') \<and>
     length (recv_buf a') = RECV_BUFF_SIZE + 1 \<and> hs w' = hs w \<and> wb w' = wb w"
proof -
  have "hook_post (call_hook f n a w) w"
  proof (cases f)
    case ec20_recv_cmd_select_fn
    with select_hook_ok [OF assms(1) _ assms(3)] assms(2) show ?thesis by simp
  next
    case ec20_recv_general_fn
    with general_hook_ok [OF assms(1) _ assms(3)] assms(2) show ?thesis by simp
  qed (use assms(1,2) in \<open>simp_all add: hook_post_def app_ok_def ec20_recv_ati_def ec20_recv_init_done_def
      ec20_recv_running_def Let_def clear_recv_def ends_nul_def app_put_def\<close>)
  then show ?thesis by (simp add: hook_post_def)
qed

text \<open>
  C16: on every packet of at most 64 bytes, whatever they are and whatever the allocator answers,
  every receive hook returns, writes inside its buffers only, and leaves the record fit for the
  next packet.
\<close>

theorem hooks_safe:
  assumes "app_ok a" "ec20_recvdata a = Some f" "unat n \<le> RECV_BUFF_SIZE"
  shows "\<exists>ret a' w'. call_hook f n a w = Some (ret, a', w') \<and> app_ok (clear_recv a') \<and>
     length (recv_buf a') = RECV_BUFF_SIZE + 1 \<and> hs w' = hs w \<and> wb w' = wb w"
  by (rule hooks_safe_fact [OF assms])

definition sample_app :: ec20_app where
  "sample_app = zero_app\<lparr>ec20_recvdata := Some ec20_recv_cmd_select_fn\<rparr>"

lemma hooks_safe_witness:
  "\<exists>ret a' w'. call_hook ec20_recv_cmd_select_fn 64 (load (replicate 64 0x41) sample_app) sample_world = Some (ret, a', w') \<and>
     app_ok (clear_recv a') \<and> length (recv_buf a') = RECV_BUFF_SIZE + 1 \<and>
     hs w' = hs sample_world \<and> wb w' = wb sample_world"
  by (rule hooks_safe) (simp_all add: app_ok_def sample_app_def zero_app_def ends_nul_def)

subsection \<open>One exchange with the modem\<close>

text \<open>Packets go to whatever hook is set, as the callback does it.\<close>

fun exchange :: "u8 list list \<Rightarrow> ec20_app \<Rightarrow> world \<Rightarrow> (ec20_app \<times> world) option" where
  "exchange [] a w = Some (a, w)"
| "exchange (seg # segs) a w = do {
     f \<leftarrow> ec20_recvdata a;
     (_, a, w) \<leftarrow> call_hook f (of_nat (length seg)) (load seg a) w;
     exchange segs a w
   }"

lemma general_stays:
  assumes "ec20_recv_general (of_nat (length seg)) a w = Some (r, a', w')" "length seg = RECV_BUFF_SIZE"
  shows "ec20_recvdata a' = Some ec20_recv_general_fn"
  using assms by (auto simp: ec20_recv_general_def bind_eq_Some_conv)

lemma exchange_general:
  "\<forall>seg\<in>set fulls. length seg = RECV_BUFF_SIZE \<Longrightarrow> ec20_recvdata a = Some ec20_recv_general_fn \<Longrightarrow>
     exchange (fulls @ [final]) a w = feed_general (fulls @ [final]) a w"
proof (induction fulls arbitrary: a w)
  case Nil
  then show ?case
    by (cases "ec20_recv_general (of_nat (length final)) (load final a) w") auto
next
  case (Cons seg segs)
  show ?case
  proof (cases "ec20_recv_general (of_nat (length seg)) (load seg a) w")
    case None
    with Cons.prems(2) show ?thesis by simp
  next
    case (Some r)
    then obtain s a1 w1 where r: "ec20_recv_general (of_nat (length seg)) (load seg a) w = Some (s, a1, w1)"
      by (cases r) auto
    have "ec20_recvdata a1 = Some ec20_recv_general_fn" using general_stays [OF r] Cons.prems(1) by simp
    with Cons.IH [of a1 w1] Cons.prems r show ?thesis by simp
  qed
qed

definition echo :: "nat \<Rightarrow> u8 list" where
  "echo i = cmd_name (cmd ! i) @ [0x0D, 0x0A]"

lemma echo_short: "i < 8 \<Longrightarrow> length (echo i) < RECV_BUFF_SIZE \<and> no_nul (echo i)"
proof -
  have "\<forall>c\<in>set cmd. length (cmd_name c @ [0x0D, 0x0A]) < RECV_BUFF_SIZE \<and> no_nul (cmd_name c @ [0x0D, 0x0A])"
    by (simp add: cmd_def CMD_TESTING_def CMD_SMS_DONE_def CMD_QUERY_CARD_def CMD_QUERY_CS_def CMD_QUERY_PS_def
        CMD_CONFIG_PDP_def CMD_ACTIVATE_PDP_def CMD_RUNNING_def ascii_def no_nul_def)
  moreover assume "i < 8"
  then have "cmd ! i \<in> set cmd" using length_cmds(2) by simp
  ultimately show ?thesis unfolding echo_def by blast
qed

lemma echo_found: "i < 8 \<Longrightarrow> find_cmd_loop cmd 0 (echo i) = Some (i, cmd ! i)"
proof -
  have "\<forall>i\<in>{0..<8}. find_cmd_loop cmd 0 (echo i) = Some (i, cmd ! i)" unfolding echo_def by code_simp
  then show "i < 8 \<Longrightarrow> ?thesis" by simp
qed

lemma select_echo:
  assumes "i < 8" "result_buff a = None"
  shows "ec20_recv_cmd_select (of_nat (length (echo i))) (load (echo i) a) w =
     Some (0, load (echo i) (a\<lparr>ec20_recvdata := Some (cmd_recvdata (cmd ! i)), cmd_index := int i\<rparr>), w)"
proof -
  note e = echo_short [OF assms(1)]
  have u: "unat (of_nat (length (echo i)) :: u16) = length (echo i)" using e by (intro of_nat_small) simp
  have "cstr (echo i @ replicate (RECV_BUFF_SIZE + 1 - length (echo i)) 0) = Some (echo i)"
    by (rule cstr_pad) (use e in simp_all)
  then have "ec20_find_cmd (recv_buf (load (echo i) a)) (load (echo i) a) =
      Some (0, load (echo i) (a\<lparr>ec20_recvdata := Some (cmd_recvdata (cmd ! i)), cmd_index := int i\<rparr>))"
    using echo_found [OF assms(1)] by (simp add: ec20_find_cmd_def load_def)
  then show ?thesis using u e assms(2) by (simp add: ec20_recv_cmd_select_def select_last_def load_def)
qed

text \<open>
  C4: a query to the modem. When the modem echoes the command and then answers in any number of
  packets, the next query is requested exactly when the expected result occurs in the answer,
  wherever the packet boundaries fall; otherwise the same query is requested again and the time-out
  count keeps running.
\<close>

theorem command_exchange:
  assumes "i \<in> {2..<7}" "cmd_result (cmd ! i) = Some pat" "ec20_recvdata a = Some ec20_recv_cmd_select_fn"
    "result_flag a = 0" "result_buff a = None" "mallocs w = []"
    "\<forall>seg\<in>set fulls. length seg = RECV_BUFF_SIZE \<and> no_nul seg" "length final < RECV_BUFF_SIZE" "no_nul final"
  shows "\<exists>a'. exchange (echo i # fulls @ [final]) a w = Some (a', w) \<and>
     ec20_recvdata a' = Some ec20_recv_cmd_select_fn \<and> result_flag a' = 0 \<and> result_buff a' = None \<and>
     (if sublist pat (concat fulls @ final)
      then AppliEvent a' = mq_put APP_Q_SIZE (AppliEvent a) (app_next (Appli_state a)) \<and> timeout_times a' = 0
      else AppliEvent a' = mq_put APP_Q_SIZE (AppliEvent a) (Appli_state a) \<and> timeout_times a' = timeout_times a)"
proof -
  have i: "i < length cmd" using assms(1) by (simp add: cmd_def)
  have gen: "cmd_recvdata (cmd ! i) = ec20_recv_general_fn"
  proof -
    have "\<forall>i\<in>{2..<7}. cmd_recvdata (cmd ! i) = ec20_recv_general_fn" by code_simp
    with assms(1) show ?thesis by blast
  qed
  let ?a = "load (echo i) (a\<lparr>ec20_recvdata := Some ec20_recv_general_fn, cmd_index := int i\<rparr>)"
  have c: "rd cmd (nat (cmd_index ?a)) = Some (cmd ! i)" using i by (simp add: rd_def)
  have "length pat \<le> RECV_BUFF_SIZE" using cmd_general_result [OF i gen] assms(2) by simp
  from general_searches_stream [OF c assms(2) _ this _ _ assms(6,7,8,9)] assms(4,5) obtain a'
    where f: "feed_general (fulls @ [final]) ?a w = Some (a', w) \<and>
     ec20_recvdata a' = Some ec20_recv_cmd_select_fn \<and> result_flag a' = 0 \<and> result_buff a' = None \<and>
     (if sublist pat (concat fulls @ final)
      then AppliEvent a' = mq_put APP_Q_SIZE (AppliEvent a) (app_next (Appli_state a)) \<and> timeout_times a' = 0
      else AppliEvent a' = mq_put APP_Q_SIZE (AppliEvent a) (Appli_state a) \<and> timeout_times a' = timeout_times a)"
    by (fastforce simp: load_def)
  have "exchange (fulls @ [final]) ?a w = feed_general (fulls @ [final]) ?a w"
    by (rule exchange_general) (use assms(7) in \<open>simp_all add: load_def\<close>)
  with f show ?thesis using select_echo [of i a w] assms(1,3,5) gen by simp
qed

lemma command_exchange_witness:
  "\<exists>a'. exchange (echo 2 # [replicate 62 0x2E @ [0x52, 0x45]] @ [[0x41, 0x44, 0x59]]) sample_app sample_world = Some (a', sample_world) \<and>
     AppliEvent a' = mq_put APP_Q_SIZE (AppliEvent sample_app) (app_next (Appli_state sample_app))"
proof -
  have p: "cmd_result (cmd ! 2) = Some (ascii ''READY'')" by (simp add: cmd_def)
  have s: "sublist (ascii ''READY'') (concat [replicate 62 0x2E @ [0x52, 0x45]] @ [0x41, 0x44, 0x59])" by code_simp
  from command_exchange [OF _ p, of sample_app sample_world "[replicate 62 0x2E @ [0x52, 0x45]]" "[0x41, 0x44, 0x59]"] s
  show ?thesis by (auto simp: sample_app_def zero_app_def sample_world_def no_nul_def)
qed

subsection \<open>A stale application\<close>

definition sample_env :: usb_env where
  "sample_env = \<lparr>e_Init = \<lambda>_ _ _. None, e_DeInit = \<lambda>_ _ _. None, e_Requests = \<lambda>_ _ _. None,
     e_BgndProcess = \<lambda>_ _ _. None, e_SOFProcess = \<lambda>_ _ _. None, e_user = \<lambda>_ _ w. Some w, e_irq = \<lambda>_ w. Some w\<rparr>"

lemma delete_spins: "hs w x = Some h \<Longrightarrow> app_data h = None \<Longrightarrow> delete_EC20_Application x w = None"
  by (simp add: delete_EC20_Application_def)

text \<open>What the interrupts, which come in while the callback waits for the thread to end, leave alone.\<close>

definition irq_keeps_class :: "usb_env \<Rightarrow> hid \<Rightarrow> bool" where
  "irq_keeps_class env x \<longleftrightarrow> (\<forall>n v v' h c. e_irq env n v = Some v' \<longrightarrow> hs v x = Some h \<longrightarrow> app_class h = Some c \<longrightarrow>
     (\<exists>h'. hs v' x = Some h' \<and> app_class h' = Some c))"

definition has_class :: "hid \<Rightarrow> app_ref \<Rightarrow> world \<Rightarrow> bool" where
  "has_class x c w \<longleftrightarrow> (\<exists>h. hs w x = Some h \<and> app_class h = Some c)"

lemma stop_wait_class:
  assumes "irq_keeps_class env x"
  shows "stop_wait env x i w = Some w' \<Longrightarrow> has_class x c w \<Longrightarrow> has_class x c w'"
proof (induction i arbitrary: w)
  case (Suc i)
  then consider "w' = w" | w1 where "tick env (mod_bus (USBH_Delay 500) w) = Some w1" "stop_wait env x i w1 = Some w'"
    by (auto simp: bind_eq_Some_conv split: if_splits)
  then show ?case
  proof cases
    case 2
    from 2(1) assms Suc.prems(2) have "has_class x c w1"
      by (force simp: tick_eq_Some_iff irq_keeps_class_def has_class_def)
    with 2(2) show ?thesis by (rule Suc.IH)
  qed (use Suc.prems in simp)
qed simp

lemma put_app_class: "put_app x a w = Some w' \<Longrightarrow> has_class x c w \<Longrightarrow> has_class x c w'"
  by (auto simp: put_app_def mod_host_eq_Some_iff has_class_def)

lemma stop_class:
  assumes "irq_keeps_class env x" "stop_EC20_Application env x w = Some (s, w')" "has_class x c w"
  shows "has_class x c w'"
proof -
  from assms(2) consider "w' = w" | a w1 w2 a2 where "put_app x a w = Some w1" "stop_wait env x 10 w1 = Some w2"
    "put_app x a2 w2 = Some w'"
    by (auto simp: stop_EC20_Application_def bind_eq_Some_conv split: option.splits)
  then show ?thesis
  proof cases
    case 2
    from put_app_class [OF 2(3)] stop_wait_class [OF assms(1) 2(2)] put_app_class [OF 2(1)] assms(3) show ?thesis by blast
  qed (use assms(3) in simp)
qed

lemma user_disconnect_deletes:
  assumes "irq_keeps_class env x" "USBH_UserProcess env x HOST_USER_DISCONNECTION w = Some w1" "hs w x = Some h"
    "app_class h \<noteq> None"
  shows "\<exists>h1. hs w1 x = Some h1 \<and> app_class h1 = app_class h \<and> app_data h1 = None"
proof -
  from assms(2-4) obtain s w0 s1 where "stop_EC20_Application env x w = Some (s, w0)"
    "delete_EC20_Application x w0 = Some (s1, w1)"
    by (auto simp: USBH_UserProcess_def bind_eq_Some_conv)
  with stop_class [OF assms(1), of w s w0] assms(3,4) show ?thesis
    by (auto simp: delete_EC20_Application_def bind_eq_Some_conv has_class_def)
qed

text \<open>
  C21: the application class of a handle survives its application: unplugging a modem removes the
  application and keeps the class. A device of another class that is then bound to the same handle
  leaves the stale class in place, and unplugging that device never returns from the user callback: it
  deletes an application that is not there.
\<close>

theorem second_unplug_hangs:
  assumes "irq_keeps_class env x" "USBH_UserProcess env x HOST_USER_DISCONNECTION w = Some w1" "hs w x = Some h"
    "app_class h \<noteq> None" "c \<noteq> EC20_Class"
  shows "\<exists>h1 w2. hs w1 x = Some h1 \<and> app_class h1 = app_class h \<and> app_data h1 = None \<and>
     USBH_UserProcess env x HOST_USER_CLASS_SELECTED (put_host x (h1\<lparr>pActiveClass := Some c\<rparr>) w1) = Some w2 \<and>
     USBH_UserProcess env x HOST_USER_DISCONNECTION w2 = None"
proof -
  from user_disconnect_deletes [OF assms(1-4)] obtain h1 where h1: "hs w1 x = Some h1" "app_class h1 = app_class h"
    and nd: "app_data h1 = None" by blast
  have "ClassCode c \<noteq> ClassCode EC20_Class" using assms(5) by (cases c) simp_all
  then have g: "get_activeclass_app (h1\<lparr>pActiveClass := Some c\<rparr>) = Some (-1, h1\<lparr>pActiveClass := Some c\<rparr>)"
    by (simp add: get_activeclass_app_def AppClass_def)
  let ?w2 = "put_host x (h1\<lparr>pActiveClass := Some c\<rparr>) (put_host x (h1\<lparr>pActiveClass := Some c\<rparr>) w1)"
  have "USBH_UserProcess env x HOST_USER_CLASS_SELECTED (put_host x (h1\<lparr>pActiveClass := Some c\<rparr>) w1) = Some ?w2"
    using g by (simp add: USBH_UserProcess_def)
  moreover have "USBH_UserProcess env x HOST_USER_DISCONNECTION ?w2 = None"
    using nd h1 assms(4) by (simp add: USBH_UserProcess_def stop_EC20_Application_def delete_spins)
  ultimately show ?thesis using h1 nd by blast
qed

definition sample_plugged :: world where
  "sample_plugged = sample_world\<lparr>hs := [0 \<mapsto> (zero_host 0)\<lparr>app_class := Some App_ec20, app_data := Some sample_app\<rparr>]\<rparr>"

lemma stop_wait_quiet: "e_irq env = (\<lambda>_. Some) \<Longrightarrow> hs w x = Some h \<Longrightarrow> app_data h = Some a \<Longrightarrow>
    \<exists>w'. stop_wait env x i w = Some w' \<and> hs w' = hs w"
proof (induction i arbitrary: w)
  case (Suc i)
  let ?w = "(mod_bus (USBH_Delay 500) w)\<lparr>clock := Suc (clock w)\<rparr>"
  have "tick env (mod_bus (USBH_Delay 500) w) = Some ?w" using Suc.prems(1) by (simp add: tick_def)
  with Suc.IH [of ?w] Suc.prems show ?case by simp
qed simp

lemma sample_unplug:
  "\<exists>w1. USBH_UserProcess sample_env 0 HOST_USER_DISCONNECTION sample_plugged = Some w1"
proof -
  let ?h = "(zero_host 0)\<lparr>app_class := Some App_ec20, app_data := Some sample_app\<rparr>"
  let ?a = "app_put EC20_APPLICATION_DISCONNECT (sample_app\<lparr>g_stop_flag := 1\<rparr>)"
  let ?w = "put_host 0 (?h\<lparr>app_data := Some ?a\<rparr>) sample_plugged"
  from stop_wait_quiet [of sample_env ?w 0 "?h\<lparr>app_data := Some ?a\<rparr>" ?a 10] obtain w'
    where "stop_wait sample_env 0 10 ?w = Some w'" "hs w' = hs ?w" by (auto simp: sample_env_def)
  then show ?thesis
    by (simp add: USBH_UserProcess_def stop_EC20_Application_def put_app_def delete_EC20_Application_def sample_plugged_def)
qed

lemma second_unplug_hangs_witness:
  "\<exists>w1 h1 w2. USBH_UserProcess sample_env 0 HOST_USER_DISCONNECTION sample_plugged = Some w1 \<and>
     hs w1 0 = Some h1 \<and> app_class h1 = Some App_ec20 \<and> app_data h1 = None \<and>
     USBH_UserProcess sample_env 0 HOST_USER_CLASS_SELECTED (put_host 0 (h1\<lparr>pActiveClass := Some MSC_Class\<rparr>) w1) = Some w2 \<and>
     USBH_UserProcess sample_env 0 HOST_USER_DISCONNECTION w2 = None"
proof -
  from sample_unplug obtain w1 where 1: "USBH_UserProcess sample_env 0 HOST_USER_DISCONNECTION sample_plugged = Some w1" by blast
  have i: "irq_keeps_class sample_env 0" by (simp add: irq_keeps_class_def sample_env_def)
  have h: "hs sample_plugged 0 = Some ((zero_host 0)\<lparr>app_class := Some App_ec20, app_data := Some sample_app\<rparr>)"
    by (simp add: sample_plugged_def)
  from second_unplug_hangs [OF i 1 h, of MSC_Class] 1 show ?thesis by simp
qed

definition sample_thread :: app_thread where
  "sample_thread = \<lparr>th_live = True, th_status = USBH_OK, send_buf = replicate 64 0\<rparr>"

definition sample_running :: ec20_app where
  "sample_running = sample_app\<lparr>Appli_state := EC20_APPLICATION_RUNNING, EC20_Send_Thread := Some sample_thread\<rparr>"

definition sample_modem_world :: world where
  "sample_modem_world = \<lparr>hs = [0 \<mapsto> sample_modem\<lparr>app_data := Some sample_running, gState := HOST_CLASS\<rparr>],
     wb = sample_bus\<lparr>status_reads := [False, False, True, True, False]\<rparr>, mallocs = [], next_hid = 1, clock = 0\<rparr>"

lemma silent_modem_reset_witness:
  "\<exists>w'. thread_rounds (6 - 0) 0 sample_modem_world = Some w' \<and> gone 0 w'"
proof (rule silent_modem_reset)
  have "get_ec20 (sample_modem\<lparr>app_data := Some sample_running, gState := HOST_CLASS\<rparr>) = Some sample_ec20"
    using sample_modem_ec20 by (simp add: get_ec20_def)
  then have "sender_ok 0 sample_modem_world sample_running sample_thread"
    by (simp add: sender_ok_def sample_modem_world_def sample_running_def sample_thread_def sample_ec20_def power_answers_def)
  then show "waiting_in EC20_APPLICATION_RUNNING 0 0 sample_modem_world" unfolding waiting_in_def
    by (intro exI [of _ sample_running] exI [of _ sample_thread])
      (simp add: sample_running_def sample_thread_def sample_app_def zero_app_def)
qed (simp_all add: app_active_def)

subsection \<open>The next receive is always armed\<close>

lemma LastXfer_eq:
  "get_ec20 h = Some e \<Longrightarrow> gState h = HOST_CLASS \<Longrightarrow> pData h \<Longrightarrow> unat (InPipe e) < length (hc b) \<Longrightarrow>
     USBH_EC20_GetLastReceivedDataSize h b = Some (ucast (xfer_count (hc b ! unat (InPipe e))))"
  by (simp add: USBH_EC20_GetLastReceivedDataSize_def USBH_LL_GetLastXferSize_def HAL_HCD_HC_GetXferCount_def mem_simps)

lemma rearm_idle:
  assumes "get_ec20 h = Some e" "ec20_ready e" "data_rx_state e = EC20_IDLE"
  shows "rearm x h b = Some (USBH_OK, put_ec20 (e\<lparr>pRxData := Recv_of x, RxDataLength := 64,
     ec_state := EC20_TRANSFER_DATA, data_rx_state := EC20_RECEIVE_DATA\<rparr>) h, os_put USBH_CLASS_EVENT b)"
  using assms by (simp add: rearm_def USBH_EC20_Receive_def)

text \<open>
  After every packet of at most 64 bytes the callback leaves a cleared buffer, a record fit for
  the next packet, the driver armed to receive into that buffer, and an event for the host thread.
\<close>

theorem receive_rearmed:
  assumes "hs w x = Some h" "app_data h = Some a" "app_ok a" "ec20_recvdata a = Some f"
    "get_ec20 h = Some e" "gState h = HOST_CLASS" "pData h" "unat (InPipe e) < length (hc (wb w))"
    "unat (ucast (xfer_count (hc (wb w) ! unat (InPipe e))) :: u16) \<le> RECV_BUFF_SIZE"
    "ec20_ready e" "data_rx_state e = EC20_IDLE"
  shows "\<exists>w' h' a' e'. USBH_EC20_ReceiveCallback x w = Some w' \<and> hs w' x = Some h' \<and> app_data h' = Some a' \<and>
     app_ok a' \<and> recv_buf a' = replicate (RECV_BUFF_SIZE + 1) 0 \<and> get_ec20 h' = Some e' \<and>
     data_rx_state e' = EC20_RECEIVE_DATA \<and> pRxData e' = Recv_of x \<and> os_event (wb w') \<noteq> []"
proof -
  let ?n = "ucast (xfer_count (hc (wb w) ! unat (InPipe e))) :: u16"
  have n: "USBH_EC20_GetLastReceivedDataSize h (wb w) = Some ?n"
    by (rule LastXfer_eq [OF assms(5-8)])
  from hooks_safe_fact [OF assms(3,4,9), of w] obtain ret a1 w1 where r: "call_hook f ?n a w = Some (ret, a1, w1)"
    "app_ok (clear_recv a1)" "length (recv_buf a1) = RECV_BUFF_SIZE + 1" "hs w1 = hs w" "wb w1 = wb w" by blast
  have pc: "(if ret = -1 then print_check ?n a1 else Some ()) = Some ()"
    using r(3) assms(9) by (simp add: print_check_def)
  let ?a = "clear_recv (a1\<lparr>rx_total_num := rx_total_num a1 + ucast ?n\<rparr>)"
  let ?h = "h\<lparr>app_data := Some ?a\<rparr>"
  have g: "get_ec20 ?h = Some e" using assms(5) by (simp add: get_ec20_def)
  let ?e = "e\<lparr>pRxData := Recv_of x, RxDataLength := 64, ec_state := EC20_TRANSFER_DATA, data_rx_state := EC20_RECEIVE_DATA\<rparr>"
  let ?w = "(put_host x (put_ec20 ?e ?h) (put_host x ?h w1))\<lparr>wb := os_put USBH_CLASS_EVENT (wb w1)\<rparr>"
  have p: "put_app x ?a w1 = Some (put_host x ?h w1)" using r(4) assms(1) by (simp add: put_app_def)
  have o: "on_host x (rearm x) (put_host x ?h w1) = Some (USBH_OK, ?w)"
  proof (rule on_host_Some)
    show "hs (put_host x ?h w1) x = Some ?h" by simp
    show "rearm x ?h (wb (put_host x ?h w1)) = Some (USBH_OK, put_ec20 ?e ?h, os_put USBH_CLASS_EVENT (wb w1))"
      unfolding put_host_simps by (rule rearm_idle [OF g assms(10,11)])
  qed
  have "USBH_EC20_ReceiveCallback x w = Some ?w"
    unfolding USBH_EC20_ReceiveCallback_def assms(1) Option.bind.simps assms(2) option.case n assms(4) r(1)
      prod.case pc p o by simp
  moreover have "app_ok ?a" using r(2)
    by (simp add: app_ok_def clear_recv_def cong: option.case_cong recv_fn.case_cong)
  moreover have "recv_buf ?a = replicate (RECV_BUFF_SIZE + 1) 0" by (simp add: clear_recv_def)
  ultimately show ?thesis using g
    by (intro exI [of _ ?w] exI [of _ "put_ec20 ?e ?h"] exI [of _ ?a] exI [of _ ?e]) simp
qed

lemma receive_rearmed_witness:
  "\<exists>w' h' a' e'. USBH_EC20_ReceiveCallback 0 sample_modem_world = Some w' \<and> hs w' 0 = Some h' \<and> app_data h' = Some a' \<and>
     app_ok a' \<and> recv_buf a' = replicate (RECV_BUFF_SIZE + 1) 0 \<and> get_ec20 h' = Some e' \<and>
     data_rx_state e' = EC20_RECEIVE_DATA \<and> pRxData e' = Recv_of 0 \<and> os_event (wb w') \<noteq> []"
proof (rule receive_rearmed)
  show "hs sample_modem_world 0 = Some (sample_modem\<lparr>app_data := Some sample_running, gState := HOST_CLASS\<rparr>)"
    by (simp add: sample_modem_world_def)
  show "get_ec20 (sample_modem\<lparr>app_data := Some sample_running, gState := HOST_CLASS\<rparr>) = Some sample_ec20"
    using sample_modem_ec20 by (simp add: get_ec20_def)
  show "app_data (sample_modem\<lparr>app_data := Some sample_running, gState := HOST_CLASS\<rparr>) = Some sample_running" by simp
  show "app_ok sample_running"
    by (simp add: app_ok_def sample_running_def sample_app_def zero_app_def ends_nul_def)
  show "ec20_recvdata sample_running = Some ec20_recv_cmd_select_fn"
    by (simp add: sample_running_def sample_app_def)
qed (simp_all add: sample_ec20_def zero_ec20_def ec20_ready_def sample_modem_def sample_host_def sample_modem_world_def
    sample_bus_def zero_bus_def zero_hc_def)

subsection \<open>The application keeps the host machine\<close>

lemma general_full_shape: "general_full pat a w = Some (a', w') \<Longrightarrow> shape w' = shape w"
  by (auto simp: general_full_def take_malloc_def bind_eq_Some_conv split: option.splits if_splits list.splits)

lemma select_full_shape: "select_full a w = Some (r, a', w') \<Longrightarrow> shape w' = shape w"
  by (auto simp: select_full_def take_malloc_def bind_eq_Some_conv split: option.splits if_splits list.splits)

lemma call_hook_shape: "call_hook f n a w = Some (r, a', w') \<Longrightarrow> shape w' = shape w"
  by (cases f)
    (auto simp: ec20_recv_general_def ec20_recv_cmd_select_def ec20_recv_ati_def ec20_recv_init_done_def
      ec20_recv_running_def Let_def bind_eq_Some_conv split: if_splits
      dest: general_full_shape select_full_shape)

lemma put_app_keeps: "put_app y a w = Some w' \<Longrightarrow> shape w' = shape w"
  unfolding put_app_def by (erule shape_mod) (simp add: node_def)

lemma rearm_keeps: "on_host y (rearm y) w = Some (s, w') \<Longrightarrow> shape w' = shape w"
  by (erule shape_on) (auto simp: rearm_def USBH_EC20_Receive_def node_def bind_eq_Some_conv split: if_splits)

lemma callback_keeps:
  assumes "USBH_EC20_ReceiveCallback x w = Some w'"
  shows "shape w' = shape w"
proof -
  from assms obtain h where h: "hs w x = Some h" by (auto simp: USBH_EC20_ReceiveCallback_def bind_eq_Some_conv)
  show ?thesis
  proof (cases "app_data h")
    case None
    with assms h show ?thesis by (simp add: USBH_EC20_ReceiveCallback_def)
  next
    case (Some a)
    with assms h obtain n ret a1 w1 w2 s where "(case ec20_recvdata a of None \<Rightarrow> Some (-1, a, w)
        | Some f \<Rightarrow> call_hook f n a w) = Some (ret, a1, w1)"
      "put_app x (clear_recv (a1\<lparr>rx_total_num := rx_total_num a1 + ucast n\<rparr>)) w1 = Some w2"
      "on_host x (rearm x) w2 = Some (s, w')"
      by (auto simp: USBH_EC20_ReceiveCallback_def bind_eq_Some_conv)
    note p = this
    have "shape w1 = shape w" using p(1) call_hook_shape by (auto split: option.splits)
    then show ?thesis using put_app_keeps [OF p(2)] rearm_keeps [OF p(3)] by simp
  qed
qed

end
