(* ===== verification/Msc.thy ===== *)
theory Msc
  imports Core
begin

text \<open>
  The mass-storage class driver: the command sets of \<^verbatim>\<open>Class/MSC/Src/usbh_msc_scsi.c\<close> over the bulk-only
  transport of \<^verbatim>\<open>usbh_msc_bot.c\<close>, and the unit machine, reading and writing of \<^verbatim>\<open>usbh_msc.c\<close>. A command is
  sent as a command block wrapper, followed by its data and by a status wrapper the device returns.

  The driver's state hangs off its class table entry (\<open>msc_ptr\<close>, \<open>msc_mem\<close> of the bus), not off the
  handle. \<open>msc_handle\<close> follows \<^verbatim>\<open>phost->pActiveClass->pData\<close>; for another class, or before the first
  binding, that is a fault.
\<close>

abbreviation DIR_OUT :: u8 where "DIR_OUT \<equiv> 0x00"
abbreviation DIR_IN :: u8 where "DIR_IN \<equiv> 0x80"
abbreviation MSC_TRANSPARENT :: u8 where "MSC_TRANSPARENT \<equiv> 0x06"
abbreviation MSC_BOT :: u8 where "MSC_BOT \<equiv> 0x50"
abbreviation USB_REQ_BOT_RESET :: u8 where "USB_REQ_BOT_RESET \<equiv> 0xFF"
abbreviation USB_REQ_GET_MAX_LUN :: u8 where "USB_REQ_GET_MAX_LUN \<equiv> 0xFE"
abbreviation CBW_LENGTH :: u8 where "CBW_LENGTH \<equiv> 10"
abbreviation CBW_CB_LENGTH :: nat where "CBW_CB_LENGTH \<equiv> 16"

definition msc_handle :: "host \<Rightarrow> bus \<Rightarrow> MSC_HandleTypeDef option" where
  "msc_handle h b = (if pActiveClass h = Some MSC_Class \<and> msc_ptr b then Some (msc_mem b) else None)"

definition put_msc :: "MSC_HandleTypeDef \<Rightarrow> bus \<Rightarrow> bus" where
  "put_msc m b = b\<lparr>msc_mem := m\<rparr>"

definition upd_bot :: "(BOT_HandleTypeDef \<Rightarrow> BOT_HandleTypeDef) \<Rightarrow> MSC_HandleTypeDef \<Rightarrow> MSC_HandleTypeDef" where
  "upd_bot f m = m\<lparr>hbot := f (hbot m)\<rparr>"

definition set_bot :: "BOT_StateTypeDef \<Rightarrow> MSC_HandleTypeDef \<Rightarrow> MSC_HandleTypeDef" where
  "set_bot s = upd_bot (\<lambda>t. t\<lparr>bot_state := s\<rparr>)"

definition upd_unit :: "nat \<Rightarrow> (MSC_LUNTypeDef \<Rightarrow> MSC_LUNTypeDef) \<Rightarrow> MSC_HandleTypeDef \<Rightarrow> MSC_HandleTypeDef option" where
  "upd_unit i f m = do {
     u \<leftarrow> rd (unit_luns m) i;
     Some (m\<lparr>unit_luns := (unit_luns m)[i := f u]\<rparr>)
   }"

text \<open>A change of the driver's state that only needs the handle.\<close>

definition on_msc :: "(MSC_HandleTypeDef \<Rightarrow> MSC_HandleTypeDef option) \<Rightarrow> host \<Rightarrow> bus \<Rightarrow> bus option" where
  "on_msc f h b = do { m \<leftarrow> msc_handle h b; m \<leftarrow> f m; Some (put_msc m b) }"

subsection \<open>Bulk-only transport\<close>

definition USBH_MSC_BOT_REQ_Reset :: "host \<Rightarrow> bus \<Rightarrow> call" where
  "USBH_MSC_BOT_REQ_Reset h b =
     USBH_CtlReq (set_setup (USB_H2D OR USB_REQ_TYPE_CLASS OR USB_REQ_RECIPIENT_INTERFACE)
       USB_REQ_BOT_RESET 0 0 0 h) b NULL_buf 0"

definition USBH_MSC_BOT_REQ_GetMaxLUN :: "host \<Rightarrow> bus \<Rightarrow> call" where
  "USBH_MSC_BOT_REQ_GetMaxLUN h b =
     USBH_CtlReq (set_setup (USB_D2H OR USB_REQ_TYPE_CLASS OR USB_REQ_RECIPIENT_INTERFACE)
       USB_REQ_GET_MAX_LUN 0 0 1 h) b MaxLun_buf 1"

definition USBH_MSC_BOT_Init :: "MSC_HandleTypeDef \<Rightarrow> MSC_HandleTypeDef" where
  "USBH_MSC_BOT_Init = upd_bot (\<lambda>t. t\<lparr>
     cbw := (cbw t)\<lparr>cbw_Signature := BOT_CBW_SIGNATURE, cbw_Tag := BOT_CBW_TAG\<rparr>,
     bot_state := BOT_SEND_CBW, cmd_state := BOT_CMD_SEND\<rparr>)"

text \<open>The status wrapper: its length first, then signature, tag and status.\<close>

definition decode_csw :: "u32 \<Rightarrow> u32 \<Rightarrow> u8 list \<Rightarrow> BOT_CSWStatusTypeDef" where
  "decode_csw n tag w =
     (if n \<noteq> ucast BOT_CSW_LENGTH then BOT_CSW_PHASE_ERROR
      else if csw_Signature w = BOT_CSW_SIGNATURE then
        (if csw_Tag w = tag then
           (if csw_Status w = 0 then BOT_CSW_CMD_PASSED
            else if csw_Status w = 1 then BOT_CSW_CMD_FAILED
            else if csw_Status w = 2 then BOT_CSW_PHASE_ERROR
            else BOT_CSW_CMD_FAILED)
         else BOT_CSW_CMD_FAILED)
      else BOT_CSW_PHASE_ERROR)"

definition USBH_MSC_DecodeCSW :: "host \<Rightarrow> bus \<Rightarrow> BOT_CSWStatusTypeDef option" where
  "USBH_MSC_DecodeCSW h b = do {
     m \<leftarrow> msc_handle h b;
     n \<leftarrow> USBH_LL_GetLastXferSize h b (msc_InPipe m);
     Some (decode_csw n (cbw_Tag (cbw (hbot m))) (csw (hbot m)))
   }"

definition USBH_MSC_BOT_Abort :: "host \<Rightarrow> bus \<Rightarrow> bool \<Rightarrow> call" where
  "USBH_MSC_BOT_Abort h b isin = do {
     m \<leftarrow> msc_handle h b;
     USBH_ClrFeature h b (if isin then msc_InEp m else msc_OutEp m)
   }"

text \<open>A step to another state that posts an event for the next poll.\<close>

definition bot_goto :: "BOT_StateTypeDef \<Rightarrow> MSC_HandleTypeDef \<Rightarrow> bus \<Rightarrow> bus" where
  "bot_goto s m b = os_put USBH_URB_EVENT (put_msc (set_bot s m) b)"

definition bot_send_cbw :: "u8 \<Rightarrow> MSC_HandleTypeDef \<Rightarrow> host \<Rightarrow> bus \<Rightarrow> call" where
  "bot_send_cbw lun m h b = do {
     let m = set_bot BOT_SEND_CBW_WAIT (upd_bot (\<lambda>t. t\<lparr>cbw := (cbw t)\<lparr>cbw_LUN := lun\<rparr>\<rparr>) m);
     (_, b) \<leftarrow> USBH_BulkSendData h (put_msc m b) Cbw_buf BOT_CBW_LENGTH (msc_OutPipe m) 1;
     Some (USBH_BUSY, h, b)
   }"

definition after_cbw :: "BOT_CBWTypeDef \<Rightarrow> BOT_StateTypeDef" where
  "after_cbw c =
     (if DataTransferLength c \<noteq> 0 then
        (if cbw_Flags c AND USB_REQ_DIR_MASK = USB_D2H then BOT_DATA_IN else BOT_DATA_OUT)
      else BOT_RECEIVE_CSW)"

definition bot_send_cbw_wait :: "MSC_HandleTypeDef \<Rightarrow> host \<Rightarrow> bus \<Rightarrow> call" where
  "bot_send_cbw_wait m h b = do {
     u \<leftarrow> USBH_LL_GetURBState h b (msc_OutPipe m);
     Some (USBH_BUSY, h,
       if u = USBH_URB_DONE then bot_goto (after_cbw (cbw (hbot m))) m b
       else if u = USBH_URB_NOTREADY then bot_goto BOT_SEND_CBW m b
       else if u = USBH_URB_STALL then bot_goto BOT_ERROR_OUT m b
       else b)
   }"

text \<open>After a packet of \<open>sz\<close> bytes: the pointer and the rest, which is zero after the last one.\<close>

definition bot_advance :: "u16 \<Rightarrow> MSC_HandleTypeDef \<Rightarrow> MSC_HandleTypeDef" where
  "bot_advance sz = upd_bot (\<lambda>t.
     if DataTransferLength (cbw t) > ucast sz
     then t\<lparr>bot_pbuf := buf_add (bot_pbuf t) (unat sz),
            cbw := (cbw t)\<lparr>DataTransferLength := DataTransferLength (cbw t) - ucast sz\<rparr>\<rparr>
     else t\<lparr>cbw := (cbw t)\<lparr>DataTransferLength := 0\<rparr>\<rparr>)"

definition bot_receive :: "MSC_HandleTypeDef \<Rightarrow> host \<Rightarrow> bus \<Rightarrow> (USBH_StatusTypeDef \<times> bus) option" where
  "bot_receive m h b = USBH_BulkReceiveData h b (bot_pbuf (hbot m)) (msc_InEpSize m) (msc_InPipe m)"

definition bot_transmit :: "MSC_HandleTypeDef \<Rightarrow> host \<Rightarrow> bus \<Rightarrow> (USBH_StatusTypeDef \<times> bus) option" where
  "bot_transmit m h b = USBH_BulkSendData h b (bot_pbuf (hbot m)) (msc_OutEpSize m) (msc_OutPipe m) 1"

definition bot_data_in :: "MSC_HandleTypeDef \<Rightarrow> host \<Rightarrow> bus \<Rightarrow> call" where
  "bot_data_in m h b = do {
     (_, b) \<leftarrow> bot_receive m h b;
     Some (USBH_BUSY, h, put_msc (set_bot BOT_DATA_IN_WAIT m) b)
   }"

definition bot_data_in_wait :: "MSC_HandleTypeDef \<Rightarrow> host \<Rightarrow> bus \<Rightarrow> call" where
  "bot_data_in_wait m h b = do {
     u \<leftarrow> USBH_LL_GetURBState h b (msc_InPipe m);
     (if u = USBH_URB_DONE then
        (let m = bot_advance (msc_InEpSize m) m in
         if DataTransferLength (cbw (hbot m)) > 0 then do {
           (_, b) \<leftarrow> bot_receive m h (put_msc m b);
           Some (USBH_BUSY, h, b)
         }
         else Some (USBH_BUSY, h, bot_goto BOT_RECEIVE_CSW m b))
      else Some (USBH_BUSY, h, if u = USBH_URB_STALL then bot_goto BOT_ERROR_IN m b else b))
   }"

definition bot_data_out :: "MSC_HandleTypeDef \<Rightarrow> host \<Rightarrow> bus \<Rightarrow> call" where
  "bot_data_out m h b = do {
     (_, b) \<leftarrow> bot_transmit m h b;
     Some (USBH_BUSY, h, put_msc (set_bot BOT_DATA_OUT_WAIT m) b)
   }"

definition bot_data_out_wait :: "MSC_HandleTypeDef \<Rightarrow> host \<Rightarrow> bus \<Rightarrow> call" where
  "bot_data_out_wait m h b = do {
     u \<leftarrow> USBH_LL_GetURBState h b (msc_OutPipe m);
     (if u = USBH_URB_DONE then
        (let m = bot_advance (msc_OutEpSize m) m in
         if DataTransferLength (cbw (hbot m)) > 0 then do {
           (_, b) \<leftarrow> bot_transmit m h (put_msc m b);
           Some (USBH_BUSY, h, os_put USBH_URB_EVENT b)
         }
         else Some (USBH_BUSY, h, bot_goto BOT_RECEIVE_CSW m b))
      else Some (USBH_BUSY, h,
        if u = USBH_URB_NOTREADY then bot_goto BOT_DATA_OUT m b
        else if u = USBH_URB_STALL then bot_goto BOT_ERROR_OUT m b
        else b))
   }"

definition bot_receive_csw :: "MSC_HandleTypeDef \<Rightarrow> host \<Rightarrow> bus \<Rightarrow> call" where
  "bot_receive_csw m h b = do {
     (_, b) \<leftarrow> USBH_BulkReceiveData h b Csw_buf BOT_CSW_LENGTH (msc_InPipe m);
     Some (USBH_BUSY, h, put_msc (set_bot BOT_RECEIVE_CSW_WAIT m) b)
   }"

definition bot_receive_csw_wait :: "MSC_HandleTypeDef \<Rightarrow> host \<Rightarrow> bus \<Rightarrow> call" where
  "bot_receive_csw_wait m h b = do {
     u \<leftarrow> USBH_LL_GetURBState h b (msc_InPipe m);
     (if u = USBH_URB_DONE then do {
        let m = upd_bot (\<lambda>t. t\<lparr>bot_state := BOT_SEND_CBW, cmd_state := BOT_CMD_SEND\<rparr>) m;
        let b = put_msc m b;
        s \<leftarrow> USBH_MSC_DecodeCSW h b;
        Some (if s = BOT_CSW_CMD_PASSED then USBH_OK else USBH_FAIL, h, os_put USBH_URB_EVENT b)
      }
      else Some (USBH_BUSY, h, if u = USBH_URB_STALL then bot_goto BOT_ERROR_IN m b else b))
   }"

definition bot_error_in :: "host \<Rightarrow> bus \<Rightarrow> call" where
  "bot_error_in h b = do {
     (s, h, b) \<leftarrow> USBH_MSC_BOT_Abort h b True;
     b \<leftarrow> (if s = USBH_OK then on_msc (\<lambda>m. Some (set_bot BOT_RECEIVE_CSW m)) h b
          else if s = USBH_UNRECOVERED_ERROR then on_msc (\<lambda>m. Some (set_bot BOT_UNRECOVERED_ERROR m)) h b
          else Some b);
     Some (USBH_BUSY, h, b)
   }"

definition bot_error_out :: "host \<Rightarrow> bus \<Rightarrow> call" where
  "bot_error_out h b = do {
     (s, h, b) \<leftarrow> USBH_MSC_BOT_Abort h b False;
     b \<leftarrow> (if s = USBH_OK then do {
            m \<leftarrow> msc_handle h b;
            toggle \<leftarrow> USBH_LL_GetToggle b (msc_OutPipe m);
            (_, b) \<leftarrow> USBH_LL_SetToggle b (msc_OutPipe m) (1 - toggle);
            (_, b) \<leftarrow> USBH_LL_SetToggle b (msc_InPipe m) 0;
            Some (put_msc (set_bot BOT_ERROR_IN m) b)
          }
          else if s = USBH_UNRECOVERED_ERROR then on_msc (\<lambda>m. Some (set_bot BOT_UNRECOVERED_ERROR m)) h b
          else Some b);
     Some (USBH_BUSY, h, b)
   }"

definition bot_unrecovered :: "host \<Rightarrow> bus \<Rightarrow> call" where
  "bot_unrecovered h b = do {
     (s, h, b) \<leftarrow> USBH_MSC_BOT_REQ_Reset h b;
     b \<leftarrow> (if s = USBH_OK then on_msc (\<lambda>m. Some (set_bot BOT_SEND_CBW m)) h b else Some b);
     Some (s, h, b)
   }"

definition USBH_MSC_BOT_Process :: "u8 \<Rightarrow> host \<Rightarrow> bus \<Rightarrow> call" where
  "USBH_MSC_BOT_Process lun h b = do {
     m \<leftarrow> msc_handle h b;
     (case bot_state (hbot m) of
        BOT_SEND_CBW \<Rightarrow> bot_send_cbw lun m h b
      | BOT_SEND_CBW_WAIT \<Rightarrow> bot_send_cbw_wait m h b
      | BOT_DATA_IN \<Rightarrow> bot_data_in m h b
      | BOT_DATA_IN_WAIT \<Rightarrow> bot_data_in_wait m h b
      | BOT_DATA_OUT \<Rightarrow> bot_data_out m h b
      | BOT_DATA_OUT_WAIT \<Rightarrow> bot_data_out_wait m h b
      | BOT_RECEIVE_CSW \<Rightarrow> bot_receive_csw m h b
      | BOT_RECEIVE_CSW_WAIT \<Rightarrow> bot_receive_csw_wait m h b
      | BOT_ERROR_IN \<Rightarrow> bot_error_in h b
      | BOT_ERROR_OUT \<Rightarrow> bot_error_out h b
      | BOT_UNRECOVERED_ERROR \<Rightarrow> bot_unrecovered h b)
   }"

subsection \<open>Commands\<close>

text \<open>
  Sending a command fills in the wrapper; the command bytes not set keep what the \<^verbatim>\<open>memset\<close> of the
  first \<open>n\<close> bytes leaves.
\<close>

definition fill_cb :: "nat \<Rightarrow> (nat \<times> u8) list \<Rightarrow> u8 list \<Rightarrow> u8 list option" where
  "fill_cb n sets cb =
     (if n \<le> length cb \<and> (\<forall>(i, v) \<in> set sets. i < length cb)
      then Some (fold (\<lambda>(i, v) c. c[i := v]) sets (replicate n 0 @ drop n cb)) else None)"

definition scsi_send :: "u32 \<Rightarrow> u8 \<Rightarrow> nat \<Rightarrow> (nat \<times> u8) list \<Rightarrow> MSC_HandleTypeDef \<Rightarrow> MSC_HandleTypeDef option" where
  "scsi_send len flags n sets m = do {
     cb \<leftarrow> fill_cb n sets (CB (cbw (hbot m)));
     Some (upd_bot (\<lambda>t. t\<lparr>cbw := (cbw t)\<lparr>DataTransferLength := len, cbw_Flags := flags,
              CBLength := CBW_LENGTH, CB := cb\<rparr>,
            bot_state := BOT_SEND_CBW, cmd_state := BOT_CMD_WAIT\<rparr>) m)
   }"

definition set_pbuf :: "buf_ptr \<Rightarrow> MSC_HandleTypeDef \<Rightarrow> MSC_HandleTypeDef" where
  "set_pbuf p = upd_bot (\<lambda>t. t\<lparr>bot_pbuf := p\<rparr>)"

text \<open>What all commands share: sending, waiting, and the result in the third state.\<close>

definition scsi_cmd ::
  "USBH_StatusTypeDef \<Rightarrow> (MSC_HandleTypeDef \<Rightarrow> MSC_HandleTypeDef option) \<Rightarrow>
   (MSC_HandleTypeDef \<Rightarrow> MSC_HandleTypeDef option) \<Rightarrow> u8 \<Rightarrow> host \<Rightarrow> bus \<Rightarrow> call" where
  "scsi_cmd idle send finish lun h b = do {
     m \<leftarrow> msc_handle h b;
     (case cmd_state (hbot m) of
        BOT_CMD_SEND \<Rightarrow> do {
          m \<leftarrow> send m;
          Some (USBH_BUSY, h, put_msc m b)
        }
      | BOT_CMD_WAIT \<Rightarrow> do {
          (s, h, b) \<leftarrow> USBH_MSC_BOT_Process lun h b;
          b \<leftarrow> (if s = USBH_OK then on_msc finish h b else Some b);
          Some (s, h, b)
        }
      | _ \<Rightarrow> Some (idle, h, b))
   }"

text \<open>Byte \<open>k\<close> behind the data pointer of the transport handle, inside its own data buffer.\<close>

definition bot_rd :: "MSC_HandleTypeDef \<Rightarrow> nat \<Rightarrow> u8 option" where
  "bot_rd m k =
     (case bot_pbuf (hbot m) of
        Bot_buf \<Rightarrow> rd (bot_data (hbot m)) k
      | At Bot_buf j \<Rightarrow> rd (bot_data (hbot m)) (j + k)
      | _ \<Rightarrow> None)"

definition bot_bytes :: "MSC_HandleTypeDef \<Rightarrow> nat \<Rightarrow> nat \<Rightarrow> u8 list option" where
  "bot_bytes m k n =
     (case bot_pbuf (hbot m) of
        Bot_buf \<Rightarrow> (if k + n \<le> length (bot_data (hbot m)) then Some (take n (drop k (bot_data (hbot m)))) else None)
      | At Bot_buf j \<Rightarrow> (if j + k + n \<le> length (bot_data (hbot m))
                        then Some (take n (drop (j + k) (bot_data (hbot m)))) else None)
      | _ \<Rightarrow> None)"

definition USBH_MSC_SCSI_TestUnitReady :: "u8 \<Rightarrow> host \<Rightarrow> bus \<Rightarrow> call" where
  "USBH_MSC_SCSI_TestUnitReady =
     scsi_cmd USBH_FAIL (scsi_send 0 DIR_OUT CBW_CB_LENGTH [(0, 0x00)]) Some"

definition read_capacity :: "nat \<Rightarrow> MSC_HandleTypeDef \<Rightarrow> MSC_HandleTypeDef option" where
  "read_capacity i m = do {
     p0 \<leftarrow> bot_rd m 0; p1 \<leftarrow> bot_rd m 1; p2 \<leftarrow> bot_rd m 2; p3 \<leftarrow> bot_rd m 3;
     p6 \<leftarrow> bot_rd m 6; p7 \<leftarrow> bot_rd m 7;
     upd_unit i (\<lambda>u. u\<lparr>block_nbr := ucast p3 OR push_bit 8 (ucast p2) OR push_bit 16 (ucast p1) OR push_bit 24 (ucast p0),
       block_size := ucast p7 OR push_bit 8 (ucast p6)\<rparr>) m
   }"

definition USBH_MSC_SCSI_ReadCapacity :: "nat \<Rightarrow> u8 \<Rightarrow> host \<Rightarrow> bus \<Rightarrow> call" where
  "USBH_MSC_SCSI_ReadCapacity i =
     scsi_cmd USBH_BUSY (\<lambda>m. map_option (set_pbuf Bot_buf) (scsi_send 8 DIR_IN CBW_CB_LENGTH [(0, 0x25)] m))
       (read_capacity i)"

definition read_inquiry :: "nat \<Rightarrow> MSC_HandleTypeDef \<Rightarrow> MSC_HandleTypeDef option" where
  "read_inquiry i m = do {
     p0 \<leftarrow> bot_rd m 0; p1 \<leftarrow> bot_rd m 1;
     v \<leftarrow> bot_bytes m 8 8; p \<leftarrow> bot_bytes m 16 16; r \<leftarrow> bot_bytes m 32 4;
     upd_unit i (\<lambda>u. u\<lparr>inquiry := \<lparr>PeripheralQualifier = drop_bit 5 p0, DeviceType = p0 AND 0x1F,
       RemovableMedia = (if p1 AND 0x80 = 0x80 then 1 else 0),
       vendor_id = v @ [0], product_id = p @ [0], revision_id = r @ [0]\<rparr>\<rparr>) m
   }"

text \<open>The wrapper of this command is cleared over the first ten bytes only.\<close>

definition USBH_MSC_SCSI_Inquiry :: "nat \<Rightarrow> u8 \<Rightarrow> host \<Rightarrow> bus \<Rightarrow> call" where
  "USBH_MSC_SCSI_Inquiry i lun =
     scsi_cmd USBH_FAIL (\<lambda>m. map_option (set_pbuf Bot_buf) (scsi_send 36 DIR_IN (unat CBW_LENGTH)
         [(0, 0x12), (1, push_bit 5 lun), (2, 0), (3, 0), (4, 0x24), (5, 0)] m))
       (read_inquiry i) lun"

definition read_sense :: "nat \<Rightarrow> MSC_HandleTypeDef \<Rightarrow> MSC_HandleTypeDef option" where
  "read_sense i m = do {
     p2 \<leftarrow> bot_rd m 2; p12 \<leftarrow> bot_rd m 12; p13 \<leftarrow> bot_rd m 13;
     upd_unit i (\<lambda>u. u\<lparr>sense_key := p2 AND 0x0F, sense_asc := p12, sense_ascq := p13\<rparr>) m
   }"

definition USBH_MSC_SCSI_RequestSense :: "nat \<Rightarrow> u8 \<Rightarrow> host \<Rightarrow> bus \<Rightarrow> call" where
  "USBH_MSC_SCSI_RequestSense i lun =
     scsi_cmd USBH_FAIL (\<lambda>m. map_option (set_pbuf Bot_buf) (scsi_send 14 DIR_IN CBW_CB_LENGTH
         [(0, 0x03), (1, push_bit 5 lun), (2, 0), (3, 0), (4, 14), (5, 0)] m))
       (read_sense i) lun"

text \<open>The address goes out high byte first, the length as its two low bytes.\<close>

definition rw_cb :: "u8 \<Rightarrow> u32 \<Rightarrow> u32 \<Rightarrow> (nat \<times> u8) list" where
  "rw_cb opcode address len =
     [(0, opcode), (2, ucast (drop_bit 24 address)), (3, ucast (drop_bit 16 address)),
      (4, ucast (drop_bit 8 address)), (5, ucast address),
      (7, ucast (drop_bit 8 len)), (8, ucast len)]"

definition USBH_MSC_SCSI_Write :: "u8 \<Rightarrow> u32 \<Rightarrow> buf_ptr \<Rightarrow> u32 \<Rightarrow> host \<Rightarrow> bus \<Rightarrow> call" where
  "USBH_MSC_SCSI_Write lun address pbuf len =
     scsi_cmd USBH_FAIL (\<lambda>m. map_option (set_pbuf pbuf) (scsi_send (len * 512) DIR_OUT CBW_CB_LENGTH
       (rw_cb 0x2A address len) m)) Some lun"

definition USBH_MSC_SCSI_Read :: "u8 \<Rightarrow> u32 \<Rightarrow> buf_ptr \<Rightarrow> u32 \<Rightarrow> host \<Rightarrow> bus \<Rightarrow> call" where
  "USBH_MSC_SCSI_Read lun address pbuf len =
     scsi_cmd USBH_FAIL (\<lambda>m. map_option (set_pbuf pbuf) (scsi_send (len * 512) DIR_IN CBW_CB_LENGTH
       (rw_cb 0x28 address len) m)) Some lun"

subsection \<open>Binding and releasing the interface\<close>

definition take_msc_ep :: "USBH_EpDescTypeDef \<Rightarrow> MSC_HandleTypeDef \<Rightarrow> MSC_HandleTypeDef" where
  "take_msc_ep ep m =
     (if bEndpointAddress ep AND 0x80 \<noteq> 0
      then m\<lparr>msc_InEp := bEndpointAddress ep, msc_InEpSize := wMaxPacketSize ep\<rparr>
      else m\<lparr>msc_OutEp := bEndpointAddress ep, msc_OutEpSize := wMaxPacketSize ep\<rparr>)"

definition msc_open :: "host \<Rightarrow> bus \<Rightarrow> call" where
  "msc_open h b = do {
     m \<leftarrow> msc_handle h b;
     itf \<leftarrow> rd (Itf_Desc (CfgDesc (device h))) (unat (current_interface (device h)));
     ep0 \<leftarrow> rd (Ep_Desc itf) 0;
     ep1 \<leftarrow> rd (Ep_Desc itf) 1;
     let m = (take_msc_ep ep1 (take_msc_ep ep0 m))
        \<lparr>current_lun := 0, rw_lun := 0, msc_state := MSC_INIT, msc_error := MSC_OK, req_state := MSC_REQ_IDLE\<rparr>;
     (po, b) \<leftarrow> USBH_AllocPipe b (msc_OutEp m);
     (pi, b) \<leftarrow> USBH_AllocPipe b (msc_InEp m);
     let m = (USBH_MSC_BOT_Init (m\<lparr>msc_OutPipe := po, msc_InPipe := pi\<rparr>))
        \<lparr>unit_luns := replicate MAX_SUPPORTED_LUN zero_lun\<rparr>;
     (_, b) \<leftarrow> USBH_OpenPipe h b po (msc_OutEp m) (dev_address (device h)) (speed (device h))
                 USBH_EP_BULK (msc_OutEpSize m);
     (_, b) \<leftarrow> USBH_OpenPipe h b pi (msc_InEp m) (dev_address (device h)) (speed (device h))
                 USBH_EP_BULK (msc_InEpSize m);
     (_, b) \<leftarrow> USBH_LL_SetToggle b pi 0;
     (_, b) \<leftarrow> USBH_LL_SetToggle b po 0;
     Some (USBH_OK, h, put_msc m b)
   }"

text \<open>
  The block of a successful allocation holds whatever the memory held. The result of the allocation is not
  checked: after a failed one the next access goes through a null pointer.
\<close>

definition msc_block :: "bool \<Rightarrow> bus \<Rightarrow> bus" where
  "msc_block ok b =
     (if ok then (case msc_heap b of [] \<Rightarrow> b\<lparr>msc_ptr := True\<rparr>
                                   | m # r \<Rightarrow> b\<lparr>msc_ptr := True, msc_mem := m, msc_heap := r\<rparr>)
      else b\<lparr>msc_ptr := False\<rparr>)"

definition USBH_MSC_InterfaceInit :: "hid \<Rightarrow> world \<Rightarrow> wcall" where
  "USBH_MSC_InterfaceInit x w = do {
     h \<leftarrow> hs w x;
     c \<leftarrow> pActiveClass h;
     i \<leftarrow> USBH_FindInterface h (ClassCode c) MSC_TRANSPARENT MSC_BOT;
     (if i = 0xFF then Some (USBH_FAIL, w)
      else do {
        (_, h) \<leftarrow> USBH_SelectInterface h i;
        let (ok, w) = take_malloc w;
        on_host x msc_open (mod_bus (msc_block ok) (put_host x h w))
      })
   }"

definition USBH_MSC_InterfaceDeInit :: "host \<Rightarrow> bus \<Rightarrow> call" where
  "USBH_MSC_InterfaceDeInit h b = do {
     m \<leftarrow> msc_handle h b;
     (m, b) \<leftarrow> (if msc_OutPipe m \<noteq> 0 then do {
                  (_, b) \<leftarrow> USBH_ClosePipe h b (msc_OutPipe m);
                  (_, b) \<leftarrow> USBH_FreePipe b (msc_OutPipe m);
                  Some (m\<lparr>msc_OutPipe := 0\<rparr>, b)
                } else Some (m, b));
     (m, b) \<leftarrow> (if msc_InPipe m \<noteq> 0 then do {
                  (_, b) \<leftarrow> USBH_ClosePipe h b (msc_InPipe m);
                  (_, b) \<leftarrow> USBH_FreePipe b (msc_InPipe m);
                  Some (m\<lparr>msc_InPipe := 0\<rparr>, b)
                } else Some (m, b));
     (_, h, b) \<leftarrow> USBH_Free_One_Address h (put_msc m b);
     Some (USBH_OK, h, b)
   }"

subsection \<open>Class requests\<close>

text \<open>
  The number of units is the byte the device sent, plus one; the loop over them writes outside the
  table when there are more than two.
\<close>

definition reset_units :: "u32 \<Rightarrow> MSC_HandleTypeDef \<Rightarrow> MSC_HandleTypeDef option" where
  "reset_units n m =
     (if unat n \<le> length (unit_luns m)
      then Some (m\<lparr>unit_luns := map (\<lambda>u. u\<lparr>prev_ready_state := USBH_FAIL, state_changed := 0\<rparr>)
             (take (unat n) (unit_luns m)) @ drop (unat n) (unit_luns m)\<rparr>)
      else None)"

definition msc_max_lun :: "USBH_StatusTypeDef \<Rightarrow> MSC_HandleTypeDef \<Rightarrow> MSC_HandleTypeDef option" where
  "msc_max_lun s m =
     (let n = (if s = USBH_NOT_SUPPORTED then 0 else max_lun m);
          n = ucast (ucast n :: u8) + 1
      in reset_units n (m\<lparr>max_lun := n\<rparr>))"

definition USBH_MSC_ClassRequest :: "host \<Rightarrow> bus \<Rightarrow> call" where
  "USBH_MSC_ClassRequest h b = do {
     m \<leftarrow> msc_handle h b;
     (case req_state m of
        MSC_REQ_ERROR \<Rightarrow> do {
          (s, h, b) \<leftarrow> USBH_ClrFeature h b 0x00;
          b \<leftarrow> (if s = USBH_OK then on_msc (\<lambda>m. Some (m\<lparr>req_state := prev_req_state m\<rparr>)) h b else Some b);
          Some (USBH_BUSY, h, b)
        }
      | MSC_REQ_RESET \<Rightarrow> Some (USBH_BUSY, h, b)
      | _ \<Rightarrow> do {
          (s, h, b) \<leftarrow> USBH_MSC_BOT_REQ_GetMaxLUN h b;
          (if s = USBH_OK \<or> s = USBH_NOT_SUPPORTED then do {
             b \<leftarrow> on_msc (msc_max_lun s) h b;
             Some (USBH_OK, h, b)
           } else Some (s, h, b))
        })
   }"

subsection \<open>Bringing the units up\<close>

definition lun_goto :: "MSC_StateTypeDef \<Rightarrow> MSC_LUNTypeDef \<Rightarrow> MSC_LUNTypeDef" where
  "lun_goto s u = u\<lparr>lun_state := s\<rparr>"

definition lun_failed :: "MSC_LUNTypeDef \<Rightarrow> MSC_LUNTypeDef" where
  "lun_failed u = u\<lparr>lun_state := MSC_IDLE, lun_error := MSC_ERROR\<rparr>"

definition after_inquiry :: "USBH_StatusTypeDef \<Rightarrow> MSC_LUNTypeDef \<Rightarrow> MSC_LUNTypeDef" where
  "after_inquiry s u =
     (if s = USBH_OK then lun_goto MSC_TEST_UNIT_READY u
      else if s = USBH_FAIL then lun_goto MSC_REQUEST_SENSE u
      else if s = USBH_UNRECOVERED_ERROR then lun_failed u else u)"

definition after_ready :: "USBH_StatusTypeDef \<Rightarrow> MSC_LUNTypeDef \<Rightarrow> MSC_LUNTypeDef" where
  "after_ready s u =
     (if s = USBH_OK then
        u\<lparr>state_changed := (if prev_ready_state u \<noteq> USBH_OK then 1 else 0), lun_state := MSC_READ_CAPACITY10,
          lun_error := MSC_OK, prev_ready_state := USBH_OK\<rparr>
      else if s = USBH_FAIL then
        u\<lparr>state_changed := (if prev_ready_state u \<noteq> USBH_FAIL then 1 else 0), lun_state := MSC_REQUEST_SENSE,
          lun_error := MSC_NOT_READY, prev_ready_state := USBH_FAIL\<rparr>
      else if s = USBH_UNRECOVERED_ERROR then lun_failed u else u)"

definition after_capacity :: "USBH_StatusTypeDef \<Rightarrow> MSC_LUNTypeDef \<Rightarrow> MSC_LUNTypeDef" where
  "after_capacity s u =
     (if s = USBH_OK then u\<lparr>lun_state := MSC_IDLE, lun_error := MSC_OK\<rparr>
      else if s = USBH_FAIL then lun_goto MSC_REQUEST_SENSE u
      else if s = USBH_UNRECOVERED_ERROR then lun_failed u else u)"

text \<open>A unit that is not ready yet is asked again for ten seconds (\<open>waited\<close> milliseconds so far).\<close>

definition ask_again :: "u32 \<Rightarrow> MSC_LUNTypeDef \<Rightarrow> bool" where
  "ask_again waited u \<longleftrightarrow> (sense_key u = 0x06 \<or> sense_key u = 0x02) \<and> waited < 10000"

definition after_sense :: "u32 \<Rightarrow> USBH_StatusTypeDef \<Rightarrow> MSC_LUNTypeDef \<Rightarrow> MSC_LUNTypeDef" where
  "after_sense waited s u =
     (if s = USBH_OK then lun_goto (if ask_again waited u then MSC_TEST_UNIT_READY else MSC_IDLE) u
      else if s = USBH_FAIL then lun_goto MSC_UNRECOVERED_ERROR u
      else if s = USBH_UNRECOVERED_ERROR then lun_failed u else u)"

definition next_lun :: "MSC_HandleTypeDef \<Rightarrow> MSC_HandleTypeDef" where
  "next_lun m = m\<lparr>current_lun := current_lun m + 1\<rparr>"

text \<open>One step of the unit under way; \<open>i\<close> is its index, its number is narrowed to eight bits.\<close>

definition lun_inquiry :: "nat \<Rightarrow> u8 \<Rightarrow> host \<Rightarrow> bus \<Rightarrow> call" where
  "lun_inquiry i n h b = do {
     (s, h, b) \<leftarrow> USBH_MSC_SCSI_Inquiry i n h b;
     b \<leftarrow> on_msc (upd_unit i (after_inquiry s)) h b;
     Some (s, h, b)
   }"

definition lun_ready :: "nat \<Rightarrow> u8 \<Rightarrow> host \<Rightarrow> bus \<Rightarrow> call" where
  "lun_ready i n h b = do {
     (s, h, b) \<leftarrow> USBH_MSC_SCSI_TestUnitReady n h b;
     b \<leftarrow> on_msc (upd_unit i (after_ready s)) h b;
     Some (s, h, b)
   }"

definition lun_capacity :: "nat \<Rightarrow> u8 \<Rightarrow> host \<Rightarrow> bus \<Rightarrow> call" where
  "lun_capacity i n h b = do {
     (s, h, b) \<leftarrow> USBH_MSC_SCSI_ReadCapacity i n h b;
     b \<leftarrow> on_msc (\<lambda>m. do {
            m \<leftarrow> upd_unit i (after_capacity s) m;
            Some (if s = USBH_OK then next_lun m else m)
          }) h b;
     Some (s, h, b)
   }"

definition lun_sense :: "nat \<Rightarrow> u8 \<Rightarrow> host \<Rightarrow> bus \<Rightarrow> call" where
  "lun_sense i n h b = do {
     (s, h, b) \<leftarrow> USBH_MSC_SCSI_RequestSense i n h b;
     b \<leftarrow> on_msc (\<lambda>m. do {
            u \<leftarrow> rd (unit_luns m) i;
            let waited = Timer h - msc_timer m;
            m \<leftarrow> upd_unit i (after_sense waited s) m;
            Some (if s = USBH_OK \<and> \<not> ask_again waited u then next_lun m else m)
          }) h b;
     Some (s, h, b)
   }"

definition lun_run :: "host \<Rightarrow> bus \<Rightarrow> call" where
  "lun_run h b = do {
     m \<leftarrow> msc_handle h b;
     let i = unat (current_lun m);
     let n = ucast (current_lun m);
     u \<leftarrow> rd (unit_luns m) i;
     (case lun_state u of
        MSC_INIT \<Rightarrow> do {
          b \<leftarrow> on_msc (\<lambda>m. map_option (\<lambda>m. m\<lparr>msc_timer := Timer h\<rparr>) (upd_unit i (lun_goto MSC_READ_INQUIRY) m)) h b;
          lun_inquiry i n h b
        }
      | MSC_READ_INQUIRY \<Rightarrow> lun_inquiry i n h b
      | MSC_TEST_UNIT_READY \<Rightarrow> lun_ready i n h b
      | MSC_READ_CAPACITY10 \<Rightarrow> lun_capacity i n h b
      | MSC_REQUEST_SENSE \<Rightarrow> lun_sense i n h b
      | MSC_UNRECOVERED_ERROR \<Rightarrow> do {
          b \<leftarrow> on_msc (\<lambda>m. Some (next_lun m)) h b;
          Some (USBH_BUSY, h, b)
        }
      | _ \<Rightarrow> Some (USBH_BUSY, h, b))
   }"

definition lun_step :: "host \<Rightarrow> bus \<Rightarrow> call" where
  "lun_step h b = do {
     b \<leftarrow> on_msc (\<lambda>m. upd_unit (unat (current_lun m)) (\<lambda>u. u\<lparr>lun_error := MSC_NOT_READY\<rparr>) m) h b;
     lun_run h b
   }"

definition USBH_MSC_Process :: "usb_env \<Rightarrow> hid \<Rightarrow> world \<Rightarrow> wcall" where
  "USBH_MSC_Process env x w = do {
     h \<leftarrow> hs w x;
     m \<leftarrow> msc_handle h (wb w);
     (case msc_state m of
        MSC_INIT \<Rightarrow>
          (if ucast (current_lun m) < max_lun m then do {
             (_, w) \<leftarrow> on_host x lun_step w;
             Some (USBH_BUSY, post USBH_CLASS_EVENT w)
           }
           else do {
             let w = post USBH_CLASS_EVENT (mod_bus (put_msc (m\<lparr>current_lun := 0, msc_state := MSC_IDLE\<rparr>)) w);
             w \<leftarrow> call_user env x HOST_USER_CLASS_ACTIVE w;
             Some (USBH_BUSY, w)
           })
      | MSC_IDLE \<Rightarrow> Some (USBH_OK, w)
      | _ \<Rightarrow> Some (USBH_BUSY, w))
   }"

definition USBH_MSC_SOFProcess :: "hid \<Rightarrow> world \<Rightarrow> wcall" where
  "USBH_MSC_SOFProcess x w = Some (USBH_OK, w)"

subsection \<open>Reading and writing\<close>

definition rw_result :: "USBH_StatusTypeDef \<Rightarrow> MSC_LUNTypeDef \<Rightarrow> MSC_LUNTypeDef" where
  "rw_result s u =
     (if s = USBH_OK then lun_goto MSC_IDLE u
      else if s = USBH_FAIL then lun_goto MSC_REQUEST_SENSE u
      else if s = USBH_UNRECOVERED_ERROR then lun_goto MSC_UNRECOVERED_ERROR u else u)"

definition rw_status :: "USBH_StatusTypeDef \<Rightarrow> USBH_StatusTypeDef" where
  "rw_status s = (if s = USBH_OK then USBH_OK else if s = USBH_UNRECOVERED_ERROR then USBH_FAIL else USBH_BUSY)"

definition rw_sense :: "USBH_StatusTypeDef \<Rightarrow> MSC_LUNTypeDef \<Rightarrow> MSC_LUNTypeDef" where
  "rw_sense s u =
     (if s = USBH_OK then u\<lparr>lun_state := MSC_IDLE, lun_error := MSC_ERROR\<rparr>
      else if s = USBH_UNRECOVERED_ERROR then lun_goto MSC_UNRECOVERED_ERROR u else u)"

definition USBH_MSC_RdWrProcess :: "u8 \<Rightarrow> host \<Rightarrow> bus \<Rightarrow> call" where
  "USBH_MSC_RdWrProcess lun h b = do {
     m \<leftarrow> msc_handle h b;
     u \<leftarrow> rd (unit_luns m) (unat lun);
     (case lun_state u of
        MSC_READ \<Rightarrow> do {
          (s, h, b) \<leftarrow> USBH_MSC_SCSI_Read lun 0 NULL_buf 0 h b;
          b \<leftarrow> on_msc (upd_unit (unat lun) (rw_result s)) h b;
          Some (rw_status s, h, os_put USBH_CLASS_EVENT b)
        }
      | MSC_WRITE \<Rightarrow> do {
          (s, h, b) \<leftarrow> USBH_MSC_SCSI_Write lun 0 NULL_buf 0 h b;
          b \<leftarrow> on_msc (upd_unit (unat lun) (rw_result s)) h b;
          Some (rw_status s, h, os_put USBH_CLASS_EVENT b)
        }
      | MSC_REQUEST_SENSE \<Rightarrow> do {
          (s, h, b) \<leftarrow> USBH_MSC_SCSI_RequestSense (unat lun) lun h b;
          b \<leftarrow> on_msc (upd_unit (unat lun) (rw_sense s)) h b;
          Some (if s = USBH_OK \<or> s = USBH_UNRECOVERED_ERROR then USBH_FAIL else USBH_BUSY, h,
                os_put USBH_CLASS_EVENT b)
        }
      | _ \<Rightarrow> Some (USBH_BUSY, h, b))
   }"

text \<open>
  The calls of the application wait for the end of the transfer, while interrupts run. A transfer that
  is not busy any more ends the loop with \<open>USBH_OK\<close>, whatever its result was.
\<close>

definition set_msc_state :: "MSC_StateTypeDef \<Rightarrow> host \<Rightarrow> bus \<Rightarrow> call" where
  "set_msc_state s h b = do { b \<leftarrow> on_msc (\<lambda>m. Some (m\<lparr>msc_state := s\<rparr>)) h b; Some (USBH_OK, h, b) }"

partial_function (option) rw_wait :: "usb_env \<Rightarrow> hid \<Rightarrow> u8 \<Rightarrow> u32 \<Rightarrow> u32 \<Rightarrow> world \<Rightarrow> wcall" where
  "rw_wait env x lun start limit w = do {
     (s, w) \<leftarrow> on_host x (USBH_MSC_RdWrProcess lun) w;
     (if s = USBH_BUSY then do {
        h \<leftarrow> hs w x;
        (if Timer h - start > limit \<or> is_connected (device h) = 0 then do {
           (_, w) \<leftarrow> on_host x (set_msc_state MSC_IDLE) w;
           Some (USBH_FAIL, w)
         }
         else do { w \<leftarrow> tick env w; rw_wait env x lun start limit w })
      }
      else on_host x (set_msc_state MSC_IDLE) w)
   }"

definition rw_idle :: "u8 \<Rightarrow> host \<Rightarrow> bus \<Rightarrow> bool option" where
  "rw_idle lun h b = do {
     _ \<leftarrow> pActiveClass h;
     (if is_connected (device h) = 0 \<or> gState h \<noteq> HOST_CLASS then Some False
      else do {
        m \<leftarrow> msc_handle h b;
        u \<leftarrow> rd (unit_luns m) (unat lun);
        Some (lun_state u = MSC_IDLE)
      })
   }"

definition rw_begin :: "MSC_StateTypeDef \<Rightarrow> u8 \<Rightarrow> MSC_HandleTypeDef \<Rightarrow> MSC_HandleTypeDef option" where
  "rw_begin s lun m =
     map_option (\<lambda>m. m\<lparr>msc_state := s, rw_lun := ucast lun\<rparr>) (upd_unit (unat lun) (lun_goto s) m)"

definition msc_rw ::
  "MSC_StateTypeDef \<Rightarrow> (host \<Rightarrow> bus \<Rightarrow> call) \<Rightarrow> usb_env \<Rightarrow> hid \<Rightarrow> u8 \<Rightarrow> u32 \<Rightarrow> world \<Rightarrow> wcall" where
  "msc_rw st start env x lun len w = do {
     h \<leftarrow> hs w x;
     idle \<leftarrow> rw_idle lun h (wb w);
     (if \<not> idle then Some (USBH_FAIL, w)
      else do {
        b \<leftarrow> on_msc (rw_begin st lun) h (wb w);
        (_, w) \<leftarrow> on_host x start (w\<lparr>wb := b\<rparr>);
        h \<leftarrow> hs w x;
        rw_wait env x lun (Timer h) (10000 * len) w
      })
   }"

definition USBH_MSC_Read :: "usb_env \<Rightarrow> hid \<Rightarrow> u8 \<Rightarrow> u32 \<Rightarrow> buf_ptr \<Rightarrow> u32 \<Rightarrow> world \<Rightarrow> wcall" where
  "USBH_MSC_Read env x lun address pbuf len =
     msc_rw MSC_READ (USBH_MSC_SCSI_Read lun address pbuf len) env x lun len"

definition USBH_MSC_Write :: "usb_env \<Rightarrow> hid \<Rightarrow> u8 \<Rightarrow> u32 \<Rightarrow> buf_ptr \<Rightarrow> u32 \<Rightarrow> world \<Rightarrow> wcall" where
  "USBH_MSC_Write env x lun address pbuf len =
     msc_rw MSC_WRITE (USBH_MSC_SCSI_Write lun address pbuf len) env x lun len"

subsection \<open>Questions of the application\<close>

definition USBH_MSC_IsReady :: "host \<Rightarrow> bus \<Rightarrow> u8 option" where
  "USBH_MSC_IsReady h b = do {
     _ \<leftarrow> pActiveClass h;
     (if gState h = HOST_CLASS then do {
        m \<leftarrow> msc_handle h b;
        Some (if msc_state m = MSC_IDLE then 1 else 0)
      } else Some 0)
   }"

text \<open>The result type is a signed byte: the failure 0xFF reads as -1.\<close>

definition USBH_MSC_GetMaxLUN :: "host \<Rightarrow> bus \<Rightarrow> u8 option" where
  "USBH_MSC_GetMaxLUN h b = do {
     _ \<leftarrow> pActiveClass h;
     (if gState h = HOST_CLASS then do {
        m \<leftarrow> msc_handle h b;
        Some (if msc_state m = MSC_IDLE then ucast (max_lun m) else 0xFF)
      } else Some 0xFF)
   }"

definition USBH_MSC_UnitIsReady :: "u8 \<Rightarrow> host \<Rightarrow> bus \<Rightarrow> u8 option" where
  "USBH_MSC_UnitIsReady lun h b = do {
     _ \<leftarrow> pActiveClass h;
     (if gState h = HOST_CLASS then do {
        m \<leftarrow> msc_handle h b;
        u \<leftarrow> rd (unit_luns m) (unat lun);
        Some (if lun_error u = MSC_OK then 1 else 0)
      } else Some 0)
   }"

definition USBH_MSC_GetLUNInfo :: "u8 \<Rightarrow> host \<Rightarrow> bus \<Rightarrow> MSC_LUNTypeDef option option" where
  "USBH_MSC_GetLUNInfo lun h b = do {
     _ \<leftarrow> pActiveClass h;
     (if gState h = HOST_CLASS then do {
        m \<leftarrow> msc_handle h b;
        u \<leftarrow> rd (unit_luns m) (unat lun);
        Some (Some u)
      } else Some None)
   }"

end
