(* ===== verification/Interrupts.thy ===== *)
theory Interrupts
  imports HcdIrq HubTree AppFacts Msc
begin

text \<open>
  What an interrupt changes of the state the host thread works on. \<open>quiet r\<close> is the frame: the handles
  stay where they are in the tree, the machine of the handle at the root port \<open>r\<close> may be moved by the port
  and no other one, the control blocks, the shape of the tables and the application classes stay. The user
  callback keeps that frame if the interrupts it lets in keep it, and so does the whole handler, port events
  included.
\<close>

definition class_sof :: "class_ref \<Rightarrow> hid \<Rightarrow> world \<Rightarrow> wcall" where
  "class_sof c x w =
     (case c of
        MSC_Class \<Rightarrow> USBH_MSC_SOFProcess x w
      | EC20_Class \<Rightarrow> USBH_EC20_SOFProcess x w
      | HUB_Class \<Rightarrow> on_host x USBH_HUB_SOFProcess w)"

subsection \<open>The frame\<close>

definition same_core :: "bool \<Rightarrow> host \<Rightarrow> host \<Rightarrow> bool" where
  "same_core root h h' \<longleftrightarrow> same_place h h' \<and> moved root h h' \<and> Control h' = Control h \<and>
     RequestState h' = RequestState h \<and> pData h' = pData h \<and> pUser h' = pUser h \<and>
     (app_class h \<noteq> None \<longrightarrow> app_class h' = app_class h)"

definition quiet :: "hid \<Rightarrow> world \<Rightarrow> world \<Rightarrow> bool" where
  "quiet r w w' \<longleftrightarrow> length (hc (wb w')) = length (hc (wb w)) \<and> length (Pipes (wb w')) = length (Pipes (wb w)) \<and>
     next_hid w' = next_hid w \<and> (\<forall>z. hs w z = None \<longrightarrow> hs w' z = None) \<and>
     (\<forall>z h. hs w z = Some h \<longrightarrow> (\<exists>h'. hs w' z = Some h' \<and> same_core (z = r) h h'))"

lemma same_core_refl [simp]: "same_core b h h"
  by (simp add: same_core_def)

lemma same_core_trans: "same_core b h h1 \<Longrightarrow> same_core b h1 h' \<Longrightarrow> same_core b h h'"
  unfolding same_core_def by (auto intro: same_place_trans moved_trans)

lemma quiet_refl [simp]: "quiet r w w"
  by (simp add: quiet_def)

lemma quiet_trans: "quiet r w w1 \<Longrightarrow> quiet r w1 w' \<Longrightarrow> quiet r w w'"
  unfolding quiet_def by (intro conjI; (simp; fail)?) (meson same_core_trans)

lemma quiet_keeps: "quiet r w w' \<Longrightarrow> keeps r w w'"
  unfolding quiet_def keeps_def same_core_def by blast

lemma quiet_Some: "quiet r w w' \<Longrightarrow> hs w z = Some h \<Longrightarrow> \<exists>h'. hs w' z = Some h' \<and> same_core (z = r) h h'"
  by (simp add: quiet_def)

lemma quiet_put:
  assumes "hs w x = Some h" "same_core (x = r) h h'" "length (hc b) = length (hc (wb w))"
    "length (Pipes b) = length (Pipes (wb w))"
  shows "quiet r w ((put_host x h' w)\<lparr>wb := b\<rparr>)" "b = wb w \<Longrightarrow> quiet r w (put_host x h' w)"
  using assms by (auto simp: quiet_def)

lemma quiet_bus:
  "length (hc b) = length (hc (wb w)) \<Longrightarrow> length (Pipes b) = length (Pipes (wb w)) \<Longrightarrow> quiet r w (w\<lparr>wb := b\<rparr>)"
  by (simp add: quiet_def)

lemma quiet_mod_bus:
  "(\<And>b. length (hc (f b)) = length (hc b)) \<Longrightarrow> (\<And>b. length (Pipes (f b)) = length (Pipes b)) \<Longrightarrow> quiet r w (mod_bus f w)"
  by (simp add: mod_bus_def quiet_bus)

lemma quiet_post [simp]: "quiet r w (post e w)"
  by (simp add: post_def quiet_mod_bus)

lemma quiet_clock [simp]: "quiet r w (w'\<lparr>clock := n\<rparr>) = quiet r w w'"
  by (simp add: quiet_def)

lemma quiet_delay [simp]: "quiet r (mod_bus (USBH_Delay n) w) w' = quiet r w w'"
  by (simp add: quiet_def USBH_Delay_def)

lemma quiet_take: "take_malloc w = (ok, w') \<Longrightarrow> quiet r w w'"
  by (auto simp: take_malloc_def quiet_def split: list.splits)

lemma quiet_mod_host:
  assumes "mod_host x f w = Some w'" "\<And>h. same_core (x = r) h (f h)"
  shows "quiet r w w'"
  using assms by (auto simp: mod_host_eq_Some_iff intro!: quiet_put(2))

lemma quiet_on_host:
  assumes "on_host x f w = Some (s, w')"
    "\<And>h h' b'. f h (wb w) = Some (s, h', b') \<Longrightarrow> same_core (x = r) h h' \<and>
       length (hc b') = length (hc (wb w)) \<and> length (Pipes b') = length (Pipes (wb w))"
  shows "quiet r w w'"
proof -
  from assms(1) obtain h h' b' where 1: "hs w x = Some h" "f h (wb w) = Some (s, h', b')" "w' = (put_host x h' w)\<lparr>wb := b'\<rparr>"
    by (auto simp: on_host_eq_Some_iff)
  from assms(2) [OF 1(2)] show ?thesis unfolding 1(3) by (intro quiet_put(1) [OF 1(1)]) simp_all
qed

lemma quiet_on_handle:
  assumes "on_handle x f w = Some w'" "\<And>h h'. f h = Some h' \<Longrightarrow> same_core (x = r) h h'"
  shows "quiet r w w'"
proof -
  from assms(1) obtain h h' where 1: "hs w x = Some h" "f h = Some h'" "w' = put_host x h' w"
    by (auto simp: on_handle_def bind_eq_Some_conv)
  from assms(2) [OF 1(2)] show ?thesis unfolding 1(3) by (intro quiet_put(2) [OF 1(1)]) simp_all
qed

lemmas core_defs = same_core_def same_place_def moved_def irq_move_def

subsection \<open>Received data and channels\<close>

lemma store_core:
  "store_hub k bs h = Some h' \<Longrightarrow> same_core b h h'" "store_cdc k bs h = Some h' \<Longrightarrow> same_core b h h'"
  "store_app k bs h = Some h' \<Longrightarrow> same_core b h h'"
  by (auto simp: store_hub_def store_cdc_def store_app_def core_defs split: option.splits class_data.splits)

lemma store_msc_quiet: "store_msc f w = Some w' \<Longrightarrow> quiet r w w'"
  by (auto simp: store_msc_def bind_eq_Some_conv mod_bus_def split: if_splits intro: quiet_bus)

lemma store_bytes_quiet:
  assumes "store_bytes p bs w = Some w'"
  shows "quiet r w w'"
proof -
  have b: "quiet r w v" if "store_base q k bs w = Some v" for q k v
    using that store_core
    by (cases q)
      (auto simp: store_base_def core_defs upd_dev_def quiet_bus elim!: quiet_on_handle store_msc_quiet)
  show ?thesis using assms b by (cases p) (auto simp: store_bytes_def)
qed

lemma put_chan_frame [simp]:
  "length (hc (snd (put_chan i k (u, b)))) = length (hc b)" "Pipes (snd (put_chan i k (u, b))) = Pipes b"
  by (simp_all add: put_chan_def)

lemma quiet_chan: "quiet r w v \<Longrightarrow> quiet r w (v\<lparr>wb := snd (put_chan i k (u, wb v))\<rparr>)"
  by (rule quiet_trans [OF _ quiet_bus]) simp_all

lemma rx_quiet: "HCD_RXQLVL_IRQHandler t (u, w) = Some (u', w') \<Longrightarrow> quiet r w w'"
  by (auto simp: HCD_RXQLVL_IRQHandler_def bind_eq_Some_conv Let_def case_prod_beta split: if_splits
      intro!: quiet_chan dest: store_bytes_quiet)

lemma chan_irqs_quiet:
  "chan_irqs ints i n (u, w) = Some (u', w') \<Longrightarrow> quiet r w w'"
proof (induction n arbitrary: i u w)
  case (Suc n)
  have c: "chan_irq i (u, w) = Some (u1, w1) \<Longrightarrow> quiet r w w1" for u1 w1
    by (auto simp: chan_irq_def bind_eq_Some_conv Let_def case_prod_beta intro: quiet_chan)
  from Suc.prems obtain u1 w1 where 1: "chan_irqs ints (Suc i) n (u1, w1) = Some (u', w')"
    "(u1, w1) = (u, w) \<or> chan_irq i (u, w) = Some (u1, w1)" by (auto simp: bind_eq_Some_conv split: if_splits)
  then show ?case using Suc.IH [OF 1(1)] c quiet_trans by blast
qed simp

subsection \<open>The frame tick\<close>

lemma put_hub_core [simp]: "same_core b h (put_hub u h)"
  by (simp add: core_defs put_hub_def)

lemma hub_sof_core:
  assumes "USBH_HUB_SOFProcess h b = Some (s, h', b')"
  shows "same_core root h h' \<and> length (hc b') = length (hc b) \<and> length (Pipes b') = length (Pipes b)"
  using assms
  by (auto simp: USBH_HUB_SOFProcess_def hub_sof_def Let_def bind_eq_Some_conv data_requests_iff
      split: if_splits)

lemma class_sof_quiet: "class_sof c x w = Some (s, w') \<Longrightarrow> quiet r w w'"
  by (auto simp: class_sof_def USBH_MSC_SOFProcess_def USBH_EC20_SOFProcess_def split: class_ref.splits
      dest: quiet_on_host hub_sof_core)

lemma each_child_quiet:
  "each_child f x n w = Some w' \<Longrightarrow> (\<And>y v v'. f y v = Some v' \<Longrightarrow> quiet r v v') \<Longrightarrow> quiet r w w'"
  by (rule each_child_inv [where P = "quiet r w"]) (auto intro: quiet_trans)

lemma HandleSof_quiet:
  assumes "e_SOFProcess env = class_sof"
  shows "USBH_HandleSof env d x w = Some w' \<Longrightarrow> quiet r w w'"
proof (induction d arbitrary: x w w')
  case (Suc d)
  from Suc.prems obtain h where h: "hs w x = Some h" by (auto simp: bind_eq_Some_conv)
  show ?case
  proof (cases "pActiveClass h = None \<or> gState h \<noteq> HOST_CLASS")
    case True
    then show ?thesis using Suc.prems h by (auto split: option.splits)
  next
    case False
    then obtain c s w1 where "class_sof c x w = Some (s, w1)" "each_child (USBH_HandleSof env d) x USBH_MAX_NUM_CHILD w1 = Some w'"
      using Suc.prems h assms by (auto simp: bind_eq_Some_conv)
    then show ?thesis using class_sof_quiet each_child_quiet Suc.IH quiet_trans by blast
  qed
qed simp

lemma irq_sof_quiet:
  assumes "e_SOFProcess env = class_sof" "irq_sof env d x q (u, w) = Some (u', w')"
  shows "quiet r w w'"
proof (cases "gflag q 7 GINT_SOF")
  case True
  with assms(2) obtain w1 where 1: "mod_host x (\<lambda>h. h\<lparr>Timer := Timer h + 1\<rparr>) w = Some w1" "USBH_HandleSof env d x w1 = Some w'"
    by (auto simp: irq_sof_def HAL_HCD_SOF_Callback_def USBH_LL_IncTimer_def bind_eq_Some_conv)
  have "quiet r w w1" using 1(1) by (rule quiet_mod_host) (simp add: core_defs)
  then show ?thesis using HandleSof_quiet [OF assms(1) 1(2)] by (rule quiet_trans)
next
  case False
  then show ?thesis using assms(2) by (simp add: irq_sof_def)
qed

subsection \<open>The user callback\<close>

text \<open>
  The callback waits for the application's thread and for a free driver: there the interrupts of \<open>env\<close> come
  in. In the handler itself none does.
\<close>

locale irq_frame =
  fixes env :: usb_env and r :: hid
  assumes irq_quiet: "e_irq env n w = Some w' \<Longrightarrow> quiet r w w'"

lemmas wait_app_induct = wait_app.raw_induct [where xa = "((e, y), v)" for e y v, unfolded prod.case]
lemmas wait_receive_induct = wait_receive.raw_induct [where xa = "((e, y), v)" for e y v, unfolded prod.case]

lemma put_app_quiet: "put_app y a w = Some w' \<Longrightarrow> quiet r w w'"
  unfolding put_app_def by (erule quiet_mod_host) (simp add: core_defs)

lemma rearm_quiet: "on_host y (rearm y) w = Some (s, w') \<Longrightarrow> quiet r w w'"
  by (erule quiet_on_host) (auto simp: rearm_def USBH_EC20_Receive_def core_defs put_ec20_def bind_eq_Some_conv split: if_splits)

lemma new_app_quiet:
  assumes "new_EC20_Application x w = Some (s, w')"
  shows "quiet r w w'"
proof -
  obtain ok1 w1 ok2 w2 where t: "take_malloc w = (ok1, w1)" "take_malloc w1 = (ok2, w2)"
    by (metis surj_pair)
  with assms have "w' = w1 \<or> w' = w2 \<or> (\<exists>a. put_app x a w2 = Some w')"
    by (auto simp: new_EC20_Application_def bind_eq_Some_conv split: if_splits)
  then show ?thesis using put_app_quiet quiet_take [OF t(1)] quiet_take [OF t(2)] by (blast intro: quiet_trans)
qed

lemma delete_app_quiet: "delete_EC20_Application x w = Some (s, w') \<Longrightarrow> quiet r w w'"
  by (auto simp: delete_EC20_Application_def bind_eq_Some_conv core_defs intro!: quiet_put(2))

lemma activeclass_core: "get_activeclass_app h = Some (v, h') \<Longrightarrow> same_core b h h'"
  by (auto simp: get_activeclass_app_def core_defs bind_eq_Some_conv split: option.splits) (metis app_ref.exhaust)

context irq_frame
begin

lemma tick_quiet: "tick env (mod_bus (USBH_Delay n) w) = Some w' \<Longrightarrow> quiet r w w'"
  by (auto simp: tick_eq_Some_iff dest!: irq_quiet)

lemma wait_app_quiet:
  assumes "wait_app env x w = Some w'"
  shows "quiet r w w'"
proof -
  have "env = env \<longrightarrow> quiet r w w'"
  proof (rule wait_app_induct [where P = "\<lambda>e y v v'. e = env \<longrightarrow> quiet r v v'", OF _ assms])
    fix wait :: "usb_env \<Rightarrow> hid \<Rightarrow> world \<Rightarrow> world option" and e y v v'
    assume ih: "\<And>e y v v'. wait e y v = Some v' \<Longrightarrow> e = env \<longrightarrow> quiet r v v'"
      and w: "do {
         h \<leftarrow> hs v y;
         (if app_data h = None then Some v
          else do { w \<leftarrow> tick e (mod_bus (USBH_Delay 10) v); wait e y w })
       } = Some v'"
    then consider "v' = v" | v1 where "tick e (mod_bus (USBH_Delay 10) v) = Some v1" "wait e y v1 = Some v'"
      by (auto simp: bind_eq_Some_conv split: if_splits)
    then show "e = env \<longrightarrow> quiet r v v'" using ih tick_quiet by cases (simp, blast intro: quiet_trans)
  qed
  then show ?thesis by simp
qed

lemma wait_receive_quiet:
  assumes "wait_receive env x w = Some w'"
  shows "quiet r w w'"
proof -
  have "env = env \<longrightarrow> quiet r w w'"
  proof (rule wait_receive_induct [where P = "\<lambda>e y v v'. e = env \<longrightarrow> quiet r v v'", OF _ assms])
    fix wait :: "usb_env \<Rightarrow> hid \<Rightarrow> world \<Rightarrow> world option" and e y v v'
    assume ih: "\<And>e y v v'. wait e y v = Some v' \<Longrightarrow> e = env \<longrightarrow> quiet r v v'"
      and w: "do {
         (s, w) \<leftarrow> on_host y (rearm y) v;
         (if s = USBH_OK then Some w
          else do { w \<leftarrow> tick e (mod_bus (USBH_Delay 100) w); wait e y w })
       } = Some v'"
    then obtain s v1 where 1: "on_host y (rearm y) v = Some (s, v1)"
      "v' = v1 \<or> (\<exists>v2. tick e (mod_bus (USBH_Delay 100) v1) = Some v2 \<and> wait e y v2 = Some v')"
      by (auto simp: bind_eq_Some_conv split: if_splits)
    show "e = env \<longrightarrow> quiet r v v'"
      using 1(2) ih tick_quiet rearm_quiet [OF 1(1)] by (blast intro: quiet_trans)
  qed
  then show ?thesis by simp
qed

lemma stop_wait_frame: "stop_wait env x n w = Some w' \<Longrightarrow> quiet r w w'"
  by (induction n arbitrary: w) (auto simp: bind_eq_Some_conv split: if_splits dest!: tick_quiet intro: quiet_trans)

lemma start_app_quiet:
  assumes "start_EC20_Application env x w = Some (s, w')"
  shows "quiet r w w'"
proof -
  obtain ok w1 where t: "take_malloc w = (ok, w1)" by (metis surj_pair)
  from assms(1) t have "(\<exists>a. put_app x a w1 = Some w') \<or> (\<exists>a a' v v'. put_app x a w1 = Some v \<and>
      wait_receive env x v = Some v' \<and> put_app x a' v' = Some w')"
    by (auto simp: start_EC20_Application_def bind_eq_Some_conv Let_def split: if_splits)
  then have "quiet r w1 w'"
    using put_app_quiet wait_receive_quiet by (blast intro: quiet_trans)
  with quiet_take [OF t] show ?thesis by (rule quiet_trans)
qed

lemma stop_app_quiet:
  assumes "stop_EC20_Application env x w = Some (s, w')"
  shows "quiet r w w'"
proof -
  from assms(1) have "w' = w \<or> (\<exists>a a' v v'. put_app x a w = Some v \<and> stop_wait env x 10 v = Some v' \<and>
      put_app x a' v' = Some w')"
    by (auto simp: stop_EC20_Application_def bind_eq_Some_conv simp del: stop_wait.simps split: option.splits)
  then show ?thesis using put_app_quiet stop_wait_frame quiet_refl by (blast intro: quiet_trans)
qed

lemma UserProcess_quiet:
  assumes "USBH_UserProcess env x code w = Some w'"
  shows "quiet r w w'"
proof -
  from assms(1) have "w' = w \<or>
      (\<exists>h v h1. hs w x = Some h \<and> get_activeclass_app h = Some (v, h1) \<and>
         (w' = put_host x h1 w \<or> (\<exists>s. new_EC20_Application x (put_host x h1 w) = Some (s, w')))) \<or>
      (\<exists>s. start_EC20_Application env x w = Some (s, w')) \<or>
      (\<exists>s t v. stop_EC20_Application env x w = Some (s, v) \<and> delete_EC20_Application x v = Some (t, w'))"
    by (auto simp: USBH_UserProcess_def bind_eq_Some_conv Let_def split: if_splits)
  then consider (same) "w' = w" | (sel) h v h1 where "hs w x = Some h" "get_activeclass_app h = Some (v, h1)"
      "quiet r (put_host x h1 w) w'"
    | (start) s where "start_EC20_Application env x w = Some (s, w')"
    | (stop) s t v where "stop_EC20_Application env x w = Some (s, v)" "delete_EC20_Application x v = Some (t, w')"
    using new_app_quiet quiet_refl by blast
  then show ?thesis
  proof cases
    case sel
    from quiet_put(2) [OF sel(1) activeclass_core [OF sel(2)]] sel(3) show ?thesis by (auto intro: quiet_trans)
  next
    case stop
    with stop_app_quiet delete_app_quiet show ?thesis by (blast intro: quiet_trans)
  qed (simp_all add: start_app_quiet)
qed

lemma app_class_kept: "irq_keeps_class env x"
  unfolding irq_keeps_class_def
proof (intro allI impI)
  fix n v v' h c
  assume "e_irq env n v = Some v'" "hs v x = Some h" "app_class h = Some c"
  with quiet_Some [OF irq_quiet] show "\<exists>h'. hs v' x = Some h' \<and> app_class h' = Some c"
    unfolding same_core_def by fastforce
qed

end

subsection \<open>The handler\<close>

locale handler_frame = irq_frame +
  assumes user_quiet: "e_user env x code w = Some w' \<Longrightarrow> quiet r w w'"
    and sof: "e_SOFProcess env = class_sof"
begin

lemma call_user_quiet: "call_user env x code w = Some w' \<Longrightarrow> quiet r w w'"
  by (auto simp: call_user_def bind_eq_Some_conv split: if_splits intro: user_quiet)

lemma upd_dev_quiet: "mod_host x (upd_dev f) w = Some w' \<Longrightarrow> quiet r w w'"
  by (erule quiet_mod_host) (simp add: core_defs upd_dev_def)

lemma LL_Connect_quiet:
  assumes "USBH_LL_Connect env r w = Some (s, w')"
  shows "quiet r w w'"
proof -
  from assms(1) obtain h w1 where h: "hs w r = Some h" and w': "w' = post USBH_PORT_EVENT w1"
    and 1: "(if gState h = HOST_IDLE then do {
            w \<leftarrow> mod_host r (upd_dev (\<lambda>d. d\<lparr>is_connected := 1\<rparr>)) w;
            (if pUser h then call_user env r HOST_USER_CONNECTION w else Some w)
          }
          else if gState h = HOST_DEV_WAIT_FOR_ATTACHMENT
          then mod_host r (\<lambda>h. h\<lparr>gState := HOST_DEV_ATTACHED\<rparr>) w
          else Some w) = Some w1" by (auto simp: USBH_LL_Connect_def bind_eq_Some_conv)
  have "quiet r w w1"
  proof (cases "gState h = HOST_DEV_WAIT_FOR_ATTACHMENT")
    case True
    with 1 h have "w1 = put_host r (h\<lparr>gState := HOST_DEV_ATTACHED\<rparr>) w" by (simp add: mod_host_eq_Some_iff)
    with h True show ?thesis by (auto simp: core_defs intro!: quiet_put(2))
  next
    case False
    with 1 show ?thesis
      by (auto simp: bind_eq_Some_conv split: if_splits dest!: upd_dev_quiet call_user_quiet intro: quiet_trans)
  qed
  then show ?thesis unfolding w' by (rule quiet_trans) simp
qed

lemma disconnect_port_core:
  "disconnect_port h b = Some (s, h', b') \<Longrightarrow> same_core True h h' \<and> length (hc b') = length (hc b) \<and>
     length (Pipes b') = length (Pipes b)"
  using FreePipe_frame(4,7)
  by (fastforce simp: disconnect_port_def bind_eq_Some_conv Let_def core_defs USBH_Delay_def USBH_LL_Start_def
      HAL_HCD_Start_def Stop_eq_Some_iff split: if_splits)

lemma LL_Disconnect_quiet:
  assumes "USBH_LL_Disconnect env r w = Some (s, w')"
  shows "quiet r w w'"
proof -
  from assms obtain w1 w2 h where m: "mod_host r (upd_dev (\<lambda>d. d\<lparr>is_connected := 0\<rparr>)) w = Some w1" and h: "hs w1 r = Some h"
    and u: "(if pUser h then call_user env r HOST_USER_DISCONNECTION w1 else Some w1) = Some w2"
    and d: "on_host r disconnect_port w2 = Some (s, w')" by (auto simp: USBH_LL_Disconnect_def bind_eq_Some_conv)
  have "quiet r w1 w2" using u by (auto split: if_splits dest: call_user_quiet)
  moreover have "quiet r w2 w'" using d by (rule quiet_on_host) (simp add: disconnect_port_core)
  ultimately show ?thesis using upd_dev_quiet [OF m] by (blast intro: quiet_trans)
qed

lemma Port_IRQ_quiet:
  assumes "HCD_Port_IRQHandler env r hprt0 dup (u, w) = Some (u', w')"
  shows "quiet r w w'"
proof -
  from assms(1) obtain w1 where 1: "w1 = w \<or> (\<exists>s. USBH_LL_Connect env r w = Some (s, w1))"
    "w' = w1 \<or> HAL_HCD_PortEnabled_Callback r w1 = Some w' \<or> HAL_HCD_PortDisabled_Callback r w1 = Some w'"
    by (auto simp: HCD_Port_IRQHandler_def HAL_HCD_Connect_Callback_def bind_eq_Some_conv split: if_splits)
  have "quiet r w1 w'" if "HAL_HCD_PortEnabled_Callback r w1 = Some w'"
  proof -
    from that obtain s where "on_host r (\<lambda>h b. case USBH_LL_PortEnabled h b of (h, b) \<Rightarrow> Some (USBH_OK, h, b)) w1 = Some (s, w')"
      by (auto simp: HAL_HCD_PortEnabled_Callback_def)
    then show ?thesis
      by (rule quiet_on_host) (auto simp: USBH_LL_PortEnabled_def Let_def upd_dev_def core_defs split: if_splits)
  qed
  moreover have "quiet r w1 w'" if "HAL_HCD_PortDisabled_Callback r w1 = Some w'"
    using that unfolding HAL_HCD_PortDisabled_Callback_def
    by (rule quiet_mod_host) (simp add: USBH_LL_PortDisabled_def upd_dev_def core_defs)
  ultimately have "quiet r w1 w'" using 1(2) by auto
  with 1(1) LL_Connect_quiet show ?thesis by (auto intro: quiet_trans)
qed

lemma irq_disconnect_quiet: "irq_disconnect env r q (u, w) = Some (u', w') \<Longrightarrow> quiet r w w'"
  by (auto simp: irq_disconnect_def HAL_HCD_Disconnect_Callback_def split: if_splits intro: LL_Disconnect_quiet)

lemma irq_handler_quiet:
  assumes "HAL_HCD_IRQHandler env d r q (u, w) = Some (u', w')"
  shows "quiet r w w'"
proof (cases "\<not> host_mode q \<or> gint q 0 = 0")
  case True
  with assms(1) show ?thesis by (auto simp: HAL_HCD_IRQHandler_def)
next
  case False
  from assms(1) [unfolded HAL_HCD_IRQHandler_def if_not_P [OF False] bind_eq_Some_conv]
  obtain s1 s2 s3 s4 where s: "irq_disconnect env r q (u, w) = Some s1"
    "(if gflag q 6 GINT_HPRTINT then HCD_Port_IRQHandler env r (port_hprt q) (port_hprt_dup q) s1 else Some s1) = Some s2"
    "irq_sof env d r q s2 = Some s3"
    "(if gflag q 8 GINT_HCINT then chan_irqs (haint q AND 0xFFFF) 0 Host_channels s3 else Some s3) = Some s4"
    "(if gflag q 9 GINT_RXFLVL then HCD_RXQLVL_IRQHandler (grxstsp q) s4 else Some s4) = Some (u', w')"
    by blast
  obtain u1 w1 u2 w2 u3 w3 u4 w4 where p: "s1 = (u1, w1)" "s2 = (u2, w2)" "s3 = (u3, w3)" "s4 = (u4, w4)"
    by (cases s1; cases s2; cases s3; cases s4) blast
  note 1 = s [unfolded p]
  have "quiet r w1 w2" using 1(2) by (auto split: if_splits dest: Port_IRQ_quiet)
  moreover have "quiet r w3 w'" using 1(4,5) by (auto split: if_splits dest!: chan_irqs_quiet rx_quiet intro: quiet_trans)
  ultimately show ?thesis using irq_disconnect_quiet [OF 1(1)] irq_sof_quiet [OF sof 1(3)] by (blast intro: quiet_trans)
qed

end

end
