(* ===== verification/System.thy ===== *)
theory System
  imports Interrupts
begin

text \<open>
  The program put together. \<open>drivers irq n\<close> ties the function pointers: the class table entries of the
  modem, hub and mass-storage drivers and the user callback \<open>USBH_UserProcess\<close>; \<open>irq\<close> is what
  runs at a point where they spin. The drivers call the host core, which calls the drivers of the devices
  behind a hub: \<open>n\<close> bounds that nesting.

  What runs where the code spins is the whole of \<open>HAL_HCD_IRQHandler\<close>, port events included, on the
  registers the tape gives for that point: an unplug frees the control pipes, runs the user callback and
  moves the machine of the root handle under the code that spins. \<^verbatim>\<open>USBH_Process\<close> masks the port interrupt
  around a handle's own step, the disconnect interrupt not; the step of a child unmasks it again, so the
  tape may raise both everywhere. The handler is not interrupted by itself, and a fault or an endless loop in
  it ends the run of the code it interrupts.
\<close>

subsection \<open>The environment\<close>

type_synonym irq_tape = "nat \<Rightarrow> irq_in \<times> otg"

abbreviation TREE_DEPTH :: nat where "TREE_DEPTH \<equiv> 8"

primrec drivers :: "(nat \<Rightarrow> world \<Rightarrow> world option) \<Rightarrow> nat \<Rightarrow> usb_env" where
  "drivers irq 0 =
     \<lparr>e_Init = (\<lambda>_ _ _. None), e_DeInit = (\<lambda>_ _ _. None), e_Requests = (\<lambda>_ _ _. None),
      e_BgndProcess = (\<lambda>_ _ _. None), e_SOFProcess = class_sof, e_user = (\<lambda>_ _ _. None), e_irq = irq\<rparr>"
| "drivers irq (Suc n) =
     (let E = drivers irq n in
      \<lparr>e_Init = (\<lambda>c x w. case c of MSC_Class \<Rightarrow> USBH_MSC_InterfaceInit x w
           | EC20_Class \<Rightarrow> USBH_EC20_InterfaceInit x w | HUB_Class \<Rightarrow> USBH_HUB_InterfaceInit x w),
       e_DeInit = (\<lambda>c x w. case c of MSC_Class \<Rightarrow> on_host x USBH_MSC_InterfaceDeInit w
           | EC20_Class \<Rightarrow> USBH_EC20_InterfaceDeInit E x w | HUB_Class \<Rightarrow> USBH_HUB_InterfaceDeInit E x w),
       e_Requests = (\<lambda>c x w. case c of MSC_Class \<Rightarrow> on_host x USBH_MSC_ClassRequest w
           | EC20_Class \<Rightarrow> USBH_EC20_ClassRequest E x w | HUB_Class \<Rightarrow> on_host x USBH_HUB_ClassRequest w),
       e_BgndProcess = (\<lambda>c x w. case c of MSC_Class \<Rightarrow> USBH_MSC_Process E x w
           | EC20_Class \<Rightarrow> USBH_EC20_Process USBH_EC20_ReceiveCallback x w | HUB_Class \<Rightarrow> USBH_HUB_Process E x w),
       e_SOFProcess = class_sof,
       e_user = USBH_UserProcess E,
       e_irq = irq\<rparr>)"

text \<open>Inside the handler no interrupt comes in.\<close>

definition handler_env :: usb_env where
  "handler_env = drivers (\<lambda>_. Some) 1"

definition irq_point :: "hid \<Rightarrow> irq_tape \<Rightarrow> nat \<Rightarrow> world \<Rightarrow> world option" where
  "irq_point root tape n w =
     map_option snd (HAL_HCD_IRQHandler handler_env TREE_DEPTH root (fst (tape n)) (snd (tape n), w))"

definition system_env :: "hid \<Rightarrow> irq_tape \<Rightarrow> nat \<Rightarrow> usb_env" where
  "system_env root tape n = drivers (irq_point root tape) n"

lemma system_env_sel [simp]:
  "e_Init (system_env root tape (Suc n)) = (\<lambda>c x w. case c of MSC_Class \<Rightarrow> USBH_MSC_InterfaceInit x w
     | EC20_Class \<Rightarrow> USBH_EC20_InterfaceInit x w | HUB_Class \<Rightarrow> USBH_HUB_InterfaceInit x w)"
  "e_DeInit (system_env root tape (Suc n)) = (\<lambda>c x w. case c of MSC_Class \<Rightarrow> on_host x USBH_MSC_InterfaceDeInit w
     | EC20_Class \<Rightarrow> USBH_EC20_InterfaceDeInit (system_env root tape n) x w
     | HUB_Class \<Rightarrow> USBH_HUB_InterfaceDeInit (system_env root tape n) x w)"
  "e_Requests (system_env root tape (Suc n)) = (\<lambda>c x w. case c of MSC_Class \<Rightarrow> on_host x USBH_MSC_ClassRequest w
     | EC20_Class \<Rightarrow> USBH_EC20_ClassRequest (system_env root tape n) x w | HUB_Class \<Rightarrow> on_host x USBH_HUB_ClassRequest w)"
  "e_BgndProcess (system_env root tape (Suc n)) = (\<lambda>c x w. case c of MSC_Class \<Rightarrow> USBH_MSC_Process (system_env root tape n) x w
     | EC20_Class \<Rightarrow> USBH_EC20_Process USBH_EC20_ReceiveCallback x w
     | HUB_Class \<Rightarrow> USBH_HUB_Process (system_env root tape n) x w)"
  "e_user (system_env root tape (Suc n)) = USBH_UserProcess (system_env root tape n)"
  by (simp_all only: system_env_def) (simp_all add: Let_def)

lemma drivers_sel [simp]: "e_irq (drivers irq n) = irq" "e_SOFProcess (drivers irq n) = class_sof"
  by (cases n; simp add: Let_def)+

lemma system_env_irq [simp]: "e_irq (system_env root tape n) = irq_point root tape"
  by (simp add: system_env_def)

subsection \<open>The frame of the system's interrupts\<close>

text \<open>The drivers' user callback keeps the frame of the interrupts it lets in.\<close>

lemma drivers_frame:
  assumes "\<And>n w w'. irq n w = Some w' \<Longrightarrow> quiet r w w'"
  shows "handler_frame (drivers irq k) r"
proof
  show "e_irq (drivers irq k) n w = Some w' \<Longrightarrow> quiet r w w'" for n w w' using assms by simp
  show "e_SOFProcess (drivers irq k) = class_sof" by simp
  show "quiet r w w'" if "e_user (drivers irq k) x code w = Some w'" for x code w w'
  proof (cases k)
    case (Suc m)
    have "irq_frame (drivers irq m) r" by unfold_locales (simp add: assms)
    with that Suc show ?thesis by (auto simp: Let_def intro: irq_frame.UserProcess_quiet)
  qed (use that in simp)
qed

interpretation handler: handler_frame handler_env r for r
  unfolding handler_env_def by (rule drivers_frame) simp

lemma irq_point_quiet: "irq_point root tape n w = Some w' \<Longrightarrow> quiet root w w'"
  by (cases "tape n") (auto simp: irq_point_def handler.irq_handler_quiet)

interpretation sys_frame: handler_frame "system_env root tape k" root for root tape k
  unfolding system_env_def by (rule drivers_frame) (rule irq_point_quiet)

text \<open>They leave alone what the port requests of a hub need.\<close>

interpretation sys_irq: calm_irq "system_env root tape k" x for root tape k x
proof
  fix n w w' h
  assume "e_irq (system_env root tape k) n w = Some w'"
  then have q: "quiet root w w'" by (rule sys_frame.irq_quiet)
  show "length (hc (wb w')) = length (hc (wb w)) \<and> length (Pipes (wb w')) = length (Pipes (wb w))"
    using q by (simp add: quiet_def)
  show "\<exists>h'. hs w' x = Some h' \<and> Control h' = Control h \<and> RequestState h' = RequestState h \<and>
      pData h' = pData h \<and> pUser h' = pUser h" if "hs w x = Some h"
    using quiet_Some [OF q that] by (auto simp: same_core_def)
qed

end
