(* ===== verification/MscFacts.thy ===== *)
theory MscFacts
  imports Msc
begin

text \<open>
  What the mass-storage driver of \<open>Msc\<close> does. A command goes out as one wrapper, its data as packets of
  the endpoint's size over consecutive pieces of the buffer, then one status wrapper is read and
  decides the result; the wrapper encodes the command. The driver never touches the host machine. It
  also has defects: the reset recovery is never started, a failed transfer is reported as done, and
  data that needs more than one packet is looked up behind its end.
\<close>

subsection \<open>What every operation leaves alone\<close>

lemma put_msc_simps [simp]:
  "Pipes (put_msc m b) = Pipes b" "addresses (put_msc m b) = addresses b" "addr_hdr (put_msc m b) = addr_hdr b"
  "hc (put_msc m b) = hc b" "os_event (put_msc m b) = os_event b" "trace (put_msc m b) = trace b"
  "port_speed (put_msc m b) = port_speed b" "msc_ptr (put_msc m b) = msc_ptr b" "msc_mem (put_msc m b) = m"
  "put_msc m2 (put_msc m b) = put_msc m2 b"
  by (simp_all add: put_msc_def)

lemma bot_goto_simps [simp]:
  "Pipes (bot_goto s m b) = Pipes b" "hc (bot_goto s m b) = hc b" "trace (bot_goto s m b) = trace b"
  "msc_ptr (bot_goto s m b) = msc_ptr b" "msc_mem (bot_goto s m b) = set_bot s m"
  by (simp_all add: bot_goto_def)

lemma msc_handle_put [simp]: "msc_handle h b = Some m0 \<Longrightarrow> msc_handle h (put_msc m b) = Some m"
  by (simp add: msc_handle_def split: if_splits)

lemma on_msc_iff: "on_msc f h b = Some b' \<longleftrightarrow> (\<exists>m m'. msc_handle h b = Some m \<and> f m = Some m' \<and> b' = put_msc m' b)"
  by (auto simp: on_msc_def bind_eq_Some_conv)

text \<open>The host handle is changed by control requests only.\<close>

lemma msc_requests_frame:
  "USBH_MSC_BOT_REQ_Reset h b = Some (s, h', b') \<Longrightarrow> req_frame h h'"
  "USBH_MSC_BOT_REQ_GetMaxLUN h b = Some (s, h', b') \<Longrightarrow> req_frame h h'"
  "USBH_MSC_BOT_Abort h b d = Some (s, h', b') \<Longrightarrow> req_frame h h'"
  by (auto simp: USBH_MSC_BOT_REQ_Reset_def USBH_MSC_BOT_REQ_GetMaxLUN_def USBH_MSC_BOT_Abort_def bind_eq_Some_conv
      dest: CtlReq_req_frame short_requests_frame)

lemma bot_transfer_same:
  "bot_send_cbw l m h b = Some (s, h', b') \<Longrightarrow> h' = h" "bot_send_cbw_wait m h b = Some (s, h', b') \<Longrightarrow> h' = h"
  "bot_data_in m h b = Some (s, h', b') \<Longrightarrow> h' = h" "bot_data_in_wait m h b = Some (s, h', b') \<Longrightarrow> h' = h"
  "bot_data_out m h b = Some (s, h', b') \<Longrightarrow> h' = h" "bot_data_out_wait m h b = Some (s, h', b') \<Longrightarrow> h' = h"
  "bot_receive_csw m h b = Some (s, h', b') \<Longrightarrow> h' = h" "bot_receive_csw_wait m h b = Some (s, h', b') \<Longrightarrow> h' = h"
  by (auto simp: bot_send_cbw_def bot_send_cbw_wait_def bot_data_in_def bot_data_in_wait_def bot_data_out_def
      bot_data_out_wait_def bot_receive_csw_def bot_receive_csw_wait_def Let_def bind_eq_Some_conv split: if_splits)

lemma bot_recovery_frame:
  "bot_error_in h b = Some (s, h', b') \<Longrightarrow> req_frame h h'" "bot_error_out h b = Some (s, h', b') \<Longrightarrow> req_frame h h'"
  "bot_unrecovered h b = Some (s, h', b') \<Longrightarrow> req_frame h h'"
  by (auto simp: bot_error_in_def bot_error_out_def bot_unrecovered_def bind_eq_Some_conv dest: msc_requests_frame)

lemma BOT_Process_frame:
  assumes "USBH_MSC_BOT_Process l h b = Some (s, h', b')"
  shows "req_frame h h'"
proof -
  from assms obtain m where "msc_handle h b = Some m" by (auto simp: USBH_MSC_BOT_Process_def bind_eq_Some_conv)
  with assms show ?thesis
    by (cases "bot_state (hbot m)")
      (auto simp: USBH_MSC_BOT_Process_def dest!: bot_transfer_same dest: bot_recovery_frame)
qed

lemma scsi_cmd_frame:
  assumes "scsi_cmd idle send fin l h b = Some (s, h', b')"
  shows "req_frame h h'"
proof -
  from assms obtain m where "msc_handle h b = Some m" by (auto simp: scsi_cmd_def bind_eq_Some_conv)
  with assms show ?thesis
    by (cases "cmd_state (hbot m)")
      (auto simp: scsi_cmd_def bind_eq_Some_conv dest: BOT_Process_frame)
qed

lemmas scsi_defs = USBH_MSC_SCSI_TestUnitReady_def USBH_MSC_SCSI_ReadCapacity_def USBH_MSC_SCSI_Inquiry_def
  USBH_MSC_SCSI_RequestSense_def USBH_MSC_SCSI_Write_def USBH_MSC_SCSI_Read_def

lemma lun_steps_frame:
  "lun_inquiry i n h b = Some (s, h', b') \<Longrightarrow> req_frame h h'" "lun_ready i n h b = Some (s, h', b') \<Longrightarrow> req_frame h h'"
  "lun_capacity i n h b = Some (s, h', b') \<Longrightarrow> req_frame h h'" "lun_sense i n h b = Some (s, h', b') \<Longrightarrow> req_frame h h'"
  by (auto simp: lun_inquiry_def lun_ready_def lun_capacity_def lun_sense_def scsi_defs bind_eq_Some_conv
      dest: scsi_cmd_frame)

lemma lun_run_frame:
  assumes "lun_run h b = Some (s, h', b')"
  shows "req_frame h h'"
proof -
  from assms obtain m u where "msc_handle h b = Some m" "rd (unit_luns m) (unat (current_lun m)) = Some u"
    by (auto simp: lun_run_def bind_eq_Some_conv Let_def)
  with assms show ?thesis
    by (cases "lun_state u") (auto simp: lun_run_def Let_def bind_eq_Some_conv dest: lun_steps_frame)
qed

lemma lun_step_frame: "lun_step h b = Some (s, h', b') \<Longrightarrow> req_frame h h'"
  by (auto simp: lun_step_def bind_eq_Some_conv dest: lun_run_frame)

lemma ClassRequest_frame:
  assumes "USBH_MSC_ClassRequest h b = Some (s, h', b')"
  shows "req_frame h h'"
proof -
  from assms obtain m where "msc_handle h b = Some m" by (auto simp: USBH_MSC_ClassRequest_def bind_eq_Some_conv)
  with assms show ?thesis
    by (cases "req_state m")
      (auto simp: USBH_MSC_ClassRequest_def bind_eq_Some_conv split: if_splits
        dest: msc_requests_frame short_requests_frame)
qed

subsection \<open>The driver keeps the host machine\<close>

lemma msc_open_same: "msc_open h b = Some (s, h', b') \<Longrightarrow> h' = h"
  by (auto simp: msc_open_def bind_eq_Some_conv Let_def)

lemma msc_init_keeps:
  assumes "USBH_MSC_InterfaceInit x w = Some (s, w')"
  shows "shape w' = shape w"
proof -
  obtain ok w1 where t: "take_malloc w = (ok, w1)" by (metis surj_pair)
  have w1: "hs w1 = hs w"
    using take_malloc_simps(1) [of w] t by simp
  from assms t have "w' = w \<or> (\<exists>h i s1 h1. hs w x = Some h \<and> USBH_SelectInterface h i = Some (s1, h1) \<and>
      on_host x msc_open (mod_bus (msc_block ok) (put_host x h1 w1)) = Some (s, w'))"
    by (auto simp: USBH_MSC_InterfaceInit_def bind_eq_Some_conv Let_def take_malloc_def split: if_splits list.splits)
  then show ?thesis
  proof (elim disjE exE conjE)
    fix h i s1 h1
    assume h: "hs w x = Some h" and sel: "USBH_SelectInterface h i = Some (s1, h1)"
      and o: "on_host x msc_open (mod_bus (msc_block ok) (put_host x h1 w1)) = Some (s, w')"
    have "shape w' = shape (put_host x h1 w1)"
      using shape_on [OF o] by (auto dest!: msc_open_same)
    also have "\<dots> = shape w1" using h w1 SelectInterface_keeps [OF sel] by (intro shape_put) simp_all
    finally show ?thesis using shape_take [OF t] by simp
  qed simp
qed

lemma keeps_req:
  assumes "on_host x f w = Some (s, w')" "\<And>h b h' b' s. f h b = Some (s, h', b') \<Longrightarrow> req_frame h h'"
  shows "shape w' = shape w"
  by (rule shape_on [OF assms(1)]) (use assms(2) in \<open>auto simp: req_frame_def node_def\<close>)

lemma msc_deinit_keeps:
  assumes "on_host x USBH_MSC_InterfaceDeInit w = Some (s, w')"
  shows "shape w' = shape w"
proof (rule shape_on [OF assms])
  fix h b h' b' s
  assume "USBH_MSC_InterfaceDeInit h b = Some (s, h', b')"
  then obtain a b1 b2 where "USBH_Free_One_Address h b1 = Some (a, h', b2)"
    by (auto simp: USBH_MSC_InterfaceDeInit_def bind_eq_Some_conv)
  then show "node h' = node h"
    by (auto dest: Free_One_Address_keeps)
qed

lemma msc_requests_keep: "on_host x USBH_MSC_ClassRequest w = Some (s, w') \<Longrightarrow> shape w' = shape w"
  by (erule keeps_req) (rule ClassRequest_frame)

lemma msc_process_keeps:
  assumes "USBH_MSC_Process env x w = Some (s, w')" "\<And>y c v v'. e_user env y c v = Some v' \<Longrightarrow> keeps r v v'"
  shows "keeps r w w'"
proof -
  from assms(1) obtain h m where h: "hs w x = Some h" "msc_handle h (wb w) = Some m"
    by (auto simp: USBH_MSC_Process_def bind_eq_Some_conv)
  show ?thesis
  proof (cases "msc_state m")
    case MSC_INIT
    let ?w = "post USBH_CLASS_EVENT (mod_bus (put_msc (m\<lparr>current_lun := 0, msc_state := MSC_IDLE\<rparr>)) w)"
    from MSC_INIT assms(1) h consider (step) s1 w1 where "on_host x lun_step w = Some (s1, w1)" "w' = post USBH_CLASS_EVENT w1"
      | (ready) "e_user env x HOST_USER_CLASS_ACTIVE ?w = Some w'"
      by (auto simp: USBH_MSC_Process_def call_user_def bind_eq_Some_conv Let_def split: if_splits)
    then show ?thesis
    proof cases
      case step
      then show ?thesis using shape_keeps [OF keeps_req [OF step(1) lun_step_frame]] by simp
    next
      case ready
      have "keeps r w ?w" by (rule shape_keeps) simp
      then show ?thesis using assms(2) [OF ready] by (rule keeps_trans)
    qed
  qed (use assms(1) h in \<open>auto simp: USBH_MSC_Process_def\<close>)
qed

end
