(* ===== verification/SystemGraph.thy ===== *)
theory SystemGraph
  imports System MscFacts
begin

text \<open>
  The composed system against the contracts of its parts. Binding, requests and the user callback keep the
  tree of handles and move no machine but that of the root handle, which the port's interrupts move under
  code that spins; polling and releasing a driver, the hub driver's included, keep the tree. So the
  environment of \<open>System\<close> satisfies the \<open>host_callbacks\<close> interface of the core: every \<open>USBH_Process\<close>
  follows the state graph or ends in the disconnected state, and the tree stays in order in every run of the
  host thread and of the interrupt handler. The port requests of the hub driver are bounded under the
  interrupts of this system.
\<close>

subsection \<open>The modem driver keeps the machine\<close>

lemma EC20_DeInit_keeps:
  assumes "USBH_EC20_InterfaceDeInit env x w = Some (s, w')" "irq_frame env r"
  shows "keeps r w w'"
proof -
  from assms(1) obtain v where 1: "wait_app env x w = Some v" "on_host x ec20_close v = Some (s, w')"
    by (auto simp: USBH_EC20_InterfaceDeInit_def bind_eq_Some_conv)
  have "shape w' = shape v" using 1(2) by (rule shape_on) (rule ec20_close_keeps)
  with quiet_keeps [OF irq_frame.wait_app_quiet [OF assms(2) 1(1)]] show ?thesis by (blast intro: keeps_trans shape_keeps)
qed

lemma EC20_ClassRequest_keeps:
  assumes "USBH_EC20_ClassRequest env x w = Some (s, w')"
    "\<And>y code v v'. e_user env y code v = Some v' \<Longrightarrow> keeps r v v'"
  shows "keeps r w w'"
proof -
  from assms(1) obtain h e' where h: "hs w x = Some h"
    and 1: "w' = put_host x (put_ec20 e' h) w \<or> e_user env x HOST_USER_CLASS_ACTIVE (put_host x (put_ec20 e' h) w) = Some w'"
    by (auto simp: USBH_EC20_ClassRequest_def call_user_def bind_eq_Some_conv Let_def split: if_splits)
  have "keeps r w (put_host x (put_ec20 e' h) w)" by (rule shape_keeps [OF shape_put [OF h]]) (simp add: node_def)
  with 1 assms(2) [of x HOST_USER_CLASS_ACTIVE] show ?thesis by (blast intro: keeps_trans)
qed

lemma EC20_Process_keeps:
  assumes "USBH_EC20_Process cb x w = Some (s, w')" "\<And>v v'. cb x v = Some v' \<Longrightarrow> shape v' = shape v"
  shows "shape w' = shape w"
proof -
  from assms(1) obtain h e where h: "hs w x = Some h" "get_ec20 h = Some e"
    by (auto simp: USBH_EC20_Process_def bind_eq_Some_conv)
  show ?thesis
  proof (cases "ec_state e")
    case EC20_TRANSFER_DATA
    with assms(1) h obtain h1 b1 where 1: "EC20_ProcessTransmission h (wb w) = Some (h1, b1)"
      "EC20_ProcessReception cb x ((put_host x h1 w)\<lparr>wb := b1\<rparr>) = Some w'"
      by (auto simp: USBH_EC20_Process_def bind_eq_Some_conv)
    from ProcessReception_keeps [OF 1(2) assms(2)] ProcessTransmission_keeps [OF 1(1)] shape_put [OF h(1), of h1]
    show ?thesis by (auto simp: node_def)
  next
    case EC20_ERROR_STATE
    with assms(1) h show ?thesis
      by (auto simp: USBH_EC20_Process_def bind_eq_Some_conv node_def req_frame_def
        intro!: shape_put [OF h(1)] dest!: request_frames)
  qed (use assms(1) h in \<open>auto simp: USBH_EC20_Process_def\<close>)
qed

subsection \<open>The system satisfies the core's interface\<close>

lemma system_host: "host_callbacks (system_env root tape k) root"
proof (induction k)
  case 0
  show ?case
    by (unfold_locales; (rule quiet_keeps, erule sys_frame.irq_quiet)?) (simp_all add: system_env_def)
next
  case (Suc n)
  let ?E = "system_env root tape (Suc n)"
  note user = quiet_keeps [OF sys_frame.user_quiet]
  show ?case
  proof
    fix c :: class_ref and x w s w'
    show "e_irq ?E i w = Some w' \<Longrightarrow> keeps root w w'" for i by (rule quiet_keeps [OF sys_frame.irq_quiet])
    show "e_user ?E x code w = Some w' \<Longrightarrow> keeps root w w'" for code by (rule user)
    show "keeps root w w'" if "e_Init ?E c x w = Some (s, w')"
      using that by (cases c) (auto intro: shape_keeps InterfaceInit_keeps HUB_Init_shape msc_init_keeps)
    show "keeps root w w'" if "e_Requests ?E c x w = Some (s, w')"
      using that by (cases c) (auto intro: shape_keeps HUB_Requests_shape msc_requests_keep EC20_ClassRequest_keeps user)
    show "class_step root x w w'" if "e_DeInit ?E c x w = Some (s, w')" "tree_ok w"
      using that
      by (cases c) (auto intro: class_step_shape msc_deinit_keeps
        class_step_keeps [OF EC20_DeInit_keeps [OF _ sys_frame.irq_frame_axioms]]
        host_callbacks.HUB_DeInit_step [OF Suc.IH])
    show "class_step root x w w'" if "e_BgndProcess ?E c x w = Some (s, w')" "tree_ok w"
      using that by (cases c) (auto intro: class_step_shape EC20_Process_keeps callback_keeps class_step_keeps msc_process_keeps
          user host_callbacks.HUB_Process_step [OF Suc.IH])
  qed
qed

interpretation sys_host: host_callbacks "system_env root tape k" root for root tape k
  by (rule system_host)

subsection \<open>Properties of the whole system\<close>

text \<open>
  C6: one round of \<open>USBH_Process\<close>, with the whole interrupt handler running where the drivers spin, port
  events included, moves the host machine along an edge of its state graph or leaves it where it is, whatever
  class is active; only at the root port can it end in the disconnected state instead, when an unplug came in
  during the round. A hub adds and removes the handles behind it in the same round. The tree stays in order,
  and the handles that were there before this one keep their places in it and their machines, but for the
  moves the port makes on the root's.
\<close>

theorem process_follows_graph:
  assumes "USBH_Process (system_env root tape k) x w = Some (s, w')" "hs w x = Some h" "tree_ok w"
  shows "\<exists>h'. hs w' x = Some h' \<and>
     (host_edge (gState h) (gState h') \<or> x = root \<and> gState h' = HOST_DEV_DISCONNECTED) \<and> tree_ok w' \<and>
     (\<forall>z<x. \<forall>g. hs w z = Some g \<longrightarrow> (\<exists>g'. hs w' z = Some g' \<and>
        parent g' = parent g \<and> is_child g' = is_child g \<and> children g' = children g \<and>
        (gState g' = gState g \<or> z = root \<and> irq_move (gState g) (gState g'))))"
  using sys_host.process_edge [OF assms]
  unfolding machine_step_def tree_step_def below_def same_place_def moved_def by blast


subsection \<open>A root port that is unplugged under a port request\<close>

definition sample_tape :: irq_tape where
  "sample_tape n = (sample_irq, sample_otg)"

definition unplug_tape :: irq_tape where
  "unplug_tape n = (sample_irq\<lparr>gint := (\<lambda>_. GINT_DISCINT), disc_hprt := 0\<rparr>, sample_otg)"

lemma unplug_point:
  assumes "hs w 0 = Some h" "pipes_ok (wb w)" "pData h" "pUser h" "app_class h = None"
  shows "\<exists>w' h'. irq_point 0 unplug_tape n w = Some w' \<and> hs w' = (hs w)(0 \<mapsto> h') \<and>
    h' = (upd_dev (\<lambda>d. d\<lparr>is_connected := 0\<rparr>) h)\<lparr>gState := HOST_DEV_DISCONNECTED\<rparr> \<and> pipes_ok (wb w') \<and>
    pipes_used (wb w') = pipes_used (wb w) - {unat (pipe_in (Control h)), unat (pipe_out (Control h))}"
proof -
  let ?h = "upd_dev (\<lambda>d. d\<lparr>is_connected := 0\<rparr>) h"
  have c: "Control ?h = Control h" "pData ?h" "pUser ?h" "app_class ?h = None" using assms by (simp_all add: upd_dev_def)
  from disconnect_frees [of "wb w" ?h] assms(2) c(2) obtain b' where
    d: "disconnect_port ?h (wb w) = Some (USBH_OK, ?h\<lparr>gState := HOST_DEV_DISCONNECTED\<rparr>, b')" "pipes_ok b'"
      "pipes_used b' = pipes_used (wb w) - {unat (pipe_in (Control h)), unat (pipe_out (Control h))}"
    unfolding c(1) by blast
  have f: "\<not> gflag (fst (unplug_tape n)) 6 GINT_HPRTINT" "\<not> gflag (fst (unplug_tape n)) 7 GINT_SOF"
    "\<not> gflag (fst (unplug_tape n)) 8 GINT_HCINT" "\<not> gflag (fst (unplug_tape n)) 9 GINT_RXFLVL"
    "gflag (fst (unplug_tape n)) 5 GINT_DISCINT" "gint (fst (unplug_tape n)) 0 \<noteq> 0" "host_mode (fst (unplug_tape n))"
    "disc_hprt (fst (unplug_tape n)) = 0"
    by (simp_all add: unplug_tape_def sample_irq_def gflag_def)
  have u: "e_user handler_env 0 HOST_USER_DISCONNECTION (put_host 0 ?h w) = Some (put_host 0 ?h w)"
    using c(4) by (simp add: handler_env_def Let_def USBH_UserProcess_def)
  have "USBH_LL_Disconnect handler_env 0 w = Some (USBH_OK,
      (put_host 0 (?h\<lparr>gState := HOST_DEV_DISCONNECTED\<rparr>) (put_host 0 ?h w))\<lparr>wb := b'\<rparr>)"
    using assms(1) c(3) u d(1) by (simp add: USBH_LL_Disconnect_def call_user_def)
  then show ?thesis using f d(2,3)
    by (simp add: irq_point_def HAL_HCD_IRQHandler_def irq_disconnect_def HAL_HCD_Disconnect_Callback_def irq_sof_def)
qed

lemma unplugged_spin:
  assumes "hs w 0 = Some h" "pipes_open h (wb w)" "RequestState h = CMD_SEND" "gState h \<noteq> HOST_DEV_DISCONNECTED"
    "app_class h = None"
  shows "(\<exists>w' h'. ctl_spin (system_env 0 unplug_tape k) 0 buf len (Suc (Suc n)) st w = Some (Suc n, USBH_FAIL, w') \<and>
     hs w' 0 = Some h' \<and> gState h' = HOST_DEV_DISCONNECTED \<and> pClassData h' = pClassData h) \<and>
     irqs_return (system_env 0 unplug_tape k) 0 buf len (Suc (Suc n)) w"
proof -
  let ?h = "(upd_ctl (\<lambda>c. c\<lparr>buff := buf, ctl_length := len, ctl_state := CTRL_SETUP\<rparr>) h)\<lparr>RequestState := CMD_WAIT\<rparr>"
  let ?w = "(put_host 0 ?h w)\<lparr>wb := ctl_event (wb w)\<rparr>"
  have "USBH_CtlReq h (wb w) buf len = Some (USBH_BUSY, ?h, ctl_event (wb w))"
    by (simp add: CtlReq_open [OF assms(2)] assms(3))
  then have 1: "on_host 0 (\<lambda>h b. USBH_CtlReq h b buf len) w = Some (USBH_BUSY, ?w)" by (rule on_host_Some [OF assms(1)])
  have c: "pipe_in (Control ?h) = pipe_in (Control h)" "pipe_out (Control ?h) = pipe_out (Control h)" "pData ?h" "pUser ?h"
    "app_class ?h = None" "gState ?h = gState h" "pClassData ?h = pClassData h"
    using assms(2,5) by (simp_all add: upd_ctl_def pipes_open_def ctl_ok_def)
  have ok: "pipes_ok (wb ?w)" "unat (pipe_in (Control h)) < USBH_MAX_PIPES_NBR"
    using assms(2) by (simp_all add: pipes_open_def ctl_ok_def pipes_ok_def ctl_event_def)
  have h1: "hs ?w 0 = Some ?h" by simp
  from unplug_point [OF h1 ok(1) c(3-5), of "clock ?w"] obtain w2 h2
    where 2: "irq_point 0 unplug_tape (clock ?w) ?w = Some w2" "hs w2 = (hs ?w)(0 \<mapsto> h2)"
      "h2 = (upd_dev (\<lambda>d. d\<lparr>is_connected := 0\<rparr>) ?h)\<lparr>gState := HOST_DEV_DISCONNECTED\<rparr>" "pipes_ok (wb w2)"
      "pipes_used (wb w2) = pipes_used (wb ?w) - {unat (pipe_in (Control ?h)), unat (pipe_out (Control ?h))}" by blast
  let ?w2 = "w2\<lparr>clock := Suc (clock w2)\<rparr>"
  have t: "tick (system_env 0 unplug_tape k) ?w = Some ?w2" using 2(1) by (simp add: tick_def)
  have h2: "gState h2 = HOST_DEV_DISCONNECTED" "pipe_in (Control h2) = pipe_in (Control h)" "pClassData h2 = pClassData h"
    using c by (simp_all add: 2(3) upd_dev_def)
  have "unat (pipe_in (Control h)) \<notin> pipes_used (wb w2)" using 2(5) c(1) by simp
  then have cl: "pipe_closed (wb w2) (pipe_in (Control h2)) = Some True"
    using ok(2) 2(4) by (simp add: pipe_closed_def h2(2) pipes_used_def pipe_used_def pipes_ok_def rd_def)
  have "USBH_CtlReq h2 (wb w2) buf len = Some (USBH_FAIL, h2\<lparr>RequestState := CMD_SEND\<rparr>, wb w2)"
    by (simp add: USBH_CtlReq_def cl)
  then have 3: "on_host 0 (\<lambda>h b. USBH_CtlReq h b buf len) ?w2 =
      Some (USBH_FAIL, (put_host 0 (h2\<lparr>RequestState := CMD_SEND\<rparr>) ?w2)\<lparr>wb := wb w2\<rparr>)"
    using 2(2) by (intro on_host_Some) simp_all
  show ?thesis using 1 3 t c(6) assms(4) h2 by simp
qed

lemma sample_hub_open: "pipes_open sample_hub_host sample_bus"
  using sample_open by (simp add: sample_hub_host_def pipes_open_def ctl_ok_def)

lemma sample_hub_fields:
  "RequestState sample_hub_host = CMD_SEND" "gState sample_hub_host = HOST_CLASS" "app_class sample_hub_host = None"
  by (simp_all add: sample_hub_host_def sample_host_def zero_host_def)

lemma count_split: "HUB_TIME_OUT_COUNT = Suc (Suc 254)"
  by simp

definition status_setup :: "u8 \<Rightarrow> host \<Rightarrow> host" where
  "status_setup port h =
     set_setup (USB_D2H OR USB_REQ_RECIPIENT_OTHER OR USB_REQ_TYPE_CLASS) USB_REQ_GET_STATUS 0 (ucast port) 4 h"

lemma unplugged_status:
  assumes "hs w 0 = Some h" "pipes_open h (wb w)" "RequestState h = CMD_SEND" "gState h \<noteq> HOST_DEV_DISCONNECTED"
    "app_class h = None"
  shows "status_irqs_return (system_env 0 unplug_tape k) 0 port 4 w \<and>
    (\<exists>w' h'. USBH_HUB_GetPortStatus (system_env 0 unplug_tape k) 0 port 4 w = Some (USBH_FAIL, w') \<and> hs w' 0 = Some h' \<and>
       gState h' = HOST_DEV_DISCONNECTED \<and> pClassData h' = pClassData h)"
proof -
  let ?w = "put_host 0 (status_setup port h) w"
  have c: "pipes_open (status_setup port h) (wb ?w)" "RequestState (status_setup port h) = CMD_SEND"
    "gState (status_setup port h) \<noteq> HOST_DEV_DISCONNECTED" "app_class (status_setup port h) = None"
    "pClassData (status_setup port h) = pClassData h"
    using assms by (simp_all add: status_setup_def set_setup_def upd_ctl_def pipes_open_def ctl_ok_def)
  have m: "mod_host 0 (\<lambda>h. if RequestState h = CMD_SEND then status_setup port h else h) w = Some ?w"
    using assms(1,3) by simp
  have h: "hs ?w 0 = Some (status_setup port h)" by simp
  note sp = unplugged_spin [OF h c(1-4), of k "Data_of 0" 4 254 USBH_FAIL, folded count_split]
  from sp obtain w' h' where 1: "ctl_spin (system_env 0 unplug_tape k) 0 (Data_of 0) 4 HUB_TIME_OUT_COUNT USBH_FAIL ?w =
      Some (Suc 254, USBH_FAIL, w')" "hs w' 0 = Some h'" "gState h' = HOST_DEV_DISCONNECTED" "pClassData h' = pClassData h"
    unfolding c(5) by blast
  have "status_irqs_return (system_env 0 unplug_tape k) 0 port 4 w"
    unfolding status_irqs_return_def m [unfolded status_setup_def] using sp by (simp add: status_setup_def)
  moreover have "USBH_HUB_GetPortStatus (system_env 0 unplug_tape k) 0 port 4 w =
      Some (USBH_FAIL, put_host 0 (h'\<lparr>RequestState := CMD_SEND\<rparr>) w')"
    unfolding USBH_HUB_GetPortStatus_def m [unfolded status_setup_def] Option.bind.simps
    using 1(1,2) by (simp add: status_setup_def)
  ultimately show ?thesis using 1(3,4) by simp
qed


definition sample_scan_host :: host where
  "sample_scan_host = sample_hub_host\<lparr>pClassData := [Some (Hub_data (zero_hub\<lparr>hub_NotifPipe := 2, hub_ctl_state := HUB_REQ_ENUM_PORT,
     port_state := 1\<rparr>)), None, None, None]\<rparr>"

definition sample_scan_world :: world where
  "sample_scan_world = sample_hub_world\<lparr>hs := [0 \<mapsto> sample_scan_host]\<rparr>"

lemma process_follows_graph_witness:
  "\<exists>w' h'. USBH_Process (system_env 0 unplug_tape 2) 0 sample_scan_world = Some (USBH_OK, w') \<and> hs w' 0 = Some h' \<and>
     gState h' = HOST_DEV_DISCONNECTED \<and> tree_ok w'"
proof -
  let ?E = "system_env 0 unplug_tape 1" and ?u = "zero_hub\<lparr>hub_NotifPipe := 2, hub_ctl_state := HUB_REQ_ENUM_PORT, port_state := 1\<rparr>"
  let ?w = "mod_bus (hw (HW_HprtIrq False)) sample_scan_world"
  have h: "hs sample_scan_world 0 = Some sample_scan_host" "hs ?w 0 = Some sample_scan_host"
    by (simp_all add: sample_scan_world_def)
  have f: "RequestState sample_scan_host = CMD_SEND" "gState sample_scan_host = HOST_CLASS" "app_class sample_scan_host = None"
    "pActiveClass sample_scan_host = Some HUB_Class" "get_hub sample_scan_host = Some ?u" "pData sample_scan_host"
    "rd (pClassData sample_scan_host) 0 = Some (Some (Hub_data ?u))" "pClassData sample_scan_host = [Some (Hub_data ?u), None, None, None]"
    by (simp_all add: sample_scan_host_def sample_hub_host_def sample_host_def zero_host_def get_hub_def rd_def)
  have po: "pipes_open sample_scan_host (wb ?w)"
    using sample_hub_open
    by (simp add: sample_scan_host_def sample_scan_world_def sample_hub_world_def pipes_open_def ctl_ok_def pipes_ok_def)
  have g: "gState sample_scan_host \<noteq> HOST_DEV_DISCONNECTED" by (simp add: f)
  from conjunct2 [OF unplugged_status [OF h(2) po f(1) g f(3), of 1 0]] obtain w1 h1
    where 1: "USBH_HUB_GetPortStatus ?E 0 0 4 ?w = Some (USBH_FAIL, w1)" "hs w1 0 = Some h1"
      "gState h1 = HOST_DEV_DISCONNECTED" "pClassData h1 = pClassData sample_scan_host" by blast
  have "scan_port ?E 0 0 ?w = Some (True, w1)" using 1(1) by (simp add: scan_port_def)
  then have "scan_ports ?E 0 0 1 ?w = Some w1" by (simp add: scan_ports.simps)
  moreover have gh: "get_hub h1 = Some ?u" using 1(4) f(8) by (simp add: get_hub_def rd_def)
  ultimately obtain w2 h2 where 2: "USBH_HUB_Process ?E 0 ?w = Some (USBH_OK, w2)" "hs w2 0 = Some h2"
    "gState h2 = HOST_DEV_DISCONNECTED"
    using h(2) f 1(2,3) by (simp add: USBH_HUB_Process_def hub_enum_ports_def mod_hub_def)
  have sel: "e_BgndProcess (system_env 0 unplug_tape 2) HUB_Class 0 ?w = USBH_HUB_Process ?E 0 ?w"
    by (simp add: numeral_2_eq_2)
  have p: "process_state (system_env 0 unplug_tape 2) 0 HOST_CLASS ?w = Some (USBH_OK, w2)"
    using h(2) f(4) 2(1) sel by (simp add: process_state_def no_status_def proc_class_def)
  have "\<exists>w'. USBH_Process (system_env 0 unplug_tape 2) 0 sample_scan_world = Some (USBH_OK, w') \<and> hs w' 0 = Some h2"
    using h f(2,6) p 2(2) by (simp add: USBH_Process_def mask_hprt_def)
  then obtain w' where w': "USBH_Process (system_env 0 unplug_tape 2) 0 sample_scan_world = Some (USBH_OK, w')"
    "hs w' 0 = Some h2" by blast
  have c: "\<not> child_of sample_scan_world x i y" for x i y
    by (auto simp: child_of_def sample_scan_world_def sample_scan_host_def sample_hub_host_def sample_host_def zero_host_def
        nth_Cons split: if_splits nat.splits)
  have "tree_ok sample_scan_world"
    unfolding tree_ok_def using c by (auto simp: sample_scan_world_def sample_hub_world_def split: if_splits)
  from process_follows_graph [OF w'(1) h(1) this] w' 2(3) show ?thesis by auto
qed

end
