(* ===== verification/SystemRun.thy ===== *)
theory SystemRun
  imports SystemGraph
begin

text \<open>
  Runs of the whole system: rounds of the host thread, with the handler running wherever they spin, rounds
  of the senders of the modem applications and interrupts between them, in any order, with any registers read
  by the handler; the port's own interrupts, which connect and disconnect the device at the root, are among
  them. What holds of the tree of handles in all of them.
\<close>

subsection \<open>Steps\<close>

inductive run_step :: "hid \<Rightarrow> irq_tape \<Rightarrow> nat \<Rightarrow> sys \<Rightarrow> sys \<Rightarrow> bool" for root tape k where
  thread: "USBH_Process_OS (system_env root tape k) d root w = Some (Some w') \<Longrightarrow> run_step root tape k (u, w) (u, w')"
| sender: "Start_EC20_Application_Thread x w = Some w' \<Longrightarrow> run_step root tape k (u, w) (u, w')"
| interrupt: "HAL_HCD_IRQHandler handler_env TREE_DEPTH root q s = Some s' \<Longrightarrow> run_step root tape k s s'"

inductive_cases run_stepE: "run_step root tape k s s'"

subsection \<open>The sender\<close>

lemma Transmit_node: "USBH_EC20_Transmit h b p n = Some (s, h', b') \<Longrightarrow> node h' = node h"
  by (auto simp: USBH_EC20_Transmit_def bind_eq_Some_conv Let_def node_def split: if_splits)

lemma send_data_shape:
  assumes "EC20_send_data x c w = Some (s, w')"
  shows "shape w' = shape w"
proof -
  from assms obtain h a t sb y where h: "hs w x = Some h"
    and t: "on_host x (\<lambda>h b. USBH_EC20_Transmit h b (Send_of x) (of_nat (length (take (length (send_buf t) - 1) (c @ [0x0D, 0x0A])))))
        (put_host x (h\<lparr>app_data := Some (a\<lparr>EC20_Send_Thread := Some (t\<lparr>send_buf := sb\<rparr>)\<rparr>)\<rparr>) w) = Some y"
    and r: "(case y of (s, w) \<Rightarrow>
     (if s = USBH_OK then do {
        h \<leftarrow> hs w x;
        a \<leftarrow> app_data h;
        w \<leftarrow> put_app x (a\<lparr>tx_total_num := tx_total_num a + of_nat (length (c @ [0x0D, 0x0A]))\<rparr>) w;
        Some (s, w)
      } else Some (s, w))) = Some (s, w')"
    unfolding EC20_send_data_def bind_eq_Some_conv Let_def by blast
  obtain s1 v where y: "y = (s1, v)" by (cases y)
  from t y have "shape v = shape (put_host x (h\<lparr>app_data := Some (a\<lparr>EC20_Send_Thread := Some (t\<lparr>send_buf := sb\<rparr>)\<rparr>)\<rparr>) w)"
    by (auto elim!: shape_on intro: Transmit_node)
  also have "\<dots> = shape w" by (rule shape_put [OF h]) (simp add: node_def)
  finally show ?thesis using r y by (auto simp: bind_eq_Some_conv split: if_splits dest!: put_app_keeps)
qed

lemma enter_state_shape: "enter_state x st w = Some w' \<Longrightarrow> shape w' = shape w"
  by (auto simp: enter_state_def bind_eq_Some_conv put_app_keeps)

lemma app_event_shape: "app_event x e w = Some (s, w') \<Longrightarrow> shape w' = shape w"
  by (cases e) (auto simp: app_event_def app_command_def bind_eq_Some_conv
      dest!: put_app_keeps enter_state_shape send_data_shape)

lemma sender_shape:
  assumes "Start_EC20_Application_Thread x w = Some w'"
  shows "shape w' = shape w"
proof -
  have r: "shape w' = shape w" if "app_receive x t a w = Some (s, w')" for t a s w w'
    using that by (auto simp: app_receive_def bind_eq_Some_conv split: option.splits
        dest!: put_app_keeps app_event_shape)
  have s: "shape w' = shape w" if "app_settle x s w = Some w'" for s w w'
    using that by (auto simp: app_settle_def bind_eq_Some_conv Let_def split: if_splits dest!: put_app_keeps)
  from assms show ?thesis
    by (auto simp: Start_EC20_Application_Thread_def bind_eq_Some_conv put_app_keeps split: if_splits dest!: r s)
qed

subsection \<open>The tree in a run\<close>

lemma run_step_tree: "run_step root tape k s s' \<Longrightarrow> tree_ok (snd s) \<Longrightarrow> tree_step root root (snd s) (snd s')"
proof (induction rule: run_step.induct)
  case (thread d w w' u)
  then show ?case by (simp add: sys_host.thread_round_step)
next
  case (sender x w w' u)
  then show ?case by (simp add: class_tree class_step_shape sender_shape)
next
  case (interrupt q s s')
  then obtain u w u' w' where p: "s = (u, w)" "s' = (u', w')" by (cases s; cases s') blast
  have "keeps root w w'" by (rule quiet_keeps [OF handler.irq_handler_quiet [OF interrupt(1) [unfolded p]]])
  from class_step_keeps [OF this] interrupt(2) show ?case by (simp add: p class_tree)
qed

lemma run_tree: "(run_step root tape k)\<^sup>*\<^sup>* s s' \<Longrightarrow> tree_ok (snd s) \<Longrightarrow> tree_step root root (snd s) (snd s')"
proof (induction rule: rtranclp_induct)
  case base
  then show ?case by (intro class_tree class_step_refl)
next
  case (step s1 s2)
  then show ?case using run_step_tree [OF step.hyps(2)] step_trees(1) tree_step_trans by blast
qed

lemma boot_tree: "hs w = [x \<mapsto> h] \<Longrightarrow> \<forall>c\<in>set (children h). c = None \<Longrightarrow> x < next_hid w \<Longrightarrow> tree_ok w"
  by (auto simp: tree_ok_def child_of_def split: if_splits) (metis nth_mem option.distinct(1))+

text \<open>
  C7: the handles form a tree in every run. Whatever devices are plugged in and out, behind hubs too,
  and whenever the handler runs: every entry of a table of children is a live handle that points back
  to the handle whose table it is, no handle is in two places, none is below itself, and the root stays
  the handle it was. So the walks over the tree never touch a handle that has been freed.
\<close>

theorem tree_kept:
  assumes "(run_step root tape k)\<^sup>*\<^sup>* (u, w) (u', w')" "tree_ok w" "hs w root = Some h"
  shows "(\<exists>h'. hs w' root = Some h' \<and> parent h' = parent h) \<and>
    (\<forall>x i y. child_of w' x i y \<longrightarrow> x < y \<and> (\<exists>c. hs w' y = Some c \<and> parent c = Some x) \<and>
       (\<forall>z j. child_of w' z j y \<longrightarrow> z = x \<and> j = i))"
proof -
  have t: "tree_step root root w w'" using run_tree [OF assms(1)] assms(2) by simp
  then have "\<exists>h'. hs w' root = Some h' \<and> parent h' = parent h" using assms(3) unfolding tree_step_def by blast
  moreover have "x < y \<and> (\<exists>c. hs w' y = Some c \<and> parent c = Some x) \<and> (\<forall>z j. child_of w' z j y \<longrightarrow> z = x \<and> j = i)"
    if "child_of w' x i y" for x i y
    using that step_trees(1) [OF t] child_younger child_live child_once by metis
  ultimately show ?thesis by blast
qed

definition sample_tree_world :: world where
  "sample_tree_world = \<lparr>hs = [0 \<mapsto> sample_hub_host\<lparr>children := [None, Some 1, None, None]\<rparr>,
       1 \<mapsto> (zero_host 1)\<lparr>parent := Some 0, is_child := 1, pData := True, device := (device (zero_host 1))\<lparr>is_connected := 1\<rparr>\<rparr>],
     wb = sample_bus\<lparr>os_event := [USBH_URB_EVENT]\<rparr>, mallocs = [], next_hid = 2, clock = 0\<rparr>"

lemma sample_child: "child_of sample_tree_world x i y \<longleftrightarrow> x = 0 \<and> i = 1 \<and> y = 1"
  by (auto simp: child_of_def sample_tree_world_def zero_host_def nth_Cons split: if_splits nat.splits)

lemma tree_kept_witness:
  "\<exists>w' h'. (run_step 0 sample_tape 2)\<^sup>*\<^sup>* (sample_otg, sample_tree_world) (sample_otg, w') \<and>
     map_option gState (hs w' 1) = Some HOST_DEV_WAIT_FOR_ATTACHMENT \<and>
     hs w' 0 = Some h' \<and> parent h' = None"
proof -
  have h: "hs sample_tree_world 0 = Some (sample_hub_host\<lparr>children := [None, Some 1, None, None]\<rparr>)"
    by (simp add: sample_tree_world_def)
  have t: "tree_ok sample_tree_world"
    unfolding tree_ok_def sample_child by (auto simp: sample_tree_world_def split: if_splits)
  have "\<exists>w'. USBH_Process_OS (system_env 0 sample_tape 2) 2 0 sample_tree_world = Some (Some w') \<and>
     map_option gState (hs w' 1) = Some HOST_DEV_WAIT_FOR_ATTACHMENT"
    by (simp add: USBH_Process_OS_def sample_tree_world_def mq_get_def USBH_Process_def mask_hprt_def process_state_def
        no_status_def proc_class_def sample_hub_host_def sample_host_def zero_host_def Let_def numeral_2_eq_2
        USBH_HUB_Process_def get_hub_def rd_def proc_idle_def eval_nat_numeral on_host_def USBH_LL_ResetPort_def)
  then obtain w' where w': "USBH_Process_OS (system_env 0 sample_tape 2) 2 0 sample_tree_world = Some (Some w')" "map_option gState (hs w' 1) = Some HOST_DEV_WAIT_FOR_ATTACHMENT"
    by blast
  have r: "(run_step 0 sample_tape 2)\<^sup>*\<^sup>* (sample_otg, sample_tree_world) (sample_otg, w')"
    using run_step.thread [OF w'(1)] by blast
  from tree_kept [OF r t h] w'(2) r show ?thesis by (auto simp: sample_hub_host_def sample_host_def zero_host_def)
qed

end
