(* ===== verification/MscTransfer.thy ===== *)
theory MscTransfer
  imports MscFacts
begin

text \<open>
  A command of the mass-storage driver from its wrapper to its status. The controller's answers come
  as a tape, one entry per poll: nothing, the end of the outstanding transfer with what the device
  sent, or a packet that was not taken. The transfers on the bus are the wrapper, the data in packets of
  the endpoint's size from consecutive pieces of the buffer, and the status; a packet that is not taken
  is repeated. The status decides the result.
\<close>

subsection \<open>The controller's answers\<close>

datatype answer = Quiet | Nak | Answered u32 "u8 list" "u8 list"

definition set_urbs :: "USBH_URBStateTypeDef \<Rightarrow> bus \<Rightarrow> bus" where
  "set_urbs u b = b\<lparr>hc := map (\<lambda>c. c\<lparr>urb_state := u\<rparr>) (hc b)\<rparr>"

fun answered :: "answer \<Rightarrow> bus \<Rightarrow> bus" where
  "answered Quiet b = b"
| "answered Nak b = set_urbs USBH_URB_NOTREADY b"
| "answered (Answered n d w) b =
     (let b = set_urbs USBH_URB_DONE (b\<lparr>hc := map (\<lambda>c. c\<lparr>xfer_count := n\<rparr>) (hc b)\<rparr>)
      in put_msc (upd_bot (\<lambda>t. t\<lparr>bot_data := d, csw := w\<rparr>) (msc_mem b)) b)"

definition is_done :: "answer \<Rightarrow> bool" where
  "is_done a \<longleftrightarrow> a \<noteq> Quiet \<and> a \<noteq> Nak"

definition dones :: "answer list \<Rightarrow> nat" where
  "dones tape = length (filter is_done tape)"

definition naks :: "answer list \<Rightarrow> nat" where
  "naks tape = length (filter (\<lambda>a. a = Nak) tape)"

lemma tape_counts [simp]:
  "dones [] = 0" "naks [] = 0" "dones (a # tape) = (if is_done a then 1 else 0) + dones tape"
  "naks (a # tape) = (if a = Nak then 1 else 0) + naks tape"
  by (simp_all add: dones_def naks_def)

lemma is_done_simps [simp]: "\<not> is_done Quiet" "\<not> is_done Nak" "is_done (Answered n d w)"
  by (simp_all add: is_done_def)

lemma replicate_counts [simp]:
  "dones (replicate k (Answered n d w)) = k" "naks (replicate k (Answered n d w)) = 0"
  by (induction k) simp_all

text \<open>Polling until the call is not busy any more.\<close>

fun drive :: "(host \<Rightarrow> bus \<Rightarrow> call) \<Rightarrow> answer list \<Rightarrow> host \<Rightarrow> bus \<Rightarrow> call" where
  "drive f [] h b = Some (USBH_BUSY, h, b)"
| "drive f (a # tape) h b = do {
     (s, h, b) \<leftarrow> f h (answered a b);
     (if s = USBH_BUSY then drive f tape h b else Some (s, h, b))
   }"

text \<open>\<open>resent n xs ys\<close>: \<open>ys\<close> is \<open>xs\<close> in order, with \<open>n\<close> elements said once more.\<close>

inductive resent :: "nat \<Rightarrow> 'a list \<Rightarrow> 'a list \<Rightarrow> bool" where
  nil: "resent 0 [] []"
| once: "resent n xs ys \<Longrightarrow> resent n (x # xs) (x # ys)"
| again: "resent n (x # xs) ys \<Longrightarrow> resent (Suc n) (x # xs) (x # ys)"

lemma resent_length: "resent n xs ys \<Longrightarrow> length ys = length xs + n"
  by (induction rule: resent.induct) simp_all

lemma resent_0: "resent 0 xs ys \<Longrightarrow> ys = xs"
proof -
  have "resent n xs ys \<Longrightarrow> n = 0 \<longrightarrow> ys = xs" for n by (induction rule: resent.induct) simp_all
  then show "resent 0 xs ys \<Longrightarrow> ys = xs" by blast
qed

subsection \<open>What a command still has to transfer\<close>

definition is_in :: "MSC_HandleTypeDef \<Rightarrow> bool" where
  "is_in m \<longleftrightarrow> cbw_Flags (cbw (hbot m)) AND USB_REQ_DIR_MASK = USB_D2H"

definition pkt_size :: "MSC_HandleTypeDef \<Rightarrow> u16" where
  "pkt_size m = (if is_in m then msc_InEpSize m else msc_OutEpSize m)"

definition data_left :: "MSC_HandleTypeDef \<Rightarrow> nat" where
  "data_left m = unat (DataTransferLength (cbw (hbot m)))"

definition npkts :: "MSC_HandleTypeDef \<Rightarrow> nat" where
  "npkts m = (data_left m + unat (pkt_size m) - 1) div unat (pkt_size m)"

definition data_xfers :: "MSC_HandleTypeDef \<Rightarrow> (u8 \<times> u8 \<times> bool \<times> buf_ptr \<times> u32) list" where
  "data_xfers m = map (\<lambda>i. (if is_in m then msc_InPipe m else msc_OutPipe m, if is_in m then 1 else 0, False,
      buf_at (bot_pbuf (hbot m)) (i * unat (pkt_size m)), ucast (pkt_size m))) [0..<npkts m]"

definition cbw_xfer :: "MSC_HandleTypeDef \<Rightarrow> u8 \<times> u8 \<times> bool \<times> buf_ptr \<times> u32" where
  "cbw_xfer m = (msc_OutPipe m, 0, False, Cbw_buf, 31)"

definition csw_xfer :: "MSC_HandleTypeDef \<Rightarrow> u8 \<times> u8 \<times> bool \<times> buf_ptr \<times> u32" where
  "csw_xfer m = (msc_InPipe m, 1, False, Csw_buf, 13)"

text \<open>The pointer the transport handle keeps at the end: that of the last packet.\<close>

definition last_buf :: "MSC_HandleTypeDef \<Rightarrow> buf_ptr" where
  "last_buf m = buf_at (bot_pbuf (hbot m)) ((npkts m - 1) * unat (pkt_size m))"

definition in_cbw :: "MSC_HandleTypeDef \<Rightarrow> bool" where
  "in_cbw m \<longleftrightarrow> bot_state (hbot m) \<in> {BOT_SEND_CBW, BOT_SEND_CBW_WAIT}"

definition waiting :: "MSC_HandleTypeDef \<Rightarrow> bool" where
  "waiting m \<longleftrightarrow> bot_state (hbot m) \<in> {BOT_SEND_CBW_WAIT, BOT_DATA_IN_WAIT, BOT_DATA_OUT_WAIT, BOT_RECEIVE_CSW_WAIT}"

definition todo_cmd :: "MSC_HandleTypeDef \<Rightarrow> (u8 \<times> u8 \<times> bool \<times> buf_ptr \<times> u32) list" where
  "todo_cmd m = (if in_cbw m then [cbw_xfer m] else []) @ data_xfers m @ [csw_xfer m]"

definition polls_left :: "MSC_HandleTypeDef \<Rightarrow> nat" where
  "polls_left m = (case bot_state (hbot m) of
     BOT_SEND_CBW \<Rightarrow> 4 + (if data_left m = 0 then 0 else Suc (npkts m))
   | BOT_SEND_CBW_WAIT \<Rightarrow> 3 + (if data_left m = 0 then 0 else Suc (npkts m))
   | BOT_DATA_IN \<Rightarrow> npkts m + 3 | BOT_DATA_OUT \<Rightarrow> npkts m + 3
   | BOT_DATA_IN_WAIT \<Rightarrow> npkts m + 2 | BOT_DATA_OUT_WAIT \<Rightarrow> npkts m + 2
   | BOT_RECEIVE_CSW \<Rightarrow> 2 | _ \<Rightarrow> 1)"

text \<open>The states a command passes, and the channel it waits for.\<close>

definition bot_shape :: "MSC_HandleTypeDef \<Rightarrow> bool" where
  "bot_shape m = (case bot_state (hbot m) of
     BOT_SEND_CBW \<Rightarrow> True
   | BOT_SEND_CBW_WAIT \<Rightarrow> True
   | BOT_DATA_IN \<Rightarrow> is_in m \<and> data_left m \<noteq> 0
   | BOT_DATA_IN_WAIT \<Rightarrow> is_in m \<and> data_left m \<noteq> 0
   | BOT_DATA_OUT \<Rightarrow> \<not> is_in m \<and> data_left m \<noteq> 0
   | BOT_DATA_OUT_WAIT \<Rightarrow> \<not> is_in m \<and> data_left m \<noteq> 0
   | BOT_RECEIVE_CSW \<Rightarrow> data_left m = 0
   | BOT_RECEIVE_CSW_WAIT \<Rightarrow> data_left m = 0
   | _ \<Rightarrow> False)"

definition hears :: "MSC_HandleTypeDef \<Rightarrow> bus \<Rightarrow> bool" where
  "hears m b \<longleftrightarrow>
     (if bot_state (hbot m) \<in> {BOT_SEND_CBW_WAIT, BOT_DATA_OUT_WAIT}
      then urb_state (hc b ! unat (msc_OutPipe m)) = USBH_URB_IDLE
      else waiting m \<longrightarrow> urb_state (hc b ! unat (msc_InPipe m)) \<in> {USBH_URB_IDLE, USBH_URB_NOTREADY})"

definition bot_ok :: "MSC_HandleTypeDef \<Rightarrow> host \<Rightarrow> bus \<Rightarrow> bool" where
  "bot_ok m h b \<longleftrightarrow> msc_handle h b = Some m \<and> pData h \<and> unat (msc_InPipe m) < length (hc b) \<and>
     unat (msc_OutPipe m) < length (hc b) \<and> msc_InEpSize m \<noteq> 0 \<and> msc_OutEpSize m \<noteq> 0 \<and>
     cmd_state (hbot m) = BOT_CMD_WAIT"

text \<open>What the polls of one command have in common.\<close>

definition same_cmd :: "MSC_HandleTypeDef \<Rightarrow> MSC_HandleTypeDef \<Rightarrow> bool" where
  "same_cmd m m' \<longleftrightarrow> m'\<lparr>hbot := hbot m\<rparr> = m \<and> cbw_Tag (cbw (hbot m')) = cbw_Tag (cbw (hbot m)) \<and>
     last_buf m' = last_buf m"

lemma upd_bot_simps [simp]:
  "hbot (upd_bot f m) = f (hbot m)" "msc_InPipe (upd_bot f m) = msc_InPipe m" "msc_OutPipe (upd_bot f m) = msc_OutPipe m"
  "msc_InEpSize (upd_bot f m) = msc_InEpSize m" "msc_OutEpSize (upd_bot f m) = msc_OutEpSize m"
  "msc_InEp (upd_bot f m) = msc_InEp m" "msc_OutEp (upd_bot f m) = msc_OutEp m" "unit_luns (upd_bot f m) = unit_luns m"
  "(upd_bot f m)\<lparr>hbot := t\<rparr> = m\<lparr>hbot := t\<rparr>"
  by (simp_all add: upd_bot_def)

lemma same_cmd_fields:
  assumes "same_cmd m m'"
  shows "msc_InPipe m' = msc_InPipe m" "msc_OutPipe m' = msc_OutPipe m" "msc_InEpSize m' = msc_InEpSize m"
    "msc_OutEpSize m' = msc_OutEpSize m" "unit_luns m' = unit_luns m" "last_buf m' = last_buf m"
    "cbw_Tag (cbw (hbot m')) = cbw_Tag (cbw (hbot m))"
proof -
  have "m'\<lparr>hbot := hbot m\<rparr> = m" using assms by (simp add: same_cmd_def)
  from arg_cong [OF this, of msc_InPipe] arg_cong [OF this, of msc_OutPipe] arg_cong [OF this, of msc_InEpSize]
    arg_cong [OF this, of msc_OutEpSize] arg_cong [OF this, of unit_luns]
  show "msc_InPipe m' = msc_InPipe m" "msc_OutPipe m' = msc_OutPipe m" "msc_InEpSize m' = msc_InEpSize m"
    "msc_OutEpSize m' = msc_OutEpSize m" "unit_luns m' = unit_luns m"
    by simp_all
  show "last_buf m' = last_buf m" "cbw_Tag (cbw (hbot m')) = cbw_Tag (cbw (hbot m))"
    using assms by (simp_all add: same_cmd_def)
qed

lemma same_cmd_refl [simp]: "same_cmd m m"
  by (simp add: same_cmd_def)

lemma same_cmd_trans:
  assumes "same_cmd m1 m2" "same_cmd m2 m3"
  shows "same_cmd m1 m3"
proof -
  have "m3\<lparr>hbot := hbot m1\<rparr> = (m3\<lparr>hbot := hbot m2\<rparr>)\<lparr>hbot := hbot m1\<rparr>" by simp
  also have "m3\<lparr>hbot := hbot m2\<rparr> = m2" using assms(2) unfolding same_cmd_def by (elim conjE)
  also have "m2\<lparr>hbot := hbot m1\<rparr> = m1" using assms(1) unfolding same_cmd_def by (elim conjE)
  finally have "m3\<lparr>hbot := hbot m1\<rparr> = m1" .
  moreover have "cbw_Tag (cbw (hbot m3)) = cbw_Tag (cbw (hbot m1))" "last_buf m3 = last_buf m1"
    using same_cmd_fields(6,7) [OF assms(1)] same_cmd_fields(6,7) [OF assms(2)] by (simp_all only:)
  ultimately show ?thesis unfolding same_cmd_def by blast
qed

subsection \<open>Hearing an answer\<close>

fun heard :: "answer \<Rightarrow> MSC_HandleTypeDef \<Rightarrow> MSC_HandleTypeDef" where
  "heard (Answered n d w) m = upd_bot (\<lambda>t. t\<lparr>bot_data := d, csw := w\<rparr>) m"
| "heard _ m = m"

lemmas transfer_defs = is_in_def pkt_size_def data_left_def npkts_def data_xfers_def cbw_xfer_def csw_xfer_def
  last_buf_def in_cbw_def waiting_def todo_cmd_def polls_left_def bot_shape_def

lemma heard_view [simp]:
  "cbw (hbot (heard a m)) = cbw (hbot m)" "bot_state (hbot (heard a m)) = bot_state (hbot m)"
  "bot_pbuf (hbot (heard a m)) = bot_pbuf (hbot m)" "cmd_state (hbot (heard a m)) = cmd_state (hbot m)"
  "msc_InPipe (heard a m) = msc_InPipe m" "msc_OutPipe (heard a m) = msc_OutPipe m"
  "msc_InEpSize (heard a m) = msc_InEpSize m" "msc_OutEpSize (heard a m) = msc_OutEpSize m"
  "(heard a m)\<lparr>hbot := hbot m\<rparr> = m"
  by (cases a; simp)+

lemma heard_amounts [simp]:
  "is_in (heard a m) = is_in m" "pkt_size (heard a m) = pkt_size m" "data_left (heard a m) = data_left m"
  "npkts (heard a m) = npkts m" "data_xfers (heard a m) = data_xfers m" "last_buf (heard a m) = last_buf m"
  "waiting (heard a m) = waiting m" "todo_cmd (heard a m) = todo_cmd m" "same_cmd m (heard a m)"
  by (simp_all add: is_in_def pkt_size_def data_left_def npkts_def data_xfers_def last_buf_def waiting_def
      todo_cmd_def in_cbw_def cbw_xfer_def csw_xfer_def same_cmd_def)

lemma heard_states [simp]: "polls_left (heard a m) = polls_left m" "bot_shape (heard a m) = bot_shape m"
  by (cases "bot_state (hbot m)"; simp add: polls_left_def bot_shape_def)+

lemma answered_simps [simp]:
  "length (hc (answered a b)) = length (hc b)" "xfers (answered a b) = xfers b" "msc_ptr (answered a b) = msc_ptr b"
  "msc_mem (answered a b) = heard a (msc_mem b)"
  by (cases a; simp add: set_urbs_def Let_def xfers_def)+

lemma answered_urb:
  assumes "i < length (hc b)"
  shows "urb_state (hc (answered Quiet b) ! i) = urb_state (hc b ! i)"
    "urb_state (hc (answered Nak b) ! i) = USBH_URB_NOTREADY"
    "urb_state (hc (answered (Answered n d w) b) ! i) = USBH_URB_DONE"
    "xfer_count (hc (answered (Answered n d w) b) ! i) = n"
  using assms by (simp_all add: set_urbs_def Let_def)

lemma bot_ok_answered: "bot_ok m h b \<Longrightarrow> bot_ok (heard a m) h (answered a b)"
  by (cases a) (auto simp: bot_ok_def msc_handle_def set_urbs_def Let_def split: if_splits)

subsection \<open>Packets\<close>

lemma advance_left:
  "data_left (bot_advance sz m) = (if unat sz < data_left m then data_left m - unat sz else 0)"
proof -
  have "ucast sz < DataTransferLength (cbw (hbot m)) \<longleftrightarrow> unat sz < data_left m"
    by (simp add: word_less_nat_alt data_left_def)
  then show ?thesis
    by (auto simp: bot_advance_def data_left_def unat_sub word_le_nat_alt)
qed

lemma advance_same [simp]:
  "is_in (bot_advance sz m) = is_in m" "pkt_size (bot_advance sz m) = pkt_size m"
  "msc_InPipe (bot_advance sz m) = msc_InPipe m" "msc_OutPipe (bot_advance sz m) = msc_OutPipe m"
  "msc_InEpSize (bot_advance sz m) = msc_InEpSize m" "msc_OutEpSize (bot_advance sz m) = msc_OutEpSize m"
  "bot_state (hbot (bot_advance sz m)) = bot_state (hbot m)" "cmd_state (hbot (bot_advance sz m)) = cmd_state (hbot m)"
  "cbw_Tag (cbw (hbot (bot_advance sz m))) = cbw_Tag (cbw (hbot m))"
  "(bot_advance sz m)\<lparr>hbot := hbot m\<rparr> = m"
  by (simp_all add: bot_advance_def is_in_def pkt_size_def)

lemma advance_pbuf:
  "bot_pbuf (hbot (bot_advance sz m)) =
     (if unat sz < data_left m then buf_add (bot_pbuf (hbot m)) (unat sz) else bot_pbuf (hbot m))"
  by (simp add: bot_advance_def data_left_def word_less_nat_alt)

lemma npkts_0: "data_left m = 0 \<Longrightarrow> pkt_size m \<noteq> 0 \<Longrightarrow> npkts m = 0"
  by (simp add: npkts_def unat_gt_0)

lemma npkts_Suc:
  assumes "pkt_size m \<noteq> 0" "data_left m \<noteq> 0"
  shows "npkts m = Suc (npkts (bot_advance (pkt_size m) m))"
proof (cases "unat (pkt_size m) < data_left m")
  case True
  let ?z = "unat (pkt_size m)"
  have z: "0 < ?z" using assms(1) by (simp add: unat_gt_0)
  have "npkts m = (?z + (data_left m - ?z + ?z - 1)) div ?z"
    using True assms by (simp add: npkts_def unat_gt_0 add.commute)
  also have "\<dots> = Suc ((data_left m - ?z + ?z - 1) div ?z)"
    by (simp only: div_add_self1 [OF z [THEN less_not_refl2]] Suc_eq_plus1)
  finally show ?thesis using True by (simp add: npkts_def advance_left)
next
  case False
  let ?z = "unat (pkt_size m)"
  have z: "0 < ?z" using assms(1) by (simp add: unat_gt_0)
  have "npkts m = (?z + (data_left m - 1)) div ?z" using assms(2) z by (simp add: npkts_def add.commute)
  also have "\<dots> = Suc ((data_left m - 1) div ?z)"
    by (simp only: div_add_self1 [OF z [THEN less_not_refl2]] Suc_eq_plus1)
  also have "(data_left m - 1) div ?z = 0" using False assms(2) by simp
  finally show ?thesis using False by (simp add: npkts_0 advance_left assms(1))
qed

lemma data_xfers_advance:
  assumes "pkt_size m \<noteq> 0" "data_left m \<noteq> 0"
  shows "data_xfers m = (if is_in m then msc_InPipe m else msc_OutPipe m, if is_in m then 1 else 0, False,
      bot_pbuf (hbot m), ucast (pkt_size m)) # data_xfers (bot_advance (pkt_size m) m)"
proof -
  have z: "0 < unat (pkt_size m)" using assms(1) by (simp add: unat_gt_0)
  note n = npkts_Suc [OF assms]
  have "[0..<npkts m] = 0 # map Suc [0..<npkts (bot_advance (pkt_size m) m)]"
    unfolding n by (simp only: upt_conv_Cons zero_less_Suc map_Suc_upt)
  moreover have "npkts (bot_advance (pkt_size m) m) = 0" if "\<not> unat (pkt_size m) < data_left m"
    using that assms(1) by (intro npkts_0) (simp_all add: advance_left)
  ultimately show ?thesis
    by (simp add: data_xfers_def advance_pbuf buf_at_add [OF z]) (simp add: buf_at_def)
qed

lemma last_buf_advance:
  assumes "pkt_size m \<noteq> 0" "data_left m \<noteq> 0"
  shows "last_buf (bot_advance (pkt_size m) m) = last_buf m"
proof (cases "unat (pkt_size m) < data_left m")
  case True
  have z: "0 < unat (pkt_size m)" using assms(1) by (simp add: unat_gt_0)
  have "npkts (bot_advance (pkt_size m) m) = Suc (npkts (bot_advance (pkt_size m) (bot_advance (pkt_size m) m)))"
    using npkts_Suc [of "bot_advance (pkt_size m) m"] True assms(1) by (simp add: advance_left)
  with npkts_Suc [OF assms] True show ?thesis
    by (simp add: last_buf_def advance_pbuf buf_at_add [OF z])
next
  case False
  then have "npkts (bot_advance (pkt_size m) m) = 0"
    using assms(1) by (intro npkts_0) (simp_all add: advance_left)
  with npkts_Suc [OF assms] False show ?thesis by (simp add: last_buf_def advance_pbuf)
qed

lemma data_xfers_none: "data_left m = 0 \<Longrightarrow> pkt_size m \<noteq> 0 \<Longrightarrow> data_xfers m = []"
  by (simp add: data_xfers_def npkts_0)

lemma set_bot_same [simp]:
  "is_in (set_bot s m) = is_in m" "pkt_size (set_bot s m) = pkt_size m" "data_left (set_bot s m) = data_left m"
  "npkts (set_bot s m) = npkts m" "data_xfers (set_bot s m) = data_xfers m" "last_buf (set_bot s m) = last_buf m"
  "bot_state (hbot (set_bot s m)) = s" "cmd_state (hbot (set_bot s m)) = cmd_state (hbot m)"
  "cbw (hbot (set_bot s m)) = cbw (hbot m)" "bot_pbuf (hbot (set_bot s m)) = bot_pbuf (hbot m)"
  "msc_InPipe (set_bot s m) = msc_InPipe m" "msc_OutPipe (set_bot s m) = msc_OutPipe m"
  "msc_InEpSize (set_bot s m) = msc_InEpSize m" "msc_OutEpSize (set_bot s m) = msc_OutEpSize m"
  "cbw_xfer (set_bot s m) = cbw_xfer m" "csw_xfer (set_bot s m) = csw_xfer m"
  "(set_bot s m)\<lparr>hbot := t\<rparr> = m\<lparr>hbot := t\<rparr>"
  by (simp_all add: set_bot_def is_in_def pkt_size_def data_left_def npkts_def data_xfers_def last_buf_def
      cbw_xfer_def csw_xfer_def)

subsection \<open>One poll\<close>

lemma xfers_put [simp]: "xfers (put_msc m b) = xfers b" "xfers (os_put e b) = xfers b"
  by (simp_all add: xfers_def)

lemma msc_handle_frame: "msc_handle h b = Some m \<Longrightarrow> msc_ptr b' = msc_ptr b \<Longrightarrow> msc_mem b' = m' \<Longrightarrow> msc_handle h b' = Some m'"
  by (auto simp: msc_handle_def split: if_splits)

text \<open>A transfer is submitted.\<close>

lemma bot_step_send:
  assumes ok: "bot_ok m h b" and sh: "bot_shape m" and w: "\<not> waiting m"
  shows "\<exists>m' b'. USBH_MSC_BOT_Process lun h b = Some (USBH_BUSY, h, b') \<and> bot_ok m' h b' \<and> bot_shape m' \<and>
     waiting m' \<and> hears m' b' \<and> same_cmd m m' \<and> todo_cmd m' = todo_cmd m \<and>
     Suc (polls_left m') = polls_left m \<and> xfers b' = xfers b @ [hd (todo_cmd m)]"
proof -
  have mh: "msc_handle h b = Some m" and d: "pData h" "unat (msc_InPipe m) < length (hc b)"
      "unat (msc_OutPipe m) < length (hc b)" "msc_InEpSize m \<noteq> 0" "msc_OutEpSize m \<noteq> 0" "cmd_state (hbot m) = BOT_CMD_WAIT"
    using ok by (simp_all add: bot_ok_def)
  have z: "pkt_size m \<noteq> 0" using d by (simp add: pkt_size_def)
  let ?ping = "if speed (device h) = USBH_SPEED_HIGH then 1 else 0 :: u8"
  consider (cbw) "bot_state (hbot m) = BOT_SEND_CBW" | (din) "bot_state (hbot m) = BOT_DATA_IN" "is_in m" "data_left m \<noteq> 0"
    | (dout) "bot_state (hbot m) = BOT_DATA_OUT" "\<not> is_in m" "data_left m \<noteq> 0"
    | (csw) "bot_state (hbot m) = BOT_RECEIVE_CSW" "data_left m = 0"
    using sh w by (cases "bot_state (hbot m)") (simp_all add: bot_shape_def waiting_def)
  then show ?thesis
  proof cases
    case cbw
    let ?l = "upd_bot (\<lambda>t. t\<lparr>cbw := (cbw t)\<lparr>cbw_LUN := lun\<rparr>\<rparr>) m"
    let ?m = "set_bot BOT_SEND_CBW_WAIT ?l"
    let ?b = "submitted (msc_OutPipe m) 0 EP_TYPE_BULK 1 Cbw_buf BOT_CBW_LENGTH ?ping (put_msc ?m b)"
    have same: "is_in ?l = is_in m" "npkts ?l = npkts m" "data_left ?l = data_left m" "data_xfers ?l = data_xfers m"
      "last_buf ?l = last_buf m"
      by (simp_all add: is_in_def npkts_def data_left_def data_xfers_def last_buf_def pkt_size_def)
    have "USBH_MSC_BOT_Process lun h b = Some (USBH_BUSY, h, ?b)"
      using mh cbw d by (simp add: USBH_MSC_BOT_Process_def bot_send_cbw_def Let_def mem_simps)
    moreover have "bot_ok ?m h ?b"
      using d msc_handle_frame [OF mh, of ?b ?m] by (simp add: bot_ok_def)
    moreover have "bot_shape ?m" "waiting ?m" "hears ?m ?b"
      using d by (simp_all add: bot_shape_def waiting_def hears_def)
    moreover have "same_cmd m ?m" by (simp add: same_cmd_def same)
    moreover have "todo_cmd ?m = todo_cmd m" "Suc (polls_left ?m) = polls_left m" "hd (todo_cmd m) = (msc_OutPipe m, 0, False, Cbw_buf, 31)"
      using cbw by (simp_all add: todo_cmd_def in_cbw_def same polls_left_def cbw_xfer_def csw_xfer_def)
    ultimately show ?thesis by (intro exI conjI) (assumption | simp add: xfers_bulk)+
  next
    case din
    let ?m = "set_bot BOT_DATA_IN_WAIT m"
    let ?b = "put_msc ?m (submitted (msc_InPipe m) 1 EP_TYPE_BULK 1 (bot_pbuf (hbot m)) (msc_InEpSize m) 0 b)"
    have "USBH_MSC_BOT_Process lun h b = Some (USBH_BUSY, h, ?b)"
      using mh din d by (simp add: USBH_MSC_BOT_Process_def bot_data_in_def bot_receive_def mem_simps)
    moreover have "bot_ok ?m h ?b"
      using d msc_handle_frame [OF mh, of ?b ?m] by (simp add: bot_ok_def)
    moreover have "bot_shape ?m" "waiting ?m" "hears ?m ?b" "same_cmd m ?m"
      using din d by (simp_all add: bot_shape_def waiting_def hears_def same_cmd_def)
    moreover have "todo_cmd ?m = todo_cmd m" "Suc (polls_left ?m) = polls_left m"
        "hd (todo_cmd m) = (msc_InPipe m, 1, False, bot_pbuf (hbot m), ucast (msc_InEpSize m))"
      using din data_xfers_advance [OF z] by (simp_all add: todo_cmd_def in_cbw_def polls_left_def pkt_size_def)
    ultimately show ?thesis by (intro exI conjI) (assumption | simp add: xfers_bulk)+
  next
    case dout
    let ?m = "set_bot BOT_DATA_OUT_WAIT m"
    let ?b = "put_msc ?m (submitted (msc_OutPipe m) 0 EP_TYPE_BULK 1 (bot_pbuf (hbot m)) (msc_OutEpSize m) ?ping b)"
    have "USBH_MSC_BOT_Process lun h b = Some (USBH_BUSY, h, ?b)"
      using mh dout d by (simp add: USBH_MSC_BOT_Process_def bot_data_out_def bot_transmit_def mem_simps)
    moreover have "bot_ok ?m h ?b"
      using d msc_handle_frame [OF mh, of ?b ?m] by (simp add: bot_ok_def)
    moreover have "bot_shape ?m" "waiting ?m" "hears ?m ?b" "same_cmd m ?m"
      using dout d by (simp_all add: bot_shape_def waiting_def hears_def same_cmd_def)
    moreover have "todo_cmd ?m = todo_cmd m" "Suc (polls_left ?m) = polls_left m"
        "hd (todo_cmd m) = (msc_OutPipe m, 0, False, bot_pbuf (hbot m), ucast (msc_OutEpSize m))"
      using dout data_xfers_advance [OF z] by (simp_all add: todo_cmd_def in_cbw_def polls_left_def pkt_size_def)
    ultimately show ?thesis by (intro exI conjI) (assumption | simp add: xfers_bulk)+
  next
    case csw
    let ?m = "set_bot BOT_RECEIVE_CSW_WAIT m"
    let ?b = "put_msc ?m (submitted (msc_InPipe m) 1 EP_TYPE_BULK 1 Csw_buf BOT_CSW_LENGTH 0 b)"
    have "USBH_MSC_BOT_Process lun h b = Some (USBH_BUSY, h, ?b)"
      using mh csw d by (simp add: USBH_MSC_BOT_Process_def bot_receive_csw_def mem_simps)
    moreover have "bot_ok ?m h ?b"
      using d msc_handle_frame [OF mh, of ?b ?m] by (simp add: bot_ok_def)
    moreover have "bot_shape ?m" "waiting ?m" "hears ?m ?b" "same_cmd m ?m"
      using csw d by (simp_all add: bot_shape_def waiting_def hears_def same_cmd_def)
    moreover have "todo_cmd ?m = todo_cmd m" "Suc (polls_left ?m) = polls_left m"
        "hd (todo_cmd m) = (msc_InPipe m, 1, False, Csw_buf, 13)"
      using csw z by (simp_all add: todo_cmd_def in_cbw_def polls_left_def data_xfers_none csw_xfer_def)
    ultimately show ?thesis by (intro exI conjI) (assumption | simp add: xfers_bulk)+
  qed
qed

lemma wait_states:
  assumes "bot_shape m" "waiting m"
  obtains (cbw) "bot_state (hbot m) = BOT_SEND_CBW_WAIT"
  | (din) "bot_state (hbot m) = BOT_DATA_IN_WAIT" "is_in m" "data_left m \<noteq> 0"
  | (dout) "bot_state (hbot m) = BOT_DATA_OUT_WAIT" "\<not> is_in m" "data_left m \<noteq> 0"
  | (csw) "bot_state (hbot m) = BOT_RECEIVE_CSW_WAIT" "data_left m = 0"
  using assms by (cases "bot_state (hbot m)") (simp_all add: bot_shape_def waiting_def)

text \<open>The outstanding transfer is done; the next one may be submitted at once.\<close>

definition moved_on :: "MSC_HandleTypeDef \<Rightarrow> host \<Rightarrow> bus \<Rightarrow> MSC_HandleTypeDef \<Rightarrow> bus \<Rightarrow> bool" where
  "moved_on m h b m' b' \<longleftrightarrow> bot_ok m' h b' \<and> bot_shape m' \<and> hears m' b' \<and> same_cmd m m' \<and>
     todo_cmd m' = tl (todo_cmd m) \<and> Suc (polls_left m') = polls_left m \<and>
     xfers b' = xfers b @ (if waiting m' then [hd (todo_cmd m')] else [])"

lemma packet_done:
  assumes ok: "bot_ok m h b" and left: "data_left m \<noteq> 0"
    and st: "bot_state (hbot m) = (if is_in m then BOT_DATA_IN_WAIT else BOT_DATA_OUT_WAIT)"
  shows "data_left (bot_advance (pkt_size m) m) = 0 \<Longrightarrow>
      moved_on m h b (set_bot BOT_RECEIVE_CSW (bot_advance (pkt_size m) m)) (bot_goto BOT_RECEIVE_CSW (bot_advance (pkt_size m) m) b)"
    "\<lbrakk>data_left (bot_advance (pkt_size m) m) \<noteq> 0; msc_ptr b' = msc_ptr b; msc_mem b' = bot_advance (pkt_size m) m;
      length (hc b') = length (hc b); urb_state (hc b' ! unat (if is_in m then msc_InPipe m else msc_OutPipe m)) = USBH_URB_IDLE;
      xfers b' = xfers b @ [(if is_in m then msc_InPipe m else msc_OutPipe m, if is_in m then 1 else 0, False,
        bot_pbuf (hbot (bot_advance (pkt_size m) m)), ucast (pkt_size m))]\<rbrakk> \<Longrightarrow>
      moved_on m h b (bot_advance (pkt_size m) m) b'"
proof -
  let ?a = "bot_advance (pkt_size m) m"
  have mh: "msc_handle h b = Some m" and z: "pkt_size m \<noteq> 0" using ok by (simp_all add: bot_ok_def pkt_size_def)
  note x = data_xfers_advance [OF z left] and n = npkts_Suc [OF z left] and l = last_buf_advance [OF z left]
  {
    assume e: "data_left ?a = 0"
    let ?m = "set_bot BOT_RECEIVE_CSW ?a"
    let ?b = "bot_goto BOT_RECEIVE_CSW ?a b"
    have "bot_ok ?m h ?b" using ok msc_handle_frame [OF mh, of ?b] by (simp add: bot_ok_def)
    moreover have "todo_cmd m = hd (data_xfers m) # todo_cmd ?m" "Suc (polls_left ?m) = polls_left m"
      using st x n npkts_0 [OF e] z by (auto simp: todo_cmd_def in_cbw_def polls_left_def csw_xfer_def data_xfers_none e)
    ultimately show "moved_on m h b ?m ?b"
      using e l by (auto simp: moved_on_def bot_shape_def waiting_def hears_def same_cmd_def bot_goto_def)
  next
    assume e: "data_left ?a \<noteq> 0" and b': "msc_ptr b' = msc_ptr b" "msc_mem b' = ?a" "length (hc b') = length (hc b)"
      "urb_state (hc b' ! unat (if is_in m then msc_InPipe m else msc_OutPipe m)) = USBH_URB_IDLE"
      "xfers b' = xfers b @ [(if is_in m then msc_InPipe m else msc_OutPipe m, if is_in m then 1 else 0, False,
        bot_pbuf (hbot ?a), ucast (pkt_size m))]"
    have "bot_ok ?a h b'" using ok b'(3) msc_handle_frame [OF mh b'(1,2)] by (simp add: bot_ok_def)
    moreover have "todo_cmd m = hd (data_xfers m) # todo_cmd ?a" "Suc (polls_left ?a) = polls_left m"
      using st x n by (auto simp: todo_cmd_def in_cbw_def polls_left_def csw_xfer_def)
    moreover have "xfers b' = xfers b @ [hd (todo_cmd ?a)]" "waiting ?a"
      using st b'(5) data_xfers_advance [of ?a] e z by (auto simp: todo_cmd_def in_cbw_def waiting_def)
    moreover have "bot_shape ?a" "hears ?a b'" using st e b'(4) by (auto simp: bot_shape_def hears_def)
    ultimately show "moved_on m h b ?a b'" using l by (auto simp: moved_on_def same_cmd_def)
  }
qed

lemma bot_step_done:
  assumes ok: "bot_ok m h b" and sh: "bot_shape m" and w: "waiting m"
    and u: "urb_state (hc b ! unat (msc_InPipe m)) = USBH_URB_DONE" "urb_state (hc b ! unat (msc_OutPipe m)) = USBH_URB_DONE"
    and nl: "bot_state (hbot m) \<noteq> BOT_RECEIVE_CSW_WAIT"
  shows "\<exists>m' b'. USBH_MSC_BOT_Process lun h b = Some (USBH_BUSY, h, b') \<and> moved_on m h b m' b'"
proof -
  have mh: "msc_handle h b = Some m" and d: "pData h" "unat (msc_InPipe m) < length (hc b)" "unat (msc_OutPipe m) < length (hc b)"
    using ok by (simp_all add: bot_ok_def)
  let ?a = "bot_advance (pkt_size m) m"
  have more: "DataTransferLength (cbw (hbot ?a)) > 0 \<longleftrightarrow> data_left ?a \<noteq> 0"
    by (simp add: data_left_def word_gt_0 unat_eq_zero)
  show ?thesis using sh w
  proof (cases rule: wait_states)
    case cbw
    let ?s = "after_cbw (cbw (hbot m))"
    have s: "?s = (if data_left m = 0 then BOT_RECEIVE_CSW else if is_in m then BOT_DATA_IN else BOT_DATA_OUT)"
      by (simp add: after_cbw_def data_left_def is_in_def unat_eq_zero)
    have p: "USBH_MSC_BOT_Process lun h b = Some (USBH_BUSY, h, bot_goto ?s m b)"
      using mh cbw d u by (simp add: USBH_MSC_BOT_Process_def bot_send_cbw_wait_def mem_simps)
    have "bot_ok (set_bot ?s m) h (bot_goto ?s m b)"
      using ok msc_handle_frame [OF mh, of "bot_goto ?s m b"] by (simp add: bot_ok_def)
    moreover have "todo_cmd m = cbw_xfer m # todo_cmd (set_bot ?s m)" "Suc (polls_left (set_bot ?s m)) = polls_left m"
      using cbw by (simp_all add: s todo_cmd_def in_cbw_def polls_left_def)
    ultimately have "moved_on m h b (set_bot ?s m) (bot_goto ?s m b)"
      by (auto simp: moved_on_def s bot_shape_def waiting_def hears_def same_cmd_def bot_goto_def)
    with p show ?thesis by blast
  next
    case din
    then have "bot_state (hbot m) = (if is_in m then BOT_DATA_IN_WAIT else BOT_DATA_OUT_WAIT)" by simp
    note fin = packet_done [OF ok din(3) this]
    let ?b = "submitted (msc_InPipe m) 1 EP_TYPE_BULK 1 (bot_pbuf (hbot ?a)) (msc_InEpSize m) 0 (put_msc ?a b)"
    have "USBH_MSC_BOT_Process lun h b =
        (if data_left ?a \<noteq> 0 then Some (USBH_BUSY, h, ?b) else Some (USBH_BUSY, h, bot_goto BOT_RECEIVE_CSW ?a b))"
      using mh din d u more
      by (simp add: USBH_MSC_BOT_Process_def bot_data_in_wait_def bot_receive_def Let_def mem_simps pkt_size_def)
    then show ?thesis
      using fin(1) fin(2) [of ?b] din d by (cases "data_left ?a = 0") (auto simp: xfers_bulk pkt_size_def)
  next
    case dout
    then have "bot_state (hbot m) = (if is_in m then BOT_DATA_IN_WAIT else BOT_DATA_OUT_WAIT)" by simp
    note fin = packet_done [OF ok dout(3) this]
    let ?b = "os_put USBH_URB_EVENT (submitted (msc_OutPipe m) 0 EP_TYPE_BULK 1 (bot_pbuf (hbot ?a)) (msc_OutEpSize m)
        (if speed (device h) = USBH_SPEED_HIGH then 1 else 0) (put_msc ?a b))"
    have "USBH_MSC_BOT_Process lun h b =
        (if data_left ?a \<noteq> 0 then Some (USBH_BUSY, h, ?b) else Some (USBH_BUSY, h, bot_goto BOT_RECEIVE_CSW ?a b))"
      using mh dout d u more
      by (simp add: USBH_MSC_BOT_Process_def bot_data_out_wait_def bot_transmit_def Let_def mem_simps pkt_size_def)
    then show ?thesis
      using fin(1) fin(2) [of ?b] dout d by (cases "data_left ?a = 0") (auto simp: xfers_bulk pkt_size_def)
  qed (use nl in simp)
qed

text \<open>Nothing heard: nothing happens.\<close>

lemma bot_step_idle:
  assumes "bot_ok m h b" "bot_shape m" "waiting m" "hears m b"
  shows "USBH_MSC_BOT_Process lun h b = Some (USBH_BUSY, h, b)"
proof -
  note bot_waits = bot_send_cbw_wait_def bot_data_in_wait_def bot_data_out_wait_def bot_receive_csw_wait_def
  from assms(2,3) show ?thesis
    by (cases rule: wait_states; use assms in \<open>auto simp: bot_ok_def hears_def USBH_MSC_BOT_Process_def bot_waits mem_simps\<close>)
qed

text \<open>A packet that was not taken is submitted again; the IN direction keeps waiting.\<close>

lemma bot_step_nak:
  assumes ok: "bot_ok m h b" and sh: "bot_shape m" and w: "waiting m"
    and u: "urb_state (hc b ! unat (msc_InPipe m)) = USBH_URB_NOTREADY" "urb_state (hc b ! unat (msc_OutPipe m)) = USBH_URB_NOTREADY"
  shows "\<exists>m' b'. USBH_MSC_BOT_Process lun h b = Some (USBH_BUSY, h, b') \<and> bot_ok m' h b' \<and> bot_shape m' \<and> hears m' b' \<and>
     same_cmd m m' \<and> todo_cmd m' = todo_cmd m \<and> xfers b' = xfers b \<and> polls_left m' = polls_left m + (if waiting m' then 0 else 1)"
proof -
  have mh: "msc_handle h b = Some m" and d: "pData h" "unat (msc_InPipe m) < length (hc b)" "unat (msc_OutPipe m) < length (hc b)"
    using ok by (simp_all add: bot_ok_def)
  have again: ?thesis if st: "(bot_state (hbot m), s) \<in> {(BOT_SEND_CBW_WAIT, BOT_SEND_CBW), (BOT_DATA_OUT_WAIT, BOT_DATA_OUT)}"
      and p: "USBH_MSC_BOT_Process lun h b = Some (USBH_BUSY, h, bot_goto s m b)" for s
  proof -
    have "bot_ok (set_bot s m) h (bot_goto s m b)"
      using ok msc_handle_frame [OF mh, of "bot_goto s m b"] by (simp add: bot_ok_def)
    moreover have "bot_shape (set_bot s m)" "hears (set_bot s m) (bot_goto s m b)" "same_cmd m (set_bot s m)"
      using sh st by (auto simp: bot_shape_def hears_def waiting_def same_cmd_def)
    moreover have "todo_cmd (set_bot s m) = todo_cmd m" "polls_left (set_bot s m) = Suc (polls_left m)" "\<not> waiting (set_bot s m)"
      using st by (auto simp: todo_cmd_def in_cbw_def polls_left_def waiting_def)
    ultimately show ?thesis using p by (intro exI conjI) (assumption | simp add: bot_goto_def)+
  qed
  have same: ?thesis if st: "bot_state (hbot m) \<in> {BOT_DATA_IN_WAIT, BOT_RECEIVE_CSW_WAIT}"
      and p: "USBH_MSC_BOT_Process lun h b = Some (USBH_BUSY, h, b)"
    using st p ok sh u w by (intro exI [of _ m] exI [of _ b]) (auto simp: hears_def)
  from sh w show ?thesis
  proof (cases rule: wait_states)
    case cbw
    with mh d u show ?thesis
      by (intro again [of BOT_SEND_CBW]) (simp_all add: USBH_MSC_BOT_Process_def bot_send_cbw_wait_def mem_simps)
  next
    case dout
    with mh d u show ?thesis
      by (intro again [of BOT_DATA_OUT]) (simp_all add: USBH_MSC_BOT_Process_def bot_data_out_wait_def mem_simps)
  next
    case din
    with mh d u show ?thesis by (intro same) (simp_all add: USBH_MSC_BOT_Process_def bot_data_in_wait_def mem_simps)
  next
    case csw
    with mh d u show ?thesis by (intro same) (simp_all add: USBH_MSC_BOT_Process_def bot_receive_csw_wait_def mem_simps)
  qed
qed

text \<open>The status has come in.\<close>

definition bot_ended :: "MSC_HandleTypeDef \<Rightarrow> MSC_HandleTypeDef" where
  "bot_ended = upd_bot (\<lambda>t. t\<lparr>bot_state := BOT_SEND_CBW, cmd_state := BOT_CMD_SEND\<rparr>)"

definition verdict :: "u32 \<Rightarrow> MSC_HandleTypeDef \<Rightarrow> USBH_StatusTypeDef" where
  "verdict n m = (if decode_csw n (cbw_Tag (cbw (hbot m))) (csw (hbot m)) = BOT_CSW_CMD_PASSED then USBH_OK else USBH_FAIL)"

lemma bot_step_last:
  assumes "bot_ok m h b" "bot_state (hbot m) = BOT_RECEIVE_CSW_WAIT" "urb_state (hc b ! unat (msc_InPipe m)) = USBH_URB_DONE"
  shows "USBH_MSC_BOT_Process lun h b = Some (verdict (xfer_count (hc b ! unat (msc_InPipe m))) m, h,
      os_put USBH_URB_EVENT (put_msc (bot_ended m) b))"
  using assms
  by (simp add: bot_ok_def USBH_MSC_BOT_Process_def bot_receive_csw_wait_def mem_simps USBH_MSC_DecodeCSW_def
      USBH_LL_GetLastXferSize_def HAL_HCD_HC_GetXferCount_def bot_ended_def [symmetric])
    (simp add: bot_ended_def verdict_def mem_simps)

subsection \<open>A whole command\<close>

lemma scsi_cmd_wait:
  "msc_handle h b = Some m \<Longrightarrow> cmd_state (hbot m) = BOT_CMD_WAIT \<Longrightarrow>
     scsi_cmd idle send fin lun h b = do {
       (s, h, b) \<leftarrow> USBH_MSC_BOT_Process lun h b;
       b \<leftarrow> (if s = USBH_OK then on_msc fin h b else Some b);
       Some (s, h, b)
     }"
  by (simp add: scsi_cmd_def)

lemma scsi_cmd_busy:
  "bot_ok m h b \<Longrightarrow> USBH_MSC_BOT_Process lun h b = Some (USBH_BUSY, h, b') \<Longrightarrow>
     scsi_cmd idle send fin lun h b = Some (USBH_BUSY, h, b')"
  by (simp add: scsi_cmd_wait bot_ok_def)

lemma polls_left_pos: "0 < polls_left m"
  by (cases "bot_state (hbot m)") (simp_all add: polls_left_def)

text \<open>
  How a command in progress ends: \<open>m'\<close> and \<open>b'\<close> after the last poll, before the command reads its result,
  and what was sent meanwhile.
\<close>

definition cmd_ends ::
  "answer list \<Rightarrow> MSC_HandleTypeDef \<Rightarrow> host \<Rightarrow> bus \<Rightarrow> USBH_StatusTypeDef \<Rightarrow> MSC_HandleTypeDef \<Rightarrow> bus \<Rightarrow>
    (u8 \<times> u8 \<times> bool \<times> buf_ptr \<times> u32) list \<Rightarrow> nat \<Rightarrow> bool" where
  "cmd_ends tape m h b s m' b' sent k \<longleftrightarrow>
     (\<exists>n d w. Answered n d w \<in> set tape \<and> s = verdict n m' \<and> csw (hbot m') = w \<and> bot_data (hbot m') = d) \<and>
     msc_handle h b' = Some m' \<and> same_cmd m m' \<and> bot_state (hbot m') = BOT_SEND_CBW \<and> cmd_state (hbot m') = BOT_CMD_SEND \<and>
     xfers b' = xfers b @ sent \<and> resent k (todo_cmd m) ((if waiting m then [hd (todo_cmd m)] else []) @ sent) \<and>
     bot_pbuf (hbot m') = last_buf m \<and> k \<le> naks tape"

lemma todo_cmd_Cons: "todo_cmd m = hd (todo_cmd m) # tl (todo_cmd m)"
  by (simp add: todo_cmd_def)

lemma cmd_ends_step:
  assumes "cmd_ends tape m1 h b1 s m' b' sent k" "same_cmd m m1"
    and "xfers b1 = xfers b @ new" "todo_cmd m1 = todo_cmd m \<and> k1 = k \<and> new = (if waiting m then [] else [hd (todo_cmd m)]) \<and> waiting m1 \<or>
      todo_cmd m1 = todo_cmd m \<and> k1 = Suc k \<and> new = [] \<and> waiting m \<and> \<not> waiting m1 \<or>
      todo_cmd m1 = tl (todo_cmd m) \<and> k1 = k \<and> new = (if waiting m1 then [hd (todo_cmd m1)] else []) \<and> waiting m"
    and "k1 \<le> naks (a # tape)"
  shows "cmd_ends (a # tape) m h b s m' b' (new @ sent) k1"
proof -
  have r: "resent k (todo_cmd m1) ((if waiting m1 then [hd (todo_cmd m1)] else []) @ sent)"
    using assms(1) by (simp add: cmd_ends_def)
  have "resent k1 (todo_cmd m) ((if waiting m then [hd (todo_cmd m)] else []) @ new @ sent)"
    using assms(4)
  proof (elim disjE conjE)
    assume "todo_cmd m1 = todo_cmd m" "k1 = Suc k" "new = []" "waiting m" "\<not> waiting m1"
    with r have "resent (Suc k) (hd (todo_cmd m) # tl (todo_cmd m)) (hd (todo_cmd m) # sent)"
      by (intro resent.again) (simp add: todo_cmd_Cons [symmetric])
    with \<open>k1 = Suc k\<close> \<open>new = []\<close> \<open>waiting m\<close> show ?thesis by (simp add: todo_cmd_Cons [symmetric])
  next
    assume "todo_cmd m1 = tl (todo_cmd m)" "k1 = k" "new = (if waiting m1 then [hd (todo_cmd m1)] else [])" "waiting m"
    with r have "resent k (hd (todo_cmd m) # tl (todo_cmd m)) (hd (todo_cmd m) # new @ sent)"
      by (intro resent.once) simp
    with \<open>k1 = k\<close> \<open>waiting m\<close> show ?thesis by (simp add: todo_cmd_Cons [symmetric])
  qed (use r in simp)
  with assms show ?thesis
    using same_cmd_trans [OF assms(2)] same_cmd_fields(6) [OF assms(2)] unfolding cmd_ends_def by auto
qed

lemma cmd_ends_last:
  assumes ok: "bot_ok m h b" and sh: "bot_shape m" and st: "bot_state (hbot m) = BOT_RECEIVE_CSW_WAIT"
    and b0_def: "b0 = answered (Answered n d w) b" and m0_def: "m0 = heard (Answered n d w) m"
  shows "\<exists>s m' b'. USBH_MSC_BOT_Process lun h b0 = Some (s, h, b') \<and> s \<noteq> USBH_BUSY \<and>
     cmd_ends (Answered n d w # tape) m h b s m' b' [] 0"
proof -
  have p: "unat (msc_InPipe m) < length (hc b)" "pkt_size m \<noteq> 0" using ok by (simp_all add: bot_ok_def pkt_size_def)
  have ok0: "bot_ok m0 h b0" unfolding b0_def m0_def using ok by (rule bot_ok_answered)
  then have mh: "msc_handle h b0 = Some m0" by (simp add: bot_ok_def)
  have c: "xfer_count (hc b0 ! unat (msc_InPipe m0)) = n" using answered_urb(4) [OF p(1)] by (simp only: b0_def m0_def heard_view)
  have u: "urb_state (hc b0 ! unat (msc_InPipe m0)) = USBH_URB_DONE" using answered_urb(3) [OF p(1)] by (simp only: b0_def m0_def heard_view)
  let ?s = "verdict n (bot_ended m0)" and ?b = "os_put USBH_URB_EVENT (put_msc (bot_ended m0) b0)"
  have v: "verdict n m0 = ?s" by (simp add: verdict_def bot_ended_def)
  have "USBH_MSC_BOT_Process lun h b0 = Some (?s, h, ?b)"
    using bot_step_last [OF ok0 _ u, of lun] st unfolding c v by (simp add: m0_def)
  moreover have "?s \<noteq> USBH_BUSY" by (simp add: verdict_def)
  moreover have "cmd_ends (Answered n d w # tape) m h b ?s (bot_ended m0) ?b [] 0"
  proof -
    have "data_left m = 0" using sh st by (simp add: bot_shape_def)
    then have t: "todo_cmd m = [csw_xfer m]" and l: "last_buf m = bot_pbuf (hbot m)"
      using st npkts_0 [OF _ p(2)] data_xfers_none [OF _ p(2)]
      by (simp_all add: todo_cmd_def in_cbw_def last_buf_def buf_at_def)
    have xb: "xfers b0 = xfers b" unfolding b0_def by (rule answered_simps)
    have h1: "msc_handle h ?b = Some (bot_ended m0)" using msc_handle_frame [OF mh, of ?b] by simp
    have "same_cmd m0 (bot_ended m0)"
      by (simp add: same_cmd_def bot_ended_def last_buf_def npkts_def data_left_def pkt_size_def is_in_def)
    then have "same_cmd m (bot_ended m0)" using same_cmd_trans [OF heard_amounts(9)] unfolding m0_def by blast
    moreover have "resent 0 (todo_cmd m) [hd (todo_cmd m)]" unfolding t by (simp add: resent.once resent.nil)
    ultimately show ?thesis
      using h1 l st xb by (simp add: cmd_ends_def waiting_def) (auto simp: m0_def bot_ended_def)
  qed
  ultimately show ?thesis by blast
qed

lemma drive_cmd:
  "\<lbrakk>bot_ok m h b; bot_shape m; hears m b; polls_left m + naks tape \<le> dones tape\<rbrakk> \<Longrightarrow>
   \<exists>s m' b' sent k. cmd_ends tape m h b s m' b' sent k \<and>
     drive (scsi_cmd idle send fin lun) tape h b = do {
       b \<leftarrow> (if s = USBH_OK then on_msc fin h b' else Some b');
       Some (s, h, b)
     }"
proof (induction tape arbitrary: m b)
  case Nil
  then show ?case using polls_left_pos [of m] by simp
next
  case (Cons a tape)
  let ?b = "answered a b" and ?m = "heard a m" and ?f = "scsi_cmd idle send fin lun"
  have ok: "bot_ok ?m h ?b" using Cons.prems(1) by (rule bot_ok_answered)
  have pipes: "unat (msc_InPipe m) < length (hc b)" "unat (msc_OutPipe m) < length (hc b)"
    using Cons.prems(1) by (simp_all add: bot_ok_def)
  have step: ?case if p: "USBH_MSC_BOT_Process lun h ?b = Some (USBH_BUSY, h, b1)" and o: "bot_ok m1 h b1" "bot_shape m1" "hears m1 b1"
    and c: "polls_left m1 + naks tape \<le> dones tape" and sm: "same_cmd m m1" and x: "xfers b1 = xfers b @ new"
    and e: "\<And>k. todo_cmd m1 = todo_cmd m \<and> again k = k \<and> new = (if waiting m then [] else [hd (todo_cmd m)]) \<and> waiting m1 \<or>
      todo_cmd m1 = todo_cmd m \<and> again k = Suc k \<and> new = [] \<and> waiting m \<and> \<not> waiting m1 \<or>
      todo_cmd m1 = tl (todo_cmd m) \<and> again k = k \<and> new = (if waiting m1 then [hd (todo_cmd m1)] else []) \<and> waiting m"
    and n: "\<And>k. k \<le> naks tape \<Longrightarrow> again k \<le> naks (a # tape)" for m1 b1 new again
  proof -
    from Cons.IH [OF o c] obtain s m' b' sent k where r: "cmd_ends tape m1 h b1 s m' b' sent k"
      and d: "drive ?f tape h b1 = do { b \<leftarrow> (if s = USBH_OK then on_msc fin h b' else Some b'); Some (s, h, b) }" by blast
    have "k \<le> naks tape" using r by (simp add: cmd_ends_def)
    with cmd_ends_step [OF r sm x e n] have "cmd_ends (a # tape) m h b s m' b' (new @ sent) (again k)" by blast
    moreover have "drive ?f (a # tape) h b = drive ?f tape h b1" using scsi_cmd_busy [OF ok p] by simp
    ultimately show ?thesis using d by metis
  qed
  have w: "waiting ?m = waiting m" "bot_shape ?m" using Cons.prems(2) by simp_all
  show ?case
  proof (cases "waiting m")
    case False
    with bot_step_send [OF ok w(2), of lun] obtain m' b' where
      s: "USBH_MSC_BOT_Process lun h ?b = Some (USBH_BUSY, h, b')" "bot_ok m' h b'" "bot_shape m'" "hears m' b'"
      "waiting m'" "same_cmd ?m m'" "todo_cmd m' = todo_cmd m" "Suc (polls_left m') = polls_left m" "xfers b' = xfers b @ [hd (todo_cmd m)]"
      by auto
    show ?thesis
      by (rule step [OF s(1-4) _ same_cmd_trans [OF heard_amounts(9) s(6)] s(9), where again = "\<lambda>k. k"])
        (use s False Cons.prems(4) in \<open>auto split: if_splits\<close>)
  next
    case True
    show ?thesis
    proof (cases a)
      case Quiet
      with bot_step_idle [OF Cons.prems(1,2) True Cons.prems(3), of lun] show ?thesis
        by (intro step [of b m "[]" "\<lambda>k. k"]) (use Cons.prems True in simp_all)
    next
      case Nak
      then have "urb_state (hc ?b ! unat (msc_InPipe ?m)) = USBH_URB_NOTREADY" "urb_state (hc ?b ! unat (msc_OutPipe ?m)) = USBH_URB_NOTREADY"
        using pipes answered_urb(2) by (simp_all only: heard_view)
      from bot_step_nak [OF ok w(2) _ this, of lun] True obtain m' b' where
        s: "USBH_MSC_BOT_Process lun h ?b = Some (USBH_BUSY, h, b')" "bot_ok m' h b'" "bot_shape m'" "hears m' b'"
        "same_cmd ?m m'" "todo_cmd m' = todo_cmd m" "xfers b' = xfers b" "polls_left m' = polls_left m + (if waiting m' then 0 else 1)"
        by auto
      show ?thesis
        by (rule step [OF s(1-4) _ same_cmd_trans [OF heard_amounts(9) s(5)], where new = "[]" and again = "\<lambda>k. if waiting m' then k else Suc k"])
          (use s True Nak Cons.prems(4) in \<open>auto split: if_splits\<close>)
    next
      case (Answered n d w)
      show ?thesis
      proof (cases "bot_state (hbot m) = BOT_RECEIVE_CSW_WAIT")
        case True
        from cmd_ends_last [OF Cons.prems(1,2) True] Answered obtain s m' b' where
          s: "USBH_MSC_BOT_Process lun h ?b = Some (s, h, b')" "s \<noteq> USBH_BUSY" "cmd_ends (a # tape) m h b s m' b' [] 0"
          by blast
        have "drive ?f (a # tape) h b = do { b \<leftarrow> (if s = USBH_OK then on_msc fin h b' else Some b'); Some (s, h, b) }"
          using ok s(1,2) scsi_cmd_wait [of h ?b ?m] by (simp add: bot_ok_def)
        with s(3) show ?thesis by blast
      next
        case False
        have "urb_state (hc ?b ! unat (msc_InPipe ?m)) = USBH_URB_DONE" "urb_state (hc ?b ! unat (msc_OutPipe ?m)) = USBH_URB_DONE"
          using pipes answered_urb(3) Answered by (simp_all only: heard_view)
        from bot_step_done [OF ok w(2) _ this, of lun] \<open>waiting m\<close> False obtain m' b' where
          s: "USBH_MSC_BOT_Process lun h ?b = Some (USBH_BUSY, h, b')" "moved_on ?m h ?b m' b'"
          by auto
        then have v: "bot_ok m' h b'" "bot_shape m'" "hears m' b'" "same_cmd ?m m'" "todo_cmd m' = tl (todo_cmd m)"
          "Suc (polls_left m') = polls_left m" "xfers b' = xfers b @ (if waiting m' then [hd (todo_cmd m')] else [])"
          by (simp_all add: moved_on_def)
        show ?thesis
          by (rule step [OF s(1) v(1-3) _ same_cmd_trans [OF heard_amounts(9) v(4)] v(7), where again = "\<lambda>k. k"])
            (use v \<open>waiting m\<close> Answered Cons.prems(4) in \<open>auto split: if_splits\<close>)
      qed
    qed
  qed
qed

subsection \<open>Reading and writing blocks\<close>

text \<open>READ(10) and WRITE(10), by direction.\<close>

definition scsi_rw :: "bool \<Rightarrow> u8 \<Rightarrow> u32 \<Rightarrow> buf_ptr \<Rightarrow> u32 \<Rightarrow> host \<Rightarrow> bus \<Rightarrow> call" where
  "scsi_rw out = (if out then USBH_MSC_SCSI_Write else USBH_MSC_SCSI_Read)"

text \<open>A bound driver between two commands.\<close>

definition msc_idle :: "MSC_HandleTypeDef \<Rightarrow> host \<Rightarrow> bus \<Rightarrow> bool" where
  "msc_idle m h b \<longleftrightarrow> msc_handle h b = Some m \<and> pData h \<and> unat (msc_InPipe m) < length (hc b) \<and>
     unat (msc_OutPipe m) < length (hc b) \<and> msc_InEpSize m \<noteq> 0 \<and> msc_OutEpSize m \<noteq> 0 \<and>
     cmd_state (hbot m) = BOT_CMD_SEND \<and> length (CB (cbw (hbot m))) = CBW_CB_LENGTH"

definition cmd_ready :: "u32 \<Rightarrow> u8 \<Rightarrow> u8 list \<Rightarrow> MSC_HandleTypeDef \<Rightarrow> MSC_HandleTypeDef" where
  "cmd_ready len flags cb = upd_bot (\<lambda>t. t\<lparr>cbw := (cbw t)\<lparr>DataTransferLength := len, cbw_Flags := flags,
     CBLength := CBW_LENGTH, CB := cb\<rparr>, bot_state := BOT_SEND_CBW, cmd_state := BOT_CMD_WAIT\<rparr>)"

lemma scsi_send_ready:
  "fill_cb n sets (CB (cbw (hbot m))) = Some cb \<Longrightarrow> scsi_send len flags n sets m = Some (cmd_ready len flags cb m)"
  by (simp add: scsi_send_def cmd_ready_def)

text \<open>A started command, with the data where the command said.\<close>

lemma cmd_started:
  assumes "msc_idle m h b" "flags \<in> {DIR_IN, DIR_OUT}"
    and m1_def: "m1 = set_pbuf p (cmd_ready len flags cb m)"
  shows "bot_ok m1 h (put_msc m1 b)" "bot_shape m1" "hears m1 (put_msc m1 b)" "\<not> waiting m1" "is_in m1 \<longleftrightarrow> flags = DIR_IN"
    "data_left m1 = unat len" "bot_pbuf (hbot m1) = p" "cbw_Tag (cbw (hbot m1)) = cbw_Tag (cbw (hbot m))"
    "pkt_size m1 = (if flags = DIR_IN then msc_InEpSize m else msc_OutEpSize m)"
    "msc_InPipe m1 = msc_InPipe m" "msc_OutPipe m1 = msc_OutPipe m" "in_cbw m1" "unit_luns m1 = unit_luns m"
    "polls_left m1 = 4 + (if len = 0 then 0 else Suc (npkts m1))"
proof -
  have mh: "msc_handle h b = Some m" using assms(1) by (simp add: msc_idle_def)
  show "bot_ok m1 h (put_msc m1 b)"
    using assms(1) msc_handle_frame [OF mh, of "put_msc m1 b" m1]
    by (simp add: bot_ok_def msc_idle_def m1_def set_pbuf_def cmd_ready_def)
  show "is_in m1 \<longleftrightarrow> flags = DIR_IN" using assms(2) by (auto simp: m1_def set_pbuf_def cmd_ready_def is_in_def)
  then show "pkt_size m1 = (if flags = DIR_IN then msc_InEpSize m else msc_OutEpSize m)"
    by (simp add: pkt_size_def m1_def set_pbuf_def cmd_ready_def)
  show "polls_left m1 = 4 + (if len = 0 then 0 else Suc (npkts m1))"
    by (simp add: polls_left_def m1_def set_pbuf_def cmd_ready_def data_left_def unat_eq_zero)
qed (simp_all add: m1_def set_pbuf_def cmd_ready_def bot_shape_def hears_def waiting_def data_left_def in_cbw_def)

lemma rw_cb_bytes:
  "length cb = 16 \<Longrightarrow> fill_cb CBW_CB_LENGTH (rw_cb opcode address len) cb =
     Some ([opcode, 0] @ rev (le32_bytes address) @ [0, ucast (drop_bit 8 len), ucast len, 0, 0, 0, 0, 0, 0, 0])"
  by (simp add: fill_cb_def rw_cb_def le32_bytes_def numeral_eq_Suc)

lemma rw_start:
  assumes "msc_idle m h b"
    and m1_def: "m1 = set_pbuf p (cmd_ready (len * 512) (if out then DIR_OUT else DIR_IN) ([if out then 0x2A else 0x28, 0] @
      rev (le32_bytes address) @ [0, ucast (drop_bit 8 len), ucast len, 0, 0, 0, 0, 0, 0, 0]) m)"
  shows "scsi_rw out lun address p len h b = Some (USBH_BUSY, h, put_msc m1 b)"
proof -
  have c: "length (CB (cbw (hbot m))) = 16" "msc_handle h b = Some m" "cmd_state (hbot m) = BOT_CMD_SEND"
    using assms(1) by (simp_all add: msc_idle_def)
  then show ?thesis
    by (simp add: scsi_rw_def USBH_MSC_SCSI_Write_def USBH_MSC_SCSI_Read_def scsi_cmd_def m1_def
        scsi_send_ready [OF rw_cb_bytes [OF c(1)]])
qed

lemma on_msc_id: "msc_handle h b = Some m \<Longrightarrow> on_msc Some h b = Some b"
  by (auto simp: on_msc_def put_msc_def msc_handle_def split: if_splits)

text \<open>Every command from its start: what goes over the bus, and the state it leaves.\<close>

lemma command_runs:
  assumes idle: "msc_idle m h b" and fl: "flags \<in> {DIR_IN, DIR_OUT}"
    and m1: "m1 = set_pbuf p (cmd_ready len flags cb m)"
    and sz: "sz = (if flags = DIR_IN then msc_InEpSize m else msc_OutEpSize m)" "k = (unat len + unat sz - 1) div unat sz"
    and left: "4 + (if len = 0 then 0 else Suc k) + naks tape \<le> dones tape"
  shows "\<exists>n d w m' b' sent r. Answered n d w \<in> set tape \<and>
     drive (scsi_cmd idle_status send fin lun) tape h (put_msc m1 b) =
       (if decode_csw n (cbw_Tag (cbw (hbot m))) w = BOT_CSW_CMD_PASSED
        then map_option (\<lambda>b. (USBH_OK, h, b)) (on_msc fin h b') else Some (USBH_FAIL, h, b')) \<and>
     msc_handle h b' = Some m' \<and> bot_data (hbot m') = d \<and> bot_pbuf (hbot m') = buf_at p ((k - 1) * unat sz) \<and>
     unit_luns m' = unit_luns m \<and> cmd_state (hbot m') = BOT_CMD_SEND \<and>
     xfers b' = xfers b @ sent \<and> r \<le> naks tape \<and>
     resent r ([(msc_OutPipe m, 0, False, Cbw_buf, 31)] @
       map (\<lambda>i. (if flags = DIR_IN then msc_InPipe m else msc_OutPipe m, if flags = DIR_IN then 1 else 0, False,
         buf_at p (i * unat sz), ucast sz)) [0..<k] @ [(msc_InPipe m, 1, False, Csw_buf, 13)]) sent"
proof -
  note st = cmd_started [OF idle fl m1]
  have np: "npkts m1 = k" by (simp add: npkts_def st sz)
  then have "polls_left m1 + naks tape \<le> dones tape" using left st(14) by (simp split: if_splits)
  from drive_cmd [OF st(1-3) this, of idle_status send fin lun] obtain s m' b' sent r where
    e: "cmd_ends tape m1 h (put_msc m1 b) s m' b' sent r"
    and d: "drive (scsi_cmd idle_status send fin lun) tape h (put_msc m1 b) =
      do { b \<leftarrow> (if s = USBH_OK then on_msc fin h b' else Some b'); Some (s, h, b) }" by blast
  from e obtain n dat w where a: "Answered n dat w \<in> set tape" "s = verdict n m'" "csw (hbot m') = w" "bot_data (hbot m') = dat"
    and o: "msc_handle h b' = Some m'" "same_cmd m1 m'" "cmd_state (hbot m') = BOT_CMD_SEND" "xfers b' = xfers b @ sent"
      "resent r (todo_cmd m1) sent" "bot_pbuf (hbot m') = last_buf m1" "r \<le> naks tape"
    unfolding cmd_ends_def by (simp add: st(4)) blast
  have t: "todo_cmd m1 = [(msc_OutPipe m, 0, False, Cbw_buf, 31)] @
       map (\<lambda>i. (if flags = DIR_IN then msc_InPipe m else msc_OutPipe m, if flags = DIR_IN then 1 else 0, False,
         buf_at p (i * unat sz), ucast sz)) [0..<k] @ [(msc_InPipe m, 1, False, Csw_buf, 13)]"
    by (simp add: todo_cmd_def cbw_xfer_def csw_xfer_def data_xfers_def np st sz(1))
  have s: "s = (if decode_csw n (cbw_Tag (cbw (hbot m))) w = BOT_CSW_CMD_PASSED then USBH_OK else USBH_FAIL)"
    using a(2,3) same_cmd_fields(7) [OF o(2)] by (simp add: verdict_def st)
  have p': "bot_pbuf (hbot m') = buf_at p ((k - 1) * unat sz)" using o(6) by (simp add: last_buf_def np st sz(1))
  have u': "unit_luns m' = unit_luns m" using same_cmd_fields(5) [OF o(2)] by (simp add: st)
  have d': "do { b \<leftarrow> (if s = USBH_OK then on_msc fin h b' else Some b'); Some (s, h, b) } =
      (if decode_csw n (cbw_Tag (cbw (hbot m))) w = BOT_CSW_CMD_PASSED
       then map_option (\<lambda>b. (USBH_OK, h, b)) (on_msc fin h b') else Some (USBH_FAIL, h, b'))"
    by (cases "on_msc fin h b'") (simp_all add: s)
  show ?thesis by (intro exI conjI) (rule a(1) trans [OF d d'] o(1) a(4) p' u' o(3) o(4) o(7) o(5) [unfolded t])+
qed

text \<open>A status wrapper that passes: 13 bytes, its signature, the tag of the command and status 0.\<close>

lemma csw_passes:
  "decode_csw n tag w = BOT_CSW_CMD_PASSED \<longleftrightarrow> n = 13 \<and> le32_at w 0 = 0x53425355 \<and> le32_at w 4 = tag \<and> w ! 12 = 0"
  by (simp add: decode_csw_def csw_Signature_def csw_Tag_def csw_Status_def)

text \<open>
  C8: a READ(10) or WRITE(10) of \<open>len\<close> blocks puts on the bus the command wrapper, the data as packets of
  the endpoint's size from consecutive places of the buffer, and the status, in this order; a packet
  the device does not take is sent once more and nothing else is. It ends after as many answers as
  there are transfers (and one extra per refusal), with success exactly if the status wrapper has its 13
  bytes and signature, the tag of the command and the status byte 0.
\<close>

theorem block_transfer:
  assumes "msc_idle m h b" "sz = (if out then msc_OutEpSize m else msc_InEpSize m)"
    and "k = (unat (len * 512) + unat sz - 1) div unat sz" "4 + (if len * 512 = 0 then 0 else Suc k) + naks tape \<le> dones tape"
  shows "\<exists>b1 n d w b' sent r. scsi_rw out lun address p len h b = Some (USBH_BUSY, h, b1) \<and> Answered n d w \<in> set tape \<and>
     drive (scsi_rw out lun 0 NULL_buf 0) tape h b1 =
       Some (if n = 13 \<and> le32_at w 0 = 0x53425355 \<and> le32_at w 4 = cbw_Tag (cbw (hbot m)) \<and> w ! 12 = 0
         then USBH_OK else USBH_FAIL, h, b') \<and>
     xfers b' = xfers b @ sent \<and> r \<le> naks tape \<and>
     resent r ([(msc_OutPipe m, 0, False, Cbw_buf, 31)] @
       map (\<lambda>i. (if out then msc_OutPipe m else msc_InPipe m, if out then 0 else 1, False,
         buf_at p (i * unat sz), ucast sz)) [0..<k] @ [(msc_InPipe m, 1, False, Csw_buf, 13)]) sent"
proof -
  define fl where "fl = (if out then DIR_OUT else DIR_IN)"
  have f: "fl \<in> {DIR_IN, DIR_OUT}" "(fl = DIR_IN) = (\<not> out)" by (simp_all add: fl_def)
  define cb where "cb = [if out then 0x2A else 0x28, 0] @ rev (le32_bytes address) @
      [0, ucast (drop_bit 8 len), ucast len, 0, 0, 0, 0, 0, 0, 0 :: u8]"
  let ?m = "set_pbuf p (cmd_ready (len * 512) fl cb m)"
  have s: "scsi_rw out lun address p len h b = Some (USBH_BUSY, h, put_msc ?m b)"
    using rw_start [OF assms(1) refl, of out lun address p len] by (simp only: fl_def cb_def)
  obtain send where rw: "scsi_rw out lun 0 NULL_buf 0 = scsi_cmd USBH_FAIL send Some lun"
    by (cases out) (auto simp: scsi_rw_def USBH_MSC_SCSI_Write_def USBH_MSC_SCSI_Read_def)
  have sz: "sz = (if fl = DIR_IN then msc_InEpSize m else msc_OutEpSize m)" using assms(2) f(2) by simp
  from command_runs [OF assms(1) f(1) refl sz assms(3,4), where p = p and cb = cb and idle_status = USBH_FAIL
      and send = send and fin = Some and lun = lun, unfolded f(2), folded rw] obtain n d w m' b' sent r where
    a: "Answered n d w \<in> set tape" and o: "msc_handle h b' = Some m'" "xfers b' = xfers b @ sent" "r \<le> naks tape"
      "resent r ([(msc_OutPipe m, 0, False, Cbw_buf, 31)] @
         map (\<lambda>i. (if \<not> out then msc_InPipe m else msc_OutPipe m, if \<not> out then 1 else 0, False,
           buf_at p (i * unat sz), ucast sz)) [0..<k] @ [(msc_InPipe m, 1, False, Csw_buf, 13)]) sent"
      and dr: "drive (scsi_rw out lun 0 NULL_buf 0) tape h (put_msc ?m b) =
         (if decode_csw n (cbw_Tag (cbw (hbot m))) w = BOT_CSW_CMD_PASSED
          then map_option (\<lambda>b. (USBH_OK, h, b)) (on_msc Some h b') else Some (USBH_FAIL, h, b'))"
    by (elim exE conjE) (rule that, assumption+)
  have d: "drive (scsi_rw out lun 0 NULL_buf 0) tape h (put_msc ?m b) =
      Some (if n = 13 \<and> le32_at w 0 = 0x53425355 \<and> le32_at w 4 = cbw_Tag (cbw (hbot m)) \<and> w ! 12 = 0 then USBH_OK else USBH_FAIL, h, b')"
    unfolding dr on_msc_id [OF o(1)] csw_passes by simp
  have "resent r ([(msc_OutPipe m, 0, False, Cbw_buf, 31)] @
       map (\<lambda>i. (if out then msc_OutPipe m else msc_InPipe m, if out then 0 else 1, False,
         buf_at p (i * unat sz), ucast sz)) [0..<k] @ [(msc_InPipe m, 1, False, Csw_buf, 13)]) sent"
    using o(4) by (cases out) simp_all
  then show ?thesis by (intro exI conjI) (rule s a d o(2,3) | assumption)+
qed

definition good_csw :: "u8 list" where
  "good_csw = le32_bytes BOT_CSW_SIGNATURE @ le32_bytes BOT_CBW_TAG @ [0, 0, 0, 0, 0, 0, 0, 0]"

definition sample_msc :: MSC_HandleTypeDef where
  "sample_msc = (USBH_MSC_BOT_Init zero_msc)\<lparr>max_lun := 1, msc_InPipe := 3, msc_OutPipe := 2, msc_OutEp := 0x01,
     msc_InEp := 0x82, msc_OutEpSize := 64, msc_InEpSize := 64, msc_state := MSC_IDLE\<rparr>"

definition sample_disk :: host where
  "sample_disk = sample_host\<lparr>pActiveClass := Some MSC_Class, gState := HOST_CLASS\<rparr>"

definition sample_disk_bus :: "MSC_HandleTypeDef \<Rightarrow> bus" where
  "sample_disk_bus m = sample_bus\<lparr>msc_ptr := True, msc_mem := m\<rparr>"

lemma sample_idle: "msc_idle sample_msc sample_disk (sample_disk_bus sample_msc)"
  by (simp add: msc_idle_def sample_msc_def sample_disk_def sample_disk_bus_def msc_handle_def sample_host_def sample_bus_def
      zero_bus_def USBH_MSC_BOT_Init_def zero_msc_def zero_bot_def)

lemma good_csw_passed: "decode_csw 13 (cbw_Tag (cbw (hbot sample_msc))) good_csw = BOT_CSW_CMD_PASSED"
  by (simp add: decode_csw_def sample_msc_def USBH_MSC_BOT_Init_def good_csw_def csw_Signature_def csw_Tag_def csw_Status_def
      le32_at_def le32_bytes_def)

lemma block_transfer_witness:
  "\<exists>b1 b' sent r. scsi_rw True 0 5 (Mem 0x20000000) 1 sample_disk (sample_disk_bus sample_msc) = Some (USBH_BUSY, sample_disk, b1) \<and>
     drive (scsi_rw True 0 0 NULL_buf 0) (Nak # Quiet # replicate 14 (Answered 13 [] good_csw)) sample_disk b1 =
       Some (USBH_OK, sample_disk, b') \<and>
     xfers b' = xfers (sample_disk_bus sample_msc) @ sent \<and>
     resent r ([(2, 0, False, Cbw_buf, 31)] @ map (\<lambda>i. (2, 0, False, buf_at (Mem 0x20000000) (i * 64), 64)) [0..<8] @
       [(3, 1, False, Csw_buf, 13)]) sent"
proof -
  have m: "msc_OutEpSize sample_msc = 64" "msc_InPipe sample_msc = 3" "msc_OutPipe sample_msc = 2"
    by (simp_all add: sample_msc_def)
  let ?tape = "Nak # Quiet # replicate 14 (Answered 13 [] good_csw)"
  have "4 + (if (1 :: u32) * 512 = 0 then 0 else Suc 8) + naks ?tape \<le> dones ?tape" by simp
  from block_transfer [OF sample_idle, of 64 True 8 1 ?tape 0 5 "Mem 0x20000000", unfolded if_True] this m
  obtain b1 n d w b' sent r where
    "scsi_rw True 0 5 (Mem 0x20000000) 1 sample_disk (sample_disk_bus sample_msc) = Some (USBH_BUSY, sample_disk, b1)"
    and a: "Answered n d w \<in> set ?tape"
    and "drive (scsi_rw True 0 0 NULL_buf 0) ?tape sample_disk b1 =
       Some (if n = 13 \<and> le32_at w 0 = 0x53425355 \<and> le32_at w 4 = cbw_Tag (cbw (hbot sample_msc)) \<and> w ! 12 = 0 then USBH_OK else USBH_FAIL, sample_disk, b')"
    and "xfers b' = xfers (sample_disk_bus sample_msc) @ sent"
    and "resent r ([(2, 0, False, Cbw_buf, 31)] @ map (\<lambda>i. (2, 0, False, buf_at (Mem 0x20000000) (i * unat (64 :: u16)), ucast (64 :: u16))) [0..<8] @
       [(3, 1, False, Csw_buf, 13)]) sent"
    by auto
  moreover from a have "n = 13" "w = good_csw" by auto
  ultimately show ?thesis using good_csw_passed [unfolded csw_passes] by (intro exI conjI) (assumption | simp)+
qed

end
