(* ===== verification/MscCommands.thy ===== *)
theory MscCommands
  imports MscTransfer
begin

text \<open>
  The commands of the mass-storage driver above its transport: the bytes of a read or write wrapper, the
  status a wrapper of the device is given, what the driver learns of a unit, the tables it indexes, and
  where the code does not do what it means to.
\<close>

subsection \<open>Wrappers\<close>

text \<open>
  C36: what a READ(10) or WRITE(10) puts on the bus first are the 31 bytes of a command block wrapper:
  the signature USBC, the tag, the length in bytes, the direction, the unit, a ten byte command with its
  address high byte first and the low 16 bits of the number of blocks.
\<close>

theorem rw_wrapper:
  assumes "msc_idle m h b" "cbw_Signature (cbw (hbot m)) = BOT_CBW_SIGNATURE" "cbw_Tag (cbw (hbot m)) = BOT_CBW_TAG"
  shows "\<exists>b1 b2 m2. scsi_rw out lun address p len h b = Some (USBH_BUSY, h, b1) \<and>
     scsi_rw out lun 0 NULL_buf 0 h b1 = Some (USBH_BUSY, h, b2) \<and>
     xfers b2 = xfers b @ [(msc_OutPipe m, 0, False, Cbw_buf, 31)] \<and> msc_handle h b2 = Some m2 \<and>
     cbw_data (cbw (hbot m2)) = [0x55, 0x53, 0x42, 0x43, 0x50, 0x40, 0x30, 0x20] @ le32_bytes (len * 512) @
       [if out then 0x00 else 0x80, lun, 10, if out then 0x2A else 0x28, 0] @ rev (le32_bytes address) @
       [0, ucast (drop_bit 8 len), ucast len, 0, 0, 0, 0, 0, 0, 0] \<and>
     length (cbw_data (cbw (hbot m2))) = 31"
proof -
  define fl where "fl = (if out then DIR_OUT else DIR_IN)"
  define cb where "cb = [if out then 0x2A else 0x28, 0] @ rev (le32_bytes address) @
      [0, ucast (drop_bit 8 len), ucast len, 0, 0, 0, 0, 0, 0, 0 :: u8]"
  let ?m = "set_pbuf p (cmd_ready (len * 512) fl cb m)"
  have mh: "msc_handle h b = Some m" and d: "pData h" "unat (msc_OutPipe m) < length (hc b)"
    using assms(1) by (simp_all add: msc_idle_def)
  have s: "scsi_rw out lun address p len h b = Some (USBH_BUSY, h, put_msc ?m b)"
    using rw_start [OF assms(1) refl, of out lun address p len] by (simp only: fl_def cb_def)
  obtain send where rw: "scsi_rw out lun 0 NULL_buf 0 = scsi_cmd USBH_FAIL send Some lun"
    by (cases out) (auto simp: scsi_rw_def USBH_MSC_SCSI_Write_def USBH_MSC_SCSI_Read_def)
  let ?m2 = "set_bot BOT_SEND_CBW_WAIT (upd_bot (\<lambda>t. t\<lparr>cbw := (cbw t)\<lparr>cbw_LUN := lun\<rparr>\<rparr>) ?m)"
  let ?b2 = "submitted (msc_OutPipe m) 0 EP_TYPE_BULK 1 Cbw_buf BOT_CBW_LENGTH
      (if speed (device h) = USBH_SPEED_HIGH then 1 else 0) (put_msc ?m2 (put_msc ?m b))"
  have mh1: "msc_handle h (put_msc ?m b) = Some ?m" using msc_handle_frame [OF mh, of "put_msc ?m b"] by simp
  have p: "USBH_MSC_BOT_Process lun h (put_msc ?m b) = Some (USBH_BUSY, h, ?b2)"
    using mh1 d by (simp add: USBH_MSC_BOT_Process_def bot_send_cbw_def set_pbuf_def cmd_ready_def Let_def mem_simps)
  have "scsi_rw out lun 0 NULL_buf 0 h (put_msc ?m b) = Some (USBH_BUSY, h, ?b2)"
    unfolding rw using scsi_cmd_wait [OF mh1, of USBH_FAIL send Some lun] p by (simp add: set_pbuf_def cmd_ready_def)
  moreover have "msc_handle h ?b2 = Some ?m2" using msc_handle_frame [OF mh, of ?b2] by simp
  moreover have "xfers ?b2 = xfers b @ [(msc_OutPipe m, 0, False, Cbw_buf, 31)]" by (simp add: xfers_bulk)
  moreover have "cbw_data (cbw (hbot ?m2)) = [0x55, 0x53, 0x42, 0x43, 0x50, 0x40, 0x30, 0x20] @ le32_bytes (len * 512) @
       [if out then 0x00 else 0x80, lun, 10, if out then 0x2A else 0x28, 0] @ rev (le32_bytes address) @
       [0, ucast (drop_bit 8 len), ucast len, 0, 0, 0, 0, 0, 0, 0]"
    using assms(2,3) by (simp add: cbw_data_def set_pbuf_def cmd_ready_def fl_def cb_def) (simp add: le32_bytes_def)
  moreover from this have "length (cbw_data (cbw (hbot ?m2))) = 31" by (simp add: le32_bytes_def)
  ultimately show ?thesis using s by (intro exI conjI)
qed

lemma rw_wrapper_witness:
  "\<exists>b1 b2 m2. scsi_rw False 1 0x01020304 (Mem 0) 3 sample_disk (sample_disk_bus sample_msc) = Some (USBH_BUSY, sample_disk, b1) \<and>
     scsi_rw False 1 0 NULL_buf 0 sample_disk b1 = Some (USBH_BUSY, sample_disk, b2) \<and> msc_handle sample_disk b2 = Some m2 \<and>
     cbw_data (cbw (hbot m2)) = [0x55, 0x53, 0x42, 0x43, 0x50, 0x40, 0x30, 0x20, 0, 6, 0, 0, 0x80, 1, 10,
       0x28, 0, 1, 2, 3, 4, 0, 0, 3, 0, 0, 0, 0, 0, 0, 0]"
  using rw_wrapper [OF sample_idle, where out = False and lun = 1 and address = "0x01020304" and p = "Mem 0" and len = 3]
  by (auto simp: sample_msc_def USBH_MSC_BOT_Init_def le32_bytes_def)

subsection \<open>What a unit says of itself\<close>

text \<open>The parts of the device's buffers have their sizes.\<close>

definition full_data :: "answer list \<Rightarrow> bool" where
  "full_data tape \<longleftrightarrow> list_all (\<lambda>a. case a of Answered n d w \<Rightarrow> length d = 64 | _ \<Rightarrow> True) tape"

lemma full_data_length: "full_data tape \<Longrightarrow> Answered n d w \<in> set tape \<Longrightarrow> length d = 64"
  by (auto simp: full_data_def list_all_iff)

text \<open>
  A command that reads into the transport handle's own buffer: the status, and what the code then
  reads behind its data pointer.
\<close>

lemma in_command_runs:
  assumes idle: "msc_idle m h b" and m1: "m1 = set_pbuf Bot_buf (cmd_ready len DIR_IN cb m)"
    and k: "k = (unat len + unat (msc_InEpSize m) - 1) div unat (msc_InEpSize m)"
    and left: "4 + (if len = 0 then 0 else Suc k) + naks tape \<le> dones tape"
  shows "\<exists>n d w m' b'. Answered n d w \<in> set tape \<and> msc_handle h b' = Some m' \<and> bot_data (hbot m') = d \<and>
     bot_pbuf (hbot m') = buf_at Bot_buf ((k - 1) * unat (msc_InEpSize m)) \<and> unit_luns m' = unit_luns m \<and>
     drive (scsi_cmd idle_status send fin lun) tape h (put_msc m1 b) =
       (if decode_csw n (cbw_Tag (cbw (hbot m))) w = BOT_CSW_CMD_PASSED
        then map_option (\<lambda>m'. (USBH_OK, h, put_msc m' b')) (fin m') else Some (USBH_FAIL, h, b'))"
proof -
  have sz: "msc_InEpSize m = (if DIR_IN = DIR_IN then msc_InEpSize m else msc_OutEpSize m)" "DIR_IN \<in> {DIR_IN, DIR_OUT}"
    by simp_all
  from command_runs [OF idle sz(2) m1 sz(1) k left, of idle_status send fin lun] obtain n d w m' b' where
    r: "Answered n d w \<in> set tape" "msc_handle h b' = Some m'" "bot_data (hbot m') = d"
      "bot_pbuf (hbot m') = buf_at Bot_buf ((k - 1) * unat (msc_InEpSize m))" "unit_luns m' = unit_luns m"
    and d: "drive (scsi_cmd idle_status send fin lun) tape h (put_msc m1 b) =
       (if decode_csw n (cbw_Tag (cbw (hbot m))) w = BOT_CSW_CMD_PASSED
        then map_option (\<lambda>b. (USBH_OK, h, b)) (on_msc fin h b') else Some (USBH_FAIL, h, b'))"
    by (elim exE conjE) (rule that, assumption+)
  have "map_option (\<lambda>b. (USBH_OK, h, b)) (on_msc fin h b') = map_option (\<lambda>m'. (USBH_OK, h, put_msc m' b')) (fin m')"
    using r(2) by (cases "fin m'") (simp_all add: on_msc_def)
  with d r show ?thesis by (intro exI conjI) (assumption | simp only:)+
qed

lemma one_packet: "0 < n \<Longrightarrow> n \<le> z \<Longrightarrow> (n + z - 1) div z = (1 :: nat)"
  by (rule div_nat_eqI) simp_all

text \<open>The first poll of such a command.\<close>

lemma read_start:
  assumes "msc_idle m h b" "fill_cb n sets (CB (cbw (hbot m))) \<noteq> None"
  shows "\<exists>cb. scsi_cmd idle_status (\<lambda>m. map_option (set_pbuf Bot_buf) (scsi_send len DIR_IN n sets m)) fin lun h b =
     Some (USBH_BUSY, h, put_msc (set_pbuf Bot_buf (cmd_ready len DIR_IN cb m)) b)"
proof -
  obtain cb where "fill_cb n sets (CB (cbw (hbot m))) = Some cb" using assms(2) by auto
  with assms(1) show ?thesis by (auto simp: msc_idle_def scsi_cmd_def scsi_send_ready)
qed

lemma inquiry_start:
  assumes "msc_idle m h b"
  shows "\<exists>cb. USBH_MSC_SCSI_Inquiry i lun h b = Some (USBH_BUSY, h, put_msc (set_pbuf Bot_buf (cmd_ready 36 DIR_IN cb m)) b)"
  unfolding USBH_MSC_SCSI_Inquiry_def
  by (rule read_start [OF assms]) (use assms in \<open>simp add: msc_idle_def fill_cb_def\<close>)

lemma inquiry_scsi: "\<exists>send. USBH_MSC_SCSI_Inquiry i lun = scsi_cmd USBH_FAIL send (read_inquiry i) lun"
  by (auto simp: USBH_MSC_SCSI_Inquiry_def)

lemma be32_bits:
  fixes v :: u32
  shows "ucast (ucast v :: u8) OR push_bit 8 (ucast (ucast (drop_bit 8 v) :: u8)) OR
     push_bit 16 (ucast (ucast (drop_bit 16 v) :: u8)) OR push_bit 24 (ucast (ucast (drop_bit 24 v) :: u8)) = v" (is "?w = v")
proof (rule bit_word_eqI)
  fix n assume "n < LENGTH(32)"
  then consider "n < 8" | "8 \<le> n" "n < 16" | "16 \<le> n" "n < 24" | "24 \<le> n" "n < 32" by force
  then show "bit ?w n = bit v n" by cases (auto simp: bit_simps)
qed

lemma be16_bits: "ucast (ucast v :: u8) OR push_bit 8 (ucast (ucast (drop_bit 8 v) :: u8)) = (ucast (v :: u32) :: u16)"
  by (rule bit_word_eqI) (auto simp: bit_simps)

text \<open>
  An INQUIRY over an endpoint of at least 36 bytes stores the unit's type, whether it is removable,
  and its three names as NUL terminated strings, and changes no other unit; if the status reports a
  failure it stores nothing.
\<close>

theorem inquiry_result:
  assumes "msc_idle m h b" "i < length (unit_luns m)" "36 \<le> msc_InEpSize m" "full_data tape" "6 + naks tape \<le> dones tape"
  shows "\<exists>b1 n d w m' b'. USBH_MSC_SCSI_Inquiry i lun h b = Some (USBH_BUSY, h, b1) \<and> Answered n d w \<in> set tape \<and>
     msc_handle h b' = Some m' \<and>
     (if decode_csw n (cbw_Tag (cbw (hbot m))) w = BOT_CSW_CMD_PASSED
      then drive (USBH_MSC_SCSI_Inquiry i lun) tape h b1 = Some (USBH_OK, h, b') \<and>
        unit_luns m' = (unit_luns m)[i := (unit_luns m ! i)\<lparr>inquiry := \<lparr>PeripheralQualifier = drop_bit 5 (d ! 0),
          DeviceType = d ! 0 AND 0x1F, RemovableMedia = (if d ! 1 AND 0x80 = 0x80 then 1 else 0),
          vendor_id = take 8 (drop 8 d) @ [0], product_id = take 16 (drop 16 d) @ [0],
          revision_id = take 4 (drop 32 d) @ [0]\<rparr>\<rparr>]
      else drive (USBH_MSC_SCSI_Inquiry i lun) tape h b1 = Some (USBH_FAIL, h, b') \<and> unit_luns m' = unit_luns m)"
proof -
  obtain cb where s: "USBH_MSC_SCSI_Inquiry i lun h b = Some (USBH_BUSY, h, put_msc (set_pbuf Bot_buf (cmd_ready 36 DIR_IN cb m)) b)"
    using inquiry_start [OF assms(1)] by blast
  let ?m1 = "set_pbuf Bot_buf (cmd_ready 36 DIR_IN cb m)"
  obtain send where inq: "USBH_MSC_SCSI_Inquiry i lun = scsi_cmd USBH_FAIL send (read_inquiry i) lun"
    using inquiry_scsi by blast
  have z: "36 \<le> unat (msc_InEpSize m)" using assms(3) by (simp add: word_le_nat_alt)
  then have k: "1 = (unat (36 :: u32) + unat (msc_InEpSize m) - 1) div unat (msc_InEpSize m)"
    by (intro one_packet [symmetric]) simp_all
  have "4 + (if (36 :: u32) = 0 then 0 else Suc 1) + naks tape \<le> dones tape" using assms(5) by simp
  from in_command_runs [OF assms(1) refl k this, where cb = cb and idle_status = USBH_FAIL and send = send
      and fin = "read_inquiry i" and lun = lun, folded inq] obtain n d w m' b' where
    a: "Answered n d w \<in> set tape" and mh: "msc_handle h b' = Some m'" and d: "bot_data (hbot m') = d"
      "bot_pbuf (hbot m') = Bot_buf" and u: "unit_luns m' = unit_luns m"
    and dr: "drive (USBH_MSC_SCSI_Inquiry i lun) tape h (put_msc ?m1 b) =
       (if decode_csw n (cbw_Tag (cbw (hbot m))) w = BOT_CSW_CMD_PASSED
        then map_option (\<lambda>m'. (USBH_OK, h, put_msc m' b')) (read_inquiry i m') else Some (USBH_FAIL, h, b'))"
    by (auto simp: buf_at_def)
  have l: "length d = 64" using full_data_length [OF assms(4) a] .
  show ?thesis
  proof (cases "decode_csw n (cbw_Tag (cbw (hbot m))) w = BOT_CSW_CMD_PASSED")
    case True
    let ?u = "(unit_luns m ! i)\<lparr>inquiry := \<lparr>PeripheralQualifier = drop_bit 5 (d ! 0),
          DeviceType = d ! 0 AND 0x1F, RemovableMedia = (if d ! 1 AND 0x80 = 0x80 then 1 else 0),
          vendor_id = take 8 (drop 8 d) @ [0], product_id = take 16 (drop 16 d) @ [0],
          revision_id = take 4 (drop 32 d) @ [0]\<rparr>\<rparr>"
    have r: "read_inquiry i m' = Some (m'\<lparr>unit_luns := (unit_luns m)[i := ?u]\<rparr>)"
      using d l u assms(2) by (simp add: read_inquiry_def bot_rd_def bot_bytes_def upd_unit_def mem_simps)
    have "msc_handle h (put_msc (m'\<lparr>unit_luns := (unit_luns m)[i := ?u]\<rparr>) b') = Some (m'\<lparr>unit_luns := (unit_luns m)[i := ?u]\<rparr>)"
      using mh by simp
    moreover have "drive (USBH_MSC_SCSI_Inquiry i lun) tape h (put_msc ?m1 b) =
        Some (USBH_OK, h, put_msc (m'\<lparr>unit_luns := (unit_luns m)[i := ?u]\<rparr>) b')" using dr True r by simp
    ultimately show ?thesis using s a True by (intro exI conjI) (assumption | simp)+
  next
    case False
    then show ?thesis using s a mh u dr by (intro exI conjI) (assumption | simp)+
  qed
qed

definition disk_data :: "u8 list" where
  "disk_data = [0, 0x80, 4, 2, 31, 0, 0, 0] @ map (\<lambda>c. of_char c) ''GenericUSB Flash Disk  2.00'' @ replicate 29 0"

lemma disk_tape: "full_data (replicate k (Answered n disk_data w))" "Answered n' d' w' \<in> set (replicate k (Answered n disk_data w)) \<Longrightarrow>
    n' = n \<and> d' = disk_data \<and> w' = w"
  by (auto simp: full_data_def disk_data_def list_all_iff)

definition sample_units :: "u16 \<Rightarrow> MSC_HandleTypeDef" where
  "sample_units sz = sample_msc\<lparr>msc_InEpSize := sz\<rparr>"

lemma sample_units_idle: "sz \<noteq> 0 \<Longrightarrow> msc_idle (sample_units sz) sample_disk (sample_disk_bus (sample_units sz))"
  using sample_idle by (simp add: msc_idle_def sample_units_def msc_handle_def sample_disk_bus_def sample_disk_def)

lemma sample_units_fields: "length (unit_luns (sample_units sz)) = 2" "cbw_Tag (cbw (hbot (sample_units sz))) = cbw_Tag (cbw (hbot sample_msc))"
  "msc_InEpSize (sample_units sz) = sz"
  by (simp_all add: sample_units_def sample_msc_def USBH_MSC_BOT_Init_def zero_msc_def)

lemma inquiry_result_witness:
  "\<exists>b1 m' b'. USBH_MSC_SCSI_Inquiry 0 0 sample_disk (sample_disk_bus (sample_units 64)) = Some (USBH_BUSY, sample_disk, b1) \<and>
     drive (USBH_MSC_SCSI_Inquiry 0 0) (replicate 6 (Answered 13 disk_data good_csw)) sample_disk b1 = Some (USBH_OK, sample_disk, b') \<and>
     msc_handle sample_disk b' = Some m' \<and> RemovableMedia (inquiry (unit_luns m' ! 0)) = 1"
proof -
  let ?tape = "replicate 6 (Answered 13 disk_data good_csw)"
  have e: "6 + naks ?tape \<le> dones ?tape" "36 \<le> msc_InEpSize (sample_units 64)"
    by (simp_all add: sample_units_fields)
  have i: "0 < length (unit_luns (sample_units 64))" by (simp add: sample_units_fields)
  have si: "msc_idle (sample_units 64) sample_disk (sample_disk_bus (sample_units 64))" by (rule sample_units_idle) simp
  from inquiry_result [OF si i e(2) disk_tape(1) e(1), of 0] obtain b1 n d w m' b' where
    r: "USBH_MSC_SCSI_Inquiry 0 0 sample_disk (sample_disk_bus (sample_units 64)) = Some (USBH_BUSY, sample_disk, b1)"
    "Answered n d w \<in> set ?tape" "msc_handle sample_disk b' = Some m'"
    and c: "if decode_csw n (cbw_Tag (cbw (hbot (sample_units 64)))) w = BOT_CSW_CMD_PASSED
      then drive (USBH_MSC_SCSI_Inquiry 0 0) ?tape sample_disk b1 = Some (USBH_OK, sample_disk, b') \<and>
        unit_luns m' = (unit_luns (sample_units 64))[0 := (unit_luns (sample_units 64) ! 0)\<lparr>inquiry := \<lparr>PeripheralQualifier = drop_bit 5 (d ! 0),
          DeviceType = d ! 0 AND 0x1F, RemovableMedia = (if d ! 1 AND 0x80 = 0x80 then 1 else 0),
          vendor_id = take 8 (drop 8 d) @ [0], product_id = take 16 (drop 16 d) @ [0],
          revision_id = take 4 (drop 32 d) @ [0]\<rparr>\<rparr>]
      else drive (USBH_MSC_SCSI_Inquiry 0 0) ?tape sample_disk b1 = Some (USBH_FAIL, sample_disk, b') \<and>
        unit_luns m' = unit_luns (sample_units 64)"
    by (elim exE conjE) (rule that, assumption+)
  from disk_tape(2) [OF r(2)] have "n = 13" "d = disk_data" "w = good_csw" by auto
  with c good_csw_passed i have "drive (USBH_MSC_SCSI_Inquiry 0 0) ?tape sample_disk b1 = Some (USBH_OK, sample_disk, b')"
    "RemovableMedia (inquiry (unit_luns m' ! 0)) = 1"
    by (simp_all add: sample_units_fields disk_data_def)
  with r show ?thesis by blast
qed

text \<open>
  Over an endpoint of 8, 16 or 32 bytes a successful INQUIRY faults: the data pointer has moved to
  the last packet, and the names are read from there, behind the end of the buffer.
\<close>

theorem inquiry_small_packets:
  assumes "msc_idle m h b" "msc_InEpSize m \<in> {8, 16, 32}" "full_data tape" "10 + naks tape \<le> dones tape"
    and "list_all (\<lambda>a. case a of Answered n d w \<Rightarrow> decode_csw n (cbw_Tag (cbw (hbot m))) w = BOT_CSW_CMD_PASSED | _ \<Rightarrow> True) tape"
  shows "\<exists>b1. USBH_MSC_SCSI_Inquiry i lun h b = Some (USBH_BUSY, h, b1) \<and> drive (USBH_MSC_SCSI_Inquiry i lun) tape h b1 = None"
proof -
  obtain cb where s: "USBH_MSC_SCSI_Inquiry i lun h b = Some (USBH_BUSY, h, put_msc (set_pbuf Bot_buf (cmd_ready 36 DIR_IN cb m)) b)"
    using inquiry_start [OF assms(1)] by blast
  obtain send where inq: "USBH_MSC_SCSI_Inquiry i lun = scsi_cmd USBH_FAIL send (read_inquiry i) lun"
    using inquiry_scsi by blast
  define k where k: "k = (unat (36 :: u32) + unat (msc_InEpSize m) - 1) div unat (msc_InEpSize m)"
  have kz: "(k - 1) * unat (msc_InEpSize m) = 32" "Suc k \<le> 6" using assms(2) by (auto simp: k)
  have "4 + (if (36 :: u32) = 0 then 0 else Suc k) + naks tape \<le> dones tape" using assms(4) kz(2) by simp
  from in_command_runs [OF assms(1) refl k this, where cb = cb and idle_status = USBH_FAIL and send = send
      and fin = "read_inquiry i" and lun = lun, folded inq, unfolded kz] obtain n d w m' b' where
    a: "Answered n d w \<in> set tape" and d: "bot_data (hbot m') = d" "bot_pbuf (hbot m') = At Bot_buf 32"
    and dr: "drive (USBH_MSC_SCSI_Inquiry i lun) tape h (put_msc (set_pbuf Bot_buf (cmd_ready 36 DIR_IN cb m)) b) =
       (if decode_csw n (cbw_Tag (cbw (hbot m))) w = BOT_CSW_CMD_PASSED
        then map_option (\<lambda>m'. (USBH_OK, h, put_msc m' b')) (read_inquiry i m') else Some (USBH_FAIL, h, b'))"
    by (auto simp: buf_at_def)
  have "read_inquiry i m' = None"
    using d full_data_length [OF assms(3) a] by (simp add: read_inquiry_def bot_bytes_def bind_eq_None_conv)
  moreover have "decode_csw n (cbw_Tag (cbw (hbot m))) w = BOT_CSW_CMD_PASSED" using assms(5) a by (auto simp: list_all_iff)
  ultimately show ?thesis using s dr by auto
qed

lemma inquiry_small_packets_witness:
  "\<exists>b1. USBH_MSC_SCSI_Inquiry 0 0 sample_disk (sample_disk_bus (sample_units 32)) = Some (USBH_BUSY, sample_disk, b1) \<and>
     drive (USBH_MSC_SCSI_Inquiry 0 0) (replicate 10 (Answered 13 disk_data good_csw)) sample_disk b1 = None"
  by (rule inquiry_small_packets [OF sample_units_idle])
    (simp_all add: disk_tape good_csw_passed sample_units_fields list_all_iff)

text \<open>
  READ CAPACITY stores the number of the last block and the low half of the block size the unit
  reports high byte first.
\<close>

theorem capacity_roundtrip:
  assumes "msc_idle m h b" "i < length (unit_luns m)" "8 \<le> msc_InEpSize m" "6 + naks tape \<le> dones tape"
    and "list_all (\<lambda>a. case a of Answered n d w \<Rightarrow> decode_csw n (cbw_Tag (cbw (hbot m))) w = BOT_CSW_CMD_PASSED \<and>
       (\<exists>rest. d = rev (le32_bytes nbr) @ rev (le32_bytes bsize) @ rest) | _ \<Rightarrow> True) tape"
  shows "\<exists>b1 m' b'. USBH_MSC_SCSI_ReadCapacity i lun h b = Some (USBH_BUSY, h, b1) \<and>
     drive (USBH_MSC_SCSI_ReadCapacity i lun) tape h b1 = Some (USBH_OK, h, b') \<and> msc_handle h b' = Some m' \<and>
     unit_luns m' = (unit_luns m)[i := (unit_luns m ! i)\<lparr>block_nbr := nbr, block_size := ucast bsize\<rparr>]"
proof -
  define send where "send = (\<lambda>m. map_option (set_pbuf Bot_buf) (scsi_send 8 DIR_IN CBW_CB_LENGTH [(0, 0x25)] m))"
  have cap: "USBH_MSC_SCSI_ReadCapacity i lun = scsi_cmd USBH_BUSY send (read_capacity i) lun"
    by (simp add: USBH_MSC_SCSI_ReadCapacity_def send_def)
  have c: "length (CB (cbw (hbot m))) = 16" using assms(1) by (simp add: msc_idle_def)
  obtain cb where s: "scsi_cmd USBH_BUSY send (read_capacity i) lun h b =
      Some (USBH_BUSY, h, put_msc (set_pbuf Bot_buf (cmd_ready 8 DIR_IN cb m)) b)"
    using read_start [OF assms(1), of CBW_CB_LENGTH "[(0, 0x25)]" USBH_BUSY 8 "read_capacity i" lun] c
    unfolding send_def by (auto simp: fill_cb_def)
  have "8 \<le> unat (msc_InEpSize m)" using assms(3) by (simp add: word_le_nat_alt)
  then have k: "1 = (unat (8 :: u32) + unat (msc_InEpSize m) - 1) div unat (msc_InEpSize m)"
    by (intro one_packet [symmetric]) simp_all
  have "4 + (if (8 :: u32) = 0 then 0 else Suc 1) + naks tape \<le> dones tape" using assms(4) by simp
  from in_command_runs [OF assms(1) refl k this, where cb = cb and idle_status = USBH_BUSY and send = send
      and fin = "read_capacity i" and lun = lun, folded cap] obtain n d w m' b' where
    a: "Answered n d w \<in> set tape" and mh: "msc_handle h b' = Some m'" and d: "bot_data (hbot m') = d"
      "bot_pbuf (hbot m') = Bot_buf" and u: "unit_luns m' = unit_luns m"
    and dr: "drive (USBH_MSC_SCSI_ReadCapacity i lun) tape h (put_msc (set_pbuf Bot_buf (cmd_ready 8 DIR_IN cb m)) b) =
       (if decode_csw n (cbw_Tag (cbw (hbot m))) w = BOT_CSW_CMD_PASSED
        then map_option (\<lambda>m'. (USBH_OK, h, put_msc m' b')) (read_capacity i m') else Some (USBH_FAIL, h, b'))"
    by (auto simp: buf_at_def)
  have p: "decode_csw n (cbw_Tag (cbw (hbot m))) w = BOT_CSW_CMD_PASSED"
    and "\<exists>rest. d = rev (le32_bytes nbr) @ rev (le32_bytes bsize) @ rest"
    using assms(5) a by (auto simp: list_all_iff)
  then obtain rest where dd: "d = rev (le32_bytes nbr) @ rev (le32_bytes bsize) @ rest" by blast
  let ?u = "(unit_luns m ! i)\<lparr>block_nbr := nbr, block_size := ucast bsize\<rparr>"
  have r: "read_capacity i m' = Some (m'\<lparr>unit_luns := (unit_luns m)[i := ?u]\<rparr>)"
    using d dd u assms(2) be32_bits [of nbr] be16_bits [of bsize]
    by (simp add: read_capacity_def bot_rd_def upd_unit_def mem_simps le32_bytes_def)
  have "msc_handle h (put_msc (m'\<lparr>unit_luns := (unit_luns m)[i := ?u]\<rparr>) b') = Some (m'\<lparr>unit_luns := (unit_luns m)[i := ?u]\<rparr>)"
    using mh by simp
  moreover have "drive (USBH_MSC_SCSI_ReadCapacity i lun) tape h (put_msc (set_pbuf Bot_buf (cmd_ready 8 DIR_IN cb m)) b) =
      Some (USBH_OK, h, put_msc (m'\<lparr>unit_luns := (unit_luns m)[i := ?u]\<rparr>) b')" using dr p r by simp
  ultimately show ?thesis using s unfolding cap by (intro exI conjI) (assumption | simp)+
qed

lemma capacity_roundtrip_witness:
  "\<exists>b1 m' b'. USBH_MSC_SCSI_ReadCapacity 1 1 sample_disk (sample_disk_bus (sample_units 64)) = Some (USBH_BUSY, sample_disk, b1) \<and>
     drive (USBH_MSC_SCSI_ReadCapacity 1 1) (replicate 6 (Answered 13 [0, 0x3B, 0x9A, 0xCA, 0, 0, 2, 0] good_csw)) sample_disk b1 =
       Some (USBH_OK, sample_disk, b') \<and> msc_handle sample_disk b' = Some m' \<and>
     unit_luns m' = (unit_luns (sample_units 64))[1 := (unit_luns (sample_units 64) ! 1)\<lparr>block_nbr := 0x3B9ACA, block_size := ucast (512 :: u32)\<rparr>]"
  by (rule capacity_roundtrip [OF sample_units_idle])
    (simp_all add: good_csw_passed sample_units_fields list_all_iff le32_bytes_def)

end
