(* ===== verification/MscSafety.thy ===== *)
theory MscSafety
  imports MscCommands
begin

text \<open>
  What the mass-storage driver keeps true of its own state. The operations change the transport handle,
  one unit's record, or a counter; an invariant that survives these changes survives every operation.
  The locales \<open>cmd_invariant\<close> and \<open>unit_invariant\<close> state that contract; the shapes of the tables, the
  ranges of the stored fields and the bounds of the unit counter are interpretations.
\<close>

subsection \<open>The contract\<close>

definition same_sizes :: "BOT_HandleTypeDef \<Rightarrow> BOT_HandleTypeDef \<Rightarrow> bool" where
  "same_sizes t t' \<longleftrightarrow> length (CB (cbw t')) = length (CB (cbw t)) \<and> length (csw t') = length (csw t) \<and>
     length (bot_data t') = length (bot_data t)"

definition inquiry_ok :: "SCSI_StdInquiryDataTypeDef \<Rightarrow> bool" where
  "inquiry_ok q \<longleftrightarrow> length (vendor_id q) = 9 \<and> last (vendor_id q) = 0 \<and> length (product_id q) = 17 \<and>
     last (product_id q) = 0 \<and> length (revision_id q) = 5 \<and> last (revision_id q) = 0 \<and>
     DeviceType q < 32 \<and> PeripheralQualifier q < 8 \<and> RemovableMedia q < 2"

locale cmd_invariant =
  fixes P :: "MSC_HandleTypeDef \<Rightarrow> bool" and U :: "MSC_LUNTypeDef \<Rightarrow> bool"
  assumes bot_keeps: "P m \<Longrightarrow> same_sizes (hbot m) t \<Longrightarrow> P (m\<lparr>hbot := t\<rparr>)"
    and unit_keeps: "P m \<Longrightarrow> i < length (unit_luns m) \<Longrightarrow> (U (unit_luns m ! i) \<Longrightarrow> U u) \<Longrightarrow>
      P (m\<lparr>unit_luns := (unit_luns m)[i := u]\<rparr>)"
    and state_keeps: "P m \<Longrightarrow> P (m\<lparr>msc_state := st\<rparr>)" "P m \<Longrightarrow> P (m\<lparr>rw_lun := r\<rparr>)" "P m \<Longrightarrow> P (m\<lparr>msc_timer := v\<rparr>)"
    and U_fields: "U (u\<lparr>lun_state := st\<rparr>) = U u" "U (u\<lparr>lun_error := e\<rparr>) = U u" "U (u\<lparr>prev_ready_state := ps\<rparr>) = U u"
      "U (u\<lparr>state_changed := c\<rparr>) = U u" "U (u\<lparr>block_nbr := nb\<rparr>) = U u" "U (u\<lparr>block_size := bs\<rparr>) = U u"
    and U_inquiry: "U u \<Longrightarrow> inquiry_ok q \<Longrightarrow> U (u\<lparr>inquiry := q\<rparr>)"
    and U_sense: "U u \<Longrightarrow> U (u\<lparr>sense_key := ky AND 0x0F, sense_asc := a1, sense_ascq := a2\<rparr>)"

text \<open>An invariant that also bounds the unit counter.\<close>

definition unit_left :: "MSC_HandleTypeDef \<Rightarrow> bool" where
  "unit_left m \<longleftrightarrow> ucast (current_lun m) < max_lun m"

locale unit_invariant = cmd_invariant P U
  for P :: "MSC_HandleTypeDef \<Rightarrow> bool" and U :: "MSC_LUNTypeDef \<Rightarrow> bool" +
  assumes left_keeps: "cmd_invariant (\<lambda>m. P m \<and> unit_left m) U"
    and next_keeps: "P m \<Longrightarrow> unit_left m \<Longrightarrow> P (next_lun m)"
    and rest_keeps: "P m \<Longrightarrow> P (m\<lparr>current_lun := 0, msc_state := MSC_IDLE\<rparr>)"

subsection \<open>Operations under the contract\<close>

lemma handle_mem: "msc_handle h b = Some m \<Longrightarrow> msc_mem b = m"
  by (auto simp: msc_handle_def split: if_splits)

lemma request_mem:
  "USBH_MSC_BOT_REQ_Reset h b = Some (s, h', b') \<Longrightarrow> msc_mem b' = msc_mem b"
  "USBH_MSC_BOT_Abort h b d = Some (s, h', b') \<Longrightarrow> msc_mem b' = msc_mem b"
  by (auto simp: USBH_MSC_BOT_REQ_Reset_def USBH_MSC_BOT_Abort_def bind_eq_Some_conv bus_frame_def
      dest!: CtlReq_req_frame short_requests_frame)

context cmd_invariant
begin

lemma upd_bot_keeps: "P m \<Longrightarrow> same_sizes (hbot m) (f (hbot m)) \<Longrightarrow> P (upd_bot f m)"
  unfolding upd_bot_def by (rule bot_keeps)

lemma set_bot_keeps: "P m \<Longrightarrow> P (set_bot s m)"
  unfolding set_bot_def by (erule upd_bot_keeps) (simp add: same_sizes_def)

lemma advance_keeps: "P m \<Longrightarrow> P (bot_advance z m)"
  unfolding bot_advance_def by (erule upd_bot_keeps) (simp add: same_sizes_def)

lemma upd_unit_keeps: "P m \<Longrightarrow> upd_unit i f m = Some m' \<Longrightarrow> (\<And>u. U u \<Longrightarrow> U (f u)) \<Longrightarrow> P m'"
  by (auto simp: upd_unit_def bind_eq_Some_conv rd_eq_Some_iff intro!: unit_keeps)

lemma transfer_keeps:
  assumes "P m"
  shows "bot_send_cbw lun m h b = Some (s, h', b') \<Longrightarrow> P (msc_mem b')"
    "msc_mem b = m \<Longrightarrow> bot_send_cbw_wait m h b = Some (s, h', b') \<Longrightarrow> P (msc_mem b')"
    "bot_data_in m h b = Some (s, h', b') \<Longrightarrow> P (msc_mem b')"
    "msc_mem b = m \<Longrightarrow> bot_data_in_wait m h b = Some (s, h', b') \<Longrightarrow> P (msc_mem b')"
    "bot_data_out m h b = Some (s, h', b') \<Longrightarrow> P (msc_mem b')"
    "msc_mem b = m \<Longrightarrow> bot_data_out_wait m h b = Some (s, h', b') \<Longrightarrow> P (msc_mem b')"
    "bot_receive_csw m h b = Some (s, h', b') \<Longrightarrow> P (msc_mem b')"
    "msc_mem b = m \<Longrightarrow> bot_receive_csw_wait m h b = Some (s, h', b') \<Longrightarrow> P (msc_mem b')"
proof -
  have lun: "P (set_bot BOT_SEND_CBW_WAIT (upd_bot (\<lambda>t. t\<lparr>cbw := (cbw t)\<lparr>cbw_LUN := lun\<rparr>\<rparr>) m))"
    by (intro set_bot_keeps upd_bot_keeps assms) (simp add: same_sizes_def)
  have ended: "P (upd_bot (\<lambda>t. t\<lparr>bot_state := BOT_SEND_CBW, cmd_state := BOT_CMD_SEND\<rparr>) m)"
    by (intro upd_bot_keeps assms) (simp add: same_sizes_def)
  note k = set_bot_keeps [OF assms] advance_keeps [OF assms] set_bot_keeps [OF advance_keeps [OF assms]]
  show "bot_send_cbw lun m h b = Some (s, h', b') \<Longrightarrow> P (msc_mem b')"
    using lun by (auto simp: bot_send_cbw_def Let_def bind_eq_Some_conv request_iff)
  show "msc_mem b = m \<Longrightarrow> bot_send_cbw_wait m h b = Some (s, h', b') \<Longrightarrow> P (msc_mem b')"
    using k assms by (auto simp: bot_send_cbw_wait_def bind_eq_Some_conv split: if_splits)
  show "bot_data_in m h b = Some (s, h', b') \<Longrightarrow> P (msc_mem b')"
    "bot_data_out m h b = Some (s, h', b') \<Longrightarrow> P (msc_mem b')" "bot_receive_csw m h b = Some (s, h', b') \<Longrightarrow> P (msc_mem b')"
    using k by (auto simp: bot_data_in_def bot_data_out_def bot_receive_csw_def bind_eq_Some_conv)
  show "msc_mem b = m \<Longrightarrow> bot_data_in_wait m h b = Some (s, h', b') \<Longrightarrow> P (msc_mem b')"
    using k assms by (auto simp: bot_data_in_wait_def bot_receive_def Let_def bind_eq_Some_conv request_iff split: if_splits)
  show "msc_mem b = m \<Longrightarrow> bot_data_out_wait m h b = Some (s, h', b') \<Longrightarrow> P (msc_mem b')"
    using k assms by (auto simp: bot_data_out_wait_def bot_transmit_def Let_def bind_eq_Some_conv request_iff split: if_splits)
  show "msc_mem b = m \<Longrightarrow> bot_receive_csw_wait m h b = Some (s, h', b') \<Longrightarrow> P (msc_mem b')"
    using k assms ended by (auto simp: bot_receive_csw_wait_def Let_def bind_eq_Some_conv split: if_splits)
qed

lemma recovery_keeps:
  assumes "P (msc_mem b)"
  shows "bot_error_in h b = Some (s, h', b') \<Longrightarrow> P (msc_mem b')" "bot_error_out h b = Some (s, h', b') \<Longrightarrow> P (msc_mem b')"
    "bot_unrecovered h b = Some (s, h', b') \<Longrightarrow> P (msc_mem b')"
  using assms
  by (auto simp: bot_error_in_def bot_error_out_def bot_unrecovered_def bind_eq_Some_conv on_msc_iff set_bot_keeps
      split: if_splits dest!: request_mem handle_mem)

lemma BOT_Process_keeps:
  assumes "USBH_MSC_BOT_Process lun h b = Some (s, h', b')" "P (msc_mem b)"
  shows "P (msc_mem b')"
proof -
  from assms(1) obtain m where m: "msc_handle h b = Some m" by (auto simp: USBH_MSC_BOT_Process_def bind_eq_Some_conv)
  then have mm: "msc_mem b = m" by (rule handle_mem)
  show ?thesis
    using assms(1) m mm
    by (cases "bot_state (hbot m)")
      (auto simp: USBH_MSC_BOT_Process_def dest: transfer_keeps [OF assms(2)] transfer_keeps(2,4,6,8) [OF assms(2) refl]
        recovery_keeps [OF assms(2)])
qed

lemma scsi_cmd_keeps:
  assumes "scsi_cmd idle send fin lun h b = Some (s, h', b')" "P (msc_mem b)"
    and "\<And>m m'. P m \<Longrightarrow> send m = Some m' \<Longrightarrow> P m'" "\<And>m m'. P m \<Longrightarrow> fin m = Some m' \<Longrightarrow> P m'"
  shows "P (msc_mem b')"
proof -
  from assms(1) obtain m where m: "msc_handle h b = Some m" by (auto simp: scsi_cmd_def bind_eq_Some_conv)
  note mm = handle_mem [OF this]
  show ?thesis
  proof (cases "cmd_state (hbot m)")
    case BOT_CMD_WAIT
    with assms(1) m obtain h1 b1 where p: "USBH_MSC_BOT_Process lun h b = Some (s, h1, b1)"
      and e: "b' = b1 \<or> on_msc fin h1 b1 = Some b'"
      by (auto simp: scsi_cmd_def bind_eq_Some_conv split: if_splits)
    from BOT_Process_keeps [OF p assms(2)] have "P (msc_mem b1)" .
    with e show ?thesis by (auto simp: on_msc_iff dest!: handle_mem intro: assms(4))
  next
    case BOT_CMD_SEND
    with assms(1) m obtain m' where "send m = Some m'" "b' = put_msc m' b"
      by (auto simp: scsi_cmd_def bind_eq_Some_conv)
    with assms(2,3) mm show ?thesis by simp
  next
    case BOT_CMD_IDLE
    with assms(1,2) m show ?thesis by (simp add: scsi_cmd_def)
  qed
qed

end

subsection \<open>The invariants\<close>

context cmd_invariant
begin

lemma send_keeps:
  assumes "scsi_send len fl n sets m = Some m'" "P m"
  shows "P m'"
proof -
  have "length (fold (\<lambda>(i, v) c. c[i := v]) sets xs) = length xs" for xs :: "u8 list"
    by (induction sets arbitrary: xs) (simp_all add: case_prod_beta)
  with assms show ?thesis
    by (auto simp: scsi_send_def bind_eq_Some_conv fill_cb_def split: if_splits
        intro!: upd_bot_keeps simp: same_sizes_def)
qed

lemma set_pbuf_keeps: "P m \<Longrightarrow> P (set_pbuf p m)"
  unfolding set_pbuf_def by (erule upd_bot_keeps) (simp add: same_sizes_def)

lemma read_keeps:
  assumes "P m"
  shows "read_capacity i m = Some m' \<Longrightarrow> P m'" "read_sense i m = Some m' \<Longrightarrow> P m'" "read_inquiry i m = Some m' \<Longrightarrow> P m'"
proof -
  show "read_capacity i m = Some m' \<Longrightarrow> P m'"
    by (auto simp: read_capacity_def bind_eq_Some_conv U_fields elim!: upd_unit_keeps [OF assms])
  show "read_sense i m = Some m' \<Longrightarrow> P m'"
    by (auto simp: read_sense_def bind_eq_Some_conv intro: U_sense elim!: upd_unit_keeps [OF assms])
  have bytes: "bot_bytes m k n = Some bs \<Longrightarrow> length bs = n" for k n bs
    by (auto simp: bot_bytes_def split: buf_ptr.splits if_splits)
  have low: "x AND 0x1F < 32" "drop_bit 5 x < 8" for x :: u8
  proof -
    have "x AND 0x1F \<le> 0x1F" by (rule word_and_le1)
    then show "x AND 0x1F < 32" by (rule order.strict_trans1) simp
    show "drop_bit 5 x < 8"
      using unsigned_less [of x, where ?'a = nat] by (simp add: word_less_nat_alt drop_bit_eq_div unat_div)
  qed
  show "read_inquiry i m = Some m' \<Longrightarrow> P m'"
    by (auto simp: read_inquiry_def bind_eq_Some_conv inquiry_ok_def low dest!: bytes
        intro!: U_inquiry elim!: upd_unit_keeps [OF assms])
qed

end

context cmd_invariant
begin

lemma on_msc_keeps: "on_msc f h b = Some b' \<Longrightarrow> P (msc_mem b) \<Longrightarrow> (\<And>m m'. P m \<Longrightarrow> f m = Some m' \<Longrightarrow> P m') \<Longrightarrow> P (msc_mem b')"
  by (auto simp: on_msc_iff dest!: handle_mem)

lemma scsi_keeps:
  assumes "P (msc_mem b)"
  shows "USBH_MSC_SCSI_Inquiry i n h b = Some (s, h', b') \<Longrightarrow> P (msc_mem b')"
    "USBH_MSC_SCSI_TestUnitReady n h b = Some (s, h', b') \<Longrightarrow> P (msc_mem b')"
    "USBH_MSC_SCSI_ReadCapacity i n h b = Some (s, h', b') \<Longrightarrow> P (msc_mem b')"
    "USBH_MSC_SCSI_RequestSense i n h b = Some (s, h', b') \<Longrightarrow> P (msc_mem b')"
    "USBH_MSC_SCSI_Read n a p len h b = Some (s, h', b') \<Longrightarrow> P (msc_mem b')"
    "USBH_MSC_SCSI_Write n a p len h b = Some (s, h', b') \<Longrightarrow> P (msc_mem b')"
  unfolding scsi_defs
  by (erule scsi_cmd_keeps [OF _ assms]; auto intro: set_pbuf_keeps send_keeps read_keeps)+

lemma after_keeps:
  "U u \<Longrightarrow> U (after_inquiry s u)" "U u \<Longrightarrow> U (after_ready s u)" "U u \<Longrightarrow> U (after_capacity s u)"
  "U u \<Longrightarrow> U (after_sense d s u)" "U u \<Longrightarrow> U (rw_result s u)" "U u \<Longrightarrow> U (rw_sense s u)" "U u \<Longrightarrow> U (lun_goto st u)"
  by (simp_all add: after_inquiry_def after_ready_def after_capacity_def after_sense_def rw_result_def rw_sense_def
      lun_goto_def lun_failed_def U_fields)

lemma unit_after_keeps:
  "on_msc (upd_unit i f) h b = Some b' \<Longrightarrow> P (msc_mem b) \<Longrightarrow> (\<And>u. U u \<Longrightarrow> U (f u)) \<Longrightarrow> P (msc_mem b')"
  by (erule on_msc_keeps, assumption) (rule upd_unit_keeps)

lemma RdWrProcess_keeps:
  assumes "USBH_MSC_RdWrProcess lun h b = Some (s, h', b')" "P (msc_mem b)"
  shows "P (msc_mem b')"
proof -
  from assms(1) obtain m u where m: "msc_handle h b = Some m" "rd (unit_luns m) (unat lun) = Some u"
    by (auto simp: USBH_MSC_RdWrProcess_def bind_eq_Some_conv)
  consider (rd) s1 h1 b1 b2 where "USBH_MSC_SCSI_Read lun 0 NULL_buf 0 h b = Some (s1, h1, b1)"
      "on_msc (upd_unit (unat lun) (rw_result s1)) h1 b1 = Some b2" "msc_mem b' = msc_mem b2"
    | (wr) s1 h1 b1 b2 where "USBH_MSC_SCSI_Write lun 0 NULL_buf 0 h b = Some (s1, h1, b1)"
      "on_msc (upd_unit (unat lun) (rw_result s1)) h1 b1 = Some b2" "msc_mem b' = msc_mem b2"
    | (sense) s1 h1 b1 b2 where "USBH_MSC_SCSI_RequestSense (unat lun) lun h b = Some (s1, h1, b1)"
      "on_msc (upd_unit (unat lun) (rw_sense s1)) h1 b1 = Some b2" "msc_mem b' = msc_mem b2"
    | (rest) "b' = b"
    using assms(1) m by (cases "lun_state u") (auto simp: USBH_MSC_RdWrProcess_def bind_eq_Some_conv)
  then show ?thesis
  proof cases
    case rd
    from unit_after_keeps [OF rd(2) scsi_keeps(5) [OF assms(2) rd(1)] after_keeps(5)] rd(3) show ?thesis by simp
  next
    case wr
    from unit_after_keeps [OF wr(2) scsi_keeps(6) [OF assms(2) wr(1)] after_keeps(5)] wr(3) show ?thesis by simp
  next
    case sense
    from unit_after_keeps [OF sense(2) scsi_keeps(4) [OF assms(2) sense(1)] after_keeps(6)] sense(3) show ?thesis by simp
  qed (use assms(2) in simp)
qed

lemma rw_begin_keeps: "P m \<Longrightarrow> rw_begin st lun m = Some m' \<Longrightarrow> P m'"
  by (auto simp: rw_begin_def intro!: state_keeps elim!: upd_unit_keeps after_keeps)

end

context unit_invariant
begin

lemma counted_keeps:
  assumes "upd_unit i f m = Some m1" "P m \<and> unit_left m" "\<And>u. U u \<Longrightarrow> U (f u)"
  shows "P (if c then next_lun m1 else m1)"
  using cmd_invariant.upd_unit_keeps [OF left_keeps assms(2,1,3)] next_keeps by simp

lemma left_steps:
  assumes "P (msc_mem b)" "unit_left (msc_mem b)"
  shows "lun_inquiry i n h b = Some (s, h', b') \<Longrightarrow> P (msc_mem b')" "lun_ready i n h b = Some (s, h', b') \<Longrightarrow> P (msc_mem b')"
    "lun_capacity i n h b = Some (s, h', b') \<Longrightarrow> P (msc_mem b')" "lun_sense i n h b = Some (s, h', b') \<Longrightarrow> P (msc_mem b')"
proof -
  note scsi = cmd_invariant.scsi_keeps [OF left_keeps, OF conjI [OF assms]]
  show "lun_inquiry i n h b = Some (s, h', b') \<Longrightarrow> P (msc_mem b')"
    by (auto simp: lun_inquiry_def bind_eq_Some_conv dest!: scsi_keeps(1) [OF assms(1)] elim!: unit_after_keeps after_keeps)
  show "lun_ready i n h b = Some (s, h', b') \<Longrightarrow> P (msc_mem b')"
    by (auto simp: lun_ready_def bind_eq_Some_conv dest!: scsi_keeps(2) [OF assms(1)] elim!: unit_after_keeps after_keeps)
  show "P (msc_mem b')" if "lun_capacity i n h b = Some (s, h', b')"
  proof -
    from that obtain b1 m1 where 1: "USBH_MSC_SCSI_ReadCapacity i n h b = Some (s, h', b1)"
      "upd_unit i (after_capacity s) (msc_mem b1) = Some m1" "msc_mem b' = (if s = USBH_OK then next_lun m1 else m1)"
      by (auto simp: lun_capacity_def bind_eq_Some_conv on_msc_iff dest!: handle_mem)
    from counted_keeps [OF 1(2) scsi(3) [OF 1(1)] after_keeps(3)] show ?thesis unfolding 1(3) .
  qed
  show "P (msc_mem b')" if "lun_sense i n h b = Some (s, h', b')"
  proof -
    from that obtain b1 m1 u d where 1: "USBH_MSC_SCSI_RequestSense i n h b = Some (s, h', b1)"
      "upd_unit i (after_sense d s) (msc_mem b1) = Some m1"
      "msc_mem b' = (if s = USBH_OK \<and> \<not> ask_again d u then next_lun m1 else m1)"
      by (auto simp: lun_sense_def Let_def bind_eq_Some_conv on_msc_iff dest!: handle_mem)
    from counted_keeps [OF 1(2) scsi(4) [OF 1(1)] after_keeps(4)] show ?thesis unfolding 1(3) .
  qed
qed

end

context unit_invariant
begin

lemma lun_init_keeps:
  assumes "on_msc (\<lambda>m. map_option (\<lambda>m. m\<lparr>msc_timer := v\<rparr>) (upd_unit i (lun_goto MSC_READ_INQUIRY) m)) h b = Some b'"
    "P (msc_mem b) \<and> unit_left (msc_mem b)"
  shows "P (msc_mem b') \<and> unit_left (msc_mem b')"
proof -
  from assms(1) obtain m where "upd_unit i (lun_goto MSC_READ_INQUIRY) (msc_mem b) = Some m" "msc_mem b' = m\<lparr>msc_timer := v\<rparr>"
    by (auto simp: on_msc_iff dest!: handle_mem)
  with cmd_invariant.upd_unit_keeps [OF left_keeps assms(2) this(1)] after_keeps(7) cmd_invariant.state_keeps(3) [OF left_keeps]
  show ?thesis by simp
qed

lemma lun_run_keeps:
  assumes "lun_run h b = Some (s, h', b')" "P (msc_mem b) \<and> unit_left (msc_mem b)"
  shows "P (msc_mem b')"
proof -
  from assms(1) obtain m u where m: "msc_handle h b = Some m" "rd (unit_luns m) (unat (current_lun m)) = Some u"
    by (auto simp: lun_run_def bind_eq_Some_conv Let_def)
  have k: "P (msc_mem b)" "unit_left (msc_mem b)" using assms(2) by simp_all
  show ?thesis
  proof (cases "lun_state u")
    case MSC_INIT
    with assms(1) m obtain b2 where
      "on_msc (\<lambda>v. map_option (\<lambda>m. m\<lparr>msc_timer := Timer h\<rparr>) (upd_unit (unat (current_lun m)) (lun_goto MSC_READ_INQUIRY) v)) h b = Some b2"
      "\<exists>i n. lun_inquiry i n h b2 = Some (s, h', b')"
      by (auto simp: lun_run_def Let_def bind_eq_Some_conv on_msc_iff)
    with lun_init_keeps assms(2) left_steps(1) show ?thesis by blast
  next
    case MSC_UNRECOVERED_ERROR
    with assms(1) m k show ?thesis
      by (auto simp: lun_run_def Let_def bind_eq_Some_conv on_msc_iff dest!: handle_mem intro: next_keeps)
  qed (use assms(1) m k in \<open>auto simp: lun_run_def Let_def dest: left_steps [OF k]\<close>)
qed

lemma lun_step_keeps:
  assumes "lun_step h b = Some (s, h', b')" "P (msc_mem b)" "unit_left (msc_mem b)"
  shows "P (msc_mem b')"
proof -
  from assms(1) obtain b1 where b1: "lun_run h b1 = Some (s, h', b')"
      "upd_unit (unat (current_lun (msc_mem b))) (\<lambda>u. u\<lparr>lun_error := MSC_NOT_READY\<rparr>) (msc_mem b) = Some (msc_mem b1)"
    by (auto simp: lun_step_def bind_eq_Some_conv on_msc_iff dest!: handle_mem)
  have "P (msc_mem b1) \<and> unit_left (msc_mem b1)"
    by (rule cmd_invariant.upd_unit_keeps [OF left_keeps conjI [OF assms(2,3)] b1(2)]) (simp add: U_fields)
  with lun_run_keeps [OF b1(1)] show ?thesis .
qed

lemma Process_keeps:
  assumes "USBH_MSC_Process env x w = Some (s, w')" "P (msc_mem (wb w))"
    "\<And>y c v v'. e_user env y c v = Some v' \<Longrightarrow> msc_mem (wb v') = msc_mem (wb v)"
  shows "P (msc_mem (wb w'))"
proof -
  from assms(1) obtain h m where h: "hs w x = Some h" "msc_handle h (wb w) = Some m"
    by (auto simp: USBH_MSC_Process_def bind_eq_Some_conv)
  note mm = handle_mem [OF h(2)]
  show ?thesis
  proof (cases "msc_state m")
    case MSC_INIT
    let ?m = "m\<lparr>current_lun := 0, msc_state := MSC_IDLE\<rparr>"
    from MSC_INIT assms(1) h consider
        (step) s1 h1 b1 where "unit_left m" "lun_step h (wb w) = Some (s1, h1, b1)" "msc_mem (wb w') = msc_mem b1"
      | (ready) "e_user env x HOST_USER_CLASS_ACTIVE (post USBH_CLASS_EVENT (mod_bus (put_msc ?m) w)) = Some w'"
      by (auto simp: USBH_MSC_Process_def call_user_def bind_eq_Some_conv Let_def on_host_eq_Some_iff unit_left_def
          post_def mod_bus_def split: if_splits)
    then show ?thesis
    proof cases
      case step
      with lun_step_keeps [OF step(2)] assms(2) mm show ?thesis by simp
    next
      case ready
      from assms(3) [OF this] rest_keeps [of m] assms(2) mm show ?thesis by (simp add: post_def mod_bus_def)
    qed
  qed (use assms h in \<open>auto simp: USBH_MSC_Process_def\<close>)
qed

end

subsection \<open>The driver's own invariants\<close>

definition unit_ok :: "MSC_LUNTypeDef \<Rightarrow> bool" where
  "unit_ok u \<longleftrightarrow> inquiry_ok (inquiry u) \<and> sense_key u < 16"

definition tables_ok :: "MSC_HandleTypeDef \<Rightarrow> bool" where
  "tables_ok m \<longleftrightarrow> length (unit_luns m) = MAX_SUPPORTED_LUN \<and> list_all unit_ok (unit_luns m) \<and>
     length (CB (cbw (hbot m))) = CBW_CB_LENGTH \<and> length (csw (hbot m)) = 16 \<and> length (bot_data (hbot m)) = 64"

definition counter_ok :: "MSC_HandleTypeDef \<Rightarrow> bool" where
  "counter_ok m \<longleftrightarrow> length (unit_luns m) = MAX_SUPPORTED_LUN \<and> unat (max_lun m) \<in> {1, 2} \<and>
     ucast (current_lun m) \<le> max_lun m"

lemma sense_low: "(x :: u8) AND 0x0F < 16"
proof -
  have "x AND 0x0F \<le> 0x0F" by (rule word_and_le1)
  then show ?thesis by (rule order.strict_trans1) simp
qed

lemmas invariant_simps = tables_ok_def counter_ok_def unit_ok_def same_sizes_def unit_left_def

lemma tables_bound: "cmd_invariant (\<lambda>m. tables_ok m \<and> (c \<longrightarrow> unit_left m)) unit_ok"
  by unfold_locales
    (auto simp: invariant_simps sense_low list_all_length nth_list_update)

lemma counter_bound: "cmd_invariant (\<lambda>m. counter_ok m \<and> (c \<longrightarrow> unit_left m)) (\<lambda>_. True)"
  by unfold_locales (auto simp: invariant_simps)

lemma next_bound:
  assumes "ucast (current_lun m) < max_lun m" "unat (max_lun m) \<le> 2"
  shows "ucast (current_lun m + 1) \<le> max_lun m"
proof -
  have "unat (current_lun m) < unat (max_lun m)" using assms(1) by (simp add: word_less_nat_alt)
  moreover from this assms(2) have "unat (current_lun m + 1) = unat (current_lun m) + 1"
    by (simp add: unat_word_ariths)
  ultimately show ?thesis by (simp add: word_le_nat_alt)
qed

interpretation tables: unit_invariant tables_ok unit_ok
proof (intro unit_invariant.intro unit_invariant_axioms.intro)
  show "cmd_invariant tables_ok unit_ok" "cmd_invariant (\<lambda>m. tables_ok m \<and> unit_left m) unit_ok"
    using tables_bound [of False] tables_bound [of True] by simp_all
qed (simp_all add: next_lun_def tables_ok_def)

interpretation counter: unit_invariant counter_ok "\<lambda>_. True"
proof (intro unit_invariant.intro unit_invariant_axioms.intro)
  show "cmd_invariant counter_ok (\<lambda>_. True)" "cmd_invariant (\<lambda>m. counter_ok m \<and> unit_left m) (\<lambda>_. True)"
    using counter_bound [of False] counter_bound [of True] by simp_all
  show "counter_ok m \<Longrightarrow> unit_left m \<Longrightarrow> counter_ok (next_lun m)" for m
    using next_bound [of m] by (auto simp: next_lun_def counter_ok_def unit_left_def)
qed (simp add: counter_ok_def)

text \<open>
  A bound driver from its class request on: polls of the unit machine, reads and writes with their
  polls, and data and status the device sends meanwhile. Host and bus may change otherwise between the
  steps.
\<close>

inductive disk_run :: "MSC_HandleTypeDef \<Rightarrow> MSC_HandleTypeDef \<Rightarrow> bool" for m0 where
  start: "disk_run m0 m0"
| process: "\<lbrakk>disk_run m0 (msc_mem (wb w)); USBH_MSC_Process env x w = Some (s, w');
      \<And>y c v v'. e_user env y c v = Some v' \<Longrightarrow> msc_mem (wb v') = msc_mem (wb v)\<rbrakk> \<Longrightarrow> disk_run m0 (msc_mem (wb w'))"
| claim: "\<lbrakk>disk_run m0 m; rw_begin st lun m = Some m'\<rbrakk> \<Longrightarrow> disk_run m0 m'"
| submit: "\<lbrakk>disk_run m0 (msc_mem b); scsi_rw out lun address p len h b = Some (s, h', b')\<rbrakk> \<Longrightarrow> disk_run m0 (msc_mem b')"
| poll: "\<lbrakk>disk_run m0 (msc_mem b); USBH_MSC_RdWrProcess lun h b = Some (s, h', b')\<rbrakk> \<Longrightarrow> disk_run m0 (msc_mem b')"
| release: "disk_run m0 m \<Longrightarrow> disk_run m0 (m\<lparr>msc_state := MSC_IDLE\<rparr>)"
| data: "\<lbrakk>disk_run m0 m; length d = length (bot_data (hbot m)); length c = length (csw (hbot m))\<rbrakk> \<Longrightarrow>
    disk_run m0 (upd_bot (\<lambda>t. t\<lparr>bot_data := d, csw := c\<rparr>) m)"

context unit_invariant
begin

lemma disk_run_keeps: "disk_run m0 m \<Longrightarrow> P m0 \<Longrightarrow> P m"
proof (induction rule: disk_run.induct)
  case process
  then show ?case by (blast intro: Process_keeps)
next
  case (submit b out lun address p len h s h' b')
  then show ?case by (cases out) (auto simp: scsi_rw_def dest: scsi_keeps)
qed (auto intro: rw_begin_keeps RdWrProcess_keeps state_keeps upd_bot_keeps simp: same_sizes_def)

end

text \<open>
  The whole life of the handle. The memory behind it holds anything of its C type when the interface is
  bound: the arrays have their lengths, their contents are free. Class requests, with the byte of the
  number of units the device sends, and the release of the interface come in wherever the core calls them,
  and the bound driver runs in between.
\<close>

definition c_sized :: "MSC_HandleTypeDef \<Rightarrow> bool" where
  "c_sized m \<longleftrightarrow> length (CB (cbw (hbot m))) = 16 \<and> length (csw (hbot m)) = 16 \<and> length (bot_data (hbot m)) = 64"

inductive disk_life :: "MSC_HandleTypeDef \<Rightarrow> bool" where
  bind: "\<lbrakk>list_all c_sized (msc_mem (wb w) # msc_heap (wb w)); USBH_MSC_InterfaceInit x w = Some (USBH_OK, w')\<rbrakk> \<Longrightarrow>
    disk_life (msc_mem (wb w'))"
| request: "\<lbrakk>disk_life (msc_mem b); USBH_MSC_ClassRequest h b = Some (s, h', b')\<rbrakk> \<Longrightarrow> disk_life (msc_mem b')"
| units: "disk_life m \<Longrightarrow> disk_life (m\<lparr>max_lun := v\<rparr>)"
| run: "\<lbrakk>disk_life m; disk_run m m'\<rbrakk> \<Longrightarrow> disk_life m'"
| unbind: "\<lbrakk>disk_life (msc_mem b); USBH_MSC_InterfaceDeInit h b = Some (s, h', b')\<rbrakk> \<Longrightarrow> disk_life (msc_mem b')"

lemma tables_fields [simp]:
  "tables_ok (m\<lparr>max_lun := v\<rparr>) = tables_ok m" "tables_ok (m\<lparr>req_state := q\<rparr>) = tables_ok m"
  "tables_ok (m\<lparr>msc_OutPipe := p\<rparr>) = tables_ok m" "tables_ok (m\<lparr>msc_InPipe := p\<rparr>) = tables_ok m"
  by (simp_all add: tables_ok_def)

lemma zero_units_ok: "list_all unit_ok (replicate n zero_lun)"
  by (simp add: list_all_length unit_ok_def inquiry_ok_def zero_lun_def zero_inquiry_def)

lemma open_tables:
  assumes "msc_open h b = Some (s, h', b')" "c_sized (msc_mem b)"
  shows "tables_ok (msc_mem b')"
proof -
  have take: "hbot (take_msc_ep ep m) = hbot m" for ep m by (simp add: take_msc_ep_def)
  from assms zero_units_ok [of MAX_SUPPORTED_LUN] show ?thesis
    by (auto simp: msc_open_def bind_eq_Some_conv Let_def c_sized_def tables_ok_def USBH_MSC_BOT_Init_def upd_bot_def
        put_msc_def take dest!: handle_mem simp del: replicate.simps)
qed

lemma InterfaceInit_tables:
  assumes "USBH_MSC_InterfaceInit x w = Some (USBH_OK, w')" "list_all c_sized (msc_mem (wb w) # msc_heap (wb w))"
  shows "tables_ok (msc_mem (wb w'))"
  using assms
  by (auto simp: USBH_MSC_InterfaceInit_def bind_eq_Some_conv Let_def take_malloc_def on_host_eq_Some_iff mod_bus_def
      msc_block_def elim!: open_tables split: if_splits list.splits)

lemma reset_tables: "reset_units n m = Some m' \<Longrightarrow> tables_ok m \<Longrightarrow> tables_ok m'"
proof -
  assume r: "reset_units n m = Some m'" and t: "tables_ok m"
  let ?us = "take (unat n) (unit_luns m)" and ?vs = "drop (unat n) (unit_luns m)"
  from t have "list_all unit_ok (?us @ ?vs)" unfolding append_take_drop_id by (simp add: tables_ok_def)
  then have u: "list_all unit_ok ?us" "list_all unit_ok ?vs" by (simp_all del: append_take_drop_id)
  have "unit_ok (u\<lparr>prev_ready_state := USBH_FAIL, state_changed := 0\<rparr>) = unit_ok u" for u by (simp add: unit_ok_def)
  with r t u show ?thesis by (auto simp: reset_units_def tables_ok_def list.pred_map comp_def split: if_splits)
qed

lemma max_lun_tables: "msc_max_lun s m = Some m' \<Longrightarrow> tables_ok m \<Longrightarrow> tables_ok m'"
  by (auto simp: msc_max_lun_def Let_def elim!: reset_tables)

lemma class_request_mem:
  "USBH_MSC_BOT_REQ_GetMaxLUN h b = Some (s, h', b') \<Longrightarrow> msc_mem b' = msc_mem b"
  "USBH_ClrFeature h b e = Some (s, h', b') \<Longrightarrow> msc_mem b' = msc_mem b"
  by (auto simp: USBH_MSC_BOT_REQ_GetMaxLUN_def bus_frame_def dest!: CtlReq_req_frame short_requests_frame)

lemma ClassRequest_tables:
  assumes "USBH_MSC_ClassRequest h b = Some (s, h', b')" "tables_ok (msc_mem b)"
  shows "tables_ok (msc_mem b')"
proof -
  from assms(1) obtain m where m: "msc_handle h b = Some m" by (auto simp: USBH_MSC_ClassRequest_def bind_eq_Some_conv)
  have prev: "on_msc (\<lambda>m. Some (m\<lparr>req_state := prev_req_state m\<rparr>)) h1 b1 = Some b2 \<Longrightarrow> tables_ok (msc_mem b1) \<Longrightarrow>
      tables_ok (msc_mem b2)" for h1 b1 b2
    by (erule tables.on_msc_keeps) auto
  have lun: "on_msc (msc_max_lun s1) h1 b1 = Some b2 \<Longrightarrow> tables_ok (msc_mem b1) \<Longrightarrow> tables_ok (msc_mem b2)" for s1 h1 b1 b2
    by (erule tables.on_msc_keeps) (auto elim: max_lun_tables)
  from assms m show ?thesis
    by (cases "req_state m")
      (auto simp: USBH_MSC_ClassRequest_def bind_eq_Some_conv dest!: class_request_mem dest: prev lun split: if_splits)
qed

lemma pipe_mem:
  "USBH_ClosePipe h b p = Some (s, b') \<Longrightarrow> msc_mem b' = msc_mem b"
  "USBH_FreePipe b p = Some (s, b') \<Longrightarrow> msc_mem b' = msc_mem b"
  "USBH_Free_One_Address h b = Some (v, h', b') \<Longrightarrow> msc_mem b' = msc_mem b"
  by (auto simp: USBH_ClosePipe_def USBH_LL_ClosePipe_def HAL_HCD_HC_Halt_def USBH_FreePipe_def USBH_Free_One_Address_def
      addr_clear_def bind_eq_Some_conv Let_def split: if_splits)

lemma InterfaceDeInit_tables:
  assumes "USBH_MSC_InterfaceDeInit h b = Some (s, h', b')" "tables_ok (msc_mem b)"
  shows "tables_ok (msc_mem b')"
  using assms
  by (auto simp: USBH_MSC_InterfaceDeInit_def bind_eq_Some_conv put_msc_def dest!: pipe_mem handle_mem split: if_splits)

text \<open>
  C34: from the moment an interface is bound, whatever the memory of the handle held before, the driver's tables
  have their sizes, and what is stored of the units are strings that end with NUL and fields within their
  ranges: over its class requests, whatever number of units the device sends, the bring-up of the units, reads
  and writes with any answers, the release of the interface and a second binding.
\<close>

theorem unit_tables_typed:
  assumes "disk_life m"
  shows "tables_ok m"
  using assms
proof induction
  case (run m m')
  show ?case by (rule tables.disk_run_keeps [OF run.hyps(2) run.IH])
qed (auto elim: InterfaceInit_tables ClassRequest_tables InterfaceDeInit_tables)

definition disk_itf :: USBH_InterfaceDescTypeDef where
  "disk_itf = zero_itf\<lparr>bNumEndpoints := 2, bInterfaceClass := 0x08, bInterfaceSubClass := 0x06, bInterfaceProtocol := 0x50,
     Ep_Desc := zero_ep\<lparr>bEndpointAddress := 0x82, wMaxPacketSize := 64\<rparr> #
       zero_ep\<lparr>bEndpointAddress := 0x01, wMaxPacketSize := 64\<rparr> # replicate 6 zero_ep\<rparr>"

definition disk_host :: host where
  "disk_host = upd_dev (\<lambda>d. d\<lparr>CfgDesc := zero_cfg\<lparr>bNumInterfaces := 1, Itf_Desc := [disk_itf, zero_itf]\<rparr>\<rparr>)
     (sample_disk\<lparr>RequestState := CMD_WAIT, Control := (Control sample_disk)\<lparr>ctl_state := CTRL_STATUS_OUT_WAIT\<rparr>\<rparr>)"

definition disk_world :: world where
  "disk_world = \<lparr>hs = [0 \<mapsto> disk_host], wb = sample_bus\<lparr>msc_heap := [zero_msc\<lparr>unit_luns := []\<rparr>]\<rparr>,
     mallocs = [], next_hid = 1, clock = 0\<rparr>"

text \<open>Binding over a block with unusable tables, then the class request of a disk with two units.\<close>

definition disk_bound :: "(USBH_StatusTypeDef \<times> world) option" where
  "disk_bound = USBH_MSC_InterfaceInit 0 disk_world"

definition disk_counted :: "world \<Rightarrow> call" where
  "disk_counted w = USBH_MSC_ClassRequest disk_host
     (urb_irq 0 USBH_URB_DONE 0 (put_msc ((msc_mem (wb w))\<lparr>max_lun := 1\<rparr>) (wb w)))"

lemma sample_life:
  "map_option fst disk_bound = Some USBH_OK"
  "map_option (\<lambda>(s, h, b). (s, max_lun (msc_mem b), map prev_ready_state (unit_luns (msc_mem b))))
     (Option.bind disk_bound (\<lambda>(s, w). disk_counted w)) = Some (USBH_OK, 2, [USBH_FAIL, USBH_FAIL])"
  by code_simp+

lemma unit_tables_typed_witness:
  "\<exists>w h b. disk_bound = Some (USBH_OK, w) \<and> disk_counted w = Some (USBH_OK, h, b) \<and>
     tables_ok (msc_mem b) \<and> map prev_ready_state (unit_luns (msc_mem b)) = [USBH_FAIL, USBH_FAIL]"
proof -
  from sample_life(1) obtain w where w: "disk_bound = Some (USBH_OK, w)" by auto
  from sample_life(2) [unfolded w Option.bind.bind_lunit prod.case] obtain h b where b: "disk_counted w = Some (USBH_OK, h, b)"
    and u: "map prev_ready_state (unit_luns (msc_mem b)) = [USBH_FAIL, USBH_FAIL]"
    by (auto simp: map_option_eq_Some simp del: map_eq_Cons_conv)
  have "disk_life (msc_mem (wb w))"
    by (rule disk_life.bind [OF _ w [unfolded disk_bound_def]])
      (simp add: disk_world_def c_sized_def sample_bus_def zero_bus_def zero_msc_def zero_bot_def)
  from disk_life.units [OF this, of 1] have "disk_life (msc_mem b)"
    by (intro disk_life.request [OF _ b [unfolded disk_counted_def]]) (simp add: urb_irq_def put_msc_def)
  from w b unit_tables_typed [OF this] u show ?thesis by (intro exI conjI)
qed

lemma msc_max_lun_iff:
  fixes m :: MSC_HandleTypeDef and s :: USBH_StatusTypeDef
  assumes "length (unit_luns m) = MAX_SUPPORTED_LUN"
  defines "n \<equiv> unat (ucast (if s = USBH_NOT_SUPPORTED then 0 else max_lun m) :: u8)"
  shows "msc_max_lun s m = Some m0 \<Longrightarrow> n < 2 \<and> unat (max_lun m0) = n + 1 \<and> length (unit_luns m0) = 2 \<and> current_lun m0 = current_lun m"
    "msc_max_lun s m = None \<longleftrightarrow> 2 \<le> n"
proof -
  have up: "unat (ucast k :: u32) = unat k" for k :: u8 by transfer simp
  have n: "unat (ucast (ucast v :: u8) + 1 :: u32) = unat (ucast v :: u8) + 1" for v :: u32
    using unsigned_less [of "ucast v :: u8", where ?'a = nat] by (simp add: unat_word_ariths up)
  show "msc_max_lun s m = Some m0 \<Longrightarrow> n < 2 \<and> unat (max_lun m0) = n + 1 \<and> length (unit_luns m0) = 2 \<and> current_lun m0 = current_lun m"
    using assms(1) n by (auto simp: msc_max_lun_def reset_units_def Let_def n_def split: if_splits)
  show "msc_max_lun s m = None \<longleftrightarrow> 2 \<le> n"
    using assms(1) n by (auto simp: msc_max_lun_def reset_units_def Let_def n_def split: if_splits)
qed

text \<open>
  C35: once the class request has returned there is a record for every unit the driver asks: the number
  of units is one or two, the counter never passes it, and the unit under way is inside the table. A
  device that reports more units makes the class request write behind the table instead.
\<close>

theorem unit_counter_bounded:
  assumes "length (unit_luns m) = MAX_SUPPORTED_LUN" "current_lun m = 0"
  shows "if s \<noteq> USBH_NOT_SUPPORTED \<and> 2 \<le> unat (ucast (max_lun m) :: u8) then msc_max_lun s m = None
     else \<exists>m0. msc_max_lun s m = Some m0 \<and> (\<forall>m'. disk_run m0 m' \<longrightarrow> unat (max_lun m') \<in> {1, 2} \<and>
       unat (current_lun m') \<le> unat (max_lun m') \<and> (unit_left m' \<longrightarrow> unat (current_lun m') < length (unit_luns m')))"
proof -
  note lun = msc_max_lun_iff [OF assms(1), of s]
  have run: "unat (max_lun m') \<in> {1, 2} \<and> unat (current_lun m') \<le> unat (max_lun m') \<and>
       (unit_left m' \<longrightarrow> unat (current_lun m') < length (unit_luns m'))"
    if "msc_max_lun s m = Some m0" "disk_run m0 m'" for m0 m'
  proof -
    from lun(1) [OF that(1)] assms(2) have "counter_ok m0" by (auto simp: counter_ok_def)
    with that(2) have "counter_ok m'" by (rule counter.disk_run_keeps)
    then show ?thesis by (auto simp: counter_ok_def unit_left_def word_le_nat_alt word_less_nat_alt)
  qed
  show ?thesis
  proof (cases "msc_max_lun s m")
    case None
    with lun(2) show ?thesis by (auto split: if_splits)
  next
    case (Some m0)
    with lun(2) have "\<not> (s \<noteq> USBH_NOT_SUPPORTED \<and> 2 \<le> unat (ucast (max_lun m) :: u8))" by auto
    with Some run show ?thesis by auto
  qed
qed

lemma unit_counter_bounded_witness:
  "msc_max_lun USBH_OK (zero_msc\<lparr>max_lun := 2\<rparr>) = None \<and>
   (\<exists>m0. msc_max_lun USBH_OK (zero_msc\<lparr>max_lun := 1\<rparr>) = Some m0 \<and> unat (max_lun m0) \<in> {1, 2})"
  using unit_counter_bounded [of "zero_msc\<lparr>max_lun := 2\<rparr>" USBH_OK] unit_counter_bounded [of "zero_msc\<lparr>max_lun := 1\<rparr>" USBH_OK]
    disk_run.start
  by (auto simp: zero_msc_def)

end
