(* ===== verification/MscErrors.thy ===== *)
theory MscErrors
  imports MscSafety
begin

text \<open>
  Error paths of the mass-storage driver that do not do what they are for: the reset recovery is never
  started, a unit that stalls the request for the number of units can never be recovered later, and the
  calls of the application lose the status of a failed command.
\<close>

subsection \<open>Reset recovery\<close>

lemma CtlReq_status:
  assumes "USBH_CtlReq h b buf len = Some (s, h', b')"
  shows "s \<noteq> USBH_UNRECOVERED_ERROR"
proof -
  have "USBH_HandleControl h b = Some (s, h1, b1) \<Longrightarrow> s \<noteq> USBH_UNRECOVERED_ERROR" for h1 b1
    by (auto simp: USBH_HandleControl_def ctl_case_defs bind_eq_Some_conv Let_def
        split: CTRL_StateTypeDef.splits if_splits)
  with assms show ?thesis by (auto elim!: CtlReq_cases)
qed

lemma Abort_status:
  "USBH_MSC_BOT_Abort h b d = Some (s, h', b') \<Longrightarrow> s \<noteq> USBH_UNRECOVERED_ERROR \<and> msc_mem b' = msc_mem b"
  by (frule request_mem) (auto simp: USBH_MSC_BOT_Abort_def USBH_ClrFeature_def Let_def bind_eq_Some_conv dest!: CtlReq_status)

definition recovering :: "MSC_HandleTypeDef \<Rightarrow> bool" where
  "recovering m \<longleftrightarrow> bot_state (hbot m) = BOT_UNRECOVERED_ERROR"

lemma recovering_simps [simp]:
  "recovering (set_bot s m) \<longleftrightarrow> s = BOT_UNRECOVERED_ERROR" "recovering (bot_advance z m) = recovering m"
  "recovering (upd_bot (\<lambda>t. t\<lparr>bot_data := d, csw := c\<rparr>) m) = recovering m"
  by (simp_all add: recovering_def)

lemma transport_step_alive:
  assumes "USBH_MSC_BOT_Process lun h b = Some (s, h', b')" "\<not> recovering (msc_mem b)"
  shows "\<not> recovering (msc_mem b') \<and> s \<noteq> USBH_UNRECOVERED_ERROR"
proof -
  from assms(1) obtain m where m: "msc_handle h b = Some m" by (auto simp: USBH_MSC_BOT_Process_def bind_eq_Some_conv)
  note mm = handle_mem [OF this]
  have ended: "\<not> recovering (upd_bot (\<lambda>t. t\<lparr>bot_state := BOT_SEND_CBW, cmd_state := BOT_CMD_SEND\<rparr>) m)"
    and after: "after_cbw c \<noteq> BOT_UNRECOVERED_ERROR" for c
    by (simp_all add: recovering_def after_cbw_def)
  note steps = bot_send_cbw_def bot_send_cbw_wait_def bot_data_in_def bot_data_in_wait_def bot_receive_def
    bot_data_out_def bot_data_out_wait_def bot_transmit_def bot_receive_csw_def bot_receive_csw_wait_def
    bot_error_in_def bot_error_out_def
  show ?thesis
    using assms m mm ended after
    by (cases "bot_state (hbot m)")
      (auto simp: USBH_MSC_BOT_Process_def steps Let_def bind_eq_Some_conv request_iff on_msc_iff recovering_def
        split: if_splits dest!: Abort_status handle_mem)
qed

text \<open>What happens to the transport: commands are started, polled, and the device answers.\<close>

inductive transport_run :: "MSC_HandleTypeDef \<Rightarrow> MSC_HandleTypeDef \<Rightarrow> bool" for m0 where
  start: "transport_run m0 m0"
| send: "\<lbrakk>transport_run m0 m; scsi_send len fl n sets m = Some m'\<rbrakk> \<Longrightarrow> transport_run m0 (set_pbuf p m')"
| poll: "\<lbrakk>transport_run m0 (msc_mem b); USBH_MSC_BOT_Process lun h b = Some (s, h', b')\<rbrakk> \<Longrightarrow> transport_run m0 (msc_mem b')"
| data: "transport_run m0 m \<Longrightarrow> transport_run m0 (upd_bot (\<lambda>t. t\<lparr>bot_data := d, csw := c\<rparr>) m)"

text \<open>
  C38: the transport never enters its reset recovery, however often the device stalls or breaks the
  protocol: the state is entered only on a result that no control request gives, and a poll never
  reports it.
\<close>

theorem reset_recovery_dead:
  assumes "transport_run (USBH_MSC_BOT_Init m0) m"
  shows "bot_state (hbot m) \<noteq> BOT_UNRECOVERED_ERROR \<and>
    (\<forall>lun h b s h' b'. msc_mem b = m \<longrightarrow> USBH_MSC_BOT_Process lun h b = Some (s, h', b') \<longrightarrow> s \<noteq> USBH_UNRECOVERED_ERROR)"
proof -
  have "\<not> recovering m"
    using assms
  proof (induction rule: transport_run.induct)
    case start
    show ?case by (simp add: recovering_def USBH_MSC_BOT_Init_def)
  next
    case (send m len fl n sets m' p)
    then show ?case by (auto simp: scsi_send_def set_pbuf_def recovering_def bind_eq_Some_conv)
  next
    case poll
    then show ?case by (blast dest: transport_step_alive)
  qed simp
  then show ?thesis using transport_step_alive by (auto simp: recovering_def)
qed

lemma reset_recovery_dead_witness:
  "bot_state (hbot (upd_bot (\<lambda>t. t\<lparr>bot_data := [], csw := []\<rparr>) (USBH_MSC_BOT_Init zero_msc))) \<noteq> BOT_UNRECOVERED_ERROR"
  using reset_recovery_dead [OF transport_run.data [OF transport_run.start, of "USBH_MSC_BOT_Init zero_msc" "[]" "[]"]] by simp

subsection \<open>After a stalled request for the number of units\<close>

fun bot_polls :: "nat \<Rightarrow> u8 \<Rightarrow> host \<Rightarrow> bus \<Rightarrow> (USBH_StatusTypeDef list \<times> host \<times> bus) option" where
  "bot_polls 0 lun h b = Some ([], h, b)"
| "bot_polls (Suc n) lun h b = do {
     (s, h, b) \<leftarrow> USBH_MSC_BOT_Process lun h b;
     (ss, h, b) \<leftarrow> bot_polls n lun h b;
     Some (s # ss, h, b)
   }"

lemma stalled_abort:
  assumes "stalled h b" "msc_handle h b = Some m" "bot_state (hbot m) \<in> {BOT_ERROR_IN, BOT_ERROR_OUT}"
  shows "USBH_MSC_BOT_Process lun h b = Some (USBH_BUSY, h, ctl_event b) \<and> stalled h (ctl_event b) \<and>
     msc_handle h (ctl_event b) = Some m"
proof -
  have "RequestState h \<noteq> CMD_SEND" using assms(1) by (simp add: stalled_def)
  then have "USBH_ClrFeature h b ep = Some (USBH_NOT_SUPPORTED, h, ctl_event b)" for ep
    using stalled_step [OF assms(1)] by (simp add: USBH_ClrFeature_def)
  moreover have "msc_handle h (ctl_event b) = Some m" using assms(2) by (simp add: msc_handle_def ctl_event_def split: if_splits)
  ultimately show ?thesis using assms stalled_step [OF assms(1)]
    by (auto simp: USBH_MSC_BOT_Process_def bot_error_in_def bot_error_out_def USBH_MSC_BOT_Abort_def)
qed

lemma stalled_polls:
  "\<lbrakk>stalled h b; msc_handle h b = Some m; bot_state (hbot m) \<in> {BOT_ERROR_IN, BOT_ERROR_OUT}\<rbrakk> \<Longrightarrow>
     \<exists>b'. bot_polls n lun h b = Some (replicate n USBH_BUSY, h, b') \<and> msc_handle h b' = Some m"
proof (induction n arbitrary: b)
  case (Suc n)
  note 1 = stalled_abort [OF Suc.prems, of lun]
  with Suc.IH [of "ctl_event b"] Suc.prems(3) show ?case by fastforce
qed simp

text \<open>
  A device with a single unit may stall the request for the number of units. The driver accepts
  that and goes on, but the control machine stays where it is: from then on a bulk transfer that stalls
  is never recovered, the transport reports busy for ever.
\<close>

theorem stalled_unit_request:
  assumes "stalled h b" "msc_handle h b = Some m" "req_state m = MSC_REQ_IDLE" "length (unit_luns m) = MAX_SUPPORTED_LUN"
  shows "\<exists>h1 b1 m1. USBH_MSC_ClassRequest h b = Some (USBH_OK, h1, b1) \<and> msc_handle h1 b1 = Some m1 \<and> max_lun m1 = 1 \<and>
     stalled h1 b1 \<and>
     (\<forall>b2 m2 n lun. bus_frame b1 (put_msc m1 b2) \<longrightarrow> urb_state (hc b2 ! unat (pipe_in (Control h1))) = USBH_URB_STALL \<longrightarrow>
       msc_handle h1 b2 = Some m2 \<longrightarrow> bot_state (hbot m2) \<in> {BOT_ERROR_IN, BOT_ERROR_OUT} \<longrightarrow>
       (\<exists>b3. bot_polls n lun h1 b2 = Some (replicate n USBH_BUSY, h1, b3) \<and> msc_handle h1 b3 = Some m2))"
proof -
  let ?h = "set_setup (USB_D2H OR USB_REQ_TYPE_CLASS OR USB_REQ_RECIPIENT_INTERFACE) USB_REQ_GET_MAX_LUN 0 0 1 h"
  have st: "stalled ?h b" using assms(1) by (simp add: stalled_def set_setup_def upd_ctl_def pipes_open_def ctl_ok_def)
  have h: "msc_handle ?h b = Some m" using assms(2) by (simp add: msc_handle_def set_setup_def upd_ctl_def split: if_splits)
  note 1 = stalled_step [OF st, of MaxLun_buf 1]
  have h1: "msc_handle ?h (ctl_event b) = Some m" using h by (simp add: msc_handle_def ctl_event_def split: if_splits)
  have "\<exists>m1. msc_max_lun USBH_NOT_SUPPORTED m = Some m1" using msc_max_lun_iff(2) [OF assms(4), of USBH_NOT_SUPPORTED] by auto
  then obtain m1 where m1: "msc_max_lun USBH_NOT_SUPPORTED m = Some m1" by blast
  have "unat (max_lun m1) = 1" using msc_max_lun_iff(1) [OF assms(4) m1] by simp
  then have max1: "max_lun m1 = 1" by (simp add: word_unat_eq_iff)
  let ?b1 = "put_msc m1 (ctl_event b)"
  have r: "USBH_MSC_ClassRequest h b = Some (USBH_OK, ?h, ?b1)"
    using assms(2,3) 1 h1 m1 by (simp add: USBH_MSC_ClassRequest_def USBH_MSC_BOT_REQ_GetMaxLUN_def on_msc_def)
  have s1: "stalled ?h ?b1"
    using 1 by (simp add: stalled_def pipes_open_def ctl_ok_def pipes_ok_def)
  have "stalled ?h b2" if "bus_frame ?b1 (put_msc m1 b2)" "urb_state (hc b2 ! unat (pipe_in (Control ?h))) = USBH_URB_STALL" for b2
    using s1 that by (simp add: stalled_def pipes_open_def ctl_ok_def pipes_ok_def bus_frame_def)
  with stalled_polls r s1 max1 msc_handle_put [OF h1] show ?thesis by blast
qed

lemma stalled_unit_request_witness:
  "\<exists>h1 b1 m1. USBH_MSC_ClassRequest (sample_stalled\<lparr>pActiveClass := Some MSC_Class\<rparr>)
      (urb_irq 1 USBH_URB_STALL 0 (sample_disk_bus sample_msc)) = Some (USBH_OK, h1, b1) \<and>
    msc_handle h1 b1 = Some m1 \<and> max_lun m1 = 1 \<and> stalled h1 b1"
proof -
  let ?h = "sample_stalled\<lparr>pActiveClass := Some MSC_Class\<rparr>" and ?b = "urb_irq 1 USBH_URB_STALL 0 (sample_disk_bus sample_msc)"
  have "pipes_open sample_stalled (urb_irq 1 USBH_URB_STALL 0 sample_bus)"
    by (rule pipes_open_frame [OF sample_open]) (simp_all add: sample_stalled_def bus_frame_def urb_irq_def)
  then have "stalled ?h ?b"
    by (simp add: stalled_def pipes_open_def ctl_ok_def pipes_ok_def urb_irq_def sample_disk_bus_def)
      (simp add: sample_stalled_def sample_host_def zero_ctrl_def sample_bus_def zero_bus_def)
  moreover have "msc_handle ?h ?b = Some sample_msc" by (simp add: msc_handle_def urb_irq_def sample_disk_bus_def)
  moreover have "req_state sample_msc = MSC_REQ_IDLE" "length (unit_luns sample_msc) = MAX_SUPPORTED_LUN"
    by (simp_all add: sample_msc_def USBH_MSC_BOT_Init_def upd_bot_def zero_msc_def)
  ultimately show ?thesis using stalled_unit_request [of ?h ?b sample_msc] by blast
qed

subsection \<open>The status of a failed command\<close>

lemmas rw_wait_induct = rw_wait.raw_induct [where xa = "(((((e, y), n), t0), lim), v)" for e y n t0 lim v, unfolded prod.case]

definition gave_up :: "hid \<Rightarrow> u32 \<Rightarrow> u32 \<Rightarrow> world \<Rightarrow> bool" where
  "gave_up x start limit w \<longleftrightarrow> (\<exists>h. hs w x = Some h \<and> (Timer h - start > limit \<or> is_connected (device h) = 0))"

lemma set_msc_state_host:
  "on_host x (set_msc_state st) w = Some (s, w') \<Longrightarrow> s = USBH_OK \<and> hs w' x = hs w x"
  by (auto simp: on_host_eq_Some_iff set_msc_state_def bind_eq_Some_conv)

lemma rw_wait_result:
  "rw_wait env x lun start limit w = Some r \<Longrightarrow> fst r = USBH_OK \<or> fst r = USBH_FAIL \<and> gave_up x start limit (snd r)"
proof (erule rw_wait_induct [rotated])
  fix wait :: "usb_env \<Rightarrow> hid \<Rightarrow> u8 \<Rightarrow> u32 \<Rightarrow> u32 \<Rightarrow> world \<Rightarrow> wcall" and e y n t0 lim v r
  assume ih: "\<And>e y n t0 lim v r. wait e y n t0 lim v = Some r \<Longrightarrow> fst r = USBH_OK \<or> fst r = USBH_FAIL \<and> gave_up y t0 lim (snd r)"
    and r: "do {
       (s, w) \<leftarrow> on_host y (USBH_MSC_RdWrProcess n) v;
       (if s = USBH_BUSY then do {
          h \<leftarrow> hs w y;
          (if Timer h - t0 > lim \<or> is_connected (device h) = 0 then do {
             (_, w) \<leftarrow> on_host y (set_msc_state MSC_IDLE) w;
             Some (USBH_FAIL, w)
           }
           else do { w \<leftarrow> tick e w; wait e y n t0 lim w })
        }
        else on_host y (set_msc_state MSC_IDLE) w)
     } = Some r"
  from r obtain s u where s: "on_host y (USBH_MSC_RdWrProcess n) v = Some (s, u)" by (auto simp: bind_eq_Some_conv)
  show "fst r = USBH_OK \<or> fst r = USBH_FAIL \<and> gave_up y t0 lim (snd r)"
  proof (cases "s = USBH_BUSY")
    case True
    with r s obtain h where h: "hs u y = Some h" by (auto simp: bind_eq_Some_conv)
    show ?thesis
    proof (cases "Timer h - t0 > lim \<or> is_connected (device h) = 0")
      case stop: True
      with r s True h obtain s1 u1 where u1: "on_host y (set_msc_state MSC_IDLE) u = Some (s1, u1)" and "r = (USBH_FAIL, u1)"
        by (auto simp: bind_eq_Some_conv)
      with stop h set_msc_state_host [OF u1] show ?thesis by (auto simp: gave_up_def)
    next
      case False
      with r s True h obtain u1 where "wait e y n t0 lim u1 = Some r" by (auto simp: bind_eq_Some_conv)
      then show ?thesis by (rule ih)
    qed
  next
    case False
    with r s have u1: "on_host y (set_msc_state MSC_IDLE) u = Some r" by simp
    then show ?thesis using set_msc_state_host [of y MSC_IDLE u "fst r" "snd r"] by simp
  qed
qed

lemma rw_start_timer:
  assumes "on_host x (scsi_rw out lun address p len) w = Some (s, w')" "hs w x = Some h" "hs w' x = Some h'"
  shows "Timer h' = Timer h"
proof -
  from assms obtain b' where "scsi_rw out lun address p len h (wb w) = Some (s, h', b')"
    by (auto simp: on_host_eq_Some_iff)
  then have "req_frame h h'" by (cases out) (auto simp: scsi_rw_def scsi_defs dest: scsi_cmd_frame)
  then show ?thesis by (simp add: req_frame_def)
qed

text \<open>The two calls of the application, by direction.\<close>

definition msc_call :: "bool \<Rightarrow> usb_env \<Rightarrow> hid \<Rightarrow> u8 \<Rightarrow> u32 \<Rightarrow> buf_ptr \<Rightarrow> u32 \<Rightarrow> world \<Rightarrow> wcall" where
  "msc_call out = (if out then USBH_MSC_Write else USBH_MSC_Read)"

text \<open>
  C37: once a read or write of the application has begun, it reports success unless its time is up or
  the device is gone when it returns: what the device says of the command, failed or not, does not reach
  the caller.
\<close>

theorem rw_status_lost:
  assumes "msc_call out env x lun address p len w = Some (s, w')" "hs w x = Some h" "rw_idle lun h (wb w) = Some True"
    and "hs w' x = Some h'" "is_connected (device h') \<noteq> 0" "Timer h' - Timer h \<le> 10000 * len"
  shows "s = USBH_OK"
proof -
  from assms(1-3) obtain st b s1 w1 h1 where b: "on_host x (scsi_rw out lun address p len) (w\<lparr>wb := b\<rparr>) = Some (s1, w1)"
    and h1: "hs w1 x = Some h1" and r: "rw_wait env x lun (Timer h1) (10000 * len) w1 = Some (s, w')"
    by (cases out) (auto simp: msc_call_def USBH_MSC_Read_def USBH_MSC_Write_def msc_rw_def scsi_rw_def bind_eq_Some_conv)
  have "Timer h1 = Timer h" by (rule rw_start_timer [OF b _ h1]) (simp add: assms(2))
  with rw_wait_result [OF r] assms(4-6) show ?thesis by (auto simp: gave_up_def)
qed

text \<open>A read whose status the device reports as failed, and the sense data that follows.\<close>

declare rw_wait.simps [code]

definition failing_env :: usb_env where
  "failing_env = \<lparr>e_Init = \<lambda>_ _ _. None, e_DeInit = \<lambda>_ _ _. None, e_Requests = \<lambda>_ _ _. None,
     e_BgndProcess = \<lambda>_ _ _. None, e_SOFProcess = \<lambda>_ _ _. None, e_user = \<lambda>_ _ w. Some w,
     e_irq = \<lambda>k w. Some (mod_bus (answered (Answered 13 (replicate 18 0x23) (if k < 6 then good_csw[12 := 1] else good_csw))) w)\<rparr>"

definition plugged_disk :: host where
  "plugged_disk = upd_dev (\<lambda>d. d\<lparr>is_connected := 1\<rparr>) sample_disk"

definition sample_disk_world :: world where
  "sample_disk_world = \<lparr>hs = [0 \<mapsto> plugged_disk], wb = sample_disk_bus (sample_msc\<lparr>msc_InEpSize := 512,
     unit_luns := replicate 2 (zero_lun\<lparr>lun_state := MSC_IDLE\<rparr>)\<rparr>), mallocs = [], next_hid = 1, clock = 0\<rparr>"

lemma failed_read:
  "map_option (\<lambda>(s, w). (map_option (\<lambda>h. (is_connected (device h), Timer h)) (hs w 0), lun_error (unit_luns (msc_mem (wb w)) ! 0)))
     (msc_call False failing_env 0 0 5 (Mem 0) 1 sample_disk_world) = Some (Some (1, Timer plugged_disk), MSC_ERROR)"
  by code_simp

lemma rw_status_lost_witness:
  "\<exists>w'. msc_call False failing_env 0 0 5 (Mem 0) 1 sample_disk_world = Some (USBH_OK, w') \<and>
     lun_error (unit_luns (msc_mem (wb w')) ! 0) = MSC_ERROR"
proof -
  from failed_read obtain s w' h' where 1: "msc_call False failing_env 0 0 5 (Mem 0) 1 sample_disk_world = Some (s, w')"
    "hs w' 0 = Some h'" "is_connected (device h') = 1" "Timer h' = Timer plugged_disk"
    "lun_error (unit_luns (msc_mem (wb w')) ! 0) = MSC_ERROR" by auto
  moreover have "hs sample_disk_world 0 = Some plugged_disk" by (simp add: sample_disk_world_def)
  moreover have "rw_idle 0 plugged_disk (wb sample_disk_world) = Some True" by code_simp
  ultimately show ?thesis using rw_status_lost [OF 1(1), of plugged_disk h'] by simp
qed

end
