(* ===== verification/HcdInit.thy ===== *)
theory HcdInit
  imports HcdIrq
begin

text \<open>
  The bring-up of the controller: \<^verbatim>\<open>HAL_HCD_Init\<close> and \<^verbatim>\<open>HAL_HCD_DeInit\<close> of
  \<^verbatim>\<open>Driver/Src/stm32f1xx_hal_hcd.c\<close>, the core and host initialisation, the flushing of the FIFOs and the
  waits of \<^verbatim>\<open>USB_StopHost\<close> in \<^verbatim>\<open>Driver/Src/stm32f1xx_ll_usb.c\<close>, and the settings of \<^verbatim>\<open>USBH_LL_Init\<close>.

  \<^verbatim>\<open>GRSTCTL\<close> changes by itself: \<open>rs k\<close> is what its \<open>k\<close>-th read gives, what the code writes into it is
  recorded. The other registers keep their values. Of the pins, clocks and interrupt lines set up by
  \<^verbatim>\<open>HAL_HCD_MspInit\<close> only the clock of the peripheral is kept.
\<close>

subsection \<open>Settings and registers\<close>

datatype HAL_StatusTypeDef = HAL_OK | HAL_ERROR | HAL_BUSY | HAL_TIMEOUT

datatype HCD_StateTypeDef =
  HAL_HCD_STATE_RESET | HAL_HCD_STATE_READY | HAL_HCD_STATE_ERROR | HAL_HCD_STATE_BUSY | HAL_HCD_STATE_TIMEOUT

datatype USB_ModeTypeDef = USB_DEVICE_MODE | USB_HOST_MODE | USB_DRD_MODE

record USB_OTG_CfgTypeDef =
  cfg_dev_endpoints :: u32
  cfg_Host_channels :: u32
  cfg_speed :: u32
  cfg_dma_enable :: u32
  cfg_ep0_mps :: u32
  cfg_phy_itface :: u32
  cfg_Sof_enable :: u32
  cfg_low_power_enable :: u32
  cfg_lpm_enable :: u32
  cfg_battery_charging_enable :: u32
  cfg_vbus_sensing_enable :: u32
  cfg_use_dedicated_ep1 :: u32
  cfg_use_external_vbus :: u32

record core_regs =
  host_regs :: otg
  GAHBCFG :: u32
  GUSBCFG :: u32
  GCCFG :: u32
  PCGCCTL :: u32
  GRXFSIZ :: u32
  DIEPTXF0_HNPTXFSIZ :: u32
  HPTXFSIZ :: u32
  grst_written :: "u32 list"
  grst_reads :: nat
  core_delays :: "u32 list"

record hcd =
  hcd_Init :: USB_OTG_CfgTypeDef
  hcd_State :: HCD_StateTypeDef
  hcd_regs :: core_regs
  otg_clock :: bool

abbreviation GAHBCFG_GINT :: u32 where "GAHBCFG_GINT \<equiv> 0x1"
abbreviation GCCFG_PWRDWN :: u32 where "GCCFG_PWRDWN \<equiv> 0x10000"
abbreviation GCCFG_VBUSASEN :: u32 where "GCCFG_VBUSASEN \<equiv> 0x40000"
abbreviation GCCFG_VBUSBSEN :: u32 where "GCCFG_VBUSBSEN \<equiv> 0x80000"
abbreviation GUSBCFG_PHYSEL :: u32 where "GUSBCFG_PHYSEL \<equiv> 0x40"
abbreviation GUSBCFG_ULPIFSLS :: u32 where "GUSBCFG_ULPIFSLS \<equiv> 0x20000"
abbreviation GUSBCFG_ULPIEVBUSD :: u32 where "GUSBCFG_ULPIEVBUSD \<equiv> 0x100000"
abbreviation GUSBCFG_ULPIEVBUSI :: u32 where "GUSBCFG_ULPIEVBUSI \<equiv> 0x200000"
abbreviation GUSBCFG_TSDPS :: u32 where "GUSBCFG_TSDPS \<equiv> 0x400000"
abbreviation GUSBCFG_FHMOD :: u32 where "GUSBCFG_FHMOD \<equiv> 0x20000000"
abbreviation GUSBCFG_FDMOD :: u32 where "GUSBCFG_FDMOD \<equiv> 0x40000000"
abbreviation HCFG_FSLSS :: u32 where "HCFG_FSLSS \<equiv> 0x4"
abbreviation GRSTCTL_CSRST :: u32 where "GRSTCTL_CSRST \<equiv> 0x1"
abbreviation GRSTCTL_RXFFLSH :: u32 where "GRSTCTL_RXFFLSH \<equiv> 0x10"
abbreviation GRSTCTL_TXFFLSH :: u32 where "GRSTCTL_TXFFLSH \<equiv> 0x20"
abbreviation GRSTCTL_AHBIDL :: u32 where "GRSTCTL_AHBIDL \<equiv> 0x80000000"
abbreviation GINTMSK_SOFM :: u32 where "GINTMSK_SOFM \<equiv> 0x8"
abbreviation GINTMSK_RXFLVLM :: u32 where "GINTMSK_RXFLVLM \<equiv> 0x10"
abbreviation GINTMSK_PXFRM_IISOOXFRM :: u32 where "GINTMSK_PXFRM_IISOOXFRM \<equiv> 0x200000"
abbreviation GINTMSK_PRTIM :: u32 where "GINTMSK_PRTIM \<equiv> 0x1000000"
abbreviation GINTMSK_WUIM :: u32 where "GINTMSK_WUIM \<equiv> 0x80000000"
abbreviation USB_OTG_ULPI_PHY :: u32 where "USB_OTG_ULPI_PHY \<equiv> 1"
abbreviation USB_OTG_EMBEDDED_PHY :: u32 where "USB_OTG_EMBEDDED_PHY \<equiv> 2"

definition on_otg :: "(otg \<Rightarrow> otg) \<Rightarrow> core_regs \<Rightarrow> core_regs" where
  "on_otg f c = c\<lparr>host_regs := f (host_regs c)\<rparr>"

definition wr_grst :: "u32 \<Rightarrow> core_regs \<Rightarrow> core_regs" where
  "wr_grst v c = c\<lparr>grst_written := grst_written c @ [v]\<rparr>"

definition rd_grst :: "(nat \<Rightarrow> u32) \<Rightarrow> core_regs \<Rightarrow> u32 \<times> core_regs" where
  "rd_grst rs c = (rs (grst_reads c), c\<lparr>grst_reads := Suc (grst_reads c)\<rparr>)"

definition HAL_Delay :: "u32 \<Rightarrow> core_regs \<Rightarrow> core_regs" where
  "HAL_Delay n c = c\<lparr>core_delays := core_delays c @ [n]\<rparr>"

subsection \<open>The core\<close>

text \<open>The waiting loop that gives up after \<open>n\<close> reads; \<open>busy\<close> is its condition.\<close>

fun wait_grst :: "(u32 \<Rightarrow> bool) \<Rightarrow> (nat \<Rightarrow> u32) \<Rightarrow> nat \<Rightarrow> core_regs \<Rightarrow> HAL_StatusTypeDef \<times> core_regs" where
  "wait_grst busy rs 0 c = (HAL_TIMEOUT, c)"
| "wait_grst busy rs (Suc n) c =
     (case rd_grst rs c of (v, c) \<Rightarrow> if busy v then wait_grst busy rs n c else (HAL_OK, c))"

definition USB_EnableGlobalInt :: "core_regs \<Rightarrow> core_regs" where
  "USB_EnableGlobalInt c = c\<lparr>GAHBCFG := GAHBCFG c OR GAHBCFG_GINT\<rparr>"

definition USB_DisableGlobalInt :: "core_regs \<Rightarrow> core_regs" where
  "USB_DisableGlobalInt c = c\<lparr>GAHBCFG := GAHBCFG c AND NOT GAHBCFG_GINT\<rparr>"

definition USB_CoreReset :: "(nat \<Rightarrow> u32) \<Rightarrow> core_regs \<Rightarrow> HAL_StatusTypeDef \<times> core_regs" where
  "USB_CoreReset rs c =
     (case wait_grst (\<lambda>v. v AND GRSTCTL_AHBIDL = 0) rs 200000 c of (s, c) \<Rightarrow>
      if s = HAL_TIMEOUT then (HAL_TIMEOUT, c)
      else case rd_grst rs c of (v, c) \<Rightarrow>
        wait_grst (\<lambda>v. v AND GRSTCTL_CSRST = GRSTCTL_CSRST) rs 200000 (wr_grst (v OR GRSTCTL_CSRST) c))"

definition USB_CoreInit :: "(nat \<Rightarrow> u32) \<Rightarrow> USB_OTG_CfgTypeDef \<Rightarrow> core_regs \<Rightarrow> HAL_StatusTypeDef \<times> core_regs" where
  "USB_CoreInit rs cfg c =
     (if cfg_phy_itface cfg = USB_OTG_ULPI_PHY then
        (let c = c\<lparr>GCCFG := GCCFG c AND NOT GCCFG_PWRDWN,
               GUSBCFG := (GUSBCFG c AND NOT (GUSBCFG_TSDPS OR GUSBCFG_ULPIFSLS OR GUSBCFG_PHYSEL))
                 AND NOT (GUSBCFG_ULPIEVBUSD OR GUSBCFG_ULPIEVBUSI)\<rparr>;
             c = (if cfg_use_external_vbus cfg = 1 then c\<lparr>GUSBCFG := GUSBCFG c OR GUSBCFG_ULPIEVBUSD\<rparr> else c)
         in USB_CoreReset rs c)
      else
        (case USB_CoreReset rs (c\<lparr>GUSBCFG := GUSBCFG c OR GUSBCFG_PHYSEL\<rparr>) of (s, c) \<Rightarrow>
           (s, c\<lparr>GCCFG := GCCFG c OR GCCFG_PWRDWN\<rparr>)))"

definition USB_SetCurrentMode :: "USB_ModeTypeDef \<Rightarrow> core_regs \<Rightarrow> HAL_StatusTypeDef \<times> core_regs" where
  "USB_SetCurrentMode mode c =
     (let c = c\<lparr>GUSBCFG := GUSBCFG c AND NOT (GUSBCFG_FHMOD OR GUSBCFG_FDMOD)\<rparr>
      in case mode of
           USB_HOST_MODE \<Rightarrow> (HAL_OK, HAL_Delay 50 (c\<lparr>GUSBCFG := GUSBCFG c OR GUSBCFG_FHMOD\<rparr>))
         | USB_DEVICE_MODE \<Rightarrow> (HAL_OK, HAL_Delay 50 (c\<lparr>GUSBCFG := GUSBCFG c OR GUSBCFG_FDMOD\<rparr>))
         | USB_DRD_MODE \<Rightarrow> (HAL_ERROR, c))"

definition USB_FlushTxFifo :: "(nat \<Rightarrow> u32) \<Rightarrow> u32 \<Rightarrow> core_regs \<Rightarrow> HAL_StatusTypeDef \<times> core_regs" where
  "USB_FlushTxFifo rs num c =
     wait_grst (\<lambda>v. v AND GRSTCTL_TXFFLSH = GRSTCTL_TXFFLSH) rs 200000 (wr_grst (GRSTCTL_TXFFLSH OR push_bit 6 num) c)"

definition USB_FlushRxFifo :: "(nat \<Rightarrow> u32) \<Rightarrow> core_regs \<Rightarrow> HAL_StatusTypeDef \<times> core_regs" where
  "USB_FlushRxFifo rs c =
     wait_grst (\<lambda>v. v AND GRSTCTL_RXFFLSH = GRSTCTL_RXFFLSH) rs 200000 (wr_grst GRSTCTL_RXFFLSH c)"

subsection \<open>The host\<close>

text \<open>There are 16 register sets; more channels would clear what lies behind them.\<close>

fun clear_chans :: "nat \<Rightarrow> otg \<Rightarrow> otg option" where
  "clear_chans 0 u = Some u"
| "clear_chans (Suc n) u = do {
     u \<leftarrow> clear_chans n u;
     upd_chan n (\<lambda>r. r\<lparr>HCINT := HCINT r AND NOT 0xFFFFFFFF, HCINTMSK := 0\<rparr>) u
   }"

definition host_intmsk :: "otg \<Rightarrow> otg" where
  "host_intmsk u =
     (let u = u\<lparr>GINTMSK := GINTMSK u OR GINTMSK_RXFLVLM\<rparr>
      in u\<lparr>GINTMSK := GINTMSK u OR (GINTMSK_PRTIM OR GINTMSK_HCIM OR GINTMSK_SOFM OR GINT_DISCINT OR
           GINTMSK_PXFRM_IISOOXFRM OR GINTMSK_WUIM)\<rparr>)"

definition USB_HostInit :: "(nat \<Rightarrow> u32) \<Rightarrow> USB_OTG_CfgTypeDef \<Rightarrow> core_regs \<Rightarrow> (HAL_StatusTypeDef \<times> core_regs) option" where
  "USB_HostInit rs cfg c = do {
     let c = on_otg (\<lambda>u. u\<lparr>HCFG := HCFG u AND NOT HCFG_FSLSS\<rparr>)
           (c\<lparr>PCGCCTL := 0, GCCFG := (GCCFG c AND NOT GCCFG_VBUSASEN) AND NOT GCCFG_VBUSBSEN\<rparr>);
     let c = snd (USB_FlushRxFifo rs (snd (USB_FlushTxFifo rs 0x10 c)));
     u \<leftarrow> clear_chans (unat (cfg_Host_channels cfg)) (host_regs c);
     let c = HAL_Delay 200 (c\<lparr>host_regs := USB_DriveVbus 1 u\<rparr>);
     let c = on_otg (\<lambda>u. host_intmsk (u\<lparr>GINTMSK := 0\<rparr>)) (c\<lparr>GRXFSIZ := 0x80,
           DIEPTXF0_HNPTXFSIZ := (push_bit 16 0x60 AND 0xFFFF0000) OR 0x80,
           HPTXFSIZ := (push_bit 16 0x40 AND 0xFFFF0000) OR 0xE0\<rparr>);
     Some (HAL_OK, c)
   }"

subsection \<open>The HAL\<close>

definition HAL_HCD_MspInit :: "hcd \<Rightarrow> hcd" where
  "HAL_HCD_MspInit h = h\<lparr>otg_clock := True\<rparr>"

definition HAL_HCD_MspDeInit :: "hcd \<Rightarrow> hcd" where
  "HAL_HCD_MspDeInit h = h\<lparr>otg_clock := False\<rparr>"

text \<open>\<open>cid\<close> is what the identification register reads.\<close>

definition HAL_HCD_Init :: "(nat \<Rightarrow> u32) \<Rightarrow> u32 \<Rightarrow> hcd \<Rightarrow> (HAL_StatusTypeDef \<times> hcd) option" where
  "HAL_HCD_Init rs cid h = do {
     let h = (if hcd_State h = HAL_HCD_STATE_RESET then HAL_HCD_MspInit h else h);
     let h = h\<lparr>hcd_State := HAL_HCD_STATE_BUSY\<rparr>;
     let h = (if cid AND push_bit 8 1 = 0 then h\<lparr>hcd_Init := (hcd_Init h)\<lparr>cfg_dma_enable := 0\<rparr>\<rparr> else h);
     let c = snd (USB_CoreInit rs (hcd_Init h) (USB_DisableGlobalInt (hcd_regs h)));
     (_, c) \<leftarrow> USB_HostInit rs (hcd_Init h) (snd (USB_SetCurrentMode USB_HOST_MODE c));
     Some (HAL_OK, h\<lparr>hcd_regs := c, hcd_State := HAL_HCD_STATE_READY\<rparr>)
   }"

definition HAL_HCD_DeInit :: "hcd \<Rightarrow> HAL_StatusTypeDef \<times> hcd" where
  "HAL_HCD_DeInit h =
     (let h = HAL_HCD_MspDeInit (h\<lparr>hcd_State := HAL_HCD_STATE_BUSY\<rparr>)
      in (HAL_OK, h\<lparr>hcd_regs := USB_DisableGlobalInt (hcd_regs h), hcd_State := HAL_HCD_STATE_RESET\<rparr>))"

text \<open>What the library sets before it initialises the HAL; the rest of the handle is static and starts as zero.\<close>

definition ll_settings :: "USB_OTG_CfgTypeDef \<Rightarrow> USB_OTG_CfgTypeDef" where
  "ll_settings i = i\<lparr>cfg_Host_channels := of_nat Host_channels, cfg_low_power_enable := 0, cfg_Sof_enable := 0,
     cfg_speed := 1, cfg_vbus_sensing_enable := 0, cfg_phy_itface := USB_OTG_EMBEDDED_PHY\<rparr>"

definition HAL_HCD_GetState :: "hcd \<Rightarrow> HCD_StateTypeDef" where
  "HAL_HCD_GetState h = hcd_State h"

definition HAL_HCD_HC_GetState :: "bus \<Rightarrow> u8 \<Rightarrow> USB_OTG_HCStateTypeDef option" where
  "HAL_HCD_HC_GetState b ch = map_option hc_state (rd (hc b) (unat ch))"

definition USB_GetCurrentFrame :: "otg \<Rightarrow> u32" where
  "USB_GetCurrentFrame u = HFNUM u AND 0xFFFF"

definition HAL_HCD_GetCurrentFrame :: "hcd \<Rightarrow> u32" where
  "HAL_HCD_GetCurrentFrame h = USB_GetCurrentFrame (host_regs (hcd_regs h))"

definition HAL_HCD_GetCurrentSpeed :: "hcd \<Rightarrow> u32" where
  "HAL_HCD_GetCurrentSpeed h = USB_GetHostSpeed (host_regs (hcd_regs h))"

text \<open>The whole of a stop and of a start: interrupts are off while the FIFOs are flushed and the channels halted.\<close>

definition stop_host :: "(nat \<Rightarrow> u32) \<Rightarrow> core_regs \<Rightarrow> core_regs" where
  "stop_host rs c =
     (let c = snd (USB_FlushRxFifo rs (snd (USB_FlushTxFifo rs 0x10 (USB_DisableGlobalInt c))))
      in USB_EnableGlobalInt (on_otg USB_StopHost c))"

definition start_host :: "core_regs \<Rightarrow> core_regs" where
  "start_host c = on_otg (USB_DriveVbus 1) (USB_EnableGlobalInt c)"

subsection \<open>The waits of a stop\<close>

text \<open>
  \<^verbatim>\<open>USB_StopHost\<close> halts 16 channels and waits for each with one count for all: \<open>left\<close> is how many reads
  remain, \<open>on i k\<close> whether the \<open>k\<close>-th read of channel \<open>i\<close> finds it enabled. The result is the
  number of reads of each channel.
\<close>

fun chan_wait :: "(nat \<Rightarrow> bool) \<Rightarrow> nat \<Rightarrow> nat \<Rightarrow> nat \<times> nat" where
  "chan_wait on 0 k = (0, k)"
| "chan_wait on (Suc left) k = (if on k then chan_wait on left (Suc k) else (left, Suc k))"

fun chan_waits :: "(nat \<Rightarrow> nat \<Rightarrow> bool) \<Rightarrow> nat list \<Rightarrow> nat \<Rightarrow> nat list" where
  "chan_waits on [] left = []"
| "chan_waits on (i # is) left = (case chan_wait (on i) left 0 of (left, k) \<Rightarrow> k # chan_waits on is left)"

subsection \<open>What the bring-up leaves\<close>

text \<open>A wait reads at most as often as its limit; it is in time if one of these reads finds the core ready.\<close>

lemma wait_grst_result:
  "wait_grst busy rs n c = (s, c') \<Longrightarrow>
     (\<exists>k\<le>n. c' = c\<lparr>grst_reads := grst_reads c + k\<rparr>) \<and>
     s = (if \<exists>i<n. \<not> busy (rs (grst_reads c + i)) then HAL_OK else HAL_TIMEOUT)"
proof (induction n arbitrary: c)
  case (Suc n)
  show ?case
  proof (cases "busy (rs (grst_reads c))")
    case True
    let ?c = "c\<lparr>grst_reads := Suc (grst_reads c)\<rparr>"
    have "wait_grst busy rs n ?c = (s, c')" using Suc.prems True by (simp add: rd_grst_def)
    note ih = Suc.IH [OF this]
    then obtain k where "k \<le> n" "c' = ?c\<lparr>grst_reads := grst_reads ?c + k\<rparr>" by blast
    then have "\<exists>k\<le>Suc n. c' = c\<lparr>grst_reads := grst_reads c + k\<rparr>" by (intro exI [of _ "Suc k"]) simp
    moreover have "(\<exists>i<n. \<not> busy (rs (grst_reads ?c + i))) \<longleftrightarrow> (\<exists>i<Suc n. \<not> busy (rs (grst_reads c + i)))"
      using True by (auto simp: Ex_less_Suc2)
    ultimately show ?thesis using ih by simp
  next
    case False
    then show ?thesis using Suc.prems by (auto simp: rd_grst_def intro: exI [of _ 1] exI [of _ 0])
  qed
qed simp

text \<open>What the waits leave alone: everything but the count of the reads and what was written.\<close>

definition only_grst :: "core_regs \<Rightarrow> core_regs \<Rightarrow> bool" where
  "only_grst c c' \<longleftrightarrow> c'\<lparr>grst_reads := 0, grst_written := []\<rparr> = c\<lparr>grst_reads := 0, grst_written := []\<rparr>"

lemma only_grst_refl [simp]: "only_grst c c"
  by (simp add: only_grst_def)

lemma only_grst_trans: "only_grst c c' \<Longrightarrow> only_grst c' c'' \<Longrightarrow> only_grst c c''"
  by (simp add: only_grst_def)

lemma only_grst_steps [simp]:
  "only_grst c (wr_grst v c')  = only_grst c c'" "only_grst c (c'\<lparr>grst_reads := n\<rparr>) = only_grst c c'"
  "only_grst (wr_grst v c) c' = only_grst c c'" "only_grst (c\<lparr>grst_reads := n\<rparr>) c' = only_grst c c'"
  by (simp_all add: only_grst_def wr_grst_def)

lemma only_grst_fields:
  "only_grst c c' \<Longrightarrow> host_regs c' = host_regs c \<and> GAHBCFG c' = GAHBCFG c \<and> GUSBCFG c' = GUSBCFG c \<and> core_delays c' = core_delays c"
  by (cases c; cases c') (simp add: only_grst_def)

lemma wait_grst_only: "wait_grst busy rs n c = (s, c') \<Longrightarrow> only_grst c c'"
  by (auto dest!: wait_grst_result)

lemma CoreReset_only: "USB_CoreReset rs c = (s, c') \<Longrightarrow> only_grst c c'"
  by (auto simp: USB_CoreReset_def rd_grst_def split: prod.splits if_splits dest!: wait_grst_only
      intro: only_grst_trans)

text \<open>How many reads a step makes at most.\<close>

lemma wait_grst_reads: "wait_grst busy rs n c = (s, c') \<Longrightarrow> grst_reads c' \<le> grst_reads c + n"
  by (auto dest!: wait_grst_result)

lemma CoreReset_reads: "USB_CoreReset rs c = (s, c') \<Longrightarrow> grst_reads c' \<le> grst_reads c + 400001"
  by (auto simp: USB_CoreReset_def rd_grst_def wr_grst_def split: prod.splits if_splits dest!: wait_grst_reads)

lemma wr_grst_simps [simp]:
  "grst_written (wr_grst v c) = grst_written c @ [v]" "grst_reads (wr_grst v c) = grst_reads c"
  "host_regs (wr_grst v c) = host_regs c" "core_delays (wr_grst v c) = core_delays c"
  by (simp_all add: wr_grst_def)

lemma HAL_Delay_simps [simp]:
  "grst_written (HAL_Delay n c) = grst_written c" "grst_reads (HAL_Delay n c) = grst_reads c" "host_regs (HAL_Delay n c) = host_regs c"
  "GAHBCFG (HAL_Delay n c) = GAHBCFG c" "GUSBCFG (HAL_Delay n c) = GUSBCFG c" "core_delays (HAL_Delay n c) = core_delays c @ [n]"
  by (simp_all add: HAL_Delay_def)

lemma wait_grst_written: "wait_grst busy rs n c = (s, c') \<Longrightarrow> grst_written c' = grst_written c"
  by (auto dest!: wait_grst_result)

text \<open>The reset is requested when the bus is seen idle, and only then.\<close>

definition idle_seen :: "(nat \<Rightarrow> u32) \<Rightarrow> nat \<Rightarrow> bool" where
  "idle_seen rs k \<longleftrightarrow> (\<exists>i<200000. rs (k + i) AND GRSTCTL_AHBIDL \<noteq> 0)"

lemma CoreReset_written:
  assumes "USB_CoreReset rs c = (s, c')"
  shows "\<exists>v. grst_written c' = grst_written c @ (if idle_seen rs (grst_reads c) then [v OR GRSTCTL_CSRST] else [])"
proof -
  obtain s1 c1 where 1: "wait_grst (\<lambda>v. v AND GRSTCTL_AHBIDL = 0) rs 200000 c = (s1, c1)" by (metis surj_pair)
  have s1: "s1 = HAL_TIMEOUT \<longleftrightarrow> \<not> idle_seen rs (grst_reads c)"
    using wait_grst_result [OF 1] by (auto simp: idle_seen_def)
  show ?thesis
  proof (cases "s1 = HAL_TIMEOUT")
    case True
    with assms 1 s1 show ?thesis by (auto simp: USB_CoreReset_def wait_grst_written)
  next
    case False
    with assms 1 have "wait_grst (\<lambda>v. v AND GRSTCTL_CSRST = GRSTCTL_CSRST) rs 200000
        (wr_grst (rs (grst_reads c1) OR GRSTCTL_CSRST) (c1\<lparr>grst_reads := Suc (grst_reads c1)\<rparr>)) = (s, c')"
      by (simp add: USB_CoreReset_def rd_grst_def)
    from wait_grst_written [OF this] False s1 wait_grst_written [OF 1] show ?thesis by auto
  qed
qed

lemma CoreReset_result:
  assumes "USB_CoreReset rs c = (s, c')"
  shows "host_regs c' = host_regs c \<and> GAHBCFG c' = GAHBCFG c \<and> core_delays c' = core_delays c \<and>
    grst_reads c' \<le> grst_reads c + 400001 \<and>
    (\<exists>v. grst_written c' = grst_written c @ (if idle_seen rs (grst_reads c) then [v OR GRSTCTL_CSRST] else []))"
  using only_grst_fields [OF CoreReset_only [OF assms]] CoreReset_reads [OF assms] CoreReset_written [OF assms] by simp

lemma CoreInit_result:
  assumes "USB_CoreInit rs cfg c = (s, c')"
  shows "host_regs c' = host_regs c \<and> GAHBCFG c' = GAHBCFG c \<and> core_delays c' = core_delays c \<and>
    grst_reads c' \<le> grst_reads c + 400001 \<and>
    (\<exists>v. grst_written c' = grst_written c @ (if idle_seen rs (grst_reads c) then [v OR GRSTCTL_CSRST] else []))"
proof (cases "cfg_phy_itface cfg = USB_OTG_ULPI_PHY")
  case True
  obtain a g where "USB_CoreReset rs (c\<lparr>GCCFG := a, GUSBCFG := g\<rparr>) = (s, c')"
    using assms True by (auto simp: USB_CoreInit_def Let_def split: if_splits)
  from CoreReset_result [OF this] show ?thesis by simp
next
  case False
  obtain c1 where r: "USB_CoreReset rs (c\<lparr>GUSBCFG := GUSBCFG c OR GUSBCFG_PHYSEL\<rparr>) = (s, c1)"
    and "c' = c1\<lparr>GCCFG := GCCFG c1 OR GCCFG_PWRDWN\<rparr>"
    using assms False by (auto simp: USB_CoreInit_def split: prod.splits)
  with CoreReset_result [OF r] show ?thesis by simp
qed

lemma SetCurrentMode_host:
  "snd (USB_SetCurrentMode USB_HOST_MODE c) =
     HAL_Delay 50 (c\<lparr>GUSBCFG := (GUSBCFG c AND NOT (GUSBCFG_FHMOD OR GUSBCFG_FDMOD)) OR GUSBCFG_FHMOD\<rparr>)"
  by (simp add: USB_SetCurrentMode_def)

text \<open>The two flushes, whether they end in time or not.\<close>

lemma flush_result:
  assumes "c' = snd (USB_FlushRxFifo rs (snd (USB_FlushTxFifo rs n c)))"
  shows "host_regs c' = host_regs c \<and> GAHBCFG c' = GAHBCFG c \<and> GUSBCFG c' = GUSBCFG c \<and> core_delays c' = core_delays c \<and>
    grst_reads c' \<le> grst_reads c + 400000 \<and> grst_written c' = grst_written c @ [GRSTCTL_TXFFLSH OR push_bit 6 n, GRSTCTL_RXFFLSH]"
proof -
  obtain s1 c1 where 1: "USB_FlushTxFifo rs n c = (s1, c1)" by (metis surj_pair)
  obtain s2 where 2: "USB_FlushRxFifo rs c1 = (s2, c')" using assms 1 by (metis snd_conv surj_pair)
  note w1 = 1 [unfolded USB_FlushTxFifo_def] and w2 = 2 [unfolded USB_FlushRxFifo_def]
  have "only_grst c c1" "only_grst c1 c'" using wait_grst_only [OF w1] wait_grst_only [OF w2] by simp_all
  from only_grst_fields [OF only_grst_trans [OF this]] show ?thesis
    using wait_grst_reads [OF w1] wait_grst_reads [OF w2] wait_grst_written [OF w1] wait_grst_written [OF w2] by simp
qed

lemma no_flag: "x AND NOT (0xFFFFFFFF :: u32) = 0"
proof -
  have "(0xFFFFFFFF :: u32) = - 1" by simp
  then show ?thesis by (simp only: bit.compl_one and_zero_eq)
qed

lemma clear_chans_result:
  "n \<le> length (chans u) \<Longrightarrow>
     clear_chans n u = Some (u\<lparr>chans := map (\<lambda>r. r\<lparr>HCINT := 0, HCINTMSK := 0\<rparr>) (take n (chans u)) @ drop n (chans u)\<rparr>)"
proof (induction n)
  case (Suc n)
  then have n: "n < length (chans u)" by simp
  let ?f = "\<lambda>r. r\<lparr>HCINT := 0, HCINTMSK := 0\<rparr>"
  have "(map ?f (take n (chans u)) @ drop n (chans u)) [n := ?f (chans u ! n)] =
      map ?f (take (Suc n) (chans u)) @ drop (Suc n) (chans u)"
    using n by (simp add: take_Suc_conv_app_nth list_update_append Cons_nth_drop_Suc [symmetric])
  moreover from Suc.IH n have "clear_chans (Suc n) u = upd_chan n ?f (u\<lparr>chans := map ?f (take n (chans u)) @ drop n (chans u)\<rparr>)"
    unfolding clear_chans.simps no_flag by simp
  ultimately show ?case using n by (simp add: upd_chan_def rd_def nth_append)
qed simp

lemma mask_set: "f AND m = f \<Longrightarrow> ((g AND NOT m) OR f) AND m = (f :: u32)"
  by (metis (no_types, lifting) and.assoc and.commute and_zero_eq bit.conj_cancel_right bit.conj_disj_distrib2 or.left_neutral)

lemma DriveVbus_frame:
  "GINTMSK (USB_DriveVbus s u) = GINTMSK u" "chans (USB_DriveVbus s u) = chans u"
  by (simp_all add: USB_DriveVbus_def put_hprt_def Let_def)

lemma host_intmsk_fields:
  "GINTMSK (host_intmsk (u\<lparr>GINTMSK := 0\<rparr>)) = 0xA3200018" "chans (host_intmsk u) = chans u" "HPRT0 (host_intmsk u) = HPRT0 u"
  by (simp_all add: host_intmsk_def Let_def)

text \<open>
  C39: bringing the controller up always ends, whatever its core does, with interrupts off, the host
  mode forced, the port powered, the host's interrupt sources enabled, every channel the driver uses
  cleared, and the FIFO memory (320 words) divided into three areas one after the other. It reports
  success and a ready state also when the core never became idle and so was never reset.
\<close>

theorem controller_ready:
  assumes "length (chans (host_regs (hcd_regs h))) = 16" "unat (cfg_Host_channels (hcd_Init h)) \<le> 16"
  shows "\<exists>h' v. HAL_HCD_Init rs cid h = Some (HAL_OK, h') \<and> hcd_State h' = HAL_HCD_STATE_READY \<and>
    (let c0 = hcd_regs h; c = hcd_regs h'; u = host_regs c in
     GAHBCFG c AND GAHBCFG_GINT = 0 \<and> GUSBCFG c AND (GUSBCFG_FHMOD OR GUSBCFG_FDMOD) = GUSBCFG_FHMOD \<and>
     HPRT0 u = HPRT0 (host_regs c0) OR HPRT_PPWR \<and> GINTMSK u = 0xA3200018 \<and>
     (\<forall>i<16. chans u ! i = (let r = chans (host_regs c0) ! i
        in if i < unat (cfg_Host_channels (hcd_Init h)) then r\<lparr>HCINT := 0, HCINTMSK := 0\<rparr> else r)) \<and>
     GRXFSIZ c = DIEPTXF0_HNPTXFSIZ c AND 0xFFFF \<and>
     (DIEPTXF0_HNPTXFSIZ c AND 0xFFFF) + drop_bit 16 (DIEPTXF0_HNPTXFSIZ c) = HPTXFSIZ c AND 0xFFFF \<and>
     (HPTXFSIZ c AND 0xFFFF) + drop_bit 16 (HPTXFSIZ c) \<le> 320 \<and>
     core_delays c = core_delays c0 @ [50, 200] \<and> grst_reads c \<le> grst_reads c0 + 800001 \<and>
     grst_written c = grst_written c0 @ (if idle_seen rs (grst_reads c0) then [v OR GRSTCTL_CSRST] else []) @
       [GRSTCTL_TXFFLSH OR push_bit 6 0x10, GRSTCTL_RXFFLSH])"
proof -
  define i where "i = (if cid AND push_bit 8 1 = 0 then (hcd_Init h)\<lparr>cfg_dma_enable := 0\<rparr> else hcd_Init h)"
  have n: "cfg_Host_channels i = cfg_Host_channels (hcd_Init h)" by (simp add: i_def)
  obtain s1 c1 where 1: "USB_CoreInit rs i (USB_DisableGlobalInt (hcd_regs h)) = (s1, c1)" by (metis surj_pair)
  define c2 where "c2 = on_otg (\<lambda>u. u\<lparr>HCFG := HCFG u AND NOT HCFG_FSLSS\<rparr>)
      ((snd (USB_SetCurrentMode USB_HOST_MODE c1))\<lparr>PCGCCTL := 0,
        GCCFG := (GCCFG (snd (USB_SetCurrentMode USB_HOST_MODE c1)) AND NOT GCCFG_VBUSASEN) AND NOT GCCFG_VBUSBSEN\<rparr>)"
  define c3 where "c3 = snd (USB_FlushRxFifo rs (snd (USB_FlushTxFifo rs 0x10 c2)))"
  note f1 = CoreInit_result [OF 1] and f3 = flush_result [OF c3_def]
  have c2: "host_regs c2 = (host_regs c1)\<lparr>HCFG := HCFG (host_regs c1) AND NOT HCFG_FSLSS\<rparr>" "GAHBCFG c2 = GAHBCFG c1"
    "GUSBCFG c2 = (GUSBCFG c1 AND NOT (GUSBCFG_FHMOD OR GUSBCFG_FDMOD)) OR GUSBCFG_FHMOD"
    "core_delays c2 = core_delays c1 @ [50]" "grst_reads c2 = grst_reads c1" "grst_written c2 = grst_written c1"
    by (simp_all add: c2_def on_otg_def SetCurrentMode_host)
  have l: "length (chans (host_regs c3)) = 16" using f1 f3 c2(1) assms(1) by (simp add: USB_DisableGlobalInt_def)
  obtain u where u: "clear_chans (unat (cfg_Host_channels i)) (host_regs c3) = Some u"
    and uc: "chans u = map (\<lambda>r. r\<lparr>HCINT := 0, HCINTMSK := 0\<rparr>) (take (unat (cfg_Host_channels i)) (chans (host_regs c3))) @
       drop (unat (cfg_Host_channels i)) (chans (host_regs c3))" "HPRT0 u = HPRT0 (host_regs c3)"
    using clear_chans_result [of "unat (cfg_Host_channels i)" "host_regs c3"] l n assms(2) by simp
  define c4 where "c4 = on_otg (\<lambda>u. host_intmsk (u\<lparr>GINTMSK := 0\<rparr>)) ((HAL_Delay 200 (c3\<lparr>host_regs := USB_DriveVbus 1 u\<rparr>))
     \<lparr>GRXFSIZ := 0x80, DIEPTXF0_HNPTXFSIZ := (push_bit 16 0x60 AND 0xFFFF0000) OR 0x80,
      HPTXFSIZ := (push_bit 16 0x40 AND 0xFFFF0000) OR 0xE0\<rparr>)"
  have host: "USB_HostInit rs i (snd (USB_SetCurrentMode USB_HOST_MODE c1)) = Some (HAL_OK, c4)"
    unfolding USB_HostInit_def Let_def c2_def [symmetric] c3_def [symmetric] u bind.bind_lunit c4_def ..
  define h0 where "h0 = (if hcd_State h = HAL_HCD_STATE_RESET then HAL_HCD_MspInit h else h)\<lparr>hcd_State := HAL_HCD_STATE_BUSY\<rparr>"
  define h1 where "h1 = (if cid AND push_bit 8 1 = 0 then h0\<lparr>hcd_Init := (hcd_Init h0)\<lparr>cfg_dma_enable := 0\<rparr>\<rparr> else h0)"
  have "hcd_Init h1 = i" "hcd_regs h1 = hcd_regs h" by (simp_all add: h1_def h0_def i_def HAL_HCD_MspInit_def)
  then have "HAL_HCD_Init rs cid h = Some (HAL_OK, h1\<lparr>hcd_regs := c4, hcd_State := HAL_HCD_STATE_READY\<rparr>)"
    unfolding HAL_HCD_Init_def Let_def h0_def [symmetric] h1_def [symmetric] by (simp add: 1 host)
  then obtain h' where h': "HAL_HCD_Init rs cid h = Some (HAL_OK, h')" "hcd_State h' = HAL_HCD_STATE_READY" "hcd_regs h' = c4"
    by simp
  have p: "HPRT0 (USB_DriveVbus 1 u) = HPRT0 u OR HPRT_PPWR" using port_writes_keep_flags [of u 1] by simp
  have m: "(g AND NOT (GUSBCFG_FHMOD OR GUSBCFG_FDMOD) OR GUSBCFG_FHMOD) AND (GUSBCFG_FHMOD OR GUSBCFG_FDMOD) = GUSBCFG_FHMOD" for g
    by (rule mask_set) simp
  have g: "(GAHBCFG (hcd_regs h) AND NOT GAHBCFG_GINT) AND GAHBCFG_GINT = 0" by (simp add: and.assoc del: not_one_eq)
  have c4: "host_regs c4 = host_intmsk ((USB_DriveVbus 1 u)\<lparr>GINTMSK := 0\<rparr>)" "GAHBCFG c4 = GAHBCFG c3" "GUSBCFG c4 = GUSBCFG c3"
    "GRXFSIZ c4 = 0x80" "DIEPTXF0_HNPTXFSIZ c4 = 0x600080" "HPTXFSIZ c4 = 0x4000E0" "core_delays c4 = core_delays c3 @ [200]"
    "grst_reads c4 = grst_reads c3" "grst_written c4 = grst_written c3"
    by (simp_all add: c4_def on_otg_def)
  have ch: "chans (host_regs c4) ! k = (let r = chans (host_regs (hcd_regs h)) ! k
      in if k < unat (cfg_Host_channels (hcd_Init h)) then r\<lparr>HCINT := 0, HCINTMSK := 0\<rparr> else r)" if "k < 16" for k
    using that c4(1) uc(1) f1 f3 c2(1) n assms
    by (simp add: host_intmsk_fields DriveVbus_frame nth_append USB_DisableGlobalInt_def Let_def)
  show ?thesis
    using h' f1 f3 c2 c4 uc(2) p m g ch
    by (auto simp: host_intmsk_fields USB_DisableGlobalInt_def Let_def)
qed

text \<open>A restart of a host that is up: interrupts on, no channel flag pending, at most 400000 reads more.\<close>

lemma restart_result:
  "GAHBCFG (start_host (stop_host rs c)) AND GAHBCFG_GINT = GAHBCFG_GINT \<and>
   HAINT (host_regs (start_host (stop_host rs c))) = 0 \<and> grst_reads (start_host (stop_host rs c)) \<le> grst_reads c + 400000"
proof -
  have g: "(g OR GAHBCFG_GINT) AND GAHBCFG_GINT = GAHBCFG_GINT" for g :: u32 by (simp add: bit.conj_disj_distrib2)
  have "HAINT (USB_DriveVbus 1 u) = HAINT u" for u by (simp add: USB_DriveVbus_def put_hprt_def Let_def)
  moreover have "HAINT (USB_StopHost u) = 0" for u by (simp only: USB_StopHost_def no_flag) simp
  ultimately show ?thesis
    using flush_result [OF refl, of rs "0x10" "USB_DisableGlobalInt c"] g
    by (simp add: start_host_def stop_host_def on_otg_def USB_EnableGlobalInt_def USB_DisableGlobalInt_def Let_def)
qed

definition sample_hcd :: hcd where
  "sample_hcd = \<lparr>hcd_Init = ll_settings \<lparr>cfg_dev_endpoints = 0, cfg_Host_channels = 0, cfg_speed = 0, cfg_dma_enable = 0,
       cfg_ep0_mps = 0, cfg_phy_itface = 0, cfg_Sof_enable = 0, cfg_low_power_enable = 0, cfg_lpm_enable = 0,
       cfg_battery_charging_enable = 0, cfg_vbus_sensing_enable = 0, cfg_use_dedicated_ep1 = 0, cfg_use_external_vbus = 0\<rparr>,
     hcd_State = HAL_HCD_STATE_RESET, hcd_regs = \<lparr>host_regs = sample_otg, GAHBCFG = 0, GUSBCFG = 0x1440, GCCFG = 0, PCGCCTL = 0,
       GRXFSIZ = 0x200, DIEPTXF0_HNPTXFSIZ = 0x2000200, HPTXFSIZ = 0x2000600, grst_written = [], grst_reads = 0, core_delays = []\<rparr>,
     otg_clock = False\<rparr>"

text \<open>A core whose bus is never idle: no reset, but a ready state.\<close>

lemma controller_ready_witness:
  "\<exists>h'. HAL_HCD_Init (\<lambda>_. 0) 0 sample_hcd = Some (HAL_OK, h') \<and> hcd_State h' = HAL_HCD_STATE_READY \<and>
     GINTMSK (host_regs (hcd_regs h')) = 0xA3200018 \<and>
     grst_written (hcd_regs h') = [GRSTCTL_TXFFLSH OR push_bit 6 0x10, GRSTCTL_RXFFLSH]"
proof -
  have "length (chans (host_regs (hcd_regs sample_hcd))) = 16" "unat (cfg_Host_channels (hcd_Init sample_hcd)) \<le> 16"
    by (simp_all add: sample_hcd_def sample_otg_def ll_settings_def)
  moreover have "\<not> idle_seen (\<lambda>_. 0) 0" "grst_reads (hcd_regs sample_hcd) = 0" "grst_written (hcd_regs sample_hcd) = []"
    by (simp_all add: idle_seen_def sample_hcd_def)
  ultimately show ?thesis using controller_ready [of sample_hcd "\<lambda>_. 0" 0] by (auto simp: Let_def)
qed

subsection \<open>What the waits of a stop share\<close>

lemma chan_wait_bounds: "chan_wait on left k = (left', k') \<Longrightarrow> left' + k' = left + k \<and> k \<le> k'"
  by (induction on left k rule: chan_wait.induct) (fastforce split: if_splits)+

lemma chan_wait_stuck: "(\<And>j. k \<le> j \<Longrightarrow> j < k + left \<Longrightarrow> on j) \<Longrightarrow> chan_wait on left k = (0, k + left)"
  by (induction on left k rule: chan_wait.induct) simp_all

lemma chan_waits_length [simp]: "length (chan_waits on is left) = length is"
  by (induction "is" arbitrary: left) (simp_all split: prod.splits)

lemma chan_waits_sum: "sum_list (chan_waits on is left) \<le> left"
proof (induction "is" arbitrary: left)
  case (Cons i "is")
  obtain l k where "chan_wait (on i) left 0 = (l, k)" by (metis surj_pair)
  with Cons.IH [of l] chan_wait_bounds [OF this] show ?case by simp
qed simp

lemma chan_waits_none: "k < length is \<Longrightarrow> chan_waits on is 0 ! k = 0"
  by (induction "is" arbitrary: k) (auto simp: nth_Cons')

lemma chan_waits_stuck:
  "\<lbrakk>k < m; m < length is; \<And>j. j < left \<Longrightarrow> on (is ! k) j\<rbrakk> \<Longrightarrow> chan_waits on is left ! m = 0"
proof (induction "is" arbitrary: left k m)
  case (Cons i "is")
  obtain l n where w: "chan_wait (on i) left 0 = (l, n)" by (metis surj_pair)
  from Cons.prems(1) obtain m' where m: "m = Suc m'" by (cases m) simp_all
  show ?case
  proof (cases k)
    case 0
    then have "l = 0" using Cons.prems(3) chan_wait_stuck [of 0 left "on i"] w by simp
    then show ?thesis using w m Cons.prems(2) by (simp add: chan_waits_none)
  next
    case (Suc k')
    have "l \<le> left" using chan_wait_bounds [OF w] by simp
    then show ?thesis using w m Suc Cons.prems by (simp, intro Cons.IH [of k' m' l]) auto
  qed
qed simp

text \<open>
  C40: stopping the host waits at most 1000 reads for all its channels together; a channel that does not
  halt uses up the rest, and the channels behind it are not waited for at all.
\<close>

theorem stop_shares_limit:
  assumes "k < m" "m < 16" "\<forall>j<1000. on k j"
  shows "sum_list (chan_waits on [0..<16] 1000) \<le> 1000 \<and> chan_waits on [0..<16] 1000 ! m = 0"
  using chan_waits_sum [of on "[0..<16]" 1000] chan_waits_stuck [of k m "[0..<16]" 1000 on] assms by simp

lemma stop_shares_limit_witness: "chan_waits (\<lambda>i k. i = 2 \<or> k < 3) [0..<16] 1000 ! 5 = 0"
  using stop_shares_limit [of 2 5 "\<lambda>i k. i = 2 \<or> k < 3"] by simp

end
