(* ===== verification/Ch340.thy ===== *)
theory Ch340
  imports Ec20
begin

text \<open>
  The class driver of the CH340 serial converter, \<^verbatim>\<open>Class/CH340/Src/usbh_ch340.c\<close>: binding, the seven
  vendor requests that bring the converter up, the line settings with the computation of the baud rate
  divisor, and the two transfer machines. The driver is built into the program and registered by
  nobody; its operations are stated on a handle whose slot 0 of \<^verbatim>\<open>pClassData\<close> holds its record. The three
  callbacks it calls are the empty weak functions of the same file.
\<close>

definition get_cdc :: "host \<Rightarrow> CDC_HandleTypeDef option" where
  "get_cdc h = (case rd (pClassData h) 0 of Some (Some (Cdc_data e)) \<Rightarrow> Some e | _ \<Rightarrow> None)"

definition put_cdc :: "CDC_HandleTypeDef \<Rightarrow> host \<Rightarrow> host" where
  "put_cdc e h = h\<lparr>pClassData := (pClassData h)[0 := Some (Cdc_data e)]\<rparr>"

subsection \<open>Vendor requests\<close>

abbreviation VENDOR_WRITE_TYPE :: u8 where "VENDOR_WRITE_TYPE \<equiv> 0x40"
abbreviation VENDOR_READ_TYPE :: u8 where "VENDOR_READ_TYPE \<equiv> 0xC0"
abbreviation VENDOR_READ :: u8 where "VENDOR_READ \<equiv> 0x95"
abbreviation VENDOR_WRITE :: u8 where "VENDOR_WRITE \<equiv> 0x9A"
abbreviation VENDOR_SERIAL_INIT :: u8 where "VENDOR_SERIAL_INIT \<equiv> 0xA1"
abbreviation VENDOR_MODEM_OUT :: u8 where "VENDOR_MODEM_OUT \<equiv> 0xA4"
abbreviation VENDOR_VERSION :: u8 where "VENDOR_VERSION \<equiv> 0x5F"

definition ch34x_vendor_read :: "u8 \<Rightarrow> u16 \<Rightarrow> u16 \<Rightarrow> host \<Rightarrow> bus \<Rightarrow> buf_ptr \<Rightarrow> u16 \<Rightarrow> call" where
  "ch34x_vendor_read request value index h b buf len =
     USBH_CtlReq (set_setup VENDOR_READ_TYPE request value index len h) b buf len"

definition ch34x_vendor_write :: "u8 \<Rightarrow> u16 \<Rightarrow> u16 \<Rightarrow> host \<Rightarrow> bus \<Rightarrow> buf_ptr \<Rightarrow> u16 \<Rightarrow> call" where
  "ch34x_vendor_write request value index h b buf len =
     USBH_CtlReq (set_setup VENDOR_WRITE_TYPE request value index len h) b buf len"

subsection \<open>The baud rate\<close>

text \<open>
  The prescaler and the clock it leaves. All arithmetic is on 32-bit words; the divisor is narrowed to 8
  bits before it is tested. The inner \<open>None\<close> is the return value -1; a rate of 0 divides by zero.
\<close>

definition baud_clock :: "u32 \<Rightarrow> u8 \<times> u32" where
  "baud_clock baud_rate =
     (if baud_rate > 6000000 div 255 then (3, 6000000)
      else if baud_rate > 750000 div 255 then (2, 750000)
      else if baud_rate > 93750 div 255 then (1, 93750)
      else (0, 11719))"

definition ch34x_get_baud_rate :: "u32 \<Rightarrow> (u8 \<times> u8) option option" where
  "ch34x_get_baud_rate baud_rate =
     (if baud_rate = 921600 then Some (Some (0xf3, 7))
      else if baud_rate = 307200 then Some (Some (0xd9, 7))
      else if baud_rate = 0 then None
      else (case baud_clock baud_rate of (b, c) \<Rightarrow>
        let a = (ucast (c div baud_rate) :: u8)
        in if a = 0 \<or> a = 0xFF then Some None
           else let a = (if c div ucast a - baud_rate > baud_rate - c div (ucast a + 1) then a + 1 else a)
                in Some (Some (ucast (256 - ucast a :: u32), b))))"

subsection \<open>Bringing the converter up\<close>

text \<open>An answered request moves the record on to the next state.\<close>

definition attach_next :: "CH340_AttachStateTypeDef \<Rightarrow> USBH_StatusTypeDef \<times> host \<times> bus \<Rightarrow> call" where
  "attach_next st r = (case r of (s, h, b) \<Rightarrow>
     (if s = USBH_OK then do {
        e \<leftarrow> get_cdc h;
        Some (if st = CH340_ATTACH_COMPLETE_STATE then USBH_OK else USBH_BUSY, put_cdc (e\<lparr>attach_state := st\<rparr>) h, b)
      } else Some (USBH_BUSY, h, b)))"

definition ch34x_attach :: "host \<Rightarrow> bus \<Rightarrow> call" where
  "ch34x_attach h b = do {
     slot \<leftarrow> rd (pClassData h) 0;
     (if slot = None then Some (USBH_FAIL, h, b)
      else do {
        e \<leftarrow> get_cdc h;
        (case attach_state e of
           CH340_READ_VENDOR_VERSION_STATE \<Rightarrow> do {
             r \<leftarrow> ch34x_vendor_read VENDOR_VERSION 0 0 h b (Ch340_of (self h)) 2;
             attach_next CH340_VENDOR_SERIAL_INIT_STATE r
           }
         | CH340_VENDOR_SERIAL_INIT_STATE \<Rightarrow> do {
             r \<leftarrow> ch34x_vendor_write VENDOR_SERIAL_INIT 0 0 h b NULL_buf 0;
             attach_next CH340_VENDOR_WRITE_1_STATE r
           }
         | CH340_VENDOR_WRITE_1_STATE \<Rightarrow> do {
             r \<leftarrow> ch34x_vendor_write VENDOR_WRITE 0x1312 0xD982 h b NULL_buf 0;
             attach_next CH340_VENDOR_WRITE_2_STATE r
           }
         | CH340_VENDOR_WRITE_2_STATE \<Rightarrow> do {
             r \<leftarrow> ch34x_vendor_write VENDOR_WRITE 0x0F2C 0x0004 h b NULL_buf 0;
             attach_next CH340_VENDOR_READ_1_STATE r
           }
         | CH340_VENDOR_READ_1_STATE \<Rightarrow> do {
             r \<leftarrow> ch34x_vendor_read VENDOR_READ 0x2518 0 h b (Ch340_of (self h)) 2;
             attach_next CH340_VENDOR_WRITE_3_STATE r
           }
         | CH340_VENDOR_WRITE_3_STATE \<Rightarrow> do {
             r \<leftarrow> ch34x_vendor_write VENDOR_WRITE 0x2727 0 h b NULL_buf 0;
             attach_next CH340_VENDOR_MODEM_OUT_STATE r
           }
         | CH340_VENDOR_MODEM_OUT_STATE \<Rightarrow> do {
             r \<leftarrow> ch34x_vendor_write VENDOR_MODEM_OUT 0x009F 0 h b NULL_buf 0;
             attach_next CH340_ATTACH_COMPLETE_STATE r
           }
         | CH340_ATTACH_COMPLETE_STATE \<Rightarrow> Some (USBH_BUSY, h, b))
      })
   }"

subsection \<open>Binding and releasing the interface\<close>

text \<open>
  The allocated block is not cleared: \<open>mem\<close> is what it holds. Only the members below are set, so the
  notification pipe, whose allocation is compiled out, keeps what the block held. The result of the
  allocation is not checked: a failure writes through the null pointer, a fault.
\<close>

definition cdc_take_notif :: "USBH_EpDescTypeDef \<Rightarrow> CDC_HandleTypeDef \<Rightarrow> CDC_HandleTypeDef" where
  "cdc_take_notif ep e =
     (if bEndpointAddress ep AND 0x80 \<noteq> 0
      then e\<lparr>cdc_NotifEp := bEndpointAddress ep, cdc_NotifEpSize := wMaxPacketSize ep\<rparr> else e)"

definition cdc_take_data :: "USBH_EpDescTypeDef \<Rightarrow> CDC_HandleTypeDef \<Rightarrow> CDC_HandleTypeDef" where
  "cdc_take_data ep e =
     (if bEndpointAddress ep AND 0x80 \<noteq> 0
      then e\<lparr>cdc_InEp := bEndpointAddress ep, cdc_InEpSize := wMaxPacketSize ep\<rparr>
      else e\<lparr>cdc_OutEp := bEndpointAddress ep, cdc_OutEpSize := wMaxPacketSize ep\<rparr>)"

definition ch340_open :: "CDC_HandleTypeDef \<Rightarrow> u8 \<Rightarrow> host \<Rightarrow> bus \<Rightarrow> call" where
  "ch340_open mem i h b = do {
     itf \<leftarrow> rd (Itf_Desc (CfgDesc (device h))) (unat i);
     ep0 \<leftarrow> rd (Ep_Desc itf) 0;
     ep1 \<leftarrow> rd (Ep_Desc itf) 1;
     ep2 \<leftarrow> rd (Ep_Desc itf) 2;
     let e = cdc_take_data ep1 (cdc_take_data ep0 (cdc_take_notif ep2 mem));
     (po, b) \<leftarrow> USBH_AllocPipe b (cdc_OutEp e);
     (pi, b) \<leftarrow> USBH_AllocPipe b (cdc_InEp e);
     let e = e\<lparr>cdc_OutPipe := po, cdc_InPipe := pi\<rparr>;
     (_, b) \<leftarrow> USBH_OpenPipe h b po (cdc_OutEp e) (dev_address (device h)) (speed (device h))
                 USB_EP_TYPE_BULK (cdc_OutEpSize e);
     (_, b) \<leftarrow> USBH_OpenPipe h b pi (cdc_InEp e) (dev_address (device h)) (speed (device h))
                 USB_EP_TYPE_BULK (cdc_InEpSize e);
     let e = e\<lparr>cdc_state := CDC_IDLE_STATE, attach_state := CH340_READ_VENDOR_VERSION_STATE\<rparr>;
     (_, b) \<leftarrow> USBH_LL_SetToggle b po 0;
     (_, b) \<leftarrow> USBH_LL_SetToggle b pi 0;
     cd \<leftarrow> wr (pClassData h) 0 (Some (Cdc_data e));
     Some (USBH_OK, h\<lparr>pClassData := cd\<rparr>, b)
   }"

definition USBH_CH340_InterfaceInit :: "CDC_HandleTypeDef \<Rightarrow> hid \<Rightarrow> world \<Rightarrow> wcall" where
  "USBH_CH340_InterfaceInit mem x w = do {
     h \<leftarrow> hs w x;
     i \<leftarrow> USBH_FindInterface h 0xff 1 2;
     (if i = 0xFF then Some (USBH_FAIL, w)
      else do {
        (_, h) \<leftarrow> USBH_SelectInterface h i;
        let (ok, w) = take_malloc w;
        (if \<not> ok then None else on_host x (ch340_open mem i) (put_host x h w))
      })
   }"

definition ch340_close :: "host \<Rightarrow> bus \<Rightarrow> call" where
  "ch340_close h b = do {
     e \<leftarrow> get_cdc h;
     (p, b) \<leftarrow> release_pipe h (cdc_NotifPipe e) b;
     (p, b) \<leftarrow> release_pipe h (cdc_InPipe e) b;
     (p, b) \<leftarrow> release_pipe h (cdc_OutPipe e) b;
     let h = h\<lparr>pClassData := (pClassData h)[0 := None]\<rparr>;
     (_, h, b) \<leftarrow> USBH_Free_One_Address h b;
     Some (USBH_OK, h, b)
   }"

definition USBH_CH340_InterfaceDeInit :: "usb_env \<Rightarrow> hid \<Rightarrow> world \<Rightarrow> wcall" where
  "USBH_CH340_InterfaceDeInit env x w = do {
     w \<leftarrow> wait_app env x w;
     on_host x ch340_close w
   }"

definition USBH_CH340_ClassRequest :: "usb_env \<Rightarrow> hid \<Rightarrow> world \<Rightarrow> wcall" where
  "USBH_CH340_ClassRequest env x w = do {
     h \<leftarrow> hs w x;
     e \<leftarrow> get_cdc h;
     let lc = \<lparr>lc_dwDTERate = 115200, lc_bCharFormat = 0, lc_bParityType = 0, lc_bDataBits = 8\<rparr>;
     w \<leftarrow> call_user env x HOST_USER_CLASS_ACTIVE (put_host x (put_cdc (e\<lparr>LineCoding := lc\<rparr>) h) w);
     Some (USBH_OK, w)
   }"

definition USBH_CH340_SOFProcess :: "hid \<Rightarrow> world \<Rightarrow> wcall" where
  "USBH_CH340_SOFProcess x w = Some (USBH_OK, w)"

subsection \<open>Line settings\<close>

definition data_bits :: "u8 \<Rightarrow> u8" where
  "data_bits n = (if n = 5 then 0x00 else if n = 6 then 0x01 else if n = 7 then 0x02 else 0x03)"

definition parity_bits :: "u8 \<Rightarrow> u8" where
  "parity_bits n =
     (if n = 1 then 0x08 OR 0x00 else if n = 2 then 0x18 OR 0x10
      else if n = 3 then 0x28 OR 0x00 else if n = 4 then 0x28 OR 0x00 else 0)"

definition line_reg :: "CDC_LineCodingTypeDef \<Rightarrow> u8" where
  "line_reg lc = data_bits (lc_bDataBits lc) OR (if lc_bCharFormat lc = 2 then 0x04 else 0)
     OR parity_bits (lc_bParityType lc) OR 0xc0"

text \<open>The result of the baud rate computation is not looked at: what it did not set stays 0.\<close>

definition SetLineCoding :: "host \<Rightarrow> bus \<Rightarrow> CDC_LineCodingTypeDef option \<Rightarrow> call" where
  "SetLineCoding h b linecodin = do {
     lc \<leftarrow> linecodin;
     r \<leftarrow> ch34x_get_baud_rate (lc_dwDTERate lc);
     let (factor, divisor) = (case r of Some fd \<Rightarrow> fd | None \<Rightarrow> (0, 0));
     let value = (0x9c :: u16) OR push_bit 8 (ucast (line_reg lc));
     let index = (0x80 OR ucast divisor :: u16) OR push_bit 8 (ucast factor);
     ch34x_vendor_write VENDOR_SERIAL_INIT value index h b NULL_buf 0
   }"

definition GetLineCoding :: "host \<Rightarrow> (USBH_StatusTypeDef \<times> CDC_LineCodingTypeDef) option" where
  "GetLineCoding h = do { e \<leftarrow> get_cdc h; lc \<leftarrow> pUserLineCoding e; Some (USBH_OK, lc) }"

subsection \<open>The transfer machines\<close>

definition cdc_sent :: "CDC_HandleTypeDef \<Rightarrow> CDC_HandleTypeDef" where
  "cdc_sent e =
     (let e = (if cdc_TxDataLength e > ucast (cdc_OutEpSize e)
               then e\<lparr>cdc_TxDataLength := cdc_TxDataLength e - ucast (cdc_OutEpSize e),
                      cdc_pTxData := buf_add (cdc_pTxData e) (unat (cdc_OutEpSize e))\<rparr>
               else e\<lparr>cdc_TxDataLength := 0\<rparr>)
      in if cdc_TxDataLength e > 0 then e\<lparr>cdc_tx_state := CDC_SEND_DATA\<rparr>
         else e\<lparr>cdc_tx_state := CDC_IDLE\<rparr>)"

definition CDC_ProcessTransmission :: "host \<Rightarrow> bus \<Rightarrow> (host \<times> bus) option" where
  "CDC_ProcessTransmission h b = do {
     e \<leftarrow> get_cdc h;
     (case cdc_tx_state e of
        CDC_SEND_DATA \<Rightarrow> do {
          (_, b) \<leftarrow> USBH_BulkSendData h b (cdc_pTxData e)
                      (if cdc_TxDataLength e > ucast (cdc_OutEpSize e) then cdc_OutEpSize e
                       else ucast (cdc_TxDataLength e)) (cdc_OutPipe e) 1;
          Some (put_cdc (e\<lparr>cdc_tx_state := CDC_SEND_DATA_WAIT\<rparr>) h, b)
        }
      | CDC_SEND_DATA_WAIT \<Rightarrow> do {
          u \<leftarrow> USBH_LL_GetURBState h b (cdc_OutPipe e);
          Some (if u = USBH_URB_DONE then (put_cdc (cdc_sent e) h, os_put USBH_CLASS_EVENT b)
                else if u = USBH_URB_NOTREADY
                then (put_cdc (e\<lparr>cdc_tx_state := CDC_SEND_DATA\<rparr>) h, os_put USBH_CLASS_EVENT b)
                else (h, b))
        }
      | _ \<Rightarrow> Some (h, b))
   }"

definition CDC_ProcessReception :: "host \<Rightarrow> bus \<Rightarrow> (host \<times> bus) option" where
  "CDC_ProcessReception h b = do {
     e \<leftarrow> get_cdc h;
     (case cdc_rx_state e of
        CDC_RECEIVE_DATA \<Rightarrow> do {
          (_, b) \<leftarrow> USBH_BulkReceiveData h b (cdc_pRxData e) (cdc_InEpSize e) (cdc_InPipe e);
          Some (put_cdc (e\<lparr>cdc_rx_state := CDC_RECEIVE_DATA_WAIT\<rparr>) h, b)
        }
      | CDC_RECEIVE_DATA_WAIT \<Rightarrow> do {
          u \<leftarrow> USBH_LL_GetURBState h b (cdc_InPipe e);
          (if u = USBH_URB_DONE then do {
             n \<leftarrow> USBH_LL_GetLastXferSize h b (cdc_InPipe e);
             let len = (ucast n :: u16);
             Some (put_cdc (if cdc_RxDataLength e - ucast len > 0 \<and> len > cdc_InEpSize e
                            then e\<lparr>cdc_RxDataLength := cdc_RxDataLength e - ucast len,
                                   cdc_pRxData := buf_add (cdc_pRxData e) (unat len),
                                   cdc_rx_state := CDC_RECEIVE_DATA\<rparr>
                            else e\<lparr>cdc_rx_state := CDC_IDLE\<rparr>) h, os_put USBH_CLASS_EVENT b)
           }
           else if u = USBH_URB_NOTREADY then Some (h, os_put USBH_CLASS_EVENT b)
           else Some (h, b))
        }
      | _ \<Rightarrow> Some (h, b))
   }"

definition cdc_goto :: "CDC_StateTypeDef \<Rightarrow> host \<Rightarrow> host option" where
  "cdc_goto st h = do { e \<leftarrow> get_cdc h; Some (put_cdc (e\<lparr>cdc_state := st\<rparr>) h) }"

definition USBH_CH340_Process :: "host \<Rightarrow> bus \<Rightarrow> call" where
  "USBH_CH340_Process h b = do {
     slot \<leftarrow> rd (pClassData h) 0;
     (if slot = None then Some (USBH_OK, h, b)
      else do {
        e \<leftarrow> get_cdc h;
        (case cdc_state e of
           CDC_IDLE_STATE \<Rightarrow> Some (USBH_OK, h, b)
         | CDC_ATTACH_INIT_STATE \<Rightarrow> do {
             (s, h, b) \<leftarrow> ch34x_attach h b;
             h \<leftarrow> (if s = USBH_OK then cdc_goto CDC_IDLE_STATE h else Some h);
             Some (USBH_BUSY, h, b)
           }
         | CDC_SET_LINE_CODING_STATE \<Rightarrow> do {
             (s, h, b) \<leftarrow> SetLineCoding h b (pUserLineCoding e);
             h \<leftarrow> (if s = USBH_OK then cdc_goto CDC_GET_LAST_LINE_CODING_STATE h
                  else if s \<noteq> USBH_BUSY then cdc_goto CDC_ERROR_STATE h else Some h);
             Some (USBH_BUSY, h, b)
           }
         | CDC_GET_LAST_LINE_CODING_STATE \<Rightarrow> do {
             (s, lc) \<leftarrow> GetLineCoding h;
             h \<leftarrow> cdc_goto CDC_IDLE_STATE (put_cdc (e\<lparr>LineCoding := lc\<rparr>) h);
             Some (USBH_BUSY, h, b)
           }
         | CDC_TRANSFER_DATA \<Rightarrow> do {
             (h, b) \<leftarrow> CDC_ProcessTransmission h b;
             (h, b) \<leftarrow> CDC_ProcessReception h b;
             Some (USBH_BUSY, h, b)
           }
         | CDC_ERROR_STATE \<Rightarrow> do {
             (s, h, b) \<leftarrow> USBH_ClrFeature h b 0;
             h \<leftarrow> (if s = USBH_OK then cdc_goto CDC_IDLE_STATE h else Some h);
             Some (USBH_BUSY, h, b)
           })
      })
   }"

subsection \<open>Requests from the application\<close>

definition USBH_CDC_Stop :: "host \<Rightarrow> bus \<Rightarrow> call" where
  "USBH_CDC_Stop h b =
     (if gState h = HOST_CLASS then do {
        e \<leftarrow> get_cdc h;
        let h = put_cdc (e\<lparr>cdc_state := CDC_IDLE_STATE\<rparr>) h;
        (_, b) \<leftarrow> USBH_ClosePipe h b (cdc_NotifPipe e);
        (_, b) \<leftarrow> USBH_ClosePipe h b (cdc_InPipe e);
        (_, b) \<leftarrow> USBH_ClosePipe h b (cdc_OutPipe e);
        Some (USBH_OK, h, b)
      } else Some (USBH_OK, h, b))"

definition USBH_CDC_AttachInit :: "host \<Rightarrow> bus \<Rightarrow> call" where
  "USBH_CDC_AttachInit h b =
     (if gState h = HOST_CLASS then do {
        h \<leftarrow> cdc_goto CDC_ATTACH_INIT_STATE h;
        Some (USBH_OK, h, os_put USBH_CLASS_EVENT b)
      } else Some (USBH_OK, h, b))"

definition USBH_CDC_GetAttachInit :: "host \<Rightarrow> (USBH_StatusTypeDef \<times> CH340_AttachStateTypeDef option) option" where
  "USBH_CDC_GetAttachInit h =
     (if gState h = HOST_CLASS then do { e \<leftarrow> get_cdc h; Some (USBH_OK, Some (attach_state e)) }
      else Some (USBH_FAIL, None))"

definition USBH_CDC_SetLineCoding :: "host \<Rightarrow> bus \<Rightarrow> CDC_LineCodingTypeDef option \<Rightarrow> call" where
  "USBH_CDC_SetLineCoding h b linecodin =
     (if gState h = HOST_CLASS then do {
        e \<leftarrow> get_cdc h;
        Some (USBH_OK, put_cdc (e\<lparr>cdc_state := CDC_SET_LINE_CODING_STATE, pUserLineCoding := linecodin\<rparr>) h,
          os_put USBH_CLASS_EVENT b)
      } else Some (USBH_OK, h, b))"

definition USBH_CDC_GetLineCoding :: "host \<Rightarrow> (USBH_StatusTypeDef \<times> CDC_LineCodingTypeDef option) option" where
  "USBH_CDC_GetLineCoding h =
     (if gState h = HOST_CLASS \<or> gState h = HOST_CLASS_REQUEST
      then do { e \<leftarrow> get_cdc h; Some (USBH_OK, Some (LineCoding e)) }
      else Some (USBH_FAIL, None))"

definition USBH_CDC_GetLastReceivedDataSize :: "host \<Rightarrow> bus \<Rightarrow> u16 option" where
  "USBH_CDC_GetLastReceivedDataSize h b =
     (if gState h = HOST_CLASS then do {
        e \<leftarrow> get_cdc h;
        n \<leftarrow> USBH_LL_GetLastXferSize h b (cdc_InPipe e);
        Some (ucast n)
      } else Some 0)"

definition cdc_ready :: "CDC_HandleTypeDef \<Rightarrow> bool" where
  "cdc_ready e \<longleftrightarrow> cdc_state e = CDC_IDLE_STATE \<or> cdc_state e = CDC_TRANSFER_DATA"

definition USBH_CDC_Transmit :: "host \<Rightarrow> bus \<Rightarrow> buf_ptr \<Rightarrow> u32 \<Rightarrow> call" where
  "USBH_CDC_Transmit h b pbuff len = do {
     e \<leftarrow> get_cdc h;
     Some (if cdc_ready e
       then (USBH_OK, put_cdc (e\<lparr>cdc_pTxData := pbuff, cdc_TxDataLength := len,
               cdc_state := CDC_TRANSFER_DATA, cdc_tx_state := CDC_SEND_DATA\<rparr>) h, os_put USBH_CLASS_EVENT b)
       else (USBH_BUSY, h, b))
   }"

definition USBH_CDC_Receive :: "host \<Rightarrow> bus \<Rightarrow> buf_ptr \<Rightarrow> u32 \<Rightarrow> call" where
  "USBH_CDC_Receive h b pbuff len = do {
     e \<leftarrow> get_cdc h;
     Some (if cdc_ready e
       then (USBH_OK, put_cdc (e\<lparr>cdc_pRxData := pbuff, cdc_RxDataLength := len,
               cdc_state := CDC_TRANSFER_DATA, cdc_rx_state := CDC_RECEIVE_DATA\<rparr>) h, os_put USBH_CLASS_EVENT b)
       else (USBH_BUSY, h, b))
   }"

end
