(* ===== verification/Ch340Facts.thy ===== *)
theory Ch340Facts
  imports Ch340 Requests
begin

text \<open>
  The serial converter's driver: the divisor it computes is the best one, the line settings can be read
  back from the register, the bring-up sends its seven requests in order, a transmission is the buffer
  in packets; a second bring-up never ends, and releasing the interface frees a pipe it never took.
\<close>

subsection \<open>The baud rate divisor\<close>

text \<open>The rate that a divisor of \<open>m\<close> gives, as far as it differs from the one asked for.\<close>

definition rate_error :: "u32 \<Rightarrow> u32 \<Rightarrow> nat \<Rightarrow> int" where
  "rate_error c baud m = \<bar>int (unat c div m) - int (unat baud)\<bar>"

lemma baud_clock_range:
  assumes "baud_clock baud = (k, c)" "46 \<le> baud" "baud \<le> 6000000"
  shows "1 \<le> unat c div unat baud" "unat c div unat baud < 255"
proof -
  have b: "46 \<le> unat baud" "unat baud \<le> 6000000" using assms(2,3) by (simp_all add: word_le_nat_alt)
  have "unat baud \<le> unat c \<and> unat c < 255 * unat baud"
    using assms(1) b by (auto simp: baud_clock_def word_less_nat_alt split: if_splits)
  then show "1 \<le> unat c div unat baud" "unat c div unat baud < 255"
    using b by (simp_all add: div_greater_zero_iff Suc_le_eq div_less_iff_less_mult)
qed

text \<open>The two divisors next to the exact quotient are the best ones.\<close>

lemma neighbours_best:
  fixes c b :: nat
  assumes "0 < b" "a = c div b" "0 < a" "0 < m"
  shows "min \<bar>int (c div a) - int b\<bar> \<bar>int (c div (a + 1)) - int b\<bar> \<le> \<bar>int (c div m) - int b\<bar>"
    "b \<le> c div a" "c div (a + 1) \<le> b"
proof -
  show up: "b \<le> c div a" using assms by (simp add: less_eq_div_iff_mult_less_eq)
  have "c < (a + 1) * b" using assms(1,2) by (simp add: dividend_less_div_times)
  then have "c div (a + 1) < b" by (simp add: div_less_iff_less_mult mult.commute)
  then show down: "c div (a + 1) \<le> b" by simp
  have "c div a \<le> c div m \<or> c div m \<le> c div (a + 1)"
    using assms(4) div_le_mono2 [of m a c] div_le_mono2 [of "a + 1" m c] by (cases "m \<le> a") auto
  with up down show "min \<bar>int (c div a) - int b\<bar> \<bar>int (c div (a + 1)) - int b\<bar> \<le> \<bar>int (c div m) - int b\<bar>" by auto
qed

lemma unat_byte_word: "n \<le> 255 \<Longrightarrow> unat (ucast (of_nat n :: u8) :: u32) = n"
proof -
  assume n: "n \<le> 255"
  then have "n < 2 ^ 32" by simp
  with n show ?thesis by (simp add: unat_of_nat unsigned_ucast_eq take_bit_nat_eq_self)
qed

lemma nearer: "min \<bar>int x - int b\<bar> \<bar>int y - int b\<bar> \<le> e \<Longrightarrow> b \<le> x \<Longrightarrow> y \<le> b \<Longrightarrow>
    \<bar>int (if b - y < x - b then y else x) - int b\<bar> \<le> e"
  by (auto simp: min_def split: if_splits)

lemma step_of_nat: "(v :: u8) = of_nat n \<Longrightarrow> (if P then v + 1 else v) = of_nat (if P then n + 1 else n)"
  by simp

text \<open>
  C25: for every rate from 46 to 6000000 baud (two rates are fixed in the code), the divisor written to
  the converter is one of the 255 there are, and no other of them comes closer to the rate, in spite of
  the narrowing to 8 bits and of the unsigned differences the choice rests on.
\<close>

theorem baud_nearest:
  assumes "46 \<le> baud" "baud \<le> 6000000" "baud \<notin> {921600, 307200}" "baud_clock baud = (k, c)"
  shows "\<exists>n. ch34x_get_baud_rate baud = Some (Some (of_nat (256 - n), k)) \<and> 1 \<le> n \<and> n \<le> 255 \<and>
     (\<forall>m. 1 \<le> m \<longrightarrow> rate_error c baud n \<le> rate_error c baud m)"
proof -
  let ?a = "unat c div unat baud"
  note r = baud_clock_range [OF assms(4,1,2)]
  have b: "0 < unat baud" using assms(1) by (simp add: word_le_nat_alt)
  note nb = neighbours_best [OF b refl, of "unat c"]
  have ab: "0 < ?a" using r by simp
  let ?A = "ucast (c div baud) :: u8"
  have ua: "unat ?A = ?a"
    using r(2) by (simp add: unat_div unsigned_ucast_eq unsigned_take_bit_eq take_bit_nat_eq_self)
  have a: "?A = of_nat ?a" by (subst word_unat_eq_iff) (use ua r(2) in \<open>simp add: unat_of_nat\<close>)
  have u32: "unat (ucast ?A :: u32) = ?a" unfolding a using r(2) by (intro unat_byte_word) simp
  let ?up = "c div ucast ?A - baud" and ?down = "baud - c div (ucast ?A + 1)"
  have s1: "unat (c div ucast ?A) = unat c div ?a" by (simp only: unat_div u32)
  have "unat (ucast ?A + 1 :: u32) = ?a + 1" using u32 r(2) by (simp only: unat_word_ariths) simp
  then have s2: "unat (c div (ucast ?A + 1)) = unat c div (?a + 1)" by (simp only: unat_div)
  have up: "unat ?up = unat c div ?a - unat baud"
    using nb(2) [OF ab, of 1] s1 by (subst unat_sub) (simp_all only: word_le_nat_alt)
  have down: "unat ?down = unat baud - unat c div (?a + 1)"
    using nb(3) [OF ab, of 1] s2 by (subst unat_sub) (simp_all only: word_le_nat_alt)
  let ?n = "if ?up > ?down then ?a + 1 else ?a"
  have n: "1 \<le> ?n" "?n \<le> 255" using r by (auto split: if_splits)
  have cmp: "(?up > ?down) = (unat baud - unat c div (?a + 1) < unat c div ?a - unat baud)"
    by (simp only: word_less_nat_alt up down)
  have best: "rate_error c baud ?n \<le> rate_error c baud m" if "1 \<le> m" for m
  proof -
    have "rate_error c baud ?n = \<bar>int (if unat baud - unat c div (?a + 1) < unat c div ?a - unat baud
        then unat c div (?a + 1) else unat c div ?a) - int (unat baud)\<bar>" by (simp only: rate_error_def cmp if_distrib [of "(div) (unat c)"])
    also have "\<dots> \<le> rate_error c baud m" unfolding rate_error_def
      using that by (intro nearer nb [OF ab, of m]) simp_all
    finally show ?thesis .
  qed
  have neg: "ucast (256 - ucast (of_nat n :: u8) :: u32) = (of_nat (256 - n) :: u8)" if "1 \<le> n" "n \<le> 255" for n
  proof -
    have "unat (ucast (of_nat n :: u8) :: u32) = n" using that by (intro unat_byte_word)
    then have "unat (256 - ucast (of_nat n :: u8) :: u32) = 256 - n"
      using that by (subst unat_sub) (simp_all add: word_le_nat_alt)
    moreover have "ucast v = (of_nat (unat v) :: u8)" for v :: u32 by simp
    ultimately show ?thesis by metis
  qed
  have "?A \<noteq> 0" "?A \<noteq> 0xFF" using ua r by auto
  moreover have "baud \<noteq> 0" using b by auto
  ultimately have "ch34x_get_baud_rate baud =
      Some (Some (ucast (256 - ucast (if ?up > ?down then ?A + 1 else ?A) :: u32), k))"
    using assms(3,4) by (simp add: ch34x_get_baud_rate_def Let_def)
  also have "\<dots> = Some (Some (of_nat (256 - ?n), k))" by (simp only: step_of_nat [OF a] neg [OF n])
  finally have "ch34x_get_baud_rate baud = Some (Some (of_nat (256 - ?n), k))" .
  with n best show ?thesis by blast
qed

lemma baud_nearest_witness:
  "\<exists>n. ch34x_get_baud_rate 115200 = Some (Some (of_nat (256 - n), 3)) \<and> 1 \<le> n \<and> n \<le> 255 \<and>
     (\<forall>m. 1 \<le> m \<longrightarrow> rate_error 6000000 115200 n \<le> rate_error 6000000 115200 m)"
  by (rule baud_nearest) (simp_all add: baud_clock_def)

subsection \<open>Line settings\<close>

text \<open>What a line control register says: data bits, two stop bits, parity.\<close>

definition read_reg :: "u8 \<Rightarrow> u8 \<times> bool \<times> u8" where
  "read_reg r = ((r AND 0x03) + 5, r AND 0x04 \<noteq> 0,
     if r AND 0x08 = 0 then 0 else if r AND 0x20 \<noteq> 0 then 3 else if r AND 0x10 \<noteq> 0 then 2 else 1)"

lemma byte_below_5: "n < (5 :: u8) \<Longrightarrow> n = 0 \<or> n = 1 \<or> n = 2 \<or> n = 3 \<or> n = 4"
proof -
  assume "n < 5"
  then have "unat n < 5" by (simp add: word_less_nat_alt)
  then have "unat n = 0 \<or> unat n = 1 \<or> unat n = 2 \<or> unat n = 3 \<or> unat n = 4" by auto
  then show ?thesis by (simp add: word_unat_eq_iff)
qed

text \<open>
  The register that the driver computes gives the line settings back, and keeps receiver and
  transmitter enabled; but space parity, the fifth setting, cannot be told from mark parity.
\<close>

lemma line_reg_roundtrip:
  assumes "lc_bDataBits lc \<in> {5, 6, 7, 8}" "lc_bParityType lc < 5"
  shows "read_reg (line_reg lc) = (lc_bDataBits lc, lc_bCharFormat lc = 2, min 3 (lc_bParityType lc)) \<and>
     line_reg lc AND 0xC0 = 0xC0"
  using assms byte_below_5 [OF assms(2)]
  by (auto simp: read_reg_def line_reg_def data_bits_def parity_bits_def min_def word_le_nat_alt)

subsection \<open>The bring-up\<close>

lemma get_put_cdc [simp]: "get_cdc h = Some e0 \<Longrightarrow> get_cdc (put_cdc e h) = Some e"
  by (auto simp: get_cdc_def put_cdc_def rd_def split: option.splits if_splits)

lemma put_cdc_simps [simp]:
  "self (put_cdc e h) = self h" "gState (put_cdc e h) = gState h" "Control (put_cdc e h) = Control h"
  "pData (put_cdc e h) = pData h" "pUser (put_cdc e h) = pUser h" "RequestState (put_cdc e h) = RequestState h"
  "put_cdc e2 (put_cdc e h) = put_cdc e2 h" "device (put_cdc e h) = device h"
  "pipes_open (put_cdc e h) b = pipes_open h b"
  by (simp_all add: put_cdc_def pipes_open_def ctl_ok_def)

lemma get_cdc_frame: "ctl_frame h h' \<Longrightarrow> get_cdc h' = get_cdc h"
  by (simp add: get_cdc_def ctl_frame_fields)

lemma with_setup_cdc [simp]: "get_cdc (with_setup q h) = get_cdc h"
  by (simp add: get_cdc_def)

lemma get_cdc_slot: "get_cdc h = Some e \<Longrightarrow> rd (pClassData h) 0 = Some (Some (Cdc_data e))"
  by (auto simp: get_cdc_def split: option.splits class_data.splits)

text \<open>The request of each state, and the state that its answer leads to.\<close>

definition vendor_pkt :: "u8 \<Rightarrow> u8 \<Rightarrow> u16 \<Rightarrow> u16 \<Rightarrow> u16 \<Rightarrow> USB_Setup_TypeDef" where
  "vendor_pkt rt rq v i l = \<lparr>bmRequestType = rt, bRequest = rq, wValue = v, wIndex = i, wLength = l\<rparr>"

fun attach_pkt :: "CH340_AttachStateTypeDef \<Rightarrow> USB_Setup_TypeDef" where
  "attach_pkt CH340_READ_VENDOR_VERSION_STATE = vendor_pkt 0xC0 0x5F 0 0 2"
| "attach_pkt CH340_VENDOR_SERIAL_INIT_STATE = vendor_pkt 0x40 0xA1 0 0 0"
| "attach_pkt CH340_VENDOR_WRITE_1_STATE = vendor_pkt 0x40 0x9A 0x1312 0xD982 0"
| "attach_pkt CH340_VENDOR_WRITE_2_STATE = vendor_pkt 0x40 0x9A 0x0F2C 0x0004 0"
| "attach_pkt CH340_VENDOR_READ_1_STATE = vendor_pkt 0xC0 0x95 0x2518 0 2"
| "attach_pkt CH340_VENDOR_WRITE_3_STATE = vendor_pkt 0x40 0x9A 0x2727 0 0"
| "attach_pkt CH340_VENDOR_MODEM_OUT_STATE = vendor_pkt 0x40 0xA4 0x009F 0 0"
| "attach_pkt CH340_ATTACH_COMPLETE_STATE = vendor_pkt 0 0 0 0 0"

fun attach_succ :: "CH340_AttachStateTypeDef \<Rightarrow> CH340_AttachStateTypeDef" where
  "attach_succ CH340_READ_VENDOR_VERSION_STATE = CH340_VENDOR_SERIAL_INIT_STATE"
| "attach_succ CH340_VENDOR_SERIAL_INIT_STATE = CH340_VENDOR_WRITE_1_STATE"
| "attach_succ CH340_VENDOR_WRITE_1_STATE = CH340_VENDOR_WRITE_2_STATE"
| "attach_succ CH340_VENDOR_WRITE_2_STATE = CH340_VENDOR_READ_1_STATE"
| "attach_succ CH340_VENDOR_READ_1_STATE = CH340_VENDOR_WRITE_3_STATE"
| "attach_succ CH340_VENDOR_WRITE_3_STATE = CH340_VENDOR_MODEM_OUT_STATE"
| "attach_succ CH340_VENDOR_MODEM_OUT_STATE = CH340_ATTACH_COMPLETE_STATE"
| "attach_succ CH340_ATTACH_COMPLETE_STATE = CH340_ATTACH_COMPLETE_STATE"

definition attach_buf :: "hid \<Rightarrow> CH340_AttachStateTypeDef \<Rightarrow> buf_ptr" where
  "attach_buf x st = (if wLength (attach_pkt st) = 0 then NULL_buf else Ch340_of x)"

definition attach_at :: "hid \<Rightarrow> CH340_AttachStateTypeDef \<Rightarrow> host \<Rightarrow> bool" where
  "attach_at x st h \<longleftrightarrow> self h = x \<and> st \<noteq> CH340_ATTACH_COMPLETE_STATE \<and>
     (\<exists>e. get_cdc h = Some e \<and> cdc_state e = CDC_ATTACH_INIT_STATE \<and> attach_state e = st)"

definition attach_after :: "hid \<Rightarrow> CH340_AttachStateTypeDef \<Rightarrow> USBH_StatusTypeDef \<Rightarrow> host \<Rightarrow> bus \<Rightarrow> bool" where
  "attach_after x st s h b \<longleftrightarrow> s = USBH_BUSY \<and>
     (if attach_succ st = CH340_ATTACH_COMPLETE_STATE
      then \<exists>e. get_cdc h = Some e \<and> cdc_state e = CDC_IDLE_STATE \<and> attach_state e = CH340_ATTACH_COMPLETE_STATE
      else attach_at x (attach_succ st) h)"

lemma attach_request:
  assumes "get_cdc h = Some e" "attach_state e = st" "st \<noteq> CH340_ATTACH_COMPLETE_STATE"
  shows "ch34x_attach h b = do {
     r \<leftarrow> USBH_CtlReq (with_setup (attach_pkt st) h) b (attach_buf (self h) st) (wLength (attach_pkt st));
     attach_next (attach_succ st) r
   }"
  using assms get_cdc_slot [OF assms(1)]
  by (cases st) (simp_all add: ch34x_attach_def ch34x_vendor_read_def ch34x_vendor_write_def set_setup_with
    attach_buf_def vendor_pkt_def)

interpretation bring_up: requester no_data "attach_at x" attach_pkt "attach_buf x"
  "\<lambda>st. wLength (attach_pkt st)" "\<lambda>_ _. True" "\<lambda>_. True" USBH_CH340_Process "attach_after x" for x
proof (unfold_locales; (simp add: no_data_def; fail)?)
  fix st h h' assume "attach_at x st h" "ctl_frame (with_setup (attach_pkt st) h) h'"
  then show "attach_at x st h'"
    using get_cdc_frame [of "with_setup (attach_pkt st) h" h'] ctl_frame_fields(1) [of "with_setup (attach_pkt st) h" h']
    by (simp add: attach_at_def)
next
  fix st h b h1 b1
  assume p: "attach_at x st h"
    "USBH_CtlReq (with_setup (attach_pkt st) h) b (attach_buf x st) (wLength (attach_pkt st)) = Some (USBH_BUSY, h1, b1)"
  then obtain e where e: "get_cdc h = Some e" "cdc_state e = CDC_ATTACH_INIT_STATE" "attach_state e = st"
    "st \<noteq> CH340_ATTACH_COMPLETE_STATE" "self h = x" by (auto simp: attach_at_def)
  show "USBH_CH340_Process h b = Some (USBH_BUSY, h1, b1)"
    using e p(2) get_cdc_slot [OF e(1)] attach_request [OF e(1,3,4)] by (simp add: USBH_CH340_Process_def attach_next_def)
next
  fix st h b h1 b1
  assume p: "attach_at x st h"
    "USBH_CtlReq (with_setup (attach_pkt st) h) b (attach_buf x st) (wLength (attach_pkt st)) = Some (USBH_OK, h1, b1)"
    "pipes_open h1 b1" "RequestState h1 = CMD_SEND"
  then obtain e where e: "get_cdc h = Some e" "cdc_state e = CDC_ATTACH_INIT_STATE" "attach_state e = st"
    "st \<noteq> CH340_ATTACH_COMPLETE_STATE" "self h = x" by (auto simp: attach_at_def)
  note f = CtlReq_frame(1) [OF p(2)]
  have h1: "get_cdc h1 = Some e" "self h1 = x" using get_cdc_frame [OF f] ctl_frame_fields(1) [OF f] e by simp_all
  show "\<exists>s h2 b2. USBH_CH340_Process h b = Some (s, h2, b2) \<and> pipes_open h2 b2 \<and>
      RequestState h2 = CMD_SEND \<and> attach_after x st s h2 b2"
    using e p(2-4) h1 get_cdc_slot [OF e(1)] attach_request [OF e(1,3,4)]
    by (cases "attach_succ st = CH340_ATTACH_COMPLETE_STATE")
      (simp_all add: USBH_CH340_Process_def attach_next_def cdc_goto_def attach_after_def attach_at_def)
qed

text \<open>Idle, the driver does nothing; so it stays.\<close>

lemma cdc_idle_polls:
  assumes "get_cdc h = Some e" "cdc_state e = CDC_IDLE_STATE" "RequestState h = CMD_SEND"
  shows "\<exists>b'. polls_of no_data USBH_CH340_Process tape h b = Some ([], replicate (length tape) USBH_OK, h, b')"
proof (induction tape arbitrary: b)
  case (Cons a tape)
  have "USBH_CH340_Process h c = Some (USBH_OK, h, c)" for c
    using assms get_cdc_slot [OF assms(1)] by (simp add: USBH_CH340_Process_def)
  moreover have "setup_sent h = []" using assms(3) by (simp add: setup_sent_def)
  ultimately show ?case using Cons.IH [of "if a then ack b else b"] by auto
qed simp

lemma attach_packets:
  "map (\<lambda>st. setup_bytes (attach_pkt st)) [CH340_READ_VENDOR_VERSION_STATE, CH340_VENDOR_SERIAL_INIT_STATE,
     CH340_VENDOR_WRITE_1_STATE, CH340_VENDOR_WRITE_2_STATE, CH340_VENDOR_READ_1_STATE,
     CH340_VENDOR_WRITE_3_STATE, CH340_VENDOR_MODEM_OUT_STATE] =
   [[0xC0, 0x5F, 0, 0, 0, 0, 2, 0], [0x40, 0xA1, 0, 0, 0, 0, 0, 0], [0x40, 0x9A, 0x12, 0x13, 0x82, 0xD9, 0, 0],
    [0x40, 0x9A, 0x2C, 0x0F, 0x04, 0, 0, 0], [0xC0, 0x95, 0x18, 0x25, 0, 0, 2, 0],
    [0x40, 0x9A, 0x27, 0x27, 0, 0, 0, 0], [0x40, 0xA4, 0x9F, 0, 0, 0, 0, 0]]"
  by (simp add: vendor_pkt_def setup_bytes_def le16_bytes_def)

lemma attach_costs:
  "req_cost (attach_pkt st) = (if st = CH340_ATTACH_COMPLETE_STATE \<or> wLength (attach_pkt st) = 0 then 5 else 7)"
  by (cases st) (simp_all add: vendor_pkt_def req_cost_def stages_def after_setup_def)

text \<open>
  C26: asked to bring the converter up, the driver sends its seven vendor requests, each once and in
  order, however the controller's answers are spread over the polls; then it is idle and the bring-up is
  reported complete.
\<close>

theorem attach_completes:
  assumes "get_cdc h = Some e" "gState h = HOST_CLASS" "attach_state e = CH340_READ_VENDOR_VERSION_STATE"
    "pipes_open h b" "RequestState h = CMD_SEND" "39 \<le> count_list tape True"
  shows "\<exists>h1 b1 k h' b' e'. USBH_CDC_AttachInit h b = Some (USBH_OK, h1, b1) \<and> k \<le> length tape \<and>
     polls_of no_data USBH_CH340_Process tape h1 b1 = Some (
       [[0xC0, 0x5F, 0, 0, 0, 0, 2, 0], [0x40, 0xA1, 0, 0, 0, 0, 0, 0], [0x40, 0x9A, 0x12, 0x13, 0x82, 0xD9, 0, 0],
        [0x40, 0x9A, 0x2C, 0x0F, 0x04, 0, 0, 0], [0xC0, 0x95, 0x18, 0x25, 0, 0, 2, 0],
        [0x40, 0x9A, 0x27, 0x27, 0, 0, 0, 0], [0x40, 0xA4, 0x9F, 0, 0, 0, 0, 0]],
       replicate k USBH_BUSY @ replicate (length tape - k) USBH_OK, h', b') \<and>
     get_cdc h' = Some e' \<and> cdc_state e' = CDC_IDLE_STATE \<and> attach_state e' = CH340_ATTACH_COMPLETE_STATE"
proof -
  let ?j = CH340_READ_VENDOR_VERSION_STATE
  let ?js = "[CH340_VENDOR_SERIAL_INIT_STATE, CH340_VENDOR_WRITE_1_STATE, CH340_VENDOR_WRITE_2_STATE,
     CH340_VENDOR_READ_1_STATE, CH340_VENDOR_WRITE_3_STATE, CH340_VENDOR_MODEM_OUT_STATE]"
  let ?h = "put_cdc (e\<lparr>cdc_state := CDC_ATTACH_INIT_STATE\<rparr>) h" and ?b = "os_put USBH_CLASS_EVENT b"
  have i: "USBH_CDC_AttachInit h b = Some (USBH_OK, ?h, ?b)" using assms(1,2) by (simp add: USBH_CDC_AttachInit_def cdc_goto_def)
  have at: "attach_at (self h) ?j ?h" using assms(1,3) by (simp add: attach_at_def)
  have po: "pipes_open ?h ?b" using assms(4) by (simp add: pipes_open_def ctl_ok_def pipes_ok_def)
  have chain: "\<forall>i s g c. Suc i < length (?j # ?js) \<longrightarrow> attach_after (self h) ((?j # ?js) ! i) s g c \<longrightarrow>
      s = USBH_BUSY \<and> attach_at (self h) ((?j # ?js) ! Suc i) g"
    by (auto simp: attach_after_def less_Suc_eq nth_Cons split: nat.splits)
  have cost: "(\<Sum>i\<leftarrow>?j # ?js. req_cost (attach_pkt i)) \<le> count_list tape True"
    using assms(6) by (simp add: attach_costs vendor_pkt_def)
  have keep: "\<forall>i s g c. attach_after (self h) i s g c \<longrightarrow> True" by simp
  from bring_up.requests_run [OF at po _ TrueI chain keep cost] assms(5) obtain t1 t2 ss s h' b' where 1: "tape = t1 @ t2"
    "polls_of no_data USBH_CH340_Process t1 ?h ?b = Some (map (\<lambda>i. setup_bytes (attach_pkt i)) (?j # ?js), ss @ [s], h', b')"
    "set ss \<subseteq> {USBH_BUSY}" "attach_after (self h) (last (?j # ?js)) s h' b'" "RequestState h' = CMD_SEND" by auto
  from 1(4) obtain e' where e': "s = USBH_BUSY" "get_cdc h' = Some e'" "cdc_state e' = CDC_IDLE_STATE"
    "attach_state e' = CH340_ATTACH_COMPLETE_STATE" by (auto simp: attach_after_def)
  from cdc_idle_polls [OF e'(2,3) 1(5)] obtain b2
    where 2: "polls_of no_data USBH_CH340_Process t2 h' b' = Some ([], replicate (length t2) USBH_OK, h', b2)" by blast
  have "length (ss @ [s]) = length t1" by (rule polls_length [OF 1(2)])
  moreover have "ss @ [s] = replicate (length (ss @ [s])) USBH_BUSY"
    using 1(3) e'(1) by (intro replicate_eqI) auto
  ultimately have b: "ss @ [s] = replicate (length t1) USBH_BUSY" by simp
  from polls_append [OF 1(2) 2] show ?thesis unfolding b attach_packets using i e' 1(1)
    by (intro exI [of _ ?h] exI [of _ ?b] exI [of _ "length t1"] exI [of _ h'] exI [of _ b2] exI [of _ e']) simp
qed

definition sample_cdc :: CDC_HandleTypeDef where
  "sample_cdc = \<lparr>cdc_NotifPipe = 0, cdc_NotifEp = 0x83, cdc_NotifEpSize = 8, cdc_InPipe = 3, cdc_OutPipe = 2,
     cdc_OutEp = 2, cdc_InEp = 0x82, cdc_OutEpSize = 32, cdc_InEpSize = 32, cdc_pTxData = NULL_buf,
     cdc_pRxData = NULL_buf, cdc_TxDataLength = 0, cdc_RxDataLength = 0,
     LineCoding = \<lparr>lc_dwDTERate = 115200, lc_bCharFormat = 0, lc_bParityType = 0, lc_bDataBits = 8\<rparr>,
     pUserLineCoding = None, cdc_state = CDC_IDLE_STATE, cdc_tx_state = CDC_IDLE, cdc_rx_state = CDC_IDLE,
     attach_state = CH340_READ_VENDOR_VERSION_STATE, cdc_buf = []\<rparr>"

definition sample_converter :: "CDC_HandleTypeDef \<Rightarrow> host" where
  "sample_converter e = put_cdc e (sample_host\<lparr>gState := HOST_CLASS\<rparr>)"

lemma sample_converter [simp]:
  "get_cdc (sample_converter e) = Some e" "gState (sample_converter e) = HOST_CLASS"
  "RequestState (sample_converter e) = CMD_SEND" "pData (sample_converter e)"
  "pipes_open (sample_converter e) sample_bus"
  using sample_open
  by (simp_all add: sample_converter_def get_cdc_def put_cdc_def sample_host_def zero_host_def rd_def pipes_open_def ctl_ok_def)

lemma attach_completes_witness:
  "\<exists>h1 b1 k h' b' e'. USBH_CDC_AttachInit (sample_converter sample_cdc) sample_bus = Some (USBH_OK, h1, b1) \<and> k \<le> 42 \<and>
     polls_of no_data USBH_CH340_Process (replicate 2 False @ replicate 40 True) h1 b1 = Some (
       [[0xC0, 0x5F, 0, 0, 0, 0, 2, 0], [0x40, 0xA1, 0, 0, 0, 0, 0, 0], [0x40, 0x9A, 0x12, 0x13, 0x82, 0xD9, 0, 0],
        [0x40, 0x9A, 0x2C, 0x0F, 0x04, 0, 0, 0], [0xC0, 0x95, 0x18, 0x25, 0, 0, 2, 0],
        [0x40, 0x9A, 0x27, 0x27, 0, 0, 0, 0], [0x40, 0xA4, 0x9F, 0, 0, 0, 0, 0]],
       replicate k USBH_BUSY @ replicate (42 - k) USBH_OK, h', b') \<and>
     get_cdc h' = Some e' \<and> cdc_state e' = CDC_IDLE_STATE \<and> attach_state e' = CH340_ATTACH_COMPLETE_STATE"
proof -
  have "39 \<le> count_list (replicate 2 False @ replicate 40 True) True" by code_simp
  from attach_completes [of "sample_converter sample_cdc" sample_cdc sample_bus, OF _ _ _ _ _ this] show ?thesis
    by (simp add: sample_cdc_def del: polls_of.simps append_replicate_commute replicate_append_same)
qed

text \<open>
  C29: asked a second time, the driver starts a bring-up that nothing ends: whatever the controller
  answers, it stays busy, sends nothing and refuses to transmit.
\<close>

theorem second_attach_hangs:
  assumes "get_cdc h = Some e" "gState h = HOST_CLASS" "attach_state e = CH340_ATTACH_COMPLETE_STATE"
    "RequestState h = CMD_SEND"
  shows "\<exists>h1 b1. USBH_CDC_AttachInit h b = Some (USBH_OK, h1, b1) \<and>
     (\<forall>tape. \<exists>b'. polls_of no_data USBH_CH340_Process tape h1 b1 = Some ([], replicate (length tape) USBH_BUSY, h1, b') \<and>
        USBH_CDC_Transmit h1 b' p n = Some (USBH_BUSY, h1, b'))"
proof -
  let ?e = "e\<lparr>cdc_state := CDC_ATTACH_INIT_STATE\<rparr>"
  let ?h = "put_cdc ?e h" and ?b = "os_put USBH_CLASS_EVENT b"
  have e: "get_cdc ?h = Some ?e" using assms(1) by simp
  have i: "USBH_CDC_AttachInit h b = Some (USBH_OK, ?h, ?b)" using assms(1,2) by (simp add: USBH_CDC_AttachInit_def cdc_goto_def)
  have st: "USBH_CH340_Process ?h c = Some (USBH_BUSY, ?h, c)" for c
    using e assms(3) get_cdc_slot [OF e] by (simp add: USBH_CH340_Process_def ch34x_attach_def)
  have q: "setup_sent ?h = []" using assms(4) by (simp add: setup_sent_def)
  have "\<exists>b'. polls_of no_data USBH_CH340_Process tape ?h c = Some ([], replicate (length tape) USBH_BUSY, ?h, b')" for tape c
  proof (induction tape arbitrary: c)
    case (Cons a tape)
    from Cons.IH [of "if a then ack c else c"] show ?case using st q by auto
  qed simp
  moreover have "USBH_CDC_Transmit ?h c p n = Some (USBH_BUSY, ?h, c)" for c
    using e by (simp add: USBH_CDC_Transmit_def cdc_ready_def)
  ultimately show ?thesis using i by blast
qed

lemma second_attach_hangs_witness:
  "\<exists>h1 b1. USBH_CDC_AttachInit (sample_converter (sample_cdc\<lparr>attach_state := CH340_ATTACH_COMPLETE_STATE\<rparr>)) sample_bus =
       Some (USBH_OK, h1, b1) \<and>
     (\<forall>tape. \<exists>b'. polls_of no_data USBH_CH340_Process tape h1 b1 = Some ([], replicate (length tape) USBH_BUSY, h1, b') \<and>
        USBH_CDC_Transmit h1 b' (Mem 0x1000) 10 = Some (USBH_BUSY, h1, b'))"
  by (rule second_attach_hangs [OF sample_converter(1)]) simp_all

subsection \<open>Setting the line\<close>

text \<open>The request that sets the line, and what follows it.\<close>

definition line_pkt :: "u8 \<Rightarrow> u8 \<Rightarrow> u8 \<Rightarrow> USB_Setup_TypeDef" where
  "line_pkt reg divisor factor = vendor_pkt 0x40 0xA1 (0x9C OR push_bit 8 (ucast reg))
     ((0x80 OR ucast divisor) OR push_bit 8 (ucast factor)) 0"

definition line_at :: "u8 \<Rightarrow> u8 \<Rightarrow> CDC_LineCodingTypeDef \<Rightarrow> host \<Rightarrow> bool" where
  "line_at f d lc h \<longleftrightarrow> ch34x_get_baud_rate (lc_dwDTERate lc) = Some (Some (f, d)) \<and> gState h = HOST_CLASS \<and>
     (\<exists>e. get_cdc h = Some e \<and> cdc_state e = CDC_SET_LINE_CODING_STATE \<and> pUserLineCoding e = Some lc)"

definition line_after :: "CDC_LineCodingTypeDef \<Rightarrow> USBH_StatusTypeDef \<Rightarrow> host \<Rightarrow> bus \<Rightarrow> bool" where
  "line_after lc s h b \<longleftrightarrow> s = USBH_BUSY \<and> gState h = HOST_CLASS \<and>
     (\<exists>e. get_cdc h = Some e \<and> cdc_state e = CDC_GET_LAST_LINE_CODING_STATE \<and> pUserLineCoding e = Some lc)"

lemma line_request:
  assumes "ch34x_get_baud_rate (lc_dwDTERate lc) = Some (Some (f, d))"
  shows "SetLineCoding h b (Some lc) = USBH_CtlReq (with_setup (line_pkt (line_reg lc) d f) h) b NULL_buf 0"
  using assms by (simp add: SetLineCoding_def ch34x_vendor_write_def set_setup_with line_pkt_def vendor_pkt_def Let_def)

interpretation set_line: requester no_data "line_at f d" "\<lambda>lc. line_pkt (line_reg lc) d f"
  "\<lambda>_. NULL_buf" "\<lambda>_. 0" "\<lambda>_ _. True" "\<lambda>_. True" USBH_CH340_Process line_after for f d
proof (unfold_locales; (simp add: no_data_def; fail)?)
  fix lc h h' assume "line_at f d lc h" "ctl_frame (with_setup (line_pkt (line_reg lc) d f) h) h'"
  then show "line_at f d lc h'"
    using get_cdc_frame [of "with_setup (line_pkt (line_reg lc) d f) h" h'] ctl_frame_fields(2) [of "with_setup (line_pkt (line_reg lc) d f) h" h']
    by (simp add: line_at_def)
next
  fix lc h b h1 b1
  assume p: "line_at f d lc h"
    "USBH_CtlReq (with_setup (line_pkt (line_reg lc) d f) h) b NULL_buf 0 = Some (USBH_BUSY, h1, b1)"
  then obtain e where e: "get_cdc h = Some e" "cdc_state e = CDC_SET_LINE_CODING_STATE" "pUserLineCoding e = Some lc"
    "ch34x_get_baud_rate (lc_dwDTERate lc) = Some (Some (f, d))" "gState h = HOST_CLASS" by (auto simp: line_at_def)
  show "USBH_CH340_Process h b = Some (USBH_BUSY, h1, b1)"
    using e p(2) get_cdc_slot [OF e(1)] line_request [OF e(4)] by (simp add: USBH_CH340_Process_def)
next
  fix lc h b h1 b1
  assume p: "line_at f d lc h"
    "USBH_CtlReq (with_setup (line_pkt (line_reg lc) d f) h) b NULL_buf 0 = Some (USBH_OK, h1, b1)"
    "pipes_open h1 b1" "RequestState h1 = CMD_SEND"
  then obtain e where e: "get_cdc h = Some e" "cdc_state e = CDC_SET_LINE_CODING_STATE" "pUserLineCoding e = Some lc"
    "ch34x_get_baud_rate (lc_dwDTERate lc) = Some (Some (f, d))" "gState h = HOST_CLASS" by (auto simp: line_at_def)
  note fr = CtlReq_frame(1) [OF p(2)]
  have "get_cdc h1 = Some e" "gState h1 = HOST_CLASS" using get_cdc_frame [OF fr] ctl_frame_fields(2) [OF fr] e by simp_all
  then show "\<exists>s h2 b2. USBH_CH340_Process h b = Some (s, h2, b2) \<and> pipes_open h2 b2 \<and>
      RequestState h2 = CMD_SEND \<and> line_after lc s h2 b2"
    using e p(2-4) get_cdc_slot [OF e(1)] line_request [OF e(4)]
    by (simp add: USBH_CH340_Process_def cdc_goto_def line_after_def)
qed

lemma two_bytes:
  fixes lo hi :: u8
  shows "ucast ((ucast lo :: u16) OR push_bit 8 (ucast hi)) = lo"
    "ucast (drop_bit 8 ((ucast lo :: u16) OR push_bit 8 (ucast hi))) = hi"
  by (rule bit_word_eqI, auto simp: bit_simps dest: bit_imp_le_length)+

lemma line_bytes: "setup_bytes (line_pkt reg d f) = [0x40, 0xA1, 0x9C, reg, 0x80 OR d, f, 0, 0]"
proof -
  have c: "0x9C = (ucast (0x9C :: u8) :: u16)" "(0x80 :: u16) OR ucast d = ucast (0x80 OR d)"
    by (simp, simp add: unsigned_or_eq)
  show ?thesis unfolding line_pkt_def vendor_pkt_def c
    by (simp only: setup_bytes_def le16_bytes_def USB_Setup_TypeDef.simps two_bytes) simp
qed

text \<open>
  C27: a request for line settings whose rate has a divisor sends one vendor request, with the settings
  in the register byte and the divisor and its prescaler behind it; then the driver is idle and reports
  these settings as the current ones.
\<close>

theorem line_setting_completes:
  assumes "get_cdc h = Some e" "gState h = HOST_CLASS" "ch34x_get_baud_rate (lc_dwDTERate lc) = Some (Some (f, d))"
    "pipes_open h b" "RequestState h = CMD_SEND" "5 \<le> count_list tape True"
  shows "\<exists>h1 b1 ss h' b'. USBH_CDC_SetLineCoding h b (Some lc) = Some (USBH_OK, h1, b1) \<and>
     polls_of no_data USBH_CH340_Process (tape @ [a]) h1 b1 = Some ([[0x40, 0xA1, 0x9C, line_reg lc, 0x80 OR d, f, 0, 0]], ss, h', b') \<and>
     USBH_CDC_GetLineCoding h' = Some (USBH_OK, Some lc) \<and> (\<exists>e'. get_cdc h' = Some e' \<and> cdc_state e' = CDC_IDLE_STATE)"
proof -
  let ?h = "put_cdc (e\<lparr>cdc_state := CDC_SET_LINE_CODING_STATE, pUserLineCoding := Some lc\<rparr>) h"
  let ?b = "os_put USBH_CLASS_EVENT b"
  have i: "USBH_CDC_SetLineCoding h b (Some lc) = Some (USBH_OK, ?h, ?b)" using assms(1,2) by (simp add: USBH_CDC_SetLineCoding_def)
  have at: "line_at f d lc ?h" using assms(1-3) by (simp add: line_at_def)
  have po: "pipes_open ?h ?b" using assms(4) by (simp add: pipes_open_def ctl_ok_def pipes_ok_def)
  have "req_cost (line_pkt (line_reg lc) d f) \<le> count_list tape True"
    using assms(6) by (simp add: line_pkt_def vendor_pkt_def req_cost_def stages_def after_setup_def)
  from set_line.request_run [OF at po _ TrueI this] assms(5) obtain t1 t2 ss s h1 b1 where 1: "tape = t1 @ t2"
    "polls_of no_data USBH_CH340_Process t1 ?h ?b = Some ([setup_bytes (line_pkt (line_reg lc) d f)], ss @ [s], h1, b1)"
    "line_after lc s h1 b1" "RequestState h1 = CMD_SEND" by auto
  from 1(3) obtain e1 where e1: "get_cdc h1 = Some e1" "cdc_state e1 = CDC_GET_LAST_LINE_CODING_STATE" "pUserLineCoding e1 = Some lc"
    by (auto simp: line_after_def)
  let ?e2 = "e1\<lparr>LineCoding := lc, cdc_state := CDC_IDLE_STATE\<rparr>"
  let ?h2 = "put_cdc ?e2 h1"
  have e2: "get_cdc ?h2 = Some ?e2" using e1(1) by simp
  obtain a' t where t: "t2 @ [a] = a' # t" by (cases t2) auto
  have "USBH_CH340_Process h1 c = Some (USBH_BUSY, ?h2, c)" for c
    using e1 get_cdc_slot [OF e1(1)] by (simp add: USBH_CH340_Process_def GetLineCoding_def cdc_goto_def)
  moreover obtain b2 where "polls_of no_data USBH_CH340_Process t ?h2 (if a' then ack b1 else b1) =
      Some ([], replicate (length t) USBH_OK, ?h2, b2)"
    using cdc_idle_polls [OF e2, of t] 1(4) by auto
  moreover have "setup_sent h1 = []" using 1(4) by (simp add: setup_sent_def)
  ultimately have "polls_of no_data USBH_CH340_Process (t2 @ [a]) h1 b1 =
      Some ([], USBH_BUSY # replicate (length t) USBH_OK, ?h2, b2)" unfolding t by simp
  from polls_append [OF 1(2) this] 1(1) line_bytes
  have "polls_of no_data USBH_CH340_Process (tape @ [a]) ?h ?b =
      Some ([[0x40, 0xA1, 0x9C, line_reg lc, 0x80 OR d, f, 0, 0]], (ss @ [s]) @ USBH_BUSY # replicate (length t) USBH_OK, ?h2, b2)"
    by simp
  moreover have "USBH_CDC_GetLineCoding ?h2 = Some (USBH_OK, Some lc)"
    using e2 1(3) by (simp add: USBH_CDC_GetLineCoding_def line_after_def)
  moreover have "cdc_state ?e2 = CDC_IDLE_STATE" by simp
  ultimately show ?thesis using i e2 by blast
qed

lemma line_setting_completes_witness:
  "\<exists>h1 b1 ss h' b'. USBH_CDC_SetLineCoding (sample_converter sample_cdc) sample_bus
       (Some \<lparr>lc_dwDTERate = 9600, lc_bCharFormat = 0, lc_bParityType = 2, lc_bDataBits = 7\<rparr>) = Some (USBH_OK, h1, b1) \<and>
     polls_of no_data USBH_CH340_Process ([True, False, True, True, True, True] @ [False]) h1 b1 =
       Some ([[0x40, 0xA1, 0x9C, line_reg \<lparr>lc_dwDTERate = 9600, lc_bCharFormat = 0, lc_bParityType = 2, lc_bDataBits = 7\<rparr>,
         0x80 OR 2, 178, 0, 0]], ss, h', b') \<and>
     USBH_CDC_GetLineCoding h' = Some (USBH_OK, Some \<lparr>lc_dwDTERate = 9600, lc_bCharFormat = 0, lc_bParityType = 2, lc_bDataBits = 7\<rparr>) \<and>
     (\<exists>e'. get_cdc h' = Some e' \<and> cdc_state e' = CDC_IDLE_STATE)"
proof -
  have "ch34x_get_baud_rate 9600 = Some (Some (178, 2))" by code_simp
  then show ?thesis by (intro line_setting_completes [OF sample_converter(1)]) simp_all
qed

subsection \<open>Sending\<close>

definition cdc_todo :: "CDC_HandleTypeDef \<Rightarrow> (buf_ptr \<times> nat) list" where
  "cdc_todo e = pkts (unat (cdc_OutEpSize e)) False (cdc_pTxData e) (unat (cdc_TxDataLength e))"

definition cdc_rx_quiet :: "CDC_HandleTypeDef \<Rightarrow> bool" where
  "cdc_rx_quiet e \<longleftrightarrow> cdc_rx_state e \<noteq> CDC_RECEIVE_DATA \<and> cdc_rx_state e \<noteq> CDC_RECEIVE_DATA_WAIT"

definition cdc_tx :: "host \<Rightarrow> tx_view option" where
  "cdc_tx h = (case get_cdc h of None \<Rightarrow> None
     | Some e \<Rightarrow> if cdc_OutEpSize e = 0 \<or> cdc_state e \<noteq> CDC_TRANSFER_DATA \<or> \<not> cdc_rx_quiet e then None
         else (case cdc_tx_state e of
           CDC_IDLE \<Rightarrow> Some (Tx_idle, cdc_OutPipe e, [])
         | CDC_SEND_DATA \<Rightarrow> Some (Tx_send, cdc_OutPipe e, cdc_todo e)
         | CDC_SEND_DATA_WAIT \<Rightarrow> Some (Tx_wait, cdc_OutPipe e, cdc_todo e)
         | _ \<Rightarrow> None))"

definition cdc_round :: "host \<Rightarrow> bus \<Rightarrow> (host \<times> bus) option" where
  "cdc_round h b = do { (_, h, b) \<leftarrow> USBH_CH340_Process h b; Some (h, b) }"

lemma cdc_round_transfer:
  assumes "get_cdc h = Some e" "cdc_state e = CDC_TRANSFER_DATA" "CDC_ProcessTransmission h b = Some (h', b')"
    "get_cdc h' = Some e'" "cdc_rx_quiet e'"
  shows "cdc_round h b = Some (h', b')"
  using assms get_cdc_slot [OF assms(1)]
  by (simp add: cdc_round_def USBH_CH340_Process_def CDC_ProcessReception_def cdc_rx_quiet_def
      split: CDC_DataStateTypeDef.splits)

lemma cdc_tx_iff:
  "cdc_tx h = Some (t, p, ps) \<longleftrightarrow> (\<exists>e. get_cdc h = Some e \<and> cdc_OutEpSize e \<noteq> 0 \<and> cdc_state e = CDC_TRANSFER_DATA \<and>
     cdc_rx_quiet e \<and> p = cdc_OutPipe e \<and> (case t of
       Tx_idle \<Rightarrow> cdc_tx_state e = CDC_IDLE \<and> ps = []
     | Tx_send \<Rightarrow> cdc_tx_state e = CDC_SEND_DATA \<and> ps = cdc_todo e
     | Tx_wait \<Rightarrow> cdc_tx_state e = CDC_SEND_DATA_WAIT \<and> ps = cdc_todo e))"
  by (cases t) (auto simp: cdc_tx_def split: option.splits if_splits CDC_DataStateTypeDef.splits)

lemma cdc_sent_todo:
  assumes "cdc_OutEpSize e \<noteq> 0" "cdc_todo e = q # qs"
  shows "cdc_tx_state (cdc_sent e) = (if qs = [] then CDC_IDLE else CDC_SEND_DATA)"
    "qs \<noteq> [] \<Longrightarrow> cdc_todo (cdc_sent e) = qs" "cdc_OutEpSize (cdc_sent e) = cdc_OutEpSize e"
    "cdc_OutPipe (cdc_sent e) = cdc_OutPipe e" "cdc_state (cdc_sent e) = cdc_state e"
    "cdc_rx_state (cdc_sent e) = cdc_rx_state e"
proof -
  have "cdc_tx_state (cdc_sent e) = (if qs = [] then CDC_IDLE else CDC_SEND_DATA) \<and>
      (qs \<noteq> [] \<longrightarrow> cdc_todo (cdc_sent e) = qs)"
  proof (cases "unat (cdc_OutEpSize e) < unat (cdc_TxDataLength e)")
    case True
    note m = pkts_more [OF assms(1) True]
    have s: "cdc_sent e = e\<lparr>cdc_TxDataLength := cdc_TxDataLength e - ucast (cdc_OutEpSize e),
        cdc_pTxData := buf_add (cdc_pTxData e) (unat (cdc_OutEpSize e)), cdc_tx_state := CDC_SEND_DATA\<rparr>"
      using True m(2) unfolding cdc_sent_def full_iff by (simp add: Let_def)
    have "qs = cdc_todo (cdc_sent e)" using assms(2) m(3) [of False "cdc_pTxData e"] unfolding s cdc_todo_def by simp
    moreover have "cdc_todo (cdc_sent e) \<noteq> []" unfolding s cdc_todo_def by (subst pkts.simps) simp
    ultimately show ?thesis by (auto simp: s)
  next
    case False
    then have s: "cdc_sent e = e\<lparr>cdc_TxDataLength := 0, cdc_tx_state := CDC_IDLE\<rparr>"
      unfolding cdc_sent_def full_iff by (simp add: Let_def)
    have "qs = []" using assms(2) pkts_last [OF False, of False "cdc_pTxData e"] unfolding cdc_todo_def by simp
    then show ?thesis unfolding s by simp
  qed
  then show "cdc_tx_state (cdc_sent e) = (if qs = [] then CDC_IDLE else CDC_SEND_DATA)"
    "qs \<noteq> [] \<Longrightarrow> cdc_todo (cdc_sent e) = qs" by simp_all
  show "cdc_OutEpSize (cdc_sent e) = cdc_OutEpSize e" "cdc_OutPipe (cdc_sent e) = cdc_OutPipe e"
    "cdc_state (cdc_sent e) = cdc_state e" "cdc_rx_state (cdc_sent e) = cdc_rx_state e"
    by (simp_all add: cdc_sent_def Let_def)
qed

lemma cdc_frames: "cdc_todo (e\<lparr>cdc_tx_state := s\<rparr>) = cdc_todo e" "cdc_rx_quiet (e\<lparr>cdc_tx_state := s\<rparr>) = cdc_rx_quiet e"
  by (simp_all add: cdc_todo_def cdc_rx_quiet_def)

interpretation cdc_sender: packet_sender cdc_round cdc_tx
proof
  fix h b p q qs
  show "cdc_round h b = Some (h, b)" if "cdc_tx h = Some (Tx_idle, p, qs)"
    using that by (auto simp: cdc_tx_iff CDC_ProcessTransmission_def intro!: cdc_round_transfer)
  assume d: "pData h" "unat p < length (hc b)"
  show "\<exists>h' b'. cdc_round h b = Some (h', b') \<and> cdc_tx h' = Some (Tx_wait, p, q # qs) \<and> pData h' \<and>
      xfers b' = xfers b @ [pkt_view p q] \<and> urb_state (hc b' ! unat p) = USBH_URB_IDLE \<and> length (hc b') = length (hc b)"
    if "cdc_tx h = Some (Tx_send, p, q # qs)"
  proof -
    from that obtain e where e: "get_cdc h = Some e" "cdc_OutEpSize e \<noteq> 0" "cdc_state e = CDC_TRANSFER_DATA"
      "cdc_rx_quiet e" "p = cdc_OutPipe e" "cdc_tx_state e = CDC_SEND_DATA" "cdc_todo e = q # qs" by (auto simp: cdc_tx_iff)
    have q: "q = (cdc_pTxData e, packet_len (cdc_OutEpSize e) (cdc_TxDataLength e))"
      using e(7) pkts_Cons [OF e(2), of False "cdc_pTxData e" "cdc_TxDataLength e"] unfolding cdc_todo_def by simp
    let ?h = "put_cdc (e\<lparr>cdc_tx_state := CDC_SEND_DATA_WAIT\<rparr>) h"
    obtain b' where t: "CDC_ProcessTransmission h b = Some (?h, b')" "xfers b' = xfers b @ [pkt_view p q]"
      "urb_state (hc b' ! unat p) = USBH_URB_IDLE" "length (hc b') = length (hc b)"
      using d e by (simp add: CDC_ProcessTransmission_def mem_simps xfers_bulk pkt_view_def q packet_len_word)
    have "cdc_round h b = Some (?h, b')" by (rule cdc_round_transfer [OF e(1,3) t(1) get_put_cdc [OF e(1)]]) (use e in \<open>simp add: cdc_frames\<close>)
    then show ?thesis using d e t by (simp add: cdc_tx_iff cdc_frames)
  qed
  assume "cdc_tx h = Some (Tx_wait, p, q # qs)"
  then obtain e where e: "get_cdc h = Some e" "cdc_OutEpSize e \<noteq> 0" "cdc_state e = CDC_TRANSFER_DATA"
    "cdc_rx_quiet e" "p = cdc_OutPipe e" "cdc_tx_state e = CDC_SEND_DATA_WAIT" "cdc_todo e = q # qs" by (auto simp: cdc_tx_iff)
  let ?b = "os_put USBH_CLASS_EVENT b"
  show "cdc_round h b = Some (h, b)" if "urb_state (hc b ! unat p) = USBH_URB_IDLE"
    using that d e by (intro cdc_round_transfer [OF e(1,3) _ e(1,4)]) (simp add: CDC_ProcessTransmission_def mem_simps)
  show "\<exists>h'. cdc_round h b = Some (h', ?b) \<and> pData h' \<and> cdc_tx h' = Some (Tx_send, p, q # qs)"
    if "urb_state (hc b ! unat p) = USBH_URB_NOTREADY"
  proof -
    let ?h = "put_cdc (e\<lparr>cdc_tx_state := CDC_SEND_DATA\<rparr>) h"
    have "CDC_ProcessTransmission h b = Some (?h, ?b)" using that d e by (simp add: CDC_ProcessTransmission_def mem_simps)
    from cdc_round_transfer [OF e(1,3) this get_put_cdc [OF e(1)]] e
    have "cdc_round h b = Some (?h, ?b)" by (simp add: cdc_frames)
    then show ?thesis using d e by (simp add: cdc_tx_iff cdc_frames)
  qed
  show "\<exists>h'. cdc_round h b = Some (h', ?b) \<and> pData h' \<and> cdc_tx h' = Some (if qs = [] then Tx_idle else Tx_send, p, qs)"
    if "urb_state (hc b ! unat p) = USBH_URB_DONE"
  proof -
    let ?h = "put_cdc (cdc_sent e) h"
    have "CDC_ProcessTransmission h b = Some (?h, ?b)" using that d e by (simp add: CDC_ProcessTransmission_def mem_simps)
    from cdc_round_transfer [OF e(1,3) this get_put_cdc [OF e(1)]] e cdc_sent_todo [OF e(2,7)]
    have "cdc_round h b = Some (?h, ?b)" by (simp add: cdc_rx_quiet_def)
    then show ?thesis using d e cdc_sent_todo [OF e(2,7)] by (simp add: cdc_tx_iff cdc_rx_quiet_def)
  qed
qed

text \<open>
  C24: with the reception quiet, a buffer handed to the driver goes out as consecutive packets of the
  endpoint's size and the rest, each sent once more for every time it was refused, however the answers
  are spread; no empty packet follows when the length is a multiple of the packet size.
\<close>

theorem cdc_transmit_completes:
  assumes "get_cdc h = Some e" "cdc_ready e" "cdc_rx_quiet e" "cdc_OutEpSize e \<noteq> 0" "pData h"
    "unat (cdc_OutPipe e) < length (hc b)" "len \<noteq> 0"
    "2 * (unat len div unat (cdc_OutEpSize e) + 1) + count_list tape (Some False) \<le> count_list tape (Some True)"
  shows "\<exists>h1 b1 h' b' e' ps ks. USBH_CDC_Transmit h b pbuff len = Some (USBH_OK, h1, b1) \<and>
     poll_news cdc_round tape h1 b1 = Some (h', b') \<and> get_cdc h' = Some e' \<and> cdc_tx_state e' = CDC_IDLE \<and>
     xfers b' = xfers b @ map (pkt_view (cdc_OutPipe e)) (repeats False ks ps) \<and>
     length ks = length ps \<and> sum_list ks \<le> count_list tape (Some False) \<and>
     map snd ps = replicate (unat len div unat (cdc_OutEpSize e)) (unat (cdc_OutEpSize e)) @
       (if unat len mod unat (cdc_OutEpSize e) = 0 then [] else [unat len mod unat (cdc_OutEpSize e)]) \<and>
     (\<forall>i. i * unat (cdc_OutEpSize e) < unat len \<longrightarrow> fst (ps ! i) = buf_at pbuff (i * unat (cdc_OutEpSize e)))"
proof -
  let ?m = "unat (cdc_OutEpSize e)"
  let ?e = "e\<lparr>cdc_pTxData := pbuff, cdc_TxDataLength := len, cdc_state := CDC_TRANSFER_DATA, cdc_tx_state := CDC_SEND_DATA\<rparr>"
  let ?b = "os_put USBH_CLASS_EVENT b"
  have m: "0 < ?m" and n: "0 < unat len" using assms(4,7) by (simp_all add: unat_gt_0)
  have t: "USBH_CDC_Transmit h b pbuff len = Some (USBH_OK, put_cdc ?e h, ?b)"
    using assms(1,2) by (simp add: USBH_CDC_Transmit_def)
  have td: "cdc_todo ?e = pkts ?m False pbuff (unat len)" by (simp add: cdc_todo_def)
  note l = pkts_lengths_plain [OF m n, of pbuff]
  have len: "length (cdc_todo ?e) \<le> unat len div ?m + 1" using arg_cong [OF l, of length] td by auto
  have ne: "cdc_todo ?e \<noteq> []" unfolding td by (subst pkts.simps) simp
  have q: "cdc_rx_quiet ?e" using assms(3) by (simp add: cdc_rx_quiet_def)
  have "cdc_sender.polled False (cdc_OutPipe e) (cdc_todo ?e) (put_cdc ?e h) ?b"
    using assms(1,4-6) ne q by (simp add: cdc_sender.polled_def cdc_tx_iff)
  from cdc_sender.poll_all [OF this, of tape] obtain h' b' ks
    where d: "poll_news cdc_round tape (put_cdc ?e h) ?b = Some (h', b')" "cdc_tx h' = Some (Tx_idle, cdc_OutPipe e, [])"
      "length ks = length (cdc_todo ?e)" "sum_list ks \<le> count_list tape (Some False)"
      "xfers b' = xfers ?b @ map (pkt_view (cdc_OutPipe e)) (repeats False ks (cdc_todo ?e))"
    using assms(8) len by auto
  from d(2) obtain e' where e': "get_cdc h' = Some e'" "cdc_tx_state e' = CDC_IDLE" by (auto simp: cdc_tx_iff)
  have "xfers ?b = xfers b" by (simp add: xfers_def)
  then show ?thesis using t d e' l pkts_starts [OF m, of _ "unat len" False pbuff]
    by (intro exI [of _ "put_cdc ?e h"] exI [of _ ?b] exI [of _ h'] exI [of _ b'] exI [of _ e']
      exI [of _ "cdc_todo ?e"] exI [of _ ks]) (simp add: td)
qed

lemma cdc_transmit_completes_witness:
  "\<exists>h1 b1 h' b' e' ps ks. USBH_CDC_Transmit (sample_converter sample_cdc) sample_bus (Mem 0x1000) 64 = Some (USBH_OK, h1, b1) \<and>
     poll_news cdc_round [Some False, None, Some True, Some True, Some True, Some True, Some True, Some True, Some True, Some True] h1 b1 = Some (h', b') \<and>
     get_cdc h' = Some e' \<and> cdc_tx_state e' = CDC_IDLE \<and>
     xfers b' = xfers sample_bus @ map (pkt_view (cdc_OutPipe sample_cdc)) (repeats False ks ps) \<and>
     length ks = length ps \<and> sum_list ks \<le> count_list [Some False, None, Some True, Some True, Some True, Some True, Some True, Some True, Some True, Some True] (Some False) \<and>
     map snd ps = replicate (unat (64 :: u32) div unat (cdc_OutEpSize sample_cdc)) (unat (cdc_OutEpSize sample_cdc)) @
       (if unat (64 :: u32) mod unat (cdc_OutEpSize sample_cdc) = 0 then [] else [unat (64 :: u32) mod unat (cdc_OutEpSize sample_cdc)]) \<and>
     (\<forall>i. i * unat (cdc_OutEpSize sample_cdc) < unat (64 :: u32) \<longrightarrow>
        fst (ps ! i) = buf_at (Mem 0x1000) (i * unat (cdc_OutEpSize sample_cdc)))"
  by (rule cdc_transmit_completes)
    (simp_all add: sample_cdc_def cdc_ready_def cdc_rx_quiet_def sample_bus_def zero_bus_def)

subsection \<open>Binding and releasing\<close>

text \<open>
  C28: binding the interface takes two fresh pipes, and releasing it gives them back; but the number of
  the notification pipe is never set, so the release also frees the pipe whose number the memory of the
  record happened to hold, whoever owns it.
\<close>

theorem ch340_open_close:
  assumes "cfg_wf (CfgDesc (device h))" "pipes_ok b" "length (hc b) = HCD_NBR_HC"
    "card (pipes_used b) + 2 \<le> USBH_MAX_PIPES_NBR" "pData h" "pClassData h \<noteq> []" "0 \<in> pipes_used b"
    "addr_ok b" "unat (dev_address (device h)) \<le> length (addresses b)" "unat i < USBH_MAX_NUM_INTERFACES"
  shows "\<exists>h1 b1 h2 b2. ch340_open mem i h b = Some (USBH_OK, h1, b1) \<and> card (pipes_used b1) = card (pipes_used b) + 2 \<and>
     ch340_close h1 b1 = Some (USBH_OK, h2, b2) \<and> get_cdc h2 = None \<and> dev_address (device h2) = 0 \<and>
     pipes_used b2 = pipes_used b -
       (if cdc_NotifPipe mem = 0 \<or> cdc_NotifPipe mem = 0xFF then {} else {unat (cdc_NotifPipe mem)})"
proof -
  let ?eps = "Ep_Desc (Itf_Desc (CfgDesc (device h)) ! unat i)"
  define e where "e = cdc_take_data (?eps ! 1) (cdc_take_data (?eps ! 0) (cdc_take_notif (?eps ! 2) mem))"
  have n: "cdc_NotifPipe e = cdc_NotifPipe mem" by (simp add: e_def cdc_take_data_def cdc_take_notif_def)
  show ?thesis
  proof (rule bulk_pair [OF assms(2-5)])
    fix po pin b1 b2 b3 b4 b5 b6
    assume r: "USBH_AllocPipe b (cdc_OutEp e) = Some (po, b1)" "USBH_AllocPipe b1 (cdc_InEp e) = Some (pin, b2)"
      "USBH_OpenPipe h b2 po (cdc_OutEp e) (dev_address (device h)) (speed (device h)) USB_EP_TYPE_BULK (cdc_OutEpSize e) = Some (USBH_OK, b3)"
      "USBH_OpenPipe h b3 pin (cdc_InEp e) (dev_address (device h)) (speed (device h)) USB_EP_TYPE_BULK (cdc_InEpSize e) = Some (USBH_OK, b4)"
      "USBH_LL_SetToggle b4 po 0 = Some (USBH_OK, b5)" "USBH_LL_SetToggle b5 pin 0 = Some (USBH_OK, b6)"
    assume p: "po \<noteq> 0xFF" "pin \<noteq> 0xFF" "unat po \<noteq> unat pin" "unat po \<notin> pipes_used b" "unat pin \<notin> pipes_used b"
      "pipes_used b6 = pipes_used b \<union> {unat po, unat pin}" "pipes_ok b6" "addresses b6 = addresses b"
    let ?e = "e\<lparr>cdc_OutPipe := po, cdc_InPipe := pin, cdc_state := CDC_IDLE_STATE,
        attach_state := CH340_READ_VENDOR_VERSION_STATE\<rparr>"
    let ?h = "put_cdc ?e h" and ?cd = "(pClassData (put_cdc ?e h))[0 := None]"
    let ?h2 = "set_dev_address 0 (?h\<lparr>pClassData := ?cd\<rparr>)"
    have g: "get_cdc ?h = Some ?e" using assms(6) by (simp add: get_cdc_def put_cdc_def rd_def)
    have op: "ch340_open mem i h b = Some (USBH_OK, ?h, b6)"
      using r assms(1,6,10) by (simp add: ch340_open_def cfg_wf_def mem_simps put_cdc_def Let_def flip: e_def [unfolded One_nat_def])
    have nz: "po \<noteq> 0" "pin \<noteq> 0" using p assms(7) by auto
    have a: "addr_ok b6" "unat (dev_address (device ?h)) \<le> length (addresses b6)"
      using assms(8,9) p(8) by (simp_all add: addr_ok_def)
    have "pData ?h" using assms(5) by simp
    then obtain q1 c1 q2 c2 q3 c3 c4 where c:
      "release_pipe ?h (cdc_NotifPipe mem) b6 = Some (q1, c1)" "release_pipe ?h pin c1 = Some (q2, c2)"
      "release_pipe ?h po c2 = Some (q3, c3)" "USBH_Free_One_Address (?h\<lparr>pClassData := ?cd\<rparr>) c3 = Some (0, ?h2, c4)"
      "pipes_used c4 = pipes_used b6 - {unat p |p. p \<in> {cdc_NotifPipe mem, pin, po} \<and> p \<noteq> 0 \<and> p \<noteq> 0xff}"
      by (rule release_three [OF p(7) _ a, of "cdc_NotifPipe mem" pin po ?cd]) (rule that, assumption+)
    have cl: "ch340_close ?h b6 = Some (USBH_OK, ?h2, c4)" using g n c(1-4) by (simp add: ch340_close_def)
    have "{unat p |p. p \<in> {cdc_NotifPipe mem, pin, po} \<and> p \<noteq> 0 \<and> p \<noteq> 0xff} = {unat po, unat pin} \<union>
        (if cdc_NotifPipe mem = 0 \<or> cdc_NotifPipe mem = 0xFF then {} else {unat (cdc_NotifPipe mem)})"
      using nz p(1,2) by auto
    then have u: "pipes_used c4 = pipes_used b -
        (if cdc_NotifPipe mem = 0 \<or> cdc_NotifPipe mem = 0xFF then {} else {unat (cdc_NotifPipe mem)})"
      using c(5) p(4-6) by auto
    have k: "card (pipes_used b6) = card (pipes_used b) + 2" using p pipes.finite_used [OF assms(2)] by simp
    have "get_cdc ?h2 = None" using assms(6) by (simp add: get_cdc_def rd_def put_cdc_def)
    with op cl u k show ?thesis by (intro exI [of _ ?h] exI [of _ b6] exI [of _ ?h2] exI [of _ c4]) simp
  qed
qed

lemma ch340_open_close_witness:
  "\<exists>h1 b1 h2 b2. ch340_open (sample_cdc\<lparr>cdc_NotifPipe := 1\<rparr>) 0 sample_host sample_bus = Some (USBH_OK, h1, b1) \<and>
     card (pipes_used b1) = card (pipes_used sample_bus) + 2 \<and>
     ch340_close h1 b1 = Some (USBH_OK, h2, b2) \<and> get_cdc h2 = None \<and> dev_address (device h2) = 0 \<and>
     pipes_used b2 = pipes_used sample_bus - {1}"
proof -
  let ?m = "sample_cdc\<lparr>cdc_NotifPipe := 1\<rparr>"
  have "\<exists>h1 b1 h2 b2. ch340_open ?m 0 sample_host sample_bus = Some (USBH_OK, h1, b1) \<and>
     card (pipes_used b1) = card (pipes_used sample_bus) + 2 \<and>
     ch340_close h1 b1 = Some (USBH_OK, h2, b2) \<and> get_cdc h2 = None \<and> dev_address (device h2) = 0 \<and>
     pipes_used b2 = pipes_used sample_bus -
       (if cdc_NotifPipe ?m = 0 \<or> cdc_NotifPipe ?m = 0xFF then {} else {unat (cdc_NotifPipe ?m)})"
    by (rule ch340_open_close [OF sample_cfg_wf sample_pools])
      (simp_all add: sample_host_def zero_host_def zero_device_def addr_ok_def sample_bus_def pipes_used_def pipe_used_def)
  moreover have "(if cdc_NotifPipe ?m = 0 \<or> cdc_NotifPipe ?m = 0xFF then {} else {unat (cdc_NotifPipe ?m)}) = {1}" by simp
  ultimately show ?thesis by (simp only:)
qed

end
