(* ===== verification/Enumerate.thy ===== *)
theory Enumerate
  imports Core Requests
begin

text \<open>
  The enumeration of a device as a whole: against a device that answers the standard requests with its
  descriptors, \<^verbatim>\<open>USBH_HandleEnum\<close> sends the requests of the enumeration once each and in order, gives
  the device an address and ends with its descriptors in the handle. And its weak point: the first
  request is given up as soon as it is polled twice without progress.
\<close>

subsection \<open>A device that answers\<close>

record usb_device =
  ud_dev :: USBH_DevDescTypeDef
  ud_cfg :: USBH_CfgDescTypeDef
  ud_itfs :: "itf_block list"
  ud_string :: "u8 \<Rightarrow> u8 list \<times> u8 list"

definition device_ok :: "usb_device \<Rightarrow> bool" where
  "device_ok D \<longleftrightarrow> cfg_ok (ud_cfg D) (ud_itfs D) \<and> ud_itfs D \<noteq> [] \<and>
     unat (wTotalLength (ud_cfg D)) \<le> USBH_MAX_DATA_BUFFER \<and> unat (bNumInterfaces (ud_cfg D)) \<le> USBH_MAX_NUM_INTERFACES \<and>
     (\<forall>i. length (fst (ud_string D i)) = length (snd (ud_string D i)) \<and> 2 * length (fst (ud_string D i)) \<le> 253)"

definition answer :: "usb_device \<Rightarrow> USB_Setup_TypeDef \<Rightarrow> u8 list" where
  "answer D p =
     (if wValue p AND 0xff00 = 0x100 then encode_dev (ud_dev D)
      else if wValue p AND 0xff00 = 0x200 then encode_cfg (ud_cfg D) (ud_itfs D)
      else (case ud_string D (ucast (wValue p)) of (cs, zs) \<Rightarrow> encode_string cs zs))"

text \<open>The part of the answer that was asked for, and its arrival in the host's buffer.\<close>

definition reply :: "usb_device \<Rightarrow> USB_Setup_TypeDef \<Rightarrow> u8 list" where
  "reply D p = take (unat (wLength p)) (answer D p)"

definition deliver :: "usb_device \<Rightarrow> host \<Rightarrow> host" where
  "deliver D h =
     (if ctl_state (Control h) = CTRL_DATA_IN_WAIT \<and> buff (Control h) = Data_of (self h)
      then upd_dev (\<lambda>d. d\<lparr>Data := put_from 0 (Data d) (reply D (setup_pkt (Control h)))\<rparr>) h else h)"

lemma deliver_simps [simp]:
  "Control (deliver D h) = Control h" "RequestState (deliver D h) = RequestState h" "pData (deliver D h) = pData h"
  "pUser (deliver D h) = pUser h" "self (deliver D h) = self h" "EnumState (deliver D h) = EnumState h"
  "last_ctrl_status (deliver D h) = last_ctrl_status h" "dev_address (device (deliver D h)) = dev_address (device h)"
  "DevDesc (device (deliver D h)) = DevDesc (device h)" "CfgDesc (device (deliver D h)) = CfgDesc (device h)"
  "length (Data (device (deliver D h))) = length (Data (device h))"
  by (simp_all add: deliver_def upd_dev_def)

subsection \<open>The requests\<close>

definition get_desc :: "u16 \<Rightarrow> u16 \<Rightarrow> USB_Setup_TypeDef" where
  "get_desc v l = \<lparr>bmRequestType = 0x80, bRequest = 6, wValue = v,
     wIndex = (if v AND 0xff00 = 0x300 then 0x0409 else 0), wLength = l\<rparr>"

fun string_index :: "usb_device \<Rightarrow> ENUM_StateTypeDef \<Rightarrow> u8" where
  "string_index D ENUM_GET_MFC_STRING_DESC = iManufacturer (ud_dev D)"
| "string_index D ENUM_GET_PRODUCT_STRING_DESC = iProduct (ud_dev D)"
| "string_index D ENUM_GET_SERIALNUM_STRING_DESC = iSerialNumber (ud_dev D)"
| "string_index D st = 1"

text \<open>A request of the enumeration; \<open>a\<close> is the address. A string that the device does not have is not asked for.\<close>

fun enum_pkt :: "usb_device \<Rightarrow> u8 \<Rightarrow> ENUM_StateTypeDef \<Rightarrow> USB_Setup_TypeDef" where
  "enum_pkt D a ENUM_IDLE = get_desc 0x100 8"
| "enum_pkt D a ENUM_GET_FULL_DEV_DESC = get_desc 0x100 18"
| "enum_pkt D a ENUM_SET_ADDR = \<lparr>bmRequestType = 0, bRequest = 5, wValue = ucast a, wIndex = 0, wLength = 0\<rparr>"
| "enum_pkt D a ENUM_GET_CFG_DESC = get_desc 0x200 9"
| "enum_pkt D a ENUM_GET_FULL_CFG_DESC = get_desc 0x200 (wTotalLength (ud_cfg D))"
| "enum_pkt D a st = get_desc (0x300 OR ucast (string_index D st)) 0xff"

definition enum_asks :: "usb_device \<Rightarrow> u8 \<Rightarrow> ENUM_StateTypeDef \<Rightarrow> u8 list list" where
  "enum_asks D a st = (if string_index D st = 0 then [] else [setup_bytes (enum_pkt D a st)])"

definition enum_packets :: "usb_device \<Rightarrow> u8 \<Rightarrow> u8 list list" where
  "enum_packets D a = concat (map (enum_asks D a) [ENUM_IDLE, ENUM_GET_FULL_DEV_DESC, ENUM_SET_ADDR, ENUM_GET_CFG_DESC,
     ENUM_GET_FULL_CFG_DESC, ENUM_GET_MFC_STRING_DESC, ENUM_GET_PRODUCT_STRING_DESC, ENUM_GET_SERIALNUM_STRING_DESC])"

lemma string_value: "(0x300 OR ucast (i :: u8) :: u16) AND 0xff00 = 0x300" "ucast (0x300 OR ucast i :: u16) = i"
proof -
  have e: "(0xff00 :: u16) = push_bit 8 0xff" by simp
  have hi: "bit (0xff00 :: u16) n \<Longrightarrow> 8 \<le> n" for n
    unfolding e by (drule bit_push_bit_iff [THEN iffD1]) (rule conjunct1)
  have "(ucast i :: u16) AND 0xff00 = 0"
    by (rule bit_word_eqI) (auto simp: bit_and_iff bit_unsigned_iff simp del: bit_numeral_word_iff dest!: hi dest: bit_imp_le_length)
  then show "(0x300 OR ucast i :: u16) AND 0xff00 = 0x300" by (simp add: bit.conj_disj_distrib2)
  have u: "ucast (ucast i :: u16) = i" by (rule bit_word_eqI) (auto simp: bit_simps)
  have z: "(ucast (0x300 :: u16) :: u8) = 0" by simp
  show "ucast (0x300 OR ucast i :: u16) = i" by (simp only: unsigned_or_eq u z or.left_neutral)
qed

lemma length_encodes: "length (encode_dev d) = 18" "length (encode_cfg_header c) = 9"
  by (simp_all add: encode_dev_def encode_cfg_header_def)

lemma length_encode_string: "length cs = length zs \<Longrightarrow> length (encode_string cs zs) = 2 + 2 * length cs"
  by (simp add: encode_string_def)

lemma device_total:
  assumes "device_ok D"
  shows "unat (wTotalLength (ud_cfg D)) = length (encode_cfg (ud_cfg D) (ud_itfs D))" "18 \<le> unat (wTotalLength (ud_cfg D))"
    "unat (wTotalLength (ud_cfg D)) \<le> 512"
proof -
  show 1: "unat (wTotalLength (ud_cfg D)) = length (encode_cfg (ud_cfg D) (ud_itfs D))"
    using assms by (simp add: device_ok_def cfg_ok_def)
  obtain blk bs where "ud_itfs D = blk # bs" using assms by (cases "ud_itfs D") (auto simp: device_ok_def)
  then show "18 \<le> unat (wTotalLength (ud_cfg D))"
    unfolding 1 by (simp add: encode_cfg_def encode_block_def length_encodes)
  show "unat (wTotalLength (ud_cfg D)) \<le> 512" using assms by (simp add: device_ok_def)
qed

text \<open>What each request brings.\<close>

lemma replies:
  "reply D (enum_pkt D a ENUM_IDLE) = take 8 (encode_dev (ud_dev D))"
  "reply D (enum_pkt D a ENUM_GET_FULL_DEV_DESC) = encode_dev (ud_dev D)"
  "reply D (enum_pkt D a ENUM_GET_CFG_DESC) = encode_cfg_header (ud_cfg D)"
  "device_ok D \<Longrightarrow> reply D (enum_pkt D a ENUM_GET_FULL_CFG_DESC) = encode_cfg (ud_cfg D) (ud_itfs D)"
  "st \<in> {ENUM_GET_MFC_STRING_DESC, ENUM_GET_PRODUCT_STRING_DESC, ENUM_GET_SERIALNUM_STRING_DESC} \<Longrightarrow> device_ok D \<Longrightarrow>
     reply D (enum_pkt D a st) = (case ud_string D (string_index D st) of (cs, zs) \<Rightarrow> take 255 (encode_string cs zs))"
  using device_total(1) [of D] string_value
  by (auto simp: reply_def answer_def get_desc_def length_encodes encode_cfg_def split: prod.splits)

subsection \<open>Where the enumeration stands\<close>

text \<open>What the enumeration has no business with.\<close>

definition rest :: "host \<Rightarrow> host" where
  "rest h = h\<lparr>EnumState := ENUM_IDLE, RequestState := CMD_IDLE, Control := zero_ctrl, last_ctrl_status := CTRL_IDLE,
     device := (device h)\<lparr>Data := [], dev_address := 0, DevDesc := zero_dev, CfgDesc := zero_cfg\<rparr>\<rparr>"

lemma rest_self: "rest h = rest h0 \<Longrightarrow> self h = self h0"
  by (drule arg_cong [of _ _ self]) (simp add: rest_def)

lemma rest_frame: "ctl_frame h h' \<Longrightarrow> rest h' = rest h"
proof -
  assume "ctl_frame h h'"
  then have "rest (erase_ctl h') = rest (erase_ctl h)" by (simp add: ctl_frame_def)
  then show ?thesis by (simp add: rest_def erase_ctl_def)
qed

lemma rest_simps [simp]:
  "rest (deliver D h) = rest h" "rest (with_setup p h) = rest h" "rest (h\<lparr>EnumState := e\<rparr>) = rest h"
  "rest (upd_dev (\<lambda>d. d\<lparr>DevDesc := x\<rparr>) h) = rest h" "rest (upd_dev (\<lambda>d. d\<lparr>CfgDesc := c\<rparr>) h) = rest h"
  "rest (upd_dev (\<lambda>d. d\<lparr>Data := bs\<rparr>) h) = rest h" "rest (set_dev_address a h) = rest h"
  "rest (h\<lparr>last_ctrl_status := st\<rparr>) = rest h" "rest (upd_ctl (\<lambda>c. c\<lparr>pipe_size := n\<rparr>) h) = rest h"
  "rest (h\<lparr>RequestState := r\<rparr>) = rest h"
  by (simp_all add: rest_def deliver_def upd_dev_def with_setup_def upd_ctl_def set_dev_address_def)

fun enum_succ :: "ENUM_StateTypeDef \<Rightarrow> ENUM_StateTypeDef" where
  "enum_succ ENUM_IDLE = ENUM_GET_FULL_DEV_DESC"
| "enum_succ ENUM_GET_FULL_DEV_DESC = ENUM_SET_ADDR"
| "enum_succ ENUM_SET_ADDR = ENUM_GET_CFG_DESC"
| "enum_succ ENUM_GET_CFG_DESC = ENUM_GET_FULL_CFG_DESC"
| "enum_succ ENUM_GET_FULL_CFG_DESC = ENUM_GET_MFC_STRING_DESC"
| "enum_succ ENUM_GET_MFC_STRING_DESC = ENUM_GET_PRODUCT_STRING_DESC"
| "enum_succ ENUM_GET_PRODUCT_STRING_DESC = ENUM_GET_SERIALNUM_STRING_DESC"
| "enum_succ ENUM_GET_SERIALNUM_STRING_DESC = ENUM_GET_SERIALNUM_STRING_DESC"

definition enum_cfg :: "usb_device \<Rightarrow> host \<Rightarrow> ENUM_StateTypeDef \<Rightarrow> USBH_CfgDescTypeDef" where
  "enum_cfg D h0 st = (let old = CfgDesc (device h0) in
     if st \<in> {ENUM_IDLE, ENUM_GET_FULL_DEV_DESC, ENUM_SET_ADDR, ENUM_GET_CFG_DESC} then old
     else if st = ENUM_GET_FULL_CFG_DESC then (ud_cfg D)\<lparr>Itf_Desc := Itf_Desc old\<rparr>
     else (ud_cfg D)\<lparr>Itf_Desc := store_itfs (Itf_Desc old) (ud_itfs D)\<rparr>)"

definition enum_at :: "usb_device \<Rightarrow> host \<Rightarrow> u8 \<Rightarrow> ENUM_StateTypeDef \<Rightarrow> host \<Rightarrow> bool" where
  "enum_at D h0 a st h \<longleftrightarrow> device_ok D \<and> cfg_wf (CfgDesc (device h0)) \<and> EnumState h = st \<and> rest h = rest h0 \<and>
     length (Data (device h)) = USBH_MAX_DATA_BUFFER \<and> dev_address (device h) = a \<and>
     (st \<notin> {ENUM_IDLE, ENUM_GET_FULL_DEV_DESC} \<longrightarrow> DevDesc (device h) = ud_dev D) \<and>
     CfgDesc (device h) = enum_cfg D h0 st"

definition enum_here :: "usb_device \<Rightarrow> host \<Rightarrow> u8 \<Rightarrow> ENUM_StateTypeDef \<Rightarrow> host \<Rightarrow> bool" where
  "enum_here D h0 a st h \<longleftrightarrow> enum_at D h0 a st h \<and> string_index D st \<noteq> 0"

definition enum_job :: "usb_device \<Rightarrow> host \<Rightarrow> u8 \<Rightarrow> ENUM_StateTypeDef \<Rightarrow> host \<Rightarrow> bool" where
  "enum_job D h0 a st h \<longleftrightarrow> enum_here D h0 a st h \<and> st \<noteq> ENUM_IDLE \<and> (st = ENUM_SET_ADDR \<longrightarrow> a \<noteq> 0)"

definition enum_got :: "usb_device \<Rightarrow> u8 \<Rightarrow> ENUM_StateTypeDef \<Rightarrow> host \<Rightarrow> bool" where
  "enum_got D a st h \<longleftrightarrow> wLength (enum_pkt D a st) = 0 \<or>
     take (length (reply D (enum_pkt D a st))) (Data (device h)) = reply D (enum_pkt D a st)"

definition enum_after :: "usb_device \<Rightarrow> host \<Rightarrow> u8 \<Rightarrow> u8 list \<Rightarrow> ENUM_StateTypeDef \<Rightarrow> USBH_StatusTypeDef \<Rightarrow> host \<Rightarrow> bus \<Rightarrow> bool" where
  "enum_after D h0 a A st s h b \<longleftrightarrow> addresses b = A \<and> enum_at D h0 a (enum_succ st) h \<and>
     s = (if st = ENUM_GET_SERIALNUM_STRING_DESC then USBH_OK else USBH_BUSY)"

text \<open>The request of each state, as the polls issue it.\<close>

lemma GetDescriptor_with:
  assumes "RequestState h = CMD_SEND \<or> setup_pkt (Control h) = get_desc v l"
  shows "USBH_GetDescriptor h b (USB_REQ_RECIPIENT_DEVICE OR USB_REQ_TYPE_STANDARD) v p l =
     USBH_CtlReq (with_setup (get_desc v l) h) b p l"
  using assms with_setup_same [of h "get_desc v l"]
  by (auto simp: USBH_GetDescriptor_def Let_def set_setup_with get_desc_def)

lemma SetAddress_with:
  assumes "RequestState h = CMD_SEND \<or> setup_pkt (Control h) = enum_pkt D a ENUM_SET_ADDR"
  shows "USBH_SetAddress h b a = USBH_CtlReq (with_setup (enum_pkt D a ENUM_SET_ADDR) h) b NULL_buf 0"
  using assms with_setup_same [of h "enum_pkt D a ENUM_SET_ADDR"]
  by (auto simp: USBH_SetAddress_def Let_def set_setup_with)

definition enum_buf :: "host \<Rightarrow> ENUM_StateTypeDef \<Rightarrow> buf_ptr" where
  "enum_buf h0 st = (if st = ENUM_SET_ADDR then NULL_buf else Data_of (self h0))"

lemma enum_busy:
  assumes "enum_job D h0 a st h" "RequestState h = CMD_SEND \<or> setup_pkt (Control h) = enum_pkt D a st"
    "USBH_CtlReq (with_setup (enum_pkt D a st) h) b (enum_buf h0 st) (wLength (enum_pkt D a st)) = Some (USBH_BUSY, h1, b1)"
  shows "USBH_HandleEnum h b = Some (USBH_BUSY, h1, b1)"
  using assms rest_self [of h h0] GetDescriptor_with [of h _ _ b] SetAddress_with [of h D a b]
  by (cases st) (auto simp: USBH_HandleEnum_def enum_job_def enum_here_def enum_at_def enum_buf_def get_desc_def enum_cfg_def
    enum_full_dev_desc_def USBH_Get_DevDesc_def enum_set_addr_def USBH_Get_One_Address_def enum_cfg_desc_def USBH_Get_CfgDesc_def
    enum_full_cfg_desc_def enum_mfc_string_def enum_product_string_def enum_serial_string_def USBH_Get_StringDesc_def)

subsection \<open>What the answers leave behind\<close>

lemma got_prefix: "take (length r) xs = r \<Longrightarrow> xs = r @ drop (length r) xs"
  by (metis append_take_drop_id)

lemma string_loop_length: "string_loop buf n i k = Some buf' \<Longrightarrow> length buf' = length buf"
proof (induction buf n i k rule: string_loop.induct)
  case (1 buf n i k)
  then show ?case by (subst (asm) string_loop.simps) (auto split: if_splits option.splits simp: wr_def)
qed

lemma parse_string:
  assumes "device_ok D" "ud_string D i = (cs, zs)" "take (length (take 255 (encode_string cs zs))) buf = take 255 (encode_string cs zs)"
  shows "\<exists>buf'. USBH_ParseStringDesc buf 0xff = Some buf' \<and> length buf' = length buf"
proof -
  have l: "length cs = length zs" "2 * length cs \<le> 253" using assms(1,2) by (auto simp: device_ok_def dest: spec [of _ i])
  then have "take 255 (encode_string cs zs) = encode_string cs zs" by (simp add: length_encode_string)
  then have b: "buf = encode_string cs zs @ drop (length (encode_string cs zs)) buf" using assms(3) by (metis got_prefix)
  have "2 * length cs \<le> unat (0xff :: u16)" using l by simp
  from ParseStringDesc_roundtrip [OF l this] b obtain buf' where p: "USBH_ParseStringDesc buf 0xff = Some buf'" by metis
  then show ?thesis by (auto simp: USBH_ParseStringDesc_def bind_eq_Some_conv split: if_splits dest: string_loop_length)
qed

lemma parse_dev: "take 18 buf = encode_dev d \<Longrightarrow> USBH_ParseDevDesc d0 buf 18 = Some d"
  using parse_dev_roundtrip [of d0 d "drop 18 buf"] by (metis append_take_drop_id)

lemma parse_cfg_header:
  assumes "take 9 buf = encode_cfg_header c"
  shows "USBH_ParseCfgDesc c0 buf 9 = Some (c\<lparr>Itf_Desc := Itf_Desc c0\<rparr>)"
proof -
  have "buf = encode_cfg_header c @ drop 9 buf" using assms by (metis append_take_drop_id)
  then have "cfg_header c0 buf = Some (c\<lparr>Itf_Desc := Itf_Desc c0\<rparr>)" using parse_header by metis
  then show ?thesis by (simp add: USBH_ParseCfgDesc_def cfg_walk_def)
qed

lemma parse_full_cfg:
  assumes "device_ok D" "cfg_wf c0" "take (length (encode_cfg (ud_cfg D) (ud_itfs D))) buf = encode_cfg (ud_cfg D) (ud_itfs D)"
  shows "USBH_ParseCfgDesc c0 buf (wTotalLength (ud_cfg D)) =
     Some ((ud_cfg D)\<lparr>Itf_Desc := store_itfs (Itf_Desc c0) (ud_itfs D)\<rparr>)"
proof -
  have "wTotalLength (ud_cfg D) > USB_CONFIGURATION_DESC_SIZE"
    using device_total(2) [OF assms(1)] by (simp add: word_less_nat_alt)
  from parse_cfg_roundtrip [OF assms(2) _ this] assms(1,3) got_prefix show ?thesis
    unfolding device_ok_def by metis
qed

lemma print_loop_ok: "cfg_wf c \<Longrightarrow> n \<le> USBH_MAX_NUM_INTERFACES \<Longrightarrow> print_loop c n = Some ()"
  by (induction n) (simp_all add: printf_interface_def cfg_wf_def mem_simps)

lemma store_wf: "cfg_wf c0 \<Longrightarrow> device_ok D \<Longrightarrow> cfg_wf ((ud_cfg D)\<lparr>Itf_Desc := store_itfs (Itf_Desc c0) (ud_itfs D)\<rparr>)"
proof -
  assume a: "cfg_wf c0" "device_ok D"
  have "take (length (encode_cfg (ud_cfg D) (ud_itfs D))) (encode_cfg (ud_cfg D) (ud_itfs D)) = encode_cfg (ud_cfg D) (ud_itfs D)" by simp
  from ParseCfgDesc_wf [OF a(1) parse_full_cfg [OF a(2,1) this]] show ?thesis .
qed

lemma got_deliver:
  assumes "enum_at D h0 a st h" "ctl_state (Control h) = CTRL_DATA_IN_WAIT" "buff (Control h) = Data_of (self h0)"
    "setup_pkt (Control h) = enum_pkt D a st" "string_index D st \<noteq> 0"
  shows "enum_got D a st (deliver D h)"
proof -
  have l: "length (reply D (enum_pkt D a st)) \<le> length (Data (device h))"
  proof -
    have "unat (wLength (enum_pkt D a st)) \<le> 512"
      using assms(1) device_total(3) [of D] by (cases st) (simp_all add: enum_at_def get_desc_def)
    then show ?thesis using assms(1) by (simp add: reply_def enum_at_def)
  qed
  then have "take (length (reply D (enum_pkt D a st))) (put_from 0 (Data (device h)) (reply D (enum_pkt D a st))) =
      reply D (enum_pkt D a st)" by (simp add: put_from_eq)
  then show ?thesis using assms(1-4) rest_self [of h h0] by (simp add: enum_got_def deliver_def enum_at_def upd_dev_def)
qed

lemma pipes_open_upd [simp]:
  "pipes_open (upd_dev f h) b = pipes_open h b" "pipes_open (h\<lparr>EnumState := e\<rparr>) b = pipes_open h b"
  "pipes_open h (os_put ev b) = pipes_open h b" "pipes_open h (USBH_Delay k b) = pipes_open h b"
  "pipes_open (h\<lparr>last_ctrl_status := st\<rparr>) b = pipes_open h b" "pipes_open (set_dev_address a h) b = pipes_open h b"
  "pipes_open (upd_ctl (\<lambda>c. c\<lparr>pipe_size := n\<rparr>) h) b = pipes_open h b"
  by (simp_all add: pipes_open_def ctl_ok_def pipes_ok_def upd_dev_def upd_ctl_def USBH_Delay_def set_dev_address_def)

lemma delay_simps [simp]: "addresses (USBH_Delay k b) = addresses b" "hc (USBH_Delay k b) = hc b"
  by (simp_all add: USBH_Delay_def)

lemma upd_dev_simps [simp]:
  "device (upd_dev f h) = f (device h)" "RequestState (upd_dev f h) = RequestState h" "EnumState (upd_dev f h) = EnumState h"
  "device (upd_ctl g h) = device h"
  by (simp_all add: upd_dev_def upd_ctl_def)

lemma open_control_ok:
  assumes "pipes_open h b"
  shows "\<exists>b'. open_control_pipes h b = Some b' \<and> addresses b' = addresses b \<and> (\<forall>g. pipes_open g b' = pipes_open g b)"
proof -
  have "unat (pipe_in (Control h)) < length (hc b)" "unat (pipe_out (Control h)) < length (hc b)" "pData h"
    using assms by (simp_all add: pipes_open_def ctl_ok_def)
  from open_control_pipes_Some [OF this(3,1,2)] show ?thesis by (auto simp: pipes_open_def ctl_ok_def pipes_ok_def)
qed

lemma enum_string:
  assumes "device_ok D" "enum_got D a st h" "st \<in> {ENUM_GET_MFC_STRING_DESC, ENUM_GET_PRODUCT_STRING_DESC, ENUM_GET_SERIALNUM_STRING_DESC}"
  shows "\<exists>buf'. USBH_ParseStringDesc (Data (device h)) 0xff = Some buf' \<and> length buf' = length (Data (device h))"
proof -
  obtain cs zs where s: "ud_string D (string_index D st) = (cs, zs)" by fastforce
  have "reply D (enum_pkt D a st) = take 255 (encode_string cs zs)" using replies(5) [OF assms(3,1)] s by simp
  moreover have "wLength (enum_pkt D a st) \<noteq> 0" using assms(3) by (auto simp: get_desc_def)
  ultimately show ?thesis using assms(2) by (intro parse_string [OF assms(1) s]) (simp add: enum_got_def)
qed

lemma enum_ok:
  assumes "enum_job D h0 a st h" "enum_got D a st h" "RequestState h = CMD_SEND \<or> setup_pkt (Control h) = enum_pkt D a st"
    and r: "USBH_CtlReq (with_setup (enum_pkt D a st) h) b (enum_buf h0 st) (wLength (enum_pkt D a st)) = Some (USBH_OK, h1, b1)"
    and po: "pipes_open h1 b1" and rs: "RequestState h1 = CMD_SEND" and ad: "addresses b1 = A"
  shows "\<exists>s h2 b2. USBH_HandleEnum h b = Some (s, h2, b2) \<and> pipes_open h2 b2 \<and> RequestState h2 = CMD_SEND \<and>
    enum_after D h0 a A st s h2 b2"
proof -
  have at: "enum_at D h0 a st h" and ok: "device_ok D" and wf: "cfg_wf (CfgDesc (device h0))" and idx: "string_index D st \<noteq> 0"
    using assms(1) by (simp_all add: enum_job_def enum_here_def enum_at_def)
  note fr = CtlReq_frame(1) [OF r]
  have h1: "device h1 = device h" "EnumState h1 = EnumState h" "self h1 = self h" "rest h1 = rest h0"
    using ctl_frame_fields [OF fr] rest_frame [OF fr] at by (simp_all add: enum_at_def)
  have self: "self h = self h0" using rest_self [of h h0] at by (simp add: enum_at_def)
  note gd = GetDescriptor_with [of h _ _ b]
  show ?thesis
  proof (cases st)
    case ENUM_GET_FULL_DEV_DESC
    then have "USBH_ParseDevDesc (DevDesc (device h)) (Data (device h)) 18 = Some (ud_dev D)"
      using assms(2) by (intro parse_dev) (simp add: enum_got_def replies length_encodes get_desc_def del: enum_pkt.simps, simp add: get_desc_def)
    with ENUM_GET_FULL_DEV_DESC show ?thesis using assms(3) r at gd [of "0x100" 18] self h1 po rs ad
      by (simp add: USBH_HandleEnum_def enum_full_dev_desc_def USBH_Get_DevDesc_def enum_at_def enum_after_def enum_buf_def
        get_desc_def enum_cfg_def)
  next
    case ENUM_SET_ADDR
    let ?h = "h1\<lparr>EnumState := ENUM_GET_CFG_DESC\<rparr>"
    from open_control_ok [of ?h "USBH_Delay 2 b1"] po obtain b2 where o: "open_control_pipes ?h (USBH_Delay 2 b1) = Some b2"
      "addresses b2 = addresses b1" "pipes_open ?h b2" by auto
    have "a \<noteq> 0" "dev_address (device h) = a" using assms(1) ENUM_SET_ADDR by (simp_all add: enum_job_def enum_here_def enum_at_def)
    with ENUM_SET_ADDR show ?thesis using assms(3) r at SetAddress_with [of h D a b] h1 po rs ad o
      by (simp add: USBH_HandleEnum_def enum_set_addr_def USBH_Get_One_Address_def enum_at_def enum_after_def enum_buf_def enum_cfg_def)
  next
    case ENUM_GET_CFG_DESC
    then have "USBH_ParseCfgDesc (CfgDesc (device h)) (Data (device h)) 9 = Some ((ud_cfg D)\<lparr>Itf_Desc := Itf_Desc (CfgDesc (device h))\<rparr>)"
      using assms(2) replies(3) [of D a] by (intro parse_cfg_header) (simp add: enum_got_def length_encodes get_desc_def)
    with ENUM_GET_CFG_DESC show ?thesis using assms(3) r at gd [of "0x200" 9] self h1 po rs ad
      by (simp add: USBH_HandleEnum_def enum_cfg_desc_def USBH_Get_CfgDesc_def enum_at_def enum_after_def enum_buf_def
        get_desc_def enum_cfg_def)
  next
    case ENUM_GET_FULL_CFG_DESC
    let ?c0 = "CfgDesc (device h)"
    have c0: "?c0 = (ud_cfg D)\<lparr>Itf_Desc := Itf_Desc (CfgDesc (device h0))\<rparr>" "cfg_wf ?c0"
      using at wf ENUM_GET_FULL_CFG_DESC by (simp_all add: enum_at_def enum_cfg_def cfg_wf_def)
    have "wLength (enum_pkt D a st) \<noteq> 0" using device_total(2) [OF ok] ENUM_GET_FULL_CFG_DESC by (auto simp: get_desc_def)
    then have p: "USBH_ParseCfgDesc ?c0 (Data (device h)) (wTotalLength (ud_cfg D)) =
        Some ((ud_cfg D)\<lparr>Itf_Desc := store_itfs (Itf_Desc ?c0) (ud_itfs D)\<rparr>)"
      using assms(2) ENUM_GET_FULL_CFG_DESC replies(4) [OF ok, of a] by (intro parse_full_cfg [OF ok c0(2)]) (simp add: enum_got_def)
    have bn: "unat (bNumInterfaces (ud_cfg D)) \<le> USBH_MAX_NUM_INTERFACES" using ok by (simp add: device_ok_def)
    have "print_loop ((ud_cfg D)\<lparr>Itf_Desc := store_itfs (Itf_Desc ?c0) (ud_itfs D)\<rparr>) (unat (bNumInterfaces (ud_cfg D))) = Some ()"
      by (rule print_loop_ok [OF store_wf [OF c0(2) ok] bn])
    with ENUM_GET_FULL_CFG_DESC p c0(1) show ?thesis
      using assms(3) r at gd [of "0x200" "wTotalLength (ud_cfg D)"] self h1 po rs ad
      by (simp add: USBH_HandleEnum_def enum_full_cfg_desc_def USBH_Get_CfgDesc_def enum_at_def enum_after_def enum_buf_def
        get_desc_def enum_cfg_def)
  next
    case ENUM_GET_MFC_STRING_DESC
    from enum_string [OF ok assms(2)] ENUM_GET_MFC_STRING_DESC
    show ?thesis using assms(3) r at gd [of "0x300 OR ucast (iManufacturer (ud_dev D))" "0xff"] self h1 po rs ad idx
      by (auto simp: USBH_HandleEnum_def enum_mfc_string_def USBH_Get_StringDesc_def enum_at_def enum_after_def enum_buf_def
        get_desc_def enum_cfg_def)
  next
    case ENUM_GET_PRODUCT_STRING_DESC
    from enum_string [OF ok assms(2)] ENUM_GET_PRODUCT_STRING_DESC
    show ?thesis using assms(3) r at gd [of "0x300 OR ucast (iProduct (ud_dev D))" "0xff"] self h1 po rs ad idx
      by (auto simp: USBH_HandleEnum_def enum_product_string_def USBH_Get_StringDesc_def enum_at_def enum_after_def enum_buf_def
        get_desc_def enum_cfg_def)
  next
    case ENUM_GET_SERIALNUM_STRING_DESC
    from enum_string [OF ok assms(2)] ENUM_GET_SERIALNUM_STRING_DESC
    show ?thesis using assms(3) r at gd [of "0x300 OR ucast (iSerialNumber (ud_dev D))" "0xff"] self h1 po rs ad idx
      by (auto simp: USBH_HandleEnum_def enum_serial_string_def USBH_Get_StringDesc_def enum_at_def enum_after_def enum_buf_def
        get_desc_def enum_cfg_def)
  qed (use assms(1) in \<open>simp add: enum_job_def\<close>)
qed

lemma enum_frame:
  assumes "ctl_frame (with_setup q h) h'"
  shows "enum_at D h0 a st h' = enum_at D h0 a st h"
  using ctl_frame_fields [OF assms] rest_frame [OF assms] by (simp add: enum_at_def)

lemma pkt_asks: "device_ok D \<Longrightarrow> CTRL_DATA_IN \<notin> set (stages (enum_pkt D a st) CTRL_SETUP) \<Longrightarrow> wLength (enum_pkt D a st) = 0"
  by (cases st) (auto simp: stages_def after_setup_def get_desc_def split: if_splits)

text \<open>The answers arrive where every request of the enumeration wants them.\<close>

interpretation asked: request_data "deliver D" "enum_here D h0 a" "enum_pkt D a" "enum_buf h0"
  "\<lambda>st. wLength (enum_pkt D a st)" "enum_got D a" "\<lambda>b. addresses b = A" for D h0 a A
proof
  fix h show "Control (deliver D h) = Control h" "RequestState (deliver D h) = RequestState h"
    "pData (deliver D h) = pData h" "pUser (deliver D h) = pUser h" by simp_all
next
  fix st h assume "enum_here D h0 a st h" then show "enum_here D h0 a st (deliver D h)" by (simp add: enum_here_def enum_at_def)
next
  fix st h h' assume "enum_here D h0 a st h" "ctl_frame (with_setup (enum_pkt D a st) h) h'"
  then show "enum_here D h0 a st h'" using enum_frame by (simp add: enum_here_def)
next
  fix st h assume "enum_here D h0 a st h" "CTRL_DATA_IN \<notin> set (stages (enum_pkt D a st) CTRL_SETUP)"
  then show "enum_got D a st h" using pkt_asks [of D a st] by (simp add: enum_got_def enum_here_def enum_at_def)
next
  fix st h
  assume j: "enum_here D h0 a st h" and c: "RequestState h = CMD_WAIT" "ctl_state (Control h) = CTRL_DATA_IN_WAIT"
    "buff (Control h) = enum_buf h0 st" "ctl_length (Control h) = wLength (enum_pkt D a st)"
    "setup_pkt (Control h) = enum_pkt D a st"
  show "enum_got D a st (deliver D h)"
  proof (cases "st = ENUM_SET_ADDR")
    case True
    then show ?thesis by (simp add: enum_got_def)
  next
    case False
    then show ?thesis using j c by (intro got_deliver) (simp_all add: enum_here_def enum_buf_def)
  qed
next
  fix st h assume "enum_got D a st h" "ctl_state (Control h) \<noteq> CTRL_DATA_IN_WAIT"
  then show "enum_got D a st (deliver D h)" by (simp add: deliver_def)
next
  fix st h h' assume "enum_got D a st h" "ctl_frame h h'"
  then show "enum_got D a st h'" using ctl_frame_fields [of h h'] by (simp add: enum_got_def)
next
  fix b b' assume "addresses b = A" "bus_frame b b'"
  then show "addresses b' = A" by (simp add: bus_frame_def)
qed

text \<open>All but the first are requests in the sense of the library.\<close>

interpretation enum: requester "deliver D" "enum_job D h0 a" "enum_pkt D a" "enum_buf h0"
  "\<lambda>st. wLength (enum_pkt D a st)" "enum_got D a" "\<lambda>b. addresses b = A" USBH_HandleEnum "enum_after D h0 a A" for D h0 a A
proof (unfold_locales; (erule (1) asked.got_keep asked.got_frame asked.keep_frame; fail)?)
  fix h show "Control (deliver D h) = Control h" "RequestState (deliver D h) = RequestState h"
    "pData (deliver D h) = pData h" "pUser (deliver D h) = pUser h" by simp_all
next
  fix st h assume "enum_job D h0 a st h" then show "enum_job D h0 a st (deliver D h)" using asked.at_arrive by (simp add: enum_job_def)
next
  fix st h h' assume "enum_job D h0 a st h" "ctl_frame (with_setup (enum_pkt D a st) h) h'"
  then show "enum_job D h0 a st h'" unfolding enum_job_def using asked.at_frame by blast
next
  fix st h assume "enum_job D h0 a st h" "CTRL_DATA_IN \<notin> set (stages (enum_pkt D a st) CTRL_SETUP)"
  then show "enum_got D a st h" using asked.got_none [of D h0 a st h] by (simp add: enum_job_def)
next
  fix st h
  assume "enum_job D h0 a st h" "RequestState h = CMD_WAIT" "ctl_state (Control h) = CTRL_DATA_IN_WAIT"
    "buff (Control h) = enum_buf h0 st" "ctl_length (Control h) = wLength (enum_pkt D a st)"
    "setup_pkt (Control h) = enum_pkt D a st"
  then show "enum_got D a st (deliver D h)" using asked.got_arrive [of D h0 a st h] by (simp add: enum_job_def)
next
  fix st h b h1 b1
  assume "enum_job D h0 a st h" "RequestState h = CMD_SEND \<or> setup_pkt (Control h) = enum_pkt D a st"
    "USBH_CtlReq (with_setup (enum_pkt D a st) h) b (enum_buf h0 st) (wLength (enum_pkt D a st)) = Some (USBH_BUSY, h1, b1)"
  then show "USBH_HandleEnum h b = Some (USBH_BUSY, h1, b1)" by (rule enum_busy)
next
  fix st h b h1 b1
  assume "enum_job D h0 a st h" "enum_got D a st h" "RequestState h = CMD_SEND \<or> setup_pkt (Control h) = enum_pkt D a st"
    "USBH_CtlReq (with_setup (enum_pkt D a st) h) b (enum_buf h0 st) (wLength (enum_pkt D a st)) = Some (USBH_OK, h1, b1)"
    "pipes_open h1 b1" "RequestState h1 = CMD_SEND" "addresses b1 = A"
  then show "\<exists>s h2 b2. USBH_HandleEnum h b = Some (s, h2, b2) \<and> pipes_open h2 b2 \<and> RequestState h2 = CMD_SEND \<and>
      enum_after D h0 a A st s h2 b2" by (rule enum_ok)
qed

subsection \<open>One state after the other\<close>

text \<open>A run through one state; it needs no more than seven answers.\<close>

definition enum_run :: "usb_device \<Rightarrow> host \<Rightarrow> u8 \<Rightarrow> u8 list \<Rightarrow> ENUM_StateTypeDef \<Rightarrow> u8 list list \<Rightarrow> nat \<Rightarrow> bool list \<Rightarrow> host \<Rightarrow> bus \<Rightarrow> bool" where
  "enum_run D h0 a A st l n tape h b \<longleftrightarrow> (\<exists>t1 t2 ss s h' b'. tape = t1 @ t2 \<and>
     polls_of (deliver D) USBH_HandleEnum t1 h b = Some (l, ss @ [s], h', b') \<and> set ss \<subseteq> {USBH_BUSY} \<and>
     enum_after D h0 a A st s h' b' \<and> pipes_open h' b' \<and> RequestState h' = CMD_SEND \<and>
     count_list tape True \<le> count_list t2 True + n)"

lemma enum_cost: "device_ok D \<Longrightarrow> req_cost (enum_pkt D a st) = (if st = ENUM_SET_ADDR then 5 else 7)"
  using device_total(2) [of D]
  by (cases st) (auto simp: req_cost_def stages_def after_setup_def get_desc_def)

lemma enum_no_string:
  assumes "enum_at D h0 a st h" "string_index D st = 0" "pipes_open h b" "RequestState h = CMD_SEND" "addresses b = A"
  shows "\<exists>s h2 b2. USBH_HandleEnum h b = Some (s, h2, b2) \<and> pipes_open h2 b2 \<and> RequestState h2 = CMD_SEND \<and>
    enum_after D h0 a A st s h2 b2"
  using assms by (cases st) (auto simp: USBH_HandleEnum_def enum_mfc_string_def enum_product_string_def enum_serial_string_def
    enum_after_def enum_at_def enum_cfg_def)

lemma enum_stage:
  assumes "enum_at D h0 a st h" "pipes_open h b" "RequestState h = CMD_SEND" "addresses b = A" "7 \<le> count_list tape True"
    "st \<notin> {ENUM_IDLE, ENUM_SET_ADDR}"
  shows "enum_run D h0 a A st (enum_asks D a st) 7 tape h b"
proof (cases "string_index D st = 0")
  case True
  from assms(5) obtain x t where t: "tape = x # t" by (cases tape) auto
  let ?h = "if x then deliver D h else h" and ?b = "if x then ack b else b"
  have "enum_at D h0 a st ?h" "pipes_open ?h ?b" "RequestState ?h = CMD_SEND" "addresses ?b = A"
    using assms(1-4) pipes_open_frame [of h b h "ack b"] enum.arrive_open enum.keep_ack [of b A x] by (auto simp: enum_at_def)
  from enum_no_string [OF this(1) True this(2-4)] obtain s h2 b2 where r: "USBH_HandleEnum ?h ?b = Some (s, h2, b2)"
    "pipes_open h2 b2" "RequestState h2 = CMD_SEND" "enum_after D h0 a A st s h2 b2" by blast
  then show ?thesis unfolding enum_run_def using t True assms(3)
    by (intro exI [of _ "[x]"] exI [of _ t] exI [of _ "[]"] exI [of _ s] exI [of _ h2] exI [of _ b2])
      (simp add: enum_asks_def setup_sent_def)
next
  case False
  with assms have j: "enum_job D h0 a st h" by (simp add: enum_job_def enum_here_def)
  have c: "req_cost (enum_pkt D a st) = 7" using assms(1,6) enum_cost [of D a st] by (simp add: enum_at_def)
  from enum.request_run [OF j assms(2,3,4), of tape] assms(5) c False show ?thesis
    by (simp add: enum_run_def enum_asks_def)
qed

text \<open>The address: the first poll takes the lowest free entry of the table.\<close>

lemma enum_set_addr_first:
  assumes at: "enum_at D h0 0 ENUM_SET_ADDR h" and po: "pipes_open h b" and rs: "RequestState h = CMD_SEND"
    and k: "USBH_Get_One_Address h b = Some (a, set_dev_address a h, b\<lparr>addresses := A\<rparr>)" "a \<noteq> 0"
  obtains h1 b1 where "USBH_HandleEnum h b = Some (USBH_BUSY, h1, b1)" "enum_job D h0 a ENUM_SET_ADDR h1" "addresses b1 = A"
    "setup_pkt (Control h1) = enum_pkt D a ENUM_SET_ADDR" "in_stage h1 NULL_buf 0 CTRL_SETUP False h1 b1"
proof -
  let ?h = "set_dev_address a h" and ?b = "b\<lparr>addresses := A\<rparr>"
  let ?w = "with_setup (enum_pkt D a ENUM_SET_ADDR) ?h"
  have "pipes_open h ?b" using po by (simp add: pipes_open_def ctl_ok_def pipes_ok_def)
  then have po': "pipes_open ?w ?b" by simp
  have rs': "RequestState ?w = CMD_SEND" using rs by (simp add: set_dev_address_def)
  from start_stage [OF po' rs', of NULL_buf 0] obtain h1
    where r: "USBH_CtlReq ?w ?b NULL_buf 0 = Some (USBH_BUSY, h1, ctl_event ?b)"
    and st: "in_stage ?w NULL_buf 0 CTRL_SETUP False h1 (ctl_event ?b)" by blast
  have fr: "ctl_frame ?w h1" using st by (simp add: in_stage_def)
  have "enum_job D h0 a ENUM_SET_ADDR ?h"
    using at k(2) by (simp add: enum_job_def enum_here_def enum_at_def set_dev_address_def enum_cfg_def)
      (simp add: set_dev_address_def [symmetric])
  then have job: "enum_job D h0 a ENUM_SET_ADDR h1" using enum.at_frame fr by blast
  have "USBH_SetAddress ?h ?b a = Some (USBH_BUSY, h1, ctl_event ?b)"
    using SetAddress_with [of ?h D a ?b] rs' r by simp
  then have "USBH_HandleEnum h b = Some (USBH_BUSY, h1, ctl_event ?b)"
    using at k by (simp add: USBH_HandleEnum_def enum_set_addr_def enum_at_def set_dev_address_def)
  moreover have "setup_pkt (Control h1) = enum_pkt D a ENUM_SET_ADDR" using fr by (simp add: ctl_frame_def)
  moreover have "addresses (ctl_event ?b) = A" using CtlReq_frame(2) [OF r] by (simp add: bus_frame_def)
  moreover have "in_stage h1 NULL_buf 0 CTRL_SETUP False h1 (ctl_event ?b)" using st by (simp add: in_stage_def)
  ultimately show ?thesis using that job by blast
qed

lemma enum_address:
  assumes at: "enum_at D h0 0 ENUM_SET_ADDR h" and po: "pipes_open h b" and rs: "RequestState h = CMD_SEND"
    and ad: "addr_ok b" "k < USBH_MAX_NUM_DEVICE" "k \<notin> addr_used b" "\<forall>i<k. i \<in> addr_used b" and n: "5 \<le> count_list tape True"
  shows "enum_run D h0 (of_nat k + 1) ((addresses b)[k := 1]) ENUM_SET_ADDR (enum_asks D (of_nat k + 1) ENUM_SET_ADDR) 5 tape h b"
proof -
  from n obtain x t where t: "tape = x # t" by (cases tape) auto
  let ?h = "if x then deliver D h else h" and ?b = "if x then ack b else b"
  have at': "enum_at D h0 0 ENUM_SET_ADDR ?h" and po': "pipes_open ?h ?b" and rs': "RequestState ?h = CMD_SEND"
    and ad': "addr_ok ?b" "addr_used ?b = addr_used b" "addresses ?b = addresses b"
    using at po rs ad(1) pipes_open_frame [of h b h "ack b"] enum.arrive_open
    by (auto simp: enum_at_def addr_ok_def addr_used_def)
  have d: "dev_address (device ?h) = 0" using at' by (simp add: enum_at_def)
  have k: "USBH_Get_One_Address ?h ?b = Some (of_nat k + 1, set_dev_address (of_nat k + 1) ?h, ?b\<lparr>addresses := (addresses b)[k := 1]\<rparr>)"
  proof (rule Get_One_Address_cases [OF ad'(1) d], goal_cases)
    case 1
    then show ?case using ad ad'(2) by auto
  next
    case (2 i)
    then have "i = k" using ad ad'(2) by (metis nat_neq_iff)
    with 2 ad'(3) show ?case by simp
  qed
  let ?a = "of_nat k + 1 :: u8"
  have "?a \<noteq> 0" using ad(2) by (auto simp: unat_eq_0 [symmetric] unat_word_ariths unat_of_nat)
  from enum_set_addr_first [OF at' po' rs' k this] obtain h1 b1
    where 1: "USBH_HandleEnum ?h ?b = Some (USBH_BUSY, h1, b1)" "enum_job D h0 ?a ENUM_SET_ADDR h1" "addresses b1 = (addresses b)[k := 1]"
    "setup_pkt (Control h1) = enum_pkt D ?a ENUM_SET_ADDR" "in_stage h1 NULL_buf 0 CTRL_SETUP False h1 b1" by blast
  have c: "req_cost (enum_pkt D ?a ENUM_SET_ADDR) = 5" using at enum_cost [of D ?a ENUM_SET_ADDR] by (simp add: enum_at_def)
  have "req_cost (enum_pkt D ?a ENUM_SET_ADDR) \<le> Suc (count_list t True)" unfolding c using n t by (auto split: if_splits)
  from enum.request_started [OF _ 1(2,4,3) this, of h1] 1(5)
  obtain t1 t2 ss s h' b' where 2: "t = t1 @ t2"
    "polls_of (deliver D) USBH_HandleEnum t1 h1 b1 = Some ([setup_bytes (enum_pkt D ?a ENUM_SET_ADDR)], ss @ [s], h', b')"
    "set ss \<subseteq> {USBH_BUSY}" "enum_after D h0 ?a ((addresses b)[k := 1]) ENUM_SET_ADDR s h' b'" "pipes_open h' b'"
    "RequestState h' = CMD_SEND" "Suc (count_list t True) \<le> count_list t2 True + 5"
    unfolding c by (auto simp: enum_buf_def)
  show ?thesis
    unfolding enum_run_def
    by (rule exI [of _ "x # t1"], rule exI [of _ t2], rule exI [of _ "USBH_BUSY # ss"], rule exI [of _ s], rule exI [of _ h'], rule exI [of _ b'])
      (use 1(1) 2 t rs in \<open>simp add: enum_asks_def setup_sent_def\<close>)
qed

subsection \<open>The first request\<close>

text \<open>It has to make progress at every poll.\<close>

lemma enum_idle_busy:
  assumes "EnumState h = ENUM_IDLE" "setup_pkt (Control h) = enum_pkt D 0 ENUM_IDLE"
    "USBH_CtlReq h b (Data_of (self h)) 8 = Some (USBH_BUSY, h1, b1)" "last_ctrl_status h1 \<in> {CTRL_IDLE, ctl_state (Control h)}"
    "ctl_state (Control h1) \<noteq> ctl_state (Control h)"
  shows "USBH_HandleEnum h b = Some (USBH_BUSY, h1\<lparr>last_ctrl_status := ctl_state (Control h1)\<rparr>, USBH_Delay 1 b1)"
  using assms GetDescriptor_with [of h "0x100" 8 b] with_setup_same [of h]
  by (auto simp: USBH_HandleEnum_def enum_idle_def USBH_Get_DevDesc_def)

lemma parse_dev_start: "8 \<le> length buf \<Longrightarrow> \<exists>d'. USBH_ParseDevDesc d buf 8 = Some d'"
  by (cases "buf = []") (simp_all add: USBH_ParseDevDesc_def LE16_def rd_def)

lemma enum_idle_ok:
  assumes "enum_here D h0 0 ENUM_IDLE h" "setup_pkt (Control h) = enum_pkt D 0 ENUM_IDLE"
    and r: "USBH_CtlReq h b (Data_of (self h0)) 8 = Some (USBH_OK, h1, b1)"
    and po: "pipes_open h1 b1" and rs: "RequestState h1 = CMD_SEND" and ad: "addresses b1 = A"
  shows "\<exists>h2 b2. USBH_HandleEnum h b = Some (USBH_BUSY, h2, b2) \<and> pipes_open h2 b2 \<and> RequestState h2 = CMD_SEND \<and>
    enum_after D h0 0 A ENUM_IDLE USBH_BUSY h2 b2"
proof -
  have at: "enum_at D h0 0 ENUM_IDLE h" using assms(1) by (simp add: enum_here_def)
  note fr = CtlReq_frame(1) [OF r]
  have h1: "device h1 = device h" "EnumState h1 = EnumState h" "rest h1 = rest h0"
    using ctl_frame_fields [OF fr] rest_frame [OF fr] at by (simp_all add: enum_at_def)
  have self: "self h = self h0" using rest_self [of h h0] at by (simp add: enum_at_def)
  obtain d where d: "USBH_ParseDevDesc (DevDesc (device h)) (Data (device h)) 8 = Some d"
    using at parse_dev_start [of "Data (device h)" "DevDesc (device h)"] by (auto simp: enum_at_def)
  let ?h = "(upd_ctl (\<lambda>c. c\<lparr>pipe_size := bMaxPacketSize d\<rparr>) (upd_dev (\<lambda>dv. dv\<lparr>DevDesc := d\<rparr>) h1))
      \<lparr>EnumState := ENUM_GET_FULL_DEV_DESC, last_ctrl_status := CTRL_IDLE\<rparr>"
  have po': "pipes_open ?h b1" using po pipes_open_upd by simp
  from open_control_ok [OF this] obtain b2 where o: "open_control_pipes ?h b1 = Some b2"
    "addresses b2 = addresses b1" "pipes_open ?h b2" using po' by auto
  have "USBH_HandleEnum h b = Some (USBH_BUSY, ?h, b2)"
    using assms(2) at r h1 self d o(1) GetDescriptor_with [of h "0x100" 8 b] with_setup_same [of h]
    by (simp add: USBH_HandleEnum_def enum_idle_def USBH_Get_DevDesc_def enum_at_def)
  moreover have "enum_after D h0 0 A ENUM_IDLE USBH_BUSY ?h b2"
    using at h1 ad o(2) by (simp add: enum_after_def enum_at_def enum_cfg_def)
  moreover have "RequestState ?h = CMD_SEND" using rs by (simp add: upd_ctl_def)
  ultimately show ?thesis using o(3) by blast
qed

lemma in_stage_status:
  "in_stage h p l st w h b \<Longrightarrow> in_stage (h\<lparr>last_ctrl_status := x\<rparr>) p l st w (h\<lparr>last_ctrl_status := x\<rparr>) (USBH_Delay k b)"
  by (auto simp: in_stage_def stage_pipe_def split: if_splits)

lemma idle_rest:
  "\<lbrakk>in_stage h (Data_of (self h0)) 8 st w h b; enum_here D h0 0 ENUM_IDLE h; setup_pkt (Control h) = enum_pkt D 0 ENUM_IDLE;
    addresses b = A; last_ctrl_status h \<in> {CTRL_IDLE, ctl_state (Control h)};
    enum_got D 0 ENUM_IDLE h \<or> CTRL_DATA_IN \<in> set (stages (enum_pkt D 0 ENUM_IDLE) st); steps_left h st w = n\<rbrakk> \<Longrightarrow>
   \<exists>ss h' b'. polls_of (deliver D) USBH_HandleEnum (replicate n True) h b =
       Some (if st = CTRL_SETUP \<and> \<not> w then [setup_bytes (enum_pkt D 0 ENUM_IDLE)] else [], ss, h', b') \<and>
     set ss \<subseteq> {USBH_BUSY} \<and> enum_after D h0 0 A ENUM_IDLE USBH_BUSY h' b' \<and> pipes_open h' b' \<and> RequestState h' = CMD_SEND"
proof (induction n arbitrary: st w h b)
  case 0
  then have "st \<in> set submit_states" by (simp add: in_stage_def)
  from steps_left_pos [OF this, of h w] 0 show ?case by simp
next
  case (Suc n)
  let ?p = "enum_pkt D 0 ENUM_IDLE" and ?g = "deliver D h"
  have buf: "enum_buf h0 ENUM_IDLE = Data_of (self h0)" "wLength ?p = 8" by (simp_all add: enum_buf_def get_desc_def)
  have here: "enum_here D h0 0 ENUM_IDLE ?g" and pk: "setup_pkt (Control ?g) = ?p"
    using asked.at_arrive [OF Suc.prems(2)] Suc.prems(3) by simp_all
  have sent: "setup_sent h = (if st = CTRL_SETUP \<and> \<not> w then [setup_bytes ?p] else [])"
    using Suc.prems(1,3) by (cases st) (auto simp: setup_sent_def in_stage_def submit_states_def)
  from Suc.prems(1) have i: "in_stage h (enum_buf h0 ENUM_IDLE) (wLength ?p) st w h b" by (simp only: buf)
  show ?case
  proof (rule asked.answered_poll [OF i Suc.prems(2,3,4,6)], goal_cases)
    case (1 h1 b1 st' w')
    let ?k = "h1\<lparr>last_ctrl_status := ctl_state (Control h1)\<rparr>"
    have "last_ctrl_status (erase_ctl h1) = last_ctrl_status (erase_ctl ?g)" using 1(10) by (simp add: ctl_frame_def)
    then have "last_ctrl_status h1 = last_ctrl_status h" by (simp add: erase_ctl_def)
    then have r: "USBH_HandleEnum ?g (ack b) = Some (USBH_BUSY, ?k, USBH_Delay 1 b1)"
      using enum_idle_busy [OF _ pk, of "ack b" h1 b1] 1(1) [unfolded buf] 1(9) Suc.prems(5) here rest_self [of ?g h0]
      by (simp add: enum_here_def enum_at_def)
    have "enum_here D h0 0 ENUM_IDLE ?k" using 1(5) by (simp add: enum_here_def enum_at_def)
    moreover have "steps_left ?k st' w' = n" using 1(3) Suc.prems(7) by (simp add: steps_left_def)
    moreover have "enum_got D 0 ENUM_IDLE ?k \<or> CTRL_DATA_IN \<in> set (stages ?p st')" using 1(8) by (simp add: enum_got_def)
    moreover have "in_stage ?k (Data_of (self h0)) 8 st' w' ?k (USBH_Delay 1 b1)" by (rule in_stage_status [OF 1(2) [unfolded buf]])
    ultimately obtain ss h' b' where "polls_of (deliver D) USBH_HandleEnum (replicate n True) ?k (USBH_Delay 1 b1) =
        Some (if st' = CTRL_SETUP \<and> \<not> w' then [setup_bytes ?p] else [], ss, h', b')" "set ss \<subseteq> {USBH_BUSY}"
      "enum_after D h0 0 A ENUM_IDLE USBH_BUSY h' b'" "pipes_open h' b'" "RequestState h' = CMD_SEND"
      using Suc.IH [of ?k st' w' "USBH_Delay 1 b1"] 1(6,7) by auto
    then show ?case using r sent 1(4) by auto
  next
    case (2 h1 b1)
    then have "n = 0" using Suc.prems(7) by simp
    from enum_idle_ok [OF here pk 2(3) [unfolded buf] 2(5,4,7)] obtain h2 b2 where "USBH_HandleEnum ?g (ack b) = Some (USBH_BUSY, h2, b2)"
      "pipes_open h2 b2" "RequestState h2 = CMD_SEND" "enum_after D h0 0 A ENUM_IDLE USBH_BUSY h2 b2" by blast
    then show ?case using \<open>n = 0\<close> sent 2(1) by auto
  qed
qed

text \<open>From the start of the request.\<close>

lemma enum_idle_started:
  assumes "EnumState h = ENUM_IDLE" "RequestState h = CMD_SEND" "last_ctrl_status h = CTRL_IDLE" "pipes_open h b"
  obtains h1 b1 where "USBH_HandleEnum h b = Some (USBH_BUSY, h1, b1)" "in_stage h1 (Data_of (self h)) 8 CTRL_SETUP False h1 b1"
    "last_ctrl_status h1 = CTRL_SETUP" "setup_pkt (Control h1) = enum_pkt D a ENUM_IDLE" "addresses b1 = addresses b"
    "\<forall>h0. enum_here D h0 0 ENUM_IDLE h \<longrightarrow> enum_here D h0 0 ENUM_IDLE h1" "self h1 = self h" "EnumState h1 = ENUM_IDLE"
proof -
  let ?w = "with_setup (enum_pkt D a ENUM_IDLE) h"
  from start_stage [of ?w b "Data_of (self h)" 8] assms(2,4) obtain h1
    where r: "USBH_CtlReq ?w b (Data_of (self h)) 8 = Some (USBH_BUSY, h1, ctl_event b)"
    and st: "in_stage ?w (Data_of (self h)) 8 CTRL_SETUP False h1 (ctl_event b)" by auto
  let ?k = "h1\<lparr>last_ctrl_status := ctl_state (Control h1)\<rparr>"
  have fr: "ctl_frame ?w h1" using st by (simp add: in_stage_def)
  have "last_ctrl_status (erase_ctl h1) = last_ctrl_status (erase_ctl ?w)" using fr by (simp add: ctl_frame_def)
  then have l: "last_ctrl_status h1 = CTRL_IDLE" using assms(3) by (simp add: erase_ctl_def with_setup_def upd_ctl_def)
  have "USBH_HandleEnum h b = Some (USBH_BUSY, ?k, USBH_Delay 1 (ctl_event b))"
    using assms(1,2) l r GetDescriptor_with [of h "0x100" 8 b]
    by (simp add: USBH_HandleEnum_def enum_idle_def USBH_Get_DevDesc_def)
  moreover have "in_stage h1 (Data_of (self h)) 8 CTRL_SETUP False h1 (ctl_event b)" using st by (simp add: in_stage_def)
  then have "in_stage ?k (Data_of (self h)) 8 CTRL_SETUP False ?k (USBH_Delay 1 (ctl_event b))" by (rule in_stage_status)
  moreover have "ctl_state (Control h1) = CTRL_SETUP" using st by (simp add: in_stage_def)
  moreover have "setup_pkt (Control h1) = enum_pkt D a ENUM_IDLE" using fr by (simp add: ctl_frame_def)
  moreover have "addresses (ctl_event b) = addresses b" using CtlReq_frame(2) [OF r] by (simp add: bus_frame_def)
  moreover have "\<forall>h0. enum_here D h0 0 ENUM_IDLE h \<longrightarrow> enum_here D h0 0 ENUM_IDLE ?k"
    using enum_frame [OF fr] by (auto simp: enum_here_def enum_at_def)
  moreover have "self h1 = self h" "EnumState h1 = ENUM_IDLE" using ctl_frame_fields [OF fr] assms(1) by simp_all
  ultimately show ?thesis using that by auto
qed

lemma enum_idle_run:
  assumes at: "enum_at D h0 0 ENUM_IDLE h" and po: "pipes_open h b" and rs: "RequestState h = CMD_SEND"
    and l: "last_ctrl_status h = CTRL_IDLE"
  shows "\<exists>ss h' b'. polls_of (deliver D) USBH_HandleEnum (replicate 7 True) h b = Some (enum_asks D 0 ENUM_IDLE, ss, h', b') \<and>
     set ss \<subseteq> {USBH_BUSY} \<and> enum_after D h0 0 (addresses b) ENUM_IDLE USBH_BUSY h' b' \<and> pipes_open h' b' \<and> RequestState h' = CMD_SEND"
proof -
  let ?h = "deliver D h" and ?p = "enum_pkt D 0 ENUM_IDLE"
  have at': "enum_here D h0 0 ENUM_IDLE ?h" using at by (simp add: enum_here_def enum_at_def)
  have "EnumState ?h = ENUM_IDLE" "RequestState ?h = CMD_SEND" "last_ctrl_status ?h = CTRL_IDLE" "pipes_open ?h (ack b)"
    using at rs l po pipes_open_frame [of h b h "ack b"] asked.arrive_open by (simp_all add: enum_at_def)
  from enum_idle_started [OF this, of D 0] obtain h1 b1
    where 1: "USBH_HandleEnum ?h (ack b) = Some (USBH_BUSY, h1, b1)" "in_stage h1 (Data_of (self ?h)) 8 CTRL_SETUP False h1 b1"
    "last_ctrl_status h1 = CTRL_SETUP" "setup_pkt (Control h1) = ?p" "addresses b1 = addresses (ack b)"
    "\<forall>h0. enum_here D h0 0 ENUM_IDLE ?h \<longrightarrow> enum_here D h0 0 ENUM_IDLE h1" by blast
  have here: "enum_here D h0 0 ENUM_IDLE h1" using 1(6) at' by blast
  have self: "self h = self h0" using rest_self [of h h0] at by (simp add: enum_at_def)
  have st: "stages ?p CTRL_SETUP = [CTRL_SETUP, CTRL_DATA_IN, CTRL_STATUS_OUT]" by (simp add: stages_def after_setup_def get_desc_def)
  have "steps_left h1 CTRL_SETUP False = 6" using 1(4) st by (simp add: steps_left_def)
  moreover have "last_ctrl_status h1 \<in> {CTRL_IDLE, ctl_state (Control h1)}" using 1(2,3) by (simp add: in_stage_def)
  moreover have "CTRL_DATA_IN \<in> set (stages ?p CTRL_SETUP)" using st by simp
  ultimately obtain ss h' b' where 2: "polls_of (deliver D) USBH_HandleEnum (replicate 6 True) h1 b1 = Some ([setup_bytes ?p], ss, h', b')"
    "set ss \<subseteq> {USBH_BUSY}" "enum_after D h0 0 (addresses b) ENUM_IDLE USBH_BUSY h' b'" "pipes_open h' b'" "RequestState h' = CMD_SEND"
    using idle_rest [OF _ here 1(4), of CTRL_SETUP False b1 "addresses b" 6] 1(2,5) self by auto
  have "setup_sent h = []" using rs by (simp add: setup_sent_def)
  moreover have "replicate 7 True = True # replicate 6 True" by (simp add: eval_nat_numeral)
  ultimately show ?thesis using 1(1) 2 by (simp add: enum_asks_def)
qed

subsection \<open>The whole enumeration\<close>

lemma enum_run_next:
  assumes "enum_run D h0 a A st l n tape h b" "st \<noteq> ENUM_GET_SERIALNUM_STRING_DESC"
    and "\<And>t h' b'. \<lbrakk>enum_at D h0 a (enum_succ st) h'; pipes_open h' b'; RequestState h' = CMD_SEND; addresses b' = A;
      count_list tape True \<le> count_list t True + n\<rbrakk> \<Longrightarrow> enum_run D h0 a' A' st' l' n' t h' b'"
  shows "enum_run D h0 a' A' st' (l @ l') (n + n') tape h b"
proof -
  from assms(1) obtain t1 t2 ss s h1 b1 where 1: "tape = t1 @ t2"
    "polls_of (deliver D) USBH_HandleEnum t1 h b = Some (l, ss @ [s], h1, b1)" "set ss \<subseteq> {USBH_BUSY}"
    "enum_after D h0 a A st s h1 b1" "pipes_open h1 b1" "RequestState h1 = CMD_SEND"
    "count_list tape True \<le> count_list t2 True + n" unfolding enum_run_def by blast
  then have "s = USBH_BUSY" and "enum_run D h0 a' A' st' l' n' t2 h1 b1"
    using assms(2,3) by (simp_all add: enum_after_def)
  then obtain u1 u2 rs q h' b' where 2: "t2 = u1 @ u2"
    "polls_of (deliver D) USBH_HandleEnum u1 h1 b1 = Some (l', rs @ [q], h', b')" "set rs \<subseteq> {USBH_BUSY}"
    "enum_after D h0 a' A' st' q h' b'" "pipes_open h' b'" "RequestState h' = CMD_SEND"
    "count_list t2 True \<le> count_list u2 True + n'" unfolding enum_run_def by blast
  show ?thesis unfolding enum_run_def
    by (rule exI [of _ "t1 @ u1"], rule exI [of _ u2], rule exI [of _ "(ss @ [s]) @ rs"], rule exI [of _ q], rule exI [of _ h'], rule exI [of _ b'])
      (use polls_append [OF 1(2) 2(2)] 1 2 \<open>s = USBH_BUSY\<close> in auto)
qed

lemma enum_step:
  assumes "enum_at D h0 a st h" "pipes_open h b" "RequestState h = CMD_SEND" "addresses b = A" "7 + n \<le> count_list tape True"
    "st \<notin> {ENUM_IDLE, ENUM_SET_ADDR, ENUM_GET_SERIALNUM_STRING_DESC}"
    "\<And>t h' b'. \<lbrakk>enum_at D h0 a (enum_succ st) h'; pipes_open h' b'; RequestState h' = CMD_SEND; addresses b' = A;
      n \<le> count_list t True\<rbrakk> \<Longrightarrow> enum_run D h0 a' A' st' l n t h' b'"
  shows "enum_run D h0 a' A' st' (enum_asks D a st @ l) (7 + n) tape h b"
  by (rule enum_run_next [OF enum_stage [OF assms(1-4)]]) (use assms(5,6) in \<open>auto intro: assms(7)\<close>)

text \<open>Once the device has its address.\<close>

lemma enum_addressed:
  assumes "enum_at D h0 a ENUM_GET_CFG_DESC h" "pipes_open h b" "RequestState h = CMD_SEND" "addresses b = A"
    "35 \<le> count_list tape True"
  shows "enum_run D h0 a A ENUM_GET_SERIALNUM_STRING_DESC (enum_asks D a ENUM_GET_CFG_DESC @ enum_asks D a ENUM_GET_FULL_CFG_DESC @
     enum_asks D a ENUM_GET_MFC_STRING_DESC @ enum_asks D a ENUM_GET_PRODUCT_STRING_DESC @
     enum_asks D a ENUM_GET_SERIALNUM_STRING_DESC) 35 tape h b"
proof -
  have n: "35 = 7 + (7 + (7 + (7 + (7 :: nat))))" by simp
  show ?thesis unfolding n
    by (rule enum_step [OF assms(1-4)]; (use assms(5) in \<open>simp; fail\<close>)?; (rule enum_step; (simp; fail)?)+; rule enum_stage; simp)
qed

text \<open>
  C3: from the first descriptor to the last string: as long as the device answers every poll of the first
  request, and then often enough, the requests go out once each and in order, the device gets the
  lowest free address, and its descriptors end up in the handle.
\<close>

theorem enumeration_completes:
  assumes "device_ok D" "EnumState h = ENUM_IDLE" "RequestState h = CMD_SEND" "last_ctrl_status h = CTRL_IDLE"
    and po: "pipes_open h b" and "length (Data (device h)) = USBH_MAX_DATA_BUFFER" "cfg_wf (CfgDesc (device h))"
    and "dev_address (device h) = 0"
    and k: "addr_ok b" "k < USBH_MAX_NUM_DEVICE" "k \<notin> addr_used b" "\<forall>i<k. i \<in> addr_used b"
    and n: "47 \<le> count_list tape True"
  shows "\<exists>t1 t2 ss h' b'. tape = t1 @ t2 \<and>
     polls_of (deliver D) USBH_HandleEnum (replicate 7 True @ t1) h b =
       Some (enum_packets D (of_nat k + 1), ss @ [USBH_OK], h', b') \<and> set ss \<subseteq> {USBH_BUSY} \<and>
     DevDesc (device h') = ud_dev D \<and>
     CfgDesc (device h') = (ud_cfg D)\<lparr>Itf_Desc := store_itfs (Itf_Desc (CfgDesc (device h))) (ud_itfs D)\<rparr> \<and>
     dev_address (device h') = of_nat k + 1 \<and> addr_used b' = insert k (addr_used b) \<and> rest h' = rest h"
proof -
  let ?a = "of_nat k + 1 :: u8" and ?A = "(addresses b)[k := 1]" and ?fin = ENUM_GET_SERIALNUM_STRING_DESC
  have at: "enum_at D h 0 ENUM_IDLE h" using assms(1-8) by (simp add: enum_at_def enum_cfg_def)
  from enum_idle_run [OF at po assms(3,4)] obtain ss h1 b1 where 1:
    "polls_of (deliver D) USBH_HandleEnum (replicate 7 True) h b = Some (enum_asks D 0 ENUM_IDLE, ss, h1, b1)" "set ss \<subseteq> {USBH_BUSY}"
    "enum_at D h 0 ENUM_GET_FULL_DEV_DESC h1" "addresses b1 = addresses b" "pipes_open h1 b1" "RequestState h1 = CMD_SEND"
    by (auto simp: enum_after_def)
  let ?rest = "enum_asks D ?a ENUM_GET_CFG_DESC @ enum_asks D ?a ENUM_GET_FULL_CFG_DESC @ enum_asks D ?a ENUM_GET_MFC_STRING_DESC @
    enum_asks D ?a ENUM_GET_PRODUCT_STRING_DESC @ enum_asks D ?a ENUM_GET_SERIALNUM_STRING_DESC"
  have "enum_run D h ?a ?A ?fin (enum_asks D 0 ENUM_GET_FULL_DEV_DESC @ (enum_asks D ?a ENUM_SET_ADDR @ ?rest)) (7 + (5 + 35)) tape h1 b1"
  proof (rule enum_step [OF 1(3,5,6,4)], goal_cases)
    case (3 t g c)
    then have ad: "addr_ok c" "addr_used c = addr_used b" using k(1) by (simp_all add: addr_ok_def addr_used_def)
    from 3 have g: "enum_at D h 0 ENUM_SET_ADDR g" by simp
    have kc: "k \<notin> addr_used c" "\<forall>i<k. i \<in> addr_used c" using k(3,4) ad(2) by simp_all
    have c: "5 \<le> count_list t True" using 3(5) by simp
    have r: "enum_run D h ?a ?A ENUM_SET_ADDR (enum_asks D ?a ENUM_SET_ADDR) 5 t g c"
      using enum_address [OF g 3(2,3) ad(1) k(2) kc c] 3(4) by simp
    show ?case
    proof (rule enum_run_next [OF r], goal_cases)
      case (2 t' g' c')
      then show ?case using 3(5) by (intro enum_addressed) simp_all
    qed simp
  qed (use n in simp_all)
  then obtain t1 t2 rs s h' b' where 2: "tape = t1 @ t2"
    "polls_of (deliver D) USBH_HandleEnum t1 h1 b1 = Some (enum_asks D 0 ENUM_GET_FULL_DEV_DESC @ enum_asks D ?a ENUM_SET_ADDR @ ?rest,
       rs @ [s], h', b')" "set rs \<subseteq> {USBH_BUSY}" "enum_after D h ?a ?A ?fin s h' b'"
    unfolding enum_run_def by blast
  have "enum_packets D ?a = enum_asks D 0 ENUM_IDLE @ enum_asks D 0 ENUM_GET_FULL_DEV_DESC @ enum_asks D ?a ENUM_SET_ADDR @ ?rest"
    by (simp add: enum_packets_def enum_asks_def)
  with polls_append [OF 1(1) 2(2)] have
    "polls_of (deliver D) USBH_HandleEnum (replicate 7 True @ t1) h b = Some (enum_packets D ?a, (ss @ rs) @ [s], h', b')" by (simp only: append_assoc)
  moreover have "addr_used b' = insert k (addr_used b)"
    using 2(4) k(1,2) by (auto simp: enum_after_def addr_used_def addr_ok_def nth_list_update)
  moreover have "s = USBH_OK" "DevDesc (device h') = ud_dev D" "dev_address (device h') = ?a" "rest h' = rest h"
    "CfgDesc (device h') = (ud_cfg D)\<lparr>Itf_Desc := store_itfs (Itf_Desc (CfgDesc (device h))) (ud_itfs D)\<rparr>"
    using 2(4) by (simp_all add: enum_after_def enum_at_def enum_cfg_def)
  moreover have "set (ss @ rs) \<subseteq> {USBH_BUSY}" using 1(2) 2(3) by simp
  ultimately show ?thesis using 2(1) by blast
qed

definition sample_device :: usb_device where
  "sample_device = \<lparr>ud_dev = zero_dev\<lparr>d_bLength := 18, d_bDescriptorType := 1, bMaxPacketSize := 64, iProduct := 2\<rparr>,
     ud_cfg = sample_cfg, ud_itfs = [(sample_itf, [Sub_ep sample_ep])], ud_string = (\<lambda>i. ([0x41, 0x42], [0, 0]))\<rparr>"

lemma sample_device_ok: "device_ok sample_device"
  by (simp add: device_ok_def sample_device_def cfg_ok_def sample_cfg_def sample_itf_def sample_ep_def encode_cfg_def
    encode_cfg_header_def encode_block_def encode_itf_def encode_ep_def block_ok_def subs_ok_def zero_cfg_def)

lemma sample_unlisted: "addr_ok sample_bus" "addr_used sample_bus = {}"
  by (simp_all add: addr_ok_def addr_used_def sample_bus_def)

lemma enumeration_completes_witness:
  "\<exists>t1 t2 ss h' b'. replicate 47 True = t1 @ t2 \<and>
     polls_of (deliver sample_device) USBH_HandleEnum (replicate 7 True @ t1) sample_host sample_bus =
       Some (enum_packets sample_device 1, ss @ [USBH_OK], h', b') \<and>
     DevDesc (device h') = ud_dev sample_device \<and> dev_address (device h') = 1 \<and>
     length (enum_packets sample_device 1) = 6"
proof -
  have l: "length (enum_packets sample_device 1) = 6"
    by (simp add: enum_packets_def enum_asks_def sample_device_def zero_dev_def)
  have "EnumState sample_host = ENUM_IDLE" "RequestState sample_host = CMD_SEND" "last_ctrl_status sample_host = CTRL_IDLE"
    "length (Data (device sample_host)) = USBH_MAX_DATA_BUFFER" "dev_address (device sample_host) = 0"
    by (simp_all add: sample_host_def zero_host_def zero_device_def)
  note e = enumeration_completes [OF sample_device_ok this(1-3) sample_open this(4) sample_cfg_wf this(5) sample_unlisted(1)]
  have "count_list (replicate n True) True = n" for n by (induction n) simp_all
  then have n: "47 \<le> count_list (replicate 47 True) True" by (simp only: order_refl)
  have k: "(0 :: nat) < USBH_MAX_NUM_DEVICE" "0 \<notin> addr_used sample_bus" "\<forall>i<0. i \<in> addr_used sample_bus"
    using sample_unlisted(2) by simp_all
  have a: "of_nat 0 + 1 = (1 :: u8)" by simp
  from e [OF k n] l show ?thesis unfolding a
    by (elim exE conjE) (intro exI conjI, assumption+)
qed

text \<open>
  C20: the first request has to move at every poll: a poll that finds the controller still busy with the
  setup packet gives the enumeration up.
\<close>

theorem enum_idle_impatient:
  assumes "EnumState h = ENUM_IDLE" "RequestState h = CMD_SEND" "last_ctrl_status h = CTRL_IDLE" "pipes_open h b"
  shows "\<exists>h' b'. polls_of (deliver D) USBH_HandleEnum [x, y, False] h b =
     Some ([setup_bytes (enum_pkt D 0 ENUM_IDLE)], [USBH_BUSY, USBH_BUSY, USBH_FAIL], h', b') \<and>
     EnumState h' = ENUM_IDLE \<and> RequestState h' = CMD_WAIT \<and> ctl_state (Control h') = CTRL_SETUP_WAIT"
proof -
  let ?h = "if x then deliver D h else h" and ?b = "if x then ack b else b" and ?p = "enum_pkt D 0 ENUM_IDLE"
  have "EnumState ?h = ENUM_IDLE" "RequestState ?h = CMD_SEND" "last_ctrl_status ?h = CTRL_IDLE" "pipes_open ?h ?b"
    using assms pipes_open_frame [of h b h "ack b"] asked.arrive_open by auto
  from enum_idle_started [OF this, of D 0] obtain h1 b1 where 1: "USBH_HandleEnum ?h ?b = Some (USBH_BUSY, h1, b1)"
    "in_stage h1 (Data_of (self ?h)) 8 CTRL_SETUP False h1 b1" "last_ctrl_status h1 = CTRL_SETUP" "setup_pkt (Control h1) = ?p"
    "self h1 = self ?h" "EnumState h1 = ENUM_IDLE" by blast
  let ?h1 = "if y then deliver D h1 else h1" and ?b1 = "if y then ack b1 else b1"
  have i: "in_stage ?h1 (Data_of (self h1)) 8 CTRL_SETUP False ?h1 b1" using 1(2,5) asked.in_stage_arrive by simp
  have d: "ctl_state (Control ?h1) = CTRL_SETUP" "setup_pkt (Control ?h1) = ?p" "EnumState ?h1 = ENUM_IDLE"
    "last_ctrl_status ?h1 = CTRL_SETUP" "self ?h1 = self h1" using i 1(3,4,6) by (simp_all add: in_stage_def)
  from stage_poll [OF i, of y] obtain h2 b2
    where r: "USBH_CtlReq ?h1 ?b1 (Data_of (self h1)) 8 = Some (USBH_BUSY, h2, b2)"
    and i2: "in_stage ?h1 (Data_of (self h1)) 8 CTRL_SETUP True h2 b2" by auto
  let ?h2 = "h2\<lparr>last_ctrl_status := ctl_state (Control h2)\<rparr>" and ?b2 = "USBH_Delay 1 b2"
  have c2: "ctl_state (Control h2) = CTRL_SETUP_WAIT" "RequestState h2 = CMD_WAIT" "ctl_frame ?h1 h2" using i2 by (simp_all add: in_stage_def)
  have "last_ctrl_status (erase_ctl h2) = last_ctrl_status (erase_ctl ?h1)" using c2(3) by (simp add: ctl_frame_def)
  then have l: "last_ctrl_status h2 = CTRL_SETUP" using d(4) by (simp add: erase_ctl_def)
  have r2: "USBH_HandleEnum ?h1 ?b1 = Some (USBH_BUSY, ?h2, ?b2)"
    by (rule enum_idle_busy) (use d r l c2 in simp_all)
  have p2: "setup_pkt (Control h2) = ?p" "EnumState h2 = ENUM_IDLE" "self h2 = self h1"
    using c2(3) d ctl_frame_fields [OF c2(3)] by (simp_all add: ctl_frame_def)
  have "in_stage h2 (Data_of (self h1)) 8 CTRL_SETUP True h2 b2" using i2 by (simp add: in_stage_def)
  then have i3: "in_stage ?h2 (Data_of (self h1)) 8 CTRL_SETUP True ?h2 ?b2" by (rule in_stage_status)
  from stage_poll [OF i3, of False] have r3: "USBH_CtlReq ?h2 ?b2 (Data_of (self h1)) 8 = Some (USBH_BUSY, ?h2, ?b2)" by auto
  have "USBH_HandleEnum ?h2 ?b2 = Some (USBH_FAIL, ?h2\<lparr>last_ctrl_status := CTRL_IDLE\<rparr>, os_put USBH_STATE_CHANGED_EVENT ?b2)"
    using r3 p2 c2 GetDescriptor_with [of ?h2 "0x100" 8 ?b2] with_setup_same [of ?h2 ?p]
    by (simp add: USBH_HandleEnum_def enum_idle_def USBH_Get_DevDesc_def)
  moreover have "setup_sent h = []" "setup_sent h1 = [setup_bytes ?p]" "setup_sent ?h2 = []"
    using assms(2) 1(2,4) c2 by (simp_all add: setup_sent_def in_stage_def)
  ultimately show ?thesis using 1(1) r2 p2 c2 by simp
qed

lemma enum_idle_impatient_witness:
  "\<exists>h' b'. polls_of (deliver sample_device) USBH_HandleEnum [True, True, False] sample_host sample_bus =
     Some ([[0x80, 6, 0, 1, 0, 0, 8, 0]], [USBH_BUSY, USBH_BUSY, USBH_FAIL], h', b')"
proof -
  have e: "setup_bytes (enum_pkt sample_device 0 ENUM_IDLE) = [0x80, 6, 0, 1, 0, 0, 8, 0]" by (simp add: setup_bytes_def get_desc_def le16_bytes_def)
  have "EnumState sample_host = ENUM_IDLE" "RequestState sample_host = CMD_SEND" "last_ctrl_status sample_host = CTRL_IDLE"
    by (simp_all add: sample_host_def zero_host_def)
  from enum_idle_impatient [OF this sample_open, of sample_device True True] show ?thesis unfolding e by blast
qed

end
