(* ===== verification/Spec2Isabelle.thy ===== *)
theory Spec2Isabelle
  imports Descriptors Wire SystemRun MscErrors HcdInit Ch340Facts Enumerate
begin

text \<open>
  A model of the USB host stack of an STM32F107 board and of its application for a Quectel EC20
  modem, with the properties that make its parts correct.

  The program. Devices hang off the root port or off hubs. For each device there is a host handle
  with a state machine (\<^verbatim>\<open>USBH_Process\<close>) that enumerates the device through control transfers
  (\<^verbatim>\<open>USBH_CtlReq\<close>), stores its descriptors, picks a class driver and runs it. Transfers go through
  pipes, which are channels of the controller; the interrupt handler of the HAL completes them and
  wakes the host thread through a message queue. The modem driver cuts the application's data into
  packets and hands received packets to the application, whose sender thread works through a list of
  AT commands. The hub driver finds new devices and removes lost ones. A driver for CH340 serial
  converters is compiled into the program, but nothing registers it.

  Theories, with the code each models (paths below \<^verbatim>\<open>src\<close>; \<^verbatim>\<open>LIB\<close> is \<^verbatim>\<open>Middle/STM32_USB_Host_Library\<close>):

  \<^item> \<open>Prelude\<close>: reads and writes of arrays that may fault, options, words, bounded message queues.
  \<^item> \<open>UsbTypes\<close>, \<open>UsbState\<close>: the types of \<^verbatim>\<open>LIB/Core/Inc/usbh_def.h\<close> and of the class headers. A \<open>host\<close> is one
    \<^verbatim>\<open>USBH_HandleTypeDef\<close>; a \<open>bus\<close> is what all handles share: channels, pipe table, address table, queue,
    and a trace of the calls into hardware.
  \<^item> \<open>Hcd\<close>: requests to channels (\<^verbatim>\<open>Driver/Src/stm32f1xx_hal_hcd.c\<close>) and the wrappers of
    \<^verbatim>\<open>LIB/Core/Src/usbh_conf.c\<close>. \<open>IoReq\<close>: \<^verbatim>\<open>usbh_ioreq.c\<close>. \<open>Pools\<close>: \<^verbatim>\<open>usbh_pipes.c\<close> and the addresses.
  \<^item> \<open>CtlReq\<close>, \<open>Descriptors\<close>: the control transfer machine, the standard requests and the parsers of
    \<^verbatim>\<open>usbh_ctlreq.c\<close>. \<open>Requests\<close>: drivers that work through control requests one after the other.
  \<^item> \<open>World\<close>, \<open>HandleTree\<close>, \<open>Core\<close>: all handles together, the tree they form, and \<^verbatim>\<open>usbh_core.c\<close>.
    \<open>Enumerate\<close>: its enumeration from the first request to the last, against a device that answers.
  \<^item> \<open>MscTypes\<close>, \<open>Msc\<close>, \<open>MscFacts\<close>: the mass-storage driver, \<^verbatim>\<open>LIB/Class/MSC/Src\<close>: \<^verbatim>\<open>usbh_msc.c\<close>, the bulk-only
    transport \<^verbatim>\<open>usbh_msc_bot.c\<close> and the commands \<^verbatim>\<open>usbh_msc_scsi.c\<close>. \<open>MscTransfer\<close>: a command on the
    bus, from its wrapper to its status. \<open>MscCommands\<close>: what the commands say and store. \<open>MscSafety\<close>: the
    tables and the unit counter over any run. \<open>MscErrors\<close>: error paths.
  \<^item> \<open>BulkSender\<close>: a buffer sent packet by packet, as several drivers do it. \<open>Ec20\<close>:
    \<^verbatim>\<open>LIB/Class/EC20/Src/usbh_ec20.c\<close>. \<open>Ch340Types\<close>, \<open>Ch340\<close>, \<open>Ch340Facts\<close>: \<^verbatim>\<open>LIB/Class/CH340/Src/usbh_ch340.c\<close>,
    on a handle of its own: \<open>System\<close> has no such device, as the program has none.
  \<^item> \<open>Hub\<close>, \<open>HubFacts\<close>, \<open>HubTree\<close>:
    \<^verbatim>\<open>LIB/Class/HUB/Src/usbh_hub.c\<close>; \<open>HubTree\<close> has what the hub driver does to the tree.
  \<^item> \<open>AppEc20\<close>, \<open>AppFacts\<close>: \<^verbatim>\<open>User/app_ec20.c\<close> and \<^verbatim>\<open>User/test_usbh.c\<close>.
  \<^item> \<open>LlUsb\<close>: the registers of the controller, \<^verbatim>\<open>Driver/Src/stm32f1xx_ll_usb.c\<close>. \<open>HcdIrq\<close>: the interrupt
    handler of the HAL and its callbacks. \<open>Wire\<close>: a bulk send down to the FIFO. \<open>HcdInit\<close>: the
    bring-up of the controller and the waits of a stop.
  \<^item> \<open>System\<close>, \<open>SystemGraph\<close>: the function pointers tied, the interrupt handler running where code spins.
    \<open>SystemRun\<close>: any order of host thread, senders and interrupts.

  Conventions. A result of \<open>None\<close> is a fault (a NULL dereference, an access outside an object, a
  division by zero) or a loop that does not end; \<open>Some (status, ...)\<close> is a return. Pointers into
  buffers are \<open>buf_ptr\<close>, the object and an offset. Words have the width of the C type. The class
  drivers and the user callback are called through \<open>usb_env\<close>, as the code calls them through function
  pointers; the allocator answers from a list.

  Contracts. \<open>message_queue\<close> (RTOS queues), \<open>slot_pool\<close> (pipes, addresses), \<open>host_callbacks\<close> (what the
  core expects of drivers and of the user callback: binding leaves the tree alone, polling and release
  keep it) and \<open>calm_irq\<close> (what a port request expects of the
  interrupts between its polls), \<open>request_data\<close> (a request whose answer the device puts into memory) and
  \<open>requester\<close>, which extends it by what a poll of a driver promises while it is at a request (the
  enumeration, the hub's port power, the bring-up and the line settings of the serial converter), \<open>packet_sender\<close>
  (what a poll promises of the packets still to send: the modem and the serial converter), \<open>cmd_invariant\<close> and
  \<open>unit_invariant\<close> (what every command, and every step of a unit, keeps of the disk's handle) are locales; each
  is interpreted on the definitions that provide it.

  What the lemmas show. Pools: allocation and release are exact. Control transfers: a request
  completes within its stages, the pipes and the error count stay in bounds, errors are retried
  twice. Descriptors: parsing inverts encoding and never leaves the tables when it returns. Core:
  enumeration is monotone, and ends with the device's descriptors when the device answers in time; its first
  request has no time. Modem: a transmission is the buffer in
  order, every packet once; a command's answer is found wherever packets are cut; a silent modem is
  power-cycled. System: every handle's machine follows its graph whatever is behind it, and the
  handles form a tree in every run. Hub: every port is powered once, the endpoint is polled at its interval, requests
  are bounded. Disk: a block transfer is the wrapper, the buffer in order and the status, and the
  status decides; the tables keep their shape. Serial converter: the divisor is the best there is for the
  rate, the bring-up and the line settings send their requests once and end, a transmission is the buffer in
  order with refused packets repeated. Controller: a bulk channel follows the alternating bit protocol, transfers are
  programmed field by field, each pending channel is served once.
  Several properties state defects: states that are never left, loops that never end.

  Bounds. Port requests poll 256 times and a child is enumerated with at most 5000 polls, as in the
  code; both are recursion on the number of polls left. \<open>TREE_DEPTH\<close> (8) bounds the depth of the tree
  the frame interrupt walks; the standard allows five hubs in a chain. Loops that may not end are
  \<open>partial_function (option)\<close>. \<open>system_env\<close> is indexed by the nesting of driver calls.

  Not modelled. The other class drivers of the library (CDC, HID, audio, MTP, template) are not in the
  project file. FreeRTOS, LwIP and FatFs are third
  party; of the RTOS only the documented behaviour of a bounded queue is used. Pins and clocks, the
  device mode functions, log output, the start of threads in \<^verbatim>\<open>main.c\<close> and the network tests hold no
  logic of the stack.
\<close>

end
